(* ===== verification/Prelude.thy ===== *)
theory Prelude
  imports "HOL-Library.Word" "HOL-Library.Sublist" "HOL-Library.Signed_Division"
begin

text \<open>
  Shared vocabulary of the development: names for the machine integers of the C code, the
  general facts on lists and words that several components use, and two interfaces that do not
  depend on a component: \<open>invariant_system\<close> (an invariant kept by every step holds in every
  reachable state) and \<open>codec\<close> (what an encoder and its decoder promise each other).
\<close>

unbundle bit_operations_syntax

section \<open>Machine integers\<close>

text \<open>
  \<open>uint8_t\<close>, \<open>uint16_t\<close> and \<open>uint32_t\<close> are words of their width, so that every wrap-around of
  the code happens in the model. A C \<open>int\<close> return code is a HOL \<open>int\<close>; where the code casts an
  unsigned error code to \<open>int\<close> the model applies \<open>sint\<close>.
\<close>

type_synonym u8 = "8 word"
type_synonym u16 = "16 word"
type_synonym u32 = "32 word"
type_synonym u64 = "64 word"

named_theorems frame_simps \<open>fields an operation does not write\<close>
named_theorems clib_simps \<open>evaluation of the C library functions on known text\<close>

text \<open>The return codes of include/errcode.h that several components share.\<close>

abbreviation (input) ERRCODE_SUCC :: u32 where "ERRCODE_SUCC \<equiv> 0"
abbreviation (input) ERRCODE_FAIL :: u32 where "ERRCODE_FAIL \<equiv> 0xFFFFFFFF"
abbreviation (input) ERRCODE_INVALID_PARAM :: u32 where "ERRCODE_INVALID_PARAM \<equiv> 0x80000001"
abbreviation (input) ERRCODE_MALLOC :: u32 where "ERRCODE_MALLOC \<equiv> 0x80000005"

section \<open>General facts\<close>

lemma funpow8: "(f ^^ 8) x = f (f (f (f (f (f (f (f x)))))))"
  by (simp add: numeral_eq_Suc)

lemma xor_self_eq_0: "x XOR y = 0 \<longleftrightarrow> x = (y :: 'a::len word)"
  by (metis xor.assoc xor.left_neutral xor_self_eq)

lemma xor_cancel_left: "c XOR x = c XOR y \<longleftrightarrow> x = (y :: 'a::len word)"
  by (metis xor.assoc xor.left_neutral xor_self_eq)

lemma xor_cancel_right: "x XOR c = y XOR c \<longleftrightarrow> x = (y :: 'a::len word)"
  by (metis xor_cancel_left xor.commute)

lemma takeWhile_all: "\<forall>x \<in> set xs. P x \<Longrightarrow> takeWhile P (xs @ ys) = xs @ takeWhile P ys"
  by (induction xs) auto

lemma dropWhile_all: "\<forall>x \<in> set xs. P x \<Longrightarrow> dropWhile P (xs @ ys) = dropWhile P ys"
  by (induction xs) auto

lemma sint32_lower: "- 2147483648 \<le> sint (w :: u32)"
  using sint_ge [of w] by simp

lemma sint32_upper: "sint (w :: u32) \<le> 2147483647"
  using sint_lt [of w] by simp

lemma unat_u32_less: "unat (w :: u32) < 4294967296"
proof -
  have "unat w < 2 ^ LENGTH(32)" by (rule unsigned_less)
  then show ?thesis by simp
qed

lemma unat_u8_less: "unat (w :: u8) < 256"
proof -
  have "unat w < 2 ^ LENGTH(8)" by (rule unsigned_less)
  then show ?thesis by simp
qed

lemma u8_FF_and: "0xFF AND b = (b :: u8)"
proof -
  have m: "(0xFF :: u8) = - 1" by simp
  show ?thesis unfolding m by simp
qed

lemma unat_u16_less: "unat (w :: u16) < 65536"
proof -
  have "unat w < 2 ^ LENGTH(16)" by (rule unsigned_less)
  then show ?thesis by simp
qed

lemma word_less_pow2I:
  fixes w :: "'a::len word"
  assumes "\<And>n. bit w n \<Longrightarrow> n < k" and "k < LENGTH('a)"
  shows "w < 2 ^ k"
proof -
  have "take_bit k w = w" by (rule bit_word_eqI) (auto simp: bit_take_bit_iff assms)
  then have "w AND mask k = w" by (simp add: take_bit_eq_mask)
  then show ?thesis using and_mask_less_size [of k w] assms(2) by (simp add: word_size)
qed

lemma less_pow2_no_bit:
  fixes w :: "'a::len word"
  assumes "w < 2 ^ k" and "k \<le> n"
  shows "\<not> bit w n"
  using assms by (metis bit_take_bit_iff leD less_mask_eq take_bit_eq_mask)

lemma u32_0F_mask: "(0x0F :: u32) = mask 4"
  by (simp add: mask_eq_exp_minus_1)

lemma u16_FF_mask: "(0xFF :: u16) = mask 8"
  by (simp add: mask_eq_exp_minus_1)

lemma u32_FF_mask: "(0xFF :: u32) = mask 8"
  by (simp add: mask_eq_exp_minus_1)

lemma unat_ucast_u32_u64: "unat (ucast (w :: u32) :: u64) = unat w"
  by (simp add: unsigned_ucast_eq unsigned_take_bit_eq take_bit_nat_eq_self_iff
    order_less_trans [OF unat_u32_less])

lemma unat_ucast_u8_u32: "unat (ucast (w :: u8) :: u32) = unat w"
  by (simp add: unsigned_ucast_eq unsigned_take_bit_eq take_bit_nat_eq_self_iff
    order_less_trans [OF unat_u8_less])

lemma unat_ucast_u8_u16: "unat (ucast (w :: u8) :: u16) = unat w"
  by (simp add: unsigned_ucast_eq unsigned_take_bit_eq take_bit_nat_eq_self_iff
    order_less_trans [OF unat_u8_less])

lemma unat_ucast_u16_u32: "unat (ucast (w :: u16) :: u32) = unat w"
  by (simp add: unsigned_ucast_eq unsigned_take_bit_eq take_bit_nat_eq_self_iff
    order_less_trans [OF unat_u16_less])

lemma unat_of_nat_u32: "n < 4294967296 \<Longrightarrow> unat (of_nat n :: u32) = n"
  by (simp add: unat_of_nat)

lemma unat_of_nat_u16: "n < 65536 \<Longrightarrow> unat (of_nat n :: u16) = n"
  by (simp add: unat_of_nat)

lemma unat_ucast_u32_u16: "unat (ucast (w :: u32) :: u16) = unat w mod 65536"
  by (simp add: unsigned_ucast_eq unsigned_take_bit_eq take_bit_eq_mod)

lemma sint_u32_of_nat: "n < 2 ^ 31 \<Longrightarrow> sint (of_nat n :: u32) = int n"
  by (simp add: signed_of_nat signed_take_bit_int_eq_self)

section \<open>Reachable states and invariants\<close>

inductive reaches :: "('s \<Rightarrow> bool) \<Rightarrow> ('s \<Rightarrow> 's \<Rightarrow> bool) \<Rightarrow> 's \<Rightarrow> bool"
  for init :: "'s \<Rightarrow> bool" and step :: "'s \<Rightarrow> 's \<Rightarrow> bool" where
  reaches_init: "init s \<Longrightarrow> reaches init step s"
| reaches_step: "reaches init step s \<Longrightarrow> step s t \<Longrightarrow> reaches init step t"

locale invariant_system =
  fixes init :: "'s \<Rightarrow> bool" and step :: "'s \<Rightarrow> 's \<Rightarrow> bool" and inv :: "'s \<Rightarrow> bool"
  assumes inv_init: "init s \<Longrightarrow> inv s"
    and inv_step: "inv s \<Longrightarrow> step s t \<Longrightarrow> inv t"
begin

lemma inv_reaches: "reaches init step s \<Longrightarrow> inv s"
  by (induction rule: reaches.induct) (auto intro: inv_init inv_step)

end

section \<open>Encoders and decoders\<close>

locale codec =
  fixes enc :: "'a \<Rightarrow> 'b" and dec :: "'b \<Rightarrow> 'a option" and ok :: "'a \<Rightarrow> bool"
  assumes dec_enc: "ok x \<Longrightarrow> dec (enc x) = Some x"
begin

lemma enc_inj: "ok x \<Longrightarrow> ok y \<Longrightarrow> enc x = enc y \<Longrightarrow> x = y"
  using dec_enc by (metis option.inject)

end

section \<open>Mailboxes\<close>

text \<open>A cell that keeps the last value put into it.\<close>

locale mailbox =
  fixes put :: "'v \<Rightarrow> 's \<Rightarrow> 's" and get :: "'s \<Rightarrow> 'v" and fits :: "'v \<Rightarrow> bool" and sound :: "'s \<Rightarrow> bool"
  assumes get_put: "sound s \<Longrightarrow> fits v \<Longrightarrow> get (put v s) = v"
    and sound_put: "sound s \<Longrightarrow> fits v \<Longrightarrow> sound (put v s)"
begin

lemma sound_puts: "sound s \<Longrightarrow> \<forall>v \<in> set vs. fits v \<Longrightarrow> sound (fold put vs s)"
  by (induction vs arbitrary: s) (auto simp: sound_put)

lemma get_puts: "sound s \<Longrightarrow> \<forall>v \<in> set vs. fits v \<Longrightarrow>
    get (fold put vs s) = (if vs = [] then get s else last vs)"
  using sound_puts [of s "butlast vs"] get_put [of "fold put (butlast vs) s" "last vs"]
  by (cases vs rule: rev_cases) auto

end

end
