(* ===== verification/I2cBus.thy ===== *)
theory I2cBus
  imports Prelude
begin

text \<open>
  The I2C wrapper of the car (drivers/i2c_bus.c) and the sensor and board code below the
  application: board/car_board.c, sensors/aht20.c, sensors/bh1750.c.

  The bus itself (the \<open>uapi_i2c_*\<close> driver and the devices behind it) is outside the model: it is
  the field \<open>i2c_ans\<close>, which gives for the n-th bus operation since boot the error code and the
  bytes a read delivers. Nothing is assumed of it. \<open>i2c_log\<close> records, oldest first, what the code
  does to the bus, with the answers it got, and its delays; it is what the properties of the
  motor bridge read.
\<close>

section \<open>The bus\<close>

datatype i2c_event =
    I2cInit int
  | I2cDeinit
  | I2cWrite u8 "u8 list" int
  | I2cRead u8 nat int
  | PinMode nat nat
  | OsDelay nat
  | MDelay nat

record i2c_env =
  i2c_ans :: "nat \<Rightarrow> u32 \<times> u8 list"
  i2c_n :: nat
  i2c_log :: "i2c_event list"

definition log_ev :: "i2c_event \<Rightarrow> 'a i2c_env_scheme \<Rightarrow> 'a i2c_env_scheme" where
  "log_ev ev s = s\<lparr>i2c_log := i2c_log s @ [ev]\<rparr>"

definition bus_answer :: "'a i2c_env_scheme \<Rightarrow> u32 \<times> u8 list" where
  "bus_answer s = i2c_ans s (i2c_n s)"

definition bus_next :: "i2c_event \<Rightarrow> 'a i2c_env_scheme \<Rightarrow> 'a i2c_env_scheme" where
  "bus_next ev s = s\<lparr>i2c_n := Suc (i2c_n s), i2c_log := i2c_log s @ [ev]\<rparr>"

definition osDelay :: "nat \<Rightarrow> 'a i2c_env_scheme \<Rightarrow> 'a i2c_env_scheme" where
  "osDelay ticks s = log_ev (OsDelay ticks) s"

text \<open>A bus on which every operation is acknowledged and every read delivers zeros.\<close>

definition quiet_bus :: i2c_env where
  "quiet_bus = \<lparr>i2c_ans = (\<lambda>_. (0, [])), i2c_n = 0, i2c_log = []\<rparr>"

section \<open>drivers/i2c_bus.c\<close>

definition car_i2c_init :: "'a i2c_env_scheme \<Rightarrow> int \<times> 'a i2c_env_scheme" where
  "car_i2c_init s = (let ret = sint (fst (bus_answer s)) in (ret, bus_next (I2cInit ret) s))"

definition car_i2c_reset :: "'a i2c_env_scheme \<Rightarrow> int \<times> 'a i2c_env_scheme" where
  "car_i2c_reset s = car_i2c_init (bus_next I2cDeinit s)"

text \<open>A null buffer is \<open>None\<close>; the length is that of the buffer.\<close>

definition car_i2c_write :: "u8 \<Rightarrow> u8 list option \<Rightarrow> 'a i2c_env_scheme \<Rightarrow> int \<times> 'a i2c_env_scheme" where
  "car_i2c_write addr buf s =
     (case buf of None \<Rightarrow> (- 1, s)
      | Some bytes \<Rightarrow> if bytes = [] then (- 1, s)
          else let ret = sint (fst (bus_answer s))
               in (ret, bus_next (I2cWrite addr bytes ret) s))"

text \<open>A read of \<open>len\<close> bytes overwrites a zeroed buffer with the bytes the bus delivers.\<close>

definition fill_buf :: "nat \<Rightarrow> u8 list \<Rightarrow> u8 list" where
  "fill_buf len bs = take len (bs @ replicate len 0)"

definition car_i2c_read :: "u8 \<Rightarrow> nat \<Rightarrow> 'a i2c_env_scheme \<Rightarrow> (int \<times> u8 list) \<times> 'a i2c_env_scheme" where
  "car_i2c_read addr len s =
     (if len = 0 then ((- 1, []), s)
      else let ret = sint (fst (bus_answer s))
           in ((ret, fill_buf len (snd (bus_answer s))), bus_next (I2cRead addr len ret) s))"

definition car_i2c_probe :: "u8 \<Rightarrow> 'a i2c_env_scheme \<Rightarrow> int \<times> 'a i2c_env_scheme" where
  "car_i2c_probe addr s = (let (r, s') = car_i2c_read addr 1 s in (fst r, s'))"

lemmas i2c_defs = car_i2c_init_def car_i2c_reset_def car_i2c_write_def car_i2c_read_def
  car_i2c_probe_def bus_next_def log_ev_def osDelay_def Let_def

lemma length_fill_buf [simp]: "length (fill_buf len bs) = len"
  by (simp add: fill_buf_def)

lemma car_i2c_write_i32:
  "car_i2c_write addr buf s = (ret, s') \<Longrightarrow> - 2147483648 \<le> ret \<and> ret \<le> 2147483647"
  using sint32_lower sint32_upper
  by (auto simp: i2c_defs split: option.splits if_splits)

lemma car_i2c_read_i32:
  "car_i2c_read addr len s = ((ret, bs), s') \<Longrightarrow> - 2147483648 \<le> ret \<and> ret \<le> 2147483647"
  using sint32_lower sint32_upper by (auto simp: i2c_defs split: if_splits)

section \<open>board/car_board.c\<close>

abbreviation (input) CAR_I2C_ADDR_PCA9555 :: u8 where "CAR_I2C_ADDR_PCA9555 \<equiv> 0x28"
abbreviation (input) CAR_I2C_ADDR_PCA9555_SCHEMATIC :: u8 where "CAR_I2C_ADDR_PCA9555_SCHEMATIC \<equiv> 0x14"
abbreviation (input) CAR_I2C_ADDR_WHEEL_PWM :: u8 where "CAR_I2C_ADDR_WHEEL_PWM \<equiv> 0x5A"
abbreviation (input) CAR_I2C_ADDR_STM8S_MOTOR_LEGACY :: u8 where "CAR_I2C_ADDR_STM8S_MOTOR_LEGACY \<equiv> 0x15"
abbreviation (input) CAR_I2C_ADDR_STM8S_MOTOR_COMPAT :: u8 where "CAR_I2C_ADDR_STM8S_MOTOR_COMPAT \<equiv> 0x2A"
abbreviation (input) CAR_I2C_ADDR_BH1750 :: u8 where "CAR_I2C_ADDR_BH1750 \<equiv> 0x23"
abbreviation (input) CAR_I2C_ADDR_AHT20 :: u8 where "CAR_I2C_ADDR_AHT20 \<equiv> 0x38"
abbreviation (input) CAR_I2C_ADDR_SSD1306 :: u8 where "CAR_I2C_ADDR_SSD1306 \<equiv> 0x3C"
abbreviation (input) CAR_I2C_ADDR_CW2015 :: u8 where "CAR_I2C_ADDR_CW2015 \<equiv> 0x62"

definition g_probe_items :: "u8 list" where
  "g_probe_items = [CAR_I2C_ADDR_BH1750, CAR_I2C_ADDR_AHT20, CAR_I2C_ADDR_SSD1306,
     CAR_I2C_ADDR_PCA9555, CAR_I2C_ADDR_PCA9555_SCHEMATIC, CAR_I2C_ADDR_WHEEL_PWM,
     CAR_I2C_ADDR_STM8S_MOTOR_LEGACY, CAR_I2C_ADDR_STM8S_MOTOR_COMPAT, CAR_I2C_ADDR_CW2015]"

definition core_addr :: "u8 \<Rightarrow> bool" where
  "core_addr a = (a = CAR_I2C_ADDR_BH1750 \<or> a = CAR_I2C_ADDR_AHT20 \<or> a = CAR_I2C_ADDR_SSD1306)"

definition car_board_init :: "'a i2c_env_scheme \<Rightarrow> int \<times> 'a i2c_env_scheme" where
  "car_board_init s =
     (let (ret, s1) = car_i2c_init (log_ev (PinMode 16 2) (log_ev (PinMode 15 2) s))
      in if ret \<noteq> 0 then (ret, s1) else (0, s1))"

text \<open>The probe loop: every address of the table is read, the core devices that answer count.\<close>

fun probe_items :: "u8 list \<Rightarrow> nat \<Rightarrow> 'a i2c_env_scheme \<Rightarrow> nat \<times> 'a i2c_env_scheme" where
  "probe_items [] core_ack s = (core_ack, s)"
| "probe_items (a # as) core_ack s =
     (let (ret, s1) = car_i2c_probe a s
      in probe_items as (if ret = 0 \<and> core_addr a then Suc core_ack else core_ack) s1)"

definition car_board_probe_core_devices :: "'a i2c_env_scheme \<Rightarrow> nat \<times> 'a i2c_env_scheme" where
  "car_board_probe_core_devices s =
     (let (r1, s1) = car_i2c_probe CAR_I2C_ADDR_BH1750 s;
          n1 = (if r1 = 0 then Suc 0 else 0);
          (r2, s2) = car_i2c_probe CAR_I2C_ADDR_AHT20 s1;
          n2 = (if r2 = 0 then Suc n1 else n1);
          (r3, s3) = car_i2c_probe CAR_I2C_ADDR_SSD1306 s2;
          n3 = (if r3 = 0 then Suc n2 else n2)
      in (n3, s3))"

definition car_board_probe_i2c_devices :: "'a i2c_env_scheme \<Rightarrow> int \<times> 'a i2c_env_scheme" where
  "car_board_probe_i2c_devices s =
     (let (ack, s1) = probe_items g_probe_items 0 s;
          (ack2, s2) = (if ack = 0 then
              let (reset_ret, sr) = car_i2c_reset s1
              in if reset_ret = 0 then car_board_probe_core_devices sr else (0, sr)
            else (ack, s1))
      in (if 2 \<le> ack2 then 0 else - 1, s2))"

end
