(* ===== verification/Sensors.thy ===== *)
theory Sensors
  imports I2cBus
begin

text \<open>
  The environment sensors of the car: sensors/aht20.c (temperature and humidity, 20-bit raw
  values packed in five bytes) and sensors/bh1750.c (light). The \<open>*_read\<close> functions store their
  results through pointers; here they return the error code together with the values, which
  are meaningful when the code is 0 (a null pointer argument is \<open>False\<close>).
\<close>

section \<open>AHT20\<close>

definition aht20_init :: "'a i2c_env_scheme \<Rightarrow> int \<times> 'a i2c_env_scheme" where
  "aht20_init s =
     (let (ret, s1) = car_i2c_write CAR_I2C_ADDR_AHT20 (Some [0xBE, 0x08, 0x00]) s
      in (ret, osDelay 2 s1))"

definition aht20_raw_humi :: "u8 list \<Rightarrow> u32" where
  "aht20_raw_humi raw = (push_bit 12 (ucast (raw ! 1))) OR (push_bit 4 (ucast (raw ! 2)))
     OR (drop_bit 4 (ucast (raw ! 3)))"

definition aht20_raw_temp :: "u8 list \<Rightarrow> u32" where
  "aht20_raw_temp raw = (push_bit 16 (ucast (raw ! 3) AND 0x0F)) OR (push_bit 8 (ucast (raw ! 4)))
     OR ucast (raw ! 5)"

definition aht20_humi_x10 :: "u32 \<Rightarrow> u32" where
  "aht20_humi_x10 raw_humi = ucast (((ucast raw_humi :: u64) * 1000) div 1048576)"

definition aht20_temp_x10 :: "u32 \<Rightarrow> int" where
  "aht20_temp_x10 raw_temp = sint (ucast (((ucast raw_temp :: u64) * 2000) div 1048576) :: u32) - 500"

definition aht20_read :: "bool \<Rightarrow> 'a i2c_env_scheme \<Rightarrow> (int \<times> int \<times> u32) \<times> 'a i2c_env_scheme" where
  "aht20_read ptrs_ok s =
     (if \<not> ptrs_ok then ((- 1, 0, 0), s)
      else let (ret, s1) = car_i2c_write CAR_I2C_ADDR_AHT20 (Some [0xAC, 0x33, 0x00]) s
       in if ret \<noteq> 0 then ((ret, 0, 0), s1)
       else let ((ret2, raw), s3) = car_i2c_read CAR_I2C_ADDR_AHT20 6 (osDelay 8 s1)
        in if ret2 \<noteq> 0 then ((ret2, 0, 0), s3)
        else if (raw ! 0) AND 0x80 \<noteq> 0 then ((- 2, 0, 0), s3)
        else if (raw ! 0) AND 0x08 = 0 then ((- 3, 0, 0), s3)
        else ((0, aht20_temp_x10 (aht20_raw_temp raw), aht20_humi_x10 (aht20_raw_humi raw)), s3))"

section \<open>BH1750\<close>

definition bh1750_write_cmd :: "u8 \<Rightarrow> 'a i2c_env_scheme \<Rightarrow> int \<times> 'a i2c_env_scheme" where
  "bh1750_write_cmd cmd s = car_i2c_write CAR_I2C_ADDR_BH1750 (Some [cmd]) s"

definition bh1750_init :: "'a i2c_env_scheme \<Rightarrow> int \<times> 'a i2c_env_scheme" where
  "bh1750_init s =
     (let (ret, s1) = bh1750_write_cmd 0x01 s
      in if ret \<noteq> 0 then (ret, s1) else bh1750_write_cmd 0x10 (osDelay 2 s1))"

definition bh1750_value :: "u8 list \<Rightarrow> u32" where
  "bh1750_value raw = (push_bit 8 (ucast (raw ! 0))) OR ucast (raw ! 1)"

definition bh1750_lux_x10 :: "u32 \<Rightarrow> u32" where
  "bh1750_lux_x10 value = (value * 100) div 12"

definition bh1750_read :: "bool \<Rightarrow> 'a i2c_env_scheme \<Rightarrow> (int \<times> u32) \<times> 'a i2c_env_scheme" where
  "bh1750_read ptr_ok s =
     (if \<not> ptr_ok then ((- 1, 0), s)
      else let ((ret, raw), s1) = car_i2c_read CAR_I2C_ADDR_BH1750 2 s
       in if ret \<noteq> 0 then ((ret, 0), s1)
       else ((0, bh1750_lux_x10 (bh1750_value raw)), s1))"

section \<open>What the conversions compute\<close>

lemma aht20_raw_bounds: "aht20_raw_humi raw < 2 ^ 20" "aht20_raw_temp raw < 2 ^ 20"
  by (rule word_less_pow2I; auto simp: aht20_raw_humi_def aht20_raw_temp_def bit_simps
    u32_0F_mask dest!: bit_imp_le_length)+

lemma scale_unat:
  fixes w :: u32
  assumes "unat w < 2 ^ 20" and "k \<le> 4000"
  shows "unat (((ucast w :: u64) * of_nat k) div 1048576) = unat w * k div 1048576"
proof -
  have "unat w * k < 2 ^ 20 * 4001"
    using assms by (intro mult_strict_mono) auto
  then have "unat w * k < 2 ^ 64" by simp
  moreover have "unat (of_nat k :: u64) = k"
    using assms(2) by (simp add: unat_of_nat)
  ultimately show ?thesis by (simp add: unat_div unat_word_ariths unat_ucast_u32_u64)
qed

lemma scale_u32:
  fixes w :: u32
  assumes "unat w < 2 ^ 20" and "k \<le> 4000"
  shows "(ucast (((ucast w :: u64) * of_nat k) div 1048576) :: u32)
    = of_nat (unat w * k div 1048576)"
  by (metis assms scale_unat of_nat_unat)

lemma scale_bound: "n < 2 ^ 20 \<Longrightarrow> 0 < k \<Longrightarrow> n * k div 1048576 < k" for n k :: nat
  by (simp add: div_less_iff_less_mult mult.commute)

lemma aht20_humi_x10_value:
  "raw < 2 ^ 20 \<Longrightarrow> unat (aht20_humi_x10 raw) = unat raw * 1000 div 1048576"
  using scale_u32 [of raw 1000] scale_bound [of "unat raw" 1000]
  by (simp add: aht20_humi_x10_def word_less_nat_alt unat_of_nat)

lemma aht20_temp_x10_value:
  "raw < 2 ^ 20 \<Longrightarrow> aht20_temp_x10 raw = int (unat raw * 2000 div 1048576) - 500"
  using scale_u32 [of raw 2000] scale_bound [of "unat raw" 2000]
  by (simp add: aht20_temp_x10_def word_less_nat_alt sint_u32_of_nat)

lemma aht20_humi_bound: "raw < 2 ^ 20 \<Longrightarrow> unat (aht20_humi_x10 raw) < 1000"
  using scale_bound [of "unat raw" 1000]
  by (simp add: aht20_humi_x10_value word_less_nat_alt)

lemma aht20_temp_bound:
  "raw < 2 ^ 20 \<Longrightarrow> - 500 \<le> aht20_temp_x10 raw \<and> aht20_temp_x10 raw < 1500"
  using scale_bound [of "unat raw" 2000]
  by (simp add: aht20_temp_x10_value word_less_nat_alt)

lemma bh1750_value_bound: "bh1750_value raw < 2 ^ 16"
  by (rule word_less_pow2I)
    (auto simp: bh1750_value_def bit_simps dest!: bit_imp_le_length)

lemma bh1750_lux_value:
  "v < 2 ^ 16 \<Longrightarrow> unat (bh1750_lux_x10 v) = unat v * 100 div 12"
  by (simp add: bh1750_lux_x10_def unat_div unat_word_ariths word_less_nat_alt)

lemma bh1750_lux_bound: "v < 2 ^ 16 \<Longrightarrow> unat (bh1750_lux_x10 v) \<le> 546125"
  by (simp add: bh1750_lux_value word_less_nat_alt)

lemma aht20_read_result:
  assumes "aht20_read True s = ((ret, t, h), s')"
  shows "(ret = 0 \<longrightarrow> - 500 \<le> t \<and> t < 1500 \<and> unat h < 1000)
    \<and> - 2147483648 \<le> ret \<and> ret \<le> 2147483647"
  using assms aht20_temp_bound [OF aht20_raw_bounds(2)] aht20_humi_bound [OF aht20_raw_bounds(1)]
  by (auto simp: aht20_read_def Let_def split: prod.splits if_splits
    dest: car_i2c_write_i32 car_i2c_read_i32)

lemma bh1750_read_result:
  assumes "bh1750_read True s = ((ret, l), s')"
  shows "(ret = 0 \<longrightarrow> unat l \<le> 546125) \<and> - 2147483648 \<le> ret \<and> ret \<le> 2147483647"
  using assms
  by (auto simp: bh1750_read_def Let_def bh1750_lux_bound [OF bh1750_value_bound]
    split: prod.splits if_splits dest: car_i2c_read_i32)

section \<open>The bytes of the sensor\<close>

text \<open>
  The six bytes of a sample as the AHT20 data sheet lays them out and the code reads them: the
  status byte, 20 bits of humidity, 20 bits of temperature.
\<close>

definition aht20_pack :: "u8 \<Rightarrow> u32 \<Rightarrow> u32 \<Rightarrow> u8 list" where
  "aht20_pack st h t = [st, ucast (drop_bit 12 h), ucast (drop_bit 4 h),
     ucast (push_bit 4 (h AND 0x0F)) OR ucast (drop_bit 16 t), ucast (drop_bit 8 t), ucast t]"

lemma aht20_unpack_humi:
  assumes "h < 2 ^ 20" "t < 2 ^ 20"
  shows "aht20_raw_humi (aht20_pack st h t) = h"
proof (rule bit_word_eqI)
  fix n assume "n < LENGTH(32)"
  note hi = less_pow2_no_bit [OF assms(1)] less_pow2_no_bit [OF assms(2)]
  consider "n < 4" | "4 \<le> n" "n < 12" | "12 \<le> n" "n < 20" | "20 \<le> n" by linarith
  then show "bit (aht20_raw_humi (aht20_pack st h t)) n = bit h n"
    by cases (use \<open>n < LENGTH(32)\<close> in \<open>auto simp: aht20_raw_humi_def aht20_pack_def bit_simps
      u32_0F_mask hi\<close>)
qed

lemma aht20_unpack_temp:
  assumes "h < 2 ^ 20" "t < 2 ^ 20"
  shows "aht20_raw_temp (aht20_pack st h t) = t"
proof (rule bit_word_eqI)
  fix n assume "n < LENGTH(32)"
  note hi = less_pow2_no_bit [OF assms(1)] less_pow2_no_bit [OF assms(2)]
  consider "n < 8" | "8 \<le> n" "n < 16" | "16 \<le> n" "n < 20" | "20 \<le> n" by linarith
  then show "bit (aht20_raw_temp (aht20_pack st h t)) n = bit t n"
    by cases (use \<open>n < LENGTH(32)\<close> in \<open>auto simp: aht20_raw_temp_def aht20_pack_def bit_simps
      u32_0F_mask hi\<close>)
qed

text \<open>C16: A measurement the sensor delivers comes out as its physical value: for every 20-bit humidity and
  temperature packed as the data sheet lays them out, with the status byte saying calibrated and
  not busy, \<open>aht20_read\<close> returns success with tenths of a degree (raw * 200 / 2^20 - 50) and tenths of
  a percent (raw * 100 / 2^20), rounded down; a busy or uncalibrated status is refused with -2 or -3.\<close>

theorem aht20_read_decodes:
  assumes "h < 2 ^ 20" and "t < 2 ^ 20" and "fst (i2c_ans s (i2c_n s)) = 0"
    and "i2c_ans s (Suc (i2c_n s)) = (0, aht20_pack st h t)"
  shows "fst (aht20_read True s) =
    (if st AND 0x80 \<noteq> 0 then (- 2, 0, 0) else if st AND 0x08 = 0 then (- 3, 0, 0)
     else (0, int (unat t * 2000 div 1048576) - 500, of_nat (unat h * 1000 div 1048576)))"
proof -
  have raw: "fill_buf 6 (aht20_pack st h t) = aht20_pack st h t" by (simp add: fill_buf_def aht20_pack_def)
  have "aht20_pack st h t ! 0 = st" by (simp add: aht20_pack_def)
  moreover have "aht20_humi_x10 h = of_nat (unat h * 1000 div 1048576)"
    using aht20_humi_x10_value [OF assms(1)] by (metis of_nat_unat ucast_id)
  ultimately show ?thesis
    using assms(3,4) by (simp add: aht20_read_def car_i2c_write_def car_i2c_read_def osDelay_def log_ev_def
      bus_next_def bus_answer_def Let_def raw aht20_unpack_humi [OF assms(1,2)] aht20_unpack_temp [OF assms(1,2)]
      aht20_temp_x10_value [OF assms(2)])
qed

lemma aht20_read_decodes_witness:
  "fst (aht20_read True (quiet_bus\<lparr>i2c_ans := (\<lambda>_. (0, aht20_pack 0x18 660602 393216))\<rparr>)) = (0, 250, 629)"
proof -
  have "unat (660602 :: u32) * 1000 div 1048576 = 629" "unat (393216 :: u32) * 2000 div 1048576 = 750" by simp_all
  then show ?thesis
    using aht20_read_decodes [of 660602 393216 "quiet_bus\<lparr>i2c_ans := (\<lambda>_. (0, aht20_pack 0x18 660602 393216))\<rparr>" "0x18"]
    by simp
qed

end
