(* ===== verification/Ssd1306.thy ===== *)
theory Ssd1306
  imports I2cBus
begin

text \<open>
  The driver of the OLED panel (she_docs/ssd1306.c, with the 7x10 font of ssd1306_fonts.c): a
  128 x 64 frame buffer in memory, drawing routines on it, and the transfer of commands and of
  the buffer over the I2C bus.

  The statics of the driver are the record \<open>ssd_t\<close>; the drawing routines are functions of it, and
  the routines that talk to the panel also pass the bus of I2cBus through. An access outside an
  array is the result \<open>None\<close>; so is a loop that does not end.
\<close>

section \<open>State\<close>

datatype SSD1306_COLOR = Black | White

abbreviation (input) SSD1306_WIDTH :: nat where "SSD1306_WIDTH \<equiv> 128"
abbreviation (input) SSD1306_HEIGHT :: nat where "SSD1306_HEIGHT \<equiv> 64"
abbreviation (input) SSD1306_BUFFER_SIZE :: nat where "SSD1306_BUFFER_SIZE \<equiv> 1024"

record ssd_t =
  SSD1306_Buffer :: "u8 list"
  CurrentX :: u16
  CurrentY :: u16
  Inverted :: u8
  Initialized :: u8
  DisplayOn :: u8
  g_ssd1306_current_loc_v :: int

record FontDef =
  FontWidth :: nat
  FontHeight :: nat
  font_data :: "u16 list"

section \<open>The bus side\<close>

definition ssd1306_SendData :: "u8 list \<Rightarrow> 'a i2c_env_scheme \<Rightarrow> u32 \<times> 'a i2c_env_scheme" where
  "ssd1306_SendData buffer s =
     (let retval = fst (bus_answer s) in (retval, bus_next (I2cWrite 0x3C buffer (sint retval)) s))"

definition ssd1306_WiteByte :: "u8 \<Rightarrow> u8 \<Rightarrow> 'a i2c_env_scheme \<Rightarrow> u32 \<times> 'a i2c_env_scheme" where
  "ssd1306_WiteByte regAddr byte s = ssd1306_SendData [regAddr, byte] s"

definition ssd1306_WriteCommand :: "u8 \<Rightarrow> 'a i2c_env_scheme \<Rightarrow> 'a i2c_env_scheme" where
  "ssd1306_WriteCommand byte s = snd (ssd1306_WiteByte 0x00 byte s)"

text \<open>
  Each byte is preceded by a control byte, the last one by one without the continuation bit; the
  local array has room for 128 bytes and is always sent whole.
\<close>

definition ssd1306_WriteData :: "u8 list \<Rightarrow> 'a i2c_env_scheme \<Rightarrow> 'a i2c_env_scheme option" where
  "ssd1306_WriteData buffer s =
     (if buffer = [] \<or> SSD1306_WIDTH < length buffer then None
      else let data = concat (map (\<lambda>b. [0xC0, b]) buffer) @ replicate (256 - 2 * length buffer) 0
        in Some (snd (ssd1306_SendData (data[2 * (length buffer - 1) := 0x40]) s)))"

definition ssd1306_Reset :: "'a i2c_env_scheme \<Rightarrow> 'a i2c_env_scheme" where
  "ssd1306_Reset s = log_ev (MDelay 1) s"

definition ssd1306_SetContrast :: "u8 \<Rightarrow> 'a i2c_env_scheme \<Rightarrow> 'a i2c_env_scheme" where
  "ssd1306_SetContrast value s = ssd1306_WriteCommand value (ssd1306_WriteCommand 0x81 s)"

definition ssd1306_SetDisplayOn :: "u8 \<Rightarrow> ssd_t \<Rightarrow> 'a i2c_env_scheme \<Rightarrow> ssd_t \<times> 'a i2c_env_scheme" where
  "ssd1306_SetDisplayOn on d s =
     (if on \<noteq> 0 then (d\<lparr>DisplayOn := 1\<rparr>, ssd1306_WriteCommand 0xAF s)
      else (d\<lparr>DisplayOn := 0\<rparr>, ssd1306_WriteCommand 0xAE s))"

definition ssd1306_GetDisplayOn :: "ssd_t \<Rightarrow> u8" where
  "ssd1306_GetDisplayOn d = DisplayOn d"

definition ssd1306_Init_CMD :: "ssd_t \<Rightarrow> 'a i2c_env_scheme \<Rightarrow> ssd_t \<times> 'a i2c_env_scheme" where
  "ssd1306_Init_CMD d s =
     ssd1306_SetDisplayOn 1 d (fold ssd1306_WriteCommand
       [0xA4, 0xD3, 0x00, 0xD5, 0xF0, 0xD9, 0x11, 0xDA, 0x12, 0xDB, 0x30, 0x8D, 0x14] s)"

text \<open>The frame: six command bytes with the continuation bit, then the whole buffer.\<close>

definition frame_bytes :: "u8 list \<Rightarrow> u8 list" where
  "frame_bytes buf = concat (map (\<lambda>b. [0x80, b]) [0x21, 0x00, 0x7F, 0x22, 0x00, 0x07]) @ 0x40 # buf"

definition ssd1306_UpdateScreen :: "ssd_t \<Rightarrow> 'a i2c_env_scheme \<Rightarrow> 'a i2c_env_scheme" where
  "ssd1306_UpdateScreen d s = snd (ssd1306_SendData (frame_bytes (SSD1306_Buffer d)) s)"

section \<open>Drawing\<close>

definition ssd1306_FillBuffer :: "u8 list \<Rightarrow> ssd_t \<Rightarrow> bool \<times> ssd_t" where
  "ssd1306_FillBuffer buf d =
     (if length buf \<le> SSD1306_BUFFER_SIZE
      then (True, d\<lparr>SSD1306_Buffer := buf @ drop (length buf) (SSD1306_Buffer d)\<rparr>)
      else (False, d))"

definition ssd1306_Fill :: "SSD1306_COLOR \<Rightarrow> ssd_t \<Rightarrow> ssd_t" where
  "ssd1306_Fill color d =
     d\<lparr>SSD1306_Buffer := replicate SSD1306_BUFFER_SIZE (if color = Black then 0x00 else 0xFF)\<rparr>"

text \<open>The colour is not inverted: the code computes the inverted colour and then does not use it.\<close>

definition ssd1306_DrawPixel :: "u8 \<Rightarrow> u8 \<Rightarrow> SSD1306_COLOR \<Rightarrow> ssd_t \<Rightarrow> ssd_t" where
  "ssd1306_DrawPixel x y color d =
     (if SSD1306_WIDTH \<le> unat x \<or> SSD1306_HEIGHT \<le> unat y then d
      else
        let i = unat x + (unat y div 8) * SSD1306_WIDTH;
            m = push_bit (unat y mod 8) (1 :: u8);
            b = SSD1306_Buffer d ! i
        in d\<lparr>SSD1306_Buffer := (SSD1306_Buffer d)[i := (if color = White then b OR m else b AND NOT m)]\<rparr>)"

definition bit_color :: "bool \<Rightarrow> SSD1306_COLOR" where
  "bit_color b = (if b then White else Black)"

definition invert_color :: "SSD1306_COLOR \<Rightarrow> SSD1306_COLOR" where
  "invert_color c = (if c = Black then White else Black)"

text \<open>One row of a glyph, then the rows from \<open>i\<close> on.\<close>

definition draw_glyph_row :: "nat \<Rightarrow> nat \<Rightarrow> u32 \<Rightarrow> SSD1306_COLOR \<Rightarrow> ssd_t \<Rightarrow> ssd_t" where
  "draw_glyph_row width i b color d =
     fold (\<lambda>j d. ssd1306_DrawPixel (ucast (CurrentX d + of_nat j)) (ucast (CurrentY d + of_nat i))
        (if push_bit j b AND 0x8000 \<noteq> 0 then color else invert_color color) d) [0 ..< width] d"

definition ssd1306_DrawChar :: "char \<Rightarrow> FontDef \<Rightarrow> SSD1306_COLOR \<Rightarrow> ssd_t \<Rightarrow> char \<times> ssd_t" where
  "ssd1306_DrawChar ch Font color d =
     (let c = (of_char ch :: nat)
      in if c < 32 \<or> 126 < c then (CHR 0x00, d)
         else if SSD1306_WIDTH < unat (CurrentX d) + FontWidth Font \<or>
            SSD1306_HEIGHT < unat (CurrentY d) + FontHeight Font then (CHR 0x00, d)
         else
           let d1 = fold (\<lambda>i d. draw_glyph_row (FontWidth Font) i
                 (ucast (font_data Font ! ((c - 32) * FontHeight Font + i))) color d) [0 ..< FontHeight Font] d
           in (ch, d1\<lparr>CurrentX := CurrentX d1 + of_nat (FontWidth Font)\<rparr>))"

text \<open>The character that could not be written, or NUL.\<close>

fun ssd1306_DrawString :: "string \<Rightarrow> FontDef \<Rightarrow> SSD1306_COLOR \<Rightarrow> ssd_t \<Rightarrow> char \<times> ssd_t" where
  "ssd1306_DrawString [] Font color d = (CHR 0x00, d)"
| "ssd1306_DrawString (c # cs) Font color d =
     (let (r, d1) = ssd1306_DrawChar c Font color d
      in if r \<noteq> c then (c, d1) else ssd1306_DrawString cs Font color d1)"

definition ssd1306_SetCursor :: "u8 \<Rightarrow> u8 \<Rightarrow> ssd_t \<Rightarrow> ssd_t" where
  "ssd1306_SetCursor x y d = d\<lparr>CurrentX := ucast x, CurrentY := ucast y\<rparr>"

section \<open>Lines and shapes\<close>

text \<open>
  The loop of \<open>ssd1306_DrawLine\<close> as it is written: its condition and its pixel use the arguments
  \<open>x1\<close> and \<open>y1\<close>, its body steps the locals \<open>x\<close> and \<open>y\<close>.
\<close>

partial_function (option) draw_line_loop ::
    "u8 \<Rightarrow> u8 \<Rightarrow> u8 \<Rightarrow> u8 \<Rightarrow> int \<Rightarrow> int \<Rightarrow> u8 \<Rightarrow> u8 \<Rightarrow> SSD1306_COLOR \<Rightarrow> u8 \<Rightarrow> u8 \<Rightarrow> int \<Rightarrow> ssd_t \<Rightarrow> ssd_t option"
  where
  "draw_line_loop x1 y1 x2 y2 deltaX deltaY signX signY color x y error d =
     (if x1 \<noteq> x2 \<or> y1 \<noteq> y2 then
        let d1 = ssd1306_DrawPixel x1 y1 color d;
            error2 = error * 2;
            error' = (if - deltaY < error2 then error - deltaY else error);
            x' = (if - deltaY < error2 then x + signX else x);
            error'' = (if error2 < deltaX then error' + deltaX else error');
            y' = (if error2 < deltaX then y + signY else y)
        in draw_line_loop x1 y1 x2 y2 deltaX deltaY signX signY color x' y' error'' d1
      else Some d)"

definition ssd1306_DrawLine ::
    "u8 \<Rightarrow> u8 \<Rightarrow> u8 \<Rightarrow> u8 \<Rightarrow> SSD1306_COLOR \<Rightarrow> ssd_t \<Rightarrow> ssd_t option" where
  "ssd1306_DrawLine x1 y1 x2 y2 color d =
     (let deltaX = abs (int (unat x2) - int (unat x1));
          deltaY = abs (int (unat y2) - int (unat y1));
          signX = (if x1 < x2 then 1 else - 1);
          signY = (if y1 < y2 then 1 else - 1)
      in draw_line_loop x1 y1 x2 y2 deltaX deltaY signX signY color x1 y1 (deltaX - deltaY)
           (ssd1306_DrawPixel x2 y2 color d))"

text \<open>A null vertex pointer is \<open>None\<close>; a line is drawn between each pair of neighbours.\<close>

fun draw_lines :: "(u8 \<times> u8) list \<Rightarrow> SSD1306_COLOR \<Rightarrow> ssd_t \<Rightarrow> ssd_t option" where
  "draw_lines ((xa, ya) # (xb, yb) # vs) color d =
     (case ssd1306_DrawLine xa ya xb yb color d of None \<Rightarrow> None
      | Some d1 \<Rightarrow> draw_lines ((xb, yb) # vs) color d1)"
| "draw_lines _ color d = Some d"

definition ssd1306_DrawPolyline ::
    "(u8 \<times> u8) list option \<Rightarrow> SSD1306_COLOR \<Rightarrow> ssd_t \<Rightarrow> ssd_t option" where
  "ssd1306_DrawPolyline par_vertex color d =
     (case par_vertex of None \<Rightarrow> Some d | Some vs \<Rightarrow> draw_lines vs color d)"

definition ssd1306_DrawRectangle ::
    "u8 \<Rightarrow> u8 \<Rightarrow> u8 \<Rightarrow> u8 \<Rightarrow> SSD1306_COLOR \<Rightarrow> ssd_t \<Rightarrow> ssd_t option" where
  "ssd1306_DrawRectangle x1 y1 x2 y2 color d =
     Option.bind (ssd1306_DrawLine x1 y1 x2 y1 color d) (\<lambda>d.
     Option.bind (ssd1306_DrawLine x2 y1 x2 y2 color d) (\<lambda>d.
     Option.bind (ssd1306_DrawLine x2 y2 x1 y2 color d)
       (ssd1306_DrawLine x1 y2 x1 y1 color)))"

text \<open>The \<open>do ... while (x <= 0)\<close> loop of the circle; coordinates are cut to bytes when drawn.\<close>

partial_function (option) draw_circle_loop ::
    "u8 \<Rightarrow> u8 \<Rightarrow> SSD1306_COLOR \<Rightarrow> int \<Rightarrow> int \<Rightarrow> int \<Rightarrow> ssd_t \<Rightarrow> ssd_t option" where
  "draw_circle_loop px py color x y err d =
     (let d1 = ssd1306_DrawPixel (px - of_int x) (py + of_int y) color d;
          d2 = ssd1306_DrawPixel (px + of_int x) (py + of_int y) color d1;
          d3 = ssd1306_DrawPixel (px + of_int x) (py - of_int y) color d2;
          d4 = ssd1306_DrawPixel (px - of_int x) (py - of_int y) color d3;
          y1 = (if err \<le> y then y + 1 else y);
          err1 = (if err \<le> y then err + (y1 * 2 + 1) else err);
          e2 = (if err \<le> y \<and> - x = y1 \<and> err \<le> x then 0 else err);
          x1 = (if x < e2 then x + 1 else x);
          err2 = (if x < e2 then err1 + (x1 * 2 + 1) else err1)
      in if x1 \<le> 0 then draw_circle_loop px py color x1 y1 err2 d4 else Some d4)"

definition ssd1306_DrawCircle :: "u8 \<Rightarrow> u8 \<Rightarrow> u8 \<Rightarrow> SSD1306_COLOR \<Rightarrow> ssd_t \<Rightarrow> ssd_t option" where
  "ssd1306_DrawCircle par_x par_y par_r par_color d =
     (if SSD1306_WIDTH \<le> unat par_x \<or> SSD1306_HEIGHT \<le> unat par_y then Some d
      else draw_circle_loop par_x par_y par_color (- int (unat par_r)) 0 (2 - 2 * int (unat par_r)) d)"

section \<open>Bitmaps\<close>

definition bitmap_bit :: "u8 \<Rightarrow> nat \<Rightarrow> bool" where
  "bitmap_bit byte k = (byte AND drop_bit k 0x80 \<noteq> 0)"

definition ssd1306_DrawBitmap :: "u8 list \<Rightarrow> ssd_t \<Rightarrow> ssd_t" where
  "ssd1306_DrawBitmap bitmap d =
     (let r = unat (of_nat (unat (of_nat (length bitmap * 8) :: u32) div SSD1306_WIDTH) :: u8);
          rows = (if SSD1306_HEIGHT < r then SSD1306_HEIGHT else r)
      in fold (\<lambda>y d. fold (\<lambda>x d.
           ssd1306_DrawPixel (of_nat x) (of_nat y)
             (bit_color (bitmap_bit (bitmap ! (y * SSD1306_WIDTH div 8 + x div 8)) (x mod 8))) d)
           [0 ..< SSD1306_WIDTH] d) [0 ..< rows] d)"

definition ssd1306_DrawRegion :: "u8 \<Rightarrow> u8 \<Rightarrow> u8 \<Rightarrow> u8 list \<Rightarrow> ssd_t \<Rightarrow> ssd_t" where
  "ssd1306_DrawRegion x y w data d =
     (if SSD1306_WIDTH < unat x + unat w \<or> SSD1306_HEIGHT < unat y + unat w \<or> unat w * unat w = 0 then d
      else
        let stride = unat w;
            rows = unat (of_nat (unat (of_nat (length data * 8) :: u32) div stride) :: u8)
        in fold (\<lambda>i d. fold (\<lambda>j d.
             let idx = i * stride div 8 + j div 8;
                 byte = (if idx < length data then data ! idx else 0)
             in ssd1306_DrawPixel (x + of_nat j) (y + of_nat i) (bit_color (bitmap_bit byte (j mod 8))) d)
             [0 ..< unat w] d) [0 ..< rows] d)"

section \<open>Initialisation and text\<close>

definition ssd1306_Init :: "ssd_t \<Rightarrow> 'a i2c_env_scheme \<Rightarrow> ssd_t \<times> 'a i2c_env_scheme" where
  "ssd1306_Init d s =
     (let (d1, s1) = ssd1306_SetDisplayOn 0 d (ssd1306_Reset s);
          s2 = fold ssd1306_WriteCommand [0x20, 0x00, 0xB0, 0xC8, 0x00, 0x10, 0x40] s1;
          s3 = ssd1306_SetContrast 0xFF s2;
          s4 = fold ssd1306_WriteCommand [0xA1, 0xA6, 0xA8, 0x3F] s3;
          (d2, s5) = ssd1306_Init_CMD d1 s4;
          d3 = ssd1306_Fill Black d2;
          s6 = ssd1306_UpdateScreen d3 s5
      in (d3\<lparr>CurrentX := 0, CurrentY := 0, Initialized := 1\<rparr>, s6))"

definition ssd1306_ClearOLED :: "ssd_t \<Rightarrow> ssd_t" where
  "ssd1306_ClearOLED d = (ssd1306_Fill Black d)\<lparr>g_ssd1306_current_loc_v := 0\<rparr>"

text \<open>The glyph rows of the 7x10 font, ten for each character from space to tilde.\<close>

definition Font7x10 :: "u16 list" where
  "Font7x10 = [
     0x0000, 0x0000, 0x0000, 0x0000, 0x0000, 0x0000, 0x0000, 0x0000, 0x0000, 0x0000,
     0x1000, 0x1000, 0x1000, 0x1000, 0x1000, 0x1000, 0x0000, 0x1000, 0x0000, 0x0000,
     0x2800, 0x2800, 0x2800, 0x0000, 0x0000, 0x0000, 0x0000, 0x0000, 0x0000, 0x0000,
     0x2400, 0x2400, 0x7C00, 0x2400, 0x4800, 0x7C00, 0x4800, 0x4800, 0x0000, 0x0000,
     0x3800, 0x5400, 0x5000, 0x3800, 0x1400, 0x5400, 0x5400, 0x3800, 0x1000, 0x0000,
     0x2000, 0x5400, 0x5800, 0x3000, 0x2800, 0x5400, 0x1400, 0x0800, 0x0000, 0x0000,
     0x1000, 0x2800, 0x2800, 0x1000, 0x3400, 0x4800, 0x4800, 0x3400, 0x0000, 0x0000,
     0x1000, 0x1000, 0x1000, 0x0000, 0x0000, 0x0000, 0x0000, 0x0000, 0x0000, 0x0000,
     0x0800, 0x1000, 0x2000, 0x2000, 0x2000, 0x2000, 0x2000, 0x2000, 0x1000, 0x0800,
     0x2000, 0x1000, 0x0800, 0x0800, 0x0800, 0x0800, 0x0800, 0x0800, 0x1000, 0x2000,
     0x1000, 0x3800, 0x1000, 0x2800, 0x0000, 0x0000, 0x0000, 0x0000, 0x0000, 0x0000,
     0x0000, 0x0000, 0x1000, 0x1000, 0x7C00, 0x1000, 0x1000, 0x0000, 0x0000, 0x0000,
     0x0000, 0x0000, 0x0000, 0x0000, 0x0000, 0x0000, 0x0000, 0x1000, 0x1000, 0x1000,
     0x0000, 0x0000, 0x0000, 0x0000, 0x0000, 0x3800, 0x0000, 0x0000, 0x0000, 0x0000,
     0x0000, 0x0000, 0x0000, 0x0000, 0x0000, 0x0000, 0x0000, 0x1000, 0x0000, 0x0000,
     0x0800, 0x0800, 0x1000, 0x1000, 0x1000, 0x1000, 0x2000, 0x2000, 0x0000, 0x0000,
     0x3800, 0x4400, 0x4400, 0x5400, 0x4400, 0x4400, 0x4400, 0x3800, 0x0000, 0x0000,
     0x1000, 0x3000, 0x5000, 0x1000, 0x1000, 0x1000, 0x1000, 0x1000, 0x0000, 0x0000,
     0x3800, 0x4400, 0x4400, 0x0400, 0x0800, 0x1000, 0x2000, 0x7C00, 0x0000, 0x0000,
     0x3800, 0x4400, 0x0400, 0x1800, 0x0400, 0x0400, 0x4400, 0x3800, 0x0000, 0x0000,
     0x0800, 0x1800, 0x2800, 0x2800, 0x4800, 0x7C00, 0x0800, 0x0800, 0x0000, 0x0000,
     0x7C00, 0x4000, 0x4000, 0x7800, 0x0400, 0x0400, 0x4400, 0x3800, 0x0000, 0x0000,
     0x3800, 0x4400, 0x4000, 0x7800, 0x4400, 0x4400, 0x4400, 0x3800, 0x0000, 0x0000,
     0x7C00, 0x0400, 0x0800, 0x1000, 0x1000, 0x2000, 0x2000, 0x2000, 0x0000, 0x0000,
     0x3800, 0x4400, 0x4400, 0x3800, 0x4400, 0x4400, 0x4400, 0x3800, 0x0000, 0x0000,
     0x3800, 0x4400, 0x4400, 0x4400, 0x3C00, 0x0400, 0x4400, 0x3800, 0x0000, 0x0000,
     0x0000, 0x0000, 0x1000, 0x0000, 0x0000, 0x0000, 0x0000, 0x1000, 0x0000, 0x0000,
     0x0000, 0x0000, 0x0000, 0x1000, 0x0000, 0x0000, 0x0000, 0x1000, 0x1000, 0x1000,
     0x0000, 0x0000, 0x0C00, 0x3000, 0x4000, 0x3000, 0x0C00, 0x0000, 0x0000, 0x0000,
     0x0000, 0x0000, 0x0000, 0x7C00, 0x0000, 0x7C00, 0x0000, 0x0000, 0x0000, 0x0000,
     0x0000, 0x0000, 0x6000, 0x1800, 0x0400, 0x1800, 0x6000, 0x0000, 0x0000, 0x0000,
     0x3800, 0x4400, 0x0400, 0x0800, 0x1000, 0x1000, 0x0000, 0x1000, 0x0000, 0x0000,
     0x3800, 0x4400, 0x4C00, 0x5400, 0x5C00, 0x4000, 0x4000, 0x3800, 0x0000, 0x0000,
     0x1000, 0x2800, 0x2800, 0x2800, 0x2800, 0x7C00, 0x4400, 0x4400, 0x0000, 0x0000,
     0x7800, 0x4400, 0x4400, 0x7800, 0x4400, 0x4400, 0x4400, 0x7800, 0x0000, 0x0000,
     0x3800, 0x4400, 0x4000, 0x4000, 0x4000, 0x4000, 0x4400, 0x3800, 0x0000, 0x0000,
     0x7000, 0x4800, 0x4400, 0x4400, 0x4400, 0x4400, 0x4800, 0x7000, 0x0000, 0x0000,
     0x7C00, 0x4000, 0x4000, 0x7C00, 0x4000, 0x4000, 0x4000, 0x7C00, 0x0000, 0x0000,
     0x7C00, 0x4000, 0x4000, 0x7800, 0x4000, 0x4000, 0x4000, 0x4000, 0x0000, 0x0000,
     0x3800, 0x4400, 0x4000, 0x4000, 0x5C00, 0x4400, 0x4400, 0x3800, 0x0000, 0x0000,
     0x4400, 0x4400, 0x4400, 0x7C00, 0x4400, 0x4400, 0x4400, 0x4400, 0x0000, 0x0000,
     0x3800, 0x1000, 0x1000, 0x1000, 0x1000, 0x1000, 0x1000, 0x3800, 0x0000, 0x0000,
     0x0400, 0x0400, 0x0400, 0x0400, 0x0400, 0x0400, 0x4400, 0x3800, 0x0000, 0x0000,
     0x4400, 0x4800, 0x5000, 0x6000, 0x5000, 0x4800, 0x4800, 0x4400, 0x0000, 0x0000,
     0x4000, 0x4000, 0x4000, 0x4000, 0x4000, 0x4000, 0x4000, 0x7C00, 0x0000, 0x0000,
     0x4400, 0x6C00, 0x6C00, 0x5400, 0x4400, 0x4400, 0x4400, 0x4400, 0x0000, 0x0000,
     0x4400, 0x6400, 0x6400, 0x5400, 0x5400, 0x4C00, 0x4C00, 0x4400, 0x0000, 0x0000,
     0x3800, 0x4400, 0x4400, 0x4400, 0x4400, 0x4400, 0x4400, 0x3800, 0x0000, 0x0000,
     0x7800, 0x4400, 0x4400, 0x4400, 0x7800, 0x4000, 0x4000, 0x4000, 0x0000, 0x0000,
     0x3800, 0x4400, 0x4400, 0x4400, 0x4400, 0x4400, 0x5400, 0x3800, 0x0400, 0x0000,
     0x7800, 0x4400, 0x4400, 0x4400, 0x7800, 0x4800, 0x4800, 0x4400, 0x0000, 0x0000,
     0x3800, 0x4400, 0x4000, 0x3000, 0x0800, 0x0400, 0x4400, 0x3800, 0x0000, 0x0000,
     0x7C00, 0x1000, 0x1000, 0x1000, 0x1000, 0x1000, 0x1000, 0x1000, 0x0000, 0x0000,
     0x4400, 0x4400, 0x4400, 0x4400, 0x4400, 0x4400, 0x4400, 0x3800, 0x0000, 0x0000,
     0x4400, 0x4400, 0x4400, 0x2800, 0x2800, 0x2800, 0x1000, 0x1000, 0x0000, 0x0000,
     0x4400, 0x4400, 0x5400, 0x5400, 0x5400, 0x6C00, 0x2800, 0x2800, 0x0000, 0x0000,
     0x4400, 0x2800, 0x2800, 0x1000, 0x1000, 0x2800, 0x2800, 0x4400, 0x0000, 0x0000,
     0x4400, 0x4400, 0x2800, 0x2800, 0x1000, 0x1000, 0x1000, 0x1000, 0x0000, 0x0000,
     0x7C00, 0x0400, 0x0800, 0x1000, 0x1000, 0x2000, 0x4000, 0x7C00, 0x0000, 0x0000,
     0x1800, 0x1000, 0x1000, 0x1000, 0x1000, 0x1000, 0x1000, 0x1000, 0x1000, 0x1800,
     0x2000, 0x2000, 0x1000, 0x1000, 0x1000, 0x1000, 0x0800, 0x0800, 0x0000, 0x0000,
     0x3000, 0x1000, 0x1000, 0x1000, 0x1000, 0x1000, 0x1000, 0x1000, 0x1000, 0x3000,
     0x1000, 0x2800, 0x2800, 0x4400, 0x0000, 0x0000, 0x0000, 0x0000, 0x0000, 0x0000,
     0x0000, 0x0000, 0x0000, 0x0000, 0x0000, 0x0000, 0x0000, 0x0000, 0x0000, 0xFE00,
     0x2000, 0x1000, 0x0000, 0x0000, 0x0000, 0x0000, 0x0000, 0x0000, 0x0000, 0x0000,
     0x0000, 0x0000, 0x3800, 0x4400, 0x3C00, 0x4400, 0x4C00, 0x3400, 0x0000, 0x0000,
     0x4000, 0x4000, 0x5800, 0x6400, 0x4400, 0x4400, 0x6400, 0x5800, 0x0000, 0x0000,
     0x0000, 0x0000, 0x3800, 0x4400, 0x4000, 0x4000, 0x4400, 0x3800, 0x0000, 0x0000,
     0x0400, 0x0400, 0x3400, 0x4C00, 0x4400, 0x4400, 0x4C00, 0x3400, 0x0000, 0x0000,
     0x0000, 0x0000, 0x3800, 0x4400, 0x7C00, 0x4000, 0x4400, 0x3800, 0x0000, 0x0000,
     0x0C00, 0x1000, 0x7C00, 0x1000, 0x1000, 0x1000, 0x1000, 0x1000, 0x0000, 0x0000,
     0x0000, 0x0000, 0x3400, 0x4C00, 0x4400, 0x4400, 0x4C00, 0x3400, 0x0400, 0x7800,
     0x4000, 0x4000, 0x5800, 0x6400, 0x4400, 0x4400, 0x4400, 0x4400, 0x0000, 0x0000,
     0x1000, 0x0000, 0x7000, 0x1000, 0x1000, 0x1000, 0x1000, 0x1000, 0x0000, 0x0000,
     0x1000, 0x0000, 0x7000, 0x1000, 0x1000, 0x1000, 0x1000, 0x1000, 0x1000, 0xE000,
     0x4000, 0x4000, 0x4800, 0x5000, 0x6000, 0x5000, 0x4800, 0x4400, 0x0000, 0x0000,
     0x7000, 0x1000, 0x1000, 0x1000, 0x1000, 0x1000, 0x1000, 0x1000, 0x0000, 0x0000,
     0x0000, 0x0000, 0x7800, 0x5400, 0x5400, 0x5400, 0x5400, 0x5400, 0x0000, 0x0000,
     0x0000, 0x0000, 0x5800, 0x6400, 0x4400, 0x4400, 0x4400, 0x4400, 0x0000, 0x0000,
     0x0000, 0x0000, 0x3800, 0x4400, 0x4400, 0x4400, 0x4400, 0x3800, 0x0000, 0x0000,
     0x0000, 0x0000, 0x5800, 0x6400, 0x4400, 0x4400, 0x6400, 0x5800, 0x4000, 0x4000,
     0x0000, 0x0000, 0x3400, 0x4C00, 0x4400, 0x4400, 0x4C00, 0x3400, 0x0400, 0x0400,
     0x0000, 0x0000, 0x5800, 0x6400, 0x4000, 0x4000, 0x4000, 0x4000, 0x0000, 0x0000,
     0x0000, 0x0000, 0x3800, 0x4400, 0x3000, 0x0800, 0x4400, 0x3800, 0x0000, 0x0000,
     0x2000, 0x2000, 0x7800, 0x2000, 0x2000, 0x2000, 0x2000, 0x1800, 0x0000, 0x0000,
     0x0000, 0x0000, 0x4400, 0x4400, 0x4400, 0x4400, 0x4C00, 0x3400, 0x0000, 0x0000,
     0x0000, 0x0000, 0x4400, 0x4400, 0x2800, 0x2800, 0x2800, 0x1000, 0x0000, 0x0000,
     0x0000, 0x0000, 0x5400, 0x5400, 0x5400, 0x6C00, 0x2800, 0x2800, 0x0000, 0x0000,
     0x0000, 0x0000, 0x4400, 0x2800, 0x1000, 0x1000, 0x2800, 0x4400, 0x0000, 0x0000,
     0x0000, 0x0000, 0x4400, 0x4400, 0x2800, 0x2800, 0x1000, 0x1000, 0x1000, 0x6000,
     0x0000, 0x0000, 0x7C00, 0x0800, 0x1000, 0x2000, 0x4000, 0x7C00, 0x0000, 0x0000,
     0x1800, 0x1000, 0x1000, 0x1000, 0x2000, 0x2000, 0x1000, 0x1000, 0x1000, 0x1800,
     0x1000, 0x1000, 0x1000, 0x1000, 0x1000, 0x1000, 0x1000, 0x1000, 0x1000, 0x1000,
     0x3000, 0x1000, 0x1000, 0x1000, 0x0800, 0x0800, 0x1000, 0x1000, 0x1000, 0x3000,
     0x0000, 0x0000, 0x0000, 0x7400, 0x4C00, 0x0000, 0x0000, 0x0000, 0x0000, 0x0000]"

definition Font_7x10 :: FontDef where
  "Font_7x10 = \<lparr>FontWidth = 7, FontHeight = 10, font_data = Font7x10\<rparr>"

text \<open>
  \<open>ssd1306_printf\<close> with its text already formatted (\<open>None\<close>: a null format). A text of 20 or more
  characters does not fit the local buffer, and \<open>vsnprintf_s\<close> then leaves an empty string in it.
\<close>

definition ssd1306_printf :: "string option \<Rightarrow> ssd_t \<Rightarrow> 'a i2c_env_scheme \<Rightarrow> ssd_t \<times> 'a i2c_env_scheme" where
  "ssd1306_printf fmt d s =
     (let (d1, s1) = (case fmt of None \<Rightarrow> (d, s)
        | Some text \<Rightarrow>
          let buffer = (if length text < 20 then text else '''');
              da = ssd1306_SetCursor 0 (of_int (g_ssd1306_current_loc_v d)) d;
              db = snd (ssd1306_DrawString buffer Font_7x10 White da)
          in (db, ssd1306_UpdateScreen db s))
      in (d1\<lparr>g_ssd1306_current_loc_v := g_ssd1306_current_loc_v d1 + 15\<rparr>, s1))"

section \<open>The frame buffer\<close>

definition buffer_ok :: "ssd_t \<Rightarrow> bool" where
  "buffer_ok d = (length (SSD1306_Buffer d) = SSD1306_BUFFER_SIZE)"

text \<open>The pixel in column \<open>x\<close> and row \<open>y\<close>: bit \<open>y mod 8\<close> of a byte of page \<open>y div 8\<close>.\<close>

definition pixel :: "ssd_t \<Rightarrow> nat \<Rightarrow> nat \<Rightarrow> bool" where
  "pixel d x y = bit (SSD1306_Buffer d ! (x + y div 8 * SSD1306_WIDTH)) (y mod 8)"

lemma pixel_index:
  fixes x y x' y' :: nat
  assumes "x < 128" "y < 64" "x' < 128" "y' < 64"
  shows "x + y div 8 * 128 < 1024"
    "x + y div 8 * 128 = x' + y' div 8 * 128 \<longleftrightarrow> x = x' \<and> y div 8 = y' div 8"
proof -
  have "y div 8 < 8" using assms(2) by (simp add: div_less_iff_less_mult)
  with assms(1) show "x + y div 8 * 128 < 1024" by linarith
  have "(x + y div 8 * 128) div 128 = y div 8" "(x + y div 8 * 128) mod 128 = x"
    "(x' + y' div 8 * 128) div 128 = y' div 8" "(x' + y' div 8 * 128) mod 128 = x'"
    using assms by simp_all
  then show "x + y div 8 * 128 = x' + y' div 8 * 128 \<longleftrightarrow> x = x' \<and> y div 8 = y' div 8" by metis
qed

lemma bit_pixel_mask: "bit (2 ^ k :: u8) n \<longleftrightarrow> n = k \<and> k < 8"
  by (auto simp: bit_exp_iff)

lemma draw_pixel_ok [simp]: "buffer_ok (ssd1306_DrawPixel x y c d) = buffer_ok d"
  by (simp add: ssd1306_DrawPixel_def buffer_ok_def Let_def)

lemma draw_pixel_pixel:
  assumes "buffer_ok d" and "unat x < 128" "unat y < 64" and "x' < 128" "y' < 64"
  shows "pixel (ssd1306_DrawPixel x y c d) x' y' = (if x' = unat x \<and> y' = unat y then c = White else pixel d x' y')"
proof -
  let ?i = "unat x + unat y div 8 * 128" and ?j = "x' + y' div 8 * 128"
  let ?b = "SSD1306_Buffer d ! ?i" and ?m = "push_bit (unat y mod 8) (1 :: u8)"
  let ?b' = "if c = White then ?b OR ?m else ?b AND NOT ?m"
  have buf: "SSD1306_Buffer (ssd1306_DrawPixel x y c d) = (SSD1306_Buffer d)[?i := ?b']"
    using assms(2,3) by (simp add: ssd1306_DrawPixel_def Let_def)
  have i: "?i < length (SSD1306_Buffer d)"
    using pixel_index(1) [OF assms(2,3) assms(4,5)] assms(1) by (simp add: buffer_ok_def)
  have y: "y' = unat y \<longleftrightarrow> y' div 8 = unat y div 8 \<and> y' mod 8 = unat y mod 8"
    by (metis mult_div_mod_eq)
  have bits: "bit ?b' n = (if n = unat y mod 8 then c = White else bit ?b n)" if "n < 8" for n
    using that by (cases c) (auto simp: bit_or_iff bit_and_iff bit_not_iff bit_pixel_mask)
  show ?thesis
  proof (cases "?j = ?i")
    case True
    then have "x' = unat x" "y' div 8 = unat y div 8"
      using pixel_index(2) [OF assms(4,5) assms(2,3)] by simp_all
    with i y show ?thesis unfolding pixel_def buf True by (simp add: bits)
  next
    case False
    then have "\<not> (x' = unat x \<and> y' = unat y)" by auto
    with False show ?thesis unfolding pixel_def buf by auto
  qed
qed

text \<open>C17: Drawing a pixel on the panel sets exactly that pixel of the frame buffer: inside the panel the
  pixel takes the colour and every other pixel keeps its value, outside the panel nothing changes,
  and the buffer keeps its size.\<close>

theorem draw_pixel_exact:
  assumes "buffer_ok d" and "x' < 128" "y' < 64"
  shows "pixel (ssd1306_DrawPixel x y c d) x' y' =
      (if x' = unat x \<and> y' = unat y then c = White else pixel d x' y') \<and>
    buffer_ok (ssd1306_DrawPixel x y c d)"
proof (cases "unat x < 128 \<and> unat y < 64")
  case True
  then show ?thesis using draw_pixel_pixel [OF assms(1) _ _ assms(2,3)] assms(1) by simp
next
  case False
  then show ?thesis using assms by (auto simp: ssd1306_DrawPixel_def)
qed

definition ssd_boot :: ssd_t where
  "ssd_boot = \<lparr>SSD1306_Buffer = replicate 1024 0, CurrentX = 0, CurrentY = 0, Inverted = 0,
     Initialized = 0, DisplayOn = 0, g_ssd1306_current_loc_v = 0\<rparr>"

lemma ssd_boot_ok [simp]: "buffer_ok ssd_boot"
  by (simp add: buffer_ok_def ssd_boot_def)

lemma draw_pixel_exact_witness:
  "pixel (ssd1306_DrawPixel 127 63 White ssd_boot) 127 63 \<and> \<not> pixel (ssd1306_DrawPixel 127 63 White ssd_boot) 5 63"
  using draw_pixel_exact [of ssd_boot 127 63 127 63 White] draw_pixel_exact [of ssd_boot 5 63 127 63 White]
  by (simp add: pixel_def ssd_boot_def buffer_ok_def)

section \<open>Every drawing routine keeps the buffer\<close>

lemma fold_keeps: "(\<And>x d. P d \<Longrightarrow> P (f x d)) \<Longrightarrow> P d \<Longrightarrow> P (fold f xs d)"
  by (induction xs arbitrary: d) auto

lemma draw_char_ok: "buffer_ok d \<Longrightarrow> buffer_ok (snd (ssd1306_DrawChar ch Font c d))"
proof -
  assume d: "buffer_ok d"
  have row: "buffer_ok (draw_glyph_row w i b c e)" if "buffer_ok e" for w i b e
    unfolding draw_glyph_row_def using that by (rule fold_keeps [rotated]) simp
  have "buffer_ok (fold (\<lambda>i d. draw_glyph_row w i (f i) c d) xs d)" for w xs f
    using row d by (rule fold_keeps)
  then have cur: "buffer_ok ((fold (\<lambda>i d. draw_glyph_row w i (f i) c d) xs d)\<lparr>CurrentX := u\<rparr>)" for w xs f u
    by (simp add: buffer_ok_def)
  show ?thesis
    unfolding ssd1306_DrawChar_def Let_def if_distrib [of snd] if_distrib [of buffer_ok] snd_conv
    using d by (intro if_bool_eq_conj [THEN iffD2] conjI impI cur)
qed

lemma draw_string_ok: "buffer_ok d \<Longrightarrow> buffer_ok (snd (ssd1306_DrawString str Font c d))"
proof (induction str arbitrary: d)
  case (Cons ch str)
  then show ?case using draw_char_ok [OF Cons.prems, of ch Font c]
    by (cases "ssd1306_DrawChar ch Font c d") (simp add: Cons.IH)
qed simp

lemma fill_ok [simp]: "buffer_ok (ssd1306_Fill c d)"
  by (simp add: ssd1306_Fill_def buffer_ok_def)

lemma fill_buffer_ok: "buffer_ok d \<Longrightarrow> buffer_ok (snd (ssd1306_FillBuffer buf d))"
  by (simp add: ssd1306_FillBuffer_def buffer_ok_def)

lemma draw_bitmap_ok: "buffer_ok d \<Longrightarrow> buffer_ok (ssd1306_DrawBitmap bitmap d)"
  unfolding ssd1306_DrawBitmap_def Let_def by (intro fold_keeps [where P = buffer_ok]) simp_all

lemma draw_region_ok: "buffer_ok d \<Longrightarrow> buffer_ok (ssd1306_DrawRegion x y w data d)"
  unfolding ssd1306_DrawRegion_def Let_def
  by (auto intro!: fold_keeps [where P = buffer_ok])

lemma init_ok: "buffer_ok (fst (ssd1306_Init d s))"
  by (simp add: ssd1306_Init_def Let_def buffer_ok_def ssd1306_Fill_def split: prod.splits)

lemma clear_ok [simp]: "buffer_ok (ssd1306_ClearOLED d)"
  by (simp add: ssd1306_ClearOLED_def buffer_ok_def ssd1306_Fill_def)

lemma printf_ok: "buffer_ok d \<Longrightarrow> buffer_ok (fst (ssd1306_printf fmt d s))"
  using draw_string_ok [of "ssd1306_SetCursor 0 (of_int (g_ssd1306_current_loc_v d)) d"]
  by (cases fmt) (simp_all add: ssd1306_printf_def Let_def buffer_ok_def ssd1306_SetCursor_def)

section \<open>Loops\<close>

lemma draw_line_loop_returns:
  "draw_line_loop x1 y1 x2 y2 dx dy sx sy c x y e d = Some d' \<Longrightarrow> x1 = x2 \<and> y1 = y2"
  by (rule draw_line_loop.raw_induct [where P = "\<lambda>x1 y1 x2 y2 _ _ _ _ _ _ _ _ _ _. x1 = x2 \<and> y1 = y2"
        and xa = "((((((((((((x1, y1), x2), y2), dx), dy), sx), sy), c), x), y), e), d)", unfolded split_conv])
    (auto simp: Let_def split: if_splits)

text \<open>\<open>ssd1306_DrawLine\<close> returns only for a line of a single point, for which it draws that point: for two
  different end points its loop never ends, because the loop condition does not depend on
  anything the body changes.\<close>

theorem draw_line_returns_iff:
  "ssd1306_DrawLine x1 y1 x2 y2 c d =
     (if x1 = x2 \<and> y1 = y2 then Some (ssd1306_DrawPixel x2 y2 c d) else None)"
proof (cases "x1 = x2 \<and> y1 = y2")
  case True
  then show ?thesis by (simp add: ssd1306_DrawLine_def draw_line_loop.simps)
next
  case False
  then show ?thesis unfolding ssd1306_DrawLine_def Let_def
    by (metis draw_line_loop_returns not_None_eq)
qed

lemma draw_circle_loop_returns:
  assumes "x \<le> 0" and "0 \<le> y" and "buffer_ok d"
  shows "\<exists>d'. draw_circle_loop px py c x y err d = Some d' \<and> buffer_ok d'"
  using assms
proof (induction "(nat (1 - x), nat (x + 1 - err))" arbitrary: x y err d
    rule: wf_induct_rule [OF wf_lex_prod [OF wf_less_than wf_less_than]])
  case (1 x err y d)
  let ?y1 = "if err \<le> y then y + 1 else y"
  let ?err1 = "if err \<le> y then err + (?y1 * 2 + 1) else err"
  let ?e2 = "if err \<le> y \<and> - x = ?y1 \<and> err \<le> x then 0 else err"
  let ?x1 = "if x < ?e2 then x + 1 else x"
  let ?err2 = "if x < ?e2 then ?err1 + (?x1 * 2 + 1) else ?err1"
  let ?d4 = "ssd1306_DrawPixel (px - of_int x) (py - of_int y) c
    (ssd1306_DrawPixel (px + of_int x) (py - of_int y) c
    (ssd1306_DrawPixel (px + of_int x) (py + of_int y) c
    (ssd1306_DrawPixel (px - of_int x) (py + of_int y) c d)))"
  have eq: "draw_circle_loop px py c x y err d =
      (if ?x1 \<le> 0 then draw_circle_loop px py c ?x1 ?y1 ?err2 ?d4 else Some ?d4)"
    by (subst draw_circle_loop.simps) (simp add: Let_def)
  have ok: "buffer_ok ?d4" using 1(4) by simp
  show ?case
  proof (cases "?x1 \<le> 0")
    case True
    have "((nat (1 - ?x1), nat (?x1 + 1 - ?err2)), (nat (1 - x), nat (x + 1 - err)))
        \<in> less_than <*lex*> less_than"
      using 1(2,3) True by (auto split: if_splits)
    moreover have "0 \<le> ?y1" using 1(3) by simp
    ultimately have "\<exists>d'. draw_circle_loop px py c ?x1 ?y1 ?err2 ?d4 = Some d' \<and> buffer_ok d'"
      using 1(1) True ok by blast
    with True eq show ?thesis by simp
  next
    case False
    with eq ok show ?thesis by simp
  qed
qed

text \<open>Drawing a circle of any radius around any centre ends, and keeps the size of the frame buffer.\<close>

theorem draw_circle_returns:
  assumes "buffer_ok d"
  shows "\<exists>d'. ssd1306_DrawCircle px py r c d = Some d' \<and> buffer_ok d'"
  using assms draw_circle_loop_returns [of "- int (unat r)" 0 d px py c]
  by (auto simp: ssd1306_DrawCircle_def)

lemma draw_circle_returns_witness: "\<exists>d'. ssd1306_DrawCircle 64 32 20 White ssd_boot = Some d' \<and> buffer_ok d'"
  by (rule draw_circle_returns) simp

end
