(* ===== verification/CarMotor.thy ===== *)
theory CarMotor
  imports I2cBus
begin

text \<open>
  The motor component of the car (motor/car_motor.c) and the shared data model
  (model/env_data.h). The wheels are driven by an I2C PWM bridge: each wheel has two PWM
  registers (A and B) that feed the two inputs of an H-bridge.

  The statics of car_motor.c are the fields of \<open>motor_state\<close>, which extends the bus of I2cBus, so
  that every component of the car runs over one state. The second half of the theory says what a
  log of bus operations means for the registers of the bridge and proves the facts of the motor
  code that the other components and the properties use.
\<close>

section \<open>model/env_data.h\<close>

datatype car_motion_t =
    CAR_MOTION_STOP
  | CAR_MOTION_FORWARD
  | CAR_MOTION_BACKWARD
  | CAR_MOTION_LEFT
  | CAR_MOTION_RIGHT

text \<open>The value of the C enumerator, as it is printed by \<open>%u\<close>.\<close>

fun motion_code :: "car_motion_t \<Rightarrow> nat" where
  "motion_code CAR_MOTION_STOP = 0"
| "motion_code CAR_MOTION_FORWARD = 1"
| "motion_code CAR_MOTION_BACKWARD = 2"
| "motion_code CAR_MOTION_LEFT = 3"
| "motion_code CAR_MOTION_RIGHT = 4"

lemma motion_code_inj: "motion_code m = motion_code m' \<longleftrightarrow> m = m'"
  by (cases m; cases m') auto

instantiation car_motion_t :: linorder
begin

definition less_eq_car_motion_t :: "car_motion_t \<Rightarrow> car_motion_t \<Rightarrow> bool" where
  "less_eq_car_motion_t m m' = (motion_code m \<le> motion_code m')"

definition less_car_motion_t :: "car_motion_t \<Rightarrow> car_motion_t \<Rightarrow> bool" where
  "less_car_motion_t m m' = (motion_code m < motion_code m')"

instance
  by standard
    (auto simp: less_eq_car_motion_t_def less_car_motion_t_def simp flip: motion_code_inj)

end

record env_data_t =
  temperature_c_x10 :: int
  humidity_rh_x10 :: u32
  light_lux_x10 :: u32
  temp_alert :: u8
  humi_alert :: u8
  light_alert :: u8
  motion :: car_motion_t
  patrol_enabled :: u8
  sample_seq :: u32
  last_error :: int

definition env_data_reset :: env_data_t where
  "env_data_reset = \<lparr>temperature_c_x10 = 0, humidity_rh_x10 = 0, light_lux_x10 = 0,
     temp_alert = 0, humi_alert = 0, light_alert = 0, motion = CAR_MOTION_STOP,
     patrol_enabled = 0, sample_seq = 0, last_error = 0\<rparr>"

text \<open>What the firmware can hold in a sample: the ranges of the sensors, flags, a 32-bit error.\<close>

definition env_ok :: "env_data_t \<Rightarrow> bool" where
  "env_ok d = (- 500 \<le> temperature_c_x10 d \<and> temperature_c_x10 d < 1500 \<and>
     unat (humidity_rh_x10 d) < 1000 \<and> unat (light_lux_x10 d) \<le> 546125 \<and>
     temp_alert d \<le> 1 \<and> humi_alert d \<le> 1 \<and> light_alert d \<le> 1 \<and> patrol_enabled d \<le> 1 \<and>
     - 2147483648 \<le> last_error d \<and> last_error d \<le> 2147483647)"

section \<open>motor/car_motor.c\<close>

record car_motor_cmd_t =
  cmd_motion :: car_motion_t
  speed_percent :: u8
  duration_ms :: u16

record motor_state = i2c_env +
  g_motor_addr :: u8
  g_motor_available :: u8
  g_manual_watchdog_active :: u8
  g_manual_watchdog_remaining_ms :: u32
  g_current_motion :: car_motion_t

abbreviation (input) CAR_MOTOR_PERIOD_TICKS :: u16 where "CAR_MOTOR_PERIOD_TICKS \<equiv> 1000"
abbreviation (input) CAR_MOTOR_TURN_TICKS :: u16 where "CAR_MOTOR_TURN_TICKS \<equiv> 500"
abbreviation (input) CAR_MOTOR_FREQ_SETTLE_TICKS :: nat where "CAR_MOTOR_FREQ_SETTLE_TICKS \<equiv> 10"
abbreviation (input) CAR_MOTOR_MANUAL_CMD_TIMEOUT_MS :: u32 where "CAR_MOTOR_MANUAL_CMD_TIMEOUT_MS \<equiv> 800"
abbreviation (input) WHEEL_PWM_FREQ_SET_BYTE :: u8 where "WHEEL_PWM_FREQ_SET_BYTE \<equiv> 0x16"
abbreviation (input) WHEEL_LEFT_A_REG :: u8 where "WHEEL_LEFT_A_REG \<equiv> 0x70"
abbreviation (input) WHEEL_LEFT_B_REG :: u8 where "WHEEL_LEFT_B_REG \<equiv> 0x80"
abbreviation (input) WHEEL_RIGHT_A_REG :: u8 where "WHEEL_RIGHT_A_REG \<equiv> 0x90"
abbreviation (input) WHEEL_RIGHT_B_REG :: u8 where "WHEEL_RIGHT_B_REG \<equiv> 0xA0"

record car_motor_direction_map_t =
  left_forward :: int
  left_reverse :: int
  right_forward :: int
  right_reverse :: int

definition g_direction_map :: car_motor_direction_map_t where
  "g_direction_map = \<lparr>left_forward = 1, left_reverse = 0, right_forward = 1, right_reverse = 0\<rparr>"

text \<open>The conversion is done in \<open>unsigned int\<close> arithmetic and cut to 16 bits.\<close>

definition motor_speed_to_ticks :: "u8 \<Rightarrow> u16" where
  "motor_speed_to_ticks p =
     (let p1 = (if 100 < p then 100 else p);
          p2 = (if 0 < p1 \<and> p1 < 20 then 20 else p1)
      in ucast (((1000 :: u32) * ucast p2) div 100))"

definition motor_write_pwm_to :: "u8 \<Rightarrow> u8 \<Rightarrow> u16 \<Rightarrow> 'a i2c_env_scheme \<Rightarrow> int \<times> 'a i2c_env_scheme" where
  "motor_write_pwm_to addr reg duty s =
     car_i2c_write addr (Some [reg, ucast (drop_bit 8 duty AND 0xFF), ucast (duty AND 0xFF)]) s"

definition motor_write_pwm :: "u8 \<Rightarrow> u16 \<Rightarrow> 'a motor_state_scheme \<Rightarrow> int \<times> 'a motor_state_scheme" where
  "motor_write_pwm reg duty s = motor_write_pwm_to (g_motor_addr s) reg duty s"

definition motor_write_freq_to :: "u8 \<Rightarrow> 'a i2c_env_scheme \<Rightarrow> int \<times> 'a i2c_env_scheme" where
  "motor_write_freq_to addr s = car_i2c_write addr (Some [WHEEL_PWM_FREQ_SET_BYTE]) s"

definition motor_set_wheel ::
    "u8 \<Rightarrow> u8 \<Rightarrow> u16 \<Rightarrow> u16 \<Rightarrow> int \<Rightarrow> 'a motor_state_scheme \<Rightarrow> int \<times> 'a motor_state_scheme" where
  "motor_set_wheel coast_reg drive_reg duty limit forward s =
     (let duty1 = (if limit < duty then limit else duty);
          zero_reg = (if forward = 0 then drive_reg else coast_reg);
          duty_reg = (if forward = 0 then coast_reg else drive_reg);
          (ret, s1) = motor_write_pwm zero_reg 0 s
      in if ret \<noteq> 0 then (ret, s1) else motor_write_pwm duty_reg duty1 s1)"

definition motor_left_set :: "u16 \<Rightarrow> int \<Rightarrow> 'a motor_state_scheme \<Rightarrow> int \<times> 'a motor_state_scheme" where
  "motor_left_set duty forward s =
     motor_set_wheel WHEEL_LEFT_A_REG WHEEL_LEFT_B_REG duty CAR_MOTOR_PERIOD_TICKS forward s"

definition motor_right_set :: "u16 \<Rightarrow> int \<Rightarrow> 'a motor_state_scheme \<Rightarrow> int \<times> 'a motor_state_scheme" where
  "motor_right_set duty forward s =
     motor_set_wheel WHEEL_RIGHT_A_REG WHEEL_RIGHT_B_REG duty CAR_MOTOR_PERIOD_TICKS forward s"

definition motor_apply ::
    "u16 \<Rightarrow> int \<Rightarrow> u16 \<Rightarrow> int \<Rightarrow> 'a motor_state_scheme \<Rightarrow> int \<times> 'a motor_state_scheme" where
  "motor_apply left_duty left_fwd right_duty right_fwd s =
     (let (ret_left, s1) = motor_left_set left_duty left_fwd s;
          (ret_right, s2) = motor_right_set right_duty right_fwd s1
      in (if ret_left \<noteq> 0 then ret_left else ret_right, s2))"

definition motor_try_stop_at :: "u8 \<Rightarrow> 'a i2c_env_scheme \<Rightarrow> int \<times> 'a i2c_env_scheme" where
  "motor_try_stop_at addr s =
     (let (ret, s1) = motor_write_freq_to addr s
      in if ret \<noteq> 0 then (ret, s1) else
      let (ret, s2) = motor_write_pwm_to addr WHEEL_LEFT_A_REG 0 (osDelay CAR_MOTOR_FREQ_SETTLE_TICKS s1)
      in if ret \<noteq> 0 then (ret, s2) else
      let (ret, s3) = motor_write_pwm_to addr WHEEL_LEFT_B_REG 0 s2
      in if ret \<noteq> 0 then (ret, s3) else
      let (ret, s4) = motor_write_pwm_to addr WHEEL_RIGHT_A_REG 0 s3
      in if ret \<noteq> 0 then (ret, s4) else motor_write_pwm_to addr WHEEL_RIGHT_B_REG 0 s4)"

text \<open>A null command pointer is \<open>None\<close>.\<close>

definition car_motor_command ::
    "car_motor_cmd_t option \<Rightarrow> 'a motor_state_scheme \<Rightarrow> int \<times> 'a motor_state_scheme" where
  "car_motor_command cmd s =
     (case cmd of None \<Rightarrow> (- 1, s)
      | Some c \<Rightarrow>
        if 100 < speed_percent c then (- 1, s)
        else if g_motor_available s = 0 then (- 2, s)
        else
          let duty = motor_speed_to_ticks (speed_percent c);
              m = g_direction_map;
              (ret, s1) =
                (case cmd_motion c of
                   CAR_MOTION_FORWARD \<Rightarrow> motor_apply duty (left_forward m) duty (right_reverse m) s
                 | CAR_MOTION_BACKWARD \<Rightarrow> motor_apply duty (left_reverse m) duty (right_forward m) s
                 | CAR_MOTION_LEFT \<Rightarrow> motor_apply CAR_MOTOR_TURN_TICKS (left_forward m)
                     CAR_MOTOR_TURN_TICKS (right_forward m) s
                 | CAR_MOTION_RIGHT \<Rightarrow> motor_apply CAR_MOTOR_TURN_TICKS (left_reverse m)
                     CAR_MOTOR_TURN_TICKS (right_reverse m) s
                 | CAR_MOTION_STOP \<Rightarrow> motor_apply 0 (left_forward m) 0 (right_forward m) s)
          in (ret, if ret = 0 then s1\<lparr>g_current_motion := cmd_motion c\<rparr> else s1))"

definition car_motor_manual_command ::
    "car_motor_cmd_t option \<Rightarrow> 'a motor_state_scheme \<Rightarrow> int \<times> 'a motor_state_scheme" where
  "car_motor_manual_command cmd s =
     (let (ret, s1) = car_motor_command cmd s
      in case cmd of None \<Rightarrow> (ret, s1)
         | Some c \<Rightarrow>
           if ret \<noteq> 0 then (ret, s1)
           else if cmd_motion c = CAR_MOTION_STOP then
             (ret, s1\<lparr>g_manual_watchdog_active := 0, g_manual_watchdog_remaining_ms := 0\<rparr>)
           else
             (ret, s1\<lparr>g_manual_watchdog_active := 1,
                g_manual_watchdog_remaining_ms := CAR_MOTOR_MANUAL_CMD_TIMEOUT_MS\<rparr>))"

definition stop_cmd :: car_motor_cmd_t where
  "stop_cmd = \<lparr>cmd_motion = CAR_MOTION_STOP, speed_percent = 0, duration_ms = 0\<rparr>"

definition car_motor_stop :: "'a motor_state_scheme \<Rightarrow> int \<times> 'a motor_state_scheme" where
  "car_motor_stop s = car_motor_command (Some stop_cmd) s"

definition car_motor_init :: "'a motor_state_scheme \<Rightarrow> int \<times> 'a motor_state_scheme" where
  "car_motor_init s =
     (let (ret, s1) = motor_try_stop_at CAR_I2C_ADDR_WHEEL_PWM s;
          (ret', s') =
            (if ret = 0 then
               (ret, s1\<lparr>g_motor_addr := CAR_I2C_ADDR_WHEEL_PWM, g_motor_available := 1\<rparr>)
             else let (legacy_ret, s2) = motor_try_stop_at CAR_I2C_ADDR_STM8S_MOTOR_LEGACY s1
             in if legacy_ret = 0 then
               (0, s2\<lparr>g_motor_addr := CAR_I2C_ADDR_STM8S_MOTOR_LEGACY, g_motor_available := 1\<rparr>)
             else let (compat_ret, s3) = motor_try_stop_at CAR_I2C_ADDR_STM8S_MOTOR_COMPAT s2
             in if compat_ret = 0 then
               (0, s3\<lparr>g_motor_addr := CAR_I2C_ADDR_STM8S_MOTOR_COMPAT, g_motor_available := 1\<rparr>)
             else (ret, s3\<lparr>g_motor_available := 0\<rparr>))
      in if g_motor_available s' = 0 then (ret', s') else car_motor_stop s')"

definition car_motor_tick :: "u32 \<Rightarrow> 'a motor_state_scheme \<Rightarrow> 'a motor_state_scheme" where
  "car_motor_tick elapsed_ms s =
     (if g_manual_watchdog_active s = 0 then s
      else if g_manual_watchdog_remaining_ms s \<le> elapsed_ms then
        snd (car_motor_stop
          (s\<lparr>g_manual_watchdog_active := 0, g_manual_watchdog_remaining_ms := 0\<rparr>))
      else s\<lparr>g_manual_watchdog_remaining_ms := g_manual_watchdog_remaining_ms s - elapsed_ms\<rparr>)"

definition car_motor_get_motion :: "'a motor_state_scheme \<Rightarrow> car_motion_t" where
  "car_motor_get_motion s = g_current_motion s"

definition car_motor_exip06_diag_forward :: "'a motor_state_scheme \<Rightarrow> int \<times> 'a motor_state_scheme" where
  "car_motor_exip06_diag_forward s =
     (if g_motor_available s = 0 then (- 2, s)
      else let (ret, s1) = motor_write_freq_to (g_motor_addr s) s
      in if ret \<noteq> 0 then (ret, s1)
      else let (ret, s2) = motor_left_set 500 1 (osDelay CAR_MOTOR_FREQ_SETTLE_TICKS s1)
      in if ret \<noteq> 0 then (ret, snd (car_motor_stop s2))
      else let (ret, s3) = motor_right_set 500 1 s2
      in if ret \<noteq> 0 then (ret, snd (car_motor_stop s3))
      else car_motor_stop (osDelay 300 s3))"

text \<open>The values the statics of car_motor.c have at boot, over a given bus.\<close>

definition motor_boot :: "i2c_env \<Rightarrow> motor_state" where
  "motor_boot e = i2c_env.extend e
     \<lparr>g_motor_addr = CAR_I2C_ADDR_WHEEL_PWM, g_motor_available = 0,
      g_manual_watchdog_active = 0, g_manual_watchdog_remaining_ms = 0,
      g_current_motion = CAR_MOTION_STOP\<rparr>"

section \<open>What the log means for the PWM bridge\<close>

text \<open>
  \<open>bridge_regs a log\<close> is the set of register files the bridge at address \<open>a\<close> may hold after the
  operations of \<open>log\<close>, whatever it held at power-on. A three-byte message (register, high byte,
  low byte) that is acknowledged (return code 0) sets the register; one that is not acknowledged
  may or may not have reached it. Every other operation leaves the registers alone.
\<close>

type_synonym pwm_regs = "u8 \<Rightarrow> u16"

definition pwm_value :: "u8 \<Rightarrow> u8 \<Rightarrow> u16" where
  "pwm_value hi lo = (push_bit 8 (ucast hi)) OR ucast lo"

fun bridge_step :: "u8 \<Rightarrow> i2c_event \<Rightarrow> pwm_regs set \<Rightarrow> pwm_regs set" where
  "bridge_step a (I2cWrite addr [reg, hi, lo] ret) R =
     (if addr = a then
        (if ret = 0 then {} else R) \<union> (\<lambda>r. r(reg := pwm_value hi lo)) ` R
      else R)"
| "bridge_step a ev R = R"

definition bridge_regs :: "u8 \<Rightarrow> i2c_event list \<Rightarrow> pwm_regs set" where
  "bridge_regs a log = fold (bridge_step a) log UNIV"

lemma bridge_regs_snoc [simp]: "bridge_regs a (log @ [ev]) = bridge_step a ev (bridge_regs a log)"
  by (simp add: bridge_regs_def)

lemma pwm_value_bytes [simp]:
  "pwm_value (ucast (drop_bit 8 duty AND 0xFF)) (ucast (duty AND 0xFF)) = duty" for duty :: u16
  by (rule bit_word_eqI)
    (auto simp: pwm_value_def bit_simps u16_FF_mask)

definition h_bridge_safe :: "pwm_regs \<Rightarrow> bool" where
  "h_bridge_safe r = ((r WHEEL_LEFT_A_REG = 0 \<or> r WHEEL_LEFT_B_REG = 0) \<and>
     (r WHEEL_RIGHT_A_REG = 0 \<or> r WHEEL_RIGHT_B_REG = 0))"

definition duty_bounded :: "pwm_regs \<Rightarrow> bool" where
  "duty_bounded r = (\<forall>x \<in> {WHEEL_LEFT_A_REG, WHEEL_LEFT_B_REG, WHEEL_RIGHT_A_REG, WHEEL_RIGHT_B_REG}.
     r x \<le> CAR_MOTOR_PERIOD_TICKS)"

definition bridge_ok :: "pwm_regs \<Rightarrow> bool" where
  "bridge_ok r = (h_bridge_safe r \<and> duty_bounded r)"

lemmas bridge_ok_defs = bridge_ok_def h_bridge_safe_def duty_bounded_def

section \<open>What the operations leave alone\<close>

definition bus_only :: "'a i2c_env_scheme \<Rightarrow> 'a i2c_env_scheme \<Rightarrow> bool" where
  "bus_only s s' = (i2c_ans s' = i2c_ans s \<and> i2c_env.more s' = i2c_env.more s)"

definition motor_only :: "'a motor_state_scheme \<Rightarrow> 'a motor_state_scheme \<Rightarrow> bool" where
  "motor_only s s' = (i2c_ans s' = i2c_ans s \<and> motor_state.more s' = motor_state.more s)"

lemma bus_only_refl [simp, intro]: "bus_only s s"
  by (simp add: bus_only_def)

lemma bus_only_trans [trans]: "bus_only s t \<Longrightarrow> bus_only t u \<Longrightarrow> bus_only s u"
  by (simp add: bus_only_def)

lemma motor_only_refl [simp, intro]: "motor_only s s"
  by (simp add: motor_only_def)

lemma motor_only_trans [trans]: "motor_only s t \<Longrightarrow> motor_only t u \<Longrightarrow> motor_only s u"
  by (simp add: motor_only_def)

lemma bus_only_motor:
  fixes s :: "'a motor_state_scheme"
  assumes "bus_only s s'"
  shows "g_motor_addr s' = g_motor_addr s" "g_motor_available s' = g_motor_available s"
    "g_manual_watchdog_active s' = g_manual_watchdog_active s"
    "g_manual_watchdog_remaining_ms s' = g_manual_watchdog_remaining_ms s"
    "g_current_motion s' = g_current_motion s" "motor_only s s'"
  using assms by (cases s; cases s'; auto simp: bus_only_def motor_only_def)+

lemma bus_only_delay [simp, intro]: "bus_only s (osDelay n s)"
  by (simp add: bus_only_def i2c_defs)

lemma bus_only_delay_left [simp]: "bus_only (osDelay n s) t = bus_only s t"
  by (simp add: bus_only_def i2c_defs)

lemma bridge_regs_delay [simp]: "bridge_regs a (i2c_log (osDelay n s)) = bridge_regs a (i2c_log s)"
  by (simp add: i2c_defs)

section \<open>Writes to the bridge\<close>

lemma pwm_write_effect:
  assumes "motor_write_pwm_to addr reg duty s = (ret, s')"
  shows "bus_only s s'"
    and "bridge_regs a (i2c_log s') = (if addr = a then
        (if ret = 0 then {} else bridge_regs a (i2c_log s))
          \<union> (\<lambda>r. r(reg := duty)) ` bridge_regs a (i2c_log s)
      else bridge_regs a (i2c_log s))"
  using assms by (auto simp: motor_write_pwm_to_def i2c_defs bus_only_def)

lemma freq_write_effect:
  assumes "motor_write_freq_to addr s = (ret, s')"
  shows "bus_only s s'" and "bridge_regs a (i2c_log s') = bridge_regs a (i2c_log s)"
  using assms by (auto simp: motor_write_freq_to_def i2c_defs bus_only_def)

lemma try_stop_frame: "motor_try_stop_at addr s = (ret, s') \<Longrightarrow> bus_only s s'"
  by (auto simp: motor_try_stop_at_def Let_def split: prod.splits if_splits
      dest!: pwm_write_effect(1) freq_write_effect(1))
    (simp_all add: bus_only_def)

lemma try_stop_clears:
  assumes "motor_try_stop_at addr s = (0, s')" and "r \<in> bridge_regs addr (i2c_log s')"
  shows "r WHEEL_LEFT_A_REG = 0" "r WHEEL_LEFT_B_REG = 0"
    "r WHEEL_RIGHT_A_REG = 0" "r WHEEL_RIGHT_B_REG = 0"
  using assms
  by (auto simp: motor_try_stop_at_def Let_def pwm_write_effect(2) [where a = addr]
    split: prod.splits if_splits)

lemma set_wheel_cases:
  assumes "motor_set_wheel ca dr duty lim fwd s = (ret, s')"
  obtains r1 s1 r2 s2 where
    "motor_write_pwm_to (g_motor_addr s) (if fwd \<noteq> 0 then ca else dr) 0 s = (r1, s1)"
    "motor_write_pwm_to (g_motor_addr s) (if fwd \<noteq> 0 then dr else ca)
       (if lim < duty then lim else duty) s1 = (r2, s2)"
    "(ret, s') = (if r1 \<noteq> 0 then (r1, s1) else (r2, s2))"
proof -
  let ?a = "g_motor_addr s"
  obtain r1 s1 where w1: "motor_write_pwm_to ?a (if fwd \<noteq> 0 then ca else dr) 0 s = (r1, s1)"
    by fastforce
  obtain r2 s2 where w2: "motor_write_pwm_to ?a (if fwd \<noteq> 0 then dr else ca)
      (if lim < duty then lim else duty) s1 = (r2, s2)" by fastforce
  have "g_motor_addr s1 = ?a" by (rule bus_only_motor [OF pwm_write_effect(1) [OF w1]])
  with assms w1 w2 have "(ret, s') = (if r1 \<noteq> 0 then (r1, s1) else (r2, s2))"
    by (auto simp: motor_set_wheel_def Let_def motor_write_pwm_def split: if_splits)
  with w1 w2 show ?thesis by (rule that)
qed

lemma set_wheel_frame:
  assumes "motor_set_wheel ca dr duty lim fwd s = (ret, s')"
  shows "bus_only s s'"
  using assms
  by (rule set_wheel_cases)
    (auto dest!: pwm_write_effect(1) split: if_splits intro: bus_only_trans)

definition wheel_regs :: "u8 \<Rightarrow> u8 \<Rightarrow> bool" where
  "wheel_regs a b = ((a, b) = (WHEEL_LEFT_A_REG, WHEEL_LEFT_B_REG) \<or>
     (a, b) = (WHEEL_RIGHT_A_REG, WHEEL_RIGHT_B_REG))"

lemma bridge_ok_zero: "bridge_ok r \<Longrightarrow> bridge_ok (r(x := 0))"
  by (auto simp: bridge_ok_defs)

lemma bridge_ok_other:
  "wheel_regs ca dr \<Longrightarrow> bridge_ok r \<Longrightarrow> r (if fwd then ca else dr) = 0 \<Longrightarrow>
     d \<le> CAR_MOTOR_PERIOD_TICKS \<Longrightarrow> bridge_ok (r((if fwd then dr else ca) := d))"
  by (auto simp: bridge_ok_defs wheel_regs_def split: if_splits)

lemma set_wheel_ok:
  assumes run: "motor_set_wheel ca dr duty CAR_MOTOR_PERIOD_TICKS fwd s = (ret, s')"
    and w: "wheel_regs ca dr"
    and ok: "\<forall>r \<in> bridge_regs (g_motor_addr s) (i2c_log s). bridge_ok r"
  shows "\<forall>r \<in> bridge_regs (g_motor_addr s) (i2c_log s'). bridge_ok r"
  using run
proof (rule set_wheel_cases)
  let ?a = "g_motor_addr s" and ?z = "if fwd \<noteq> 0 then ca else dr"
    and ?d = "if CAR_MOTOR_PERIOD_TICKS < duty then CAR_MOTOR_PERIOD_TICKS else duty"
  fix r1 s1 r2 s2
  assume w1: "motor_write_pwm_to ?a ?z 0 s = (r1, s1)"
    and w2: "motor_write_pwm_to ?a (if fwd \<noteq> 0 then dr else ca) ?d s1 = (r2, s2)"
    and res: "(ret, s') = (if r1 \<noteq> 0 then (r1, s1) else (r2, s2))"
  have e1: "\<forall>r \<in> bridge_regs ?a (i2c_log s1). bridge_ok r \<and> (r1 = 0 \<longrightarrow> r ?z = 0)"
    unfolding pwm_write_effect(2) [OF w1] using ok by (auto intro: bridge_ok_zero)
  have "?d \<le> CAR_MOTOR_PERIOD_TICKS" by auto
  then have "\<forall>r \<in> bridge_regs ?a (i2c_log s2). bridge_ok r" if "r1 = 0"
    unfolding pwm_write_effect(2) [OF w2]
    using e1 bridge_ok_other [OF w, where fwd = "fwd \<noteq> 0" and d = ?d] that
    by (simp add: ball_Un)
  with e1 res show "\<forall>r \<in> bridge_regs ?a (i2c_log s'). bridge_ok r"
    by (auto split: if_splits)
qed

lemma set_wheel_acked:
  assumes "motor_set_wheel ca dr duty lim fwd s = (0, s')"
  shows "bridge_regs (g_motor_addr s) (i2c_log s') =
    (\<lambda>r. if fwd \<noteq> 0 then r(ca := 0, dr := if lim < duty then lim else duty)
         else r(dr := 0, ca := if lim < duty then lim else duty))
      ` bridge_regs (g_motor_addr s) (i2c_log s)"
  using assms
  by (rule set_wheel_cases)
    (auto simp: pwm_write_effect(2) image_image split: if_splits)

lemma apply_frame: "motor_apply ld lf rd rf s = (ret, s') \<Longrightarrow> bus_only s s'"
  by (auto simp: motor_apply_def motor_left_set_def motor_right_set_def Let_def split: prod.splits
    dest!: set_wheel_frame intro: bus_only_trans)

lemma apply_ok:
  assumes run: "motor_apply ld lf rd rf s = (ret, s')"
    and ok: "\<forall>r \<in> bridge_regs (g_motor_addr s) (i2c_log s). bridge_ok r"
  shows "\<forall>r \<in> bridge_regs (g_motor_addr s) (i2c_log s'). bridge_ok r"
proof -
  obtain r1 s1 where l: "motor_left_set ld lf s = (r1, s1)" by fastforce
  obtain r2 s2 where r: "motor_right_set rd rf s1 = (r2, s2)" by fastforce
  from run l r have "s' = s2" by (auto simp: motor_apply_def)
  moreover have "\<forall>r \<in> bridge_regs (g_motor_addr s) (i2c_log s1). bridge_ok r"
    using l ok by (auto simp: motor_left_set_def wheel_regs_def dest: set_wheel_ok)
  moreover have "g_motor_addr s1 = g_motor_addr s"
    using l by (auto simp: motor_left_set_def dest: set_wheel_frame bus_only_motor(1))
  ultimately show ?thesis
    using r by (auto simp: motor_right_set_def wheel_regs_def dest: set_wheel_ok)
qed

lemma apply_acked:
  assumes run: "motor_apply ld lf rd rf s = (0, s')"
    and le: "ld \<le> CAR_MOTOR_PERIOD_TICKS" "rd \<le> CAR_MOTOR_PERIOD_TICKS"
  shows "\<forall>r \<in> bridge_regs (g_motor_addr s) (i2c_log s').
    r WHEEL_LEFT_A_REG = (if lf \<noteq> 0 then 0 else ld) \<and>
    r WHEEL_LEFT_B_REG = (if lf \<noteq> 0 then ld else 0) \<and>
    r WHEEL_RIGHT_A_REG = (if rf \<noteq> 0 then 0 else rd) \<and>
    r WHEEL_RIGHT_B_REG = (if rf \<noteq> 0 then rd else 0)"
proof -
  obtain r1 s1 where l: "motor_left_set ld lf s = (r1, s1)" by fastforce
  obtain r2 s2 where r: "motor_right_set rd rf s1 = (r2, s2)" by fastforce
  from run l r have "r1 = 0" "r2 = 0" "s' = s2"
    by (auto simp: motor_apply_def split: if_splits)
  note l = set_wheel_acked [OF l [unfolded \<open>r1 = 0\<close> motor_left_set_def]] l
  note r = set_wheel_acked [OF r [unfolded \<open>r2 = 0\<close> motor_right_set_def]]
  have "g_motor_addr s1 = g_motor_addr s"
    using l(2) by (auto simp: motor_left_set_def dest: set_wheel_frame bus_only_motor(1))
  then show ?thesis
    using le r l(1) unfolding \<open>s' = s2\<close> by (auto simp: not_less)
qed

section \<open>The commands\<close>

lemma motor_speed_to_ticks_value:
  "unat (motor_speed_to_ticks p) =
     (if p = 0 then 0 else 10 * max 20 (min 100 (unat p)))"
proof -
  define q where "q = (let p1 = (if 100 < p then 100 else p)
    in if 0 < p1 \<and> p1 < 20 then 20 else p1)"
  have q: "unat q = (if p = 0 then 0 else max 20 (min 100 (unat p)))"
    by (auto simp: q_def Let_def word_less_nat_alt unat_eq_0 split: if_splits)
  then have "unat q \<le> 100" by auto
  then have "unat ((1000 :: u32) * ucast q div 100) = 10 * unat q"
    by (simp add: unat_div unat_word_ariths unat_ucast_u8_u32)
  then have "unat (ucast ((1000 :: u32) * ucast q div 100) :: u16) = 10 * unat q"
    using \<open>unat q \<le> 100\<close> by (simp add: unat_ucast_u32_u16)
  moreover have "motor_speed_to_ticks p = ucast ((1000 :: u32) * ucast q div 100)"
    by (simp add: motor_speed_to_ticks_def q_def Let_def)
  ultimately show ?thesis by (simp add: q)
qed

lemma motor_speed_to_ticks_bound: "motor_speed_to_ticks p \<le> CAR_MOTOR_PERIOD_TICKS"
  using motor_speed_to_ticks_value [of p] by (auto simp: word_le_nat_alt split: if_splits)

text \<open>Duty and direction of the left and the right wheel for a command.\<close>

definition wheel_plan :: "car_motor_cmd_t \<Rightarrow> u16 \<times> int \<times> int" where
  "wheel_plan c =
     (let d = motor_speed_to_ticks (speed_percent c)
      in case cmd_motion c of
           CAR_MOTION_FORWARD \<Rightarrow> (d, 1, 0)
         | CAR_MOTION_BACKWARD \<Rightarrow> (d, 0, 1)
         | CAR_MOTION_LEFT \<Rightarrow> (500, 1, 1)
         | CAR_MOTION_RIGHT \<Rightarrow> (500, 0, 0)
         | CAR_MOTION_STOP \<Rightarrow> (0, 1, 1))"

lemma wheel_plan_bound: "wheel_plan c = (d, lf, rf) \<Longrightarrow> d \<le> CAR_MOTOR_PERIOD_TICKS"
  using motor_speed_to_ticks_bound
  by (auto simp: wheel_plan_def Let_def split: car_motion_t.splits)

lemma car_motor_command_plan:
  assumes "speed_percent c \<le> 100" and "g_motor_available s \<noteq> 0"
    and "wheel_plan c = (d, lf, rf)"
  shows "car_motor_command (Some c) s =
    (let (ret, s1) = motor_apply d lf d rf s
     in (ret, if ret = 0 then s1\<lparr>g_current_motion := cmd_motion c\<rparr> else s1))"
  using assms
  by (auto simp: car_motor_command_def wheel_plan_def g_direction_map_def Let_def not_less
    split: car_motion_t.splits)

lemma car_motor_command_reject:
  "100 < speed_percent c \<or> g_motor_available s = 0 \<Longrightarrow>
     car_motor_command (Some c) s = (if 100 < speed_percent c then - 1 else - 2, s)"
  by (auto simp: car_motor_command_def)

lemma car_motor_command_cases:
  assumes "car_motor_command (Some c) s = (ret, s')"
  obtains "s' = s" "ret \<noteq> 0"
  | d lf rf s1 where "wheel_plan c = (d, lf, rf)" "motor_apply d lf d rf s = (ret, s1)"
      "speed_percent c \<le> 100" "g_motor_available s \<noteq> 0"
      "s' = (if ret = 0 then s1\<lparr>g_current_motion := cmd_motion c\<rparr> else s1)"
proof (cases "100 < speed_percent c \<or> g_motor_available s = 0")
  case True
  with assms car_motor_command_reject [of c s] show ?thesis
    by (intro that(1)) (auto split: if_splits)
next
  case False
  obtain d lf rf where plan: "wheel_plan c = (d, lf, rf)" by (cases "wheel_plan c") auto
  obtain r1 s1 where a: "motor_apply d lf d rf s = (r1, s1)" by fastforce
  from False assms a car_motor_command_plan [OF _ _ plan, of s] have "r1 = ret"
    "s' = (if ret = 0 then s1\<lparr>g_current_motion := cmd_motion c\<rparr> else s1)"
    by (auto simp: not_less)
  with False plan a show ?thesis by (intro that(2)) (auto simp: not_less)
qed

lemma car_motor_command_frame:
  assumes "car_motor_command (Some c) s = (ret, s')"
  shows "motor_only s s'" "g_motor_addr s' = g_motor_addr s"
    "g_motor_available s' = g_motor_available s"
    "g_manual_watchdog_active s' = g_manual_watchdog_active s"
    "g_manual_watchdog_remaining_ms s' = g_manual_watchdog_remaining_ms s"
    "g_current_motion s' = (if ret = 0 then cmd_motion c else g_current_motion s)"
  using assms
  by (rule car_motor_command_cases;
    use apply_frame in \<open>force dest: bus_only_motor simp: motor_only_def split: if_splits\<close>)+

section \<open>The invariant of the motor component\<close>

text \<open>
  While the bridge is in use, none of its possible register files drives both sides of an
  H-bridge or exceeds the PWM period, and the manual watchdog is armed with at most its timeout.
\<close>

definition all_regs_ok :: "'a motor_state_scheme \<Rightarrow> bool" where
  "all_regs_ok s = (\<forall>r \<in> bridge_regs (g_motor_addr s) (i2c_log s). bridge_ok r)"

definition watchdog_ok :: "'a motor_state_scheme \<Rightarrow> bool" where
  "watchdog_ok s = (g_manual_watchdog_remaining_ms s \<le> CAR_MOTOR_MANUAL_CMD_TIMEOUT_MS \<and>
     (g_manual_watchdog_active s = 0 \<longleftrightarrow> g_manual_watchdog_remaining_ms s = 0))"

definition motor_inv :: "'a motor_state_scheme \<Rightarrow> bool" where
  "motor_inv s = ((g_motor_available s \<noteq> 0 \<longrightarrow> all_regs_ok s) \<and> watchdog_ok s)"

lemma all_regs_ok_motion [simp]:
  "all_regs_ok (s\<lparr>g_current_motion := m\<rparr>) = all_regs_ok s"
  "all_regs_ok (s\<lparr>g_manual_watchdog_active := a\<rparr>) = all_regs_ok s"
  "all_regs_ok (s\<lparr>g_manual_watchdog_remaining_ms := n\<rparr>) = all_regs_ok s"
  by (simp_all add: all_regs_ok_def)

lemma command_regs_ok:
  assumes "car_motor_command (Some c) s = (ret, s')" and "g_motor_available s \<noteq> 0 \<longrightarrow> all_regs_ok s"
  shows "g_motor_available s' \<noteq> 0 \<longrightarrow> all_regs_ok s'"
  using assms(1)
proof (rule car_motor_command_cases)
  fix d lf rf s1 assume a: "motor_apply d lf d rf s = (ret, s1)" "g_motor_available s \<noteq> 0"
    "s' = (if ret = 0 then s1\<lparr>g_current_motion := cmd_motion c\<rparr> else s1)"
  have "all_regs_ok s1"
    using assms(2) a apply_ok [OF a(1)] bus_only_motor [OF apply_frame [OF a(1)]]
    by (simp add: all_regs_ok_def)
  with a(3) show ?thesis by simp
qed (use assms(2) in simp)

lemma command_inv: "motor_inv s \<Longrightarrow> car_motor_command (Some c) s = (ret, s') \<Longrightarrow> motor_inv s'"
  using command_regs_ok [of c s ret s'] car_motor_command_frame [of c s ret s']
  by (auto simp: motor_inv_def watchdog_ok_def)

lemma manual_command_cases:
  assumes "car_motor_manual_command (Some c) s = (ret, s')"
  obtains s1 where "car_motor_command (Some c) s = (ret, s1)"
    "s' = (if ret \<noteq> 0 then s1 else if cmd_motion c = CAR_MOTION_STOP
       then s1\<lparr>g_manual_watchdog_active := 0, g_manual_watchdog_remaining_ms := 0\<rparr>
       else s1\<lparr>g_manual_watchdog_active := 1,
         g_manual_watchdog_remaining_ms := CAR_MOTOR_MANUAL_CMD_TIMEOUT_MS\<rparr>)"
  using assms by (cases "car_motor_command (Some c) s")
    (auto simp: car_motor_manual_command_def split: if_splits)

lemma manual_command_inv:
  assumes "motor_inv s" and "car_motor_manual_command (Some c) s = (ret, s')"
  shows "motor_inv s'"
  using assms(2)
proof (rule manual_command_cases)
  fix s1 assume "car_motor_command (Some c) s = (ret, s1)"
    "s' = (if ret \<noteq> 0 then s1 else if cmd_motion c = CAR_MOTION_STOP
       then s1\<lparr>g_manual_watchdog_active := 0, g_manual_watchdog_remaining_ms := 0\<rparr>
       else s1\<lparr>g_manual_watchdog_active := 1,
         g_manual_watchdog_remaining_ms := CAR_MOTOR_MANUAL_CMD_TIMEOUT_MS\<rparr>)"
  with command_inv [OF assms(1), of c ret s1] show "motor_inv s'"
    by (auto simp: motor_inv_def watchdog_ok_def split: if_splits)
qed

lemma stop_inv: "motor_inv s \<Longrightarrow> motor_inv (snd (car_motor_stop s))"
  unfolding car_motor_stop_def by (metis command_inv prod.collapse)

lemma tick_inv: "motor_inv s \<Longrightarrow> motor_inv (car_motor_tick elapsed s)"
proof -
  assume inv: "motor_inv s"
  let ?s0 = "s\<lparr>g_manual_watchdog_active := 0, g_manual_watchdog_remaining_ms := 0\<rparr>"
  have "motor_inv ?s0" using inv by (simp add: motor_inv_def watchdog_ok_def)
  moreover have "motor_inv (s\<lparr>g_manual_watchdog_remaining_ms :=
      g_manual_watchdog_remaining_ms s - elapsed\<rparr>)"
    if "elapsed < g_manual_watchdog_remaining_ms s" "g_manual_watchdog_active s \<noteq> 0"
  proof -
    have "g_manual_watchdog_remaining_ms s - elapsed \<le> g_manual_watchdog_remaining_ms s"
      using that(1) by (simp add: word_sub_le)
    moreover have "g_manual_watchdog_remaining_ms s - elapsed \<noteq> 0"
      using that(1) by auto
    ultimately show ?thesis
      using inv that(2) by (auto simp: motor_inv_def watchdog_ok_def)
  qed
  ultimately show ?thesis using inv
    by (auto simp: car_motor_tick_def not_le intro: stop_inv)
qed

lemma manual_command_frame:
  assumes "car_motor_manual_command (Some c) s = (ret, s')"
  shows "motor_only s s'"
    "g_current_motion s' = (if ret = 0 then cmd_motion c else g_current_motion s)"
    "g_motor_available s' = g_motor_available s"
  using assms
  by (rule manual_command_cases; use car_motor_command_frame [of c s ret] in
    \<open>force simp: motor_only_def split: if_splits\<close>)+

lemma stop_frame: "car_motor_stop s = (ret, s') \<Longrightarrow> motor_only s s' \<and>
    g_current_motion s' = (if ret = 0 then CAR_MOTION_STOP else g_current_motion s) \<and>
    g_motor_available s' = g_motor_available s"
  using car_motor_command_frame [of stop_cmd s ret s']
  by (auto simp: car_motor_stop_def stop_cmd_def)

lemma tick_frame: "motor_only s (car_motor_tick elapsed s)"
  using stop_frame [OF surjective_pairing, of
      "s\<lparr>g_manual_watchdog_active := 0, g_manual_watchdog_remaining_ms := 0\<rparr>"]
  by (auto simp: car_motor_tick_def motor_only_def)

section \<open>Initialisation\<close>

definition motor_addrs :: "u8 set" where
  "motor_addrs = {CAR_I2C_ADDR_WHEEL_PWM, CAR_I2C_ADDR_STM8S_MOTOR_LEGACY,
     CAR_I2C_ADDR_STM8S_MOTOR_COMPAT}"

definition wheels_stopped :: "pwm_regs \<Rightarrow> bool" where
  "wheels_stopped r = (r WHEEL_LEFT_A_REG = 0 \<and> r WHEEL_LEFT_B_REG = 0 \<and>
     r WHEEL_RIGHT_A_REG = 0 \<and> r WHEEL_RIGHT_B_REG = 0)"

lemma wheels_stopped_ok: "wheels_stopped r \<Longrightarrow> bridge_ok r"
  by (simp add: wheels_stopped_def bridge_ok_defs)

lemma try_stop_stopped: "motor_try_stop_at addr s = (0, s') \<Longrightarrow>
    r \<in> bridge_regs addr (i2c_log s') \<Longrightarrow> wheels_stopped r"
  by (simp add: wheels_stopped_def try_stop_clears)

text \<open>
  Initialisation ends in one of two ways: one of the three addresses acknowledged the whole
  stop sequence, or the motor is marked unavailable and nothing will drive the bridge.
\<close>

lemma init_cases:
  assumes "car_motor_init s = (ret, s')"
  obtains "g_motor_available s' = 0" "motor_only s s'" "ret \<noteq> 0"
      "g_manual_watchdog_active s' = g_manual_watchdog_active s"
      "g_manual_watchdog_remaining_ms s' = g_manual_watchdog_remaining_ms s"
      "g_current_motion s' = g_current_motion s" "g_motor_addr s' = g_motor_addr s"
  | s1 where "car_motor_stop s1 = (ret, s')" "g_motor_available s1 = 1" "motor_only s s1"
      "g_motor_addr s1 \<in> motor_addrs" "\<forall>r \<in> bridge_regs (g_motor_addr s1) (i2c_log s1). wheels_stopped r"
      "g_manual_watchdog_active s1 = g_manual_watchdog_active s"
      "g_manual_watchdog_remaining_ms s1 = g_manual_watchdog_remaining_ms s"
      "g_current_motion s1 = g_current_motion s"
proof -
  obtain ra s1 where a: "motor_try_stop_at CAR_I2C_ADDR_WHEEL_PWM s = (ra, s1)" by fastforce
  obtain rb s2 where b: "motor_try_stop_at CAR_I2C_ADDR_STM8S_MOTOR_LEGACY s1 = (rb, s2)" by fastforce
  obtain rc s3 where c: "motor_try_stop_at CAR_I2C_ADDR_STM8S_MOTOR_COMPAT s2 = (rc, s3)" by fastforce
  note fa = bus_only_motor [OF try_stop_frame [OF a]]
  note fb = bus_only_motor [OF try_stop_frame [OF b]]
  note fc = bus_only_motor [OF try_stop_frame [OF c]]
  note f = fa fb fc
  note g = assms [unfolded car_motor_init_def a Let_def split_conv b c]
  consider "ra = 0" | "ra \<noteq> 0" "rb = 0" | "ra \<noteq> 0" "rb \<noteq> 0" "rc = 0" | "ra \<noteq> 0" "rb \<noteq> 0" "rc \<noteq> 0"
    by blast
  then show ?thesis
  proof cases
    case 1
    with a try_stop_stopped show ?thesis using g f
      by (intro that(2) [of "s1\<lparr>g_motor_addr := CAR_I2C_ADDR_WHEEL_PWM, g_motor_available := 1\<rparr>"])
        (auto simp: motor_only_def motor_addrs_def)
  next
    case 2
    with b try_stop_stopped show ?thesis using g f
      by (intro that(2) [of "s2\<lparr>g_motor_addr := CAR_I2C_ADDR_STM8S_MOTOR_LEGACY, g_motor_available := 1\<rparr>"])
        (auto simp: motor_only_def motor_addrs_def)
  next
    case 3
    with c try_stop_stopped show ?thesis using g f
      by (intro that(2) [of "s3\<lparr>g_motor_addr := CAR_I2C_ADDR_STM8S_MOTOR_COMPAT, g_motor_available := 1\<rparr>"])
        (auto simp: motor_only_def motor_addrs_def)
  next
    case 4
    then show ?thesis using g f by (intro that(1)) (auto simp: motor_only_def)
  qed
qed

lemma init_inv:
  assumes "watchdog_ok s" and "car_motor_init s = (ret, s')"
  shows "motor_inv s'"
  using assms(2)
proof (rule init_cases)
  assume "g_motor_available s' = 0"
    "g_manual_watchdog_active s' = g_manual_watchdog_active s"
    "g_manual_watchdog_remaining_ms s' = g_manual_watchdog_remaining_ms s"
  with assms(1) show ?thesis by (simp add: motor_inv_def watchdog_ok_def)
next
  fix s1 assume s1: "car_motor_stop s1 = (ret, s')" "g_motor_available s1 = 1"
    "\<forall>r \<in> bridge_regs (g_motor_addr s1) (i2c_log s1). wheels_stopped r"
    "g_manual_watchdog_active s1 = g_manual_watchdog_active s"
    "g_manual_watchdog_remaining_ms s1 = g_manual_watchdog_remaining_ms s"
  then have "motor_inv s1"
    using assms(1) by (auto simp: motor_inv_def watchdog_ok_def all_regs_ok_def wheels_stopped_ok)
  then show ?thesis using stop_inv [of s1] s1(1) by simp
qed

section \<open>Acknowledged commands\<close>

lemma command_acked_regs:
  assumes "car_motor_command (Some c) s = (0, s')" and "wheel_plan c = (d, lf, rf)"
    and "r \<in> bridge_regs (g_motor_addr s') (i2c_log s')"
  shows "r WHEEL_LEFT_A_REG = (if lf \<noteq> 0 then 0 else d)"
    "r WHEEL_LEFT_B_REG = (if lf \<noteq> 0 then d else 0)"
    "r WHEEL_RIGHT_A_REG = (if rf \<noteq> 0 then 0 else d)"
    "r WHEEL_RIGHT_B_REG = (if rf \<noteq> 0 then d else 0)"
  using assms(1) car_motor_command_frame(2) [OF assms(1)] assms(2,3)
  by (auto elim!: car_motor_command_cases dest!: apply_acked dest: wheel_plan_bound)

lemma stop_acked_regs:
  assumes "car_motor_stop s = (0, s')" and "r \<in> bridge_regs (g_motor_addr s') (i2c_log s')"
  shows "wheels_stopped r"
proof -
  have "wheel_plan stop_cmd = (0, 1, 1)" by (simp add: wheel_plan_def stop_cmd_def)
  then show ?thesis
    using command_acked_regs [of stop_cmd s s'] assms by (simp add: wheels_stopped_def car_motor_stop_def)
qed

section \<open>The bench test of the bridge\<close>

lemma wheel_cmd_regs_ok:
  assumes "all_regs_ok s" and "motor_set_wheel ca dr duty CAR_MOTOR_PERIOD_TICKS fwd s = (ret, s')"
    and "wheel_regs ca dr"
  shows "all_regs_ok s'"
  using assms set_wheel_ok [OF assms(2,3)] bus_only_motor [OF set_wheel_frame [OF assms(2)]]
  by (simp add: all_regs_ok_def)

lemma delay_regs_ok [simp]: "all_regs_ok (osDelay n s) = all_regs_ok s"
  using bus_only_motor [OF bus_only_delay [of s n]] by (simp add: all_regs_ok_def)

lemma freq_write_regs_ok:
  assumes "motor_write_freq_to addr s = (ret, s')"
  shows "bus_only s s'" "all_regs_ok s' = all_regs_ok s"
  using freq_write_effect [OF assms] bus_only_motor [of s s']
  by (auto simp: all_regs_ok_def)

lemma diag_inv:
  assumes inv: "motor_inv s"
  shows "motor_inv (snd (car_motor_exip06_diag_forward s))"
proof (cases "g_motor_available s = 0")
  case True
  with inv show ?thesis by (simp add: car_motor_exip06_diag_forward_def)
next
  case False
  obtain r1 s1 where f: "motor_write_freq_to (g_motor_addr s) s = (r1, s1)" by fastforce
  obtain r2 s2 where l: "motor_left_set 500 1 (osDelay CAR_MOTOR_FREQ_SETTLE_TICKS s1) = (r2, s2)"
    by fastforce
  obtain r3 s3 where r: "motor_right_set 500 1 s2 = (r3, s3)" by fastforce
  note b = freq_write_regs_ok(1) [OF f] bus_only_delay
    set_wheel_frame [OF l [unfolded motor_left_set_def]]
    set_wheel_frame [OF r [unfolded motor_right_set_def]]
  have "all_regs_ok s" using inv False by (simp add: motor_inv_def)
  then have ok1: "all_regs_ok s1" using freq_write_regs_ok(2) [OF f] by simp
  then have ok2: "all_regs_ok s2"
    using l by (intro wheel_cmd_regs_ok [OF _ l [unfolded motor_left_set_def]])
      (auto simp: wheel_regs_def)
  then have ok3: "all_regs_ok s3"
    using r by (intro wheel_cmd_regs_ok [OF _ r [unfolded motor_right_set_def]])
      (auto simp: wheel_regs_def)
  have w: "watchdog_ok t" if "bus_only s t" for t
    using inv bus_only_motor [OF that] by (simp add: motor_inv_def watchdog_ok_def)
  have "bus_only s s1" "bus_only s s2" "bus_only s s3"
    using b by (auto intro: bus_only_trans)
  then have "motor_inv s1" "motor_inv s2" "motor_inv s3" "motor_inv (osDelay 300 s3)"
    using ok1 ok2 ok3 w bus_only_trans [OF _ bus_only_delay] by (auto simp: motor_inv_def)
  then show ?thesis
    using False f l r
    by (auto simp: car_motor_exip06_diag_forward_def intro: stop_inv)
qed

section \<open>The interface of the motor driver\<close>

text \<open>
  What the patrol route and the remote-control paths rely on: a command that returns 0 is the
  motion that \<open>current\<close> reports afterwards, one that fails leaves the reported motion alone, a
  driver that is not ready refuses without touching the bus, and \<open>stop\<close> is a command.
\<close>

primrec run_commands :: "('c \<Rightarrow> 's \<Rightarrow> int \<times> 's) \<Rightarrow> 'c list \<Rightarrow> 's \<Rightarrow> int list \<times> 's" where
  "run_commands cmd [] s = ([], s)"
| "run_commands cmd (c # cs) s =
     (let (ret, s1) = cmd c s; (rets, s2) = run_commands cmd cs s1 in (ret # rets, s2))"

fun last_acked :: "'m \<Rightarrow> ('c \<Rightarrow> 'm) \<Rightarrow> 'c list \<Rightarrow> int list \<Rightarrow> 'm" where
  "last_acked m mot (c # cs) (ret # rets) = last_acked (if ret = 0 then mot c else m) mot cs rets"
| "last_acked m mot _ _ = m"

locale motor_driver =
  fixes command :: "'c \<Rightarrow> 's \<Rightarrow> int \<times> 's" and stop :: "'s \<Rightarrow> int \<times> 's"
    and stop_c :: 'c and motion_of :: "'c \<Rightarrow> 'm" and current :: "'s \<Rightarrow> 'm" and ready :: "'s \<Rightarrow> bool"
    and good :: "'s \<Rightarrow> bool"
  assumes command_current: "command c s = (ret, s') \<Longrightarrow>
      current s' = (if ret = 0 then motion_of c else current s)"
    and command_ready: "command c s = (ret, s') \<Longrightarrow> ready s' = ready s"
    and command_refused: "\<not> ready s \<Longrightarrow> command c s = (ret, s') \<Longrightarrow> ret \<noteq> 0 \<and> s' = s"
    and command_good: "good s \<Longrightarrow> command c s = (ret, s') \<Longrightarrow> good s'"
    and stop_command: "stop s = command stop_c s"
begin

lemma run_current:
  "run_commands command cs s = (rets, s') \<Longrightarrow>
     current s' = last_acked (current s) motion_of cs rets \<and> length rets = length cs"
proof (induction cs arbitrary: s rets)
  case (Cons c cs)
  obtain ret s1 where c: "command c s = (ret, s1)" by fastforce
  obtain rets1 where r: "run_commands command cs s1 = (rets1, s')" "rets = ret # rets1"
    using Cons.prems c by (auto split: prod.splits)
  show ?case using Cons.IH [OF r(1)] command_current [OF c] r(2) by simp
qed simp

lemma run_good: "good s \<Longrightarrow> run_commands command cs s = (rets, s') \<Longrightarrow> good s'"
proof (induction cs arbitrary: s rets)
  case (Cons c cs)
  then show ?case by (auto split: prod.splits dest: command_good)
qed simp

lemma run_not_ready:
  "\<not> ready s \<Longrightarrow> run_commands command cs s = (rets, s') \<Longrightarrow> s' = s \<and> 0 \<notin> set rets"
proof (induction cs arbitrary: s rets)
  case (Cons c cs)
  obtain ret s1 where c: "command c s = (ret, s1)" by fastforce
  with Cons.prems(1) have "ret \<noteq> 0" "s1 = s" by (auto dest: command_refused)
  then show ?case using Cons c by (auto split: prod.splits)
qed simp

lemma stop_current: "stop s = (0, s') \<Longrightarrow> current s' = motion_of stop_c"
  using command_current [of stop_c s 0 s'] by (simp add: stop_command)

lemma stop_good: "good s \<Longrightarrow> good (snd (stop s))"
  unfolding stop_command by (metis command_good prod.collapse)

end

interpretation drv: motor_driver "\<lambda>c. car_motor_command (Some c)" car_motor_stop stop_cmd
  cmd_motion car_motor_get_motion "\<lambda>s. g_motor_available s \<noteq> 0" motor_inv
  by unfold_locales
    (auto simp: car_motor_get_motion_def car_motor_stop_def car_motor_command_frame command_inv
      car_motor_command_reject split: if_splits)

section \<open>Bus traffic that does not concern the bridge\<close>

fun motor_write :: "i2c_event \<Rightarrow> bool" where
  "motor_write (I2cWrite addr bs ret) = (addr \<in> motor_addrs)"
| "motor_write ev = False"

definition quiet :: "'a i2c_env_scheme \<Rightarrow> 'a i2c_env_scheme \<Rightarrow> bool" where
  "quiet s s' = (bus_only s s' \<and> (\<exists>evs. i2c_log s' = i2c_log s @ evs \<and> (\<forall>ev \<in> set evs. \<not> motor_write ev)))"

lemma quiet_refl [simp, intro]: "quiet s s"
  by (simp add: quiet_def)

lemma quiet_trans [trans]:
  assumes "quiet s t" and "quiet t u"
  shows "quiet s u"
proof -
  obtain e1 where "i2c_log t = i2c_log s @ e1" "\<forall>ev \<in> set e1. \<not> motor_write ev"
    using assms(1) by (auto simp: quiet_def)
  moreover obtain e2 where "i2c_log u = i2c_log t @ e2" "\<forall>ev \<in> set e2. \<not> motor_write ev"
    using assms(2) by (auto simp: quiet_def)
  ultimately have "i2c_log u = i2c_log s @ e1 @ e2 \<and> (\<forall>ev \<in> set (e1 @ e2). \<not> motor_write ev)" by auto
  then show ?thesis using assms bus_only_trans [of s t u] unfolding quiet_def by blast
qed

lemma quiet_bus_only: "quiet s s' \<Longrightarrow> bus_only s s'"
  by (simp add: quiet_def)

lemma bridge_step_other: "\<not> motor_write ev \<Longrightarrow> a \<in> motor_addrs \<Longrightarrow> bridge_step a ev R = R"
  by (cases "(a, ev, R)" rule: bridge_step.cases) auto

lemma quiet_bridge:
  assumes "quiet s s'" and "a \<in> motor_addrs"
  shows "bridge_regs a (i2c_log s') = bridge_regs a (i2c_log s)"
proof -
  have "bridge_regs a (log @ evs) = bridge_regs a log" if "\<forall>ev \<in> set evs. \<not> motor_write ev" for evs log
    using that assms(2)
    by (induction evs rule: rev_induct) (auto simp flip: append_assoc simp: bridge_step_other)
  then show ?thesis using assms(1) by (auto simp: quiet_def)
qed

lemma quiet_no_writes:
  "quiet s s' \<Longrightarrow> \<forall>ev \<in> set (i2c_log s). \<not> motor_write ev \<Longrightarrow> \<forall>ev \<in> set (i2c_log s'). \<not> motor_write ev"
  by (auto simp: quiet_def)

lemma quiet_step: "\<not> motor_write ev \<Longrightarrow> quiet s (bus_next ev s)" "\<not> motor_write ev \<Longrightarrow> quiet s (log_ev ev s)"
  by (auto simp: quiet_def bus_only_def bus_next_def log_ev_def)

lemma quiet_delay [simp, intro]: "quiet s (osDelay n s)"
  by (simp add: osDelay_def quiet_step)

lemma quiet_write: "addr \<notin> motor_addrs \<Longrightarrow> car_i2c_write addr buf s = (ret, s') \<Longrightarrow> quiet s s'"
  by (auto simp: car_i2c_write_def Let_def quiet_step split: option.splits if_splits)

lemma quiet_read: "car_i2c_read addr len s = (r, s') \<Longrightarrow> quiet s s'"
  by (auto simp: car_i2c_read_def Let_def quiet_step split: if_splits)

lemma quiet_motor_inv:
  assumes "quiet s s'" and "motor_inv s" and "g_motor_addr s \<in> motor_addrs"
  shows "motor_inv s'" "g_motor_addr s' = g_motor_addr s"
  using assms bus_only_motor [OF quiet_bus_only [OF assms(1)]] quiet_bridge [OF assms(1,3)]
  by (auto simp: motor_inv_def all_regs_ok_def watchdog_ok_def)

section \<open>The safety invariant every component of the car keeps\<close>

definition car_safe :: "'a motor_state_scheme \<Rightarrow> bool" where
  "car_safe s = (motor_inv s \<and> g_motor_addr s \<in> motor_addrs)"

lemma car_safe_view:
  assumes "car_safe s" and "g_motor_addr s' = g_motor_addr s" "g_motor_available s' = g_motor_available s"
    "g_manual_watchdog_active s' = g_manual_watchdog_active s"
    "g_manual_watchdog_remaining_ms s' = g_manual_watchdog_remaining_ms s" "i2c_log s' = i2c_log s"
  shows "car_safe s'"
  using assms by (simp add: car_safe_def motor_inv_def watchdog_ok_def all_regs_ok_def)

lemma command_safe: "car_safe s \<Longrightarrow> car_safe (snd (car_motor_command (Some c) s))"
  unfolding car_safe_def
  by (metis command_inv car_motor_command_frame(2) prod.collapse)

lemma manual_command_addr:
  "car_motor_manual_command (Some c) s = (ret, s') \<Longrightarrow> g_motor_addr s' = g_motor_addr s"
  by (erule manual_command_cases) (auto dest: car_motor_command_frame(2) split: if_splits)

lemma manual_command_safe: "car_safe s \<Longrightarrow> car_safe (snd (car_motor_manual_command (Some c) s))"
  unfolding car_safe_def
  by (metis manual_command_inv manual_command_addr prod.collapse)

lemma stop_safe: "car_safe s \<Longrightarrow> car_safe (snd (car_motor_stop s))"
  by (simp add: car_motor_stop_def command_safe)

lemma tick_safe: "car_safe s \<Longrightarrow> car_safe (car_motor_tick e s)"
proof -
  assume "car_safe s"
  moreover have "g_motor_addr (car_motor_tick e s) = g_motor_addr s"
    using car_motor_command_frame(2) [OF surjective_pairing, of stop_cmd
        "s\<lparr>g_manual_watchdog_active := 0, g_manual_watchdog_remaining_ms := 0\<rparr>"]
    by (simp add: car_motor_tick_def car_motor_stop_def)
  ultimately show ?thesis by (simp add: car_safe_def tick_inv)
qed

lemma quiet_safe: "quiet s s' \<Longrightarrow> car_safe s \<Longrightarrow> car_safe s'"
  using quiet_motor_inv [of s s'] by (auto simp: car_safe_def)

lemma init_safe:
  assumes "watchdog_ok s" and "g_motor_addr s \<in> motor_addrs"
  shows "car_safe (snd (car_motor_init s))"
proof (rule init_cases [OF surjective_pairing, of s])
  fix s1 assume "car_motor_stop s1 = (fst (car_motor_init s), snd (car_motor_init s))"
    "g_motor_addr s1 \<in> motor_addrs"
  then show ?thesis
    using init_inv [OF assms(1) surjective_pairing]
      car_motor_command_frame(2) [of stop_cmd s1 "fst (car_motor_init s)" "snd (car_motor_init s)"]
    by (simp add: car_safe_def car_motor_stop_def)
qed (use assms init_inv [OF assms(1) surjective_pairing] in \<open>auto simp: car_safe_def\<close>)

lemma init_frame: "car_motor_init s = (ret, s') \<Longrightarrow> motor_only s s'"
  by (erule init_cases) (auto dest: stop_frame intro: motor_only_trans)

section \<open>Properties of the motor component\<close>

text \<open>C2: A command the bridge acknowledged has put exactly these values into the wheel registers, whatever
  they were before: forward and backward drive both wheels with 10 ticks per percent of the
  speed, raised to at least 20 percent unless it is 0, left and right turn in place with 500 ticks,
  stop clears all four; and the motion it reports is the motion of the command.\<close>

theorem acked_command_sets_wheels:
  assumes "car_motor_command (Some c) s = (0, s')"
    and "r \<in> bridge_regs (g_motor_addr s') (i2c_log s')"
    and "p = (if speed_percent c = 0 then 0 else 10 * max 20 (min 100 (unat (speed_percent c))))"
  shows "map (\<lambda>x. unat (r x)) [WHEEL_LEFT_A_REG, WHEEL_LEFT_B_REG, WHEEL_RIGHT_A_REG, WHEEL_RIGHT_B_REG] =
      (case cmd_motion c of
         CAR_MOTION_FORWARD \<Rightarrow> [0, p, p, 0]
       | CAR_MOTION_BACKWARD \<Rightarrow> [p, 0, 0, p]
       | CAR_MOTION_LEFT \<Rightarrow> [0, 500, 0, 500]
       | CAR_MOTION_RIGHT \<Rightarrow> [500, 0, 500, 0]
       | CAR_MOTION_STOP \<Rightarrow> [0, 0, 0, 0])
    \<and> car_motor_get_motion s' = cmd_motion c"
proof -
  have p: "unat (motor_speed_to_ticks (speed_percent c)) = p"
    unfolding assms(3) by (rule motor_speed_to_ticks_value)
  obtain d lf rf where plan: "wheel_plan c = (d, lf, rf)" by (cases "wheel_plan c") auto
  note regs = command_acked_regs [OF assms(1) plan assms(2)]
  have "car_motor_get_motion s' = cmd_motion c"
    using car_motor_command_frame(6) [OF assms(1)] by (simp add: car_motor_get_motion_def)
  with plan p regs show ?thesis
    by (cases "cmd_motion c") (auto simp: wheel_plan_def Let_def)
qed

lemma acked_command_sets_wheels_witness:
  "let c = \<lparr>cmd_motion = CAR_MOTION_FORWARD, speed_percent = 45, duration_ms = 3000\<rparr>;
       s = (motor_boot quiet_bus)\<lparr>g_motor_available := 1\<rparr>; s' = snd (car_motor_command (Some c) s)
   in \<forall>r \<in> bridge_regs (g_motor_addr s') (i2c_log s'). unat (r WHEEL_LEFT_B_REG) = 450 \<and> unat (r WHEEL_LEFT_A_REG) = 0"
proof -
  let ?c = "\<lparr>cmd_motion = CAR_MOTION_FORWARD, speed_percent = 45, duration_ms = 3000\<rparr>"
  let ?s = "(motor_boot quiet_bus)\<lparr>g_motor_available := 1\<rparr>"
  have "fst (car_motor_command (Some ?c) ?s) = 0" by code_simp
  then have run: "car_motor_command (Some ?c) ?s = (0, snd (car_motor_command (Some ?c) ?s))"
    by (metis prod.collapse)
  show ?thesis using acked_command_sets_wheels [OF run _ refl] by (simp add: Let_def)
qed

text \<open>C5: The motion the driver reports is that of the last acknowledged command of any sequence of commands
  (the reported motion before it when none was), and while the bridge is in use the safety of its
  registers survives the whole sequence, failures included.\<close>

theorem reported_motion_is_last_acked:
  assumes "run_commands (\<lambda>c. car_motor_command (Some c)) cs s = (rets, s')"
  shows "car_motor_get_motion s' = last_acked (car_motor_get_motion s) cmd_motion cs rets \<and>
    (motor_inv s \<longrightarrow> motor_inv s') \<and>
    (g_motor_available s = 0 \<longrightarrow> s' = s \<and> 0 \<notin> set rets)"
  using drv.run_current [OF assms] drv.run_good [OF _ assms] drv.run_not_ready [OF _ assms] by auto

lemma reported_motion_is_last_acked_witness:
  "let s = motor_boot quiet_bus; out = run_commands (\<lambda>c. car_motor_command (Some c)) [stop_cmd, stop_cmd] s
   in snd out = s \<and> 0 \<notin> set (fst out)"
proof -
  let ?s = "motor_boot quiet_bus"
  let ?out = "run_commands (\<lambda>c. car_motor_command (Some c)) [stop_cmd, stop_cmd] ?s"
  have run: "?out = (fst ?out, snd ?out)" by simp
  have "g_motor_available ?s = 0"
    by (simp add: motor_boot_def motor_state.defs i2c_env.defs)
  then show ?thesis
    using reported_motion_is_last_acked [OF run] by (simp add: Let_def del: run_commands.simps)
qed

text \<open>Initialisation leaves the motor either unavailable, with an error code, or in use at one of its three
  addresses with every possible register file of the bridge safe, and with all wheel registers 0
  when it reports success, whatever the bridge held at power-on.\<close>

theorem motor_init_outcome:
  assumes "car_motor_init s = (ret, s')" and "watchdog_ok s"
  shows "(g_motor_available s' = 0 \<and> ret \<noteq> 0 \<and> g_current_motion s' = g_current_motion s) \<or>
    (g_motor_available s' = 1 \<and> g_motor_addr s' \<in> motor_addrs \<and>
     (\<forall>r \<in> bridge_regs (g_motor_addr s') (i2c_log s'). bridge_ok r \<and> (ret = 0 \<longrightarrow> wheels_stopped r)))"
  using assms(1)
proof (rule init_cases)
  fix s1 assume st: "car_motor_stop s1 = (ret, s')" "g_motor_available s1 = 1" "g_motor_addr s1 \<in> motor_addrs"
  have "g_motor_available s' = 1" "g_motor_addr s' = g_motor_addr s1"
    using stop_frame [OF st(1)] car_motor_command_frame(2) [of stop_cmd s1] st by (auto simp: car_motor_stop_def)
  then show ?thesis
    using st stop_acked_regs [of s1 s'] init_inv [OF assms(2,1)] by (auto simp: motor_inv_def all_regs_ok_def)
qed simp

lemma motor_init_outcome_witness:
  "let (ret, s') = car_motor_init (motor_boot quiet_bus)
   in ret = 0 \<and> (\<forall>r \<in> bridge_regs (g_motor_addr s') (i2c_log s'). wheels_stopped r)"
proof -
  let ?s = "motor_boot quiet_bus"
  have r: "fst (car_motor_init ?s) = 0" by code_simp
  have "watchdog_ok ?s" by (simp add: watchdog_ok_def motor_boot_def motor_state.defs i2c_env.defs)
  then show ?thesis
    using motor_init_outcome [of ?s 0 "snd (car_motor_init ?s)"] r by (cases "car_motor_init ?s") auto
qed

lemma tick_inactive: "g_manual_watchdog_active s = 0 \<Longrightarrow> car_motor_tick e s = s"
  by (simp add: car_motor_tick_def)

lemma tick_active:
  assumes "g_manual_watchdog_active s \<noteq> 0" and "0 < unat (g_manual_watchdog_remaining_ms s)"
  shows "fold car_motor_tick es s =
    (let n = unat (g_manual_watchdog_remaining_ms s); t = sum_list (map unat es)
     in if t < n then s\<lparr>g_manual_watchdog_remaining_ms := of_nat (n - t)\<rparr>
        else snd (car_motor_stop (s\<lparr>g_manual_watchdog_active := 0, g_manual_watchdog_remaining_ms := 0\<rparr>)))"
  using assms
proof (induction es arbitrary: s)
  case Nil
  then show ?case by (simp add: Let_def)
next
  case (Cons e es)
  let ?n = "g_manual_watchdog_remaining_ms s"
  let ?off = "s\<lparr>g_manual_watchdog_active := 0, g_manual_watchdog_remaining_ms := 0\<rparr>"
  show ?case
  proof (cases "?n \<le> e")
    case True
    have "g_manual_watchdog_active (snd (car_motor_stop ?off)) = 0"
      using car_motor_command_frame(4) [OF surjective_pairing, of stop_cmd ?off]
      by (simp add: car_motor_stop_def)
    then have "fold car_motor_tick es (snd (car_motor_stop ?off)) = snd (car_motor_stop ?off)"
      by (induction es) (simp_all add: tick_inactive)
    moreover have "car_motor_tick e s = snd (car_motor_stop ?off)"
      using True Cons.prems(1) by (simp add: car_motor_tick_def)
    ultimately show ?thesis using True by (simp add: word_le_nat_alt Let_def)
  next
    case False
    let ?s1 = "s\<lparr>g_manual_watchdog_remaining_ms := ?n - e\<rparr>"
    have le: "unat e < unat ?n" using False by (simp add: word_le_nat_alt)
    then have n1: "unat (?n - e) = unat ?n - unat e" by (simp add: unat_sub_if')
    have "fold car_motor_tick es ?s1 =
        (let n = unat ?n - unat e; t = sum_list (map unat es)
         in if t < n then ?s1\<lparr>g_manual_watchdog_remaining_ms := of_nat (n - t)\<rparr>
            else snd (car_motor_stop ?off))"
      using Cons.IH [of ?s1] Cons.prems(1) le n1 by (simp add: Let_def)
    moreover have "car_motor_tick e s = ?s1"
      using False Cons.prems(1) by (simp add: car_motor_tick_def)
    ultimately show ?thesis using le by (auto simp: Let_def simp del: of_nat_diff)
  qed
qed

text \<open>C4: After an accepted manual motion, ticks that add up to less than 800 ms leave the bridge alone and only
  count down; the first tick that reaches 800 ms sends a stop and disarms the watchdog, and later
  ticks send nothing more.\<close>

theorem watchdog_deadline:
  assumes "car_motor_manual_command (Some c) s0 = (0, s)" and "cmd_motion c \<noteq> CAR_MOTION_STOP"
  shows "fold car_motor_tick es s =
    (let t = sum_list (map unat es)
     in if t < 800 then s\<lparr>g_manual_watchdog_remaining_ms := of_nat (800 - t)\<rparr>
        else snd (car_motor_stop (s\<lparr>g_manual_watchdog_active := 0, g_manual_watchdog_remaining_ms := 0\<rparr>)))"
proof -
  have "g_manual_watchdog_active s = 1" "g_manual_watchdog_remaining_ms s = 800"
    using assms by (auto elim!: manual_command_cases)
  then show ?thesis using tick_active [of s es] by (simp add: Let_def)
qed

lemma watchdog_deadline_witness:
  "let c = \<lparr>cmd_motion = CAR_MOTION_LEFT, speed_percent = 35, duration_ms = 600\<rparr>;
       s = snd (car_motor_manual_command (Some c) ((motor_boot quiet_bus)\<lparr>g_motor_available := 1\<rparr>))
   in fold car_motor_tick [300, 400] s = s\<lparr>g_manual_watchdog_remaining_ms := 100\<rparr> \<and>
      fold car_motor_tick [1000] s =
        snd (car_motor_stop (s\<lparr>g_manual_watchdog_active := 0, g_manual_watchdog_remaining_ms := 0\<rparr>))"
proof -
  let ?c = "\<lparr>cmd_motion = CAR_MOTION_LEFT, speed_percent = 35, duration_ms = 600\<rparr>"
  let ?s0 = "(motor_boot quiet_bus)\<lparr>g_motor_available := 1\<rparr>"
  have "fst (car_motor_manual_command (Some ?c) ?s0) = 0" by code_simp
  then have run: "car_motor_manual_command (Some ?c) ?s0 = (0, snd (car_motor_manual_command (Some ?c) ?s0))"
    by (metis prod.collapse)
  show ?thesis
    using watchdog_deadline [OF run, of "[300, 400]"] watchdog_deadline [OF run, of "[1000]"]
    by (simp add: Let_def)
qed

end
