(* ===== verification/PatrolRoute.thy ===== *)
theory PatrolRoute
  imports CarMotor
begin

text \<open>
  The timed patrol of the car (patrol/patrol_route.c): a fixed route of five steps, walked by
  ticks of the main loop. A step sends its motor command when its elapsed time is 0 and ends
  with the tick that brings the elapsed time to its duration.

  The statics of the file extend the motor state. The lemmas show that the position in the route
  is always a valid one, and how many ticks each step lasts.
\<close>

section \<open>patrol/patrol_route.c\<close>

record patrol_step_t =
  step_motion :: car_motion_t
  step_speed_percent :: u8
  step_duration_ms :: u16

definition g_route :: "patrol_step_t list" where
  "g_route =
     [\<lparr>step_motion = CAR_MOTION_FORWARD, step_speed_percent = 45, step_duration_ms = 3000\<rparr>,
      \<lparr>step_motion = CAR_MOTION_LEFT, step_speed_percent = 35, step_duration_ms = 600\<rparr>,
      \<lparr>step_motion = CAR_MOTION_FORWARD, step_speed_percent = 45, step_duration_ms = 3000\<rparr>,
      \<lparr>step_motion = CAR_MOTION_RIGHT, step_speed_percent = 35, step_duration_ms = 600\<rparr>,
      \<lparr>step_motion = CAR_MOTION_STOP, step_speed_percent = 0, step_duration_ms = 1000\<rparr>]"

record patrol_state = motor_state +
  g_enabled :: u8
  g_step_index :: u32
  g_step_elapsed :: u32

definition patrol_route_init :: "'a patrol_state_scheme \<Rightarrow> 'a patrol_state_scheme" where
  "patrol_route_init s = s\<lparr>g_enabled := 0, g_step_index := 0, g_step_elapsed := 0\<rparr>"

definition patrol_route_start :: "'a patrol_state_scheme \<Rightarrow> 'a patrol_state_scheme" where
  "patrol_route_start s = s\<lparr>g_enabled := 1, g_step_index := 0, g_step_elapsed := 0\<rparr>"

definition patrol_route_stop :: "'a patrol_state_scheme \<Rightarrow> 'a patrol_state_scheme" where
  "patrol_route_stop s =
     snd (car_motor_stop (s\<lparr>g_enabled := 0, g_step_index := 0, g_step_elapsed := 0\<rparr>))"

text \<open>The command of a step, and the step the route is at (\<open>g_route[g_step_index]\<close>).\<close>

definition step_cmd :: "patrol_step_t \<Rightarrow> car_motor_cmd_t" where
  "step_cmd st = \<lparr>cmd_motion = step_motion st, speed_percent = step_speed_percent st,
     duration_ms = step_duration_ms st\<rparr>"

definition cur_step :: "'a patrol_state_scheme \<Rightarrow> patrol_step_t" where
  "cur_step s = g_route ! unat (g_step_index s)"

text \<open>A null \<open>data\<close> is \<open>None\<close>; the record written through the pointer is returned.\<close>

definition patrol_route_tick ::
    "u32 \<Rightarrow> env_data_t option \<Rightarrow> 'a patrol_state_scheme \<Rightarrow> env_data_t option \<times> 'a patrol_state_scheme" where
  "patrol_route_tick elapsed_ms data s =
     (case data of None \<Rightarrow> (None, s)
      | Some d \<Rightarrow>
        let d1 = d\<lparr>patrol_enabled := g_enabled s\<rparr>
        in if g_enabled s = 0 then (Some (d1\<lparr>motion := CAR_MOTION_STOP\<rparr>), s)
           else
             let step = cur_step s;
                 d2 = d1\<lparr>motion := step_motion step\<rparr>;
                 s1 = (if g_step_elapsed s = 0
                       then snd (car_motor_command (Some (step_cmd step)) s) else s);
                 s2 = s1\<lparr>g_step_elapsed := g_step_elapsed s1 + elapsed_ms\<rparr>
             in (Some d2,
                 if ucast (step_duration_ms step) \<le> g_step_elapsed s2 then
                   let s3 = s2\<lparr>g_step_elapsed := 0, g_step_index := g_step_index s2 + 1\<rparr>
                   in if of_nat (length g_route) \<le> g_step_index s3 then s3\<lparr>g_step_index := 0\<rparr> else s3
                 else s2))"

section \<open>Frame facts\<close>

definition patrol_rest_eq :: "'a patrol_state_scheme \<Rightarrow> 'a patrol_state_scheme \<Rightarrow> bool" where
  "patrol_rest_eq s s' = (i2c_ans s' = i2c_ans s \<and> patrol_state.more s' = patrol_state.more s)"

lemma motor_only_patrol:
  fixes s :: "'a patrol_state_scheme"
  assumes "motor_only s s'"
  shows "g_enabled s' = g_enabled s" "g_step_index s' = g_step_index s"
    "g_step_elapsed s' = g_step_elapsed s" "patrol_state.more s' = patrol_state.more s"
  using assms by (cases s; cases s'; auto simp: motor_only_def)+

lemma motor_only_rest: "motor_only s s' \<Longrightarrow> patrol_rest_eq s s'"
  for s :: "'a patrol_state_scheme"
  using motor_only_patrol [of s s'] by (simp add: patrol_rest_eq_def motor_only_def)

lemma command_patrol:
  fixes s :: "'a patrol_state_scheme"
  shows "g_enabled (snd (car_motor_command (Some c) s)) = g_enabled s"
    "g_step_index (snd (car_motor_command (Some c) s)) = g_step_index s"
    "g_step_elapsed (snd (car_motor_command (Some c) s)) = g_step_elapsed s"
    "patrol_state.more (snd (car_motor_command (Some c) s)) = patrol_state.more s"
  by (rule motor_only_patrol [OF car_motor_command_frame(1) [OF surjective_pairing]])+

section \<open>The position in the route\<close>

definition patrol_inv :: "'a patrol_state_scheme \<Rightarrow> bool" where
  "patrol_inv s = (unat (g_step_index s) < length g_route \<and>
     g_step_elapsed s < ucast (step_duration_ms (cur_step s)) \<and>
     (g_enabled s = 0 \<longrightarrow> g_step_index s = 0 \<and> g_step_elapsed s = 0) \<and> g_enabled s \<le> 1)"

text \<open>The step after the i-th: the last one is followed by the first.\<close>

definition next_index :: "u32 \<Rightarrow> u32" where
  "next_index i = (if i = 4 then 0 else i + 1)"

definition advance :: "u32 \<Rightarrow> u32 \<times> u32 \<Rightarrow> u32 \<times> u32" where
  "advance e p = (case p of (i, el) \<Rightarrow>
     if ucast (step_duration_ms (g_route ! unat i)) \<le> el + e then (next_index i, 0) else (i, el + e))"

definition position :: "'a patrol_state_scheme \<Rightarrow> u32 \<times> u32" where
  "position s = (g_step_index s, g_step_elapsed s)"

lemma length_route [simp]: "length g_route = 5"
  by (simp add: g_route_def)

lemma index_cases:
  assumes "unat (i :: u32) < 5"
  obtains "i = 0" | "i = 1" | "i = 2" | "i = 3" | "i = 4"
proof -
  have "unat i = 0 \<or> unat i = 1 \<or> unat i = 2 \<or> unat i = 3 \<or> unat i = 4" using assms by arith
  then have "i = 0 \<or> i = 1 \<or> i = 2 \<or> i = 3 \<or> i = 4"
    by (simp add: word_unat_eq_iff)
  with that show ?thesis by blast
qed

lemma next_index_bound: "unat i < 5 \<Longrightarrow> unat (next_index i) < 5"
  by (erule index_cases) (simp_all add: next_index_def)

lemma route_duration_pos: "unat (i :: u32) < 5 \<Longrightarrow> (0 :: u32) < ucast (step_duration_ms (g_route ! unat i))"
  by (erule index_cases) (simp_all add: g_route_def)

lemma next_index_wrap:
  "unat i < 5 \<Longrightarrow> (if (5 :: u32) \<le> i + 1 then 0 else i + 1) = next_index i"
  by (erule index_cases) (simp_all add: next_index_def word_le_nat_alt)

lemma tick_disabled:
  "g_enabled s = 0 \<Longrightarrow> patrol_route_tick e (Some d) s =
     (Some (d\<lparr>patrol_enabled := 0, motion := CAR_MOTION_STOP\<rparr>), s)"
  by (simp add: patrol_route_tick_def)

lemma tick_enabled:
  assumes "g_enabled s \<noteq> 0" and "unat (g_step_index s) < 5"
    and "s1 = (if g_step_elapsed s = 0
       then snd (car_motor_command (Some (step_cmd (cur_step s))) s) else s)"
  shows "patrol_route_tick e (Some d) s =
    (Some (d\<lparr>patrol_enabled := g_enabled s, motion := step_motion (cur_step s)\<rparr>),
     s1\<lparr>g_step_index := fst (advance e (position s)), g_step_elapsed := snd (advance e (position s))\<rparr>)"
proof -
  have s1: "g_step_index s1 = g_step_index s" "g_step_elapsed s1 = g_step_elapsed s"
    using assms(3) by (simp_all add: command_patrol)
  let ?fin = "\<lambda>u :: 'a patrol_state_scheme. if ucast (step_duration_ms (cur_step s)) \<le> g_step_elapsed u + e
     then (if of_nat (length g_route) \<le> g_step_index u + 1
       then u\<lparr>g_step_elapsed := 0, g_step_index := 0\<rparr>
       else u\<lparr>g_step_elapsed := 0, g_step_index := g_step_index u + 1\<rparr>)
     else u\<lparr>g_step_elapsed := g_step_elapsed u + e\<rparr>"
  have "patrol_route_tick e (Some d) s =
    (Some (d\<lparr>patrol_enabled := g_enabled s, motion := step_motion (cur_step s)\<rparr>), ?fin s1)"
    using assms(1) unfolding assms(3) by (simp add: patrol_route_tick_def Let_def)
  moreover have "?fin s1 =
     s1\<lparr>g_step_index := fst (advance e (position s)), g_step_elapsed := snd (advance e (position s))\<rparr>"
    using s1 next_index_wrap [OF assms(2)]
    by (cases s1) (auto simp: cur_step_def advance_def position_def)
  ultimately show ?thesis by simp
qed

lemma advance_inv:
  assumes "unat i < 5"
  shows "unat (fst (advance e (i, el))) < 5 \<and> snd (advance e (i, el)) <
    ucast (step_duration_ms (g_route ! unat (fst (advance e (i, el)))))"
  using assms next_index_bound [OF assms] route_duration_pos [OF next_index_bound [OF assms]]
  by (auto simp: advance_def not_le)

lemma patrol_route_tick_inv:
  assumes "patrol_inv s"
  shows "patrol_inv (snd (patrol_route_tick e d s))"
proof (cases "d = None \<or> g_enabled s = 0")
  case True
  with assms show ?thesis by (auto simp: patrol_route_tick_def split: option.splits)
next
  case False
  with assms show ?thesis
    using advance_inv [of "g_step_index s" e "g_step_elapsed s"]
    by (auto simp: tick_enabled [OF _ _ refl] patrol_inv_def cur_step_def position_def command_patrol
      split: if_splits)
qed

section \<open>How long a step lasts\<close>

text \<open>Successive ticks, and the number of ticks of length \<open>e\<close> that the i-th step takes.\<close>

primrec patrol_run :: "u32 \<Rightarrow> env_data_t \<Rightarrow> nat \<Rightarrow> 'a patrol_state_scheme \<Rightarrow> 'a patrol_state_scheme" where
  "patrol_run e d 0 s = s"
| "patrol_run e d (Suc n) s = snd (patrol_route_tick e (Some d) (patrol_run e d n s))"

definition route_duration :: "u32 \<Rightarrow> nat" where
  "route_duration i = unat (step_duration_ms (g_route ! unat i))"

definition step_ticks :: "u32 \<Rightarrow> u32 \<Rightarrow> nat" where
  "step_ticks e i = (route_duration i + unat e - 1) div unat e"

lemma route_duration_bound: "unat i < 5 \<Longrightarrow> 0 < route_duration i \<and> route_duration i \<le> 3000"
  by (erule index_cases) (simp_all add: g_route_def route_duration_def)

lemma unat_route_duration:
  "unat (ucast (step_duration_ms (g_route ! unat i)) :: u32) = route_duration i"
  by (simp add: route_duration_def unsigned_ucast_eq unsigned_take_bit_eq take_bit_nat_eq_self_iff
    order_less_trans [OF unat_u16_less])

lemma step_ticks_pos: "unat i < 5 \<Longrightarrow> 0 < unat e \<Longrightarrow> 0 < step_ticks e i"
  using route_duration_bound [of i] by (auto simp: step_ticks_def div_greater_zero_iff)

lemma step_ticks_less:
  assumes "0 < unat e" shows "n < step_ticks e i \<longleftrightarrow> n * unat e < route_duration i"
proof -
  have "n < step_ticks e i \<longleftrightarrow> Suc n * unat e \<le> route_duration i + unat e - 1"
    using assms by (simp add: step_ticks_def less_eq_div_iff_mult_less_eq flip: Suc_le_eq)
  then show ?thesis using assms by auto
qed

lemma advance_within:
  assumes "unat i < 5" and "unat el < route_duration i" and "unat e \<le> 1000000"
  shows "advance e (i, el) = (if route_duration i \<le> unat el + unat e then (next_index i, 0)
    else (i, el + e))" "unat (el + e) = unat el + unat e"
proof -
  have "unat el + unat e < 2 ^ 32" using route_duration_bound [OF assms(1)] assms(2,3) by simp
  then show "unat (el + e) = unat el + unat e" by (simp add: unat_word_ariths)
  then show "advance e (i, el) = (if route_duration i \<le> unat el + unat e then (next_index i, 0)
    else (i, el + e))"
    by (simp add: advance_def word_le_nat_alt unat_route_duration)
qed

lemma run_within_step:
  assumes "g_enabled s \<noteq> 0" and i: "position s = (i, 0)" "unat i < 5"
    and e: "0 < unat e" "unat e \<le> 1000000" and "n < step_ticks e i"
  shows "g_step_index (patrol_run e d n s) = i \<and> unat (g_step_elapsed (patrol_run e d n s)) = n * unat e \<and>
    g_enabled (patrol_run e d n s) = g_enabled s \<and>
    i2c_log (patrol_run e d n s) =
      i2c_log (if n = 0 then s else snd (car_motor_command (Some (step_cmd (cur_step s))) s))"
  using \<open>n < step_ticks e i\<close>
proof (induction n)
  case 0
  then show ?case using i(1) by (simp add: position_def)
next
  case (Suc n)
  let ?t = "patrol_run e d n s"
  have IH: "g_step_index ?t = i" "unat (g_step_elapsed ?t) = n * unat e" "g_enabled ?t = g_enabled s"
    "i2c_log ?t = i2c_log (if n = 0 then s
       else snd (car_motor_command (Some (step_cmd (cur_step s))) s))"
    using Suc by auto
  have less: "n * unat e < route_duration i" "Suc n * unat e < route_duration i"
    using Suc.prems e(1) step_ticks_less [of e n i] step_ticks_less [of e "Suc n" i] by auto
  have adv: "advance e (position ?t) = (i, g_step_elapsed ?t + e)"
    "unat (g_step_elapsed ?t + e) = Suc n * unat e"
    using advance_within [OF i(2), of "g_step_elapsed ?t" e] less IH e(2) by (auto simp: position_def)
  have "g_step_elapsed ?t = 0 \<longleftrightarrow> n = 0" using IH(2) e(1) by (simp flip: unat_eq_0)
  then show ?case
    using adv IH assms(1) i(2) by (auto simp: tick_enabled [OF _ _ refl] command_patrol)
qed

lemma run_whole_step:
  assumes "g_enabled s \<noteq> 0" and i: "position s = (i, 0)" "unat i < 5"
    and e: "0 < unat e" "unat e \<le> 1000000"
  shows "position (patrol_run e d (step_ticks e i) s) = (next_index i, 0) \<and>
    g_enabled (patrol_run e d (step_ticks e i) s) = g_enabled s \<and>
    i2c_log (patrol_run e d (step_ticks e i) s) =
      i2c_log (snd (car_motor_command (Some (step_cmd (cur_step s))) s))"
proof -
  obtain n where n: "step_ticks e i = Suc n"
    using step_ticks_pos [OF i(2) e(1)] by (cases "step_ticks e i") auto
  let ?t = "patrol_run e d n s"
  have t: "g_step_index ?t = i" "unat (g_step_elapsed ?t) = n * unat e" "g_enabled ?t = g_enabled s"
    "i2c_log ?t = i2c_log (if n = 0 then s
       else snd (car_motor_command (Some (step_cmd (cur_step s))) s))"
    using run_within_step [OF assms, of n d] n by auto
  have "n * unat e < route_duration i" "route_duration i \<le> Suc n * unat e"
    using n e(1) step_ticks_less [of e n i] step_ticks_less [of e "Suc n" i] by auto
  then have "advance e (position ?t) = (next_index i, 0)"
    using advance_within [OF i(2), of "g_step_elapsed ?t" e] t e(2) by (simp add: position_def)
  moreover have "g_step_elapsed ?t = 0 \<longleftrightarrow> n = 0" using t(2) e(1) by (simp flip: unat_eq_0)
  ultimately show ?thesis
    using t assms(1) i(2) unfolding n
    by (auto simp: tick_enabled [OF _ _ refl] command_patrol position_def)
qed

lemma patrol_run_add: "patrol_run e d (m + n) s = patrol_run e d n (patrol_run e d m s)"
  by (induction n) simp_all

text \<open>C8: With ticks of \<open>e\<close> ms, a step of the enabled route sends its motor command exactly once, in
  the first of its ticks, stays for the smallest number of ticks that covers its duration, and
  hands over to the next step (the last one to the first) with the elapsed time back at 0.\<close>

theorem patrol_step_timing:
  assumes "g_enabled s \<noteq> 0" and "position s = (i, 0)" and "unat i < 5"
    and "0 < unat e" and "unat e \<le> 1000000" and "k = (route_duration i + unat e - 1) div unat e"
  shows "(\<forall>n < k. position (patrol_run e d n s) = (i, of_nat (n * unat e))) \<and>
    position (patrol_run e d k s) = (if i = 4 then 0 else i + 1, 0) \<and>
    (\<forall>n. 0 < n \<longrightarrow> n \<le> k \<longrightarrow> i2c_log (patrol_run e d n s) =
      i2c_log (snd (car_motor_command (Some (step_cmd (g_route ! unat i))) s)))"
proof -
  have k: "k = step_ticks e i" by (simp add: assms(6) step_ticks_def)
  have cur: "cur_step s = g_route ! unat i" using assms(2) by (simp add: cur_step_def position_def)
  note within = run_within_step [OF assms(1-5), of _ d] and whole = run_whole_step [OF assms(1-5), of d]
  have "position (patrol_run e d n s) = (i, of_nat (n * unat e))" if "n < k" for n
    using within [OF that [unfolded k]] by (metis position_def of_nat_unat ucast_id)
  moreover have "i2c_log (patrol_run e d n s) =
      i2c_log (snd (car_motor_command (Some (step_cmd (g_route ! unat i))) s))" if "0 < n" "n \<le> k" for n
    using that within [of n] whole by (cases "n = k") (auto simp: k cur)
  ultimately show ?thesis using whole by (simp add: k next_index_def)
qed

text \<open>A car with a silent, always acknowledging bus, whose patrol has just been started.\<close>

definition patrol_boot :: "motor_state \<Rightarrow> patrol_state" where
  "patrol_boot m = motor_state.extend m \<lparr>g_enabled = 0, g_step_index = 0, g_step_elapsed = 0\<rparr>"

lemma patrol_step_timing_witness:
  "let s = (patrol_boot (motor_boot quiet_bus))\<lparr>g_enabled := 1, g_step_index := 1\<rparr>
   in position (patrol_run 1000 env_data_reset 1 s) = (2, 0)"
proof -
  let ?s = "(patrol_boot (motor_boot quiet_bus))\<lparr>g_enabled := 1, g_step_index := 1\<rparr>"
  have "route_duration 1 = 600" by (simp add: route_duration_def g_route_def)
  then have "position (patrol_run 1000 env_data_reset 1 ?s) = (if (1 :: u32) = 4 then 0 else 1 + 1, 0)"
    by (intro patrol_step_timing [of ?s 1 1000 1 env_data_reset, THEN conjunct2, THEN conjunct1])
      (simp_all add: position_def patrol_boot_def patrol_state.defs motor_state.defs)
  then show ?thesis by simp
qed

section \<open>Safety of the route\<close>

lemma patrol_stop_safe: "car_safe s \<Longrightarrow> car_safe (patrol_route_stop s)"
  unfolding patrol_route_stop_def by (rule stop_safe) (erule car_safe_view; simp)

lemma patrol_position_safe: "car_safe s \<Longrightarrow> car_safe (patrol_route_init s)"
  "car_safe s \<Longrightarrow> car_safe (patrol_route_start s)"
  by (erule car_safe_view; simp add: patrol_route_init_def patrol_route_start_def)+

lemma patrol_tick_safe:
  assumes "patrol_inv s" and "car_safe s"
  shows "car_safe (snd (patrol_route_tick e d s))"
proof (cases "d = None \<or> g_enabled s = 0")
  case True
  with assms show ?thesis by (auto simp: patrol_route_tick_def split: option.splits)
next
  case False
  let ?s1 = "if g_step_elapsed s = 0
    then snd (car_motor_command (Some (step_cmd (cur_step s))) s) else s"
  have "car_safe ?s1" using command_safe [OF assms(2)] assms(2) by simp
  then have "car_safe (?s1\<lparr>g_step_index := i, g_step_elapsed := el\<rparr>)" for i el
    by (rule car_safe_view) simp_all
  with False assms(1) show ?thesis
    by (auto simp: tick_enabled [OF _ _ refl] patrol_inv_def)
qed

lemma patrol_stop_effect:
  "motor_only (s\<lparr>g_enabled := 0, g_step_index := 0, g_step_elapsed := 0\<rparr>) (patrol_route_stop s)"
  unfolding patrol_route_stop_def using stop_frame [OF surjective_pairing] by blast

lemma patrol_stop_inv: "patrol_inv (patrol_route_stop s)" "patrol_inv (patrol_route_start s)"
  "patrol_inv (patrol_route_init s)"
  using motor_only_patrol [OF patrol_stop_effect [of s]]
  by (simp_all add: patrol_route_start_def patrol_route_init_def patrol_inv_def cur_step_def g_route_def)

lemma patrol_inv_motor_only: "motor_only s s' \<Longrightarrow> patrol_inv s \<Longrightarrow> patrol_inv s'"
  using motor_only_patrol [of s s'] by (simp add: patrol_inv_def cur_step_def)

lemma patrol_stop_more: "patrol_state.more (patrol_route_stop s) = patrol_state.more s"
  "i2c_ans (patrol_route_stop s) = i2c_ans s" "g_enabled (patrol_route_stop s) = 0"
  using motor_only_patrol [OF patrol_stop_effect [of s]] patrol_stop_effect [of s]
  by (simp_all add: motor_only_def)

lemma patrol_tick_more: "patrol_state.more (snd (patrol_route_tick e d s)) = patrol_state.more s"
proof (cases "d = None \<or> g_enabled s = 0")
  case True
  then show ?thesis by (auto simp: patrol_route_tick_def split: option.splits)
next
  case False
  then show ?thesis
    by (auto simp: patrol_route_tick_def Let_def command_patrol)
qed

end
