(* ===== verification/CText.thy ===== *)
theory CText
  imports Prelude
begin

text \<open>
  The functions of the C library that the firmware applies to text: \<open>strstr\<close>, \<open>strchr\<close>, the
  prefix test \<open>strncmp (s, lit, strlen (lit)) == 0\<close>, \<open>snprintf\<close> conversions \<open>%u\<close>, \<open>%d\<close>, \<open>%X\<close> and
  the conversion \<open>sscanf (s, "%u", ...)\<close>.

  A C string is a \<open>string\<close> without its terminating NUL; \<open>cstr\<close> reads one out of a buffer that
  may hold bytes behind the NUL. A pointer into a string is the suffix it points at, a null
  pointer is \<open>None\<close>.
\<close>

section \<open>Searching\<close>

definition cstr :: "char list \<Rightarrow> string" where
  "cstr buf = takeWhile (\<lambda>c. c \<noteq> CHR 0x00) buf"

fun strstr :: "string \<Rightarrow> string \<Rightarrow> string option" where
  "strstr [] n = (if n = [] then Some [] else None)"
| "strstr (c # cs) n = (if take (length n) (c # cs) = n then Some (c # cs) else strstr cs n)"

fun strchr :: "string \<Rightarrow> char \<Rightarrow> string option" where
  "strchr [] ch = None"
| "strchr (c # cs) ch = (if c = ch then Some (c # cs) else strchr cs ch)"

definition starts_with :: "string \<Rightarrow> string \<Rightarrow> bool" where
  "starts_with s lit = (take (length lit) s = lit)"

definition contains :: "string \<Rightarrow> string \<Rightarrow> bool" where
  "contains s n = (strstr s n \<noteq> None)"

lemma take_eq_prefix: "take (length n) s = n \<longleftrightarrow> prefix n s"
  by (metis append_eq_conv_conj prefix_def take_is_prefix)

text \<open>A rule for evaluation: most positions are decided by their first character.\<close>

lemma strstr_Cons_Cons:
  "strstr (c # cs) (h # t) = (if c = h \<and> prefix t cs then Some (c # cs) else strstr cs (h # t))"
  by (simp add: take_eq_prefix)

lemma starts_with_prefix: "starts_with s lit \<longleftrightarrow> prefix lit s"
  by (simp add: starts_with_def take_eq_prefix)

lemma contains_sublist: "contains s n \<longleftrightarrow> sublist n s"
proof (induction s)
  case Nil
  then show ?case by (simp add: contains_def)
next
  case (Cons c cs)
  then show ?case by (auto simp: contains_def take_eq_prefix sublist_Cons_right)
qed

lemma strstr_suffix: "strstr s n = Some r \<Longrightarrow> suffix r s \<and> prefix n r"
  by (induction s) (auto simp: take_eq_prefix suffix_Cons split: if_splits)

lemma strstr_skip:
  assumes "n \<noteq> []" and "hd n \<notin> set ds"
  shows "strstr (ds @ s) n = strstr s n"
  using assms by (induction ds) (auto simp: neq_Nil_conv)

lemma contains_skip:
  assumes "n \<noteq> []" and "hd n \<notin> set ds"
  shows "contains (ds @ s) n = contains s n"
  using assms by (simp add: contains_def strstr_skip)

lemma contains_append_left: "contains s n \<Longrightarrow> contains (p @ s) n"
  by (simp add: contains_sublist sublist_appendI sublist_append)

section \<open>Numbers\<close>

text \<open>\<open>%u\<close> prints the decimal digits of an unsigned value, \<open>%d\<close> puts a minus sign before the
  digits of a negative one, \<open>%X\<close> prints upper-case hexadecimal digits.\<close>

definition digit_char :: "nat \<Rightarrow> char" where
  "digit_char d = ''0123456789ABCDEF'' ! d"

fun digits_base :: "nat \<Rightarrow> nat \<Rightarrow> string" where
  "digits_base b n = (if b < 2 \<or> n < b then [digit_char (n mod 16)]
     else digits_base b (n div b) @ [digit_char (n mod b)])"

declare digits_base.simps [simp del]

definition fmt_u :: "nat \<Rightarrow> string" where
  "fmt_u n = digits_base 10 n"

definition fmt_d :: "int \<Rightarrow> string" where
  "fmt_d i = (if i < 0 then CHR ''-'' # fmt_u (nat (- i)) else fmt_u (nat i))"

definition fmt_X :: "nat \<Rightarrow> string" where
  "fmt_X n = digits_base 16 n"

definition is_digit :: "char \<Rightarrow> bool" where
  "is_digit c = (48 \<le> (of_char c :: nat) \<and> (of_char c :: nat) \<le> 57)"

definition digit_val :: "char \<Rightarrow> nat" where
  "digit_val c = of_char c - 48"

definition is_space :: "char \<Rightarrow> bool" where
  "is_space c = (c = CHR '' '' \<or> 9 \<le> (of_char c :: nat) \<and> (of_char c :: nat) \<le> 13)"

definition digits_value :: "string \<Rightarrow> nat" where
  "digits_value ds = foldl (\<lambda>v c. 10 * v + digit_val c) 0 ds"

text \<open>
  \<open>sscanf (s, "%u", &v)\<close> skips white space, takes an optional sign and the longest run of
  decimal digits; it fails (returns something other than 1) when there is no digit. A minus
  sign negates the value in the unsigned type, as the C standard says of \<open>strtoul\<close>. Where the
  number does not fit in 32 bits the standard leaves the result open: it is the parameter \<open>ov\<close>,
  a function of the digits.
\<close>

definition scan_u :: "(string \<Rightarrow> u32) \<Rightarrow> string \<Rightarrow> u32 option" where
  "scan_u ov s =
     (let s1 = dropWhile is_space s;
          neg = (s1 \<noteq> [] \<and> hd s1 = CHR ''-'');
          s2 = (if s1 \<noteq> [] \<and> (hd s1 = CHR ''-'' \<or> hd s1 = CHR ''+'') then tl s1 else s1);
          ds = takeWhile is_digit s2
      in if ds = [] then None
         else if 2 ^ 32 \<le> digits_value ds then Some (ov ds)
         else if neg then Some (- of_nat (digits_value ds))
         else Some (of_nat (digits_value ds)))"

subsection \<open>Printed numbers read back\<close>

lemma digit_char_digit: "d < 10 \<Longrightarrow> is_digit (digit_char d) \<and> digit_val (digit_char d) = d"
proof -
  have "\<forall>d \<in> set [0..<10]. is_digit (digit_char d) \<and> digit_val (digit_char d) = d"
    by code_simp
  then show "d < 10 \<Longrightarrow> ?thesis" by simp
qed

lemma digits_base_small: "n < b \<Longrightarrow> 2 \<le> b \<Longrightarrow> b \<le> 16 \<Longrightarrow> digits_base b n = [digit_char n]"
  by (simp add: digits_base.simps [of b n])

lemma digits_base_step: "2 \<le> b \<Longrightarrow> b \<le> n \<Longrightarrow>
    digits_base b n = digits_base b (n div b) @ [digit_char (n mod b)]"
  by (simp add: digits_base.simps [of b n])

lemma fmt_u_digits: "\<forall>c \<in> set (fmt_u n). is_digit c"
  unfolding fmt_u_def
proof (induction "10::nat" n rule: digits_base.induct)
  case (1 n)
  then show ?case
    by (cases "n < 10")
      (auto simp: digits_base_small digits_base_step digit_char_digit)
qed

lemma digits_base_nonempty [simp]: "digits_base b n \<noteq> []"
  by (subst digits_base.simps) simp

lemma fmt_u_nonempty [simp]: "fmt_u n \<noteq> []"
  by (simp add: fmt_u_def)

lemma digits_value_snoc: "digits_value (ds @ [c]) = 10 * digits_value ds + digit_val c"
  by (simp add: digits_value_def)

lemma digits_value_fmt_u [simp]: "digits_value (fmt_u n) = n"
  unfolding fmt_u_def
proof (induction "10::nat" n rule: digits_base.induct)
  case (1 n)
  show ?case
  proof (cases "n < 10")
    case True
    then show ?thesis
      by (simp add: digits_base_small digit_char_digit digits_value_def)
  next
    case False
    with 1 have "digits_value (digits_base 10 (n div 10)) = n div 10" by simp
    with False show ?thesis
      by (simp add: digits_base_step digits_value_snoc digit_char_digit)
  qed
qed

lemma length_digits_base: "2 \<le> b \<Longrightarrow> b \<le> 16 \<Longrightarrow> n < b ^ k \<Longrightarrow> 0 < k \<Longrightarrow> length (digits_base b n) \<le> k"
proof (induction k arbitrary: n)
  case 0
  then show ?case by simp
next
  case (Suc k)
  show ?case
  proof (cases "n < b")
    case True
    with Suc.prems show ?thesis by (simp add: digits_base_small)
  next
    case False
    then have "k \<noteq> 0" using Suc.prems by (cases k) auto
    moreover have "n div b < b ^ k"
      using Suc.prems by (simp add: less_mult_imp_div_less mult.commute)
    ultimately have "length (digits_base b (n div b)) \<le> k"
      using Suc by simp
    with False Suc.prems show ?thesis by (simp add: digits_base_step)
  qed
qed

lemma length_fmt_u: "n < 10 ^ k \<Longrightarrow> 0 < k \<Longrightarrow> length (fmt_u n) \<le> k"
  by (simp add: fmt_u_def length_digits_base)

lemma is_digit_plain: "is_digit c \<Longrightarrow> \<not> is_space c \<and> c \<noteq> CHR ''-'' \<and> c \<noteq> CHR ''+''"
  by (auto simp: is_digit_def is_space_def)

lemma scan_u_digits:
  assumes ds: "ds \<noteq> []" "\<forall>c \<in> set ds. is_digit c"
    and rest: "rest = [] \<or> \<not> is_digit (hd rest)"
  shows "scan_u ov (ds @ rest) = (if 2 ^ 32 \<le> digits_value ds then Some (ov ds)
     else Some (of_nat (digits_value ds)))"
proof -
  obtain d ds' where d: "ds = d # ds'" "is_digit d" using ds by (cases ds) auto
  have "takeWhile is_digit rest = []" using rest by (cases rest) auto
  then have tw: "takeWhile is_digit (ds @ rest) = ds"
    using ds(2) by (simp add: takeWhile_all)
  have dw: "dropWhile is_space (ds @ rest) = ds @ rest"
    using d by (simp add: is_digit_plain)
  have hd: "hd (ds @ rest) \<noteq> CHR ''-''" "hd (ds @ rest) \<noteq> CHR ''+''"
    using d by (auto simp: is_digit_plain)
  show ?thesis
    unfolding scan_u_def Let_def dw using ds(1) hd tw by simp
qed

lemma scan_u_fmt_u:
  assumes "n < 2 ^ 32" and "rest = [] \<or> \<not> is_digit (hd rest)"
  shows "scan_u ov (fmt_u n @ rest) = Some (of_nat n)"
  using assms by (simp add: scan_u_digits fmt_u_digits)

interpretation decimal: codec "\<lambda>w :: u32. fmt_u (unat w)" "scan_u (\<lambda>_. 0)" "\<lambda>_. True"
proof
  fix w :: u32
  have "unat w < 2 ^ 32" using unat_u32_less [of w] by simp
  then have "scan_u (\<lambda>_. 0) (fmt_u (unat w) @ []) = Some (of_nat (unat w))"
    by (intro scan_u_fmt_u) auto
  then show "scan_u (\<lambda>_. 0) (fmt_u (unat w)) = Some w" by simp
qed

subsection \<open>Searching behind printed numbers\<close>

lemma strstr_skip_fmt_u:
  "n \<noteq> [] \<Longrightarrow> \<not> is_digit (hd n) \<Longrightarrow> strstr (fmt_u k @ s) n = strstr s n"
  using fmt_u_digits by (intro strstr_skip) auto

lemma strchr_hd [simp]: "strchr (c # cs) c = Some (c # cs)"
  by simp

subsection \<open>The first occurrence\<close>

lemma strstr_here: "strstr (n @ r) n = Some (n @ r)"
  by (cases "n @ r") (auto simp: take_eq_prefix simp flip: append_Cons dest: arg_cong [of _ _ "prefix n"])

lemma strstr_first:
  assumes "\<And>i. i < length h \<Longrightarrow> \<not> prefix n (drop i (h @ n @ r))"
  shows "strstr (h @ n @ r) n = Some (n @ r)"
  using assms
proof (induction h)
  case Nil
  then show ?case by (simp add: strstr_here)
next
  case (Cons c h)
  have "\<not> prefix n (c # h @ n @ r)" using Cons.prems [of 0] by simp
  moreover have "strstr (h @ n @ r) n = Some (n @ r)"
    using Cons.prems [of "Suc _"] by (intro Cons.IH) simp
  ultimately show ?case by (simp add: take_eq_prefix)
qed

lemma cstr_append: "CHR 0x00 \<notin> set s \<Longrightarrow> cstr (s @ CHR 0x00 # r) = s"
  by (subst cstr_def, subst takeWhile_append2) auto

lemma not_in_fmt_u: "\<not> is_digit c \<Longrightarrow> c \<notin> set (fmt_u n)"
  using fmt_u_digits by auto

lemma not_in_fmt_d: "\<not> is_digit c \<Longrightarrow> c \<noteq> CHR ''-'' \<Longrightarrow> c \<notin> set (fmt_d i)"
  by (simp add: fmt_d_def not_in_fmt_u)

lemma length_takeWhile_less_ex: "x \<in> set xs \<Longrightarrow> \<not> P x \<Longrightarrow> length (takeWhile P xs) < length xs"
  by (induction xs) auto

lemma length_fmt_d: "- (10 ^ k) < i \<Longrightarrow> i < 10 ^ k \<Longrightarrow> 0 < k \<Longrightarrow> length (fmt_d i) \<le> Suc k"
proof -
  assume i: "- (10 ^ k) < i" "i < 10 ^ k" and k: "0 < k"
  have "nat (abs i) < 10 ^ k" using i by (simp add: nat_less_iff)
  then have "length (fmt_u (nat (abs i))) \<le> k" using k by (rule length_fmt_u)
  then show ?thesis by (auto simp: fmt_d_def abs_if split: if_splits)
qed

declare strstr.simps(2) [simp del] strstr_Cons_Cons [simp]

end
