(* ===== verification/ControlCommand.thy ===== *)
theory ControlCommand
  imports CText CarMotor
begin

text \<open>
  The parser of the remote-control commands (comm/control_command.c). It looks for the fields of
  a small JSON object with \<open>strstr\<close>, \<open>strchr\<close> and \<open>sscanf\<close>; the lemmas show that it reads back
  every command the documented clients send, and what it does with any other text.

  The argument \<open>ov\<close> is the value \<open>sscanf\<close> stores for a number that does not fit in 32 bits, which
  the C standard leaves open (see CText).
\<close>

section \<open>comm/control_command.c\<close>

abbreviation (input) CONTROL_DEFAULT_SPEED :: u32 where "CONTROL_DEFAULT_SPEED \<equiv> 35"
abbreviation (input) CONTROL_DEFAULT_DURATION_MS :: u32 where "CONTROL_DEFAULT_DURATION_MS \<equiv> 600"
abbreviation (input) CONTROL_MAX_DURATION_MS :: u32 where "CONTROL_MAX_DURATION_MS \<equiv> 3000"

text \<open>A failure (-1) is \<open>None\<close>; the local whose address the callers pass is the result.\<close>

definition parse_uint_field :: "(string \<Rightarrow> u32) \<Rightarrow> string \<Rightarrow> string \<Rightarrow> u32 option" where
  "parse_uint_field ov payload field =
     (case strstr payload field of None \<Rightarrow> None
      | Some pos \<Rightarrow> (case strchr pos CHR '':'' of None \<Rightarrow> None
        | Some colon \<Rightarrow> scan_u ov (tl colon)))"

definition parse_motion :: "string \<Rightarrow> car_motion_t" where
  "parse_motion payload =
     (if contains payload ''\"forward\"'' \<or> contains payload ''forward'' then CAR_MOTION_FORWARD
      else if contains payload ''\"backward\"'' \<or> contains payload ''backward'' then CAR_MOTION_BACKWARD
      else if contains payload ''\"left\"'' \<or> contains payload ''left'' then CAR_MOTION_LEFT
      else if contains payload ''\"right\"'' \<or> contains payload ''right'' then CAR_MOTION_RIGHT
      else CAR_MOTION_STOP)"

text \<open>A null payload or command pointer is the result \<open>None\<close> (-1).\<close>

definition control_command_parse ::
    "(string \<Rightarrow> u32) \<Rightarrow> string option \<Rightarrow> bool \<Rightarrow> car_motor_cmd_t option" where
  "control_command_parse ov payload cmd_ok =
     (case payload of None \<Rightarrow> None
      | Some p \<Rightarrow>
        if \<not> cmd_ok then None
        else
          let mot = parse_motion p;
              speed = (case parse_uint_field ov p ''\"speed\"'' of Some v \<Rightarrow> v
                | None \<Rightarrow> if mot = CAR_MOTION_STOP then 0 else CONTROL_DEFAULT_SPEED);
              dur = (case parse_uint_field ov p ''\"duration_ms\"'' of Some v \<Rightarrow> v
                | None \<Rightarrow> if mot = CAR_MOTION_STOP then 0 else CONTROL_DEFAULT_DURATION_MS);
              speed1 = (if 100 < speed then 100 else speed);
              dur1 = (if CONTROL_MAX_DURATION_MS < dur then CONTROL_MAX_DURATION_MS else dur)
          in Some \<lparr>cmd_motion = mot, speed_percent = ucast speed1, duration_ms = ucast dur1\<rparr>)"

definition control_command_apply ::
    "(string \<Rightarrow> u32) \<Rightarrow> string option \<Rightarrow> 'a motor_state_scheme \<Rightarrow> int \<times> 'a motor_state_scheme" where
  "control_command_apply ov payload s =
     (case control_command_parse ov payload True of
        None \<Rightarrow> (- 1, s)
      | Some cmd \<Rightarrow> car_motor_manual_command (Some cmd) s)"

section \<open>Every parsed command is within the limits\<close>

lemma clamped_u8: "unat (ucast (if 100 < w then 100 else w :: u32) :: u8) = min 100 (unat w)"
  by (auto simp: word_less_nat_alt unsigned_ucast_eq unsigned_take_bit_eq take_bit_nat_eq_self_iff)

lemma clamped_u16: "unat (ucast (if 3000 < w then 3000 else w :: u32) :: u16) = min 3000 (unat w)"
  by (auto simp: word_less_nat_alt unsigned_ucast_eq unsigned_take_bit_eq take_bit_nat_eq_self_iff)

text \<open>The fields of the command a text stands for, before they are cut to their limits.\<close>

definition field_or :: "(string \<Rightarrow> u32) \<Rightarrow> string \<Rightarrow> string \<Rightarrow> nat \<Rightarrow> nat" where
  "field_or ov p field def = (case parse_uint_field ov p field of Some v \<Rightarrow> unat v | None \<Rightarrow> def)"

lemma parse_fields:
  assumes "control_command_parse ov (Some p) True = Some c"
  shows "cmd_motion c = parse_motion p"
    "unat (speed_percent c) = min 100 (field_or ov p ''\"speed\"''
       (if parse_motion p = CAR_MOTION_STOP then 0 else 35))"
    "unat (duration_ms c) = min 3000 (field_or ov p ''\"duration_ms\"''
       (if parse_motion p = CAR_MOTION_STOP then 0 else 600))"
  using assms
  by (auto simp: control_command_parse_def Let_def clamped_u8 clamped_u16 field_or_def
    split: option.splits)

lemma parse_total: "control_command_parse ov (Some p) True \<noteq> None"
  by (simp add: control_command_parse_def Let_def)

lemma parse_speed_ok:
  "control_command_parse ov p ok = Some c \<Longrightarrow> speed_percent c \<le> 100 \<and> duration_ms c \<le> 3000"
  by (cases p; cases ok)
    (auto simp: parse_fields word_le_nat_alt control_command_parse_def dest: parse_fields)

section \<open>The documented message\<close>

text \<open>The JSON object of CONTROL.md, as the web page and the phone application build it.\<close>

fun motion_word :: "car_motion_t \<Rightarrow> string" where
  "motion_word CAR_MOTION_STOP = ''stop''"
| "motion_word CAR_MOTION_FORWARD = ''forward''"
| "motion_word CAR_MOTION_BACKWARD = ''backward''"
| "motion_word CAR_MOTION_LEFT = ''left''"
| "motion_word CAR_MOTION_RIGHT = ''right''"

definition control_json :: "car_motion_t \<Rightarrow> nat \<Rightarrow> nat \<Rightarrow> string" where
  "control_json m speed dur = ''{\"cmd\":\"'' @ motion_word m @ ''\",\"speed\":'' @ fmt_u speed
     @ '',\"duration_ms\":'' @ fmt_u dur @ ''}''"

lemma parse_motion_json: "parse_motion (control_json m speed dur) = m"
  by (cases m) (simp_all add: parse_motion_def control_json_def contains_def strstr_skip_fmt_u is_digit_def)

lemma field_speed_json: "parse_uint_field ov (control_json m speed dur) ''\"speed\"'' =
    scan_u ov (fmt_u speed @ '',\"duration_ms\":'' @ fmt_u dur @ ''}'')"
  by (cases m) (simp_all add: parse_uint_field_def control_json_def)

lemma field_duration_json: "parse_uint_field ov (control_json m speed dur) ''\"duration_ms\"'' =
    scan_u ov (fmt_u dur @ ''}'')"
  by (cases m) (simp_all add: parse_uint_field_def control_json_def strstr_skip_fmt_u is_digit_def)

lemma control_json_roundtrip_eq:
  assumes "speed < 2 ^ 32" and "dur < 2 ^ 32"
  shows "control_command_parse ov (Some (control_json m speed dur)) True =
    Some \<lparr>cmd_motion = m, speed_percent = of_nat (min 100 speed), duration_ms = of_nat (min 3000 dur)\<rparr>"
proof -
  obtain c where c: "control_command_parse ov (Some (control_json m speed dur)) True = Some c"
    using parse_total by fastforce
  have "scan_u ov (fmt_u speed @ '',\"duration_ms\":'' @ fmt_u dur @ ''}'') = Some (of_nat speed)"
    "scan_u ov (fmt_u dur @ ''}'') = Some (of_nat dur)"
    by (intro scan_u_fmt_u assms; simp add: is_digit_def)+
  then have "unat (speed_percent c) = min 100 speed" "unat (duration_ms c) = min 3000 dur"
    using parse_fields(2,3) [OF c] assms
    by (simp_all add: field_or_def field_speed_json field_duration_json unat_of_nat)
  then have "speed_percent c = of_nat (min 100 speed)" "duration_ms c = of_nat (min 3000 dur)"
    by (metis of_nat_unat ucast_id)+
  with parse_fields(1) [OF c] show ?thesis
    by (simp add: c parse_motion_json)
qed

text \<open>C9: The documented JSON object of every motion is read back: the motion is the one that was
  written, and the two numbers are the written ones cut to 100 percent and 3000 ms.\<close>

theorem control_json_roundtrip:
  assumes "speed < 2 ^ 32" and "dur < 2 ^ 32"
  shows "control_command_parse ov (Some (control_json m speed dur)) True =
    Some \<lparr>cmd_motion = m, speed_percent = of_nat (min 100 speed), duration_ms = of_nat (min 3000 dur)\<rparr>"
  using assms by (rule control_json_roundtrip_eq)

lemma control_json_roundtrip_witness:
  "control_command_parse (\<lambda>_. 0) (Some (control_json CAR_MOTION_LEFT 250 600)) True =
    Some \<lparr>cmd_motion = CAR_MOTION_LEFT, speed_percent = 100, duration_ms = 600\<rparr>"
  using control_json_roundtrip [of 250 600 "\<lambda>_. 0" CAR_MOTION_LEFT] by simp

section \<open>Texts outside the protocol\<close>

lemma quoted_contains:
  assumes "contains p (CHR 0x22 # w @ [CHR 0x22])"
  shows "contains p w"
  using assms unfolding contains_sublist
  by (metis append_Cons append_Nil sublist_appendI sublist_order.order_trans)

lemma parse_motion_words:
  "parse_motion p =
     (if contains p ''forward'' then CAR_MOTION_FORWARD
      else if contains p ''backward'' then CAR_MOTION_BACKWARD
      else if contains p ''left'' then CAR_MOTION_LEFT
      else if contains p ''right'' then CAR_MOTION_RIGHT else CAR_MOTION_STOP)"
  using quoted_contains [of p "''forward''"] quoted_contains [of p "''backward''"]
    quoted_contains [of p "''left''"] quoted_contains [of p "''right''"]
  by (auto simp: parse_motion_def)

text \<open>A text that names none of the four motions is a stop, whatever else it says: once the
  bridge acknowledges it, both wheels are at rest, the motion is STOP and the watchdog is off.\<close>

theorem control_unknown_stops:
  assumes "\<forall>w \<in> {''forward'', ''backward'', ''left'', ''right''}. \<not> sublist w p"
    and "control_command_apply ov (Some p) s = (0, s')"
  shows "g_current_motion s' = CAR_MOTION_STOP \<and> g_manual_watchdog_active s' = 0 \<and>
    (\<forall>r \<in> bridge_regs (g_motor_addr s') (i2c_log s'). wheels_stopped r)"
proof -
  obtain c where c: "control_command_parse ov (Some p) True = Some c"
    using parse_total by fastforce
  have "parse_motion p = CAR_MOTION_STOP"
    using assms(1) by (simp add: parse_motion_words contains_sublist)
  with parse_fields(1) [OF c] have stop: "cmd_motion c = CAR_MOTION_STOP" by simp
  have "car_motor_manual_command (Some c) s = (0, s')"
    using assms(2) c by (simp add: control_command_apply_def)
  then obtain s1 where s1: "car_motor_command (Some c) s = (0, s1)"
    "s' = s1\<lparr>g_manual_watchdog_active := 0, g_manual_watchdog_remaining_ms := 0\<rparr>"
    using stop by (auto elim: manual_command_cases)
  have "wheel_plan c = (0, 1, 1)" using stop by (simp add: wheel_plan_def Let_def)
  then show ?thesis
    using command_acked_regs [OF s1(1)] car_motor_command_frame(6) [OF s1(1)] s1(2) stop
    by (simp add: wheels_stopped_def)
qed

lemma control_unknown_stops_witness:
  "let s = (motor_boot quiet_bus)\<lparr>g_motor_available := 1\<rparr>
   in g_current_motion (snd (control_command_apply (\<lambda>_. 0) (Some ''halt'') s)) = CAR_MOTION_STOP"
proof -
  let ?s = "(motor_boot quiet_bus)\<lparr>g_motor_available := 1\<rparr>"
  have "contains ''halt'' ''forward'' = False" "contains ''halt'' ''backward'' = False"
    "contains ''halt'' ''left'' = False" "contains ''halt'' ''right'' = False"
    by (simp_all add: contains_def)
  then have "\<forall>w \<in> {''forward'', ''backward'', ''left'', ''right''}. \<not> sublist w ''halt''"
    by (simp add: contains_sublist)
  moreover have "fst (control_command_apply (\<lambda>_. 0) (Some ''halt'') ?s) = 0"
    by code_simp
  ultimately show ?thesis
    using control_unknown_stops [of "''halt''" "\<lambda>_. 0" ?s] by (metis prod.collapse)
qed

text \<open>
  A negative speed is not refused: \<open>%u\<close> reads it modulo \<open>2 ^ 32\<close>, and the clamp makes it full speed.
\<close>

lemma negative_speed_is_full_speed:
  "control_command_parse ov (Some ''{\"cmd\":\"forward\",\"speed\":-5}'') True =
    Some \<lparr>cmd_motion = CAR_MOTION_FORWARD, speed_percent = 100, duration_ms = 600\<rparr>"
  by (simp add: control_command_parse_def parse_motion_def contains_def parse_uint_field_def
    scan_u_def is_space_def is_digit_def digits_value_def digit_val_def Let_def word_less_nat_alt)

section \<open>What a control command leaves alone\<close>

lemma control_apply_frame:
  "control_command_apply ov p s = (ret, s') \<Longrightarrow> motor_only s s'"
  by (auto simp: control_command_apply_def split: option.splits dest: manual_command_frame(1))

lemma control_apply_safe: "car_safe s \<Longrightarrow> car_safe (snd (control_command_apply ov p s))"
  by (auto simp: control_command_apply_def split: option.splits dest: manual_command_safe)

end
