(* ===== verification/WifiAp.thy ===== *)
theory WifiAp
  imports PatrolRoute ControlCommand
begin

text \<open>
  The Wi-Fi side of the car (comm/wifi_ap.c): the SoftAP start-up task, the HTTP server with its
  request handler, and the mailbox that holds the last telemetry object.

  The network stack (SoftAP control, netif, DHCP, sockets) is outside the model. Its answers are
  \<open>wifi_ans\<close>, the result of the n-th call since boot, of which nothing is assumed; \<open>wifi_log\<close> records
  the calls that have an effect, oldest first. A request handler runs as one step.
\<close>

section \<open>State and environment\<close>

datatype car_wifi_state_t =
    CAR_WIFI_STATE_IDLE
  | CAR_WIFI_STATE_STARTING
  | CAR_WIFI_STATE_READY
  | CAR_WIFI_STATE_ERROR

datatype wifi_security_enum = WIFI_SEC_TYPE_WPA2_WPA_PSK_MIX

record softap_config_stru =
  ssid :: string
  pre_shared_key :: string
  security_type :: wifi_security_enum
  channel_num :: nat
  wifi_psk_type :: nat

record softap_config_advance_stru =
  beacon_interval :: nat
  dtim_period :: nat
  gi :: nat
  group_rekey :: nat
  protocol_mode :: nat
  hidden_ssid_flag :: nat

datatype wifi_event =
    WifiWait nat
  | SoftapAdvance softap_config_advance_stru int
  | SoftapEnable softap_config_stru int
  | SoftapDisable int
  | NetifSetAddr "nat list" "nat list" "nat list" int
  | DhcpsStart int
  | HttpTask
  | HttpListen nat
  | HttpClose
  | HttpSend string

record wifi_state = patrol_state +
  g_wifi_state :: car_wifi_state_t
  g_last_json :: "char list"
  wifi_ans :: "nat \<Rightarrow> int"
  wifi_n :: nat
  wifi_log :: "wifi_event list"

definition wifi_answer :: "'a wifi_state_scheme \<Rightarrow> int" where
  "wifi_answer s = wifi_ans s (wifi_n s)"

definition wifi_count :: "'a wifi_state_scheme \<Rightarrow> 'a wifi_state_scheme" where
  "wifi_count s = s\<lparr>wifi_n := Suc (wifi_n s)\<rparr>"

definition wifi_note :: "wifi_event \<Rightarrow> 'a wifi_state_scheme \<Rightarrow> 'a wifi_state_scheme" where
  "wifi_note ev s = s\<lparr>wifi_log := wifi_log s @ [ev]\<rparr>"

text \<open>A call of the network stack: its answer, and the event it leaves.\<close>

definition wifi_call :: "(int \<Rightarrow> wifi_event) \<Rightarrow> 'a wifi_state_scheme \<Rightarrow> int \<times> 'a wifi_state_scheme" where
  "wifi_call ev s = (let ret = wifi_answer s in (ret, wifi_note (ev ret) (wifi_count s)))"

definition wifi_query :: "'a wifi_state_scheme \<Rightarrow> int \<times> 'a wifi_state_scheme" where
  "wifi_query s = (wifi_answer s, wifi_count s)"

section \<open>The telemetry mailbox\<close>

abbreviation (input) CAR_WIFI_AP_JSON_MAX_LEN :: nat where "CAR_WIFI_AP_JSON_MAX_LEN \<equiv> 192"

text \<open>
  \<open>strnlen (json, 191) + 1\<close> bytes of the string and its terminator go into the 192-byte buffer; the
  bounds-checked \<open>memcpy_s\<close> reports an error when the count exceeds the buffer.
\<close>

definition memcpy_s :: "char list \<Rightarrow> char list \<Rightarrow> nat \<Rightarrow> int \<times> char list" where
  "memcpy_s buf src count = (if length buf < count then (162, replicate (length buf) CHR 0x00)
     else (0, take count src @ drop count buf))"

definition car_wifi_ap_publish_json ::
    "string option \<Rightarrow> 'a wifi_state_scheme \<Rightarrow> int \<times> 'a wifi_state_scheme" where
  "car_wifi_ap_publish_json json s =
     (case json of None \<Rightarrow> (- 1, s)
      | Some j \<Rightarrow>
        let (ret, buf) = memcpy_s (g_last_json s) (j @ [CHR 0x00])
              (min (length j) (CAR_WIFI_AP_JSON_MAX_LEN - 1) + 1);
            s1 = s\<lparr>g_last_json := buf\<rparr>
        in if ret \<noteq> 0 then (- 1, s1\<lparr>g_last_json := CHR 0x00 # tl buf\<rparr>) else (0, s1))"

definition car_wifi_ap_get_last_json :: "'a wifi_state_scheme \<Rightarrow> string" where
  "car_wifi_ap_get_last_json s = cstr (g_last_json s)"

definition car_wifi_ap_get_state :: "'a wifi_state_scheme \<Rightarrow> car_wifi_state_t" where
  "car_wifi_ap_get_state s = g_wifi_state s"

section \<open>HTTP responses\<close>

abbreviation (input) CAR_WIFI_AP_HTTP_BUF_LEN :: nat where "CAR_WIFI_AP_HTTP_BUF_LEN \<equiv> 512"

definition crlf :: string where
  "crlf = [CHR 0x0D, CHR 0x0A]"

definition http_text :: "int \<Rightarrow> string \<Rightarrow> string \<Rightarrow> string \<Rightarrow> string" where
  "http_text code status ctype body =
     ''HTTP/1.1 '' @ fmt_d code @ '' '' @ status @ crlf @
     ''Content-Type: '' @ ctype @ crlf @
     ''Content-Length: '' @ fmt_u (length body mod 2 ^ 32) @ crlf @
     ''Connection: close'' @ crlf @ crlf @ body"

definition car_wifi_http_send :: "string \<Rightarrow> 'a wifi_state_scheme \<Rightarrow> int \<times> 'a wifi_state_scheme" where
  "car_wifi_http_send response s =
     (let (sent, s1) = wifi_call (\<lambda>_. HttpSend response) s
      in (if sent = int (length response) then 0 else - 1, s1))"

text \<open>\<open>snprintf\<close> returns the length of the whole text; a text that does not fit is not sent.\<close>

definition car_wifi_http_respond_status ::
    "int \<Rightarrow> string \<Rightarrow> string option \<Rightarrow> string option \<Rightarrow> 'a wifi_state_scheme \<Rightarrow> 'a wifi_state_scheme" where
  "car_wifi_http_respond_status code status body content_type s =
     (let b = (case body of None \<Rightarrow> '''' | Some b \<Rightarrow> b);
          ct = (case content_type of None \<Rightarrow> ''text/plain'' | Some ct \<Rightarrow> ct);
          response = http_text code status ct b
      in if 0 < length response \<and> length response < CAR_WIFI_AP_HTTP_BUF_LEN + 128
         then snd (car_wifi_http_send response s) else s)"

definition car_wifi_request_has_token :: "string option \<Rightarrow> string option \<Rightarrow> bool" where
  "car_wifi_request_has_token payload token =
     (case (payload, token) of (Some p, Some t) \<Rightarrow> contains p t | _ \<Rightarrow> False)"

section \<open>The request handler\<close>

definition g_root_html :: string where \<open>g_root_html =
     ''<!doctype html><html><head><meta charset="utf-8">'' @
     ''<meta name="viewport" content="width=device-width,initial-scale=1">'' @
     ''<title>WS63E Env Car</title>'' @
     ''<style>'' @
     ''body{font-family:Arial,sans-serif;margin:16px;background:#f3f5f7;color:#1f2937;}'' @
     ''h1{font-size:20px;margin:0 0 12px;} .grid{display:grid;grid-template-columns:repeat(2,minmax(0,1fr));gap:8px;max-width:360px;}'' @
     ''.card{background:#fff;padding:10px 12px;border:1px solid #d0d7de;border-radius:6px;}'' @
     ''.label{font-size:12px;color:#6b7280;} .value{font-size:18px;font-weight:700;margin-top:4px;}'' @
     ''.motion{margin:12px 0;font-size:14px;} .controls{display:grid;grid-template-columns:repeat(3,88px);gap:8px;align-items:center;}'' @
     ''button{height:40px;border:1px solid #2563eb;background:#2563eb;color:#fff;border-radius:6px;font-size:14px;}'' @
     ''button.secondary{background:#fff;color:#2563eb;} pre{background:#111827;color:#e5e7eb;padding:10px;border-radius:6px;overflow:auto;max-width:360px;}'' @
     ''</style></head><body><h1>WS63E Env Car</h1>'' @
     ''<div class="grid"><div class="card"><div class="label">Temperature</div><div class="value" id="temp">--.- C</div></div>'' @
     ''<div class="card"><div class="label">Humidity</div><div class="value" id="humi">--.- %</div></div>'' @
     ''<div class="card"><div class="label">Light</div><div class="value" id="light">----.- lx</div></div>'' @
     ''<div class="card"><div class="label">Sequence</div><div class="value" id="seq">0</div></div>'' @
     ''<div class="card"><div class="label">Analysis</div><div class="value" id="alert">NORMAL</div></div></div>'' @
     ''<div class="motion">Motion: <strong id="motion">STOP</strong></div>'' @
     ''<div class="controls">'' @
     ''<span></span><button onclick="sendCommand('forward')">Forward</button><span></span>'' @
     ''<button onclick="sendCommand('left')">Left</button><button class="secondary" onclick="sendCommand('stop')">Stop</button><button onclick="sendCommand('right')">Right</button>'' @
     ''<span></span><button onclick="sendCommand('backward')">Backward</button><span></span>'' @
     ''</div><div class="controls" style="margin-top:8px;grid-template-columns:repeat(2,136px);">'' @
     ''<button onclick="sendCommand('auto_start')">Auto Start</button><button class="secondary" onclick="sendCommand('auto_stop')">Auto Stop</button>'' @
     ''</div><p id="status">Waiting for telemetry...</p><pre id="raw">{}</pre>'' @
     ''<script>'' @
     ''function motionLabel(v){return ['STOP','FORWARD','BACKWARD','LEFT','RIGHT'][v]||'UNKNOWN';}'' @
     ''function render(data){document.getElementById('seq').textContent=data.seq??0;'' @
     ''document.getElementById('temp').textContent=((data.temp_x10??0)/10).toFixed(1)+' C';'' @
     ''document.getElementById('humi').textContent=((data.humi_x10??0)/10).toFixed(1)+' %';'' @
     ''document.getElementById('light').textContent=((data.light_x10??0)/10).toFixed(1)+' lx';'' @
     ''document.getElementById('motion').textContent=motionLabel(data.motion);'' @
     ''var alerts=[]; if(data.temp_alert){alerts.push('TEMP');} if(data.humi_alert){alerts.push('HUMI');} if(data.light_alert){alerts.push('LIGHT');}'' @
     ''document.getElementById('alert').textContent=alerts.length?alerts.join('+'):'NORMAL';'' @
     ''document.getElementById('raw').textContent=JSON.stringify(data,null,2);'' @
     ''document.getElementById('status').textContent='Telemetry updated patrol='+(data.patrol?'ON':'OFF')+' alert='+(alerts.length?alerts.join('+'):'NORMAL');}'' @
     ''function pollTelemetry(){fetch('/api/data').then(function(r){return r.json();}).then(render)'' @
     ''.catch(function(){document.getElementById('status').textContent='Telemetry request failed';});}'' @
     ''function sendCommand(cmd){fetch('/api/control',{method:'POST',headers:{'Content-Type':'application/json'},'' @
     ''body:JSON.stringify({cmd:cmd,speed:35,duration_ms:600})}).then(function(r){return r.text();})'' @
     ''.then(function(text){document.getElementById('status').textContent='Command sent: '+cmd+' '+text; pollTelemetry();})'' @
     ''.catch(function(){document.getElementById('status').textContent='Command failed: '+cmd;});}'' @
     ''pollTelemetry();setInterval(pollTelemetry,1000);'' @
     ''</script></body></html>''\<close>

abbreviation (input) json_type :: "string option" where "json_type \<equiv> Some ''application/json''"

definition respond_json :: "int \<Rightarrow> string \<Rightarrow> string \<Rightarrow> 'a wifi_state_scheme \<Rightarrow> 'a wifi_state_scheme" where
  "respond_json code status body s = car_wifi_http_respond_status code status (Some body) json_type s"

text \<open>The branch of \<open>car_wifi_http_handle_request\<close> for \<open>POST /api/control\<close>.\<close>

definition http_control ::
    "(string \<Rightarrow> u32) \<Rightarrow> string \<Rightarrow> 'a wifi_state_scheme \<Rightarrow> 'a wifi_state_scheme" where
  "http_control ov request s =
     (case strstr request (crlf @ crlf) of
        None \<Rightarrow> respond_json 400 ''Bad Request'' ''{\"err\":\"missing body\"}'' s
      | Some hit \<Rightarrow>
        let body = drop 4 hit
        in if car_wifi_request_has_token (Some body) (Some ''\"auto_start\"'') then
             respond_json 200 ''OK'' ''{\"ok\":true,\"patrol\":1}'' (patrol_route_start s)
           else if car_wifi_request_has_token (Some body) (Some ''\"auto_stop\"'') then
             respond_json 200 ''OK'' ''{\"ok\":true,\"patrol\":0}'' (patrol_route_stop s)
           else
             let (ret, s1) = control_command_apply ov (Some body) (patrol_route_stop s)
             in if ret \<noteq> 0 then respond_json 400 ''Bad Request'' ''{\"err\":\"control failed\"}'' s1
                else respond_json 200 ''OK'' ''{\"ok\":true}'' s1)"

definition car_wifi_http_handle_request ::
    "(string \<Rightarrow> u32) \<Rightarrow> string option \<Rightarrow> 'a wifi_state_scheme \<Rightarrow> 'a wifi_state_scheme" where
  "car_wifi_http_handle_request ov request s =
     (case request of
        None \<Rightarrow> car_wifi_http_respond_status 400 ''Bad Request''
          (Some (''bad request'' @ [CHR 0x0A])) (Some ''text/plain'') s
      | Some r \<Rightarrow>
        if starts_with r ''GET /api/data'' then
          let json = car_wifi_ap_get_last_json s
          in respond_json 200 ''OK'' (if json = '''' then ''{\"err\":\"no telemetry\"}'' else json) s
        else if starts_with r ''GET / '' \<or> starts_with r ''GET /HTTP'' then
          car_wifi_http_respond_status 200 ''OK'' (Some g_root_html) (Some ''text/html'') s
        else if starts_with r ''POST /api/control'' then http_control ov r s
        else respond_json 404 ''Not Found'' ''{\"err\":\"not found\"}'' s)"

section \<open>The HTTP server task\<close>

text \<open>
  The part before the accept loop: \<open>True\<close> when the loop is entered. Then one turn of the loop, for
  the answer of \<open>accept\<close> and the bytes \<open>recv\<close> delivers (\<open>None\<close> when it returns 0 or an error);
  at most 511 bytes are read, into a zeroed buffer.
\<close>

definition car_wifi_http_server_task :: "'a wifi_state_scheme \<Rightarrow> bool \<times> 'a wifi_state_scheme" where
  "car_wifi_http_server_task s =
     (let (sock_fd, s1) = wifi_query s
      in if sock_fd < 0 then (False, s1) else
      let (b, s2) = wifi_query s1
      in if b \<noteq> 0 then (False, wifi_note HttpClose s2) else
      let (l, s3) = wifi_query s2
      in if l \<noteq> 0 then (False, wifi_note HttpClose s3)
         else (True, wifi_note (HttpListen 8080) s3))"

definition http_server_turn ::
    "(string \<Rightarrow> u32) \<Rightarrow> int \<Rightarrow> char list option \<Rightarrow> 'a wifi_state_scheme \<Rightarrow> 'a wifi_state_scheme" where
  "http_server_turn ov client_fd received s =
     (if client_fd < 0 then wifi_note (WifiWait 20) s
      else wifi_note HttpClose
        (case received of None \<Rightarrow> s
         | Some bytes \<Rightarrow> if bytes = [] then s
             else car_wifi_http_handle_request ov
               (Some (cstr (take (CAR_WIFI_AP_HTTP_BUF_LEN - 1) bytes))) s))"

text \<open>\<open>osThreadNew\<close> fails with a null pointer, an answer of 0.\<close>

definition car_wifi_http_server_start :: "'a wifi_state_scheme \<Rightarrow> 'a wifi_state_scheme" where
  "car_wifi_http_server_start s =
     (let (th, s1) = wifi_query s in if th = 0 then s1 else wifi_note HttpTask s1)"

section \<open>The SoftAP task\<close>

definition hapd_conf :: softap_config_stru where
  "hapd_conf = \<lparr>ssid = ''WS63E_ENV_CAR'', pre_shared_key = ''12345678'',
     security_type = WIFI_SEC_TYPE_WPA2_WPA_PSK_MIX, channel_num = 6, wifi_psk_type = 0\<rparr>"

definition advance_conf :: softap_config_advance_stru where
  "advance_conf = \<lparr>beacon_interval = 100, dtim_period = 2, gi = 0, group_rekey = 86400,
     protocol_mode = 4, hidden_ssid_flag = 1\<rparr>"

definition car_wifi_ap_enable_softap :: "'a wifi_state_scheme \<Rightarrow> int \<times> 'a wifi_state_scheme" where
  "car_wifi_ap_enable_softap s =
     (let (adv, s1) = wifi_call (SoftapAdvance advance_conf) s
      in if adv \<noteq> 0 then (- 1, s1) else
      let (en, s2) = wifi_call (SoftapEnable hapd_conf) s1
      in if en \<noteq> 0 then (- 1, s2) else
      let (netif, s3) = wifi_query s2
      in if netif = 0 then (- 1, snd (wifi_call SoftapDisable s3)) else
      let (addr, s4) = wifi_call (NetifSetAddr [192, 168, 5, 1] [255, 255, 255, 0] [192, 168, 5, 2]) s3
      in if addr \<noteq> 0 then (- 1, snd (wifi_call SoftapDisable s4)) else
      let (dhcp, s5) = wifi_call DhcpsStart s4
      in if dhcp \<noteq> 0 then (- 1, snd (wifi_call SoftapDisable s5)) else (0, s5))"

text \<open>The wait for the Wi-Fi stack polls at most \<open>CAR_WIFI_AP_WAIT_INIT_RETRIES\<close> = 100 times.\<close>

fun wait_wifi_inited :: "nat \<Rightarrow> 'a wifi_state_scheme \<Rightarrow> 'a wifi_state_scheme" where
  "wait_wifi_inited 0 s = s"
| "wait_wifi_inited (Suc n) s =
     (let (ready, s1) = wifi_query s
      in if ready \<noteq> 0 then s1 else wait_wifi_inited n (wifi_note (WifiWait 100) s1))"

definition car_wifi_ap_task :: "'a wifi_state_scheme \<Rightarrow> 'a wifi_state_scheme" where
  "car_wifi_ap_task s =
     (let s1 = wait_wifi_inited 100 (s\<lparr>g_wifi_state := CAR_WIFI_STATE_STARTING\<rparr>);
          (ready, s2) = wifi_query s1
      in if ready = 0 then s2\<lparr>g_wifi_state := CAR_WIFI_STATE_ERROR\<rparr>
         else let (ret, s3) = car_wifi_ap_enable_softap s2
           in if ret \<noteq> 0 then s3\<lparr>g_wifi_state := CAR_WIFI_STATE_ERROR\<rparr>
              else car_wifi_http_server_start (s3\<lparr>g_wifi_state := CAR_WIFI_STATE_READY\<rparr>))"

text \<open>The result tells whether the task was created; its body is \<open>car_wifi_ap_task\<close>.\<close>

definition car_wifi_ap_start :: "'a wifi_state_scheme \<Rightarrow> (int \<times> bool) \<times> 'a wifi_state_scheme" where
  "car_wifi_ap_start s =
     (if g_wifi_state s = CAR_WIFI_STATE_STARTING \<or> g_wifi_state s = CAR_WIFI_STATE_READY
      then ((0, False), s)
      else let (th, s1) = wifi_query s
        in if th = 0 then ((- 1, False), s1\<lparr>g_wifi_state := CAR_WIFI_STATE_ERROR\<rparr>)
           else ((0, True), s1))"

section \<open>The mailbox keeps the last object\<close>

definition json_fits :: "string \<Rightarrow> bool" where
  "json_fits j = (length j < CAR_WIFI_AP_JSON_MAX_LEN \<and> CHR 0x00 \<notin> set j)"

definition mailbox_sound :: "'a wifi_state_scheme \<Rightarrow> bool" where
  "mailbox_sound s = (length (g_last_json s) = CAR_WIFI_AP_JSON_MAX_LEN \<and> CHR 0x00 \<in> set (g_last_json s))"

lemma publish_fits:
  assumes "length (g_last_json s) = CAR_WIFI_AP_JSON_MAX_LEN" and "json_fits j"
  shows "car_wifi_ap_publish_json (Some j) s =
    (0, s\<lparr>g_last_json := j @ CHR 0x00 # drop (Suc (length j)) (g_last_json s)\<rparr>)"
  using assms by (simp add: car_wifi_ap_publish_json_def memcpy_s_def json_fits_def)

interpretation wifi_json: mailbox "\<lambda>j s. snd (car_wifi_ap_publish_json (Some j) s)"
  car_wifi_ap_get_last_json json_fits mailbox_sound
  by unfold_locales
    (auto simp: mailbox_sound_def publish_fits car_wifi_ap_get_last_json_def json_fits_def cstr_append)

section \<open>What a request does\<close>

lemma respond_fits:
  assumes "length (http_text code status ct b) < 640"
  shows "car_wifi_http_respond_status code status (Some b) (Some ct) s =
    s\<lparr>wifi_n := Suc (wifi_n s), wifi_log := wifi_log s @ [HttpSend (http_text code status ct b)]\<rparr>"
proof -
  have "0 < length (http_text code status ct b)" by (simp add: http_text_def)
  with assms show ?thesis
    by (simp add: car_wifi_http_respond_status_def car_wifi_http_send_def wifi_call_def wifi_note_def
      wifi_count_def Let_def)
qed

lemma length_http_text:
  assumes "length b < 1000"
  shows "length (http_text code status ct b) \<le>
    length (fmt_d code) + length status + length ct + length b + 71"
  using assms length_fmt_u [of "length b" 3] by (simp add: http_text_def crlf_def)

lemma respond_json_fits:
  assumes "length status \<le> 20" and "length b < 400" and "0 \<le> code" and "code < 1000"
  shows "respond_json code status b s = s\<lparr>wifi_n := Suc (wifi_n s),
    wifi_log := wifi_log s @ [HttpSend (http_text code status ''application/json'' b)]\<rparr>"
proof -
  have "length (fmt_d code) \<le> 3"
    using length_fmt_u [of "nat code" 3] assms by (simp add: fmt_d_def)
  then show ?thesis
    using assms length_http_text [of b code status "''application/json''"]
    unfolding respond_json_def by (intro respond_fits) simp
qed

lemma motor_only_wifi:
  fixes s :: "'a wifi_state_scheme"
  assumes "motor_only s s'"
  shows "wifi_log s' = wifi_log s" "g_last_json s' = g_last_json s" "g_wifi_state s' = g_wifi_state s"
    "wifi_ans s' = wifi_ans s" "wifi_n s' = wifi_n s"
  using assms by (cases s; cases s'; auto simp: motor_only_def)+

lemma patrol_ops_wifi:
  fixes s :: "'a wifi_state_scheme"
  shows "wifi_log (patrol_route_stop s) = wifi_log s" "g_last_json (patrol_route_stop s) = g_last_json s"
    "g_wifi_state (patrol_route_stop s) = g_wifi_state s"
    "wifi_log (patrol_route_start s) = wifi_log s" "g_last_json (patrol_route_start s) = g_last_json s"
    "g_wifi_state (patrol_route_start s) = g_wifi_state s"
  using motor_only_wifi [OF patrol_stop_effect [of s]] by (simp_all add: patrol_route_start_def)
section \<open>Framing of a response\<close>

lemma http_text_blank_line:
  assumes "CHR 0x0D \<notin> set status" and "CHR 0x0D \<notin> set ct"
  shows "strstr (http_text code status ct b) (crlf @ crlf) = Some (crlf @ crlf @ b)"
  using assms by (simp add: http_text_def crlf_def strstr_skip not_in_fmt_u not_in_fmt_d is_digit_def)

lemma http_text_length_field:
  assumes "CHR ''C'' \<notin> set status" and "CHR ''C'' \<notin> set ct" and "length b < 2 ^ 32"
  shows "parse_uint_field ov (http_text code status ct b) ''Content-Length'' = Some (of_nat (length b))"
proof -
  have "CHR ''C'' \<notin> set (fmt_d code)" by (simp add: not_in_fmt_d is_digit_def)
  then have "strstr (http_text code status ct b) ''Content-Length'' = Some (''Content-Length: '' @
      fmt_u (length b) @ crlf @ ''Connection: close'' @ crlf @ crlf @ b)"
    using assms by (simp add: http_text_def crlf_def strstr_skip)
  then have "parse_uint_field ov (http_text code status ct b) ''Content-Length'' =
      scan_u ov ('' '' @ fmt_u (length b) @ crlf @ ''Connection: close'' @ crlf @ crlf @ b)"
    by (simp add: parse_uint_field_def)
  also have "\<dots> = scan_u ov (fmt_u (length b) @ crlf @ ''Connection: close'' @ crlf @ crlf @ b)"
    by (simp add: scan_u_def is_space_def)
  also have "\<dots> = Some (of_nat (length b))"
    using assms(3) by (intro scan_u_fmt_u) (auto simp: crlf_def is_digit_def)
  finally show ?thesis .
qed

text \<open>The handler, branch by branch.\<close>

lemma last_json_short: "mailbox_sound s \<Longrightarrow> length (car_wifi_ap_get_last_json s) < 192"
  using length_takeWhile_less_ex [of "CHR 0x00" "g_last_json s" "\<lambda>c. c \<noteq> CHR 0x00"]
  by (simp add: car_wifi_ap_get_last_json_def cstr_def mailbox_sound_def)

definition answered :: "'a wifi_state_scheme \<Rightarrow> 'a wifi_state_scheme \<Rightarrow> bool" where
  "answered s s' = (\<exists>code status b. (code, status) \<in> {(200, ''OK''), (400, ''Bad Request''), (404, ''Not Found'')} \<and>
     length b < 192 \<and>
     wifi_log s' = wifi_log s @ [HttpSend (http_text code status ''application/json'' b)])"

lemma respond_answered:
  assumes "(code, status) \<in> {(200, ''OK''), (400, ''Bad Request''), (404, ''Not Found'')}" "length b < 192"
    and "wifi_log s1 = wifi_log s"
  shows "answered s (respond_json code status b s1)"
  unfolding answered_def
  by (rule exI [of _ code], rule exI [of _ status], rule exI [of _ b])
    (use assms in \<open>auto simp: respond_json_fits\<close>)

lemma http_control_answer: "answered s (http_control ov r s)"
proof (cases "strstr r (crlf @ crlf)")
  case None
  then show ?thesis by (simp add: http_control_def respond_answered)
next
  case (Some hit)
  obtain ret s1 where a: "control_command_apply ov (Some (drop 4 hit)) (patrol_route_stop s) = (ret, s1)"
    by fastforce
  have "wifi_log s1 = wifi_log s"
    using motor_only_wifi(1) [OF control_apply_frame [OF a]] by (simp add: patrol_ops_wifi)
  with Some a show ?thesis
    by (simp add: http_control_def Let_def respond_answered patrol_ops_wifi)
qed

definition root_request :: "string \<Rightarrow> bool" where
  "root_request r = (starts_with r ''GET / '' \<or> starts_with r ''GET /HTTP'')"

text \<open>C12: Every request but the one for the root page is answered by exactly one response that fits the
  response buffer, has status 200, 400 or 404, whose first blank line is the end of its header and
  whose \<open>Content-Length\<close> reads back as the length of what follows.\<close>

theorem http_one_framed_response:
  assumes "mailbox_sound s" and "\<not> root_request r"
  shows "\<exists>code text body. wifi_log (car_wifi_http_handle_request ov (Some r) s) = wifi_log s @ [HttpSend text] \<and>
    code \<in> {200, 400, 404} \<and> starts_with text (''HTTP/1.1 '' @ fmt_d code @ '' '') \<and> length text < 640 \<and>
    strstr text (crlf @ crlf) = Some (crlf @ crlf @ body) \<and>
    parse_uint_field ov text ''Content-Length'' = Some (of_nat (length body))"
proof -
  have "answered s (car_wifi_http_handle_request ov (Some r) s)"
    using last_json_short [OF assms(1)] assms(2)
    by (simp add: car_wifi_http_handle_request_def Let_def root_request_def respond_answered
      http_control_answer)
  then obtain code status b where c: "(code, status) \<in> {(200, ''OK''), (400, ''Bad Request''), (404, ''Not Found'')}"
    and len: "length b < 192"
    and b: "wifi_log (car_wifi_http_handle_request ov (Some r) s) =
      wifi_log s @ [HttpSend (http_text code status ''application/json'' b)]"
    unfolding answered_def by blast
  let ?t = "http_text code status ''application/json'' b"
  have st: "CHR 0x0D \<notin> set status" "CHR ''C'' \<notin> set status" "length status < 20" using c by auto
  have "length (fmt_d code) \<le> 3" using c length_fmt_u [of "nat code" 3] by (auto simp: fmt_d_def)
  then have "length ?t < 640" using length_http_text [of b code status "''application/json''"] st len by simp
  moreover have "starts_with ?t (''HTTP/1.1 '' @ fmt_d code @ '' '')"
    by (simp add: starts_with_prefix http_text_def)
  moreover have "strstr ?t (crlf @ crlf) = Some (crlf @ crlf @ b)"
    by (rule http_text_blank_line) (use st in auto)
  moreover have "parse_uint_field ov ?t ''Content-Length'' = Some (of_nat (length b))"
    by (rule http_text_length_field) (use st len in auto)
  moreover have "code \<in> {200, 400, 404}" using c by auto
  ultimately show ?thesis using b by blast
qed

text \<open>The statics of wifi_ap.c at boot; the network answers every call with 1.\<close>

definition wifi_boot :: "patrol_state \<Rightarrow> wifi_state" where
  "wifi_boot p = patrol_state.extend p
     \<lparr>g_wifi_state = CAR_WIFI_STATE_IDLE, g_last_json = replicate 192 CHR 0x00,
      wifi_ans = (\<lambda>_. 1), wifi_n = 0, wifi_log = []\<rparr>"

lemma wifi_boot_simps [simp]:
  "wifi_log (wifi_boot p) = []" "g_wifi_state (wifi_boot p) = CAR_WIFI_STATE_IDLE"
  "mailbox_sound (wifi_boot p)"
  by (simp_all add: wifi_boot_def wifi_state.defs patrol_state.defs mailbox_sound_def)
lemma http_one_framed_response_witness:
  "let s = (wifi_boot (patrol_boot (motor_boot quiet_bus)))
   in \<exists>text. wifi_log (car_wifi_http_handle_request (\<lambda>_. 0) (Some ''PUT /'') s) = [HttpSend text]"
proof -
  let ?s = "wifi_boot (patrol_boot (motor_boot quiet_bus))"
  have "\<not> root_request ''PUT /''" by (simp add: root_request_def starts_with_def)
  then show ?thesis
    using http_one_framed_response [of ?s "''PUT /''" "\<lambda>_. 0"] by auto
qed

text \<open>
  The root page is longer than the response buffer, so that \<open>snprintf\<close> reports a text that does
  not fit and nothing is sent.
\<close>

lemma length_root_html: "length g_root_html = 3821"
  by (simp add: g_root_html_def)

lemma root_page_not_sent:
  assumes "root_request r"
  shows "car_wifi_http_handle_request ov (Some r) s = s"
proof -
  have "\<not> starts_with r ''GET /api/data''"
    using assms by (auto simp: root_request_def starts_with_prefix prefix_def)
  moreover have "640 \<le> length (http_text 200 ''OK'' ''text/html'' g_root_html)"
    by (simp add: http_text_def length_root_html)
  ultimately show ?thesis
    using assms by (simp add: car_wifi_http_handle_request_def root_request_def
      car_wifi_http_respond_status_def Let_def not_less [symmetric])
qed

text \<open>After any sequence of published telemetry objects (each shorter than the mailbox), a request
  for \<open>/api/data\<close> is answered with the last of them, complete, whatever the buffer held before.\<close>

theorem http_serves_last_telemetry:
  assumes "mailbox_sound s" and "js \<noteq> []" and "\<forall>j \<in> set js. json_fits j" and "last js \<noteq> ''''"
    and "starts_with r ''GET /api/data''"
  shows "wifi_log (car_wifi_http_handle_request ov (Some r)
      (fold (\<lambda>j s. snd (car_wifi_ap_publish_json (Some j) s)) js s)) =
    wifi_log s @ [HttpSend (http_text 200 ''OK'' ''application/json'' (last js))]"
proof -
  let ?t = "fold (\<lambda>j s. snd (car_wifi_ap_publish_json (Some j) s)) js s"
  have get: "car_wifi_ap_get_last_json ?t = last js"
    using wifi_json.get_puts [OF assms(1,3)] assms(2) by simp
  have "mailbox_sound ?t" using wifi_json.sound_puts [OF assms(1,3)] .
  then have len: "length (last js) < 192" using last_json_short [of ?t] get by simp
  have "wifi_log (snd (car_wifi_ap_publish_json (Some j) u)) = wifi_log u" for j and u :: "'a wifi_state_scheme"
    by (simp add: car_wifi_ap_publish_json_def Let_def split: prod.splits)
  then have "wifi_log (fold (\<lambda>j s. snd (car_wifi_ap_publish_json (Some j) s)) ks u) = wifi_log u" for ks
    and u :: "'a wifi_state_scheme"
    by (induction ks arbitrary: u) simp_all
  then show ?thesis
    using assms(4,5) get len by (simp add: car_wifi_http_handle_request_def Let_def respond_json_fits)
qed

lemma http_serves_last_telemetry_witness:
  "let s = (wifi_boot (patrol_boot (motor_boot quiet_bus)));
       publish = (\<lambda>j s. snd (car_wifi_ap_publish_json (Some j) s))
   in wifi_log (car_wifi_http_handle_request (\<lambda>_. 0) (Some ''GET /api/data HTTP/1.1'')
        (fold publish [''{}'', ''{1}''] s)) = [HttpSend (http_text 200 ''OK'' ''application/json'' ''{1}'')]"
  using http_serves_last_telemetry [of "wifi_boot (patrol_boot (motor_boot quiet_bus))"
      "[''{}'', ''{1}'']" "''GET /api/data HTTP/1.1''" "\<lambda>_. 0"]
  by (simp add: json_fits_def starts_with_def)

section \<open>The control endpoint\<close>

lemma http_control_request_eq:
  assumes "starts_with r ''POST /api/control''"
    and "strstr r (crlf @ crlf) = Some (crlf @ crlf @ control_json m speed dur)"
    and "speed < 2 ^ 32" and "dur < 2 ^ 32"
    and "car_motor_manual_command (Some \<lparr>cmd_motion = m, speed_percent = of_nat (min 100 speed),
       duration_ms = of_nat (min 3000 dur)\<rparr>) (patrol_route_stop s) = (ret, s1)"
  shows "car_wifi_http_handle_request ov (Some r) s = s1\<lparr>wifi_n := Suc (wifi_n s), wifi_log := wifi_log s @
      [HttpSend (if ret = 0 then http_text 200 ''OK'' ''application/json'' ''{\"ok\":true}''
         else http_text 400 ''Bad Request'' ''application/json'' ''{\"err\":\"control failed\"}'')]\<rparr> \<and>
    g_enabled s1 = 0 \<and> (ret = 0 \<longrightarrow> g_current_motion s1 = m)"
proof -
  let ?b = "control_json m speed dur"
  have run: "control_command_apply ov (Some ?b) (patrol_route_stop s) = (ret, s1)"
    using assms(5) by (simp add: control_command_apply_def control_json_roundtrip_eq [OF assms(3,4)])
  note f = control_apply_frame [OF run]
  have w: "wifi_n s1 = wifi_n s" "wifi_log s1 = wifi_log s"
    using motor_only_wifi [OF f] motor_only_wifi(5) [OF patrol_stop_effect [of s]]
    by (simp_all add: patrol_ops_wifi)
  have tok: "\<not> contains ?b ''\"auto_start\"''" "\<not> contains ?b ''\"auto_stop\"''"
    by (cases m; simp add: contains_def control_json_def strstr_skip_fmt_u is_digit_def)+
  have "\<not> starts_with r ''GET /api/data''" "\<not> starts_with r ''GET / ''" "\<not> starts_with r ''GET /HTTP''"
    using assms(1) by (auto simp: starts_with_prefix prefix_def)
  then have "car_wifi_http_handle_request ov (Some r) s = http_control ov r s"
    using assms(1) by (simp add: car_wifi_http_handle_request_def)
  moreover have "drop 4 (crlf @ crlf @ ?b) = ?b" by (simp add: crlf_def)
  ultimately have "car_wifi_http_handle_request ov (Some r) s =
      (if ret \<noteq> 0 then respond_json 400 ''Bad Request'' ''{\"err\":\"control failed\"}'' s1
       else respond_json 200 ''OK'' ''{\"ok\":true}'' s1)"
    using assms(2) tok run
    by (simp add: http_control_def car_wifi_request_has_token_def Let_def)
  moreover have "g_enabled s1 = 0" using motor_only_patrol(1) [OF f] by (simp add: patrol_stop_more)
  moreover have "ret = 0 \<longrightarrow> g_current_motion s1 = m" using manual_command_frame(2) [OF assms(5)] by simp
  ultimately show ?thesis using w by (simp add: respond_json_fits)
qed

text \<open>C10: A POST to the control endpoint whose body is the documented JSON object stops the patrol,
  runs exactly the manual command it encodes, and is answered with 200 when the motor driver
  accepted the command and with 400 when it did not.\<close>

theorem http_control_runs_command:
  assumes "starts_with r ''POST /api/control''"
    and "strstr r (crlf @ crlf) = Some (crlf @ crlf @ control_json m speed dur)"
    and "speed < 2 ^ 32" and "dur < 2 ^ 32"
    and "car_motor_manual_command (Some \<lparr>cmd_motion = m, speed_percent = of_nat (min 100 speed),
       duration_ms = of_nat (min 3000 dur)\<rparr>) (patrol_route_stop s) = (ret, s1)"
  shows "car_wifi_http_handle_request ov (Some r) s = s1\<lparr>wifi_n := Suc (wifi_n s), wifi_log := wifi_log s @
      [HttpSend (if ret = 0 then http_text 200 ''OK'' ''application/json'' ''{\"ok\":true}''
         else http_text 400 ''Bad Request'' ''application/json'' ''{\"err\":\"control failed\"}'')]\<rparr> \<and>
    g_enabled s1 = 0 \<and> (ret = 0 \<longrightarrow> g_current_motion s1 = m)"
  using assms by (rule http_control_request_eq)

lemma http_control_runs_command_witness:
  "let s = (wifi_boot (patrol_boot (motor_boot quiet_bus)))\<lparr>g_motor_available := 1, g_enabled := 1\<rparr>;
       r = ''POST /api/control'' @ crlf @ crlf @ control_json CAR_MOTION_LEFT 35 600
   in g_enabled (car_wifi_http_handle_request (\<lambda>_. 0) (Some r) s) = 0"
proof -
  let ?s = "(wifi_boot (patrol_boot (motor_boot quiet_bus)))\<lparr>g_motor_available := 1, g_enabled := 1\<rparr>"
  let ?c = "\<lparr>cmd_motion = CAR_MOTION_LEFT, speed_percent = of_nat (min 100 35),
     duration_ms = of_nat (min 3000 600)\<rparr>"
  obtain ret s1 where c: "car_motor_manual_command (Some ?c) (patrol_route_stop ?s) = (ret, s1)"
    by fastforce
  have h: "starts_with (''POST /api/control'' @ crlf @ crlf @ control_json CAR_MOTION_LEFT 35 600) ''POST /api/control''"
    "strstr (''POST /api/control'' @ crlf @ crlf @ control_json CAR_MOTION_LEFT 35 600) (crlf @ crlf)
      = Some (crlf @ crlf @ control_json CAR_MOTION_LEFT 35 600)"
    by (simp_all add: starts_with_def crlf_def)
  show ?thesis
    using http_control_runs_command [OF h _ _ c, of "\<lambda>_. 0"] by simp
qed

section \<open>The SoftAP task\<close>

text \<open>Whether the access point is up after some calls: an enable that succeeds takes it up, a disable that succeeds
  takes it down, and a call that fails changes nothing.\<close>

fun ap_up :: "wifi_event list \<Rightarrow> bool \<Rightarrow> bool" where
  "ap_up [] up = up"
| "ap_up (SoftapEnable c ret # evs) up = ap_up evs (up \<or> ret = 0)"
| "ap_up (SoftapDisable ret # evs) up = ap_up evs (up \<and> ret \<noteq> 0)"
| "ap_up (_ # evs) up = ap_up evs up"

text \<open>The calls of a start that succeeds, in their order.\<close>

definition ap_configured :: "wifi_event list" where
  "ap_configured = [SoftapAdvance advance_conf 0, SoftapEnable hapd_conf 0,
     NetifSetAddr [192, 168, 5, 1] [255, 255, 255, 0] [192, 168, 5, 2] 0, DhcpsStart 0]"

lemma ap_up_append [simp]: "ap_up (xs @ ys) up = ap_up ys (ap_up xs up)"
  by (induction xs up rule: ap_up.induct) simp_all

lemmas wifi_call_defs = wifi_call_def wifi_query_def wifi_note_def wifi_count_def Let_def

lemma enable_softap_log:
  assumes "car_wifi_ap_enable_softap s = (ret, s')"
  shows "\<exists>evs. wifi_log s' = wifi_log s @ evs \<and> (ret = 0 \<longleftrightarrow> evs = ap_configured) \<and>
    (ret \<noteq> 0 \<longrightarrow> (ap_up evs False \<longleftrightarrow> (\<exists>r. r \<noteq> 0 \<and> SoftapDisable r \<in> set evs))) \<and>
    HttpTask \<notin> set evs \<and> (\<forall>n. WifiWait n \<notin> set evs)"
  using assms by (auto simp: car_wifi_ap_enable_softap_def wifi_call_defs ap_configured_def split: if_splits)

lemma wait_inited_log:
  "\<exists>k. wifi_log (wait_wifi_inited n s) = wifi_log s @ replicate k (WifiWait 100) \<and> k \<le> n"
proof (induction n arbitrary: s)
  case (Suc n)
  show ?case
  proof (cases "wifi_answer s = 0")
    case True
    obtain k where "wifi_log (wait_wifi_inited n (wifi_note (WifiWait 100) (wifi_count s))) =
        wifi_log s @ WifiWait 100 # replicate k (WifiWait 100)" "k \<le> n"
      using Suc.IH [of "wifi_note (WifiWait 100) (wifi_count s)"] by (auto simp: wifi_call_defs)
    with True show ?thesis by (intro exI [of _ "Suc k"]) (simp add: wifi_query_def)
  next
    case False
    then show ?thesis by (simp add: wifi_call_defs)
  qed
qed simp

lemma ap_up_waits [simp]: "ap_up (replicate k (WifiWait n)) up = up"
  by (induction k) simp_all

text \<open>C14: Whatever the network stack answers, the SoftAP task ends after at most 100 waits, in state READY or
  ERROR. It is READY exactly when the calls behind the waits are the whole configuration of the access point,
  every one accepted; then the access point is up, and only then is the HTTP server started. In
  state ERROR the access point is up only if a disable was answered with an error,
  an answer the code does not look at.\<close>

theorem wifi_ap_task_outcome:
  "\<exists>k evs. wifi_log (car_wifi_ap_task s) = wifi_log s @ replicate k (WifiWait 100) @ evs \<and> k \<le> 100 \<and>
     (\<forall>n. WifiWait n \<notin> set evs) \<and>
     (if evs = ap_configured \<or> evs = ap_configured @ [HttpTask]
      then g_wifi_state (car_wifi_ap_task s) = CAR_WIFI_STATE_READY \<and> ap_up evs False
      else g_wifi_state (car_wifi_ap_task s) = CAR_WIFI_STATE_ERROR \<and> HttpTask \<notin> set evs \<and>
        (ap_up evs False \<longleftrightarrow> (\<exists>r. r \<noteq> 0 \<and> SoftapDisable r \<in> set evs)))"
proof -
  let ?s1 = "wait_wifi_inited 100 (s\<lparr>g_wifi_state := CAR_WIFI_STATE_STARTING\<rparr>)"
  obtain k where k: "wifi_log ?s1 = wifi_log s @ replicate k (WifiWait 100)" "k \<le> 100"
    using wait_inited_log [of 100 "s\<lparr>g_wifi_state := CAR_WIFI_STATE_STARTING\<rparr>"] by auto
  obtain ret s3 where en: "car_wifi_ap_enable_softap (wifi_count ?s1) = (ret, s3)" by fastforce
  obtain evs where evs: "wifi_log s3 = wifi_log (wifi_count ?s1) @ evs" "ret = 0 \<longleftrightarrow> evs = ap_configured"
    "ret \<noteq> 0 \<longrightarrow> (ap_up evs False \<longleftrightarrow> (\<exists>r. r \<noteq> 0 \<and> SoftapDisable r \<in> set evs))"
    "HttpTask \<notin> set evs" "\<forall>n. WifiWait n \<notin> set evs"
    using enable_softap_log [OF en] by blast
  have s3: "wifi_log s3 = wifi_log s @ replicate k (WifiWait 100) @ evs"
    using evs(1) k(1) by (simp add: wifi_count_def)
  have up: "ap_up ap_configured False" "ap_up (ap_configured @ [HttpTask]) False" "[] \<noteq> ap_configured"
    "\<forall>n. WifiWait n \<notin> set ap_configured"
    by (simp_all add: ap_configured_def)
  consider "wifi_answer ?s1 = 0" | "wifi_answer ?s1 \<noteq> 0" "ret \<noteq> 0" | "wifi_answer ?s1 \<noteq> 0" "ret = 0" by blast
  then show ?thesis
  proof cases
    case 1
    then show ?thesis using k up(3)
      by (intro exI [of _ k] exI [of _ "[]"]) (simp add: car_wifi_ap_task_def wifi_call_defs)
  next
    case 2
    then have "evs \<noteq> ap_configured" "evs \<noteq> ap_configured @ [HttpTask]" using evs(2,4) by auto
    then show ?thesis using 2 k(2) evs(3-) s3 en
      by (intro exI [of _ k] exI [of _ evs]) (simp add: car_wifi_ap_task_def wifi_query_def Let_def)
  next
    case 3
    then show ?thesis using k(2) evs(2) up s3 en
      by (intro exI [of _ k] exI [of _ "ap_configured @ (if wifi_answer s3 = 0 then [] else [HttpTask])"])
        (simp add: car_wifi_ap_task_def wifi_query_def wifi_count_def wifi_note_def Let_def
          car_wifi_http_server_start_def wifi_answer_def)
  qed
qed

text \<open>A stack that gives up on the DHCP server and cannot disable the access point: the car is in state
  ERROR, its network is on the air.\<close>

lemma failed_disable_leaves_ap_up:
  assumes "g_wifi_state s = CAR_WIFI_STATE_IDLE" and "wifi_log s = []" and "wifi_n s = 0"
    and "wifi_ans s = (\<lambda>n. [1, 1, 0, 0, 1, 0, - 1, - 1] ! n)"
  shows "g_wifi_state (car_wifi_ap_task s) = CAR_WIFI_STATE_ERROR \<and> ap_up (wifi_log (car_wifi_ap_task s)) False"
proof -
  have w: "wait_wifi_inited 100 u = wifi_count u" if "wifi_answer u = 1" for u :: "'a wifi_state_scheme"
    using that wait_wifi_inited.simps(2) [of 99 u] by (simp add: wifi_query_def)
  show ?thesis using assms
    by (simp add: car_wifi_ap_task_def w car_wifi_ap_enable_softap_def wifi_answer_def wifi_call_defs)
qed

section \<open>Requests keep the invariants of the car\<close>

definition car_wifi_inv :: "'a wifi_state_scheme \<Rightarrow> bool" where
  "car_wifi_inv s = (car_safe s \<and> patrol_inv s \<and> mailbox_sound s)"

lemma car_wifi_inv_view:
  assumes "car_wifi_inv s" and "i2c_log s' = i2c_log s" "motor_state.truncate s' = motor_state.truncate s"
    "patrol_state.truncate s' = patrol_state.truncate s" "g_last_json s' = g_last_json s"
  shows "car_wifi_inv s'"
  using assms
  by (auto simp: car_wifi_inv_def car_safe_def motor_inv_def watchdog_ok_def all_regs_ok_def
    patrol_inv_def cur_step_def mailbox_sound_def motor_state.defs patrol_state.defs)

lemma wifi_calls_inv:
  "car_wifi_inv s \<Longrightarrow> car_wifi_inv (wifi_note ev s)" "car_wifi_inv s \<Longrightarrow> car_wifi_inv (wifi_count s)"
  "car_wifi_inv s \<Longrightarrow> car_wifi_inv (s\<lparr>g_wifi_state := st\<rparr>)"
  by (erule car_wifi_inv_view; simp add: wifi_note_def wifi_count_def motor_state.defs patrol_state.defs)+

lemma respond_inv: "car_wifi_inv s \<Longrightarrow> car_wifi_inv (car_wifi_http_respond_status code st b ct s)"
  by (simp add: car_wifi_http_respond_status_def car_wifi_http_send_def wifi_call_def Let_def wifi_calls_inv)

lemma patrol_ops_inv: "car_wifi_inv s \<Longrightarrow> car_wifi_inv (patrol_route_stop s)"
  "car_wifi_inv s \<Longrightarrow> car_wifi_inv (patrol_route_start s)"
  by (simp_all add: car_wifi_inv_def patrol_stop_safe patrol_position_safe patrol_stop_inv
    patrol_ops_wifi mailbox_sound_def)

lemma control_apply_inv: "car_wifi_inv s \<Longrightarrow> car_wifi_inv (snd (control_command_apply ov p s))"
  using control_apply_frame [of ov p s, OF surjective_pairing] control_apply_safe [of s ov p]
  by (auto simp: car_wifi_inv_def mailbox_sound_def motor_only_wifi patrol_inv_motor_only)

lemma http_control_inv: "car_wifi_inv s \<Longrightarrow> car_wifi_inv (http_control ov r s)"
proof -
  assume "car_wifi_inv s"
  then have "car_wifi_inv s1" if "control_command_apply ov p (patrol_route_stop s) = (ret, s1)" for p ret s1
    using control_apply_inv [OF patrol_ops_inv(1), of s ov p] that by simp
  with \<open>car_wifi_inv s\<close> show ?thesis
    by (auto simp: http_control_def respond_json_def Let_def respond_inv patrol_ops_inv
      split: option.splits prod.splits)
qed

lemma http_request_inv: "car_wifi_inv s \<Longrightarrow> car_wifi_inv (car_wifi_http_handle_request ov r s)"
  by (auto simp: car_wifi_http_handle_request_def respond_json_def Let_def respond_inv http_control_inv
    split: option.splits)

lemma http_turn_inv: "car_wifi_inv s \<Longrightarrow> car_wifi_inv (http_server_turn ov fd received s)"
  by (auto simp: http_server_turn_def wifi_calls_inv http_request_inv split: option.splits)

lemma wait_inited_inv: "car_wifi_inv s \<Longrightarrow> car_wifi_inv (wait_wifi_inited n s)"
  by (induction n arbitrary: s) (simp_all add: wifi_query_def wifi_calls_inv)

lemma wifi_call_inv: "wifi_call ev s = (r, s') \<Longrightarrow> car_wifi_inv s \<Longrightarrow> car_wifi_inv s'"
  "wifi_query s = (r, s') \<Longrightarrow> car_wifi_inv s \<Longrightarrow> car_wifi_inv s'"
    "car_wifi_inv s \<Longrightarrow> car_wifi_inv (snd (wifi_call ev s))"
  by (auto simp: wifi_call_def wifi_query_def Let_def wifi_calls_inv)

lemma enable_softap_inv: "car_wifi_ap_enable_softap s = (ret, s') \<Longrightarrow> car_wifi_inv s \<Longrightarrow> car_wifi_inv s'"
  by (auto simp: car_wifi_ap_enable_softap_def Let_def wifi_calls_inv wifi_call_inv(3)
    dest!: wifi_call_inv(1,2) split: prod.splits if_splits)

lemma http_start_inv: "car_wifi_inv s \<Longrightarrow> car_wifi_inv (car_wifi_http_server_start s)"
  by (simp add: car_wifi_http_server_start_def wifi_query_def wifi_calls_inv)

lemma ap_task_inv: "car_wifi_inv s \<Longrightarrow> car_wifi_inv (car_wifi_ap_task s)"
  by (auto simp: car_wifi_ap_task_def wifi_query_def Let_def wifi_calls_inv wait_inited_inv http_start_inv
    dest!: enable_softap_inv split: prod.splits)

lemma ap_start_inv: "car_wifi_inv s \<Longrightarrow> car_wifi_inv (snd (car_wifi_ap_start s))"
  by (auto simp: car_wifi_ap_start_def wifi_query_def wifi_calls_inv)

lemma http_task_inv: "car_wifi_inv s \<Longrightarrow> car_wifi_inv (snd (car_wifi_http_server_task s))"
  by (auto simp: car_wifi_http_server_task_def wifi_query_def Let_def wifi_calls_inv)

lemma publish_inv: "car_wifi_inv s \<Longrightarrow> json_fits j \<Longrightarrow> car_wifi_inv (snd (car_wifi_ap_publish_json (Some j) s))"
proof -
  assume s: "car_wifi_inv s" and j: "json_fits j"
  then have "mailbox_sound (snd (car_wifi_ap_publish_json (Some j) s))"
    by (intro wifi_json.sound_put) (simp_all add: car_wifi_inv_def)
  then show ?thesis
    using s j publish_fits [of s j]
    by (auto simp: car_wifi_inv_def car_safe_def motor_inv_def watchdog_ok_def all_regs_ok_def
      patrol_inv_def cur_step_def mailbox_sound_def)
qed

end
