(* ===== verification/OledStatus.thy ===== *)
theory OledStatus
  imports Ssd1306 WifiAp
begin

text \<open>
  The status display of the car (display/oled_status.c): four text lines made from the current
  sample, the motion and the state of the access point, written with the driver of Ssd1306.
\<close>

section \<open>display/oled_status.c\<close>

definition decimal_abs :: "int \<Rightarrow> int" where
  "decimal_abs value = (if value < 0 then - value else value)"

definition env_data_has_valid_sample :: "env_data_t option \<Rightarrow> bool" where
  "env_data_has_valid_sample data =
     (case data of None \<Rightarrow> False | Some d \<Rightarrow> 0 < sample_seq d \<and> last_error d = 0)"

definition env_data_has_alert :: "env_data_t option \<Rightarrow> bool" where
  "env_data_has_alert data =
     (case data of None \<Rightarrow> False
      | Some d \<Rightarrow> temp_alert d \<noteq> 0 \<or> humi_alert d \<noteq> 0 \<or> light_alert d \<noteq> 0)"

fun motion_name :: "car_motion_t \<Rightarrow> string" where
  "motion_name CAR_MOTION_FORWARD = ''FWD''"
| "motion_name CAR_MOTION_BACKWARD = ''BACK''"
| "motion_name CAR_MOTION_LEFT = ''LEFT''"
| "motion_name CAR_MOTION_RIGHT = ''RIGHT''"
| "motion_name CAR_MOTION_STOP = ''STOP''"

fun wifi_state_name :: "car_wifi_state_t \<Rightarrow> string" where
  "wifi_state_name CAR_WIFI_STATE_STARTING = ''W:BOOT''"
| "wifi_state_name CAR_WIFI_STATE_READY = ''W:AP''"
| "wifi_state_name CAR_WIFI_STATE_ERROR = ''W:ERR''"
| "wifi_state_name CAR_WIFI_STATE_IDLE = ''W:IDLE''"

text \<open>\<open>snprintf\<close> into one of the 18-byte line buffers.\<close>

definition line18 :: "string \<Rightarrow> string" where
  "line18 t = take 17 t"

text \<open>C division and remainder round towards zero.\<close>

definition status_text1 :: "env_data_t \<Rightarrow> string" where
  "status_text1 d =
     (if env_data_has_valid_sample (Some d) then
        ''T:'' @ fmt_d (temperature_c_x10 d sdiv 10) @ ''.'' @ fmt_d (decimal_abs (temperature_c_x10 d smod 10)) @
          '' H:'' @ fmt_u (unat (humidity_rh_x10 d) div 10) @ ''.'' @ fmt_u (unat (humidity_rh_x10 d) mod 10)
      else ''T:--.- H:--.-'')"

definition status_text2 :: "env_data_t \<Rightarrow> string" where
  "status_text2 d =
     (if env_data_has_valid_sample (Some d) then
        ''L:'' @ fmt_u (unat (light_lux_x10 d) div 10) @ ''.'' @ fmt_u (unat (light_lux_x10 d) mod 10) @ '' lx''
      else ''L:----.- lx'')"

definition status_text3 :: "env_data_t \<Rightarrow> car_wifi_state_t \<Rightarrow> string" where
  "status_text3 d w =
     (if last_error d \<noteq> 0 then
        ''E:'' @ fmt_X (unat (of_int (last_error d) :: u32)) @ '' '' @ wifi_state_name w
      else if env_data_has_alert (Some d) then ''ALERT '' @ wifi_state_name w
      else motion_name (motion d) @ '' '' @ wifi_state_name w)"

definition status_texts :: "env_data_t \<Rightarrow> car_wifi_state_t \<Rightarrow> string list" where
  "status_texts d w =
     [if env_data_has_alert (Some d) then ''WS63E ALERT'' else ''WS63E Patrol'',
      status_text1 d, status_text2 d, status_text3 d w]"

definition status_lines :: "env_data_t \<Rightarrow> car_wifi_state_t \<Rightarrow> string list" where
  "status_lines d w = map line18 (status_texts d w)"

definition oled_status_init :: "ssd_t \<Rightarrow> 'a i2c_env_scheme \<Rightarrow> ssd_t \<times> 'a i2c_env_scheme" where
  "oled_status_init o1 s =
     (let (o2, s1) = ssd1306_Init o1 s
      in ssd1306_printf (Some ''WS63E Patrol'') (ssd1306_ClearOLED o2) s1)"

definition print_lines :: "string list \<Rightarrow> ssd_t \<Rightarrow> 'a i2c_env_scheme \<Rightarrow> ssd_t \<times> 'a i2c_env_scheme" where
  "print_lines ls o1 s = fold (\<lambda>l (o2, s2). ssd1306_printf (Some l) o2 s2) ls (o1, s)"

definition oled_status_render ::
    "env_data_t option \<Rightarrow> ssd_t \<Rightarrow> 'a wifi_state_scheme \<Rightarrow> ssd_t \<times> 'a wifi_state_scheme" where
  "oled_status_render data o1 s =
     (case data of None \<Rightarrow> (o1, s)
      | Some d \<Rightarrow> print_lines (status_lines d (car_wifi_ap_get_state s)) (ssd1306_ClearOLED o1) s)"

section \<open>The lines\<close>

text \<open>
  The decimal point is printed from the quotient and the remainder towards zero, so that the sign
  of a temperature between -0.9 and -0.1 degrees is lost.
\<close>

lemma small_negative_loses_sign:
  "line18 (status_text1 (env_data_reset\<lparr>sample_seq := 1, temperature_c_x10 := - 5\<rparr>)) = ''T:0.5 H:0.0''"
  by code_simp

section \<open>The lines fit the panel\<close>

definition printable :: "string \<Rightarrow> bool" where
  "printable t = (\<forall>c \<in> set t. 32 \<le> (of_char c :: nat) \<and> (of_char c :: nat) \<le> 126)"

lemma printable_append [simp]: "printable (a @ b) = (printable a \<and> printable b)"
  by (auto simp: printable_def)

lemma printable_literals [simp]: "printable []"
  "printable (c # cs) = (32 \<le> (of_char c :: nat) \<and> (of_char c :: nat) \<le> 126 \<and> printable cs)"
  by (auto simp: printable_def)

lemma printable_take: "printable t \<Longrightarrow> printable (take n t)"
  by (auto simp: printable_def dest: in_set_takeD)

lemma printable_digit_char: "d < 16 \<Longrightarrow> 32 \<le> (of_char (digit_char d) :: nat) \<and> (of_char (digit_char d) :: nat) \<le> 126"
proof -
  have "\<forall>d \<in> set [0..<16]. 32 \<le> (of_char (digit_char d) :: nat) \<and> (of_char (digit_char d) :: nat) \<le> 126"
    by code_simp
  then show "d < 16 \<Longrightarrow> ?thesis" by simp
qed

lemma printable_digits: "2 \<le> b \<Longrightarrow> b \<le> 16 \<Longrightarrow> printable (digits_base b n)"
proof (induction b n rule: digits_base.induct)
  case (1 b n)
  then show ?case
    by (cases "n < b") (simp_all add: digits_base_small digits_base_step printable_digit_char
        order_less_le_trans [OF mod_less_divisor])
qed

lemma printable_numbers [simp]: "printable (fmt_u n)" "printable (fmt_d i)" "printable (fmt_X n)"
  by (simp_all add: fmt_u_def fmt_d_def fmt_X_def printable_digits)

lemma printable_names [simp]: "printable (motion_name m)" "printable (wifi_state_name w)"
  by (cases m; simp) (cases w; simp)

lemma status_texts_printable: "l \<in> set (status_texts d w) \<Longrightarrow> printable l"
  by (auto simp: status_texts_def status_text1_def status_text2_def status_text3_def)

lemma line18_id: "length t \<le> 17 \<Longrightarrow> line18 t = t"
  by (simp add: line18_def)

text \<open>A character that fits is drawn and moves the cursor by the width of the font.\<close>

lemma draw_pixel_cursor [simp]: "CurrentX (ssd1306_DrawPixel x y c d) = CurrentX d"
  "CurrentY (ssd1306_DrawPixel x y c d) = CurrentY d"
  by (simp_all add: ssd1306_DrawPixel_def Let_def)

lemma fold_cursor:
  assumes "\<And>x d. CurrentX (f x d) = CurrentX d" "\<And>x d. CurrentY (f x d) = CurrentY d"
  shows "CurrentX (fold f xs d) = CurrentX d" "CurrentY (fold f xs d) = CurrentY d"
  using assms by (induction xs arbitrary: d) auto

lemma glyph_row_cursor [simp]: "CurrentX (draw_glyph_row w i b c d) = CurrentX d"
  "CurrentY (draw_glyph_row w i b c d) = CurrentY d"
  unfolding draw_glyph_row_def by (rule fold_cursor; simp)+

lemma draw_char_fits:
  assumes "printable [ch]" and "unat (CurrentX d) + 7 \<le> 128" and "unat (CurrentY d) + 10 \<le> 64"
  shows "\<exists>d1. ssd1306_DrawChar ch Font_7x10 c d = (ch, d1) \<and> unat (CurrentX d1) = unat (CurrentX d) + 7 \<and>
    CurrentY d1 = CurrentY d"
proof -
  let ?g = "\<lambda>i. draw_glyph_row 7 i (ucast (Font7x10 ! ((of_char ch - 32) * 10 + i))) c"
  have cur: "CurrentX (fold ?g xs d) = CurrentX d" "CurrentY (fold ?g xs d) = CurrentY d" for xs
    by (rule fold_cursor; simp)+
  have "unat (CurrentX d + 7) = unat (CurrentX d) + 7"
    using assms(2) by (simp add: unat_word_ariths)
  moreover have "ssd1306_DrawChar ch Font_7x10 c d =
      (ch, (fold ?g [0 ..< 10] d)\<lparr>CurrentX := CurrentX (fold ?g [0 ..< 10] d) + 7\<rparr>)"
    using assms by (simp add: ssd1306_DrawChar_def Font_7x10_def Let_def not_le not_less del: upt_rec_numeral)
  ultimately show ?thesis using cur by (intro exI) (auto simp del: upt_rec_numeral)
qed

lemma draw_string_fits:
  "printable t \<Longrightarrow> unat (CurrentX d) + 7 * length t \<le> 128 \<Longrightarrow> unat (CurrentY d) + 10 \<le> 64 \<Longrightarrow>
     fst (ssd1306_DrawString t Font_7x10 c d) = CHR 0x00"
proof (induction t arbitrary: d)
  case (Cons ch t)
  obtain d1 where d1: "ssd1306_DrawChar ch Font_7x10 c d = (ch, d1)"
    "unat (CurrentX d1) = unat (CurrentX d) + 7" "CurrentY d1 = CurrentY d"
    using draw_char_fits [of ch d c] Cons.prems by auto
  then show ?case using Cons by simp
qed simp

lemma length_div10: "n < 10 ^ Suc k \<Longrightarrow> 0 < k \<Longrightarrow> length (fmt_u (n div 10)) \<le> k"
  by (rule length_fmt_u) (simp_all add: div_less_iff_less_mult mult.commute)

lemma sdiv10_bounds:
  fixes t :: int
  assumes "- 500 \<le> t" "t < 1500"
  shows "- 50 \<le> t sdiv 10" "t sdiv 10 < 150" "\<bar>t smod 10\<bar> < 10"
proof -
  have "t sdiv 10 = sgn t * (\<bar>t\<bar> div 10)" by (simp add: signed_divide_int_def)
  moreover have "\<bar>t\<bar> div 10 < 150" "t < 0 \<longrightarrow> \<bar>t\<bar> div 10 \<le> 50" "0 \<le> \<bar>t\<bar> div 10"
    using assms by auto
  ultimately show "- 50 \<le> t sdiv 10" "t sdiv 10 < 150"
    by (cases t "0 :: int" rule: linorder_cases; simp)+
  show "\<bar>t smod 10\<bar> < 10" by (simp add: signed_modulo_int_def signed_divide_int_def abs_mult sgn_if)
qed

lemma status_texts_short:
  assumes "env_ok d" and "l \<in> set (status_texts d w)"
  shows "length l \<le> 17"
proof -
  have t: "- 500 \<le> temperature_c_x10 d" "temperature_c_x10 d < 1500" using assms(1) by (simp_all add: env_ok_def)
  have "length (fmt_d (temperature_c_x10 d sdiv 10)) \<le> 4"
    using sdiv10_bounds [OF t] length_fmt_d [of 3 "temperature_c_x10 d sdiv 10"] by simp
  moreover have "length (fmt_u (nat (decimal_abs (temperature_c_x10 d smod 10)))) \<le> 1"
    using sdiv10_bounds(3) [OF t] by (intro length_fmt_u) (auto simp: decimal_abs_def)
  then have "length (fmt_d (decimal_abs (temperature_c_x10 d smod 10))) \<le> 1"
    by (simp add: fmt_d_def decimal_abs_def)
  moreover have "length (fmt_u (unat (humidity_rh_x10 d) div 10)) \<le> 2"
    "length (fmt_u (unat (light_lux_x10 d) div 10)) \<le> 5"
    using assms(1) by (intro length_div10; simp add: env_ok_def)+
  moreover have "length (fmt_u (n mod 10)) \<le> 1" for n by (rule length_fmt_u) simp_all
  note this [of "unat (humidity_rh_x10 d)"] this [of "unat (light_lux_x10 d)"]
  ultimately have "length (status_text1 d) \<le> 17" "length (status_text2 d) \<le> 17"
    by (auto simp: status_text1_def status_text2_def add_le_mono)
  moreover have "length (fmt_X (unat (of_int (last_error d) :: u32))) \<le> 8"
    unfolding fmt_X_def using unat_u32_less [of "of_int (last_error d)"] by (intro length_digits_base) simp_all
  then have "length (status_text3 d w) \<le> 17"
    by (cases w; cases "motion d") (auto simp: status_text3_def)
  ultimately show ?thesis using assms(2) by (auto simp: status_texts_def)
qed

text \<open>For every sample the firmware can hold, none of the four status lines is cut by its 18-byte
  buffer, and each of them fits the panel: drawn from the left edge at any height that leaves room
  for the font, every character of the line is drawn.\<close>

theorem oled_lines_complete:
  assumes "env_ok d" and "unat v + 10 \<le> 64"
  shows "status_lines d w = status_texts d w \<and>
    (\<forall>l \<in> set (status_texts d w). fst (ssd1306_DrawString l Font_7x10 White (ssd1306_SetCursor 0 v p)) = CHR 0x00)"
proof -
  have "line18 l = l" if "l \<in> set (status_texts d w)" for l
    using status_texts_short [OF assms(1) that] by (rule line18_id)
  then have "status_lines d w = status_texts d w" unfolding status_lines_def by (simp add: map_idI)
  moreover have "fst (ssd1306_DrawString l Font_7x10 White (ssd1306_SetCursor 0 v p)) = CHR 0x00"
    if "l \<in> set (status_texts d w)" for l
    using status_texts_short [OF assms(1) that] status_texts_printable [OF that] assms(2)
    by (intro draw_string_fits)
      (simp_all add: ssd1306_SetCursor_def unat_ucast_u8_u16)
  ultimately show ?thesis by blast
qed

lemma oled_lines_complete_witness:
  "status_lines (env_data_reset\<lparr>last_error := - 2147478765\<rparr>) CAR_WIFI_STATE_STARTING =
     status_texts (env_data_reset\<lparr>last_error := - 2147478765\<rparr>) CAR_WIFI_STATE_STARTING"
  using oled_lines_complete [of "env_data_reset\<lparr>last_error := - 2147478765\<rparr>" 45 CAR_WIFI_STATE_STARTING ssd_boot]
  by (simp add: env_ok_def env_data_reset_def)

end
