(* ===== verification/SleClient.thy ===== *)
theory SleClient
  imports WifiAp
begin

text \<open>
  The SLE (short-range radio) client of the car (comm/sle_client.c): it scans for the gateway,
  connects, pairs, discovers the writable property, forwards telemetry text to it and accepts
  control texts as notifications.

  The SLE stack is outside the model: \<open>sle_ans\<close> is the result of the n-th call into it since boot,
  \<open>sle_log\<close> the calls, oldest first. Each callback of the code is a function of the state, and
  \<open>sle_deliver\<close> is the stack calling back: an event reaches the handler that the registered table
  names, and nothing when no table is registered.
\<close>

section \<open>State\<close>

datatype car_sle_state_t =
    CAR_SLE_STATE_IDLE
  | CAR_SLE_STATE_STARTING
  | CAR_SLE_STATE_SCANNING
  | CAR_SLE_STATE_CONNECTED
  | CAR_SLE_STATE_ERROR

datatype sle_acb_state_t =
    SLE_ACB_STATE_NONE | SLE_ACB_STATE_CONNECTED | SLE_ACB_STATE_DISCONNECTED

datatype sle_pair_state_t = SLE_PAIR_NONE | SLE_PAIR_PAIRING | SLE_PAIR_PAIRED

record sle_addr_t =
  addr_type :: u8
  addr_bytes :: "u8 list"

record sle_seek_param_t =
  own_addr_type :: nat
  filter_duplicates :: nat
  seek_filter_policy :: nat
  seek_phys :: nat
  seek_type0 :: nat
  seek_interval0 :: nat
  seek_window0 :: nat

record ssapc_write_param_t =
  wp_handle :: u16
  wp_type :: nat
  wp_data_len :: u16
  wp_data :: string

datatype sle_event =
    SleWait nat
  | SetSeekParam sle_seek_param_t
  | StartSeek
  | StopSeek
  | RemovePaired sle_addr_t
  | ConnectRemote sle_addr_t
  | PairRemote sle_addr_t
  | ExchangeInfoReq u16 nat nat
  | FindStructure u16 nat nat
  | WriteCmd u16 ssapc_write_param_t
  | EnableSle

text \<open>The callback tables, by the function each entry holds.\<close>

datatype sle_callback =
    Car_sle_enable_cbk | Car_sle_seek_enable_cbk | Car_sle_seek_result_cbk | Car_sle_seek_disable_cbk
  | Car_sle_connect_state_cbk | Car_sle_pair_complete_cbk
  | Car_sle_exchange_info_cbk | Car_sle_find_structure_cbk | Car_sle_find_property_cbk
  | Car_sle_find_structure_cmp_cbk | Car_sle_write_cfm_cbk | Car_sle_notification_cbk
  | Car_sle_indication_cbk

record sle_state = wifi_state +
  g_sle_state :: car_sle_state_t
  g_sle_seek_cbk :: "sle_callback list"
  g_sle_connect_cbk :: "sle_callback list"
  g_sle_ssapc_cbk :: "sle_callback list"
  g_sle_remote_addr :: sle_addr_t
  g_sle_send_param :: ssapc_write_param_t
  g_sle_conn_id :: u16
  g_sle_has_write_handle :: u8
  sle_ans :: "nat \<Rightarrow> u32"
  sle_n :: nat
  sle_log :: "sle_event list"

definition sle_call :: "sle_event \<Rightarrow> 'a sle_state_scheme \<Rightarrow> u32 \<times> 'a sle_state_scheme" where
  "sle_call ev s = (sle_ans s (sle_n s), s\<lparr>sle_n := Suc (sle_n s), sle_log := sle_log s @ [ev]\<rparr>)"

definition sle_do :: "sle_event \<Rightarrow> 'a sle_state_scheme \<Rightarrow> 'a sle_state_scheme" where
  "sle_do ev s = snd (sle_call ev s)"

section \<open>Scanning\<close>

text \<open>
  The scan of an advertisement for the target name. The loop counter is a byte and the bound is
  cut to a byte; whether the loop ends is a property, so the loop is a partial function, with
  \<open>None\<close> for a run that does not return.
\<close>

partial_function (option) sle_match_loop :: "u8 \<Rightarrow> u8 \<Rightarrow> char list \<Rightarrow> string \<Rightarrow> bool option" where
  "sle_match_loop i final data needle =
     (if i \<le> final then
        if take (length needle) (drop (unat i) data) = needle then Some True
        else sle_match_loop (i + 1) final data needle
      else Some False)"

definition car_sle_data_contains :: "char list option \<Rightarrow> u8 \<Rightarrow> string option \<Rightarrow> bool option" where
  "car_sle_data_contains data data_len needle =
     (case (data, needle) of
        (Some d, Some n) \<Rightarrow>
          if length n = 0 \<or> unat data_len < length n then Some False
          else sle_match_loop 0 (of_nat (unat data_len - length n)) d n
      | _ \<Rightarrow> Some False)"

definition seek_param :: sle_seek_param_t where
  "seek_param = \<lparr>own_addr_type = 0, filter_duplicates = 0, seek_filter_policy = 0, seek_phys = 1,
     seek_type0 = 1, seek_interval0 = 100, seek_window0 = 100\<rparr>"

definition car_sle_start_scan :: "'a sle_state_scheme \<Rightarrow> 'a sle_state_scheme" where
  "car_sle_start_scan s =
     (sle_do StartSeek (sle_do (SetSeekParam seek_param) s))\<lparr>g_sle_state := CAR_SLE_STATE_SCANNING\<rparr>"

definition car_sle_enable_cbk :: "u32 \<Rightarrow> 'a sle_state_scheme \<Rightarrow> 'a sle_state_scheme" where
  "car_sle_enable_cbk status s =
     (if status \<noteq> ERRCODE_SUCC then s\<lparr>g_sle_state := CAR_SLE_STATE_ERROR\<rparr> else car_sle_start_scan s)"

definition car_sle_seek_enable_cbk :: "u32 \<Rightarrow> 'a sle_state_scheme \<Rightarrow> 'a sle_state_scheme" where
  "car_sle_seek_enable_cbk status s =
     (if status \<noteq> ERRCODE_SUCC then s\<lparr>g_sle_state := CAR_SLE_STATE_ERROR\<rparr> else s)"

text \<open>A seek result: the advertisement data (possibly null), its length and the sender's address.\<close>

record sle_seek_result_info_t =
  sr_data :: "char list option"
  sr_data_length :: u8
  sr_addr :: sle_addr_t

definition CAR_SLE_TARGET_NAME :: string where
  "CAR_SLE_TARGET_NAME = ''sle_uart_server''"

text \<open>
  The copy of the address cannot fail: source and destination have the same type. A match loop
  that does not return would not reach the rest of the callback.
\<close>

definition car_sle_seek_result_cbk ::
    "sle_seek_result_info_t option \<Rightarrow> 'a sle_state_scheme \<Rightarrow> 'a sle_state_scheme" where
  "car_sle_seek_result_cbk r s =
     (case r of None \<Rightarrow> s
      | Some info \<Rightarrow>
        if sr_data info = None then s
        else if car_sle_data_contains (sr_data info) (sr_data_length info) (Some CAR_SLE_TARGET_NAME)
          \<noteq> Some True then s
        else sle_do StopSeek (s\<lparr>g_sle_remote_addr := sr_addr info\<rparr>))"

definition car_sle_seek_disable_cbk :: "u32 \<Rightarrow> 'a sle_state_scheme \<Rightarrow> 'a sle_state_scheme" where
  "car_sle_seek_disable_cbk status s =
     (if status \<noteq> ERRCODE_SUCC then s\<lparr>g_sle_state := CAR_SLE_STATE_ERROR\<rparr>
      else let s1 = sle_do (RemovePaired (g_sle_remote_addr s)) s
        in sle_do (ConnectRemote (g_sle_remote_addr s1)) s1)"

definition car_sle_seek_cbk_register :: "'a sle_state_scheme \<Rightarrow> 'a sle_state_scheme" where
  "car_sle_seek_cbk_register s = s\<lparr>g_sle_seek_cbk :=
     [Car_sle_enable_cbk, Car_sle_seek_enable_cbk, Car_sle_seek_result_cbk, Car_sle_seek_disable_cbk]\<rparr>"

section \<open>Connection\<close>

definition car_sle_connect_state_cbk ::
    "u16 \<Rightarrow> sle_acb_state_t \<Rightarrow> sle_pair_state_t \<Rightarrow> 'a sle_state_scheme \<Rightarrow> 'a sle_state_scheme" where
  "car_sle_connect_state_cbk conn_id conn_state pair_state s =
     (let s1 = s\<lparr>g_sle_conn_id := conn_id\<rparr>
      in if conn_state = SLE_ACB_STATE_CONNECTED then
           let s2 = s1\<lparr>g_sle_state := CAR_SLE_STATE_CONNECTED\<rparr>
           in if pair_state = SLE_PAIR_NONE then sle_do (PairRemote (g_sle_remote_addr s2)) s2 else s2
         else if conn_state = SLE_ACB_STATE_DISCONNECTED then
           let s2 = s1\<lparr>g_sle_state := CAR_SLE_STATE_SCANNING, g_sle_has_write_handle := 0\<rparr>
           in car_sle_start_scan (sle_do (RemovePaired (g_sle_remote_addr s2)) s2)
         else s1)"

definition car_sle_pair_complete_cbk :: "u16 \<Rightarrow> u32 \<Rightarrow> 'a sle_state_scheme \<Rightarrow> 'a sle_state_scheme" where
  "car_sle_pair_complete_cbk conn_id status s =
     (if status \<noteq> ERRCODE_SUCC then s else sle_do (ExchangeInfoReq (g_sle_conn_id s) 520 1) s)"

definition car_sle_connect_cbk_register :: "'a sle_state_scheme \<Rightarrow> 'a sle_state_scheme" where
  "car_sle_connect_cbk_register s = s\<lparr>g_sle_connect_cbk := [Car_sle_connect_state_cbk, Car_sle_pair_complete_cbk]\<rparr>"

section \<open>Service discovery\<close>

definition car_sle_exchange_info_cbk :: "u16 \<Rightarrow> u32 \<Rightarrow> 'a sle_state_scheme \<Rightarrow> 'a sle_state_scheme" where
  "car_sle_exchange_info_cbk conn_id status s =
     (if status \<noteq> ERRCODE_SUCC then s else sle_do (FindStructure conn_id 1 0xFFFF) s)"

text \<open>\<open>find_structure\<close>, \<open>find_structure_cmp\<close> and \<open>write_cfm\<close> only print.\<close>

definition car_sle_find_structure_cbk :: "u32 \<Rightarrow> 'a sle_state_scheme \<Rightarrow> 'a sle_state_scheme" where
  "car_sle_find_structure_cbk status s = s"

definition car_sle_find_structure_cmp_cbk :: "u32 \<Rightarrow> 'a sle_state_scheme \<Rightarrow> 'a sle_state_scheme" where
  "car_sle_find_structure_cmp_cbk status s = s"

definition car_sle_write_cfm_cbk :: "u32 \<Rightarrow> 'a sle_state_scheme \<Rightarrow> 'a sle_state_scheme" where
  "car_sle_write_cfm_cbk status s = s"

text \<open>The handle of the property that was found, or \<open>None\<close> for a null result.\<close>

definition car_sle_find_property_cbk :: "u16 option \<Rightarrow> u32 \<Rightarrow> 'a sle_state_scheme \<Rightarrow> 'a sle_state_scheme" where
  "car_sle_find_property_cbk property status s =
     (case property of None \<Rightarrow> s
      | Some handle \<Rightarrow>
        if status \<noteq> ERRCODE_SUCC then s
        else s\<lparr>g_sle_send_param := (g_sle_send_param s)\<lparr>wp_handle := handle, wp_type := 0\<rparr>,
               g_sle_has_write_handle := 1\<rparr>)"

section \<open>Control texts\<close>

abbreviation (input) CAR_SLE_TEXT_MAX_LEN :: nat where "CAR_SLE_TEXT_MAX_LEN \<equiv> 180"

definition car_sle_apply_rx_text ::
    "(string \<Rightarrow> u32) \<Rightarrow> char list \<Rightarrow> u16 \<Rightarrow> 'a sle_state_scheme \<Rightarrow> 'a sle_state_scheme" where
  "car_sle_apply_rx_text ov data len s =
     (let copy_len = (if CAR_SLE_TEXT_MAX_LEN \<le> unat len then CAR_SLE_TEXT_MAX_LEN - 1 else unat len);
          text = cstr (take copy_len data)
      in if contains text ''auto_start'' then patrol_route_start s
         else if contains text ''auto_stop'' then patrol_route_stop s
         else if contains text ''forward'' \<or> contains text ''backward'' \<or> contains text ''left'' \<or>
             contains text ''right'' \<or> contains text ''stop'' then
           snd (control_command_apply ov (Some text) (patrol_route_stop s))
         else s)"

text \<open>The value of a notification: the data (possibly null) and its length.\<close>

definition car_sle_notification_cbk ::
    "(string \<Rightarrow> u32) \<Rightarrow> (char list option \<times> u16) option \<Rightarrow> u32 \<Rightarrow> 'a sle_state_scheme \<Rightarrow> 'a sle_state_scheme" where
  "car_sle_notification_cbk ov data status s =
     (if status \<noteq> ERRCODE_SUCC then s
      else case data of
          Some (Some bytes, len) \<Rightarrow> if len = 0 then s else car_sle_apply_rx_text ov bytes len s
        | _ \<Rightarrow> s)"

definition car_sle_indication_cbk ::
    "(string \<Rightarrow> u32) \<Rightarrow> (char list option \<times> u16) option \<Rightarrow> u32 \<Rightarrow> 'a sle_state_scheme \<Rightarrow> 'a sle_state_scheme" where
  "car_sle_indication_cbk ov data status s = car_sle_notification_cbk ov data status s"

definition car_sle_ssapc_cbk_register :: "'a sle_state_scheme \<Rightarrow> 'a sle_state_scheme" where
  "car_sle_ssapc_cbk_register s = s\<lparr>g_sle_ssapc_cbk :=
     [Car_sle_exchange_info_cbk, Car_sle_find_structure_cbk, Car_sle_find_property_cbk,
      Car_sle_find_structure_cmp_cbk, Car_sle_write_cfm_cbk, Car_sle_notification_cbk,
      Car_sle_indication_cbk]\<rparr>"

section \<open>Start and sending\<close>

text \<open>The task up to its idle loop.\<close>

definition car_sle_task :: "'a sle_state_scheme \<Rightarrow> 'a sle_state_scheme" where
  "car_sle_task s =
     (let s1 = s\<lparr>sle_log := sle_log s @ [SleWait 500]\<rparr>;
          s2 = car_sle_ssapc_cbk_register (car_sle_connect_cbk_register (car_sle_seek_cbk_register s1));
          (ret, s3) = sle_call EnableSle s2
      in if ret \<noteq> ERRCODE_SUCC then s3\<lparr>g_sle_state := CAR_SLE_STATE_ERROR\<rparr> else s3)"

text \<open>The result tells whether the task was created (\<open>thread_ok\<close>: \<open>osThreadNew\<close> returned a thread).\<close>

definition car_sle_client_start :: "bool \<Rightarrow> 'a sle_state_scheme \<Rightarrow> (int \<times> bool) \<times> 'a sle_state_scheme" where
  "car_sle_client_start thread_ok s =
     (if g_sle_state s = CAR_SLE_STATE_STARTING \<or> g_sle_state s = CAR_SLE_STATE_SCANNING \<or>
         g_sle_state s = CAR_SLE_STATE_CONNECTED then ((0, False), s)
      else let s1 = s\<lparr>g_sle_state := CAR_SLE_STATE_STARTING\<rparr>
        in if \<not> thread_ok then ((- 1, False), s1\<lparr>g_sle_state := CAR_SLE_STATE_ERROR\<rparr>)
           else ((0, True), s1))"

definition car_sle_client_get_state :: "'a sle_state_scheme \<Rightarrow> car_sle_state_t" where
  "car_sle_client_get_state s = g_sle_state s"

definition car_sle_client_send_text :: "string option \<Rightarrow> 'a sle_state_scheme \<Rightarrow> int \<times> 'a sle_state_scheme" where
  "car_sle_client_send_text text s =
     (case text of None \<Rightarrow> (- 1, s)
      | Some t \<Rightarrow>
        if g_sle_state s \<noteq> CAR_SLE_STATE_CONNECTED \<or> g_sle_has_write_handle s = 0 then (- 1, s)
        else let len = min (length t) CAR_SLE_TEXT_MAX_LEN
          in if len = 0 \<or> CAR_SLE_TEXT_MAX_LEN \<le> len then (- 1, s)
             else let s1 = s\<lparr>g_sle_send_param :=
                        (g_sle_send_param s)\<lparr>wp_data_len := of_nat len, wp_data := t\<rparr>\<rparr>;
                      (ret, s2) = sle_call (WriteCmd (g_sle_conn_id s1) (g_sle_send_param s1)) s1
               in (sint ret, s2))"

section \<open>The stack calling back\<close>

datatype sle_input =
    SleEnabled u32
  | SeekEnabled u32
  | SeekResult "sle_seek_result_info_t option"
  | SeekDisabled u32
  | ConnectState u16 sle_acb_state_t sle_pair_state_t
  | PairComplete u16 u32
  | ExchangeInfo u16 u32
  | StructureFound u32
  | PropertyFound "u16 option" u32
  | DiscoveryDone u32
  | WriteConfirmed u32
  | Notified "(char list option \<times> u16) option" u32
  | Indicated "(char list option \<times> u16) option" u32

fun sle_deliver :: "(string \<Rightarrow> u32) \<Rightarrow> sle_input \<Rightarrow> 'a sle_state_scheme \<Rightarrow> 'a sle_state_scheme" where
  "sle_deliver ov (SleEnabled st) s =
     (if Car_sle_enable_cbk \<in> set (g_sle_seek_cbk s) then car_sle_enable_cbk st s else s)"
| "sle_deliver ov (SeekEnabled st) s =
     (if Car_sle_seek_enable_cbk \<in> set (g_sle_seek_cbk s) then car_sle_seek_enable_cbk st s else s)"
| "sle_deliver ov (SeekResult r) s =
     (if Car_sle_seek_result_cbk \<in> set (g_sle_seek_cbk s) then car_sle_seek_result_cbk r s else s)"
| "sle_deliver ov (SeekDisabled st) s =
     (if Car_sle_seek_disable_cbk \<in> set (g_sle_seek_cbk s) then car_sle_seek_disable_cbk st s else s)"
| "sle_deliver ov (ConnectState c cs ps) s =
     (if Car_sle_connect_state_cbk \<in> set (g_sle_connect_cbk s) then car_sle_connect_state_cbk c cs ps s else s)"
| "sle_deliver ov (PairComplete c st) s =
     (if Car_sle_pair_complete_cbk \<in> set (g_sle_connect_cbk s) then car_sle_pair_complete_cbk c st s else s)"
| "sle_deliver ov (ExchangeInfo c st) s =
     (if Car_sle_exchange_info_cbk \<in> set (g_sle_ssapc_cbk s) then car_sle_exchange_info_cbk c st s else s)"
| "sle_deliver ov (StructureFound st) s =
     (if Car_sle_find_structure_cbk \<in> set (g_sle_ssapc_cbk s) then car_sle_find_structure_cbk st s else s)"
| "sle_deliver ov (PropertyFound p st) s =
     (if Car_sle_find_property_cbk \<in> set (g_sle_ssapc_cbk s) then car_sle_find_property_cbk p st s else s)"
| "sle_deliver ov (DiscoveryDone st) s =
     (if Car_sle_find_structure_cmp_cbk \<in> set (g_sle_ssapc_cbk s) then car_sle_find_structure_cmp_cbk st s else s)"
| "sle_deliver ov (WriteConfirmed st) s =
     (if Car_sle_write_cfm_cbk \<in> set (g_sle_ssapc_cbk s) then car_sle_write_cfm_cbk st s else s)"
| "sle_deliver ov (Notified d st) s =
     (if Car_sle_notification_cbk \<in> set (g_sle_ssapc_cbk s) then car_sle_notification_cbk ov d st s else s)"
| "sle_deliver ov (Indicated d st) s =
     (if Car_sle_indication_cbk \<in> set (g_sle_ssapc_cbk s) then car_sle_indication_cbk ov d st s else s)"

section \<open>The scan of an advertisement\<close>

lemma sle_match_loop_eq:
  assumes "unat final < 255"
  shows "sle_match_loop i final data n =
    Some (\<exists>k \<ge> unat i. k \<le> unat final \<and> take (length n) (drop k data) = n)"
proof (induction "Suc (unat final) - unat i" arbitrary: i)
  case 0
  then have "\<not> i \<le> final" by (simp add: word_le_nat_alt)
  then show ?case by (subst sle_match_loop.simps) (auto simp: word_le_nat_alt)
next
  case (Suc d)
  have le: "unat i \<le> unat final" using Suc.hyps(2) by simp
  then have inc: "unat (i + 1) = Suc (unat i)" using assms by (simp add: unat_word_ariths)
  show ?case
  proof (cases "take (length n) (drop (unat i) data) = n")
    case True
    then have "\<exists>k \<ge> unat i. k \<le> unat final \<and> take (length n) (drop k data) = n" using le by blast
    with True le show ?thesis by (subst sle_match_loop.simps) (simp add: word_le_nat_alt)
  next
    case False
    have "sle_match_loop (i + 1) final data n =
        Some (\<exists>k \<ge> Suc (unat i). k \<le> unat final \<and> take (length n) (drop k data) = n)"
      using Suc.hyps inc by simp
    moreover have "(\<exists>k \<ge> Suc (unat i). k \<le> unat final \<and> take (length n) (drop k data) = n) =
        (\<exists>k \<ge> unat i. k \<le> unat final \<and> take (length n) (drop k data) = n)"
      using False by (metis Suc_le_eq le_neq_implies_less le_less)
    ultimately show ?thesis using False le
      by (subst sle_match_loop.simps) (simp add: word_le_nat_alt)
  qed
qed

lemma sublist_at: "sublist n d \<longleftrightarrow> (\<exists>k. k + length n \<le> length d \<and> take (length n) (drop k d) = n)"
proof
  assume "sublist n d"
  then obtain p q where "d = p @ n @ q" by (auto simp: sublist_def)
  then show "\<exists>k. k + length n \<le> length d \<and> take (length n) (drop k d) = n"
    by (intro exI [of _ "length p"]) simp
next
  assume "\<exists>k. k + length n \<le> length d \<and> take (length n) (drop k d) = n"
  then obtain k where "take (length n) (drop k d) = n" by blast
  then have "d = take k d @ n @ drop (length n) (drop k d)" by (metis append_take_drop_id)
  then show "sublist n d" by (metis sublist_appendI)
qed

lemma data_contains_sublist:
  assumes "length d = unat data_len"
  shows "car_sle_data_contains (Some d) data_len (Some n) = Some (n \<noteq> [] \<and> sublist n d)"
proof (cases "length n = 0 \<or> unat data_len < length n")
  case True
  then show ?thesis using assms sublist_length_le [of n d]
    by (auto simp: car_sle_data_contains_def)
next
  case False
  let ?m = "unat data_len - length n"
  have "unat (of_nat k :: u8) = k" if "k < 256" for k using that by (simp add: unat_of_nat)
  moreover have "?m < 255" using False unat_u8_less [of data_len] by arith
  ultimately have m: "unat (of_nat ?m :: u8) = ?m" "?m < 255" by simp_all
  have "(\<exists>k \<le> ?m. take (length n) (drop k d) = n) \<longleftrightarrow> sublist n d"
    using False assms by (auto simp: sublist_at le_diff_conv2)
  then show ?thesis
    using False m sle_match_loop_eq [of "of_nat ?m" 0 d n]
    by (simp add: car_sle_data_contains_def del: of_nat_diff)
qed

text \<open>The byte-counter scan of an advertisement always returns, for data of any length up to 255,
  and says whether the (non-empty) name occurs anywhere in the data.\<close>

theorem sle_scan_finds_name:
  assumes "length d = unat data_len"
  shows "car_sle_data_contains (Some d) data_len (Some n) = Some (n \<noteq> [] \<and> sublist n d)"
  using assms by (rule data_contains_sublist)

lemma sle_scan_finds_name_witness:
  "car_sle_data_contains (Some (''xx'' @ CAR_SLE_TARGET_NAME)) 17 (Some CAR_SLE_TARGET_NAME) = Some True"
proof -
  have "sublist CAR_SLE_TARGET_NAME (''xx'' @ CAR_SLE_TARGET_NAME)"
    using sublist_appendI [of CAR_SLE_TARGET_NAME "''xx''" "[]"] by simp
  then show ?thesis
    using sle_scan_finds_name [of "''xx'' @ CAR_SLE_TARGET_NAME" 17 CAR_SLE_TARGET_NAME]
    by (simp add: CAR_SLE_TARGET_NAME_def)
qed

section \<open>What the callbacks leave alone\<close>

lemma motor_only_sle:
  fixes s :: "'a sle_state_scheme"
  assumes "motor_only s s'"
  shows "g_sle_state s' = g_sle_state s" "g_sle_has_write_handle s' = g_sle_has_write_handle s"
    "g_sle_connect_cbk s' = g_sle_connect_cbk s" "g_sle_ssapc_cbk s' = g_sle_ssapc_cbk s"
    "sle_log s' = sle_log s"
  using assms by (cases s; cases s'; auto simp: motor_only_def)+

lemma sle_do_fields [simp]:
  "g_sle_state (sle_do ev s) = g_sle_state s" "g_sle_has_write_handle (sle_do ev s) = g_sle_has_write_handle s"
  by (simp_all add: sle_do_def sle_call_def)

lemma patrol_start_sle:
  fixes s :: "'a sle_state_scheme"
  shows "g_sle_state (patrol_route_start s) = g_sle_state s"
    "g_sle_has_write_handle (patrol_route_start s) = g_sle_has_write_handle s"
    "g_sle_state (patrol_route_stop s) = g_sle_state s"
    "g_sle_has_write_handle (patrol_route_stop s) = g_sle_has_write_handle s"
  using motor_only_sle [OF patrol_stop_effect [of s]] by (simp_all add: patrol_route_start_def)

lemma rx_text_sle:
  "g_sle_state (car_sle_apply_rx_text ov data len s) = g_sle_state s"
  "g_sle_has_write_handle (car_sle_apply_rx_text ov data len s) = g_sle_has_write_handle s"
  using motor_only_sle [OF control_apply_frame [OF surjective_pairing], of ov _ "patrol_route_stop s"]
  by (auto simp: car_sle_apply_rx_text_def Let_def patrol_start_sle)

lemma notification_sle:
  "g_sle_state (car_sle_notification_cbk ov data st s) = g_sle_state s"
  "g_sle_has_write_handle (car_sle_notification_cbk ov data st s) = g_sle_has_write_handle s"
  by (auto simp: car_sle_notification_cbk_def rx_text_sle split: option.splits)

lemmas sle_cbk_defs = car_sle_enable_cbk_def car_sle_seek_enable_cbk_def car_sle_seek_result_cbk_def
  car_sle_seek_disable_cbk_def car_sle_connect_state_cbk_def car_sle_pair_complete_cbk_def
  car_sle_exchange_info_cbk_def car_sle_find_structure_cbk_def car_sle_find_property_cbk_def
  car_sle_find_structure_cmp_cbk_def car_sle_write_cfm_cbk_def car_sle_indication_cbk_def
  car_sle_start_scan_def Let_def

lemma deliver_not_connected:
  assumes "g_sle_state s \<noteq> CAR_SLE_STATE_CONNECTED" and "\<forall>c ps. i \<noteq> ConnectState c SLE_ACB_STATE_CONNECTED ps"
  shows "g_sle_state (sle_deliver ov i s) \<noteq> CAR_SLE_STATE_CONNECTED"
  using assms
  by (cases i) (auto simp: sle_cbk_defs notification_sle split: option.splits sle_acb_state_t.splits)

lemma deliver_no_handle:
  assumes "g_sle_has_write_handle s = 0" and "\<forall>h. i \<noteq> PropertyFound (Some h) 0"
  shows "g_sle_has_write_handle (sle_deliver ov i s) = 0"
  using assms
  by (cases i) (auto simp: sle_cbk_defs notification_sle split: option.splits)

lemma fold_not_connected:
  "g_sle_state s \<noteq> CAR_SLE_STATE_CONNECTED \<Longrightarrow> \<forall>c ps. ConnectState c SLE_ACB_STATE_CONNECTED ps \<notin> set is \<Longrightarrow>
     g_sle_state (fold (sle_deliver ov) is s) \<noteq> CAR_SLE_STATE_CONNECTED"
proof (induction "is" arbitrary: s)
  case (Cons i "is")
  then have "g_sle_state (sle_deliver ov i s) \<noteq> CAR_SLE_STATE_CONNECTED"
    by (intro deliver_not_connected) auto
  then show ?case using Cons by simp
qed simp

lemma fold_no_handle:
  "g_sle_has_write_handle s = 0 \<Longrightarrow> \<forall>h. PropertyFound (Some h) 0 \<notin> set is \<Longrightarrow>
     g_sle_has_write_handle (fold (sle_deliver ov) is s) = 0"
proof (induction "is" arbitrary: s)
  case (Cons i "is")
  then have "g_sle_has_write_handle (sle_deliver ov i s) = 0"
    by (intro deliver_no_handle) auto
  then show ?case using Cons by simp
qed simp

text \<open>C15: After a disconnection the client sends no text until it has both a new connection and a
  newly discovered property, whatever else the stack reports in between.\<close>

theorem sle_silent_after_disconnect:
  assumes "Car_sle_connect_state_cbk \<in> set (g_sle_connect_cbk s)"
    and "s' = fold (sle_deliver ov) is (sle_deliver ov (ConnectState c SLE_ACB_STATE_DISCONNECTED ps) s)"
    and "(\<forall>c ps. ConnectState c SLE_ACB_STATE_CONNECTED ps \<notin> set is) \<or> (\<forall>h. PropertyFound (Some h) 0 \<notin> set is)"
  shows "car_sle_client_send_text text s' = (- 1, s')"
proof -
  let ?s0 = "sle_deliver ov (ConnectState c SLE_ACB_STATE_DISCONNECTED ps) s"
  have s0: "g_sle_state ?s0 = CAR_SLE_STATE_SCANNING" "g_sle_has_write_handle ?s0 = 0"
    using assms(1) by (simp_all add: sle_cbk_defs)
  show ?thesis
    using assms(3) fold_not_connected [of ?s0 "is" ov] fold_no_handle [of ?s0 "is" ov] s0
    by (auto simp: car_sle_client_send_text_def assms(2) simp del: sle_deliver.simps split: option.splits)
qed

text \<open>The statics of sle_client.c at boot; every call into the stack succeeds.\<close>

definition sle_boot :: "wifi_state \<Rightarrow> sle_state" where
  "sle_boot w = wifi_state.extend w
     \<lparr>g_sle_state = CAR_SLE_STATE_IDLE, g_sle_seek_cbk = [], g_sle_connect_cbk = [], g_sle_ssapc_cbk = [],
      g_sle_remote_addr = \<lparr>addr_type = 0, addr_bytes = replicate 6 0\<rparr>,
      g_sle_send_param = \<lparr>wp_handle = 0, wp_type = 0, wp_data_len = 0, wp_data = []\<rparr>,
      g_sle_conn_id = 0, g_sle_has_write_handle = 0, sle_ans = (\<lambda>_. 0), sle_n = 0, sle_log = []\<rparr>"

lemma sle_silent_after_disconnect_witness:
  "let s = car_sle_connect_cbk_register (sle_boot (wifi_boot (patrol_boot (motor_boot quiet_bus))));
       s' = fold (sle_deliver (\<lambda>_. 0)) [PropertyFound (Some 7) 0]
         (sle_deliver (\<lambda>_. 0) (ConnectState 1 SLE_ACB_STATE_DISCONNECTED SLE_PAIR_NONE) s)
   in fst (car_sle_client_send_text (Some ''{}'') s') = - 1"
  unfolding Let_def
  by (subst sle_silent_after_disconnect [OF _ refl])
    (simp_all add: car_sle_connect_cbk_register_def)

section \<open>Sending\<close>

lemma send_text_eq:
  "car_sle_client_send_text (Some t) s =
     (if g_sle_state s = CAR_SLE_STATE_CONNECTED \<and> g_sle_has_write_handle s \<noteq> 0 \<and> 0 < length t \<and> length t < 180
      then let p = (g_sle_send_param s)\<lparr>wp_data_len := of_nat (length t), wp_data := t\<rparr>
        in (sint (sle_ans s (sle_n s)), s\<lparr>g_sle_send_param := p, sle_n := Suc (sle_n s),
             sle_log := sle_log s @ [WriteCmd (g_sle_conn_id s) p]\<rparr>)
      else (- 1, s))"
  by (auto simp: car_sle_client_send_text_def sle_call_def Let_def)

section \<open>Both control paths do the same\<close>

lemma length_control_json:
  assumes "speed < 2 ^ 32" and "dur < 2 ^ 32"
  shows "0 < length (control_json m speed dur)" "length (control_json m speed dur) < 100"
  using length_fmt_u [of speed 10] length_fmt_u [of dur 10] assms
  by (cases m; simp add: control_json_def)+

lemma control_json_no_nul: "CHR 0x00 \<notin> set (control_json m speed dur)"
  by (cases m) (simp_all add: control_json_def not_in_fmt_u is_digit_def)

lemma rx_control_json:
  assumes "speed < 2 ^ 32" and "dur < 2 ^ 32" and "t = control_json m speed dur"
  shows "car_sle_apply_rx_text ov t (of_nat (length t)) s =
    snd (control_command_apply ov (Some t) (patrol_route_stop s))"
proof -
  have len: "length t < 100" using length_control_json [OF assms(1,2)] assms(3) by simp
  then have "unat (of_nat (length t) :: u16) = length t" by (simp add: unat_of_nat)
  moreover have "cstr (take (length t) t) = t"
    using control_json_no_nul [of m speed dur] by (simp add: assms(3) cstr_def takeWhile_eq_all_conv) blast
  moreover have "\<not> contains t ''auto_start''" "\<not> contains t ''auto_stop''"
    by (cases m; simp add: assms(3) contains_def control_json_def strstr_skip_fmt_u is_digit_def)+
  moreover have "contains t ''forward'' \<or> contains t ''backward'' \<or> contains t ''left'' \<or>
      contains t ''right'' \<or> contains t ''stop''"
    by (cases m) (simp_all add: assms(3) contains_def control_json_def)
  ultimately show ?thesis using len by (simp add: car_sle_apply_rx_text_def Let_def)
qed

text \<open>C11: The two remote-control paths agree: a documented command received as an SLE notification
  leaves the bus, the motor and the patrol in the same state as the same command posted over HTTP.\<close>

theorem control_paths_agree:
  assumes "speed < 2 ^ 32" and "dur < 2 ^ 32" and "t = control_json m speed dur"
    and "starts_with r ''POST /api/control''" and "strstr r (crlf @ crlf) = Some (crlf @ crlf @ t)"
  shows "patrol_state.truncate (car_sle_notification_cbk ov (Some (Some t, of_nat (length t))) 0 s) =
    patrol_state.truncate (car_wifi_http_handle_request ov (Some r) s)"
proof -
  obtain ret s1 where c: "car_motor_manual_command (Some \<lparr>cmd_motion = m, speed_percent = of_nat (min 100 speed),
       duration_ms = of_nat (min 3000 dur)\<rparr>) (patrol_route_stop s) = (ret, s1)" by fastforce
  have "snd (control_command_apply ov (Some t) (patrol_route_stop s)) = s1"
    using c by (simp add: control_command_apply_def assms(3) control_json_roundtrip_eq [OF assms(1,2)])
  moreover have "(of_nat (length t) :: u16) \<noteq> 0"
    using length_control_json [OF assms(1,2), of m] assms(3) by (simp add: word_unat_eq_iff unat_of_nat)
  ultimately have "car_sle_notification_cbk ov (Some (Some t, of_nat (length t))) 0 s = s1"
    by (simp add: car_sle_notification_cbk_def rx_control_json [OF assms(1-3)])
  moreover have "patrol_state.truncate (car_wifi_http_handle_request ov (Some r) s) = patrol_state.truncate s1"
    using http_control_request_eq [OF assms(4) assms(5) [unfolded assms(3)] assms(1,2) c]
    by (simp add: patrol_state.defs)
  ultimately show ?thesis by simp
qed

lemma control_paths_agree_witness:
  "let s = sle_boot (wifi_boot (patrol_boot (motor_boot quiet_bus))); t = control_json CAR_MOTION_RIGHT 35 600
   in patrol_state.truncate (car_sle_notification_cbk (\<lambda>_. 0) (Some (Some t, of_nat (length t))) 0 s) =
      patrol_state.truncate (car_wifi_http_handle_request (\<lambda>_. 0)
        (Some (''POST /api/control'' @ crlf @ crlf @ t)) s)"
  unfolding Let_def
  by (rule control_paths_agree [OF _ _ refl]) (simp_all add: starts_with_def crlf_def)

section \<open>The callbacks keep the invariants of the car\<close>

lemma wifi_inv_sle:
  fixes s s' :: "'a wifi_state_scheme"
  assumes "car_wifi_inv s" and "wifi_state.truncate s' = wifi_state.truncate s"
  shows "car_wifi_inv s'"
proof -
  have "motor_state.truncate s' = motor_state.truncate s" "patrol_state.truncate s' = patrol_state.truncate s"
    "g_last_json s' = g_last_json s" "i2c_log s' = i2c_log s"
    using assms(2) by (simp_all add: wifi_state.defs motor_state.defs patrol_state.defs)
  then show ?thesis by (intro car_wifi_inv_view [OF assms(1)])
qed

lemma sle_fields_inv:
  "car_wifi_inv s \<Longrightarrow> car_wifi_inv (sle_do ev s)"
  "car_wifi_inv s \<Longrightarrow> car_wifi_inv (s\<lparr>g_sle_state := st\<rparr>)"
  "car_wifi_inv s \<Longrightarrow> car_wifi_inv (s\<lparr>g_sle_conn_id := c\<rparr>)"
  "car_wifi_inv s \<Longrightarrow> car_wifi_inv (s\<lparr>g_sle_remote_addr := a\<rparr>)"
  "car_wifi_inv s \<Longrightarrow> car_wifi_inv (s\<lparr>g_sle_has_write_handle := w\<rparr>)"
  "car_wifi_inv s \<Longrightarrow> car_wifi_inv (s\<lparr>g_sle_send_param := p\<rparr>)"
  "car_wifi_inv s \<Longrightarrow> car_wifi_inv (s\<lparr>sle_log := l\<rparr>)"
  "car_wifi_inv s \<Longrightarrow> car_wifi_inv (s\<lparr>sle_n := n\<rparr>)"
  "car_wifi_inv s \<Longrightarrow> car_wifi_inv (s\<lparr>g_sle_seek_cbk := k\<rparr>)"
  "car_wifi_inv s \<Longrightarrow> car_wifi_inv (s\<lparr>g_sle_connect_cbk := k\<rparr>)"
  "car_wifi_inv s \<Longrightarrow> car_wifi_inv (s\<lparr>g_sle_ssapc_cbk := k\<rparr>)"
  by (erule wifi_inv_sle; simp add: sle_do_def sle_call_def wifi_state.defs)+

lemma notification_inv: "car_wifi_inv s \<Longrightarrow> car_wifi_inv (car_sle_notification_cbk ov d st s)"
  by (auto simp: car_sle_notification_cbk_def car_sle_apply_rx_text_def Let_def patrol_ops_inv
    control_apply_inv split: option.splits)

lemma deliver_inv: "car_wifi_inv s \<Longrightarrow> car_wifi_inv (sle_deliver ov i s)"
  by (cases i) (auto simp: sle_cbk_defs notification_inv sle_fields_inv split: option.splits)

lemma sle_task_inv: "car_wifi_inv s \<Longrightarrow> car_wifi_inv (car_sle_task s)"
  by (simp add: car_sle_task_def sle_call_def Let_def car_sle_seek_cbk_register_def
    car_sle_connect_cbk_register_def car_sle_ssapc_cbk_register_def sle_fields_inv)

lemma sle_start_inv: "car_wifi_inv s \<Longrightarrow> car_wifi_inv (snd (car_sle_client_start ok s))"
  by (simp add: car_sle_client_start_def Let_def sle_fields_inv)

lemma send_text_inv: "car_wifi_inv s \<Longrightarrow> car_wifi_inv (snd (car_sle_client_send_text t s))"
  by (cases t) (simp_all add: send_text_eq Let_def sle_fields_inv car_sle_client_send_text_def [of None])

end
