(* ===== verification/Telemetry.thy ===== *)
theory Telemetry
  imports SleClient
begin

text \<open>
  The telemetry object of the car (comm/telemetry.c): its JSON text and its publication to the
  SLE link and to the HTTP mailbox. The lemmas show that the text fits its buffer for every
  sample the firmware can hold, that its fields read back, and that both receivers get it.
\<close>

section \<open>comm/telemetry.c\<close>

abbreviation (input) TELEMETRY_JSON_MIN_LEN :: nat where "TELEMETRY_JSON_MIN_LEN \<equiv> 160"

definition telemetry_text :: "env_data_t \<Rightarrow> string" where
  "telemetry_text d =
     ''{\"seq\":'' @ fmt_u (unat (sample_seq d)) @ '',\"temp_x10\":'' @ fmt_d (temperature_c_x10 d) @
     '',\"humi_x10\":'' @ fmt_u (unat (humidity_rh_x10 d)) @
     '',\"light_x10\":'' @ fmt_u (unat (light_lux_x10 d)) @
     '',\"temp_alert\":'' @ fmt_u (unat (temp_alert d)) @
     '',\"humi_alert\":'' @ fmt_u (unat (humi_alert d)) @
     '',\"light_alert\":'' @ fmt_u (unat (light_alert d)) @
     '',\"motion\":'' @ fmt_u (motion_code (motion d)) @
     '',\"patrol\":'' @ fmt_u (unat (patrol_enabled d)) @
     '',\"err\":'' @ fmt_d (last_error d) @ ''}''"

text \<open>
  The return value and the text left in the buffer, which \<open>snprintf\<close> cuts to \<open>len - 1\<close> characters
  (nothing is written when an argument is rejected).
\<close>

definition telemetry_format_json :: "env_data_t option \<Rightarrow> bool \<Rightarrow> nat \<Rightarrow> int \<times> string" where
  "telemetry_format_json data buf_ok len =
     (case data of None \<Rightarrow> (- 1, '''')
      | Some d \<Rightarrow>
        if \<not> buf_ok \<or> len < TELEMETRY_JSON_MIN_LEN then (- 1, '''')
        else let t = telemetry_text d; written = int (length t)
          in if int len \<le> written then (- 1, take (len - 1) t) else (written, t))"

definition telemetry_publish_network :: "string \<Rightarrow> 'a sle_state_scheme \<Rightarrow> int \<times> 'a sle_state_scheme" where
  "telemetry_publish_network json s =
     car_wifi_ap_publish_json (Some json) (snd (car_sle_client_send_text (Some json) s))"

definition telemetry_publish :: "env_data_t option \<Rightarrow> 'a sle_state_scheme \<Rightarrow> int \<times> 'a sle_state_scheme" where
  "telemetry_publish data s =
     (let (ret, json) = telemetry_format_json data True TELEMETRY_JSON_MIN_LEN
      in if ret < 0 then (ret, s) else (0, snd (telemetry_publish_network json s)))"

section \<open>The text fits\<close>

lemma length_fmt_flag: "f \<le> 1 \<Longrightarrow> length (fmt_u (unat (f :: u8))) \<le> 1"
  by (rule length_fmt_u) (simp_all add: word_le_nat_alt)

lemma telemetry_text_length:
  assumes "env_ok d"
  shows "length (telemetry_text d) < TELEMETRY_JSON_MIN_LEN"
proof -
  have "length (fmt_u (unat (sample_seq d))) \<le> 10"
    using unat_u32_less [of "sample_seq d"] by (intro length_fmt_u) simp_all
  moreover have "length (fmt_d (temperature_c_x10 d)) \<le> 5"
    using assms length_fmt_d [of 4 "temperature_c_x10 d"] by (simp add: env_ok_def)
  moreover have "length (fmt_u (unat (humidity_rh_x10 d))) \<le> 3" "length (fmt_u (unat (light_lux_x10 d))) \<le> 6"
    using assms by (intro length_fmt_u; simp add: env_ok_def)+
  moreover have "length (fmt_u (motion_code (motion d))) \<le> 1"
    by (rule length_fmt_u) (cases "motion d"; simp)+
  moreover have "length (fmt_d (last_error d)) \<le> 11"
    using assms length_fmt_d [of 10 "last_error d"] by (simp add: env_ok_def)
  moreover have "length (fmt_u (unat (temp_alert d))) \<le> 1" "length (fmt_u (unat (humi_alert d))) \<le> 1"
    "length (fmt_u (unat (light_alert d))) \<le> 1" "length (fmt_u (unat (patrol_enabled d))) \<le> 1"
    by (rule length_fmt_flag, use assms in \<open>simp add: env_ok_def\<close>)+
  ultimately show ?thesis by (simp add: telemetry_text_def)
qed

lemma telemetry_text_no_nul: "CHR 0x00 \<notin> set (telemetry_text d)"
  by (simp add: telemetry_text_def not_in_fmt_u not_in_fmt_d is_digit_def)

lemma format_ok:
  "env_ok d \<Longrightarrow> telemetry_format_json (Some d) True 160 = (int (length (telemetry_text d)), telemetry_text d)"
  using telemetry_text_length [of d] by (simp add: telemetry_format_json_def Let_def)

lemma skip_fmt_d: "n \<noteq> [] \<Longrightarrow> \<not> is_digit (hd n) \<Longrightarrow> hd n \<noteq> CHR ''-'' \<Longrightarrow> strstr (fmt_d k @ s) n = strstr s n"
  by (intro strstr_skip) (auto simp: not_in_fmt_d)

text \<open>\<open>%u\<close> reads a number with a minus sign as its two's complement.\<close>

lemma scan_u_fmt_d:
  assumes "- (2 ^ 31) \<le> i" and "i < 2 ^ 31" and "rest = [] \<or> \<not> is_digit (hd rest)"
  shows "scan_u ov (fmt_d i @ rest) = Some (word_of_int i)"
proof (cases "i < 0")
  case True
  have ds: "fmt_u (nat (- i)) \<noteq> []" "\<forall>c \<in> set (fmt_u (nat (- i))). is_digit c"
    "digits_value (fmt_u (nat (- i))) = nat (- i)" using fmt_u_digits by auto
  have "takeWhile is_digit rest = []" using assms(3) by (cases rest) auto
  then have "takeWhile is_digit (fmt_u (nat (- i)) @ rest) = fmt_u (nat (- i))"
    using ds(2) by (simp add: takeWhile_all)
  moreover have "- (of_nat (nat (- i)) :: u32) = word_of_int i"
    using True by (simp add: of_nat_nat [OF less_imp_le])
  moreover have "nat (- i) < 2 ^ 32" using assms(1) by simp
  ultimately show ?thesis using True ds by (simp add: scan_u_def fmt_d_def is_space_def Let_def)
next
  case False
  then have "nat i < 2 ^ 32" using assms(2) by simp
  then show ?thesis
    using False scan_u_fmt_u [of "nat i" rest ov] assms(3) by (simp add: fmt_d_def)
qed

lemma sint_small: "- (2 ^ 31) \<le> i \<Longrightarrow> i < 2 ^ 31 \<Longrightarrow> sint (word_of_int i :: u32) = i"
  by (simp add: sint_sbintrunc' signed_take_bit_int_eq_self)

lemmas read_field = parse_uint_field_def telemetry_text_def strstr_skip_fmt_u skip_fmt_d is_digit_def

lemma text_fields:
  assumes "env_ok d"
  shows "parse_uint_field ov (telemetry_text d) ''\"seq\"'' = Some (sample_seq d)"
    "parse_uint_field ov (telemetry_text d) ''\"humi_x10\"'' = Some (humidity_rh_x10 d)"
    "parse_uint_field ov (telemetry_text d) ''\"light_x10\"'' = Some (light_lux_x10 d)"
    "parse_uint_field ov (telemetry_text d) ''\"temp_alert\"'' = Some (ucast (temp_alert d))"
    "parse_uint_field ov (telemetry_text d) ''\"humi_alert\"'' = Some (ucast (humi_alert d))"
    "parse_uint_field ov (telemetry_text d) ''\"light_alert\"'' = Some (ucast (light_alert d))"
    "parse_uint_field ov (telemetry_text d) ''\"motion\"'' = Some (of_nat (motion_code (motion d)))"
    "parse_uint_field ov (telemetry_text d) ''\"patrol\"'' = Some (ucast (patrol_enabled d))"
    "parse_uint_field ov (telemetry_text d) ''\"temp_x10\"'' = Some (word_of_int (temperature_c_x10 d))"
    "parse_uint_field ov (telemetry_text d) ''\"err\"'' = Some (word_of_int (last_error d))"
proof -
  have scan: "scan_u ov (fmt_u (unat w) @ CHR '','' # rest) = Some w" for w :: u32 and rest
    using scan_u_fmt_u [of "unat w" "CHR '','' # rest" ov] unat_u32_less [of w] by (simp add: is_digit_def)
  have scan8: "scan_u ov (fmt_u (unat w) @ CHR '','' # rest) = Some (ucast w)" for w :: u8 and rest
    using scan [of "ucast w" rest] by (simp add: unat_ucast_u8_u32)
  have scanm: "scan_u ov (fmt_u (motion_code m) @ CHR '','' # rest) = Some (of_nat (motion_code m))" for m rest
    by (rule scan_u_fmt_u) (cases m; simp add: is_digit_def)+
  have scant: "scan_u ov (fmt_d (temperature_c_x10 d) @ CHR '','' # rest) = Some (word_of_int (temperature_c_x10 d))" for rest
    using assms by (intro scan_u_fmt_d) (simp_all add: env_ok_def is_digit_def)
  have scane: "scan_u ov (fmt_d (last_error d) @ ''}'') = Some (word_of_int (last_error d))"
    using assms by (intro scan_u_fmt_d) (simp_all add: env_ok_def is_digit_def)
  show "parse_uint_field ov (telemetry_text d) ''\"seq\"'' = Some (sample_seq d)"
    "parse_uint_field ov (telemetry_text d) ''\"humi_x10\"'' = Some (humidity_rh_x10 d)"
    "parse_uint_field ov (telemetry_text d) ''\"light_x10\"'' = Some (light_lux_x10 d)"
    "parse_uint_field ov (telemetry_text d) ''\"temp_alert\"'' = Some (ucast (temp_alert d))"
    "parse_uint_field ov (telemetry_text d) ''\"humi_alert\"'' = Some (ucast (humi_alert d))"
    "parse_uint_field ov (telemetry_text d) ''\"light_alert\"'' = Some (ucast (light_alert d))"
    "parse_uint_field ov (telemetry_text d) ''\"motion\"'' = Some (of_nat (motion_code (motion d)))"
    "parse_uint_field ov (telemetry_text d) ''\"patrol\"'' = Some (ucast (patrol_enabled d))"
    "parse_uint_field ov (telemetry_text d) ''\"temp_x10\"'' = Some (word_of_int (temperature_c_x10 d))"
    "parse_uint_field ov (telemetry_text d) ''\"err\"'' = Some (word_of_int (last_error d))"
    by (simp_all add: read_field scan scan8 scanm scant scane)
qed

section \<open>Publication\<close>

text \<open>C13: Every sample the firmware can hold becomes a JSON text that fits the 160-byte buffer and the
  mailbox, and from which each of the ten fields reads back as the value of the sample: the counter,
  the three measurements, the three alerts, the motion, the patrol state and the error. The
  reader is the firmware's own field parser; the temperature and the error, which may be negative, are read as
  two's complement.\<close>

theorem telemetry_reads_back:
  assumes "env_ok d" and "telemetry_format_json (Some d) True 160 = (ret, json)"
  shows "ret = int (length json) \<and> length json < 160 \<and>
    parse_uint_field ov json ''\"seq\"'' = Some (sample_seq d) \<and>
    map_option sint (parse_uint_field ov json ''\"temp_x10\"'') = Some (temperature_c_x10 d) \<and>
    parse_uint_field ov json ''\"humi_x10\"'' = Some (humidity_rh_x10 d) \<and>
    parse_uint_field ov json ''\"light_x10\"'' = Some (light_lux_x10 d) \<and>
    parse_uint_field ov json ''\"temp_alert\"'' = Some (ucast (temp_alert d)) \<and>
    parse_uint_field ov json ''\"humi_alert\"'' = Some (ucast (humi_alert d)) \<and>
    parse_uint_field ov json ''\"light_alert\"'' = Some (ucast (light_alert d)) \<and>
    parse_uint_field ov json ''\"motion\"'' = Some (of_nat (motion_code (motion d))) \<and>
    parse_uint_field ov json ''\"patrol\"'' = Some (ucast (patrol_enabled d)) \<and>
    map_option sint (parse_uint_field ov json ''\"err\"'') = Some (last_error d)"
proof -
  have json: "json = telemetry_text d" "ret = int (length json)" "length json < 160"
    using assms telemetry_text_length [OF assms(1)] by (auto simp: format_ok)
  have small: "sint (word_of_int (temperature_c_x10 d) :: u32) = temperature_c_x10 d"
    "sint (word_of_int (last_error d) :: u32) = last_error d"
    using assms(1) by (intro sint_small; simp add: env_ok_def)+
  show ?thesis unfolding json(1) text_fields [OF assms(1)] using json small by simp
qed

lemma telemetry_reads_back_witness:
  "let d = env_data_reset\<lparr>sample_seq := 8, temperature_c_x10 := - 12, humidity_rh_x10 := 630, light_alert := 1, last_error := - 3\<rparr>;
       json = snd (telemetry_format_json (Some d) True 160)
   in parse_uint_field (\<lambda>_. 0) json ''\"humi_x10\"'' = Some 630 \<and>
      map_option sint (parse_uint_field (\<lambda>_. 0) json ''\"temp_x10\"'') = Some (- 12) \<and>
      parse_uint_field (\<lambda>_. 0) json ''\"light_alert\"'' = Some 1 \<and>
      map_option sint (parse_uint_field (\<lambda>_. 0) json ''\"err\"'') = Some (- 3)"
proof -
  let ?d = "env_data_reset\<lparr>sample_seq := 8, temperature_c_x10 := - 12, humidity_rh_x10 := 630, light_alert := 1, last_error := - 3\<rparr>"
  have "env_ok ?d" by (simp add: env_ok_def env_data_reset_def)
  then show ?thesis
    using telemetry_reads_back [of ?d "fst (telemetry_format_json (Some ?d) True 160)"
        "snd (telemetry_format_json (Some ?d) True 160)" "\<lambda>_. 0"] by simp
qed

lemma text_fits_mailbox: "env_ok d \<Longrightarrow> json_fits (telemetry_text d)"
  using telemetry_text_length [of d] by (simp add: json_fits_def telemetry_text_no_nul)

lemma publish_inv_sle:
  fixes s :: "'a sle_state_scheme"
  assumes "car_wifi_inv s" and "json_fits j"
  shows "car_wifi_inv (snd (telemetry_publish_network j s))"
  unfolding telemetry_publish_network_def by (rule publish_inv [OF send_text_inv [OF assms(1)] assms(2)])

lemma telemetry_publish_inv:
  fixes s :: "'a sle_state_scheme"
  shows "env_ok d \<Longrightarrow> car_wifi_inv s \<Longrightarrow> car_wifi_inv (snd (telemetry_publish (Some d) s))"
  by (simp add: telemetry_publish_def format_ok publish_inv_sle text_fits_mailbox)

lemma send_text_mailbox: "mailbox_sound s \<Longrightarrow> mailbox_sound (snd (car_sle_client_send_text t s))"
  by (cases t) (simp_all add: send_text_eq Let_def mailbox_sound_def car_sle_client_send_text_def [of None])

text \<open>Publishing a sample puts one and the same JSON text into the HTTP mailbox and, when the SLE link
  is up and its write handle known, on the radio; it never fails for a sample the firmware can hold.\<close>

theorem telemetry_reaches_both:
  assumes "env_ok d" and "mailbox_sound s" and "telemetry_publish (Some d) s = (ret, s')"
  shows "ret = 0 \<and> car_wifi_ap_get_last_json s' = telemetry_text d \<and>
    (if g_sle_state s = CAR_SLE_STATE_CONNECTED \<and> g_sle_has_write_handle s \<noteq> 0
     then \<exists>p. sle_log s' = sle_log s @ [WriteCmd (g_sle_conn_id s) p] \<and> wp_data p = telemetry_text d \<and>
       unat (wp_data_len p) = length (telemetry_text d) \<and> wp_handle p = wp_handle (g_sle_send_param s)
     else sle_log s' = sle_log s)"
proof -
  let ?t = "telemetry_text d"
  note len = telemetry_text_length [OF assms(1)] and fits = text_fits_mailbox [OF assms(1)]
  obtain r s1 where send: "car_sle_client_send_text (Some ?t) s = (r, s1)" by fastforce
  have s1: "mailbox_sound s1" using send_text_mailbox [OF assms(2), of "Some ?t"] send by simp
  have pub: "ret = 0" "s' = snd (car_wifi_ap_publish_json (Some ?t) s1)"
    using assms(3) send by (simp_all add: telemetry_publish_def format_ok [OF assms(1)]
      telemetry_publish_network_def)
  have "length (g_last_json s1) = 192" using s1 by (simp add: mailbox_sound_def)
  then have log: "sle_log s' = sle_log s1" using pub(2) publish_fits [OF _ fits, of s1] by simp
  have "car_wifi_ap_get_last_json s' = ?t"
    unfolding pub(2) by (rule wifi_json.get_put [OF s1 fits])
  moreover have "unat (of_nat (length ?t) :: u16) = length ?t" using len by (simp add: unat_of_nat)
  moreover have "?t \<noteq> []" by (simp add: telemetry_text_def)
  ultimately show ?thesis
    using pub(1) send len unfolding log by (auto simp: send_text_eq Let_def split: if_splits)
qed

lemma telemetry_reaches_both_witness:
  "let s = (sle_boot (wifi_boot (patrol_boot (motor_boot quiet_bus))))
         \<lparr>g_sle_state := CAR_SLE_STATE_CONNECTED, g_sle_has_write_handle := 1, g_sle_conn_id := 3\<rparr>
   in \<exists>p. sle_log (snd (telemetry_publish (Some env_data_reset) s)) = [WriteCmd 3 p] \<and>
        wp_data p = telemetry_text env_data_reset"
proof -
  let ?s = "(sle_boot (wifi_boot (patrol_boot (motor_boot quiet_bus))))
     \<lparr>g_sle_state := CAR_SLE_STATE_CONNECTED, g_sle_has_write_handle := 1, g_sle_conn_id := 3\<rparr>"
  have "env_ok env_data_reset" by (simp add: env_ok_def env_data_reset_def)
  moreover have "mailbox_sound ?s"
    by (simp add: sle_boot_def sle_state.defs wifi_state.defs patrol_state.defs wifi_boot_def mailbox_sound_def)
  ultimately show ?thesis
    using telemetry_reaches_both [of env_data_reset ?s "fst (telemetry_publish (Some env_data_reset) ?s)"
        "snd (telemetry_publish (Some env_data_reset) ?s)"]
    by (auto simp: sle_boot_def sle_state.defs wifi_state.defs)
qed

end
