(* ===== verification/CarApp.thy ===== *)
theory CarApp
  imports Sensors OledStatus Telemetry
begin

text \<open>
  The car application (app_main.c): boot, the one-second main loop, and the whole car as a
  transition system in which the main task, the SoftAP task, the HTTP server and the callbacks of
  the SLE stack take turns. A turn of the main loop, a request and a callback each run as one step.
\<close>

section \<open>State\<close>

text \<open>
  \<open>task_phase\<close> is the point the main task has reached; \<open>env_data\<close> is its local sample; the three
  flags are the threads that were created and have not run yet, or are in their loop.
\<close>

datatype task_phase = Booting | Failed | Unhealthy | Running

record car_state = sle_state +
  oled :: ssd_t
  env_data :: env_data_t
  phase :: task_phase
  ap_pending :: bool
  sle_pending :: bool
  http_pending :: bool
  http_up :: bool

section \<open>app_main.c\<close>

abbreviation (input) ENV_PATROL_SAMPLE_PERIOD_MS :: u32 where "ENV_PATROL_SAMPLE_PERIOD_MS \<equiv> 1000"
abbreviation (input) ENV_PATROL_I2C_TIMEOUT_ERROR :: int where "ENV_PATROL_I2C_TIMEOUT_ERROR \<equiv> - 2147478765"

definition env_patrol_update_alerts :: "env_data_t option \<Rightarrow> env_data_t option" where
  "env_patrol_update_alerts data =
     (case data of None \<Rightarrow> None
      | Some d \<Rightarrow> Some
        (if last_error d \<noteq> 0 \<or> sample_seq d = 0 then d\<lparr>temp_alert := 0, humi_alert := 0, light_alert := 0\<rparr>
         else d\<lparr>temp_alert := (if 320 \<le> temperature_c_x10 d then 1 else 0),
                humi_alert := (if 800 \<le> humidity_rh_x10 d then 1 else 0),
                light_alert := (if light_lux_x10 d \<le> 100 then 1 else 0)\<rparr>))"

text \<open>
  Both bench tests are compiled out (\<open>ENV_PATROL_MOTOR_SELF_TEST_ON_BOOT\<close> and
  \<open>ENV_PATROL_MOTOR_DIAG_ON_BOOT\<close> are 0): what is left prints a line.
\<close>

definition env_patrol_motor_self_test :: "'a car_state_scheme \<Rightarrow> 'a car_state_scheme" where
  "env_patrol_motor_self_test s = s"

definition env_patrol_motor_diag_exip06 :: "'a car_state_scheme \<Rightarrow> 'a car_state_scheme" where
  "env_patrol_motor_diag_exip06 s = s"

definition env_patrol_collect :: "env_data_t \<Rightarrow> 'a i2c_env_scheme \<Rightarrow> env_data_t \<times> 'a i2c_env_scheme" where
  "env_patrol_collect d s =
     (let ((ret, temp_x10, humi_x10), s1) = aht20_read True s;
          d1 = (if ret = 0 then d\<lparr>temperature_c_x10 := temp_x10, humidity_rh_x10 := humi_x10\<rparr> else d);
          err1 = (if ret = 0 then 0 else ret);
          ((ret2, light_x10), s2) = bh1750_read True s1;
          d2 = (if ret2 = 0 then d1\<lparr>light_lux_x10 := light_x10\<rparr> else d1);
          err2 = (if ret2 = 0 then err1 else if err1 = 0 then ret2 else err1)
      in (d2\<lparr>last_error := err2\<rparr>, s2))"

text \<open>\<open>env_patrol_task\<close> up to its loops.\<close>

definition env_patrol_task_boot :: "bool \<Rightarrow> 'a car_state_scheme \<Rightarrow> 'a car_state_scheme" where
  "env_patrol_task_boot sle_thread_ok s0 =
     (let (board_ret, s1) = car_board_init (s0\<lparr>env_data := env_data_reset\<rparr>)
      in if board_ret \<noteq> 0 then s1\<lparr>phase := Failed\<rparr> else
      let (probe_ret, s2) = car_board_probe_i2c_devices s1
      in if probe_ret \<noteq> 0 then s2\<lparr>phase := Unhealthy\<rparr> else
      let s3 = snd (aht20_init s2);
          s4 = snd (bh1750_init s3);
          (o5, s5) = oled_status_init (oled s4) s4;
          s6 = s5\<lparr>oled := o5\<rparr>;
          s7 = snd (car_motor_init s6);
          s8 = env_patrol_motor_self_test (env_patrol_motor_diag_exip06 s7);
          s9 = patrol_route_init s8;
          ((_, ap_created), s10) = car_wifi_ap_start s9;
          ((_, sle_created), s11) = car_sle_client_start sle_thread_ok s10
      in s11\<lparr>phase := Running, ap_pending := ap_created, sle_pending := sle_created\<rparr>)"

text \<open>One turn of the loop of a car whose bus is unhealthy, and one of the main loop.\<close>

definition unhealthy_turn :: "'a car_state_scheme \<Rightarrow> 'a car_state_scheme" where
  "unhealthy_turn s =
     (let d = (env_data s)\<lparr>sample_seq := sample_seq (env_data s) + 1, last_error := ENV_PATROL_I2C_TIMEOUT_ERROR\<rparr>;
          s1 = snd (telemetry_publish (Some d) (s\<lparr>env_data := d\<rparr>))
      in osDelay 100 s1)"

definition main_turn :: "'a car_state_scheme \<Rightarrow> 'a car_state_scheme" where
  "main_turn s =
     (let d0 = (env_data s)\<lparr>sample_seq := sample_seq (env_data s) + 1\<rparr>;
          (d1, s1) = env_patrol_collect d0 s;
          d2 = the (env_patrol_update_alerts (Some d1));
          s2 = car_motor_tick ENV_PATROL_SAMPLE_PERIOD_MS s1;
          (d3, s3) = patrol_route_tick ENV_PATROL_SAMPLE_PERIOD_MS (Some d2) s2;
          d4 = (the d3)\<lparr>motion := car_motor_get_motion s3\<rparr>;
          (o4, s4) = oled_status_render (Some d4) (oled s3) s3;
          s5 = snd (telemetry_publish (Some d4) (s4\<lparr>oled := o4, env_data := d4\<rparr>))
      in osDelay 100 s5)"

section \<open>The car as a transition system\<close>

text \<open>At power-on the statics have their initial values; bus, network and radio are arbitrary.\<close>

definition car_boot :: "i2c_env \<Rightarrow> (nat \<Rightarrow> int) \<Rightarrow> (nat \<Rightarrow> u32) \<Rightarrow> car_state" where
  "car_boot bus wans sans = sle_state.extend
     ((sle_boot ((wifi_boot (patrol_boot (motor_boot bus)))\<lparr>wifi_ans := wans\<rparr>))\<lparr>sle_ans := sans\<rparr>)
     \<lparr>oled = ssd_boot, env_data = env_data_reset, phase = Booting, ap_pending = False,
      sle_pending = False, http_pending = False, http_up = False\<rparr>"

definition car_init :: "car_state \<Rightarrow> bool" where
  "car_init s = (\<exists>bus wans sans. i2c_log bus = [] \<and> s = car_boot bus wans sans)"

inductive car_step :: "(string \<Rightarrow> u32) \<Rightarrow> car_state \<Rightarrow> car_state \<Rightarrow> bool" for ov where
  step_boot: "phase s = Booting \<Longrightarrow> car_step ov s (env_patrol_task_boot ok s)"
| step_unhealthy: "phase s = Unhealthy \<Longrightarrow> car_step ov s (unhealthy_turn s)"
| step_main: "phase s = Running \<Longrightarrow> car_step ov s (main_turn s)"
| step_ap_task: "ap_pending s \<Longrightarrow> s1 = car_wifi_ap_task (s\<lparr>ap_pending := False\<rparr>) \<Longrightarrow>
    car_step ov s (s1\<lparr>http_pending := HttpTask \<in> set (drop (length (wifi_log s)) (wifi_log s1))\<rparr>)"
| step_http_task: "http_pending s \<Longrightarrow> car_wifi_http_server_task (s\<lparr>http_pending := False\<rparr>) = (up, s1) \<Longrightarrow>
    car_step ov s (s1\<lparr>http_up := up\<rparr>)"
| step_http: "http_up s \<Longrightarrow> car_step ov s (http_server_turn ov fd received s)"
| step_sle_task: "sle_pending s \<Longrightarrow> car_step ov s (car_sle_task (s\<lparr>sle_pending := False\<rparr>))"
| step_sle: "car_step ov s (sle_deliver ov i s)"

inductive_cases car_step_cases: "car_step ov s t"

section \<open>The devices besides the motor bridge\<close>

lemma quiet_init: "car_i2c_init s = (r, s') \<Longrightarrow> quiet s s'"
  by (auto simp: car_i2c_init_def Let_def quiet_step)

lemma quiet_reset: "car_i2c_reset s = (r, s') \<Longrightarrow> quiet s s'"
  unfolding car_i2c_reset_def using quiet_init quiet_step(1) [of I2cDeinit s] quiet_trans by fastforce

lemma quiet_probe: "car_i2c_probe a s = (r, s') \<Longrightarrow> quiet s s'"
  by (auto simp: car_i2c_probe_def split: prod.splits dest: quiet_read)

lemma quiet_probe_items: "probe_items as n s = (r, s') \<Longrightarrow> quiet s s'"
proof (induction "as" arbitrary: n s)
  case (Cons a "as")
  obtain r1 s1 where p: "car_i2c_probe a s = (r1, s1)" by fastforce
  have "quiet s1 s'" using Cons.prems p by (auto intro: Cons.IH)
  then show ?case using quiet_probe [OF p] quiet_trans by blast
qed simp

lemma quiet_probe_core: "car_board_probe_core_devices s = (r, s') \<Longrightarrow> quiet s s'"
  by (auto simp: car_board_probe_core_devices_def Let_def split: prod.splits
    dest!: quiet_probe intro: quiet_trans)

lemma quiet_probe_devices: "car_board_probe_i2c_devices s = (r, s') \<Longrightarrow> quiet s s'"
  by (auto simp: car_board_probe_i2c_devices_def Let_def split: prod.splits if_splits
    dest!: quiet_probe_items quiet_reset quiet_probe_core intro: quiet_trans)

lemma quiet_board_init: "car_board_init s = (r, s') \<Longrightarrow> quiet s s'"
proof -
  let ?s2 = "log_ev (PinMode 16 2) (log_ev (PinMode 15 2) s)"
  assume "car_board_init s = (r, s')"
  then have "s' = snd (car_i2c_init ?s2)"
    by (auto simp: car_board_init_def Let_def split: prod.splits if_splits)
  then have "quiet ?s2 s'" using quiet_init [OF surjective_pairing] by metis
  moreover have "quiet s ?s2" by (rule quiet_trans [OF quiet_step(2) quiet_step(2)]) simp_all
  ultimately show ?thesis using quiet_trans by blast
qed

lemma quiet_aht20: "aht20_init s = (r, s') \<Longrightarrow> quiet s s'"
proof -
  assume run: "aht20_init s = (r, s')"
  obtain r1 s1 where w: "car_i2c_write CAR_I2C_ADDR_AHT20 (Some [0xBE, 0x08, 0x00]) s = (r1, s1)" by fastforce
  have "quiet s s1" by (rule quiet_write [OF _ w]) (simp add: motor_addrs_def)
  moreover have "s' = osDelay 2 s1" using run w by (simp add: aht20_init_def)
  ultimately show ?thesis using quiet_trans by blast
qed

lemma quiet_aht20_read: "aht20_read p s = (r, s') \<Longrightarrow> quiet s s'"
proof -
  assume run: "aht20_read p s = (r, s')"
  obtain r1 s1 where w: "car_i2c_write CAR_I2C_ADDR_AHT20 (Some [0xAC, 0x33, 0x00]) s = (r1, s1)" by fastforce
  obtain r2 s2 where d: "car_i2c_read CAR_I2C_ADDR_AHT20 6 (osDelay 8 s1) = (r2, s2)" by fastforce
  have "quiet s s1" by (rule quiet_write [OF _ w]) (simp add: motor_addrs_def)
  moreover have "quiet s1 s2" using quiet_trans [OF quiet_delay quiet_read [OF d]] .
  moreover have "s' = s \<or> s' = s1 \<or> s' = s2"
    using run w d by (auto simp: aht20_read_def Let_def split: prod.splits if_splits)
  ultimately show ?thesis using quiet_trans by blast
qed

lemma quiet_bh1750_cmd: "bh1750_write_cmd c s = (r, s') \<Longrightarrow> quiet s s'"
  unfolding bh1750_write_cmd_def by (erule quiet_write [rotated]) (simp add: motor_addrs_def)

lemma quiet_bh1750: "bh1750_init s = (r, s') \<Longrightarrow> quiet s s'"
proof -
  assume run: "bh1750_init s = (r, s')"
  obtain r1 s1 where a: "bh1750_write_cmd 0x01 s = (r1, s1)" by fastforce
  obtain r2 s2 where b: "bh1750_write_cmd 0x10 (osDelay 2 s1) = (r2, s2)" by fastforce
  have "s' = s1 \<or> s' = s2" using run a b by (auto simp: bh1750_init_def split: if_splits)
  moreover have "quiet s1 s2" using quiet_trans [OF quiet_delay quiet_bh1750_cmd [OF b]] .
  ultimately show ?thesis using quiet_bh1750_cmd [OF a] quiet_trans by blast
qed

lemma quiet_bh1750_read: "bh1750_read p s = (r, s') \<Longrightarrow> quiet s s'"
  by (auto simp: bh1750_read_def Let_def split: prod.splits if_splits dest: quiet_read)

lemma quiet_collect: "env_patrol_collect d s = (d', s') \<Longrightarrow> quiet s s'"
  by (auto simp: env_patrol_collect_def Let_def split: prod.splits
    dest!: quiet_aht20_read quiet_bh1750_read intro: quiet_trans)

lemma quiet_ssd_send: "quiet s (snd (ssd1306_SendData b s))"
  by (simp add: ssd1306_SendData_def Let_def quiet_step motor_addrs_def)

lemma quiet_ssd_command: "quiet s (ssd1306_WriteCommand b s)"
  by (simp add: ssd1306_WriteCommand_def ssd1306_WiteByte_def quiet_ssd_send)

lemma quiet_ssd_commands: "quiet s (fold ssd1306_WriteCommand bs s)"
  by (induction bs arbitrary: s) (auto intro: quiet_trans [OF quiet_ssd_command])

lemma quiet_ssd_update: "quiet s (ssd1306_UpdateScreen d s)"
  by (simp add: ssd1306_UpdateScreen_def quiet_ssd_send)

lemma quiet_ssd_printf: "quiet s (snd (ssd1306_printf t d s))"
  by (cases t) (simp_all add: ssd1306_printf_def Let_def quiet_ssd_update)

lemma quiet_ssd_display: "quiet s (snd (ssd1306_SetDisplayOn on d s))"
  by (simp add: ssd1306_SetDisplayOn_def quiet_ssd_command)

lemma quiet_ssd_init: "quiet s (snd (ssd1306_Init d s))"
proof -
  let ?s1 = "snd (ssd1306_SetDisplayOn 0 d (ssd1306_Reset s))"
  let ?s2 = "fold ssd1306_WriteCommand [0x20, 0x00, 0xB0, 0xC8, 0x00, 0x10, 0x40] ?s1"
  let ?s4 = "fold ssd1306_WriteCommand [0xA1, 0xA6, 0xA8, 0x3F] (ssd1306_SetContrast 0xFF ?s2)"
  have "quiet s (ssd1306_Reset s)" by (simp add: ssd1306_Reset_def quiet_step)
  also have "quiet \<dots> ?s1" by (rule quiet_ssd_display)
  also have "quiet \<dots> ?s2" by (rule quiet_ssd_commands)
  also have "quiet \<dots> (ssd1306_SetContrast 0xFF ?s2)"
    unfolding ssd1306_SetContrast_def using quiet_ssd_command quiet_ssd_command by (rule quiet_trans)
  also have "quiet \<dots> ?s4" by (rule quiet_ssd_commands)
  also have "quiet \<dots> (snd (ssd1306_Init_CMD d' ?s4))" for d'
    unfolding ssd1306_Init_CMD_def by (rule quiet_trans [OF quiet_ssd_commands quiet_ssd_display])
  finally have "quiet s (snd (ssd1306_Init_CMD d' ?s4))" for d' .
  then show ?thesis
    unfolding ssd1306_Init_def Let_def case_prod_beta snd_conv
    by (rule quiet_trans [OF _ quiet_ssd_update])
qed

lemma quiet_oled_init: "quiet s (snd (oled_status_init d s))"
  unfolding oled_status_init_def Let_def case_prod_beta
  by (rule quiet_trans [OF quiet_ssd_init quiet_ssd_printf])

lemma print_lines_Cons: "print_lines (l # ls) d s =
    print_lines ls (fst (ssd1306_printf (Some l) d s)) (snd (ssd1306_printf (Some l) d s))"
  by (simp add: print_lines_def case_prod_beta)

lemma quiet_print_lines: "quiet s (snd (print_lines ls d s))"
proof (induction ls arbitrary: d s)
  case (Cons l ls)
  show ?case unfolding print_lines_Cons by (rule quiet_trans [OF quiet_ssd_printf Cons.IH])
qed (simp add: print_lines_def)

lemma print_lines_ok: "buffer_ok d \<Longrightarrow> buffer_ok (fst (print_lines ls d s))"
proof (induction ls arbitrary: d s)
  case (Cons l ls)
  show ?case unfolding print_lines_Cons by (rule Cons.IH [OF printf_ok [OF Cons.prems]])
qed (simp add: print_lines_def)

lemma quiet_render: "quiet s (snd (oled_status_render data d s))"
  by (cases data) (simp_all add: oled_status_render_def quiet_print_lines)

lemma render_buffer_ok: "buffer_ok d \<Longrightarrow> buffer_ok (fst (oled_status_render data d s))"
  by (cases data) (simp_all add: oled_status_render_def print_lines_ok)

lemma oled_init_ok: "buffer_ok (fst (oled_status_init d s))"
  unfolding oled_status_init_def Let_def case_prod_beta by (intro printf_ok clear_ok)
section \<open>The invariant of the car\<close>

text \<open>
  Outside the main loop nothing can reach the bridge: the motor is not available, no thread of the
  network or the radio exists, no callback is registered and no write has gone to the bridge.
\<close>

definition car_idle :: "car_state \<Rightarrow> bool" where
  "car_idle s = (g_motor_available s = 0 \<and> \<not> ap_pending s \<and> \<not> sle_pending s \<and> \<not> http_pending s \<and> \<not> http_up s \<and>
     g_sle_seek_cbk s = [] \<and> g_sle_connect_cbk s = [] \<and> g_sle_ssapc_cbk s = [] \<and>
     (\<forall>ev \<in> set (i2c_log s). \<not> motor_write ev))"

definition car_inv :: "car_state \<Rightarrow> bool" where
  "car_inv s = (car_wifi_inv s \<and> env_ok (env_data s) \<and> buffer_ok (oled s) \<and>
     (phase s \<noteq> Running \<longrightarrow> car_idle s))"

lemma bus_only_wifi_inv:
  fixes s :: "'a wifi_state_scheme"
  assumes "quiet s s'" and "car_wifi_inv s"
  shows "car_wifi_inv s'"
proof -
  have "motor_only s s'" using bus_only_motor(6) [OF quiet_bus_only [OF assms(1)]] .
  then show ?thesis
    using assms quiet_safe [OF assms(1)]
    by (auto simp: car_wifi_inv_def mailbox_sound_def motor_only_wifi patrol_inv_motor_only)
qed

lemma bus_only_car:
  fixes s :: "'a car_state_scheme"
  assumes "bus_only s s'"
  shows "oled s' = oled s" "env_data s' = env_data s" "phase s' = phase s" "ap_pending s' = ap_pending s"
    "sle_pending s' = sle_pending s" "http_pending s' = http_pending s" "http_up s' = http_up s"
    "g_sle_seek_cbk s' = g_sle_seek_cbk s" "g_sle_connect_cbk s' = g_sle_connect_cbk s"
    "g_sle_ssapc_cbk s' = g_sle_ssapc_cbk s"
  using assms by (cases s; cases s'; auto simp: bus_only_def)+

lemma quiet_car_inv:
  assumes "quiet s s'" and "car_inv s"
  shows "car_inv s'"
  using assms bus_only_car [OF quiet_bus_only [OF assms(1)]] bus_only_wifi_inv [OF assms(1)]
    bus_only_motor(2) [OF quiet_bus_only [OF assms(1)]] quiet_no_writes [OF assms(1)]
  by (auto simp: car_inv_def car_idle_def)

text \<open>Frames of the other components: what they do not touch of the fields of \<open>car_state\<close>.\<close>

definition same_car :: "'a car_state_scheme \<Rightarrow> 'a car_state_scheme \<Rightarrow> bool" where
  "same_car s s' = (sle_state.more s' = sle_state.more s)"

lemma same_carD:
  fixes s :: "'a car_state_scheme"
  assumes "same_car s s'"
  shows "oled s' = oled s" "env_data s' = env_data s" "phase s' = phase s" "ap_pending s' = ap_pending s"
    "sle_pending s' = sle_pending s" "http_pending s' = http_pending s" "http_up s' = http_up s"
  using assms by (cases s; cases s'; auto simp: same_car_def)+

lemma same_car_trans: "same_car s t \<Longrightarrow> same_car t u \<Longrightarrow> same_car s u"
  by (simp add: same_car_def)

lemma motor_only_same_car: "motor_only s s' \<Longrightarrow> same_car s s'"
  by (cases s; cases s') (auto simp: motor_only_def same_car_def)

lemma patrol_rest_same_car: "patrol_state.more s' = patrol_state.more s \<Longrightarrow> same_car s s'"
  by (cases s; cases s') (auto simp: same_car_def)

lemma wifi_more_same_car: "wifi_state.more s' = wifi_state.more s \<Longrightarrow> same_car s s'"
  by (cases s; cases s') (auto simp: same_car_def)

lemma wifi_more_simps [simp]:
  fixes s :: "'a wifi_state_scheme"
  shows "wifi_state.more (wifi_note ev s) = wifi_state.more s" "wifi_state.more (wifi_count s) = wifi_state.more s"
    "wifi_state.more (s\<lparr>g_wifi_state := st\<rparr>) = wifi_state.more s"
  by (simp_all add: wifi_note_def wifi_count_def)

lemma wifi_more_motor: "motor_only s s' \<Longrightarrow> wifi_state.more s' = wifi_state.more s"
  by (cases s; cases s') (auto simp: motor_only_def)

lemma wifi_more_respond [simp]:
  "wifi_state.more (car_wifi_http_respond_status code st b ct s) = wifi_state.more s"
  by (simp add: car_wifi_http_respond_status_def car_wifi_http_send_def wifi_call_def Let_def)

lemma wifi_more_stop [simp]: "wifi_state.more (patrol_route_stop s) = wifi_state.more s"
  "wifi_state.more (patrol_route_start s) = wifi_state.more s"
  using wifi_more_motor [OF patrol_stop_effect [of s]] by (simp_all add: patrol_route_start_def)

lemma wifi_more_apply: "control_command_apply ov p s = (r, s') \<Longrightarrow> wifi_state.more s' = wifi_state.more s"
  by (rule wifi_more_motor [OF control_apply_frame])

lemma wifi_more_request [simp]: "wifi_state.more (car_wifi_http_handle_request ov r s) = wifi_state.more s"
  by (auto simp: car_wifi_http_handle_request_def http_control_def respond_json_def Let_def
    dest!: wifi_more_apply split: option.splits prod.splits)

lemma wifi_more_turn [simp]: "wifi_state.more (http_server_turn ov fd rc s) = wifi_state.more s"
  by (simp add: http_server_turn_def split: option.splits)

lemma wifi_more_wait [simp]: "wifi_state.more (wait_wifi_inited n s) = wifi_state.more s"
  by (induction n arbitrary: s) (simp_all add: wifi_query_def)

lemma wifi_more_calls: "wifi_call ev s = (r, s') \<Longrightarrow> wifi_state.more s' = wifi_state.more s"
  "wifi_query s = (r, s') \<Longrightarrow> wifi_state.more s' = wifi_state.more s"
  "wifi_state.more (snd (wifi_call ev s)) = wifi_state.more s"
  by (auto simp: wifi_call_def wifi_query_def Let_def)

lemma wifi_more_softap: "car_wifi_ap_enable_softap s = (r, s') \<Longrightarrow> wifi_state.more s' = wifi_state.more s"
  by (auto simp: car_wifi_ap_enable_softap_def Let_def wifi_more_calls(3)
    dest!: wifi_more_calls(1,2) split: prod.splits if_splits)

lemma wifi_more_ap_task [simp]: "wifi_state.more (car_wifi_ap_task s) = wifi_state.more s"
  by (auto simp: car_wifi_ap_task_def car_wifi_http_server_start_def wifi_query_def Let_def
    dest!: wifi_more_softap split: prod.splits)

lemma wifi_more_http_task: "car_wifi_http_server_task s = (up, s') \<Longrightarrow> wifi_state.more s' = wifi_state.more s"
  by (auto simp: car_wifi_http_server_task_def wifi_query_def Let_def split: if_splits)

lemma wifi_more_ap_start: "car_wifi_ap_start s = (r, s') \<Longrightarrow> wifi_state.more s' = wifi_state.more s"
  by (auto simp: car_wifi_ap_start_def wifi_query_def split: if_splits)

lemma sle_more_simps [simp]: "sle_state.more (sle_do ev s) = sle_state.more s"
  "sle_state.more (car_sle_start_scan s) = sle_state.more s"
  by (simp_all add: sle_do_def sle_call_def car_sle_start_scan_def)

lemma sle_more_motor: "motor_only s s' \<Longrightarrow> sle_state.more s' = sle_state.more s"
  by (cases s; cases s') (auto simp: motor_only_def)

lemma sle_more_notification [simp]: "sle_state.more (car_sle_notification_cbk ov d st s) = sle_state.more s"
proof -
  have "sle_state.more (patrol_route_stop u) = sle_state.more u" "sle_state.more (patrol_route_start u) = sle_state.more u"
    for u :: "'a sle_state_scheme"
    using sle_more_motor [OF patrol_stop_effect [of u]] by (simp_all add: patrol_route_start_def)
  then have "sle_state.more (car_sle_apply_rx_text ov data len s) = sle_state.more s" for data len
    using sle_more_motor [OF control_apply_frame [OF surjective_pairing], of ov _ "patrol_route_stop s"]
    by (auto simp: car_sle_apply_rx_text_def Let_def)
  then show ?thesis by (auto simp: car_sle_notification_cbk_def split: option.splits)
qed

lemma sle_more_deliver [simp]: "sle_state.more (sle_deliver ov i s) = sle_state.more s"
  by (cases i) (simp_all add: sle_cbk_defs split: option.splits)

lemma sle_more_task [simp]: "sle_state.more (car_sle_task s) = sle_state.more s"
  by (simp add: car_sle_task_def sle_call_def Let_def car_sle_seek_cbk_register_def
    car_sle_connect_cbk_register_def car_sle_ssapc_cbk_register_def)

lemma sle_more_start: "car_sle_client_start ok s = (r, s') \<Longrightarrow> sle_state.more s' = sle_state.more s"
  by (auto simp: car_sle_client_start_def Let_def split: if_splits)

lemma sle_more_publish [simp]: "sle_state.more (snd (telemetry_publish d s)) = sle_state.more s"
proof -
  have "sle_state.more (snd (car_sle_client_send_text t u)) = sle_state.more u" for t and u :: "'a sle_state_scheme"
    by (cases t) (simp_all add: send_text_eq Let_def car_sle_client_send_text_def [of None])
  moreover have "sle_state.more (snd (car_wifi_ap_publish_json j u)) = sle_state.more u" for j and u :: "'a sle_state_scheme"
    by (cases j) (simp_all add: car_wifi_ap_publish_json_def Let_def split: prod.splits)
  ultimately show ?thesis
    by (simp add: telemetry_publish_def telemetry_publish_network_def split: prod.splits)
qed

section \<open>Every step keeps the invariant\<close>

lemma collect_env:
  assumes "env_patrol_collect d s = (d', s')" and "env_ok d"
  shows "env_ok d'" "motion d' = motion d" "patrol_enabled d' = patrol_enabled d" "sample_seq d' = sample_seq d"
proof -
  obtain ret t h s1 where a: "aht20_read True s = ((ret, t, h), s1)" by (metis prod.collapse)
  obtain ret2 l s2 where b: "bh1750_read True s1 = ((ret2, l), s2)" by (metis prod.collapse)
  have d': "d' = (let d1 = (if ret = 0 then d\<lparr>temperature_c_x10 := t, humidity_rh_x10 := h\<rparr> else d);
      d2 = (if ret2 = 0 then d1\<lparr>light_lux_x10 := l\<rparr> else d1)
      in d2\<lparr>last_error := if ret2 = 0 then (if ret = 0 then 0 else ret)
            else if (if ret = 0 then 0 else ret) = 0 then ret2 else (if ret = 0 then 0 else ret)\<rparr>)"
    using assms(1) a b by (auto simp: env_patrol_collect_def Let_def)
  show "env_ok d'" using assms(2) aht20_read_result [OF a] bh1750_read_result [OF b]
    unfolding d' Let_def by (auto simp: env_ok_def)
  show "motion d' = motion d" "patrol_enabled d' = patrol_enabled d" "sample_seq d' = sample_seq d"
    by (simp_all add: d' Let_def)
qed

lemma alerts_env: "env_ok d \<Longrightarrow> env_ok (the (env_patrol_update_alerts (Some d)))"
  by (simp add: env_patrol_update_alerts_def env_ok_def)

lemma env_data_view_inv:
  fixes s :: car_state
  shows "car_wifi_inv s \<Longrightarrow> car_wifi_inv (s\<lparr>env_data := d\<rparr>)" "car_wifi_inv s \<Longrightarrow> car_wifi_inv (s\<lparr>oled := p\<rparr>)"
    "car_wifi_inv s \<Longrightarrow> car_wifi_inv (s\<lparr>phase := ph\<rparr>)" "car_wifi_inv s \<Longrightarrow> car_wifi_inv (s\<lparr>ap_pending := b\<rparr>)"
    "car_wifi_inv s \<Longrightarrow> car_wifi_inv (s\<lparr>sle_pending := b\<rparr>)" "car_wifi_inv s \<Longrightarrow> car_wifi_inv (s\<lparr>http_pending := b\<rparr>)"
    "car_wifi_inv s \<Longrightarrow> car_wifi_inv (s\<lparr>http_up := b\<rparr>)"
  by (erule wifi_inv_sle; simp add: wifi_state.defs)+

lemma tick_wifi_inv:
  assumes "car_wifi_inv s"
  shows "car_wifi_inv (car_motor_tick e s)"
  using assms tick_frame [of s e]
  by (auto simp: car_wifi_inv_def mailbox_sound_def tick_safe motor_only_wifi patrol_inv_motor_only)

lemma patrol_tick_wifi_inv:
  fixes s :: "'a wifi_state_scheme"
  assumes "car_wifi_inv s"
  shows "car_wifi_inv (snd (patrol_route_tick e d s))"
proof -
  have "g_last_json (snd (patrol_route_tick e d s)) = g_last_json s"
    using patrol_tick_more [of e d s] by (cases s; cases "snd (patrol_route_tick e d s)") auto
  then show ?thesis using assms
    by (simp add: car_wifi_inv_def mailbox_sound_def patrol_tick_safe patrol_route_tick_inv)
qed

lemma patrol_tick_data:
  assumes "patrol_inv s" and "env_ok d"
  shows "env_ok (the (fst (patrol_route_tick e (Some d) s)))"
  using assms by (auto simp: patrol_route_tick_def Let_def env_ok_def patrol_inv_def)

text \<open>One turn of the main loop, cut into the stages whose results the lemmas talk about.\<close>

lemma main_turn_stages:
  obtains d1 s1 d3 s3 d4 o4 s4 where
    "env_patrol_collect ((env_data s)\<lparr>sample_seq := sample_seq (env_data s) + 1\<rparr>) s = (d1, s1)"
    "patrol_route_tick 1000 (Some (the (env_patrol_update_alerts (Some d1)))) (car_motor_tick 1000 s1) = (d3, s3)"
    "d4 = (the d3)\<lparr>motion := g_current_motion s3\<rparr>"
    "oled_status_render (Some d4) (oled s3) s3 = (o4, s4)"
    "main_turn s = osDelay 100 (snd (telemetry_publish (Some d4) (s4\<lparr>oled := o4, env_data := d4\<rparr>)))"
proof -
  obtain d1 s1 where a: "env_patrol_collect ((env_data s)\<lparr>sample_seq := sample_seq (env_data s) + 1\<rparr>) s = (d1, s1)"
    by fastforce
  obtain d3 s3 where b: "patrol_route_tick 1000 (Some (the (env_patrol_update_alerts (Some d1))))
      (car_motor_tick 1000 s1) = (d3, s3)" by fastforce
  obtain o4 s4 where c: "oled_status_render (Some ((the d3)\<lparr>motion := g_current_motion s3\<rparr>)) (oled s3) s3 = (o4, s4)"
    by fastforce
  show ?thesis by (rule that [OF a b refl c]) (simp add: main_turn_def a b c car_motor_get_motion_def Let_def)
qed

lemma delay_wifi_inv:
  fixes s :: "'a wifi_state_scheme"
  shows "car_wifi_inv s \<Longrightarrow> car_wifi_inv (osDelay n s)"
  by (rule bus_only_wifi_inv [OF quiet_delay])

lemma delay_car [simp]:
  "env_data (osDelay n s) = env_data s" "oled (osDelay n s) = oled s" "phase (osDelay n s) = phase s"
  by (simp_all add: osDelay_def log_ev_def)

lemma publish_car [simp]:
  fixes s :: "'a car_state_scheme"
  shows "env_data (snd (telemetry_publish d s)) = env_data s" "oled (snd (telemetry_publish d s)) = oled s"
    "phase (snd (telemetry_publish d s)) = phase s" "http_up (snd (telemetry_publish d s)) = http_up s"
    "ap_pending (snd (telemetry_publish d s)) = ap_pending s" "sle_pending (snd (telemetry_publish d s)) = sle_pending s"
    "http_pending (snd (telemetry_publish d s)) = http_pending s"
  using same_carD [of s "snd (telemetry_publish d s)"] by (simp_all add: same_car_def)

lemma main_turn_stage_inv:
  fixes s :: car_state
  assumes inv: "car_inv s"
    and a: "env_patrol_collect ((env_data s)\<lparr>sample_seq := sample_seq (env_data s) + 1\<rparr>) s = (d1, s1)"
    and b: "patrol_route_tick 1000 (Some (the (env_patrol_update_alerts (Some d1)))) (car_motor_tick 1000 s1) = (d3, s3)"
    and d4: "d4 = (the d3)\<lparr>motion := g_current_motion s3\<rparr>"
    and c: "oled_status_render (Some d4) (oled s3) s3 = (o4, s4)"
  shows "car_wifi_inv (s4\<lparr>oled := o4, env_data := d4\<rparr>)" "env_ok d4" "buffer_ok o4" "phase s4 = phase s"
proof -
  have s: "car_wifi_inv s" "env_ok (env_data s)" "buffer_ok (oled s)" using inv by (simp_all add: car_inv_def)
  have i1: "car_wifi_inv (car_motor_tick 1000 s1)"
    by (rule tick_wifi_inv [OF bus_only_wifi_inv [OF quiet_collect [OF a] s(1)]])
  have "env_ok d1" using collect_env(1) [OF a] s(2) by (simp add: env_ok_def)
  then have e: "env_ok d4"
    using patrol_tick_data [of "car_motor_tick 1000 s1" "the (env_patrol_update_alerts (Some d1))" 1000]
      alerts_env [of d1] i1 b by (simp add: d4 car_wifi_inv_def env_ok_def)
  have "same_car s s3"
    using motor_only_same_car [OF bus_only_motor(6) [OF quiet_bus_only [OF quiet_collect [OF a]]]]
      motor_only_same_car [OF tick_frame [of s1 1000]]
      patrol_rest_same_car [of s3 "car_motor_tick 1000 s1"]
      patrol_tick_more [of 1000 "Some (the (env_patrol_update_alerts (Some d1)))" "car_motor_tick 1000 s1"] b
    by (auto intro: same_car_trans)
  then have o3: "oled s3 = oled s" "phase s3 = phase s" by (simp_all add: same_carD)
  have "quiet s3 s4" using quiet_render [of s3 "Some d4" "oled s3"] c by simp
  moreover have "car_wifi_inv s3" using patrol_tick_wifi_inv [OF i1] b by (metis snd_conv)
  ultimately have i4: "car_wifi_inv (s4\<lparr>oled := o4, env_data := d4\<rparr>)" "phase s4 = phase s"
    using bus_only_wifi_inv [of s3 s4] bus_only_car(3) [OF quiet_bus_only, of s3 s4] o3(2)
    by (simp_all add: env_data_view_inv)
  have "buffer_ok o4" using render_buffer_ok [of "oled s3" "Some d4" s3] s(3) o3(1) c by simp
  with e i4 show "car_wifi_inv (s4\<lparr>oled := o4, env_data := d4\<rparr>)" "env_ok d4" "buffer_ok o4" "phase s4 = phase s"
    by simp_all
qed

lemma main_turn_inv:
  fixes s :: car_state
  assumes inv: "car_inv s"
  shows "car_wifi_inv (main_turn s)" "env_ok (env_data (main_turn s))" "buffer_ok (oled (main_turn s))"
    "phase (main_turn s) = phase s"
proof -
  obtain d1 s1 d3 s3 d4 o4 s4 where
    a: "env_patrol_collect ((env_data s)\<lparr>sample_seq := sample_seq (env_data s) + 1\<rparr>) s = (d1, s1)"
    and b: "patrol_route_tick 1000 (Some (the (env_patrol_update_alerts (Some d1)))) (car_motor_tick 1000 s1) = (d3, s3)"
    and d4: "d4 = (the d3)\<lparr>motion := g_current_motion s3\<rparr>"
    and c: "oled_status_render (Some d4) (oled s3) s3 = (o4, s4)"
    and m: "main_turn s = osDelay 100 (snd (telemetry_publish (Some d4) (s4\<lparr>oled := o4, env_data := d4\<rparr>)))"
    by (rule main_turn_stages [of s]) blast
  note i4 = main_turn_stage_inv [OF inv a b d4 c]
  show "env_ok (env_data (main_turn s))" "buffer_ok (oled (main_turn s))" "phase (main_turn s) = phase s"
    using i4(2-4) by (simp_all add: m)
  show "car_wifi_inv (main_turn s)"
    unfolding m by (intro delay_wifi_inv telemetry_publish_inv i4)
qed

lemma publish_sle_tables:
  fixes s :: "'a sle_state_scheme"
  shows "g_sle_seek_cbk (snd (telemetry_publish d s)) = g_sle_seek_cbk s"
    "g_sle_connect_cbk (snd (telemetry_publish d s)) = g_sle_connect_cbk s"
    "g_sle_ssapc_cbk (snd (telemetry_publish d s)) = g_sle_ssapc_cbk s"
    "g_motor_available (snd (telemetry_publish d s)) = g_motor_available s"
    "i2c_log (snd (telemetry_publish d s)) = i2c_log s"
  by (auto simp: telemetry_publish_def telemetry_publish_network_def car_sle_client_send_text_def
    sle_call_def car_wifi_ap_publish_json_def Let_def split: prod.splits)

lemma unhealthy_turn_inv:
  assumes "car_inv s"
  shows "car_inv (unhealthy_turn s)"
proof -
  let ?d = "(env_data s)\<lparr>sample_seq := sample_seq (env_data s) + 1, last_error := - 2147478765\<rparr>"
  have s: "car_wifi_inv s" "env_ok ?d" "buffer_ok (oled s)" "phase s \<noteq> Running \<longrightarrow> car_idle s"
    using assms by (auto simp: car_inv_def env_ok_def)
  have "car_inv (snd (telemetry_publish (Some ?d) (s\<lparr>env_data := ?d\<rparr>)))"
    using s telemetry_publish_inv [OF s(2) env_data_view_inv(1) [OF s(1)]]
    by (simp add: car_inv_def car_idle_def publish_sle_tables)
  then show ?thesis unfolding unhealthy_turn_def Let_def by (rule quiet_car_inv [OF quiet_delay])
qed

lemma boot_inv:
  assumes "car_inv s" and "phase s = Booting"
  shows "car_inv (env_patrol_task_boot ok s)"
proof -
  let ?s0 = "s\<lparr>env_data := env_data_reset\<rparr>"
  have "env_ok env_data_reset" by (simp add: env_ok_def env_data_reset_def)
  then have i0: "car_inv ?s0" "phase ?s0 = Booting"
    using assms by (simp_all add: car_inv_def car_idle_def env_data_view_inv)
  obtain r1 s1 where b: "car_board_init ?s0 = (r1, s1)" by fastforce
  obtain r2 s2 where p: "car_board_probe_i2c_devices s1 = (r2, s2)" by fastforce
  note q1 = quiet_board_init [OF b] and q2 = quiet_probe_devices [OF p]
  have i1: "car_inv s1" "phase s1 = Booting" "car_inv s2" "phase s2 = Booting"
    using quiet_car_inv [OF q1 i0(1)] bus_only_car(3) [OF quiet_bus_only [OF q1]] i0(2)
      quiet_car_inv [OF q2] bus_only_car(3) [OF quiet_bus_only [OF q2]] by auto
  then have stuck: "car_inv (s1\<lparr>phase := Failed\<rparr>)" "car_inv (s2\<lparr>phase := Unhealthy\<rparr>)"
    by (auto simp: car_inv_def car_idle_def env_data_view_inv)
  let ?s4 = "snd (bh1750_init (snd (aht20_init s2)))"
  have q4: "quiet s2 ?s4"
    using quiet_aht20 [OF surjective_pairing] quiet_bh1750 [OF surjective_pairing] quiet_trans by blast
  obtain o5 s5 where o5: "oled_status_init (oled ?s4) ?s4 = (o5, s5)" by fastforce
  have q5: "quiet s2 s5" using quiet_trans [OF q4 quiet_oled_init, of "oled ?s4"] o5 by simp
  have i6: "car_wifi_inv (s5\<lparr>oled := o5\<rparr>)" "env_ok (env_data s5)" "buffer_ok o5"
    using quiet_car_inv [OF q5 i1(3)] oled_init_ok [of "oled ?s4" ?s4] o5
    by (simp_all add: car_inv_def env_data_view_inv)
  let ?s7 = "snd (car_motor_init (s5\<lparr>oled := o5\<rparr>))"
  have m7: "motor_only (s5\<lparr>oled := o5\<rparr>) ?s7"
    by (rule init_frame [OF surjective_pairing])
  have i7: "car_wifi_inv ?s7"
    using i6(1) init_safe [of "s5\<lparr>oled := o5\<rparr>"] m7
    by (auto simp: car_wifi_inv_def car_safe_def motor_inv_def mailbox_sound_def motor_only_wifi
      patrol_inv_motor_only)
  let ?s9 = "patrol_route_init ?s7"
  obtain ra s10 where ap: "car_wifi_ap_start ?s9 = (ra, s10)" by fastforce
  obtain rb s11 where sl: "car_sle_client_start ok s10 = (rb, s11)" by fastforce
  have "g_last_json ?s9 = g_last_json ?s7" by (simp add: patrol_route_init_def)
  then have i9: "car_wifi_inv ?s9"
    using i7 by (simp add: car_wifi_inv_def patrol_position_safe patrol_stop_inv mailbox_sound_def)
  have i11: "car_wifi_inv s11"
    using sle_start_inv [OF ap_start_inv [OF i9], of ok] ap sl by simp
  have "same_car (s5\<lparr>oled := o5\<rparr>) s11"
    using motor_only_same_car [OF m7] patrol_rest_same_car [of ?s9 ?s7] wifi_more_same_car [of s10 ?s9]
      wifi_more_ap_start [OF ap] sle_more_start [OF sl]
    by (auto simp: patrol_route_init_def same_car_def)
  then have "env_ok (env_data s11)" "buffer_ok (oled s11)"
    using i6 same_carD(1,2) by fastforce+
  then have "car_inv (s11\<lparr>phase := Running, ap_pending := snd ra, sle_pending := snd rb\<rparr>)"
    using i11 by (simp add: car_inv_def env_data_view_inv)
  with stuck show ?thesis
    by (simp add: env_patrol_task_boot_def b p o5 ap sl env_patrol_motor_self_test_def
      env_patrol_motor_diag_exip06_def Let_def case_prod_beta)
qed

lemma http_step_car:
  fixes s :: "'a car_state_scheme"
  assumes "wifi_state.more s' = wifi_state.more s"
  shows "oled s' = oled s" "env_data s' = env_data s" "phase s' = phase s"
  using same_carD [OF wifi_more_same_car [OF assms]] by simp_all

lemma sle_step_car:
  fixes s :: "'a car_state_scheme"
  assumes "sle_state.more s' = sle_state.more s"
  shows "oled s' = oled s" "env_data s' = env_data s" "phase s' = phase s"
  using same_carD [of s s'] assms by (simp_all add: same_car_def)

lemma deliver_idle: "car_idle s \<Longrightarrow> sle_deliver ov i s = s"
  by (cases i) (simp_all add: car_idle_def)

lemma car_inv_Running:
  "phase s = Running \<Longrightarrow> car_wifi_inv s \<Longrightarrow> env_ok (env_data s) \<Longrightarrow> buffer_ok (oled s) \<Longrightarrow> car_inv s"
  by (simp add: car_inv_def)

lemma running_if: "car_inv s \<Longrightarrow> ap_pending s \<or> sle_pending s \<or> http_pending s \<or> http_up s \<Longrightarrow> phase s = Running"
  by (auto simp: car_inv_def car_idle_def)

lemma car_step_inv:
  assumes "car_inv s" and "car_step ov s t"
  shows "car_inv t"
  using assms(2)
proof cases
  case (step_boot ok)
  then show ?thesis using boot_inv [OF assms(1)] by simp
next
  case step_unhealthy
  then show ?thesis using unhealthy_turn_inv [OF assms(1)] by simp
next
  case step_main
  then show ?thesis using main_turn_inv [OF assms(1)] by (simp add: car_inv_Running)
next
  case (step_ap_task s1)
  then have "phase s = Running" using running_if [OF assms(1)] by simp
  moreover have "car_wifi_inv s1"
    unfolding step_ap_task(3) using assms(1) by (intro ap_task_inv env_data_view_inv) (simp add: car_inv_def)
  ultimately show ?thesis
    using assms(1) http_step_car [of s1 "s\<lparr>ap_pending := False\<rparr>"] step_ap_task
    by (simp add: car_inv_def env_data_view_inv)
next
  case (step_http_task up s1)
  then have "phase s = Running" using running_if [OF assms(1)] by simp
  moreover have "car_wifi_inv s1"
    using http_task_inv [of "s\<lparr>http_pending := False\<rparr>"] assms(1) step_http_task(3)
    by (simp add: car_inv_def env_data_view_inv)
  ultimately show ?thesis
    using assms(1) http_step_car [OF wifi_more_http_task [OF step_http_task(3)]] step_http_task
    by (simp add: car_inv_def env_data_view_inv)
next
  case (step_http fd received)
  then have "phase s = Running" using running_if [OF assms(1)] by simp
  then show ?thesis
    using assms(1) http_turn_inv [of s ov fd received] http_step_car [of t s] step_http
    by (simp add: car_inv_def)
next
  case step_sle_task
  then have "phase s = Running" using running_if [OF assms(1)] by simp
  moreover have "car_wifi_inv t"
    unfolding step_sle_task(1) using assms(1) by (intro sle_task_inv env_data_view_inv) (simp add: car_inv_def)
  ultimately show ?thesis
    using assms(1) sle_step_car [of t "s\<lparr>sle_pending := False\<rparr>"] step_sle_task by (simp add: car_inv_def)
next
  case (step_sle i)
  show ?thesis
  proof (cases "phase s = Running")
    case True
    then show ?thesis using assms(1) deliver_inv [of s ov i] sle_step_car [of t s] step_sle by (simp add: car_inv_def)
  next
    case False
    then show ?thesis using assms(1) deliver_idle [of s ov i] step_sle by (simp add: car_inv_def)
  qed
qed

lemma car_init_inv: "car_init s \<Longrightarrow> car_inv s"
proof -
  assume "car_init s"
  then obtain bus wans sans where s: "s = car_boot bus wans sans" "i2c_log bus = []"
    by (auto simp: car_init_def)
  have "env_ok env_data_reset" by (simp add: env_ok_def env_data_reset_def)
  then show ?thesis
    using s(2) by (simp add: s(1) car_boot_def sle_state.defs sle_boot_def wifi_state.defs wifi_boot_def
      patrol_state.defs patrol_boot_def motor_state.defs motor_boot_def i2c_env.defs car_inv_def car_wifi_inv_def
      car_safe_def motor_inv_def watchdog_ok_def motor_addrs_def patrol_inv_def cur_step_def g_route_def
      mailbox_sound_def car_idle_def)
qed

interpretation car: invariant_system car_init "car_step ov" car_inv for ov
  by unfold_locales (auto intro: car_init_inv car_step_inv)

section \<open>A turn on a bus that acknowledges\<close>

definition acked :: "i2c_event \<Rightarrow> bool" where
  "acked ev = (case ev of I2cWrite _ _ ret \<Rightarrow> ret = 0 | I2cRead _ _ ret \<Rightarrow> ret = 0 | _ \<Rightarrow> True)"

text \<open>\<open>extends s s' ok\<close>: the log grew, and \<open>ok\<close> holds if everything that was added was acknowledged.\<close>

definition extends :: "'a i2c_env_scheme \<Rightarrow> 'a i2c_env_scheme \<Rightarrow> bool \<Rightarrow> bool" where
  "extends s s' ok = (\<exists>evs. i2c_log s' = i2c_log s @ evs \<and> ((\<forall>ev \<in> set evs. acked ev) \<longrightarrow> ok))"

text \<open>The bus operations between two states.\<close>

definition new_events :: "'a i2c_env_scheme \<Rightarrow> 'a i2c_env_scheme \<Rightarrow> i2c_event list" where
  "new_events s s' = drop (length (i2c_log s)) (i2c_log s')"

lemma extends_trans:
  assumes "extends s t p" and "extends t u q"
  shows "extends s u (p \<and> q)"
proof -
  obtain e1 where e1: "i2c_log t = i2c_log s @ e1" "(\<forall>ev \<in> set e1. acked ev) \<longrightarrow> p"
    using assms(1) by (auto simp: extends_def)
  obtain e2 where e2: "i2c_log u = i2c_log t @ e2" "(\<forall>ev \<in> set e2. acked ev) \<longrightarrow> q"
    using assms(2) by (auto simp: extends_def)
  have "i2c_log u = i2c_log s @ e1 @ e2 \<and> ((\<forall>ev \<in> set (e1 @ e2). acked ev) \<longrightarrow> p \<and> q)"
    using e1 e2 by auto
  then show ?thesis unfolding extends_def by blast
qed

lemma extends_same: "i2c_log s' = i2c_log s \<Longrightarrow> extends s s' True"
  by (simp add: extends_def)

lemma quiet_extends: "quiet s s' \<Longrightarrow> extends s s' True"
  by (auto simp: quiet_def extends_def)

lemma extends_weaken: "extends s s' p \<Longrightarrow> (p \<Longrightarrow> q) \<Longrightarrow> extends s s' q"
  by (auto simp: extends_def)

lemma pwm_write_extends: "motor_write_pwm_to a r d s = (ret, s') \<Longrightarrow> extends s s' (ret = 0)"
  by (auto simp: motor_write_pwm_to_def i2c_defs extends_def acked_def)

lemma set_wheel_extends:
  assumes "motor_set_wheel ca dr duty lim fwd s = (ret, s')"
  shows "extends s s' (ret = 0)"
  using assms
proof (rule set_wheel_cases)
  fix r1 s1 r2 s2
  assume a: "motor_write_pwm_to (g_motor_addr s) (if fwd \<noteq> 0 then ca else dr) 0 s = (r1, s1)"
    and b: "motor_write_pwm_to (g_motor_addr s) (if fwd \<noteq> 0 then dr else ca)
       (if lim < duty then lim else duty) s1 = (r2, s2)"
    and res: "(ret, s') = (if r1 \<noteq> 0 then (r1, s1) else (r2, s2))"
  show ?thesis using pwm_write_extends [OF a] extends_trans [OF pwm_write_extends [OF a] pwm_write_extends [OF b]] res
    by (auto elim: extends_weaken split: if_splits)
qed

lemma apply_extends:
  assumes "motor_apply ld lf rd rf s = (ret, s')"
  shows "extends s s' (ret = 0)"
proof -
  obtain r1 s1 where l: "motor_left_set ld lf s = (r1, s1)" by fastforce
  obtain r2 s2 where r: "motor_right_set rd rf s1 = (r2, s2)" by fastforce
  from assms l r have "s' = s2" "ret = (if r1 \<noteq> 0 then r1 else r2)" by (auto simp: motor_apply_def)
  then show ?thesis
    using extends_trans [OF set_wheel_extends [OF l [unfolded motor_left_set_def]]
        set_wheel_extends [OF r [unfolded motor_right_set_def]]]
    by (auto elim: extends_weaken)
qed

lemma stop_extends:
  assumes "car_motor_stop s = (ret, s')" and "g_motor_available s \<noteq> 0"
  shows "extends s s' (ret = 0)"
proof -
  have "wheel_plan stop_cmd = (0, 1, 1)" by (simp add: wheel_plan_def stop_cmd_def)
  then obtain r1 s1 where a: "motor_apply 0 1 0 1 s = (r1, s1)"
    "ret = r1" "i2c_log s' = i2c_log s1"
    using assms car_motor_command_plan [of stop_cmd s 0 1 1]
    by (cases "motor_apply 0 1 0 1 s") (auto simp: car_motor_stop_def stop_cmd_def split: if_splits)
  then show ?thesis using apply_extends [OF a(1)] by (simp add: extends_def)
qed

section \<open>What a turn of the main loop does\<close>

lemma command_watchdog: "g_manual_watchdog_active (snd (car_motor_command (Some c) s)) = g_manual_watchdog_active s"
  by (rule car_motor_command_frame(4) [OF surjective_pairing])

lemma patrol_tick_watchdog:
  "g_manual_watchdog_active (snd (patrol_route_tick e d s)) = g_manual_watchdog_active s"
  by (auto simp: patrol_route_tick_def Let_def command_watchdog split: option.splits)

lemma publish_motor:
  fixes s :: "'a sle_state_scheme"
  shows "g_manual_watchdog_active (snd (telemetry_publish d s)) = g_manual_watchdog_active s"
    "g_current_motion (snd (telemetry_publish d s)) = g_current_motion s"
    "g_motor_addr (snd (telemetry_publish d s)) = g_motor_addr s"
  by (auto simp: telemetry_publish_def telemetry_publish_network_def car_sle_client_send_text_def
    sle_call_def car_wifi_ap_publish_json_def Let_def split: prod.splits)

lemma delay_motor:
  "g_manual_watchdog_active (osDelay n s) = g_manual_watchdog_active s"
  "g_current_motion (osDelay n s) = g_current_motion s" "g_motor_addr (osDelay n s) = g_motor_addr s"
  by (simp_all add: osDelay_def log_ev_def)

lemma tick_due:
  assumes "g_manual_watchdog_active s \<noteq> 0" and "watchdog_ok s"
  shows "car_motor_tick 1000 s =
    snd (car_motor_stop (s\<lparr>g_manual_watchdog_active := 0, g_manual_watchdog_remaining_ms := 0\<rparr>))"
proof -
  have "g_manual_watchdog_remaining_ms s \<le> 800" using assms(2) by (simp add: watchdog_ok_def)
  then have "g_manual_watchdog_remaining_ms s \<le> 1000" by (rule order_trans) simp
  then show ?thesis using assms(1) by (simp add: car_motor_tick_def)
qed

lemma tick_watchdog_off:
  assumes "watchdog_ok s"
  shows "g_manual_watchdog_active (car_motor_tick 1000 s) = 0"
proof (cases "g_manual_watchdog_active s = 0")
  case True
  then show ?thesis by (simp add: car_motor_tick_def)
next
  case False
  then show ?thesis
    by (simp add: tick_due [OF False assms] car_motor_stop_def command_watchdog)
qed

text \<open>C3: No manual command outlives a turn of the main loop: after any turn the manual watchdog is off, and
  when it was on and the patrol is off, then on a bus that acknowledges during the turn both wheels
  are stopped, whatever register contents the bridge had. (The turn is 1000 ms, the watchdog 800 ms.)\<close>

theorem manual_motion_ends:
  assumes "car_inv s" and "phase s = Running"
  shows "g_manual_watchdog_active (main_turn s) = 0 \<and>
    (g_manual_watchdog_active s \<noteq> 0 \<and> g_motor_available s \<noteq> 0 \<and> g_enabled s = 0 \<and>
       (\<forall>ev \<in> set (new_events s (main_turn s)). acked ev) \<longrightarrow>
      g_current_motion (main_turn s) = CAR_MOTION_STOP \<and>
      (\<forall>r \<in> bridge_regs (g_motor_addr (main_turn s)) (i2c_log (main_turn s)). wheels_stopped r))"
proof -
  obtain d1 s1 d3 s3 d4 o4 s4 where
    a: "env_patrol_collect ((env_data s)\<lparr>sample_seq := sample_seq (env_data s) + 1\<rparr>) s = (d1, s1)"
    and b: "patrol_route_tick 1000 (Some (the (env_patrol_update_alerts (Some d1)))) (car_motor_tick 1000 s1) = (d3, s3)"
    and d4: "d4 = (the d3)\<lparr>motion := g_current_motion s3\<rparr>"
    and c: "oled_status_render (Some d4) (oled s3) s3 = (o4, s4)"
    and m: "main_turn s = osDelay 100 (snd (telemetry_publish (Some d4) (s4\<lparr>oled := o4, env_data := d4\<rparr>)))"
    by (rule main_turn_stages [of s]) blast
  note q1 = quiet_collect [OF a]
  have q4: "quiet s3 s4" using quiet_render [of s3 "Some d4" "oled s3"] c by simp
  note f1 = bus_only_motor [OF quiet_bus_only [OF q1]] and f4 = bus_only_motor [OF quiet_bus_only [OF q4]]
  have inv1: "car_wifi_inv s1" using bus_only_wifi_inv [OF q1] assms(1) by (simp add: car_inv_def)
  then have wd1: "watchdog_ok s1" by (simp add: car_wifi_inv_def car_safe_def motor_inv_def)
  note fm = delay_motor publish_motor f4
  have off3: "g_manual_watchdog_active s3 = 0"
    using patrol_tick_watchdog [of 1000 "Some (the (env_patrol_update_alerts (Some d1)))" "car_motor_tick 1000 s1"]
      b tick_watchdog_off [OF wd1] by simp
  have off: "g_manual_watchdog_active (main_turn s) = 0" using off3 by (simp add: m fm)
  have "g_current_motion (main_turn s) = CAR_MOTION_STOP \<and>
      (\<forall>r \<in> bridge_regs (g_motor_addr (main_turn s)) (i2c_log (main_turn s)). wheels_stopped r)"
    if on: "g_manual_watchdog_active s \<noteq> 0" "g_motor_available s \<noteq> 0" "g_enabled s = 0" "\<forall>ev \<in> set (new_events s (main_turn s)). acked ev"
  proof -
    let ?s1 = "s1\<lparr>g_manual_watchdog_active := 0, g_manual_watchdog_remaining_ms := 0\<rparr>"
    obtain ret s2 where st: "car_motor_stop ?s1 = (ret, s2)" by fastforce
    have tick: "car_motor_tick 1000 s1 = s2" using tick_due [of s1] on(1) f1 wd1 st by simp
    have "g_enabled s1 = 0" using on(3) motor_only_patrol(1) [OF f1(6)] by simp
    moreover have "motor_only ?s1 s2" using stop_frame [OF st] by blast
    ultimately have "g_enabled s2 = 0" using motor_only_patrol(1) [of ?s1 s2] by simp
    then have s32: "s3 = s2" using b tick by (simp add: tick_disabled)
    have "extends s1 s2 (ret = 0)"
      using stop_extends [OF st] on(2) f1 by (simp add: extends_def)
    then have "extends s s2 (ret = 0)" using extends_trans [OF quiet_extends [OF q1]] by fastforce
    moreover have "extends s2 (main_turn s) True"
      using quiet_extends [OF q4] by (auto simp: extends_def m s32 osDelay_def log_ev_def publish_sle_tables)
    ultimately have "extends s (main_turn s) (ret = 0)" using extends_trans by fastforce
    then have ret: "ret = 0" using on(4) by (auto simp: extends_def new_events_def)
    have "g_motor_addr s2 \<in> motor_addrs"
      using tick_wifi_inv [OF inv1, of 1000] tick by (simp add: car_wifi_inv_def car_safe_def)
    then have "bridge_regs (g_motor_addr s2) (i2c_log (main_turn s)) = bridge_regs (g_motor_addr s2) (i2c_log s2)"
      using quiet_bridge [OF q4] by (simp add: m s32 osDelay_def log_ev_def publish_sle_tables)
    moreover have "g_motor_addr (main_turn s) = g_motor_addr s2" "g_current_motion (main_turn s) = g_current_motion s2"
      by (simp_all add: m fm s32)
    ultimately show ?thesis
      using stop_acked_regs [of ?s1 s2] stop_frame [of ?s1 0 s2] st ret by simp
  qed
  with off show ?thesis by blast
qed

text \<open>A running car, moving under a manual command, whose bridge was initialised.\<close>

definition car_demo :: car_state where
  "car_demo = (car_boot (quiet_bus\<lparr>i2c_log := [I2cWrite 0x5A [0x70, 0, 0] 0, I2cWrite 0x5A [0x80, 0, 0] 0,
        I2cWrite 0x5A [0x90, 0, 0] 0, I2cWrite 0x5A [0xA0, 0, 0] 0]\<rparr>) (\<lambda>_. 1) (\<lambda>_. 0))
     \<lparr>phase := Running, g_motor_available := 1, g_manual_watchdog_active := 1,
      g_manual_watchdog_remaining_ms := 800, g_current_motion := CAR_MOTION_LEFT\<rparr>"

lemma car_demo_inv: "car_inv car_demo" "phase car_demo = Running" "g_manual_watchdog_active car_demo = 1"
proof -
  have "env_ok env_data_reset" by (simp add: env_ok_def env_data_reset_def)
  moreover have "\<forall>r \<in> bridge_regs 0x5A [I2cWrite 0x5A [0x70, 0, 0] 0, I2cWrite 0x5A [0x80, 0, 0] 0,
      I2cWrite 0x5A [0x90, 0, 0] 0, I2cWrite 0x5A [0xA0, 0, 0] 0]. bridge_ok r"
    by (auto simp: bridge_regs_def pwm_value_def bridge_ok_defs)
  ultimately show "car_inv car_demo" "phase car_demo = Running" "g_manual_watchdog_active car_demo = 1"
    by (simp_all add: car_demo_def car_boot_def sle_state.defs sle_boot_def wifi_state.defs wifi_boot_def
      patrol_state.defs patrol_boot_def motor_state.defs motor_boot_def i2c_env.defs car_inv_def car_wifi_inv_def
      car_safe_def motor_inv_def all_regs_ok_def watchdog_ok_def motor_addrs_def patrol_inv_def cur_step_def
      g_route_def mailbox_sound_def quiet_bus_def)
qed

lemma manual_motion_ends_witness:
  "g_manual_watchdog_active car_demo \<noteq> 0 \<and> g_manual_watchdog_active (main_turn car_demo) = 0"
  using manual_motion_ends [OF car_demo_inv(1,2)] car_demo_inv(3) by simp

section \<open>The properties of the whole car\<close>

text \<open>C1: In every state the car can reach, whatever the bus, the network, the radio and remote controls do and
  in whatever order the tasks run: while the bridge is in use, none of its possible register files
  drives both inputs of an H-bridge or exceeds the PWM period, even if bus writes failed half way.\<close>

theorem car_bridge_always_safe:
  assumes "reaches car_init (car_step ov) s" and "g_motor_available s \<noteq> 0"
  shows "\<forall>r \<in> bridge_regs (g_motor_addr s) (i2c_log s). h_bridge_safe r \<and> duty_bounded r"
proof -
  have "car_inv s" by (rule car.inv_reaches [OF assms(1)])
  then show ?thesis
    using assms(2) by (auto simp: car_inv_def car_wifi_inv_def car_safe_def motor_inv_def all_regs_ok_def bridge_ok_def)
qed

text \<open>C6: A car whose board or probe failed at boot never writes to the motor bridge, whatever arrives over the
  network or the radio; and no command is accepted before the main loop runs.\<close>

theorem unhealthy_car_never_drives:
  assumes "reaches car_init (car_step ov) s" and "phase s \<noteq> Running"
  shows "(\<forall>ev \<in> set (i2c_log s). \<not> motor_write ev) \<and>
    control_command_apply ov (Some p) s = (- 2, s) \<and> sle_deliver ov i s = s"
proof -
  have "car_idle s" using car.inv_reaches [OF assms(1)] assms(2) by (simp add: car_inv_def)
  then have idle: "g_motor_available s = 0" "\<forall>ev \<in> set (i2c_log s). \<not> motor_write ev" "sle_deliver ov i s = s"
    using deliver_idle by (auto simp: car_idle_def)
  obtain c where c: "control_command_parse ov (Some p) True = Some c" using parse_total by fastforce
  then have "\<not> 100 < speed_percent c" using parse_speed_ok [OF c] by (simp add: not_less)
  then have "control_command_apply ov (Some p) s = (- 2, s)"
    using idle(1) c by (simp add: control_command_apply_def car_motor_manual_command_def
      car_motor_command_def)
  with idle show ?thesis by simp
qed

lemma car_initI: "i2c_log bus = [] \<Longrightarrow> car_init (car_boot bus wans sans)"
  unfolding car_init_def by blast

lemma unhealthy_car_never_drives_witness:
  "control_command_apply (\<lambda>_. 0) (Some ''forward'') (car_boot quiet_bus (\<lambda>_. 1) (\<lambda>_. 0)) =
     (- 2, car_boot quiet_bus (\<lambda>_. 1) (\<lambda>_. 0))"
proof -
  have "reaches car_init (car_step (\<lambda>_. 0)) (car_boot quiet_bus (\<lambda>_. 1) (\<lambda>_. 0))"
    by (intro reaches_init car_initI) (simp add: quiet_bus_def)
  moreover have "phase (car_boot quiet_bus (\<lambda>_. 1) (\<lambda>_. 0)) \<noteq> Running"
    by (simp add: car_boot_def sle_state.defs)
  ultimately show ?thesis using unhealthy_car_never_drives by blast
qed

lemma patrol_tick_writes:
  "the (fst (patrol_route_tick e (Some d) s)) = d\<lparr>patrol_enabled := g_enabled s,
     motion := (if g_enabled s = 0 then CAR_MOTION_STOP else step_motion (cur_step s))\<rparr>"
  by (simp add: patrol_route_tick_def Let_def)

lemma publish_last_json:
  fixes s :: "'a sle_state_scheme"
  assumes "env_ok d" and "mailbox_sound s"
  shows "car_wifi_ap_get_last_json (snd (telemetry_publish (Some d) s)) = telemetry_text d"
  unfolding telemetry_publish_def format_ok [OF assms(1)] telemetry_publish_network_def
  using wifi_json.get_put [OF send_text_mailbox [OF assms(2)] text_fits_mailbox [OF assms(1)]]
  by simp

text \<open>What the alerts of a sample say.\<close>

definition alerts_right :: "env_data_t \<Rightarrow> bool" where
  "alerts_right d =
     (if last_error d \<noteq> 0 \<or> sample_seq d = 0 then temp_alert d = 0 \<and> humi_alert d = 0 \<and> light_alert d = 0
      else (temp_alert d = 1 \<longleftrightarrow> 320 \<le> temperature_c_x10 d) \<and> (humi_alert d = 1 \<longleftrightarrow> 800 \<le> humidity_rh_x10 d) \<and>
        (light_alert d = 1 \<longleftrightarrow> light_lux_x10 d \<le> 100) \<and>
        temp_alert d \<le> 1 \<and> humi_alert d \<le> 1 \<and> light_alert d \<le> 1)"

lemma alerts_update_right: "alerts_right (the (env_patrol_update_alerts (Some d)))"
  "sample_seq (the (env_patrol_update_alerts (Some d))) = sample_seq d"
  by (cases "last_error d \<noteq> 0 \<or> sample_seq d = 0"; auto simp: env_patrol_update_alerts_def alerts_right_def)+

lemma alerts_view: "alerts_right (d\<lparr>patrol_enabled := p, motion := m\<rparr>) = alerts_right d"
  by (simp add: alerts_right_def)

lemma publish_patrol:
  fixes s :: "'a sle_state_scheme"
  shows "g_enabled (snd (telemetry_publish d s)) = g_enabled s"
  by (auto simp: telemetry_publish_def telemetry_publish_network_def car_sle_client_send_text_def
    sle_call_def car_wifi_ap_publish_json_def Let_def split: prod.splits)

lemma patrol_tick_enabled: "g_enabled (snd (patrol_route_tick e d s)) = g_enabled s"
  by (auto simp: patrol_route_tick_def Let_def command_patrol split: option.splits)

text \<open>What the alerts and the view of the car leave alone in a sample.\<close>

lemma alerts_update_readings:
  "temperature_c_x10 (the (env_patrol_update_alerts (Some d))) = temperature_c_x10 d"
  "humidity_rh_x10 (the (env_patrol_update_alerts (Some d))) = humidity_rh_x10 d"
  "light_lux_x10 (the (env_patrol_update_alerts (Some d))) = light_lux_x10 d"
  "last_error (the (env_patrol_update_alerts (Some d))) = last_error d"
  by (simp_all add: env_patrol_update_alerts_def)

definition same_readings :: "env_data_t \<Rightarrow> env_data_t \<Rightarrow> bool" where
  "same_readings d d' = (temperature_c_x10 d = temperature_c_x10 d' \<and> humidity_rh_x10 d = humidity_rh_x10 d' \<and>
     light_lux_x10 d = light_lux_x10 d' \<and> last_error d = last_error d')"

text \<open>C7: Each turn of the main loop counts one sample, keeps in it the measurements and the error of this
  turn's reading of the sensors, sets the alerts by the documented thresholds (all off
  when a sensor failed), reports the motion the driver last accepted and whether the patrol is on,
  and leaves exactly this sample, as JSON, in the mailbox that \<open>/api/data\<close> serves.\<close>

theorem main_turn_publishes_sample:
  assumes "car_inv s" and "phase s = Running" and "d = env_data (main_turn s)"
  shows "sample_seq d = sample_seq (env_data s) + 1 \<and>
    same_readings d (fst (env_patrol_collect ((env_data s)\<lparr>sample_seq := sample_seq (env_data s) + 1\<rparr>) s)) \<and>
    alerts_right d \<and> motion d = g_current_motion (main_turn s) \<and>
    patrol_enabled d = g_enabled s \<and> g_enabled (main_turn s) = g_enabled s \<and>
    car_wifi_ap_get_last_json (main_turn s) = telemetry_text d \<and> env_ok d"
proof -
  obtain d1 s1 d3 s3 d4 o4 s4 where
    a: "env_patrol_collect ((env_data s)\<lparr>sample_seq := sample_seq (env_data s) + 1\<rparr>) s = (d1, s1)"
    and b: "patrol_route_tick 1000 (Some (the (env_patrol_update_alerts (Some d1)))) (car_motor_tick 1000 s1) = (d3, s3)"
    and d4: "d4 = (the d3)\<lparr>motion := g_current_motion s3\<rparr>"
    and c: "oled_status_render (Some d4) (oled s3) s3 = (o4, s4)"
    and m: "main_turn s = osDelay 100 (snd (telemetry_publish (Some d4) (s4\<lparr>oled := o4, env_data := d4\<rparr>)))"
    by (rule main_turn_stages [of s]) blast
  have d: "d = d4" by (simp add: assms(3) m)
  have ok: "env_ok d" using main_turn_inv(2) [OF assms(1)] assms(3) by simp
  have q4: "quiet s3 s4" using quiet_render [of s3 "Some d4" "oled s3"] c by simp
  have on1: "g_enabled (car_motor_tick 1000 s1) = g_enabled s"
    using motor_only_patrol(1) [OF bus_only_motor(6) [OF quiet_bus_only [OF quiet_collect [OF a]]]]
      motor_only_patrol(1) [OF tick_frame [of s1 1000]] by simp
  have d3: "\<exists>mo. the d3 = (the (env_patrol_update_alerts (Some d1)))\<lparr>patrol_enabled := g_enabled s, motion := mo\<rparr>"
    using patrol_tick_writes [of 1000 "the (env_patrol_update_alerts (Some d1))" "car_motor_tick 1000 s1"] b on1 by auto
  then have seq: "sample_seq d = sample_seq d1" and al: "alerts_right d" and pe: "patrol_enabled d = g_enabled s"
    unfolding d d4 using alerts_update_right [of d1] by (auto simp: alerts_view)
  have rd: "same_readings d d1"
    using d3 by (auto simp: d d4 same_readings_def alerts_update_readings)
  have on3: "g_enabled s3 = g_enabled s"
    using patrol_tick_enabled [of 1000 "Some (the (env_patrol_update_alerts (Some d1)))" "car_motor_tick 1000 s1"] b on1 by simp
  have on: "g_enabled (main_turn s) = g_enabled s"
    using motor_only_patrol(1) [OF bus_only_motor(6) [OF quiet_bus_only [OF q4]]] on3
    by (simp add: m publish_patrol osDelay_def log_ev_def)
  have "sample_seq d1 = sample_seq (env_data s) + 1"
    using collect_env(4) [OF a] assms(1) by (simp add: car_inv_def env_ok_def)
  moreover have "motion d = g_current_motion (main_turn s)"
    using bus_only_motor(5) [OF quiet_bus_only [OF q4]]
    by (simp add: d d4 m delay_motor publish_motor)
  moreover have "car_wifi_ap_get_last_json (main_turn s) = telemetry_text d"
  proof -
    let ?u = "s4\<lparr>oled := o4, env_data := d4\<rparr>"
    have "mailbox_sound ?u" using main_turn_stage_inv(1) [OF assms(1) a b d4 c] by (simp add: car_wifi_inv_def)
    then have "car_wifi_ap_get_last_json (snd (telemetry_publish (Some d4) ?u)) = telemetry_text d4"
      by (rule publish_last_json [OF ok [unfolded d]])
    then show ?thesis by (simp add: m d osDelay_def log_ev_def car_wifi_ap_get_last_json_def)
  qed
  ultimately show ?thesis using seq al ok pe on rd a by simp
qed

lemma main_turn_publishes_sample_witness:
  "sample_seq (env_data (main_turn car_demo)) = 1 \<and> patrol_enabled (env_data (main_turn car_demo)) = 0 \<and>
   car_wifi_ap_get_last_json (main_turn car_demo) = telemetry_text (env_data (main_turn car_demo))"
proof -
  have "sample_seq (env_data car_demo) = 0" "g_enabled car_demo = 0"
    by (simp_all add: car_demo_def car_boot_def sle_state.defs env_data_reset_def sle_boot_def wifi_state.defs
      wifi_boot_def patrol_state.defs patrol_boot_def motor_state.defs motor_boot_def)
  then show ?thesis using main_turn_publishes_sample [OF car_demo_inv(1,2) refl] by simp
qed

section \<open>A boot that succeeds\<close>

lemma quiet_ans: "quiet s s' \<Longrightarrow> i2c_ans s' = i2c_ans s"
  by (simp add: quiet_def bus_only_def)

lemma all_acked_probe:
  assumes "i2c_ans s = (\<lambda>_. (0, []))"
  shows "fst (car_board_init s) = 0" "fst (car_board_probe_i2c_devices s) = 0"
  using assms
  by (simp_all add: car_board_init_def car_board_probe_i2c_devices_def g_probe_items_def core_addr_def
    i2c_defs bus_answer_def)

lemma all_acked_motor:
  fixes s :: "'a motor_state_scheme"
  assumes "i2c_ans s = (\<lambda>_. (0, []))"
  shows "g_motor_available (snd (car_motor_init s)) = 1"
proof -
  have "fst (motor_try_stop_at 0x5A s) = 0"
    using assms by (simp add: motor_try_stop_at_def motor_write_freq_to_def motor_write_pwm_to_def i2c_defs bus_answer_def)
  then show ?thesis
    using stop_frame [OF surjective_pairing, of "(snd (motor_try_stop_at 0x5A s))\<lparr>g_motor_addr := 0x5A, g_motor_available := 1\<rparr>"]
    by (simp add: car_motor_init_def Let_def case_prod_beta)
qed

lemma starts_available:
  fixes s :: "'a sle_state_scheme"
  shows "car_sle_client_start ok s = (r, s') \<Longrightarrow> g_motor_available s' = g_motor_available s"
    "car_wifi_ap_start t = (r, t') \<Longrightarrow> g_motor_available t' = g_motor_available t"
  by (auto simp: car_sle_client_start_def car_wifi_ap_start_def wifi_query_def wifi_count_def Let_def split: if_splits)

lemma patrol_init_available: "g_motor_available (patrol_route_init s) = g_motor_available s"
  by (simp add: patrol_route_init_def)

lemma all_acked_boot:
  assumes "i2c_ans s = (\<lambda>_. (0, []))"
  shows "g_motor_available (env_patrol_task_boot ok s) = 1 \<and> phase (env_patrol_task_boot ok s) = Running"
proof -
  obtain s1 where b: "car_board_init (s\<lparr>env_data := env_data_reset\<rparr>) = (0, s1)"
    using all_acked_probe(1) [of "s\<lparr>env_data := env_data_reset\<rparr>"] assms by (cases "car_board_init (s\<lparr>env_data := env_data_reset\<rparr>)") simp
  then have a1: "i2c_ans s1 = (\<lambda>_. (0, []))" using quiet_ans [OF quiet_board_init [OF b]] assms by simp
  obtain s2 where p: "car_board_probe_i2c_devices s1 = (0, s2)"
    using all_acked_probe(2) [OF a1] by (metis prod.collapse)
  let ?s4 = "snd (bh1750_init (snd (aht20_init s2)))"
  have "quiet s2 ?s4"
    using quiet_aht20 [OF surjective_pairing] quiet_bh1750 [OF surjective_pairing] quiet_trans by blast
  then have a4: "i2c_ans ?s4 = (\<lambda>_. (0, []))" using quiet_ans quiet_ans [OF quiet_probe_devices [OF p]] a1 by metis
  obtain o5 s5 where o5: "oled_status_init (oled ?s4) ?s4 = (o5, s5)" by fastforce
  have "i2c_ans (s5\<lparr>oled := o5\<rparr>) = (\<lambda>_. (0, []))"
    using quiet_ans [OF quiet_oled_init, of "oled ?s4" ?s4] o5 a4 by simp
  note av = all_acked_motor [OF this]
  obtain ra s10 where ap: "car_wifi_ap_start (patrol_route_init (snd (car_motor_init (s5\<lparr>oled := o5\<rparr>)))) = (ra, s10)"
    by fastforce
  obtain rb s11 where sl: "car_sle_client_start ok s10 = (rb, s11)" by fastforce
  show ?thesis
    using av starts_available(1) [OF sl] starts_available(2) [OF ap]
    by (simp add: env_patrol_task_boot_def b p o5 ap sl env_patrol_motor_self_test_def
      env_patrol_motor_diag_exip06_def patrol_init_available Let_def case_prod_beta)
qed

lemma car_bridge_always_safe_witness:
  "let s = env_patrol_task_boot True (car_boot quiet_bus (\<lambda>_. 1) (\<lambda>_. 0))
   in g_motor_available s = 1 \<and> (\<forall>r \<in> bridge_regs (g_motor_addr s) (i2c_log s). h_bridge_safe r \<and> duty_bounded r)"
proof -
  let ?s0 = "car_boot quiet_bus (\<lambda>_. 1) (\<lambda>_. 0)"
  have "reaches car_init (car_step (\<lambda>_. 0)) ?s0"
    by (intro reaches_init car_initI) (simp add: quiet_bus_def)
  moreover have "phase ?s0 = Booting" by (simp add: car_boot_def sle_state.defs)
  ultimately have "reaches car_init (car_step (\<lambda>_. 0)) (env_patrol_task_boot True ?s0)"
    by (blast intro: reaches_step step_boot)
  moreover have "i2c_ans ?s0 = (\<lambda>_. (0, []))"
    by (simp add: car_boot_def sle_state.defs sle_boot_def wifi_state.defs wifi_boot_def
      patrol_state.defs patrol_boot_def motor_state.defs motor_boot_def i2c_env.defs quiet_bus_def)
  note all_acked_boot [OF this, of True]
  ultimately show ?thesis
    using car_bridge_always_safe [of "\<lambda>_. 0" "env_patrol_task_boot True ?s0"] by simp
qed

end
