(* ===== verification/Crc16.thy ===== *)
theory Crc16
  imports Prelude
begin

text \<open>
  The checksum of the boot loaders, boot_crc16.c: a table-driven CRC-16 with the polynomial
  x^16 + x^12 + x^5 + 1. The reference definition shifts one bit at a time; the table routine is
  proved equal to it. From the shape of the table follow the two facts the frame formats rely on:
  appending the checksum (high byte first) gives a text with checksum 0, and every corruption that is
  confined to two neighbouring bytes changes the checksum.
\<close>

section \<open>boot_crc16.c\<close>

definition g_crc16_tab :: "u16 list" where
  "g_crc16_tab =
    [0x0000, 0x1021, 0x2042, 0x3063, 0x4084, 0x50a5, 0x60c6, 0x70e7,
     0x8108, 0x9129, 0xa14a, 0xb16b, 0xc18c, 0xd1ad, 0xe1ce, 0xf1ef,
     0x1231, 0x0210, 0x3273, 0x2252, 0x52b5, 0x4294, 0x72f7, 0x62d6,
     0x9339, 0x8318, 0xb37b, 0xa35a, 0xd3bd, 0xc39c, 0xf3ff, 0xe3de,
     0x2462, 0x3443, 0x0420, 0x1401, 0x64e6, 0x74c7, 0x44a4, 0x5485,
     0xa56a, 0xb54b, 0x8528, 0x9509, 0xe5ee, 0xf5cf, 0xc5ac, 0xd58d,
     0x3653, 0x2672, 0x1611, 0x0630, 0x76d7, 0x66f6, 0x5695, 0x46b4,
     0xb75b, 0xa77a, 0x9719, 0x8738, 0xf7df, 0xe7fe, 0xd79d, 0xc7bc,
     0x48c4, 0x58e5, 0x6886, 0x78a7, 0x0840, 0x1861, 0x2802, 0x3823,
     0xc9cc, 0xd9ed, 0xe98e, 0xf9af, 0x8948, 0x9969, 0xa90a, 0xb92b,
     0x5af5, 0x4ad4, 0x7ab7, 0x6a96, 0x1a71, 0x0a50, 0x3a33, 0x2a12,
     0xdbfd, 0xcbdc, 0xfbbf, 0xeb9e, 0x9b79, 0x8b58, 0xbb3b, 0xab1a,
     0x6ca6, 0x7c87, 0x4ce4, 0x5cc5, 0x2c22, 0x3c03, 0x0c60, 0x1c41,
     0xedae, 0xfd8f, 0xcdec, 0xddcd, 0xad2a, 0xbd0b, 0x8d68, 0x9d49,
     0x7e97, 0x6eb6, 0x5ed5, 0x4ef4, 0x3e13, 0x2e32, 0x1e51, 0x0e70,
     0xff9f, 0xefbe, 0xdfdd, 0xcffc, 0xbf1b, 0xaf3a, 0x9f59, 0x8f78,
     0x9188, 0x81a9, 0xb1ca, 0xa1eb, 0xd10c, 0xc12d, 0xf14e, 0xe16f,
     0x1080, 0x00a1, 0x30c2, 0x20e3, 0x5004, 0x4025, 0x7046, 0x6067,
     0x83b9, 0x9398, 0xa3fb, 0xb3da, 0xc33d, 0xd31c, 0xe37f, 0xf35e,
     0x02b1, 0x1290, 0x22f3, 0x32d2, 0x4235, 0x5214, 0x6277, 0x7256,
     0xb5ea, 0xa5cb, 0x95a8, 0x8589, 0xf56e, 0xe54f, 0xd52c, 0xc50d,
     0x34e2, 0x24c3, 0x14a0, 0x0481, 0x7466, 0x6447, 0x5424, 0x4405,
     0xa7db, 0xb7fa, 0x8799, 0x97b8, 0xe75f, 0xf77e, 0xc71d, 0xd73c,
     0x26d3, 0x36f2, 0x0691, 0x16b0, 0x6657, 0x7676, 0x4615, 0x5634,
     0xd94c, 0xc96d, 0xf90e, 0xe92f, 0x99c8, 0x89e9, 0xb98a, 0xa9ab,
     0x5844, 0x4865, 0x7806, 0x6827, 0x18c0, 0x08e1, 0x3882, 0x28a3,
     0xcb7d, 0xdb5c, 0xeb3f, 0xfb1e, 0x8bf9, 0x9bd8, 0xabbb, 0xbb9a,
     0x4a75, 0x5a54, 0x6a37, 0x7a16, 0x0af1, 0x1ad0, 0x2ab3, 0x3a92,
     0xfd2e, 0xed0f, 0xdd6c, 0xcd4d, 0xbdaa, 0xad8b, 0x9de8, 0x8dc9,
     0x7c26, 0x6c07, 0x5c64, 0x4c45, 0x3ca2, 0x2c83, 0x1ce0, 0x0cc1,
     0xef1f, 0xff3e, 0xcf5d, 0xdf7c, 0xaf9b, 0xbfba, 0x8fd9, 0x9ff8,
     0x6e17, 0x7e36, 0x4e55, 0x5e74, 0x2e93, 0x3eb2, 0x0ed1, 0x1ef0]"

definition crc16_step :: "u16 \<Rightarrow> u8 \<Rightarrow> u16" where
  "crc16_step cksum b =
     g_crc16_tab ! unat ((drop_bit 8 cksum XOR ucast b) AND 0xFF) XOR push_bit 8 cksum"

text \<open>The buffer and its length are the list of the bytes; a null buffer is \<open>None\<close>.\<close>

definition crc16_ccitt :: "u16 \<Rightarrow> u8 list option \<Rightarrow> u16" where
  "crc16_ccitt crc_start buf =
     (case buf of None \<Rightarrow> 0
      | Some bs \<Rightarrow> if bs = [] then 0 else foldl crc16_step crc_start bs)"

section \<open>Bit by bit\<close>

definition crc_shift :: "u16 \<Rightarrow> u16" where
  "crc_shift c = (if bit c 15 then push_bit 1 c XOR 0x1021 else push_bit 1 c)"

definition crc_byte :: "u16 \<Rightarrow> u8 \<Rightarrow> u16" where
  "crc_byte c b = (crc_shift ^^ 8) (c XOR push_bit 8 (ucast b))"

text \<open>
  The table is checked by doubling: entry \<open>2 i\<close> is entry \<open>i\<close> shifted once more, entry \<open>2 i + 1\<close>
  differs from it by the polynomial.
\<close>

fun doubles :: "u16 list \<Rightarrow> u16 list \<Rightarrow> bool" where
  "doubles (x # xs) (a # b # r) = (a = crc_shift x \<and> b = a XOR 0x1021 \<and> doubles xs r)"
| "doubles [] r = (r = [])"
| "doubles _ _ = False"

lemma length_crc16_tab [simp]: "length g_crc16_tab = 256"
  by (simp add: g_crc16_tab_def)

lemma crc16_tab_doubles: "doubles (take 128 g_crc16_tab) g_crc16_tab"
  by (simp add: g_crc16_tab_def crc_shift_def)

lemma doubles_nth:
  "doubles xs r \<Longrightarrow> i < length xs \<Longrightarrow>
     r ! (2 * i) = crc_shift (xs ! i) \<and> r ! Suc (2 * i) = r ! (2 * i) XOR 0x1021"
proof (induction xs r arbitrary: i rule: doubles.induct)
  case (1 x xs a b r)
  then show ?case by (cases i) auto
qed auto

lemma crc_shift_0 [simp]: "crc_shift 0 = 0"
  by (simp add: crc_shift_def)

lemma crc_shift_xor: "crc_shift (x XOR y) = crc_shift x XOR crc_shift y"
  by (cases "bit x 15"; cases "bit y 15")
    (auto simp: crc_shift_def bit_xor_iff xor.assoc xor.left_commute xor.commute)

lemma crc_shifts_xor: "(crc_shift ^^ n) (x XOR y) = (crc_shift ^^ n) x XOR (crc_shift ^^ n) y"
  by (induction n) (auto simp: crc_shift_xor)

lemma crc_shift_eq_0: "crc_shift x = 0 \<Longrightarrow> x = 0"
proof -
  assume a: "crc_shift x = 0"
  have "bit (crc_shift x) 0 = bit x 15" by (simp add: crc_shift_def bit_0 even_xor_iff)
  then have h: "\<not> bit x 15" using a by simp
  then have p: "push_bit 1 x = 0" using a by (simp add: crc_shift_def)
  show "x = 0"
  proof (rule bit_word_eqI)
    fix n assume "n < LENGTH(16)"
    then have n: "n < 16" by simp
    have "bit (push_bit 1 x) (Suc n) = bit x n" if "n < 15"
      using that by (subst bit_push_bit_iff) simp
    then have "\<not> bit x n" if "n < 15" using that p by simp
    then show "bit x n = bit 0 n" using h n by (cases "n = 15") auto
  qed
qed

lemma crc_shifts_eq_0: "(crc_shift ^^ n) x = 0 \<Longrightarrow> x = 0"
  by (induction n) (auto dest: crc_shift_eq_0)

lemma crc_shifts_inj: "(crc_shift ^^ n) x = (crc_shift ^^ n) y \<longleftrightarrow> x = y"
  using crc_shifts_eq_0 [of n "x XOR y"] by (auto simp: crc_shifts_xor xor_self_eq_0)

lemma crc_shift_small: "\<not> bit x 15 \<Longrightarrow> crc_shift x = push_bit 1 x"
  by (simp add: crc_shift_def)

lemma crc_shifts_small: "n \<le> 8 \<Longrightarrow> (crc_shift ^^ n) (ucast (b :: u8)) = push_bit n (ucast b)"
proof (induction n)
  case (Suc n)
  have "\<not> bit (push_bit n (ucast b) :: u16) 15"
    using Suc.prems by (auto simp: bit_push_bit_iff bit_ucast_iff dest: bit_imp_le_length)
  with Suc show ?case by (simp add: crc_shift_small)
qed simp

lemma crc16_tab_nth:
  "i < 256 \<Longrightarrow> g_crc16_tab ! i = (crc_shift ^^ 8) (push_bit 8 (of_nat i))"
proof (induction i rule: less_induct)
  case (less i)
  have one: "(crc_shift ^^ 8) (push_bit 8 1) = (0x1021 :: u16)"
    by (simp add: funpow8 crc_shift_def)
  show ?case
  proof (cases "i = 0")
    case True
    then show ?thesis by (simp add: g_crc16_tab_def funpow8)
  next
    case False
    define j where "j = i div 2"
    have j: "j < i" "j < 128" using False less.prems by (auto simp: j_def)
    have "\<not> bit (push_bit 8 (of_nat j) :: u16) 15"
      using j less_pow2_no_bit [of "of_nat j :: u16" 7 7]
      by (auto simp: bit_push_bit_iff word_less_nat_alt unat_of_nat)
    then have sh: "crc_shift (push_bit 8 (of_nat j)) = push_bit 8 (of_nat (2 * j))"
      by (simp add: crc_shift_small push_bit_eq_mult algebra_simps)
    have e: "g_crc16_tab ! (2 * j) = (crc_shift ^^ 8) (push_bit 8 (of_nat (2 * j)))"
      using doubles_nth [OF crc16_tab_doubles, of j] less.IH [of j] j sh
      by (simp add: funpow_swap1)
    have o: "g_crc16_tab ! Suc (2 * j) = g_crc16_tab ! (2 * j) XOR 0x1021"
      using doubles_nth [OF crc16_tab_doubles, of j] j by simp
    have odd: "push_bit 8 (of_nat (Suc (2 * j))) = push_bit 8 (of_nat (2 * j)) XOR (push_bit 8 1 :: u16)"
    proof -
      have "(of_nat (Suc (2 * j)) :: u16) = of_nat (2 * j) XOR 1"
        by (simp add: even_xor_iff xor_one_eq)
      then show ?thesis by (simp add: push_bit_xor)
    qed
    show ?thesis
    proof (cases "even i")
      case True
      then have "i = 2 * j" by (simp add: j_def)
      then show ?thesis using e by simp
    next
      case False
      then have "i = Suc (2 * j)" by (simp add: j_def)
      then show ?thesis using e o odd one by (simp only: crc_shifts_xor)
    qed
  qed
qed

lemma u16_split: "(c :: u16) = push_bit 8 (drop_bit 8 c) XOR (c AND 0xFF)"
  by (rule bit_word_eqI) (auto simp: u16_FF_mask bit_xor_iff bit_and_iff bit_mask_iff bit_push_bit_iff bit_drop_bit_eq)

theorem crc16_step_bits: "crc16_step c b = crc_byte c b"
proof -
  define x where "x = (drop_bit 8 c XOR ucast b) AND 0xFF"
  have lt: "unat x < 256"
  proof -
    have "x < 2 ^ 8" unfolding x_def u16_FF_mask
      by (rule word_less_pow2I) (auto simp: bit_and_iff bit_mask_iff)
    then show ?thesis by (simp add: word_less_nat_alt)
  qed
  have x: "x = drop_bit 8 c XOR ucast b" unfolding x_def u16_FF_mask
    by (rule bit_word_eqI)
      (auto simp: bit_and_iff bit_mask_iff bit_xor_iff bit_drop_bit_eq bit_ucast_iff
        dest: bit_imp_le_length)
  have c: "c XOR push_bit 8 (ucast b) = push_bit 8 x XOR (c AND 0xFF)"
    by (subst u16_split [of c]) (simp add: x xor.assoc xor.commute xor.left_commute)
  have low: "c AND 0xFF = ucast (ucast c :: u8)" unfolding u16_FF_mask
    by (rule bit_word_eqI) (auto simp: bit_and_iff bit_mask_iff bit_ucast_iff)
  have "crc_byte c b = (crc_shift ^^ 8) (push_bit 8 x) XOR push_bit 8 (c AND 0xFF)"
    unfolding crc_byte_def c crc_shifts_xor low by (simp add: crc_shifts_small)
  moreover have "push_bit 8 (c AND 0xFF) = push_bit 8 c" unfolding u16_FF_mask
    by (rule bit_word_eqI) (auto simp: bit_and_iff bit_mask_iff bit_push_bit_iff)
  ultimately show ?thesis using lt
    by (simp add: crc16_step_def x_def [symmetric] crc16_tab_nth)
qed

lemma crc16_ccitt_bits:
  "crc16_ccitt s (Some bs) = (if bs = [] then 0 else foldl crc_byte s bs)"
proof -
  have "crc16_step = crc_byte" by (intro ext) (rule crc16_step_bits)
  then show ?thesis by (simp add: crc16_ccitt_def)
qed

lemma crc_byte_inj_state: "crc_byte c b = crc_byte c' b \<longleftrightarrow> c = c'"
  by (simp add: crc_byte_def crc_shifts_inj xor_cancel_right)

lemma foldl_crc_byte_inj: "foldl crc_byte c bs = foldl crc_byte c' bs \<longleftrightarrow> c = c'"
  by (induction bs arbitrary: c c') (auto simp: crc_byte_inj_state)

text \<open>Two bytes are one step on 16 bits.\<close>

definition byte_pair :: "u8 \<Rightarrow> u8 \<Rightarrow> u16" where
  "byte_pair hi lo = push_bit 8 (ucast hi) XOR ucast lo"

lemma byte_pair_inj: "byte_pair a b = byte_pair c d \<longleftrightarrow> a = c \<and> b = d"
proof
  assume e: "byte_pair a b = byte_pair c d"
  have hi: "ucast (drop_bit 8 (byte_pair a b)) = a" for a b
    by (rule bit_word_eqI)
      (auto simp: byte_pair_def bit_ucast_iff bit_drop_bit_eq bit_xor_iff bit_push_bit_iff dest: bit_imp_le_length)
  have lo: "ucast (byte_pair a b) = b" for a b
    by (rule bit_word_eqI) (auto simp: byte_pair_def bit_ucast_iff bit_xor_iff bit_push_bit_iff)
  show "a = c \<and> b = d" using hi [of a b] hi [of c d] lo [of a b] lo [of c d] e by simp
qed simp

lemma crc_two_bytes:
  "crc_byte (crc_byte c a) b = (crc_shift ^^ 16) (c XOR byte_pair a b)"
proof -
  have "crc_byte (crc_byte c a) b
      = (crc_shift ^^ 8) ((crc_shift ^^ 8) (c XOR push_bit 8 (ucast a)) XOR (crc_shift ^^ 8) (ucast b))"
    by (simp add: crc_byte_def crc_shifts_small)
  also have "\<dots> = (crc_shift ^^ 8) ((crc_shift ^^ 8) (c XOR byte_pair a b))"
    by (simp add: crc_shifts_xor [symmetric] byte_pair_def xor.assoc)
  also have "\<dots> = (crc_shift ^^ (8 + 8)) (c XOR byte_pair a b)"
    by (simp only: funpow_add comp_def)
  finally show ?thesis by simp
qed

lemma crc_window_inj:
  assumes "length a = length a'" and "length a \<le> 2"
    and "foldl crc_byte c a = foldl crc_byte c a'"
  shows "a = a'"
proof -
  consider "a = []" "a' = []" | x x' where "a = [x]" "a' = [x']"
    | x y x' y' where "a = [x, y]" "a' = [x', y']"
    using assms(1,2) by (cases a; cases a'; cases "tl a"; cases "tl a'") auto
  then show ?thesis
  proof cases
    case 2
    with assms(3) have "c XOR byte_pair x 0 = c XOR byte_pair x' 0"
      by (simp add: crc_byte_def crc_shifts_inj byte_pair_def)
    then show ?thesis using 2 by (simp add: byte_pair_inj xor_cancel_left)
  next
    case 3
    with assms(3) have "c XOR byte_pair x y = c XOR byte_pair x' y'"
      by (simp add: crc_two_bytes crc_shifts_inj xor_cancel_left)
    then show ?thesis using 3 by (simp add: byte_pair_inj xor_cancel_left)
  qed simp
qed

lemma crc16_window:
  assumes "length a = length a'" and "length a \<le> 2" and "a \<noteq> a'"
  shows "crc16_ccitt s (Some (p @ a @ q)) \<noteq> crc16_ccitt s (Some (p @ a' @ q))"
proof
  assume "crc16_ccitt s (Some (p @ a @ q)) = crc16_ccitt s (Some (p @ a' @ q))"
  moreover have "a \<noteq> []" "a' \<noteq> []" using assms by auto
  ultimately have "foldl crc_byte (foldl crc_byte s p) a = foldl crc_byte (foldl crc_byte s p) a'"
    by (simp add: crc16_ccitt_bits foldl_crc_byte_inj)
  with crc_window_inj assms show False by blast
qed

text \<open>A corruption of a frame that is confined to two neighbouring bytes (any single byte, any
  burst of up to nine bits, any swap of two neighbours) changes its checksum, whatever the bytes
  before and behind it are and whatever the start value is.\<close>

theorem crc16_detects_burst:
  assumes "length a = length a'" and "length a \<le> 2" and "a \<noteq> a'"
  shows "crc16_ccitt s (Some (p @ a @ q)) \<noteq> crc16_ccitt s (Some (p @ a' @ q))"
  using assms by (rule crc16_window)

lemma crc16_detects_burst_witness:
  "crc16_ccitt 0 (Some [0x31, 0x32, 0x33]) \<noteq> crc16_ccitt 0 (Some [0x31, 0x33, 0x32])"
  using crc16_detects_burst [of "[0x32, 0x33]" "[0x33, 0x32]" 0 "[0x31]" "[]"] by simp

text \<open>C31: The table routine computes the remainder of the CRC-16 polynomial bit by bit, and
  appending a checksum, high byte first, to the text it protects always gives a text whose checksum
  is 0.\<close>

theorem crc16_reference_and_residue:
  "crc16_ccitt s (Some (b # bs)) = foldl crc_byte s (b # bs)
   \<and> crc16_ccitt s (Some (b # bs @ [ucast (drop_bit 8 (crc16_ccitt s (Some (b # bs)))),
       ucast (crc16_ccitt s (Some (b # bs)))])) = 0"
proof -
  let ?k = "foldl crc_byte s (b # bs)"
  have k: "byte_pair (ucast (drop_bit 8 c)) (ucast c) = c" for c
    by (rule bit_word_eqI)
      (auto simp: byte_pair_def bit_xor_iff bit_push_bit_iff bit_ucast_iff bit_drop_bit_eq)
  have "crc_byte (crc_byte ?k (ucast (drop_bit 8 ?k))) (ucast ?k) = 0"
  proof -
    have z: "(crc_shift ^^ n) 0 = 0" for n by (induction n) auto
    show ?thesis unfolding crc_two_bytes k by (simp add: z)
  qed
  then show ?thesis by (simp add: crc16_ccitt_bits)
qed

section \<open>The contract of a frame checksum\<close>

text \<open>
  What the frame formats of the loaders rely on: no two texts that differ only in a window of two
  bytes have the same sum. A frame that carries the sum of its body is then refused after any such
  change of the body.
\<close>

locale frame_check =
  fixes sum :: "u8 list \<Rightarrow> u16"
  assumes burst: "length a = length a' \<Longrightarrow> length a \<le> 2 \<Longrightarrow> a \<noteq> a' \<Longrightarrow> sum (p @ a @ q) \<noteq> sum (p @ a' @ q)"
begin

lemma changed_byte_refused:
  assumes "i < length bs" and "v \<noteq> bs ! i"
  shows "sum (bs[i := v]) \<noteq> sum bs"
proof -
  have "bs[i := v] = take i bs @ [v] @ drop (Suc i) bs"
    using assms(1) by (simp add: upd_conv_take_nth_drop)
  moreover have "bs = take i bs @ [bs ! i] @ drop (Suc i) bs"
    using assms(1) by (simp add: id_take_nth_drop)
  ultimately show ?thesis
    using burst [of "[v]" "[bs ! i]" "take i bs" "drop (Suc i) bs"] assms(2) by auto
qed

end

abbreviation frame_sum :: "u8 list \<Rightarrow> u16" where
  "frame_sum bs \<equiv> crc16_ccitt 0 (Some bs)"

interpretation crc: frame_check frame_sum
  by unfold_locales (rule crc16_window)

end
