(* ===== verification/BootSerial.thy ===== *)
theory BootSerial
  imports CText
begin

text \<open>
  The serial port of the boot loaders (chips/ws63/boot/boot_porting/serial/serial.c) and the devices
  the loader code touches.

  Everything that arrives on the UART is the list \<open>rx_in\<close>: one entry for each attempt to read,
  \<open>Some b\<close> when a byte is in the FIFO before the attempt gives up, \<open>None\<close> when it is not; when the
  list is used up no attempt succeeds any more. A property that quantifies over \<open>rx_in\<close> holds for
  every sender and every timing. What the loader does is appended to \<open>boot_log\<close>, oldest first: the
  bytes it sends, the kicks of the watchdog, the delays and the accesses to the flash and the
  RAM. The flash controller driver and the ROM cipher driver below the loader are outside the model:
  \<open>flash_ans n\<close> is the error code of the n-th operation on them.
\<close>

section \<open>State\<close>

datatype boot_event =
    Tx u8
  | Kick
  | BootMDelay nat
  | BootUDelay nat
  | FlashErase u32 u32 u32
  | FlashEraseChip u32
  | FlashWrite u32 "u8 list" u32
  | RamWrite u32 "u8 list"
  | ChipReset
  | UartInit u32 u8 u8 u8
  | UartDeinit
  | UartClock u32
  | RegBit u32 nat bool
  | BootStatus u16
  | CipherCall nat u32

record boot_io =
  g_uart_mute :: bool
  rx_in :: "u8 option list"
  boot_log :: "boot_event list"
  flash_ans :: "nat \<Rightarrow> u32"
  flash_n :: nat

definition boot_do :: "boot_event \<Rightarrow> 'a boot_io_scheme \<Rightarrow> 'a boot_io_scheme" where
  "boot_do ev s = s\<lparr>boot_log := boot_log s @ [ev]\<rparr>"

definition boot_wdt_kick :: "'a boot_io_scheme \<Rightarrow> 'a boot_io_scheme" where
  "boot_wdt_kick s = boot_do Kick s"

definition mdelay :: "nat \<Rightarrow> 'a boot_io_scheme \<Rightarrow> 'a boot_io_scheme" where
  "mdelay ms s = boot_do (BootMDelay ms) s"

definition udelay :: "nat \<Rightarrow> 'a boot_io_scheme \<Rightarrow> 'a boot_io_scheme" where
  "udelay us s = boot_do (BootUDelay us) s"

section \<open>Sending\<close>

definition serial_set_mute :: "'a boot_io_scheme \<Rightarrow> 'a boot_io_scheme" where
  "serial_set_mute s = s\<lparr>g_uart_mute := True\<rparr>"

definition serial_cancel_mute :: "'a boot_io_scheme \<Rightarrow> 'a boot_io_scheme" where
  "serial_cancel_mute s = s\<lparr>g_uart_mute := False\<rparr>"

definition check_uart_mute :: "'a boot_io_scheme \<Rightarrow> bool" where
  "check_uart_mute s = g_uart_mute s"

definition serial_put_buf :: "u8 list \<Rightarrow> 'a boot_io_scheme \<Rightarrow> 'a boot_io_scheme" where
  "serial_put_buf bs s = (if check_uart_mute s then s else s\<lparr>boot_log := boot_log s @ map Tx bs\<rparr>)"

definition serial_putc :: "u8 \<Rightarrow> 'a boot_io_scheme \<Rightarrow> 'a boot_io_scheme" where
  "serial_putc c s = (if check_uart_mute s then s else boot_do (Tx c) s)"

definition serial_puts :: "string \<Rightarrow> 'a boot_io_scheme \<Rightarrow> 'a boot_io_scheme" where
  "serial_puts str s =
     (if check_uart_mute s then s else s\<lparr>boot_log := boot_log s @ map (\<lambda>c. Tx (of_char c)) str\<rparr>)"

text \<open>
  The digits of \<open>serial_puthex\<close>: eight nibbles, the highest first, without the leading zeros unless
  \<open>print_all\<close> is set; the last digit is always printed.
\<close>

definition hex_char :: "u32 \<Rightarrow> u8" where
  "hex_char temp = (let c = ucast (drop_bit 28 temp AND 0x0F) in if 10 \<le> c then (c - 10) + 0x41 else c + 0x30)"

fun puthex_loop :: "nat \<Rightarrow> bool \<Rightarrow> bool \<Rightarrow> u32 \<Rightarrow> u8 list" where
  "puthex_loop 0 print_all mark temp = []"
| "puthex_loop (Suc n) print_all mark temp =
     (let c = hex_char temp; rest = push_bit 4 temp
      in if print_all then c # puthex_loop n print_all mark rest
         else if \<not> mark \<and> n \<noteq> 0 then
           if c \<noteq> 0x30 then c # puthex_loop n print_all True rest
           else puthex_loop n print_all mark rest
         else c # puthex_loop n print_all mark rest)"

definition serial_puthex :: "u32 \<Rightarrow> bool \<Rightarrow> 'a boot_io_scheme \<Rightarrow> 'a boot_io_scheme" where
  "serial_puthex h print_all s =
     (if check_uart_mute s then s
      else serial_put_buf (puthex_loop 8 print_all False h) (serial_puts ''0x'' s))"

definition nl :: string where "nl = [CHR 0x0A]"
definition crnl :: string where "crnl = [CHR 0x0D, CHR 0x0A]"

definition boot_put_errno :: "u32 \<Rightarrow> 'a boot_io_scheme \<Rightarrow> 'a boot_io_scheme" where
  "boot_put_errno err s =
     mdelay 100 (serial_puts nl (serial_puthex err False (serial_puts (nl @ ''errno='') s)))"

definition boot_puthex :: "u32 \<Rightarrow> bool \<Rightarrow> 'a boot_io_scheme \<Rightarrow> 'a boot_io_scheme" where
  "boot_puthex h print0 s = serial_puthex h print0 (serial_puts '' '' s)"

definition boot_msg0 :: "string \<Rightarrow> 'a boot_io_scheme \<Rightarrow> 'a boot_io_scheme" where
  "boot_msg0 msg s = serial_puts crnl (serial_puts msg s)"

definition boot_msg1 :: "string \<Rightarrow> u32 \<Rightarrow> 'a boot_io_scheme \<Rightarrow> 'a boot_io_scheme" where
  "boot_msg1 msg h s = serial_puts crnl (serial_puthex h False (serial_puts msg s))"

definition boot_msg2 :: "string \<Rightarrow> u32 \<Rightarrow> u32 \<Rightarrow> 'a boot_io_scheme \<Rightarrow> 'a boot_io_scheme" where
  "boot_msg2 msg h1 h2 s =
     serial_puts crnl (serial_puthex h2 False (serial_puts '' '' (serial_puthex h1 False (serial_puts msg s))))"

section \<open>Receiving\<close>

text \<open>One attempt to read within \<open>timeout_us\<close> polls of the FIFO.\<close>

definition serial_getc_timeout :: "u32 \<Rightarrow> 'a boot_io_scheme \<Rightarrow> u8 option \<times> 'a boot_io_scheme" where
  "serial_getc_timeout timeout_us s =
     (if timeout_us = 0 then (None, s)
      else case rx_in s of [] \<Rightarrow> (None, s) | x # xs \<Rightarrow> (x, s\<lparr>rx_in := xs\<rparr>))"

text \<open>
  The loop that reads until nothing comes any more: what it leaves of the input.
\<close>

fun flush_rx :: "u8 option list \<Rightarrow> u8 option list" where
  "flush_rx [] = []"
| "flush_rx (None # xs) = xs"
| "flush_rx (Some b # xs) = flush_rx xs"

lemma flush_rx_length: "length (flush_rx xs) \<le> length xs"
  by (induction xs rule: flush_rx.induct) auto

end
