(* ===== verification/Ymodem.thy ===== *)
theory Ymodem
  imports Crc16 BootSerial
begin

text \<open>
  The YMODEM receiver of the loader, boot_ymodem.c, in the configuration of the loader boot
  (packets of up to 8192 bytes). The record \<open>ymodem_context\<close> is the code's \<open>g_ymodem\<close> on top of the
  serial port; the loops over received bytes are recursions on the input list, the retry loops on
  their number of retries, so that every operation is a total function: no sender and no silence can
  keep the receiver from returning.
\<close>

section \<open>Constants and state\<close>

abbreviation (input) YMODEM_SOH :: u8 where "YMODEM_SOH \<equiv> 0x01"
abbreviation (input) YMODEM_STX :: u8 where "YMODEM_STX \<equiv> 0x02"
abbreviation (input) YMODEM_EOT :: u8 where "YMODEM_EOT \<equiv> 0x04"
abbreviation (input) YMODEM_ACK :: u8 where "YMODEM_ACK \<equiv> 0x06"
abbreviation (input) YMODEM_STX_A :: u8 where "YMODEM_STX_A \<equiv> 0x0a"
abbreviation (input) YMODEM_STX_B :: u8 where "YMODEM_STX_B \<equiv> 0x0b"
abbreviation (input) YMODEM_STX_C :: u8 where "YMODEM_STX_C \<equiv> 0x0c"
abbreviation (input) YMODEM_CAN :: u8 where "YMODEM_CAN \<equiv> 0x18"
abbreviation (input) YMODEM_C :: u8 where "YMODEM_C \<equiv> 0x43"

abbreviation (input) YMODEM_TIMEOUT :: u32 where "YMODEM_TIMEOUT \<equiv> 0xC35A69A6"
abbreviation (input) YMODEM_CANCEL :: u32 where "YMODEM_CANCEL \<equiv> 0xC35A69A7"
abbreviation (input) YMODEM_FRAME :: u32 where "YMODEM_FRAME \<equiv> 0xC35A69A8"
abbreviation (input) YMODEM_CS :: u32 where "YMODEM_CS \<equiv> 0xC35A69A9"
abbreviation (input) YMODEM_EOT_ERR :: u32 where "YMODEM_EOT_ERR \<equiv> 0xC35A69AA"
abbreviation (input) YMODEM_SEQ :: u32 where "YMODEM_SEQ \<equiv> 0xC35A69AB"
abbreviation (input) YMODEM_LENTH :: u32 where "YMODEM_LENTH \<equiv> 0xC35A69AC"

definition YMODEM_PACKET_SIZE :: nat where "YMODEM_PACKET_SIZE = 8192"
definition YMODEM_MAX_RETRIES :: nat where "YMODEM_MAX_RETRIES = 20"
definition LOAD_MIN_SIZE :: u32 where "LOAD_MIN_SIZE = 0"
definition LOAD_MAX_SIZE :: u32 where "LOAD_MAX_SIZE = 0x1000000"

record ymodem_context = boot_io +
  packet_len :: u32
  packet :: "u8 list"
  rx_eof :: bool
  tx_ack :: bool
  blk :: u8
  expected_blk :: u8
  file_length :: u32
  read_length :: u32

section \<open>Reading bytes\<close>

definition ymodem_getc_timeout :: "'a ymodem_context_scheme \<Rightarrow> u8 option \<times> 'a ymodem_context_scheme" where
  "ymodem_getc_timeout s = serial_getc_timeout 1000000 s"

definition ymodem_flush :: "'a ymodem_context_scheme \<Rightarrow> 'a ymodem_context_scheme" where
  "ymodem_flush s = s\<lparr>rx_in := flush_rx (rx_in s)\<rparr>"

definition ymodem_close :: "'a ymodem_context_scheme \<Rightarrow> 'a ymodem_context_scheme" where
  "ymodem_close s = s\<lparr>rx_in := flush_rx (rx_in s)\<rparr>"

section \<open>The head of a packet\<close>

text \<open>
  The loop of \<open>ymodem_get_head_process\<close>: its four ways to end and the input behind that point.
  \<open>hdr_ch_cnt\<close> counts the bytes read, \<open>can_count\<close> the CAN bytes among them.
\<close>

datatype ymodem_head = HeadTimeout | HeadFound u32 | HeadCancel | HeadEot

fun packet_size_of :: "u8 \<Rightarrow> u32 option" where
  "packet_size_of ch =
     (if ch = YMODEM_SOH then Some 128
      else if ch = YMODEM_STX then Some 1024
      else if ch = YMODEM_STX_A then Some 2048
      else if ch = YMODEM_STX_B then Some 4096
      else if ch = YMODEM_STX_C then Some 8192
      else None)"

fun head_loop :: "u8 option list \<Rightarrow> u32 \<Rightarrow> u32 \<Rightarrow> ymodem_head \<times> u8 option list" where
  "head_loop [] hdr_ch_cnt can_count = (HeadTimeout, [])"
| "head_loop (None # xs) hdr_ch_cnt can_count = (HeadTimeout, xs)"
| "head_loop (Some ch # xs) hdr_ch_cnt can_count =
     (let cnt = hdr_ch_cnt + 1
      in case packet_size_of ch of
           Some n \<Rightarrow> (HeadFound n, xs)
         | None \<Rightarrow>
             if ch = YMODEM_CAN then
               if can_count + 1 = 3 then (HeadCancel, xs) else head_loop xs cnt (can_count + 1)
             else if ch = YMODEM_EOT \<and> cnt = 1 then (HeadEot, xs)
             else head_loop xs cnt can_count)"

definition ymodem_get_head_process :: "'a ymodem_context_scheme \<Rightarrow> u32 \<times> 'a ymodem_context_scheme" where
  "ymodem_get_head_process s =
     (case head_loop (rx_in s) 0 0 of
        (HeadTimeout, xs) \<Rightarrow> (YMODEM_TIMEOUT, mdelay 20 (ymodem_flush (s\<lparr>rx_in := xs\<rparr>)))
      | (HeadFound n, xs) \<Rightarrow> (ERRCODE_SUCC, s\<lparr>rx_in := xs, packet_len := n\<rparr>)
      | (HeadCancel, xs) \<Rightarrow> (YMODEM_CANCEL, s\<lparr>rx_in := xs\<rparr>)
      | (HeadEot, xs) \<Rightarrow> (YMODEM_EOT_ERR, serial_putc YMODEM_ACK (s\<lparr>rx_in := xs\<rparr>)))"

section \<open>A packet\<close>

text \<open>The loop that fills the packet buffer from index \<open>i\<close> with \<open>n\<close> bytes.\<close>

fun packet_loop :: "nat \<Rightarrow> nat \<Rightarrow> u8 list \<Rightarrow> u8 option list \<Rightarrow> bool \<times> u8 list \<times> u8 option list" where
  "packet_loop 0 i pkt xs = (True, pkt, xs)"
| "packet_loop (Suc n) i pkt [] = (False, pkt, [])"
| "packet_loop (Suc n) i pkt (None # xs) = (False, pkt, xs)"
| "packet_loop (Suc n) i pkt (Some b # xs) = packet_loop n (Suc i) (pkt[i := b]) xs"

definition makeu16 :: "u8 \<Rightarrow> u8 \<Rightarrow> u16" where
  "makeu16 lo hi = ucast lo OR push_bit 8 (ucast hi)"

definition ymodem_get_packet :: "'a ymodem_context_scheme \<Rightarrow> u32 \<times> 'a ymodem_context_scheme" where
  "ymodem_get_packet s0 =
     (let s1 = (if tx_ack s0 then (serial_putc YMODEM_ACK s0)\<lparr>tx_ack := False\<rparr> else s0);
          (ret, s2) = ymodem_get_head_process s1
      in if ret \<noteq> ERRCODE_SUCC then (ret, s2)
      else case ymodem_getc_timeout s2 of
        (None, s3) \<Rightarrow> (YMODEM_TIMEOUT, s3)
      | (Some blk', s3) \<Rightarrow> (case ymodem_getc_timeout s3 of
        (None, s4) \<Rightarrow> (YMODEM_TIMEOUT, s4)
      | (Some cblk, s4) \<Rightarrow>
          let s5 = udelay 3 s4;
              (ok, pkt, xs) = packet_loop (unat (packet_len s5)) 0 (packet s5) (rx_in s5);
              s6 = s5\<lparr>packet := pkt, rx_in := xs\<rparr>
          in if \<not> ok then (ERRCODE_FAIL, s6)
          else case ymodem_getc_timeout s6 of
            (None, s7) \<Rightarrow> (YMODEM_TIMEOUT, s7)
          | (Some crc_hi, s7) \<Rightarrow> (case ymodem_getc_timeout s7 of
            (None, s8) \<Rightarrow> (YMODEM_TIMEOUT, s8)
          | (Some crc_lo, s8) \<Rightarrow>
              if blk' XOR cblk \<noteq> 0xFF then (YMODEM_FRAME, s8)
              else if frame_sum (take (unat (packet_len s8)) (packet s8)) \<noteq> makeu16 crc_lo crc_hi
              then (YMODEM_CS, s8)
              else (ERRCODE_SUCC, s8\<lparr>blk := blk'\<rparr>))))"

section \<open>The first packet: name and length of the file\<close>

text \<open>Hexadecimal digits are tested and converted as \<open>int8_t\<close>; the character codes are below 128.\<close>

definition is_hex :: "u8 \<Rightarrow> bool" where
  "is_hex ch = ((0x30 \<le> ch \<and> ch \<le> 0x39) \<or> (0x41 \<le> ch \<and> ch \<le> 0x46) \<or> (0x61 \<le> ch \<and> ch \<le> 0x66))"

definition convert_hex :: "u8 \<Rightarrow> u32" where
  "convert_hex ch =
     (if 0x30 \<le> ch \<and> ch \<le> 0x39 then ucast (ch - 0x30)
      else if 0x61 \<le> ch \<and> ch \<le> 0x66 then ucast (ch - 0x61 + 10)
      else if 0x41 \<le> ch \<and> ch \<le> 0x46 then ucast (ch - 0x41 + 10)
      else 0)"

text \<open>
  A pointer into the packet buffer is the rest of the buffer. The byte behind the buffer is
  \<open>rx_eof\<close>, which is 0 while the first packet is read: the end of the list reads as a NUL.
\<close>

fun skip_spaces :: "u8 list \<Rightarrow> u32 \<Rightarrow> u8 list \<times> u32" where
  "skip_spaces [] count = ([], count)"
| "skip_spaces (b # bs) count =
     (if b = 0x20 \<and> 0 < count then skip_spaces bs (count - 1) else (b # bs, count))"

fun parse_digits :: "u32 \<Rightarrow> u32 \<Rightarrow> u8 list \<Rightarrow> u32 \<Rightarrow> u32 option" where
  "parse_digits radix count [] value = Some value"
| "parse_digits radix count (ch # bs) value =
     (if ch \<noteq> 0 \<and> 0 < count then
        if \<not> is_hex ch then None
        else let tmp = convert_hex ch
             in parse_digits radix count bs (if tmp \<le> radix then value * radix + tmp else value)
      else Some value)"

definition hex_prefix :: "u8 list \<Rightarrow> bool" where
  "hex_prefix bs = (case bs of a # b # _ \<Rightarrow> a = 0x30 \<and> (b = 0x78 \<or> b = 0x58) | _ \<Rightarrow> False)"

text \<open>\<open>None\<close> is the result \<open>ERRCODE_FAIL\<close>, \<open>Some\<close> the length stored with \<open>ERRCODE_SUCC\<close>.\<close>

definition ymodem_parse_length :: "u8 list \<Rightarrow> u32 \<Rightarrow> u32 option" where
  "ymodem_parse_length buffer parse_max =
     (let (bs, count) = skip_spaces buffer parse_max
      in if hex_prefix bs \<and> 1 < count then parse_digits 16 (count - 2) (drop 2 bs) 0
         else parse_digits 10 count bs 0)"

fun skip_name :: "u8 list \<Rightarrow> u32 \<Rightarrow> u8 list" where
  "skip_name [] counter_times = []"
| "skip_name (b # bs) counter_times =
     (if b = 0 then bs else if counter_times \<le> 0 then bs else skip_name bs (counter_times - 1))"

definition ymodem_get_info :: "'a ymodem_context_scheme \<Rightarrow> u32 \<times> 'a ymodem_context_scheme" where
  "ymodem_get_info s =
     (let accept = (\<lambda>s. (ERRCODE_SUCC, s\<lparr>expected_blk := 1, packet_len := 0\<rparr>))
      in if blk s = 0 then
           let s1 = udelay 3 s
           in case ymodem_parse_length (skip_name (packet s1) 128) 128 of
                None \<Rightarrow> (ERRCODE_FAIL, s1)
              | Some n \<Rightarrow>
                  let s2 = s1\<lparr>file_length := n\<rparr>
                  in if n < LOAD_MIN_SIZE \<or> LOAD_MAX_SIZE < n then (YMODEM_LENTH, s2)
                     else accept (s2\<lparr>tx_ack := True\<rparr>)
         else accept s)"

section \<open>Opening a transfer\<close>

text \<open>The argument is \<open>retries\<close> before the test of the loop, which decrements it.\<close>

fun open_loop :: "nat \<Rightarrow> 'a ymodem_context_scheme \<Rightarrow> u32 \<times> 'a ymodem_context_scheme" where
  "open_loop 0 s = (ERRCODE_FAIL, s)"
| "open_loop (Suc retries) s =
     (let (ret, s1) = ymodem_get_packet s
      in if ret = ERRCODE_SUCC then ymodem_get_info s1
         else if ret = YMODEM_CANCEL then (ERRCODE_FAIL, s1)
         else if ret = YMODEM_TIMEOUT then
           if int retries < 0 then (YMODEM_TIMEOUT, s1)
           else open_loop retries (serial_putc YMODEM_C (mdelay 20 (boot_wdt_kick s1)))
         else open_loop retries s1)"

definition ymodem_open :: "'a ymodem_context_scheme \<Rightarrow> u32 \<times> 'a ymodem_context_scheme" where
  "ymodem_open s =
     open_loop YMODEM_MAX_RETRIES
       (boot_wdt_kick (serial_putc YMODEM_C
         (s\<lparr>packet_len := 0, file_length := 0, read_length := 0, tx_ack := False, rx_eof := False\<rparr>)))"

definition ymodem_get_length :: "'a ymodem_context_scheme \<Rightarrow> u32" where
  "ymodem_get_length s = file_length s"

section \<open>Reading the file\<close>

definition get_packet_len :: "'a ymodem_context_scheme \<Rightarrow> 'a ymodem_context_scheme" where
  "get_packet_len s =
     (let s1 = s\<lparr>tx_ack := True, expected_blk := (expected_blk s + 1) AND 0xff,
                 read_length := read_length s + packet_len s\<rparr>
      in if file_length s1 < read_length s1
         then s1\<lparr>packet_len := packet_len s1 - (read_length s1 - file_length s1)\<rparr> else s1)"

text \<open>\<open>expected_blk - 1\<close> is computed as an \<open>int\<close> and masked; on bytes this is the wrapped difference.\<close>

fun check_loop :: "nat \<Rightarrow> u32 \<Rightarrow> 'a ymodem_context_scheme \<Rightarrow> u32 \<times> 'a ymodem_context_scheme" where
  "check_loop 0 ret s = (ret, s)"
| "check_loop (Suc retries) prev s =
     (let (ret0, s1) = ymodem_get_packet s
      in if ret0 = ERRCODE_SUCC \<and> blk s1 = expected_blk s1 then (ERRCODE_SUCC, get_packet_len s1)
         else if ret0 = ERRCODE_SUCC \<and> blk s1 = (expected_blk s1 - 1) AND 0xff
         then check_loop retries ret0 (serial_putc YMODEM_ACK s1)
         else let ret = (if ret0 = ERRCODE_SUCC then YMODEM_SEQ else ret0)
              in if ret = YMODEM_CANCEL then (ret, s1)
                 else if ret = YMODEM_EOT_ERR then
                   let (ret2, s2) = ymodem_get_packet (serial_putc YMODEM_C (serial_putc YMODEM_ACK s1))
                   in (ret2, (serial_putc YMODEM_ACK s2)\<lparr>rx_eof := True\<rparr>)
                 else check_loop retries ret
                        (boot_wdt_kick (serial_putc YMODEM_C (ymodem_flush s1))))"

definition ymodem_check_packet :: "'a ymodem_context_scheme \<Rightarrow> u32 \<times> 'a ymodem_context_scheme" where
  "ymodem_check_packet s = check_loop YMODEM_MAX_RETRIES ERRCODE_FAIL s"

section \<open>What an operation takes from the input\<close>

lemma rx_in_serial [simp]:
  "rx_in (serial_putc c s) = rx_in s" "rx_in (mdelay n s) = rx_in s" "rx_in (udelay n s) = rx_in s"
  "rx_in (boot_wdt_kick s) = rx_in s"
  by (simp_all add: serial_putc_def mdelay_def udelay_def boot_wdt_kick_def boot_do_def)

lemma rx_in_flush [simp]: "rx_in (ymodem_flush s) = flush_rx (rx_in s)"
  by (simp add: ymodem_flush_def)

lemma getc_cases:
  "ymodem_getc_timeout s = (r, s1) \<longleftrightarrow>
     (rx_in s = [] \<and> r = None \<and> s1 = s) \<or> (\<exists>xs. rx_in s = r # xs \<and> s1 = s\<lparr>rx_in := xs\<rparr>)"
  by (auto simp: ymodem_getc_timeout_def serial_getc_timeout_def split: list.splits)

lemma getc_rx_length: "ymodem_getc_timeout s = (r, s1) \<Longrightarrow> length (rx_in s1) \<le> length (rx_in s)"
  by (auto simp: getc_cases)

lemma head_loop_length:
  "head_loop xs c k = (r, ys) \<Longrightarrow> length ys \<le> length xs \<and> (r \<noteq> HeadTimeout \<longrightarrow> length ys < length xs)"
  by (induction xs c k rule: head_loop.induct)
    (auto simp: Let_def simp del: packet_size_of.simps split: option.splits if_splits)

lemma packet_loop_length: "packet_loop n i pkt xs = (ok, pkt', ys) \<Longrightarrow> length ys \<le> length xs"
  by (induction n i pkt xs rule: packet_loop.induct) auto

lemma get_head_length:
  "ymodem_get_head_process s = (ret, s1) \<Longrightarrow>
     length (rx_in s1) \<le> length (rx_in s) \<and> (ret = ERRCODE_SUCC \<longrightarrow> length (rx_in s1) < length (rx_in s))"
  using head_loop_length [of "rx_in s" 0 0]
  by (auto simp: ymodem_get_head_process_def split: prod.splits ymodem_head.splits
    intro: order_trans [OF flush_rx_length])

lemma get_packet_length:
  "ymodem_get_packet s = (ret, s1) \<Longrightarrow>
     length (rx_in s1) \<le> length (rx_in s) \<and> (ret = ERRCODE_SUCC \<longrightarrow> length (rx_in s1) < length (rx_in s))"
  by (clarsimp simp: ymodem_get_packet_def Let_def split: prod.splits option.splits if_splits)
    (auto dest!: getc_rx_length get_head_length packet_loop_length)

lemma get_packet_len_rx [simp]: "rx_in (get_packet_len s) = rx_in s"
  by (simp add: get_packet_len_def Let_def)

lemma check_loop_length:
  "check_loop n r s = (ret, s1) \<Longrightarrow> r \<noteq> ERRCODE_SUCC \<or> length (rx_in s) < k \<Longrightarrow> length (rx_in s) \<le> k \<Longrightarrow>
     length (rx_in s1) \<le> k \<and> (ret = ERRCODE_SUCC \<longrightarrow> length (rx_in s1) < k)"
proof (induction n r s rule: check_loop.induct)
  case (2 n prev s)
  obtain ret0 s2 where p: "ymodem_get_packet s = (ret0, s2)" by fastforce
  have l: "length (rx_in s2) \<le> k" "ret0 = ERRCODE_SUCC \<Longrightarrow> length (rx_in s2) < k"
    using get_packet_length [OF p] "2.prems"(3) by auto
  consider (new) "ret0 = 0" "blk s2 = expected_blk s2"
    | (old) "ret0 = 0" "blk s2 \<noteq> expected_blk s2" "blk s2 = (expected_blk s2 - 1) AND 0xff"
    | (cancel) "ret0 = YMODEM_CANCEL"
    | (eot) "ret0 = YMODEM_EOT_ERR"
    | (retry) "ret0 \<noteq> YMODEM_CANCEL" "ret0 \<noteq> YMODEM_EOT_ERR"
        "ret0 = 0 \<longrightarrow> blk s2 \<noteq> expected_blk s2 \<and> blk s2 \<noteq> (expected_blk s2 - 1) AND 0xff"
    by blast
  then show ?case
  proof cases
    case new
    then show ?thesis using "2.prems"(1) l p by auto
  next
    case old
    then show ?thesis
      using "2.prems"(1) l p "2.IH"(1) [OF p [symmetric] refl _ _ ] by simp
  next
    case cancel
    then show ?thesis using "2.prems"(1) l p by auto
  next
    case eot
    then show ?thesis using "2.prems"(1) l p
      by (auto split: prod.splits dest!: get_packet_length)
  next
    case retry
    let ?s = "boot_wdt_kick (serial_putc YMODEM_C (ymodem_flush s2))"
    have "length (rx_in ?s) \<le> k" using l(1) flush_rx_length [of "rx_in s2"] by simp
    then show ?thesis
      using retry "2.prems"(1) p "2.IH"(2) [OF p [symmetric]] by (auto simp: Let_def split: if_splits)
  qed
qed auto

lemma check_packet_length:
  "ymodem_check_packet s = (ERRCODE_SUCC, s1) \<Longrightarrow> length (rx_in s1) < length (rx_in s)"
  unfolding ymodem_check_packet_def by (drule check_loop_length [where k = "length (rx_in s)"]) auto
section \<open>\<open>ymodem_read\<close>\<close>

text \<open>
  \<open>read_size\<close> is what is left to read, \<open>acc\<close> the bytes stored so far; their number is \<open>rx_total\<close>.
  The copy cannot fail: its length is at most the room that is left.
\<close>

function ymodem_read_loop ::
    "u32 \<Rightarrow> u8 list \<Rightarrow> 'a ymodem_context_scheme \<Rightarrow> u8 list \<times> 'a ymodem_context_scheme" where
  "ymodem_read_loop read_size acc s =
     (if rx_eof s \<or> read_size = 0 then (acc, s)
      else
        let (ret, s1) = (if packet_len s = 0 then ymodem_check_packet s else (ERRCODE_SUCC, s))
        in if ret \<noteq> ERRCODE_SUCC then (acc, s1)
           else if rx_eof s1 then (acc, s1)
           else let n = min read_size (packet_len s1)
                in ymodem_read_loop (read_size - n) (acc @ take (unat n) (packet s1)) (s1\<lparr>packet_len := 0\<rparr>))"
  by auto

termination
proof (relation "measures [\<lambda>(n, acc, s). length (rx_in s), \<lambda>(n, acc, s). unat n]", goal_cases)
  case (2 read_size acc s p ret s1 n)
  show ?case
  proof (cases "packet_len s = 0")
    case True
    then have "length (rx_in s1) < length (rx_in s)"
      using 2 check_packet_length [of s s1] by auto
    then show ?thesis by simp
  next
    case False
    then have s1: "s1 = s" using 2 by auto
    have "0 < n" "n \<le> read_size" using 2 False s1 by (auto simp: min_def word_neq_0_conv)
    then have "unat (read_size - n) < unat read_size"
      by (simp add: unat_sub word_less_nat_alt word_le_nat_alt)
    then show ?thesis using s1 by simp
  qed
qed simp

declare ymodem_read_loop.simps [simp del]

definition ymodem_read :: "u32 \<Rightarrow> 'a ymodem_context_scheme \<Rightarrow> u8 list \<times> 'a ymodem_context_scheme" where
  "ymodem_read sz s = ymodem_read_loop sz [] s"
section \<open>What a sender puts on the wire\<close>

definition ymodem_frame :: "u8 \<Rightarrow> u8 \<Rightarrow> u8 list \<Rightarrow> u8 list" where
  "ymodem_frame hdr b data =
     [hdr, b, NOT b] @ data @ [ucast (drop_bit 8 (frame_sum data)), ucast (frame_sum data)]"

text \<open>The acknowledgment that is due from the last packet.\<close>

definition due_ack :: "'a ymodem_context_scheme \<Rightarrow> 'a ymodem_context_scheme" where
  "due_ack s = (if tx_ack s then (serial_putc YMODEM_ACK s)\<lparr>tx_ack := False\<rparr> else s)"

lemma makeu16_split: "makeu16 (ucast w) (ucast (drop_bit 8 w)) = w"
  by (rule bit_word_eqI)
    (auto simp: makeu16_def bit_or_iff bit_push_bit_iff bit_ucast_iff bit_drop_bit_eq)

lemma packet_loop_data:
  "length data + i \<le> length pkt \<Longrightarrow>
     packet_loop (length data) i pkt (map Some data @ xs)
     = (True, take i pkt @ data @ drop (i + length data) pkt, xs)"
proof (induction data arbitrary: i pkt)
  case (Cons b data)
  have "take (Suc i) (pkt[i := b]) = take i pkt @ [b]"
    using Cons.prems by (simp add: take_Suc_conv_app_nth)
  then show ?case using Cons by simp
qed simp

lemma due_ack_simps [simp]:
  "packet (due_ack s) = packet s" "rx_in (due_ack s) = rx_in s" "blk (due_ack s) = blk s"
  "expected_blk (due_ack s) = expected_blk s" "tx_ack (due_ack s) = False"
  "packet_len (due_ack s) = packet_len s" "rx_eof (due_ack s) = rx_eof s"
  "file_length (due_ack s) = file_length s" "read_length (due_ack s) = read_length s"
  by (auto simp: due_ack_def serial_putc_def boot_do_def)

lemma packet_size_bound: "packet_size_of hdr = Some n \<Longrightarrow> 128 \<le> unat n \<and> unat n \<le> YMODEM_PACKET_SIZE"
  by (auto simp: YMODEM_PACKET_SIZE_def split: if_splits)

lemma getc_Cons: "rx_in s = r # xs \<Longrightarrow> ymodem_getc_timeout s = (r, s\<lparr>rx_in := xs\<rparr>)"
  by (simp add: ymodem_getc_timeout_def serial_getc_timeout_def)

text \<open>A packet of the right shape, whatever its five parts are, up to the two checks.\<close>

definition wire_packet :: "u8 \<Rightarrow> u8 \<Rightarrow> u8 \<Rightarrow> u8 list \<Rightarrow> u8 \<Rightarrow> u8 \<Rightarrow> u8 list" where
  "wire_packet hdr b cb data hi lo = [hdr, b, cb] @ data @ [hi, lo]"

definition stored_packet :: "u8 list \<Rightarrow> u8 option list \<Rightarrow> 'a ymodem_context_scheme \<Rightarrow> 'a ymodem_context_scheme" where
  "stored_packet data rest s =
     (udelay 3 (due_ack s))\<lparr>packet_len := of_nat (length data),
        packet := data @ drop (length data) (packet s), rx_in := rest\<rparr>"

lemma get_packet_wire:
  assumes "packet_size_of hdr = Some n" and "length data = unat n"
    and "length (packet s) = YMODEM_PACKET_SIZE"
    and "rx_in s = map Some (wire_packet hdr b cb data hi lo) @ rest"
  shows "ymodem_get_packet s =
     (if b XOR cb \<noteq> 0xFF then (YMODEM_FRAME, stored_packet data rest s)
      else if frame_sum data \<noteq> makeu16 lo hi then (YMODEM_CS, stored_packet data rest s)
      else (ERRCODE_SUCC, (stored_packet data rest s)\<lparr>blk := b\<rparr>))"
proof -
  let ?s1 = "due_ack s"
  have s1: "(if tx_ack s then (serial_putc YMODEM_ACK s)\<lparr>tx_ack := False\<rparr> else s) = ?s1"
    by (simp add: due_ack_def)
  have head: "ymodem_get_head_process ?s1
      = (ERRCODE_SUCC, ?s1\<lparr>rx_in := map Some ([b, cb] @ data @ [hi, lo]) @ rest, packet_len := n\<rparr>)"
    using assms(1,4) by (simp add: ymodem_get_head_process_def wire_packet_def del: packet_size_of.simps)
  have body: "packet_loop (unat n) 0 (packet s) (map Some data @ xs)
      = (True, data @ drop (unat n) (packet s), xs)" for xs
    using packet_loop_data [of data 0 "packet s" xs] packet_size_bound [OF assms(1)] assms(2,3) by simp
  show ?thesis
    unfolding ymodem_get_packet_def s1 head Let_def
    by (simp add: getc_Cons body assms(2) stored_packet_def udelay_def boot_do_def)
qed

lemma get_packet_frame:
  assumes "packet_size_of hdr = Some n" and "length data = unat n"
    and "length (packet s) = YMODEM_PACKET_SIZE"
    and "rx_in s = map Some (ymodem_frame hdr b data) @ rest"
  shows "ymodem_get_packet s = (ERRCODE_SUCC, (stored_packet data rest s)\<lparr>blk := b\<rparr>)"
  using get_packet_wire [OF assms(1-3), of b "NOT b"] assms(4)
  by (simp add: ymodem_frame_def wire_packet_def makeu16_split)
section \<open>The abstract transfer\<close>

text \<open>
  A sender offers the file as a sequence of packets, each a header byte and its data; the blocks are
  numbered from \<open>b\<close> on. \<open>stream_ok\<close> says that packet data starts at offset \<open>off\<close> of a file of
  length \<open>L\<close>, that every packet starts inside the file, that the last one reaches its end, and that
  no packet crosses a multiple of the size of the read buffer.
\<close>

fun frames_of :: "u8 \<Rightarrow> (u8 \<times> u8 list) list \<Rightarrow> u8 list" where
  "frames_of b [] = []"
| "frames_of b ((h, d) # cs) = ymodem_frame h b d @ frames_of (b + 1) cs"

fun stream_ok :: "nat \<Rightarrow> nat \<Rightarrow> (u8 \<times> u8 list) list \<Rightarrow> bool" where
  "stream_ok L off [] = (L \<le> off)"
| "stream_ok L off ((h, d) # cs) =
     (off < L \<and> packet_size_of h = Some (of_nat (length d)) \<and> length d \<le> YMODEM_PACKET_SIZE
      \<and> off mod YMODEM_PACKET_SIZE + length d \<le> YMODEM_PACKET_SIZE \<and> stream_ok L (off + length d) cs)"

abbreviation payload_of :: "(u8 \<times> u8 list) list \<Rightarrow> u8 list" where
  "payload_of cs \<equiv> concat (map snd cs)"

text \<open>
  The receiver between two packets: everything before offset \<open>off\<close> has been handed on, the packets
  \<open>cs\<close> are still to come.
\<close>

definition between ::
    "nat \<Rightarrow> nat \<Rightarrow> u8 \<Rightarrow> (u8 \<times> u8 list) list \<Rightarrow> u8 option list \<Rightarrow> 'a ymodem_context_scheme \<Rightarrow> bool" where
  "between L off b cs rest s =
     (packet_len s = 0 \<and> length (packet s) = YMODEM_PACKET_SIZE \<and> \<not> rx_eof s \<and> tx_ack s
      \<and> expected_blk s = b \<and> file_length s = of_nat L \<and> read_length s = of_nat off
      \<and> L \<le> unat LOAD_MAX_SIZE \<and> stream_ok L off cs \<and> rx_in s = map Some (frames_of b cs) @ rest)"

definition tx_bytes :: "'a boot_io_scheme \<Rightarrow> u8 list" where
  "tx_bytes s = List.map_filter (\<lambda>e. case e of Tx b \<Rightarrow> Some b | _ \<Rightarrow> None) (boot_log s)"

definition flash_event :: "boot_event \<Rightarrow> bool" where
  "flash_event e = (case e of FlashErase a n r \<Rightarrow> True | FlashEraseChip r \<Rightarrow> True
     | FlashWrite a d r \<Rightarrow> True | RamWrite a d \<Rightarrow> True | ChipReset \<Rightarrow> True | _ \<Rightarrow> False)"

definition flash_log :: "'a boot_io_scheme \<Rightarrow> boot_event list" where
  "flash_log s = filter flash_event (boot_log s)"

text \<open>The storage is not touched.\<close>

definition same_storage :: "'a boot_io_scheme \<Rightarrow> 'a boot_io_scheme \<Rightarrow> bool" where
  "same_storage s s' = (flash_log s' = flash_log s \<and> flash_ans s' = flash_ans s \<and> flash_n s' = flash_n s
     \<and> g_uart_mute s' = g_uart_mute s)"

lemma same_storage_refl [simp]: "same_storage s s"
  by (simp add: same_storage_def)

lemma same_storage_trans: "same_storage s t \<Longrightarrow> same_storage t u \<Longrightarrow> same_storage s u"
  by (simp add: same_storage_def)

lemma storage_ops [simp]:
  "flash_log (serial_putc c s) = flash_log s" "flash_log (udelay n s) = flash_log s"
  "flash_log (mdelay n s) = flash_log s" "flash_log (boot_wdt_kick s) = flash_log s"
  "flash_ans (serial_putc c s) = flash_ans s" "flash_ans (udelay n s) = flash_ans s"
  "flash_ans (mdelay n s) = flash_ans s" "flash_ans (boot_wdt_kick s) = flash_ans s"
  "flash_n (serial_putc c s) = flash_n s" "flash_n (udelay n s) = flash_n s"
  "flash_n (mdelay n s) = flash_n s" "flash_n (boot_wdt_kick s) = flash_n s"
  "g_uart_mute (serial_putc c s) = g_uart_mute s" "g_uart_mute (udelay n s) = g_uart_mute s"
  "g_uart_mute (mdelay n s) = g_uart_mute s" "g_uart_mute (boot_wdt_kick s) = g_uart_mute s"
  by (simp_all add: flash_log_def serial_putc_def udelay_def mdelay_def boot_wdt_kick_def boot_do_def
    flash_event_def)

lemma tx_ops [simp]:
  "tx_bytes (udelay n s) = tx_bytes s" "tx_bytes (mdelay n s) = tx_bytes s"
  "tx_bytes (boot_wdt_kick s) = tx_bytes s"
  "tx_bytes (serial_putc c s) = tx_bytes s @ (if g_uart_mute s then [] else [c])"
  by (simp_all add: tx_bytes_def serial_putc_def check_uart_mute_def udelay_def mdelay_def
    boot_wdt_kick_def boot_do_def map_filter_def)

lemma log_fields [simp]:
  "flash_log (s\<lparr>rx_in := x\<rparr>) = flash_log s" "tx_bytes (s\<lparr>rx_in := x\<rparr>) = tx_bytes s"
  by (simp_all add: flash_log_def tx_bytes_def)

lemma log_ymodem_fields [simp]:
  "flash_log (s\<lparr>packet_len := a\<rparr>) = flash_log s" "tx_bytes (s\<lparr>packet_len := a\<rparr>) = tx_bytes s"
  "flash_log (s\<lparr>packet := p\<rparr>) = flash_log s" "tx_bytes (s\<lparr>packet := p\<rparr>) = tx_bytes s"
  "flash_log (s\<lparr>rx_eof := v\<rparr>) = flash_log s" "tx_bytes (s\<lparr>rx_eof := v\<rparr>) = tx_bytes s"
  "flash_log (s\<lparr>tx_ack := v\<rparr>) = flash_log s" "tx_bytes (s\<lparr>tx_ack := v\<rparr>) = tx_bytes s"
  "flash_log (s\<lparr>blk := c\<rparr>) = flash_log s" "tx_bytes (s\<lparr>blk := c\<rparr>) = tx_bytes s"
  "flash_log (s\<lparr>expected_blk := c\<rparr>) = flash_log s" "tx_bytes (s\<lparr>expected_blk := c\<rparr>) = tx_bytes s"
  "flash_log (s\<lparr>file_length := a\<rparr>) = flash_log s" "tx_bytes (s\<lparr>file_length := a\<rparr>) = tx_bytes s"
  "flash_log (s\<lparr>read_length := a\<rparr>) = flash_log s" "tx_bytes (s\<lparr>read_length := a\<rparr>) = tx_bytes s"
  by (simp_all add: flash_log_def tx_bytes_def)

lemma same_storage_due_ack [simp]: "same_storage s (due_ack s)"
  by (simp add: same_storage_def due_ack_def)

lemma tx_due_ack:
  "tx_bytes (due_ack s) = tx_bytes s @ (if tx_ack s \<and> \<not> g_uart_mute s then [YMODEM_ACK] else [])"
  by (simp add: due_ack_def)

definition acks :: "'a boot_io_scheme \<Rightarrow> nat \<Rightarrow> u8 list" where
  "acks s n = (if g_uart_mute s then [] else replicate n YMODEM_ACK)"

lemma udelay_keeps [simp]:
  "packet (udelay n s) = packet s" "blk (udelay n s) = blk s" "expected_blk (udelay n s) = expected_blk s"
  "tx_ack (udelay n s) = tx_ack s" "packet_len (udelay n s) = packet_len s" "rx_eof (udelay n s) = rx_eof s"
  "file_length (udelay n s) = file_length s" "read_length (udelay n s) = read_length s"
  by (simp_all add: udelay_def boot_do_def)

lemma and_FF_u8: "(w :: u8) AND 0xff = w"
proof -
  have "(0xff :: u8) = mask 8" by (simp add: mask_eq_exp_minus_1)
  then show ?thesis by (simp add: bit_eq_iff bit_and_iff bit_mask_iff)
qed

lemma check_packet_stream:
  assumes "between L off b ((h, d) # cs) rest s"
  obtains s' where "ymodem_check_packet s = (ERRCODE_SUCC, s')"
    and "packet_len s' = of_nat (min (length d) (L - off))" and "take (length d) (packet s') = d"
    and "between L (off + length d) (b + 1) cs rest (s'\<lparr>packet_len := 0\<rparr>)"
    and "same_storage s s'" and "tx_bytes s' = tx_bytes s @ acks s 1"
proof -
  have bt: "packet_len s = 0" "length (packet s) = YMODEM_PACKET_SIZE" "\<not> rx_eof s" "tx_ack s"
      "expected_blk s = b" "file_length s = of_nat L" "read_length s = of_nat off"
      "L \<le> 0x1000000" "off < L" "packet_size_of h = Some (of_nat (length d))"
      "length d \<le> YMODEM_PACKET_SIZE" "stream_ok L (off + length d) cs"
      "rx_in s = map Some (ymodem_frame h b d) @ map Some (frames_of (b + 1) cs) @ rest"
    using assms by (auto simp: between_def LOAD_MAX_SIZE_def simp del: packet_size_of.simps)
  have ld: "unat (of_nat (length d) :: u32) = length d"
    using bt(11) by (simp add: unat_of_nat YMODEM_PACKET_SIZE_def)
  let ?p = "(stored_packet d (map Some (frames_of (b + 1) cs) @ rest) s)\<lparr>blk := b\<rparr>"
  have gp: "ymodem_get_packet s = (ERRCODE_SUCC, ?p)"
    using get_packet_frame [OF bt(10) ld [symmetric] bt(2) bt(13)] .
  have cp: "ymodem_check_packet s = (ERRCODE_SUCC, get_packet_len ?p)"
    using gp bt(5) by (simp add: ymodem_check_packet_def YMODEM_MAX_RETRIES_def numeral_eq_Suc stored_packet_def)
  have lt: "of_nat L < (of_nat off + of_nat (length d) :: u32) \<longleftrightarrow> L < off + length d"
    using bt(8,9,11) by (simp add: word_less_nat_alt unat_word_ariths unat_of_nat YMODEM_PACKET_SIZE_def)
  have tr: "of_nat (length d) - (of_nat off + of_nat (length d) - of_nat L) = (of_nat (L - off) :: u32)"
    using bt(9) by (simp add: of_nat_diff)
  show ?thesis
  proof (rule that [OF cp])
    show "packet_len (get_packet_len ?p) = of_nat (min (length d) (L - off))"
      using bt(6,7,9) lt tr
      by (auto simp: get_packet_len_def Let_def stored_packet_def min_def)
    show "take (length d) (packet (get_packet_len ?p)) = d"
      by (simp add: get_packet_len_def Let_def stored_packet_def)
    show "between L (off + length d) (b + 1) cs rest ((get_packet_len ?p)\<lparr>packet_len := 0\<rparr>)"
      using bt by (simp add: between_def get_packet_len_def Let_def stored_packet_def LOAD_MAX_SIZE_def
        and_FF_u8)
    show "same_storage s (get_packet_len ?p)"
      using same_storage_due_ack [of s]
      by (simp add: same_storage_def get_packet_len_def Let_def stored_packet_def)
    show "tx_bytes (get_packet_len ?p) = tx_bytes s @ acks s 1"
      using bt(4) by (simp add: get_packet_len_def Let_def stored_packet_def tx_due_ack acks_def)
  qed
qed

lemma block_end:
  assumes "p dvd e" and "off < e" and "off mod p + l \<le> p"
  shows "off + l \<le> (e :: nat)"
proof -
  obtain k where k: "e = p * k" using assms(1) by auto
  then have "off div p < k" using assms(2) by (simp add: less_mult_imp_div_less mult.commute)
  then have "p * (off div p + 1) \<le> p * k" by (intro mult_le_mono2) simp
  moreover have "off = p * (off div p) + off mod p" by simp
  moreover have "p * (off div p + 1) = p * (off div p) + p" by simp
  ultimately show ?thesis using assms(3) k by linarith
qed

lemma read_loop_stream:
  assumes "between L off b cs rest s" and "off \<le> e" and "e \<le> L"
    and "e = L \<or> YMODEM_PACKET_SIZE dvd e"
  shows "\<exists>s' off' n cs'. ymodem_read_loop (of_nat (e - off)) acc s = (acc @ take (e - off) (payload_of cs), s')
     \<and> between L off' (b + of_nat n) cs' rest s' \<and> same_storage s s'
     \<and> n \<le> length cs \<and> cs' = drop n cs \<and> tx_bytes s' = tx_bytes s @ acks s n
     \<and> e \<le> off' \<and> (e < L \<longrightarrow> off' = e) \<and> payload_of cs' = drop (off' - off) (payload_of cs)"
  using assms
proof (induction cs arbitrary: off b s acc)
  case Nil
  then have "off = e" by (auto simp: between_def)
  then have "ymodem_read_loop (of_nat (e - off)) acc s = (acc, s)" by (simp add: ymodem_read_loop.simps)
  then show ?case using Nil \<open>off = e\<close> by (intro exI [of _ s] exI [of _ off] exI [of _ 0]) (simp add: acks_def)
next
  case (Cons c cs)
  obtain h d where c: "c = (h, d)" by (cases c)
  show ?case
  proof (cases "off = e")
    case True
    then have "ymodem_read_loop (of_nat (e - off)) acc s = (acc, s)" by (simp add: ymodem_read_loop.simps)
    then show ?thesis using Cons.prems True
      by (intro exI [of _ s] exI [of _ off] exI [of _ 0]) (simp add: acks_def)
  next
    case False
    then have oe: "off < e" using Cons.prems(2) by simp
    obtain s1 where s1: "ymodem_check_packet s = (ERRCODE_SUCC, s1)"
      "packet_len s1 = of_nat (min (length d) (L - off))" "take (length d) (packet s1) = d"
      "between L (off + length d) (b + 1) cs rest (s1\<lparr>packet_len := 0\<rparr>)"
      "same_storage s s1" "tx_bytes s1 = tx_bytes s @ acks s 1"
      using check_packet_stream [OF Cons.prems(1) [unfolded c]] by blast
    have bt: "packet_len s = 0" "\<not> rx_eof s" "\<not> rx_eof s1" "L \<le> 0x1000000" "length d \<le> YMODEM_PACKET_SIZE"
        "off mod YMODEM_PACKET_SIZE + length d \<le> YMODEM_PACKET_SIZE" "0 < length d"
      using Cons.prems(1) s1(4) c packet_size_bound [of h "of_nat (length d)"]
      by (auto simp: between_def LOAD_MAX_SIZE_def simp del: packet_size_of.simps)
    let ?t = "min (length d) (L - off)"
    have te: "?t \<le> e - off"
      using Cons.prems(3,4) block_end [OF _ oe bt(6)] oe by (cases "e = L") (auto simp: min_def)
    have nat32: "x \<le> L + YMODEM_PACKET_SIZE \<Longrightarrow> unat (of_nat x :: u32) = x" for x
      using bt(4) by (simp add: unat_of_nat YMODEM_PACKET_SIZE_def)
    have mn: "min (of_nat (e - off)) (packet_len s1) = (of_nat ?t :: u32)"
      using te Cons.prems(3) by (simp add: s1(2) min_def word_le_nat_alt nat32 del: of_nat_diff)
    let ?s2 = "s1\<lparr>packet_len := 0\<rparr>"
    have step: "ymodem_read_loop (of_nat (e - off)) acc s
        = ymodem_read_loop (of_nat (e - off - ?t)) (acc @ take ?t d) ?s2"
    proof -
      have "unat (of_nat (e - off) :: u32) = e - off" using Cons.prems(3) by (intro nat32) simp
      then have "(of_nat (e - off) :: u32) \<noteq> 0" using oe by (metis unat_0 zero_less_diff less_irrefl)
      moreover have "unat (of_nat ?t :: u32) = ?t" by (rule nat32, rule order_trans [OF min.cobounded2]) simp
      then have "take (unat (of_nat ?t :: u32)) (packet s1) = take ?t d"
        using s1(3) by (metis min.cobounded1 min.absorb1 take_take)
      moreover have "(of_nat (e - off) - of_nat ?t :: u32) = of_nat (e - off - ?t)"
        using te by (rule of_nat_diff [symmetric])
      ultimately show ?thesis
        using bt(1,2,3) s1(1) mn by (subst ymodem_read_loop.simps) (simp add: Let_def)
    qed
    show ?thesis
    proof (cases "off + length d \<le> e")
      case True
      then have t: "?t = length d" using Cons.prems(3) by simp
      obtain s' off' n cs' where ih:
        "ymodem_read_loop (of_nat (e - (off + length d))) (acc @ d) ?s2
           = (acc @ d @ take (e - (off + length d)) (payload_of cs), s')"
        "between L off' (b + 1 + of_nat n) cs' rest s'" "same_storage ?s2 s'" "n \<le> length cs"
        "cs' = drop n cs" "tx_bytes s' = tx_bytes ?s2 @ acks ?s2 n" "e \<le> off'"
        "e < L \<longrightarrow> off' = e" "payload_of cs' = drop (off' - (off + length d)) (payload_of cs)"
        using Cons.IH [OF s1(4) True Cons.prems(3,4), of "acc @ d"] by auto
      have ss: "same_storage s s'"
        using s1(5) ih(3) by (simp add: same_storage_def)
      have tx: "tx_bytes s' = tx_bytes s @ acks s (Suc n)"
        using ih(6) s1(5,6) by (simp add: acks_def same_storage_def)
      show ?thesis
        using ih ss tx step t c True
        by (intro exI [of _ s'] exI [of _ off'] exI [of _ "Suc n"] exI [of _ cs']) (simp add: algebra_simps)
    next
      case False
      then have eL: "e = L" using block_end [OF _ oe bt(6)] Cons.prems(4) by auto
      then have t: "?t = e - off" using False by simp
      have "ymodem_read_loop 0 (acc @ take ?t d) ?s2 = (acc @ take ?t d, ?s2)"
        by (simp add: ymodem_read_loop.simps)
      then show ?thesis
        using s1(4,5,6) step t c False eL
        by (intro exI [of _ ?s2] exI [of _ "off + length d"] exI [of _ "Suc 0"] exI [of _ cs])
          (simp add: same_storage_def acks_def)
    qed
  qed
qed

section \<open>The first packet\<close>

fun decimal :: "nat \<Rightarrow> u8 list" where
  "decimal n = (if n < 10 then [0x30 + of_nat n] else decimal (n div 10) @ [0x30 + of_nat (n mod 10)])"

declare decimal.simps [simp del]

definition is_decimal :: "u8 \<Rightarrow> bool" where
  "is_decimal d = (0x30 \<le> d \<and> d \<le> 0x39)"

lemma is_decimal_add: "n < 10 \<Longrightarrow> is_decimal (0x30 + of_nat n)"
  by (simp add: is_decimal_def word_le_nat_alt unat_word_ariths unat_of_nat)

lemma decimal_is_decimal: "\<forall>d \<in> set (decimal n). is_decimal d"
proof (induction n rule: decimal.induct)
  case (1 n)
  then show ?case by (subst decimal.simps) (auto simp: is_decimal_add)
qed

lemma decimal_nonempty [simp]: "decimal n \<noteq> []"
  by (subst decimal.simps) simp

lemma parse_digits_decimal:
  assumes "\<forall>d \<in> set ds. is_decimal d" and "0 < count"
  shows "parse_digits 10 count (ds @ bs) v
    = parse_digits 10 count bs (foldl (\<lambda>v d. v * 10 + ucast (d - 0x30)) v ds)"
  using assms(1)
proof (induction ds arbitrary: v)
  case (Cons d ds)
  have d: "0x30 \<le> d" "d \<le> 0x39" using Cons.prems by (auto simp: is_decimal_def)
  then have u: "48 \<le> unat d" "unat d \<le> 57" by (simp_all add: word_le_nat_alt)
  have "is_hex d" "d \<noteq> 0" using d by (auto simp: is_hex_def word_le_nat_alt)
  moreover have "convert_hex d = ucast (d - 0x30)" using d by (simp add: convert_hex_def)
  moreover have "(ucast (d - 0x30) :: u32) \<le> 10"
    using u by (simp add: word_le_nat_alt unat_ucast_u8_u32 unat_sub)
  ultimately show ?case using Cons assms(2) by simp
qed simp

lemma foldl_decimal: "foldl (\<lambda>v d. v * 10 + ucast (d - 0x30)) (0 :: u32) (decimal n) = of_nat n"
proof (induction n rule: decimal.induct)
  case (1 n)
  have u: "(ucast (of_nat m :: u8) :: u32) = of_nat m" if "m < 10" for m
    using that by (intro word_unat_eq_iff [THEN iffD2]) (simp add: unat_ucast_u8_u32 unat_of_nat)
  show ?case
  proof (cases "n < 10")
    case True
    then show ?thesis by (simp add: decimal.simps u)
  next
    case False
    have "(of_nat (n div 10) * 10 + of_nat (n mod 10) :: u32) = of_nat (n div 10 * 10 + n mod 10)"
      by (simp only: of_nat_add of_nat_mult of_nat_numeral)
    then show ?thesis using False 1 by (simp add: decimal.simps [of n] u del: of_nat_add of_nat_mult)
  qed
qed

lemma skip_name_name:
  "0 \<notin> set name \<Longrightarrow> length name \<le> unat c \<Longrightarrow> skip_name (name @ 0 # bs) c = bs"
proof (induction name arbitrary: c)
  case (Cons b name)
  have "0 < c" using Cons.prems(2) by (simp add: word_less_nat_alt)
  moreover have "unat (c - 1) = unat c - 1"
    using Cons.prems(2) by (simp add: unat_sub word_le_nat_alt)
  ultimately show ?case using Cons by (simp add: word_le_nat_alt word_less_nat_alt)
qed simp

lemma parse_length_decimal:
  "ymodem_parse_length (decimal n @ 0 # bs) 128 = Some (of_nat n)"
proof -
  obtain d ds where d: "decimal n = d # ds" by (cases "decimal n") auto
  have dd: "is_decimal x" if "x \<in> set (decimal n)" for x using decimal_is_decimal that by blast
  have ne: "d \<noteq> 0x20" using dd [of d] d by (auto simp: is_decimal_def word_le_nat_alt)
  have nx: "x \<noteq> 0x78" "x \<noteq> 0x58" if "is_decimal x" for x
    using that by (auto simp: is_decimal_def word_le_nat_alt)
  have "\<not> hex_prefix (decimal n @ 0 # bs)"
    using d dd nx by (cases ds) (auto simp: hex_prefix_def)
  moreover have "skip_spaces (decimal n @ 0 # bs) 128 = (decimal n @ 0 # bs, 128)"
    using d ne by simp
  ultimately have "ymodem_parse_length (decimal n @ 0 # bs) 128
      = parse_digits 10 128 (decimal n @ 0 # bs) 0"
    by (simp add: ymodem_parse_length_def)
  also have "\<dots> = Some (of_nat n)"
    by (simp add: parse_digits_decimal [OF decimal_is_decimal] foldl_decimal)
  finally show ?thesis .
qed

lemma open_loop_success:
  "0 < k \<Longrightarrow> ymodem_get_packet s = (ERRCODE_SUCC, p) \<Longrightarrow> open_loop k s = ymodem_get_info p"
  by (cases k) simp_all

lemma get_info_accepts:
  assumes "blk p = 0" and "ymodem_parse_length (skip_name (packet p) 128) 128 = Some n" and "n \<le> LOAD_MAX_SIZE"
  shows "ymodem_get_info p = (ERRCODE_SUCC,
    (udelay 3 p)\<lparr>file_length := n, tx_ack := True, expected_blk := 1, packet_len := 0\<rparr>)"
  using assms by (simp add: ymodem_get_info_def Let_def LOAD_MIN_SIZE_def not_less)

lemma open_first_packet:
  assumes "packet_size_of h = Some n" and "length data = unat n"
    and "data = name @ 0 # decimal L @ 0 # pad" and "0 \<notin> set name" and "length name \<le> 128"
    and "L \<le> unat LOAD_MAX_SIZE" and "length (packet s) = YMODEM_PACKET_SIZE"
    and "rx_in s = map Some (ymodem_frame h 0 data) @ rest"
  obtains s' where "ymodem_open s = (ERRCODE_SUCC, s')" and "file_length s' = of_nat L"
    and "stream_ok L 0 cs \<Longrightarrow> rest = map Some (frames_of 1 cs) @ rest' \<Longrightarrow> between L 0 1 cs rest' s'"
    and "rx_in s' = rest" and "tx_ack s'" and "\<not> rx_eof s'" and "packet_len s' = 0"
    and "length (packet s') = YMODEM_PACKET_SIZE" and "expected_blk s' = 1" and "read_length s' = 0"
    and "same_storage s s'" and "tx_bytes s' = tx_bytes s @ (if g_uart_mute s then [] else [YMODEM_C])"
proof -
  let ?s0 = "boot_wdt_kick (serial_putc YMODEM_C
         (s\<lparr>packet_len := 0, file_length := 0, read_length := 0, tx_ack := False, rx_eof := False\<rparr>))"
  let ?p = "(stored_packet data rest ?s0)\<lparr>blk := 0\<rparr>"
  let ?s' = "(udelay 3 ?p)\<lparr>file_length := of_nat L, tx_ack := True, expected_blk := 1, packet_len := 0\<rparr>"
  have f0: "packet ?s0 = packet s" "rx_in ?s0 = rx_in s" "\<not> tx_ack ?s0" "read_length ?s0 = 0" "\<not> rx_eof ?s0"
      "g_uart_mute ?s0 = g_uart_mute s"
    by (simp_all add: boot_wdt_kick_def serial_putc_def boot_do_def)
  have gp: "ymodem_get_packet ?s0 = (ERRCODE_SUCC, ?p)"
    using assms(1,2,7,8) f0 by (intro get_packet_frame) simp_all
  have "skip_name (packet ?p) 128 = decimal L @ 0 # pad @ drop (length data) (packet s)"
    using assms(3-5) skip_name_name [of name 128] f0 by (simp add: stored_packet_def)
  then have pl: "ymodem_parse_length (skip_name (packet ?p) 128) 128 = Some (of_nat L)"
    by (simp add: parse_length_decimal)
  have le: "of_nat L \<le> LOAD_MAX_SIZE"
    using assms(6) by (simp add: word_le_nat_alt unat_of_nat LOAD_MAX_SIZE_def)
  have "ymodem_open s = ymodem_get_info ?p"
    unfolding ymodem_open_def by (rule open_loop_success [OF _ gp]) (simp add: YMODEM_MAX_RETRIES_def)
  also have "\<dots> = (ERRCODE_SUCC, ?s')"
    by (rule get_info_accepts [OF _ pl le]) simp
  finally have op: "ymodem_open s = (ERRCODE_SUCC, ?s')" .
  show ?thesis
  proof (rule that [OF op])
    show len: "length (packet ?s') = YMODEM_PACKET_SIZE"
      using assms(7) f0(1) packet_size_bound [OF assms(1)] assms(2) by (simp add: stored_packet_def)
    show "between L 0 1 cs rest' ?s'" if "stream_ok L 0 cs" "rest = map Some (frames_of 1 cs) @ rest'"
      using that len assms(6) f0 by (simp add: between_def stored_packet_def)
    show "tx_bytes ?s' = tx_bytes s @ (if g_uart_mute s then [] else [YMODEM_C])"
      using f0 by (simp add: stored_packet_def tx_due_ack)
    show "same_storage s ?s'"
      using same_storage_due_ack [of ?s0] by (simp add: same_storage_def stored_packet_def)
  qed (use f0 in \<open>simp_all add: stored_packet_def\<close>)
qed

section \<open>Damaged, repeated and missing packets\<close>

text \<open>A packet in which any single byte of the data was changed on the way is refused as a checksum
  error, and neither the number of the last accepted packet nor the counters of the transfer
  change.\<close>

theorem damaged_packet_refused:
  assumes "packet_size_of hdr = Some n" and "length data = unat n"
    and "length (packet s) = YMODEM_PACKET_SIZE" and "i < length data" and "v \<noteq> data ! i"
    and "rx_in s = map Some ((ymodem_frame hdr b data)[3 + i := v]) @ rest"
  shows "fst (ymodem_get_packet s) = YMODEM_CS \<and> blk (snd (ymodem_get_packet s)) = blk s
    \<and> expected_blk (snd (ymodem_get_packet s)) = expected_blk s
    \<and> read_length (snd (ymodem_get_packet s)) = read_length s \<and> rx_in (snd (ymodem_get_packet s)) = rest"
proof -
  let ?hi = "ucast (drop_bit 8 (frame_sum data))" and ?lo = "ucast (frame_sum data)"
  have w: "(ymodem_frame hdr b data)[3 + i := v] = wire_packet hdr b (NOT b) (data[i := v]) ?hi ?lo"
    using assms(4) by (simp add: ymodem_frame_def wire_packet_def list_update_append eval_nat_numeral)
  have "frame_sum (data[i := v]) \<noteq> makeu16 ?lo ?hi"
    using crc.changed_byte_refused [OF assms(4,5)] by (simp add: makeu16_split)
  then have "ymodem_get_packet s = (YMODEM_CS, stored_packet (data[i := v]) rest s)"
    using get_packet_wire [OF assms(1), of "data[i := v]" s b "NOT b" ?hi ?lo rest] assms(2,3,6) w by simp
  then show ?thesis by (simp add: stored_packet_def)
qed

lemma damaged_packet_refused_witness:
  "fst (ymodem_get_packet \<lparr>g_uart_mute = False,
      rx_in = map Some ((ymodem_frame 1 5 (replicate 128 0x20))[3 + 7 := 0x21]), boot_log = [],
      flash_ans = (\<lambda>_. 0), flash_n = 0, packet_len = 0, packet = replicate YMODEM_PACKET_SIZE 0,
      rx_eof = False, tx_ack = True, blk = 4, expected_blk = 5, file_length = 1000, read_length = 512\<rparr>) = YMODEM_CS"
  using damaged_packet_refused [of 1 128 "replicate 128 0x20"
      "\<lparr>g_uart_mute = False, rx_in = map Some ((ymodem_frame 1 5 (replicate 128 0x20))[3 + 7 := 0x21]),
        boot_log = [], flash_ans = (\<lambda>_. 0), flash_n = 0, packet_len = 0,
        packet = replicate YMODEM_PACKET_SIZE 0, rx_eof = False, tx_ack = True, blk = 4, expected_blk = 5,
        file_length = 1000, read_length = 512\<rparr>" 7 "0x21" 5 "[]"]
  by simp

text \<open>A repeated packet is acknowledged and dropped, as long as retries are left.\<close>

definition dropped_packet :: "u8 list \<Rightarrow> u8 \<Rightarrow> u8 option list \<Rightarrow> 'a ymodem_context_scheme \<Rightarrow> 'a ymodem_context_scheme" where
  "dropped_packet data b rest s = serial_putc YMODEM_ACK ((stored_packet data rest s)\<lparr>blk := b\<rparr>)"

lemma check_loop_repeats:
  assumes "packet_size_of h = Some n" and "length data = unat n"
  shows "length (packet s) = YMODEM_PACKET_SIZE \<Longrightarrow> expected_blk s = b + 1 \<Longrightarrow> 0 < k
    \<Longrightarrow> rx_in s = map Some (concat (replicate k (ymodem_frame h b data))) @ rest
    \<Longrightarrow> \<exists>s'. check_loop k r s = (ERRCODE_SUCC, s') \<and> packet_len s' = n \<and> take (unat n) (packet s') = data
         \<and> expected_blk s' = b + 1 \<and> read_length s' = read_length s \<and> rx_in s' = rest \<and> rx_eof s' = rx_eof s"
proof (induction k arbitrary: s r)
  case (Suc k)
  let ?rest = "map Some (concat (replicate k (ymodem_frame h b data))) @ rest"
  let ?t = "dropped_packet data b ?rest s"
  have gp: "ymodem_get_packet s = (ERRCODE_SUCC, (stored_packet data ?rest s)\<lparr>blk := b\<rparr>)"
    using get_packet_frame [OF assms Suc.prems(1), of b ?rest] Suc.prems(4) by simp
  have b1: "b \<noteq> b + 1" by simp
  have step: "check_loop (Suc k) r s = check_loop k ERRCODE_SUCC ?t"
    using gp Suc.prems(2) b1 by (simp add: and_FF_u8 dropped_packet_def stored_packet_def)
  have f: "expected_blk ?t = b + 1" "read_length ?t = read_length s" "rx_in ?t = ?rest" "rx_eof ?t = rx_eof s"
      "packet_len ?t = n" "take (unat n) (packet ?t) = data" "length (packet ?t) = YMODEM_PACKET_SIZE"
    using Suc.prems(1,2) assms packet_size_bound [OF assms(1)]
    by (auto simp: dropped_packet_def stored_packet_def serial_putc_def boot_do_def)
  show ?case
  proof (cases "k = 0")
    case True
    then show ?thesis using step f by auto
  next
    case False
    then show ?thesis using Suc.IH [OF f(7,1) _ f(3), of ERRCODE_SUCC] step f by auto
  qed
qed simp

text \<open>When the sender repeats the last accepted packet as often as the receiver retries, the
  receiver gives the data of the repeated packet to its caller a second time, as if it were the next
  part of the file, without counting it.\<close>

theorem repeats_pass_as_data:
  assumes "packet_size_of h = Some n" and "length data = unat n"
    and "length (packet s) = YMODEM_PACKET_SIZE" and "expected_blk s = b + 1"
    and "packet_len s = 0" and "\<not> rx_eof s"
    and "rx_in s = map Some (concat (replicate 20 (ymodem_frame h b data))) @ rest"
  shows "fst (ymodem_read n s) = data \<and> expected_blk (snd (ymodem_read n s)) = b + 1
    \<and> read_length (snd (ymodem_read n s)) = read_length s"
proof -
  obtain s' where s': "ymodem_check_packet s = (ERRCODE_SUCC, s')" "packet_len s' = n"
      "take (unat n) (packet s') = data" "expected_blk s' = b + 1" "read_length s' = read_length s" "\<not> rx_eof s'"
    using check_loop_repeats [OF assms(1-4) _ assms(7), of ERRCODE_FAIL] assms(6)
    by (auto simp: ymodem_check_packet_def YMODEM_MAX_RETRIES_def)
  have "n \<noteq> 0" using packet_size_bound [OF assms(1)] by auto
  then have "ymodem_read_loop n [] s = ymodem_read_loop 0 data (s'\<lparr>packet_len := 0\<rparr>)"
    using s' assms(5,6) by (subst ymodem_read_loop.simps) (simp add: Let_def)
  then show ?thesis using s' by (simp add: ymodem_read_def ymodem_read_loop.simps [of 0])
qed

lemma repeats_pass_as_data_witness:
  "fst (ymodem_read 128 \<lparr>g_uart_mute = False,
      rx_in = map Some (concat (replicate 20 (ymodem_frame 1 1 (replicate 128 0x20)))), boot_log = [],
      flash_ans = (\<lambda>_. 0), flash_n = 0, packet_len = 0, packet = replicate YMODEM_PACKET_SIZE 0,
      rx_eof = False, tx_ack = True, blk = 1, expected_blk = 2, file_length = 256, read_length = 128\<rparr>)
    = replicate 128 0x20"
  using repeats_pass_as_data [of 1 128 "replicate 128 0x20"
      "\<lparr>g_uart_mute = False, rx_in = map Some (concat (replicate 20 (ymodem_frame 1 1 (replicate 128 0x20)))),
        boot_log = [], flash_ans = (\<lambda>_. 0), flash_n = 0, packet_len = 0,
        packet = replicate YMODEM_PACKET_SIZE 0, rx_eof = False, tx_ack = True, blk = 1, expected_blk = 2,
        file_length = 256, read_length = 128\<rparr>" 1 "[]"]
  by simp

lemma get_info_result: "fst (ymodem_get_info s) \<in> {ERRCODE_SUCC, ERRCODE_FAIL, YMODEM_LENTH}"
  by (simp add: ymodem_get_info_def Let_def split: option.splits)

lemma open_loop_result: "fst (open_loop k s) \<in> {ERRCODE_SUCC, ERRCODE_FAIL, YMODEM_LENTH}"
proof (induction k arbitrary: s)
  case (Suc k)
  then show ?case using get_info_result by (auto simp: Let_def split: prod.splits)
qed simp

lemma silent_packet:
  "rx_in s = [] \<Longrightarrow> ymodem_get_packet s = (YMODEM_TIMEOUT, mdelay 20 (ymodem_flush (due_ack s)))"
  by (simp add: ymodem_get_packet_def ymodem_get_head_process_def due_ack_def ymodem_flush_def)

lemma silent_open_loop:
  "rx_in s = [] \<Longrightarrow> \<not> tx_ack s \<Longrightarrow> \<not> g_uart_mute s \<Longrightarrow>
     fst (open_loop k s) = ERRCODE_FAIL \<and> tx_bytes (snd (open_loop k s)) = tx_bytes s @ replicate k YMODEM_C"
proof (induction k arbitrary: s)
  case (Suc k)
  let ?t = "serial_putc YMODEM_C (mdelay 20 (boot_wdt_kick (mdelay 20 (ymodem_flush s))))"
  have t: "rx_in ?t = []" "\<not> tx_ack ?t" "\<not> g_uart_mute ?t" "tx_bytes ?t = tx_bytes s @ [YMODEM_C]"
    using Suc.prems
    by (simp_all add: ymodem_flush_def mdelay_def boot_wdt_kick_def serial_putc_def boot_do_def tx_bytes_def
        check_uart_mute_def map_filter_def)
  have "open_loop (Suc k) s = open_loop k ?t"
    using Suc.prems by (simp add: silent_packet due_ack_def)
  then show ?case using Suc.IH [OF t(1-3), unfolded t(4)] by (simp del: open_loop.simps)
qed simp

text \<open>Opening a transfer always returns, with success, with the general failure or with the length error;
  the timeout code is never returned. On a silent line it asks 21 times and fails.\<close>

theorem open_outcome:
  "fst (ymodem_open s) \<in> {ERRCODE_SUCC, ERRCODE_FAIL, YMODEM_LENTH}
   \<and> (rx_in s = [] \<and> \<not> g_uart_mute s \<longrightarrow>
        fst (ymodem_open s) = ERRCODE_FAIL \<and> tx_bytes (snd (ymodem_open s)) = tx_bytes s @ replicate 21 YMODEM_C)"
proof
  show "fst (ymodem_open s) \<in> {ERRCODE_SUCC, ERRCODE_FAIL, YMODEM_LENTH}"
    unfolding ymodem_open_def by (rule open_loop_result)
  show "rx_in s = [] \<and> \<not> g_uart_mute s \<longrightarrow>
      fst (ymodem_open s) = ERRCODE_FAIL \<and> tx_bytes (snd (ymodem_open s)) = tx_bytes s @ replicate 21 YMODEM_C"
  proof
    assume a: "rx_in s = [] \<and> \<not> g_uart_mute s"
    let ?t = "boot_wdt_kick (serial_putc YMODEM_C
         (s\<lparr>packet_len := 0, file_length := 0, read_length := 0, tx_ack := False, rx_eof := False\<rparr>))"
    have t: "rx_in ?t = []" "\<not> tx_ack ?t" "\<not> g_uart_mute ?t" "tx_bytes ?t = tx_bytes s @ [YMODEM_C]"
      using a by (simp_all add: boot_wdt_kick_def serial_putc_def boot_do_def tx_bytes_def
        check_uart_mute_def map_filter_def)
    have "replicate 21 YMODEM_C = YMODEM_C # replicate 20 YMODEM_C" by (simp add: numeral_eq_Suc)
    then show "fst (ymodem_open s) = ERRCODE_FAIL \<and> tx_bytes (snd (ymodem_open s)) = tx_bytes s @ replicate 21 YMODEM_C"
      using silent_open_loop [OF t(1-3), of YMODEM_MAX_RETRIES] t(4)
      by (simp add: ymodem_open_def YMODEM_MAX_RETRIES_def)
  qed
qed

lemma open_outcome_witness:
  "tx_bytes (snd (ymodem_open \<lparr>g_uart_mute = False, rx_in = [], boot_log = [],
      flash_ans = (\<lambda>_. 0), flash_n = 0, packet_len = 0, packet = replicate YMODEM_PACKET_SIZE 0,
      rx_eof = False, tx_ack = True, blk = 1, expected_blk = 2, file_length = 256, read_length = 128\<rparr>))
    = replicate 21 YMODEM_C"
  using open_outcome [of "\<lparr>g_uart_mute = False, rx_in = [], boot_log = [],
      flash_ans = (\<lambda>_. 0), flash_n = 0, packet_len = 0, packet = replicate YMODEM_PACKET_SIZE 0,
      rx_eof = False, tx_ack = True, blk = 1, expected_blk = 2, file_length = 256, read_length = 128\<rparr>"]
  by (simp add: tx_bytes_def map_filter_def)

end
