(* ===== verification/BootLoad.thy ===== *)
theory BootLoad
  imports Ymodem
begin

text \<open>
  Loading a file over YMODEM and writing it to the flash: boot_load.c, the table of flash functions
  in boot_flash.c and the functions that the loader boot puts into it (provision_ws63 main.c).
  The flash controller driver below them (\<open>uapi_sfc_*\<close>) is the oracle \<open>flash_ans\<close>.
\<close>

section \<open>The flash functions of the loader\<close>

definition FLASH_START :: u32 where "FLASH_START = 0x200000"
definition FLASH_LEN :: u32 where "FLASH_LEN = 0x800000"
definition FLASH_CHIP_ERASE_SIZE :: u32 where "FLASH_CHIP_ERASE_SIZE = 0xffffffff"
definition READ_SIZE :: u32 where "READ_SIZE = 8192"

definition flash_answer :: "'a boot_io_scheme \<Rightarrow> u32" where
  "flash_answer s = flash_ans s (flash_n s)"

definition flash_call :: "(u32 \<Rightarrow> boot_event) \<Rightarrow> 'a boot_io_scheme \<Rightarrow> u32 \<times> 'a boot_io_scheme" where
  "flash_call ev s = (flash_answer s, boot_do (ev (flash_answer s)) (s\<lparr>flash_n := Suc (flash_n s)\<rparr>))"

definition is_flash_addr :: "u32 \<Rightarrow> u32 \<Rightarrow> bool" where
  "is_flash_addr addr sz = (0 \<le> addr \<and> addr + sz < FLASH_LEN)"

text \<open>
  The bytes and their number are one list. Outside the flash the bytes go to the bus address by
  \<open>memcpy_s\<close>, which refuses a destination of size 0.
\<close>

definition sfc_flash_write :: "u32 \<Rightarrow> u8 list \<Rightarrow> 'a boot_io_scheme \<Rightarrow> u32 \<times> 'a boot_io_scheme" where
  "sfc_flash_write flash_addr bs s =
     (if is_flash_addr flash_addr (of_nat (length bs)) then flash_call (FlashWrite flash_addr bs) s
      else if bs = [] then (ERRCODE_FAIL, s)
      else (ERRCODE_SUCC, boot_do (RamWrite (flash_addr + FLASH_START) bs) s))"

definition sfc_flash_erase :: "u32 \<Rightarrow> u32 \<Rightarrow> 'a boot_io_scheme \<Rightarrow> u32 \<times> 'a boot_io_scheme" where
  "sfc_flash_erase flash_addr sz s =
     (if sz = FLASH_CHIP_ERASE_SIZE then flash_call FlashEraseChip s
      else flash_call (FlashErase (flash_addr - FLASH_START) sz) s)"

section \<open>boot_load.c\<close>

text \<open>The loop of \<open>receive_file\<close>; the last component of the result is \<open>*size\<close>.\<close>

function receive_loop ::
    "u32 \<Rightarrow> u32 \<Rightarrow> u32 \<Rightarrow> 'a ymodem_context_scheme \<Rightarrow> (u32 \<times> u32) \<times> 'a ymodem_context_scheme" where
  "receive_loop flen store_addr sz s =
     (if flen = 0 then ((ERRCODE_SUCC, sz), s)
      else
        let (buf, s1) = ymodem_read (min flen READ_SIZE) s;
            read_len = of_nat (length buf) :: u32
        in if read_len = 0 \<or> flen < read_len then ((ERRCODE_FAIL, sz), s1)
           else let (ret, s2) = sfc_flash_write (store_addr - FLASH_START) buf s1
                in if ret \<noteq> ERRCODE_SUCC then ((ERRCODE_FAIL, sz), boot_msg1 ''flash write fail'' ret s2)
                   else receive_loop (flen - read_len) (store_addr + read_len) (sz + read_len)
                          (boot_wdt_kick s2))"
  by auto

termination
proof (relation "measure (\<lambda>(flen, a, n, s). unat flen)", goal_cases)
  case (2 flen store_addr sz s p buf s1 read_len q ret s2)
  then have "0 < read_len" "read_len \<le> flen" by (auto simp: word_neq_0_conv)
  then show ?case by (simp add: unat_sub word_less_nat_alt word_le_nat_alt)
qed simp

declare receive_loop.simps [simp del]

definition receive_file ::
    "u32 \<Rightarrow> u32 \<Rightarrow> u32 \<Rightarrow> u32 \<Rightarrow> 'a ymodem_context_scheme \<Rightarrow> (u32 \<times> u32) \<times> 'a ymodem_context_scheme" where
  "receive_file flen erased_size addr sz s =
     (let ((ret, sz1), s1) = receive_loop flen addr sz s
      in if ret \<noteq> ERRCODE_SUCC then ((ret, sz1), s1)
         else ((ERRCODE_SUCC, sz1), snd (ymodem_read READ_SIZE s1)))"

definition loader_serial_ymodem ::
    "u32 \<Rightarrow> u32 \<Rightarrow> u32 \<Rightarrow> u32 \<Rightarrow> 'a ymodem_context_scheme \<Rightarrow> u32 \<times> 'a ymodem_context_scheme" where
  "loader_serial_ymodem offset erased_size minlen maxlen s =
     (let err = (\<lambda>s. (ERRCODE_FAIL, ymodem_close s));
          (ret, s1) = ymodem_open s
      in if ret \<noteq> ERRCODE_SUCC then err s1
         else let flen = ymodem_get_length s1
         in if flen \<le> minlen \<or> maxlen < flen then err (boot_msg1 ''file length err : '' flen s1)
         else if erased_size \<noteq> 0 \<and> erased_size < flen then err (boot_msg0 ''file_size > erase_size'' s1)
         else let ((ret2, sz), s2) = receive_file flen erased_size offset 0 s1
         in if ret2 \<noteq> ERRCODE_SUCC then err s2
         else if sz = flen then (ERRCODE_SUCC, ymodem_close (boot_msg1 ''total size:'' sz s2))
         else err s2)"

section \<open>The receiver does not touch the storage\<close>

lemma same_storage_ops [simp]:
  "same_storage s (serial_putc c t) = same_storage s t" "same_storage s (udelay n t) = same_storage s t"
  "same_storage s (mdelay n t) = same_storage s t" "same_storage s (boot_wdt_kick t) = same_storage s t"
  "same_storage s (t\<lparr>rx_in := x\<rparr>) = same_storage s t"
  by (simp_all add: same_storage_def)

lemma same_storage_ymodem_fields [simp]:
  "same_storage s (t\<lparr>packet_len := a\<rparr>) = same_storage s t" "same_storage s (t\<lparr>packet := p\<rparr>) = same_storage s t"
  "same_storage s (t\<lparr>rx_eof := v\<rparr>) = same_storage s t" "same_storage s (t\<lparr>tx_ack := v\<rparr>) = same_storage s t"
  "same_storage s (t\<lparr>blk := c\<rparr>) = same_storage s t" "same_storage s (t\<lparr>expected_blk := c\<rparr>) = same_storage s t"
  "same_storage s (t\<lparr>file_length := a\<rparr>) = same_storage s t" "same_storage s (t\<lparr>read_length := a\<rparr>) = same_storage s t"
  by (simp_all add: same_storage_def)

lemma same_storage_flush [simp]:
  "same_storage s (ymodem_flush t) = same_storage s t" "same_storage s (ymodem_close t) = same_storage s t"
  by (simp_all add: ymodem_flush_def ymodem_close_def)

lemma same_storage_getc: "ymodem_getc_timeout t = (r, t1) \<Longrightarrow> same_storage s t1 = same_storage s t"
  by (auto simp: getc_cases)

lemma same_storage_head: "ymodem_get_head_process t = (r, t1) \<Longrightarrow> same_storage s t1 = same_storage s t"
  by (auto simp: ymodem_get_head_process_def split: prod.splits ymodem_head.splits)

lemma same_storage_get_packet: "ymodem_get_packet t = (r, t1) \<Longrightarrow> same_storage s t1 = same_storage s t"
  by (auto simp: ymodem_get_packet_def Let_def split: prod.splits option.splits if_splits
    dest!: same_storage_getc [of _ _ _ s] same_storage_head [of _ _ _ s])

lemma same_storage_get_packet_len [simp]: "same_storage s (get_packet_len t) = same_storage s t"
  by (simp add: get_packet_len_def Let_def)

lemma same_storage_check_loop: "same_storage s (snd (check_loop n p t)) = same_storage s t"
  by (induction n arbitrary: p t)
    (auto simp: Let_def split: prod.splits dest!: same_storage_get_packet [of _ _ _ s])

lemma same_storage_read_loop: "same_storage s (snd (ymodem_read_loop n acc t)) = same_storage s t"
proof (induction n acc t rule: ymodem_read_loop.induct)
  case (1 n acc t)
  obtain r t1 where p: "(if packet_len t = 0 then ymodem_check_packet t else (ERRCODE_SUCC, t)) = (r, t1)"
    by fastforce
  have "same_storage s t1 = same_storage s t"
    using p same_storage_check_loop [of s YMODEM_MAX_RETRIES ERRCODE_FAIL t]
    by (auto simp: ymodem_check_packet_def split: if_splits)
  then show ?case
    using "1.IH" [OF _ p [symmetric] refl] p
    by (subst ymodem_read_loop.simps) (simp add: Let_def)
qed

lemma same_storage_read: "ymodem_read n t = (bs, t1) \<Longrightarrow> same_storage s t1 = same_storage s t"
  using same_storage_read_loop [of s n "[]" t] by (simp add: ymodem_read_def)

lemma same_storage_get_info: "ymodem_get_info t = (r, t1) \<Longrightarrow> same_storage s t1 = same_storage s t"
  by (auto simp: ymodem_get_info_def Let_def split: option.splits if_splits)

lemma same_storage_open_loop: "open_loop k t = (r, t1) \<Longrightarrow> same_storage s t1 = same_storage s t"
  by (induction k arbitrary: t)
    (auto simp: Let_def split: prod.splits if_splits
      dest!: same_storage_get_packet [of _ _ _ s] same_storage_get_info [of _ _ _ s])

lemma same_storage_open: "ymodem_open t = (r, t1) \<Longrightarrow> same_storage s t1 = same_storage s t"
  unfolding ymodem_open_def by (drule same_storage_open_loop [where s = s]) simp

text \<open>A read returns at most what was asked for.\<close>

lemma read_loop_bound: "length (fst (ymodem_read_loop n acc t)) \<le> length acc + unat n"
proof (induction n acc t rule: ymodem_read_loop.induct)
  case (1 n acc t)
  obtain r t1 where p: "(if packet_len t = 0 then ymodem_check_packet t else (ERRCODE_SUCC, t)) = (r, t1)"
    by fastforce
  let ?m = "min n (packet_len t1)"
  have "unat ?m \<le> unat n" "unat (n - ?m) = unat n - unat ?m"
    by (simp_all add: min_def word_le_nat_alt unat_sub)
  then have "length (acc @ take (unat ?m) (packet t1)) + unat (n - ?m) \<le> length acc + unat n" by simp
  then have "length (fst (ymodem_read_loop (n - ?m) (acc @ take (unat ?m) (packet t1)) (t1\<lparr>packet_len := 0\<rparr>)))
      \<le> length acc + unat n" if "\<not> (rx_eof t \<or> n = 0)" "\<not> r \<noteq> 0" "\<not> rx_eof t1"
    using "1.IH" [OF that(1) p [symmetric] refl that(2,3) refl] by linarith
  then show ?case
    by (subst ymodem_read_loop.simps) (auto simp add: Let_def p)
qed

lemma read_bound: "ymodem_read n t = (bs, t1) \<Longrightarrow> length bs \<le> unat n"
  using read_loop_bound [of n "[]" t] by (simp add: ymodem_read_def)

section \<open>Flash contents\<close>

text \<open>
  The memories as contents by address. A store to RAM puts the bytes at its address and changes
  nothing else. The flash is NOR flash: an accepted write only clears bits, so it leaves the AND of its bytes
  and what was there, an accepted erase leaves bytes 0xFF, and neither changes anything else (the driver
  refuses a range that is not whole sectors, or writes the rest of the sectors back).
  \<open>flash_image\<close> is what a log of operations leaves of an initial contents.
\<close>

definition store_bytes :: "u32 \<Rightarrow> u8 list \<Rightarrow> (u32 \<Rightarrow> u8) \<Rightarrow> u32 \<Rightarrow> u8" where
  "store_bytes a bs m = (\<lambda>x. if unat (x - a) < length bs then bs ! unat (x - a) else m x)"

definition program_bytes :: "u32 \<Rightarrow> u8 list \<Rightarrow> (u32 \<Rightarrow> u8) \<Rightarrow> u32 \<Rightarrow> u8" where
  "program_bytes a bs m = (\<lambda>x. if unat (x - a) < length bs then m x AND bs ! unat (x - a) else m x)"

definition erase_bytes :: "u32 \<Rightarrow> u32 \<Rightarrow> (u32 \<Rightarrow> u8) \<Rightarrow> u32 \<Rightarrow> u8" where
  "erase_bytes a n m = (\<lambda>x. if x - a < n then 0xFF else m x)"

fun flash_image :: "boot_event list \<Rightarrow> (u32 \<Rightarrow> u8) \<Rightarrow> u32 \<Rightarrow> u8" where
  "flash_image [] m = m"
| "flash_image (FlashErase a n r # es) m = flash_image es (if r = ERRCODE_SUCC then erase_bytes a n m else m)"
| "flash_image (FlashEraseChip r # es) m = flash_image es (if r = ERRCODE_SUCC then (\<lambda>_. 0xFF) else m)"
| "flash_image (FlashWrite a bs r # es) m = flash_image es (if r = ERRCODE_SUCC then program_bytes a bs m else m)"
| "flash_image (_ # es) m = flash_image es m"

lemma flash_image_append: "flash_image (es @ fs) m = flash_image fs (flash_image es m)"
  by (induction es m rule: flash_image.induct) auto

lemma program_bytes_append:
  assumes "length bs + length cs < 2 ^ 32"
  shows "program_bytes (a + of_nat (length bs)) cs (program_bytes a bs m) = program_bytes a (bs @ cs) m"
proof
  fix x
  let ?d = "x - a" and ?k = "of_nat (length bs) :: u32"
  have k: "unat ?k = length bs" using assms by (simp add: unat_of_nat)
  have e: "x - (a + ?k) = ?d - ?k" by simp
  show "program_bytes (a + ?k) cs (program_bytes a bs m) x = program_bytes a (bs @ cs) m x"
  proof (cases "unat ?d < length bs")
    case True
    then have "?d < ?k" by (simp add: word_less_nat_alt k)
    then have "unat (?d - ?k) = unat ?d + 2 ^ 32 - length bs"
      using k by (simp add: unat_word_ariths word_less_nat_alt) (simp add: unat_sub_if_size word_size)
    then have "\<not> unat (?d - ?k) < length cs" using assms by simp
    then show ?thesis using True unfolding program_bytes_def e by (simp add: nth_append)
  next
    case False
    then have "unat (?d - ?k) = unat ?d - length bs"
      using k by (simp add: unat_sub word_le_nat_alt)
    then show ?thesis using False unfolding program_bytes_def e by (auto simp add: nth_append)
  qed
qed

text \<open>Programming erased flash stores the bytes.\<close>

definition blank :: "u32 \<Rightarrow> nat \<Rightarrow> (u32 \<Rightarrow> u8) \<Rightarrow> bool" where
  "blank a n m = (\<forall>i < n. m (a + of_nat i) = 0xFF)"

lemma program_blank:
  assumes "blank a (length bs) m"
  shows "program_bytes a bs m = store_bytes a bs m"
proof
  fix x
  have "m x = 0xFF" if "unat (x - a) < length bs"
    using assms that by (auto simp: blank_def dest!: spec [of _ "unat (x - a)"])
  then show "program_bytes a bs m x = store_bytes a bs m x"
    by (simp add: program_bytes_def store_bytes_def u8_FF_and)
qed

lemma blank_erased:
  assumes "n \<le> unat e"
  shows "blank a n (erase_bytes a e m)"
proof -
  have "a + of_nat i - a < e" if "i < n" for i
    using that assms unat_u32_less [of e] by (simp add: word_less_nat_alt unat_of_nat)
  then show ?thesis by (simp add: blank_def erase_bytes_def)
qed

section \<open>No write outside the announced file\<close>

definition write_span :: "boot_event \<Rightarrow> (u32 \<times> nat) option" where
  "write_span e = (case e of FlashWrite a bs r \<Rightarrow> Some (a + FLASH_START, length bs)
     | RamWrite a bs \<Rightarrow> Some (a, length bs) | _ \<Rightarrow> None)"

definition spans_within :: "u32 \<Rightarrow> nat \<Rightarrow> boot_event list \<Rightarrow> bool" where
  "spans_within a len es =
     list_all (\<lambda>e. case write_span e of None \<Rightarrow> False | Some (x, n) \<Rightarrow> unat (x - a) + n \<le> len) es"

lemma spans_within_mono: "spans_within a n es \<Longrightarrow> n \<le> m \<Longrightarrow> spans_within a m es"
  by (fastforce simp: spans_within_def list_all_iff split: option.splits)

lemma spans_within_shift:
  assumes "spans_within (a + k) (n - unat k) es" and "unat k \<le> n" and "n < 2 ^ 32"
  shows "spans_within a n es"
  unfolding spans_within_def list_all_iff
proof
  fix e assume "e \<in> set es"
  then obtain x l where x: "write_span e = Some (x, l)" "unat (x - (a + k)) + l \<le> n - unat k"
    using assms(1) by (auto simp: spans_within_def list_all_iff split: option.splits)
  have "x - a = (x - (a + k)) + k" by simp
  then have "unat (x - a) \<le> unat (x - (a + k)) + unat k"
    by (metis mod_less_eq_dividend unat_word_ariths(1))
  then show "case write_span e of None \<Rightarrow> False | Some (x, l) \<Rightarrow> unat (x - a) + l \<le> n"
    using x assms(2) by simp
qed

lemma same_storage_puts [simp]: "same_storage s (serial_puts m t) = same_storage s t"
  by (simp add: serial_puts_def same_storage_def flash_log_def filter_map comp_def flash_event_def)

lemma same_storage_put_buf [simp]: "same_storage s (serial_put_buf bs t) = same_storage s t"
  by (simp add: serial_put_buf_def same_storage_def flash_log_def filter_map comp_def flash_event_def)

lemma same_storage_msg [simp]:
  "same_storage s (serial_puthex h b t) = same_storage s t"
  "same_storage s (boot_msg0 m t) = same_storage s t" "same_storage s (boot_msg1 m h t) = same_storage s t"
  by (simp_all add: serial_puthex_def boot_msg0_def boot_msg1_def)

lemma same_storage_log: "same_storage s t \<Longrightarrow> flash_log t = flash_log s"
  by (simp add: same_storage_def)

lemma flash_log_write:
  assumes "sfc_flash_write a bs t = (r, t1)"
  obtains es where "flash_log t1 = flash_log t @ es" and "spans_within (a + FLASH_START) (length bs) es"
  using assms
  by (auto simp: sfc_flash_write_def flash_call_def boot_do_def flash_log_def flash_event_def
    spans_within_def write_span_def split: if_splits)

lemma receive_loop_region:
  "receive_loop flen a sz s = ((ret, sz'), s') \<Longrightarrow>
     \<exists>es. flash_log s' = flash_log s @ es \<and> spans_within a (unat flen) es"
proof (induction flen a sz s rule: receive_loop.induct)
  case (1 flen a sz s)
  show ?case
  proof (cases "flen = 0")
    case True
    then show ?thesis using "1.prems"
      by (intro exI [of _ "[]"]) (simp add: receive_loop.simps spans_within_def)
  next
    case False
    obtain buf s1 where r: "ymodem_read (min flen READ_SIZE) s = (buf, s1)" by fastforce
    obtain w s2 where w: "sfc_flash_write (a - FLASH_START) buf s1 = (w, s2)" by fastforce
    let ?k = "of_nat (length buf) :: u32"
    obtain es where es: "flash_log s2 = flash_log s1 @ es" "spans_within a (length buf) es"
      using flash_log_write [OF w] by auto
    have l1: "flash_log s1 = flash_log s" using same_storage_read [OF r, of s] by (simp add: same_storage_log)
    have lb: "length buf \<le> unat flen" "unat ?k = length buf"
    proof -
      have "length buf \<le> unat (min flen READ_SIZE)" by (rule read_bound [OF r])
      also have "\<dots> \<le> unat flen" by (simp add: min_def word_le_nat_alt)
      finally show "length buf \<le> unat flen" .
      then show "unat ?k = length buf" using unat_u32_less [of flen] by (simp add: unat_of_nat)
    qed
    show ?thesis
    proof (cases "?k = 0 \<or> flen < ?k")
      case True
      then have "s' = s1" using "1.prems" False r by (simp add: receive_loop.simps [of flen] Let_def)
      then show ?thesis using l1 by (intro exI [of _ "[]"]) (simp add: spans_within_def)
    next
      case ok: False
      show ?thesis
      proof (cases "w = 0")
        case True
        then obtain fs where fs: "flash_log s' = flash_log (boot_wdt_kick s2) @ fs"
            "spans_within (a + ?k) (unat (flen - ?k)) fs"
          using "1.IH" [OF False refl r [symmetric] refl ok refl w [symmetric]] "1.prems" False r ok w
          by (auto simp: receive_loop.simps [of flen] Let_def)
        have "unat (flen - ?k) = unat flen - unat ?k" using ok by (simp add: unat_sub not_less)
        then have "spans_within a (unat flen) fs"
          using fs(2) lb unat_u32_less [of flen] by (intro spans_within_shift [of a ?k]) auto
        moreover have "spans_within a (unat flen) es" using es(2) lb(1) by (rule spans_within_mono)
        ultimately show ?thesis using fs(1) es(1) l1
          by (intro exI [of _ "es @ fs"]) (simp add: spans_within_def)
      next
        case False
        then have "s' = boot_msg1 ''flash write fail'' w s2"
          using "1.prems" \<open>flen \<noteq> 0\<close> r ok w by (simp add: receive_loop.simps [of flen] Let_def)
        then have "flash_log s' = flash_log s2"
          using same_storage_msg(3) [of s2 "''flash write fail''" w s2] by (simp add: same_storage_log)
        then show ?thesis using es l1 spans_within_mono [OF es(2) lb(1)] by auto
      qed
    qed
  qed
qed

lemma receive_file_region:
  assumes "receive_file flen er a sz s = ((ret, sz'), s')"
  shows "\<exists>es. flash_log s' = flash_log s @ es \<and> spans_within a (unat flen) es"
proof -
  obtain r z t where l: "receive_loop flen a sz s = ((r, z), t)" by (metis surj_pair)
  obtain es where es: "flash_log t = flash_log s @ es" "spans_within a (unat flen) es"
    using receive_loop_region [OF l] by blast
  have "flash_log s' = flash_log t"
    using assms l same_storage_read_loop [of t READ_SIZE "[]" t]
    by (auto simp: receive_file_def ymodem_read_def same_storage_log split: if_splits)
  then show ?thesis using es by auto
qed

lemma download_region:
  assumes "loader_serial_ymodem offset erased minlen maxlen s = (ret, s')"
  shows "\<exists>es. flash_log s' = flash_log s @ es \<and> spans_within offset (unat maxlen) es
     \<and> spans_within offset (if erased = 0 then unat maxlen else unat erased) es"
proof -
  obtain r s1 where o: "ymodem_open s = (r, s1)" by fastforce
  have l1: "flash_log s1 = flash_log s" using same_storage_open [OF o, of s] by (simp add: same_storage_log)
  let ?f = "ymodem_get_length s1"
  obtain r2 z s2 where f: "receive_file ?f erased offset 0 s1 = ((r2, z), s2)" by (metis surj_pair)
  obtain es where es: "flash_log s2 = flash_log s1 @ es" "spans_within offset (unat ?f) es"
    using receive_file_region [OF f] by blast
  have msg: "flash_log (ymodem_close (boot_msg1 m h t)) = flash_log t"
    "flash_log (ymodem_close (boot_msg0 m t)) = flash_log t" "flash_log (ymodem_close t) = flash_log t"
    for m h and t :: "'a ymodem_context_scheme"
    using same_storage_log [of t "ymodem_close (boot_msg1 m h t)"]
      same_storage_log [of t "ymodem_close (boot_msg0 m t)"] same_storage_log [of t "ymodem_close t"]
    by simp_all
  have "flash_log s' = flash_log s
      \<or> (flash_log s' = flash_log s2 \<and> unat ?f \<le> unat maxlen \<and> (erased = 0 \<or> unat ?f \<le> unat erased))"
    using assms o f l1 msg unfolding loader_serial_ymodem_def Let_def
    by (auto simp: not_less word_le_nat_alt split: if_splits)
  then show ?thesis
  proof
    assume "flash_log s' = flash_log s"
    then show ?thesis by (intro exI [of _ "[]"]) (simp add: spans_within_def)
  next
    assume a: "flash_log s' = flash_log s2 \<and> unat ?f \<le> unat maxlen \<and> (erased = 0 \<or> unat ?f \<le> unat erased)"
    then show ?thesis
      using es l1 spans_within_mono [OF es(2)] by (intro exI [of _ es]) auto
  qed
qed

text \<open>C32: Whatever arrives on the serial line, a download writes only inside the window of
  \<open>max\<close> bytes that starts at its address, and inside the erased part of it when one was erased; in
  particular no packet, no repeated packet and no wrong length can make it write elsewhere.\<close>

theorem download_stays_in_region:
  assumes "loader_serial_ymodem offset erased minlen maxlen s = (ret, s')"
  shows "\<exists>es. flash_log s' = flash_log s @ es \<and> spans_within offset (unat maxlen) es
     \<and> spans_within offset (if erased = 0 then unat maxlen else unat erased) es"
  using assms by (rule download_region)

section \<open>A complete transfer\<close>

lemma stream_ok_length: "stream_ok L off cs \<Longrightarrow> L \<le> off + length (payload_of cs)"
  by (induction L off cs rule: stream_ok.induct) (auto simp del: packet_size_of.simps)

lemma between_keeps [simp]:
  "between L off b cs rest (boot_wdt_kick s) = between L off b cs rest s"
  by (simp add: between_def boot_wdt_kick_def boot_do_def)

lemma between_call [simp]:
  "between L off b cs rest (snd (flash_call ev s)) = between L off b cs rest s"
  by (simp add: between_def flash_call_def boot_do_def)

text \<open>A flash that accepts everything from now on.\<close>

definition flash_accepts :: "'a boot_io_scheme \<Rightarrow> bool" where
  "flash_accepts s = (\<forall>k. flash_ans s (flash_n s + k) = ERRCODE_SUCC)"

lemma flash_accepts_now: "flash_accepts s \<Longrightarrow> flash_answer s = ERRCODE_SUCC"
  by (metis add_0_right flash_accepts_def flash_answer_def)

lemma flash_accepts_call [simp]: "flash_accepts s \<Longrightarrow> flash_accepts (snd (flash_call ev s))"
  by (auto simp: flash_accepts_def flash_call_def boot_do_def) (metis add_Suc_right)

lemma flash_accepts_kick [simp]: "flash_accepts (boot_wdt_kick s) = flash_accepts s"
  by (simp add: flash_accepts_def boot_wdt_kick_def boot_do_def)

lemma flash_accepts_storage: "same_storage s t \<Longrightarrow> flash_accepts t = flash_accepts s"
  by (simp add: flash_accepts_def same_storage_def)

lemma flash_call_log [simp]:
  "flash_log (snd (flash_call (FlashWrite a bs) s)) = flash_log s @ [FlashWrite a bs (flash_answer s)]"
  "tx_bytes (snd (flash_call (FlashWrite a bs) s)) = tx_bytes s"
  "g_uart_mute (snd (flash_call ev s)) = g_uart_mute s"
  by (simp_all add: flash_call_def boot_do_def flash_log_def tx_bytes_def flash_event_def map_filter_def)

lemma write_in_flash:
  assumes "unat base + n < 0x800000" and "off + length bs \<le> n"
  shows "sfc_flash_write (base + of_nat off) bs s = flash_call (FlashWrite (base + of_nat off) bs) s"
proof -
  have "unat (base + of_nat off + of_nat (length bs)) = unat base + off + length bs"
    using assms by (simp add: unat_word_ariths unat_of_nat)
  then show ?thesis
    using assms by (simp add: sfc_flash_write_def is_flash_addr_def FLASH_LEN_def word_less_nat_alt)
qed

lemma receive_loop_stream:
  assumes "between L off b cs rest s" and "off \<le> L" and "off = L \<or> YMODEM_PACKET_SIZE dvd off"
    and "flash_accepts s" and "unat base + L < 0x800000"
  shows "\<exists>s' off'. receive_loop (of_nat (L - off)) (base + FLASH_START + of_nat off) (of_nat off) s
       = ((ERRCODE_SUCC, of_nat L), s')
     \<and> flash_image (flash_log s') m
       = program_bytes (base + of_nat off) (take (L - off) (payload_of cs)) (flash_image (flash_log s) m)
     \<and> tx_bytes s' = tx_bytes s @ acks s (length cs) \<and> between L off' (b + of_nat (length cs)) [] rest s'
     \<and> g_uart_mute s' = g_uart_mute s"
  using assms
proof (induction "L - off" arbitrary: off b cs s rule: less_induct)
  case less
  show ?case
  proof (cases "off = L")
    case True
    then have "cs = []" using less.prems(1) by (cases cs) (auto simp: between_def)
    then show ?thesis using True less.prems(1)
      by (intro exI [of _ s] exI [of _ off]) (simp add: receive_loop.simps acks_def program_bytes_def)
  next
    case False
    then have lt: "off < L" and dv: "YMODEM_PACKET_SIZE dvd off" using less.prems(2,3) by auto
    have L: "L \<le> 0x1000000" and sk: "stream_ok L off cs"
      using less.prems(1) by (auto simp: between_def LOAD_MAX_SIZE_def)
    define e where "e = min L (off + YMODEM_PACKET_SIZE)"
    have e: "off < e" "e \<le> L" "e = L \<or> YMODEM_PACKET_SIZE dvd e" "e - off \<le> YMODEM_PACKET_SIZE"
      using lt dv by (auto simp: e_def min_def YMODEM_PACKET_SIZE_def)
    have rs: "min (of_nat (L - off)) READ_SIZE = (of_nat (e - off) :: u32)"
    proof -
      have "unat (of_nat (L - off) :: u32) = L - off" using L by (simp add: unat_of_nat del: of_nat_diff)
      then show ?thesis
        using lt by (auto simp: e_def min_def READ_SIZE_def YMODEM_PACKET_SIZE_def word_le_nat_alt simp del: of_nat_diff)
    qed
    obtain s1 off1 n where r: "ymodem_read (of_nat (e - off)) s = (take (e - off) (payload_of cs), s1)"
      "between L off1 (b + of_nat n) (drop n cs) rest s1" "same_storage s s1" "n \<le> length cs"
      "tx_bytes s1 = tx_bytes s @ acks s n" "e \<le> off1" "e < L \<longrightarrow> off1 = e"
      "payload_of (drop n cs) = drop (off1 - off) (payload_of cs)"
      using read_loop_stream [OF less.prems(1) _ e(2,3), of "[]"] e(1) unfolding ymodem_read_def by force
    define buf where "buf = take (e - off) (payload_of cs)"
    have lb: "length buf = e - off" using stream_ok_length [OF sk] e(2) by (simp add: buf_def)
    have of: "unat (of_nat (e - off) :: u32) = e - off" using e L by (simp add: unat_of_nat del: of_nat_diff)
    have nz: "(of_nat (e - off) :: u32) \<noteq> 0" using of e(1) by (metis unat_0 zero_less_diff less_irrefl)
    have nl: "\<not> (of_nat (L - off) :: u32) < of_nat (e - off)"
      using e L by (simp add: word_less_nat_alt unat_of_nat del: of_nat_diff)
    let ?a = "base + of_nat off"
    have wr: "sfc_flash_write (base + FLASH_START + of_nat off - FLASH_START) buf s1 = flash_call (FlashWrite ?a buf) s1"
      using write_in_flash [OF less.prems(5), of off buf s1] lb e by simp
    have fa: "flash_accepts s1" using less.prems(4) r(3) by (simp add: flash_accepts_storage)
    define t where "t = snd (flash_call (FlashWrite ?a buf) s1)"
    let ?s2 = "boot_wdt_kick t"
    have call: "flash_call (FlashWrite ?a buf) s1 = (ERRCODE_SUCC, t)"
      using flash_accepts_now [OF fa] by (simp add: flash_call_def t_def)
    have nz2: "(of_nat (L - off) :: u32) \<noteq> 0" using nl nz by (metis word_gt_0)
    have "receive_loop (of_nat (L - off)) (base + FLASH_START + of_nat off) (of_nat off) s
        = receive_loop (of_nat (L - off) - of_nat (e - off)) (base + FLASH_START + of_nat off + of_nat (e - off))
            (of_nat off + of_nat (e - off)) ?s2"
      using nz nz2 nl r(1) call lb wr
      by (subst receive_loop.simps) (simp add: rs Let_def buf_def [symmetric] del: of_nat_diff)
    also have "\<dots> = receive_loop (of_nat (L - e)) (base + FLASH_START + of_nat e) (of_nat e) ?s2"
      using e by (simp add: of_nat_diff add.assoc)
    finally have step: "receive_loop (of_nat (L - off)) (base + FLASH_START + of_nat off) (of_nat off) s = \<dots>" .
    have img: "flash_image (flash_log ?s2) m = program_bytes ?a buf (flash_image (flash_log s) m)"
      using flash_accepts_now [OF fa] same_storage_log [OF r(3)] by (simp add: t_def flash_image_append)
    have tx2: "tx_bytes ?s2 = tx_bytes s @ acks s n" using r(5) by (simp add: t_def)
    have mute: "g_uart_mute ?s2 = g_uart_mute s" using r(3) by (simp add: t_def same_storage_def)
    have bt2: "between L off1 (b + of_nat n) (drop n cs) rest ?s2" using r(2) by (simp add: t_def)
    show ?thesis
    proof (cases "e = L")
      case True
      have nil: "drop n cs = []"
        using r(2,6) True by (cases "drop n cs") (auto simp: between_def)
      then have n: "n = length cs" using r(4) by simp
      have "receive_loop (of_nat (L - e)) (base + FLASH_START + of_nat e) (of_nat e) ?s2
          = ((ERRCODE_SUCC, of_nat L), ?s2)" using True by (simp add: receive_loop.simps)
      then show ?thesis using step img tx2 mute bt2 nil True n
        by (intro exI [of _ ?s2] exI [of _ off1]) (simp add: buf_def)
    next
      case False
      then have eL: "e < L" and o1: "off1 = e" using e(2) r(7) by auto
      have bt3: "between L e (b + of_nat n) (drop n cs) rest ?s2" using bt2 o1 by simp
      have fa2: "flash_accepts ?s2" using fa by (simp add: t_def)
      have lt2: "L - e < L - off" using e(1) eL by simp
      obtain s' off' where ih: "receive_loop (of_nat (L - e)) (base + FLASH_START + of_nat e) (of_nat e) ?s2
            = ((ERRCODE_SUCC, of_nat L), s')"
          "flash_image (flash_log s') m
             = program_bytes (base + of_nat e) (take (L - e) (payload_of (drop n cs))) (flash_image (flash_log ?s2) m)"
          "tx_bytes s' = tx_bytes ?s2 @ acks ?s2 (length (drop n cs))"
          "between L off' (b + of_nat n + of_nat (length (drop n cs))) [] rest s'"
          "g_uart_mute s' = g_uart_mute ?s2"
        using less.hyps [OF lt2 bt3 e(2,3) fa2 less.prems(5)] by blast
      have acc: "base + of_nat e = ?a + of_nat (length buf)"
        using lb e by (simp add: of_nat_diff)
      have buf2: "buf @ take (L - e) (payload_of (drop n cs)) = take (L - off) (payload_of cs)"
        using r(8) o1 e(1) eL lb by (simp add: buf_def take_add [symmetric])
      have "length buf + length (take (L - e) (payload_of (drop n cs))) < 2 ^ 32"
        using lb e L by simp
      then have img2: "flash_image (flash_log s') m
          = program_bytes ?a (take (L - off) (payload_of cs)) (flash_image (flash_log s) m)"
        unfolding ih(2) img acc by (simp only: program_bytes_append buf2)
      have "tx_bytes s' = tx_bytes s @ acks s (length cs)"
        using ih(3) tx2 mute r(4) by (simp add: acks_def replicate_add [symmetric])
      moreover have "between L off' (b + of_nat (length cs)) [] rest s'"
        using ih(4) r(4) by (simp add: algebra_simps of_nat_diff)
      ultimately show ?thesis using step ih(1,5) img2 mute by auto
    qed
  qed
qed

lemma same_storage_close_msg:
  "flash_log (ymodem_close (boot_msg1 t v s)) = flash_log s"
  using same_storage_log [of s "ymodem_close (boot_msg1 t v s)"] by simp

lemma download_complete:
  assumes "packet_size_of h = Some n" and "length data = unat n"
    and "data = name @ 0 # decimal (length img) @ 0 # pad" and "0 \<notin> set name" and "length name \<le> 128"
    and "stream_ok (length img) 0 cs" and "take (length img) (payload_of cs) = img"
    and "img \<noteq> []" and "unat minlen < length img" and "length img \<le> unat maxlen"
    and "erased = 0 \<or> length img \<le> unat erased"
    and "unat base + length img < 0x800000" and "flash_accepts s" and "length (packet s) = YMODEM_PACKET_SIZE"
    and "rx_in s = map Some (ymodem_frame h 0 data @ frames_of 1 cs) @ rest"
  shows "\<exists>s'. loader_serial_ymodem (base + FLASH_START) erased minlen maxlen s = (ERRCODE_SUCC, s')
     \<and> flash_image (flash_log s') m = program_bytes base img (flash_image (flash_log s) m)"
proof -
  let ?L = "length img"
  have L: "?L < 0x800000" using assms(12) by simp
  have rx: "rx_in s = map Some (ymodem_frame h 0 data) @ (map Some (frames_of 1 cs) @ rest)"
    using assms(15) by simp
  have "?L \<le> unat LOAD_MAX_SIZE" using L by (simp add: LOAD_MAX_SIZE_def)
  then obtain s1 where o: "ymodem_open s = (ERRCODE_SUCC, s1)" "file_length s1 = of_nat ?L"
      "between ?L 0 1 cs rest s1" "same_storage s s1"
    using open_first_packet [OF assms(1-5) _ assms(14) rx, of cs rest] assms(6) by blast
  obtain s2 where r: "receive_loop (of_nat ?L) (base + FLASH_START) 0 s1 = ((ERRCODE_SUCC, of_nat ?L), s2)"
      "flash_image (flash_log s2) m = program_bytes base (take ?L (payload_of cs)) (flash_image (flash_log s1) m)"
    using receive_loop_stream [OF o(3) _ _ _ assms(12), of m] assms(13) o(4)
    by (auto simp: flash_accepts_storage)
  obtain s3 where f: "receive_file (of_nat ?L) erased (base + FLASH_START) 0 s1 = ((ERRCODE_SUCC, of_nat ?L), s3)"
      "flash_log s3 = flash_log s2"
    using r(1) same_storage_read_loop [of s2 READ_SIZE "[]" s2]
    by (simp add: receive_file_def ymodem_read_def same_storage_log)
  have u: "unat (of_nat ?L :: u32) = ?L" using L by (simp add: unat_of_nat)
  have ck: "\<not> (of_nat ?L \<le> minlen \<or> maxlen < of_nat ?L)" "\<not> (erased \<noteq> 0 \<and> erased < of_nat ?L)"
    using assms(9-11) u by (auto simp: word_le_nat_alt word_less_nat_alt)
  let ?s' = "ymodem_close (boot_msg1 ''total size:'' (of_nat ?L) s3)"
  have "loader_serial_ymodem (base + FLASH_START) erased minlen maxlen s = (ERRCODE_SUCC, ?s')"
    using o(1,2) f(1) ck by (simp add: loader_serial_ymodem_def ymodem_get_length_def Let_def)
  moreover have "flash_log ?s' = flash_log s2" by (simp add: same_storage_close_msg f(2))
  ultimately show ?thesis using r(2) assms(7) o(4) by (simp add: same_storage_log)
qed

text \<open>A file that a sender offers in packets of any of the five sizes, none of which crosses a
  multiple of 8192, is accepted, and the flash then holds exactly that file at the download
  address and is unchanged everywhere else, whatever comes on the line behind the last packet.\<close>

theorem download_writes_file:
  assumes "packet_size_of h = Some n" and "length data = unat n"
    and "data = name @ 0 # decimal (length img) @ 0 # pad" and "0 \<notin> set name" and "length name \<le> 128"
    and "stream_ok (length img) 0 cs" and "take (length img) (payload_of cs) = img"
    and "img \<noteq> []" and "unat minlen < length img" and "length img \<le> unat maxlen"
    and "erased = 0 \<or> length img \<le> unat erased"
    and "unat base + length img < 0x800000" and "flash_accepts s" and "length (packet s) = YMODEM_PACKET_SIZE"
    and "rx_in s = map Some (ymodem_frame h 0 data @ frames_of 1 cs) @ rest"
  shows "\<exists>s'. loader_serial_ymodem (base + FLASH_START) erased minlen maxlen s = (ERRCODE_SUCC, s')
     \<and> flash_image (flash_log s') m = program_bytes base img (flash_image (flash_log s) m)"
  using assms by (rule download_complete)

definition loader_idle :: "u8 option list \<Rightarrow> ymodem_context" where
  "loader_idle rx = \<lparr>g_uart_mute = False, rx_in = rx, boot_log = [], flash_ans = (\<lambda>_. 0), flash_n = 0,
     packet_len = 0, packet = replicate YMODEM_PACKET_SIZE 0, rx_eof = False, tx_ack = False, blk = 0,
     expected_blk = 0, file_length = 0, read_length = 0\<rparr>"

lemma download_writes_file_witness:
  "\<exists>s'. loader_serial_ymodem (0x1000 + FLASH_START) 0 0 0x400000
      (loader_idle (map Some (ymodem_frame 1 0 ([0x61] @ 0 # decimal 2 @ 0 # replicate 124 0)
         @ frames_of 1 [(1, [0x55, 0xAA] @ replicate 126 0x1A)]) @ [Some 4])) = (ERRCODE_SUCC, s')
     \<and> flash_image (flash_log s') (\<lambda>_. 0xFF) = program_bytes 0x1000 [0x55, 0xAA] (flash_image [] (\<lambda>_. 0xFF))"
proof -
  have d2: "length (decimal 2) = 1" by (simp add: decimal.simps)
  show ?thesis
    using download_writes_file [where h = 1 and n = 128 and name = "[0x61]" and img = "[0x55, 0xAA]"
        and data = "[0x61] @ 0 # decimal 2 @ 0 # replicate 124 0" and pad = "replicate 124 0"
        and cs = "[(1, [0x55, 0xAA] @ replicate 126 0x1A)]" and minlen = 0 and maxlen = "0x400000"
        and erased = 0 and base = "0x1000" and rest = "[Some 4]" and m = "\<lambda>_. 0xFF"
        and s = "loader_idle (map Some (ymodem_frame 1 0 ([0x61] @ 0 # decimal 2 @ 0 # replicate 124 0)
         @ frames_of 1 [(1, [0x55, 0xAA] @ replicate 126 0x1A)]) @ [Some 4])"] d2
    by (simp add: loader_idle_def flash_accepts_def YMODEM_PACKET_SIZE_def flash_log_def flip: numeral_2_eq_2)
qed

lemma download_stays_in_region_witness:
  "\<exists>es. flash_log (snd (loader_serial_ymodem 0x201000 0x1000 0 0x400000
        (loader_idle (map Some (frames_of 0 [(1, [0x61, 0, 0x31, 0] @ replicate 124 0), (1, replicate 128 7)])))))
      = flash_log (loader_idle []) @ es
    \<and> spans_within 0x201000 (unat (0x400000 :: u32)) es
    \<and> spans_within 0x201000 (if (0x1000 :: u32) = 0 then unat (0x400000 :: u32) else unat (0x1000 :: u32)) es"
  using download_stays_in_region [OF prod.collapse [symmetric], of "0x201000" "0x1000" 0 "0x400000"
      "loader_idle (map Some (frames_of 0 [(1, [0x61, 0, 0x31, 0] @ replicate 124 0), (1, replicate 128 7)]))"]
  by (simp add: flash_log_def loader_idle_def)

end
