(* ===== verification/BootFrame.thy ===== *)
theory BootFrame
  imports Crc16 BootSerial
begin

text \<open>
  The command frames of the loaders: the receiving half of boot_cmd_loop.c (\<open>loader_read_frame\<close> and
  below, \<open>loader_ack\<close>) and boot_uart_auth.c, which reads the same frames with other limits.

  A frame is the head (the flag 0xDEADBEEF, the size of the whole frame, a type and its complement),
  the payload and a CRC-16 over both. The head is kept as its eight bytes, because the
  receiver writes it byte by byte and reads it as fields (little-endian).
\<close>

section \<open>Packets\<close>

definition UART_PACKET_PAYLOAD_MAX :: nat where "UART_PACKET_PAYLOAD_MAX = 1024"
definition start_byte :: "u8 list" where "start_byte = [0xEF, 0xBE, 0xAD, 0xDE]"

text \<open>\<open>uart_ctx\<close>: the states \<open>CMD_RX_STATUS_*\<close> are the numbers 0 to 10 of the enumeration.\<close>

record uart_ctx =
  rx_status :: nat
  received :: u16
  head :: "u8 list"
  payload :: "u8 list"
  check_sum :: u16

definition CMD_RX_STATUS_WAIT_START_1 :: nat where "CMD_RX_STATUS_WAIT_START_1 = 1"
definition CMD_RX_STATUS_WAIT_START_3 :: nat where "CMD_RX_STATUS_WAIT_START_3 = 3"
definition RX_STATUS_WAIT_SIZE_1 :: nat where "RX_STATUS_WAIT_SIZE_1 = 5"
definition CMD_RX_STATUS_WAIT_DATA :: nat where "CMD_RX_STATUS_WAIT_DATA = 8"

definition le16 :: "u8 \<Rightarrow> u8 \<Rightarrow> u16" where
  "le16 lo hi = ucast lo OR push_bit 8 (ucast hi)"

definition packet_size :: "uart_ctx \<Rightarrow> u16" where
  "packet_size c = le16 (head c ! 4) (head c ! 5)"

definition packet_type :: "uart_ctx \<Rightarrow> u8" where
  "packet_type c = head c ! 6"

definition empty_ctx :: uart_ctx where
  "empty_ctx = \<lparr>rx_status = 0, received = 0, head = replicate 8 0,
     payload = replicate UART_PACKET_PAYLOAD_MAX 0, check_sum = 0\<rparr>"

text \<open>
  How a run of the command loop can end: with a value, by waiting for a byte that never comes, by an
  access outside the payload array, in the reset of the chip (with the log up to it), or in a loop
  that no input ends.
\<close>

datatype 'a run = Done 'a | Waiting | Overrun | Halted "boot_event list" | Looping

fun run_bind :: "'a run \<Rightarrow> ('a \<Rightarrow> 'b run) \<Rightarrow> 'b run" where
  "run_bind (Done x) f = f x"
| "run_bind Waiting f = Waiting"
| "run_bind Overrun f = Overrun"
| "run_bind (Halted ev) f = Halted ev"
| "run_bind Looping f = Looping"

section \<open>The head\<close>

text \<open>
  One received byte: the new context, whether the search starts again with the next byte
  (\<open>reset_flag\<close>), and whether the head is complete. \<open>size_from\<close> is the state from which the size is
  tested, the point in which the two receivers differ.
\<close>

definition head_reset :: "uart_ctx \<Rightarrow> uart_ctx" where
  "head_reset c = c\<lparr>head := [0, 0, 0, 0] @ drop 4 (head c), rx_status := 0\<rparr>"

definition head_byte :: "nat \<Rightarrow> u8 \<Rightarrow> uart_ctx \<Rightarrow> uart_ctx \<times> bool \<times> bool" where
  "head_byte size_from ch c =
     (if rx_status c \<le> CMD_RX_STATUS_WAIT_START_3 then
        if ch = start_byte ! rx_status c then
          (c\<lparr>head := (head c)[rx_status c := ch], rx_status := rx_status c + 1\<rparr>, False, False)
        else if ch = 0xEF then
          (c\<lparr>head := (head c)[0 := ch], rx_status := CMD_RX_STATUS_WAIT_START_1\<rparr>, False, False)
        else (c, True, False)
      else
        let c1 = c\<lparr>head := (head c)[rx_status c := ch]\<rparr>
        in if size_from \<le> rx_status c1 \<and> of_nat UART_PACKET_PAYLOAD_MAX < packet_size c1
           then (c1, True, False)
           else let c2 = c1\<lparr>rx_status := rx_status c1 + 1\<rparr>
                in (c2, False, CMD_RX_STATUS_WAIT_DATA \<le> rx_status c2))"

text \<open>\<open>loader_frame_head_rx\<close>: \<open>rcv\<close> bytes have been received; silence does not count.\<close>

fun loader_frame_head_rx ::
    "u8 option list \<Rightarrow> nat \<Rightarrow> bool \<Rightarrow> uart_ctx \<Rightarrow> 'a boot_io_scheme \<Rightarrow> (u32 \<times> uart_ctx \<times> 'a boot_io_scheme) run" where
  "loader_frame_head_rx [] rcv reset_flag c s =
     (if 100 < rcv then Done (ERRCODE_FAIL, c, s\<lparr>rx_in := []\<rparr>) else Waiting)"
| "loader_frame_head_rx (x # xs) rcv reset_flag c s =
     (if 100 < rcv then Done (ERRCODE_FAIL, c, s\<lparr>rx_in := x # xs\<rparr>)
      else case x of
        None \<Rightarrow> loader_frame_head_rx xs rcv reset_flag c (boot_wdt_kick s)
      | Some ch \<Rightarrow>
          let (c1, again, complete) =
                head_byte CMD_RX_STATUS_WAIT_START_1 ch (if reset_flag then head_reset c else c)
          in if complete then Done (ERRCODE_SUCC, c1, (boot_wdt_kick s)\<lparr>rx_in := xs\<rparr>)
             else loader_frame_head_rx xs (rcv + 1) again c1 (boot_wdt_kick s))"

text \<open>
  \<open>uart_frame_head_rx\<close>: at most 33 bytes; silence ends it. The watchdog is kicked after a byte of the size,
  type or pad only.
\<close>

fun uart_frame_head_rx ::
    "u8 option list \<Rightarrow> nat \<Rightarrow> bool \<Rightarrow> uart_ctx \<Rightarrow> 'a boot_io_scheme \<Rightarrow> u32 \<times> uart_ctx \<times> 'a boot_io_scheme" where
  "uart_frame_head_rx [] rcv reset_flag c s =
     (if 32 < rcv then (ERRCODE_FAIL, c, s\<lparr>rx_in := []\<rparr>)
      else (if rx_status c = 0 then 1000 else ERRCODE_FAIL, c, s\<lparr>rx_in := []\<rparr>))"
| "uart_frame_head_rx (x # xs) rcv reset_flag c s =
     (if 32 < rcv then (ERRCODE_FAIL, c, s\<lparr>rx_in := x # xs\<rparr>)
      else case x of
        None \<Rightarrow> (if rx_status c = 0 then 1000 else ERRCODE_FAIL, c, s\<lparr>rx_in := xs\<rparr>)
      | Some ch \<Rightarrow>
          let c0 = (if reset_flag then head_reset c else c);
              (c1, again, complete) = head_byte RX_STATUS_WAIT_SIZE_1 ch c0
          in if complete then (ERRCODE_SUCC, c1, s\<lparr>rx_in := xs\<rparr>)
             else uart_frame_head_rx xs (rcv + 1) again c1
                    (if CMD_RX_STATUS_WAIT_START_3 < rx_status c0 \<and> \<not> again then boot_wdt_kick s else s))"

section \<open>The payload\<close>

text \<open>
  The loop that reads \<open>packet_size - 8\<close> bytes; the difference is unsigned, \<open>received\<close> has 16 bits. A byte
  that would be stored behind the array ends the run.
\<close>

fun frame_data_loop ::
    "u8 option list \<Rightarrow> u32 \<Rightarrow> u16 \<Rightarrow> u8 list \<Rightarrow> (bool \<times> u16 \<times> u8 list \<times> u8 option list) run" where
  "frame_data_loop [] n got pl =
     (if ucast got < n then Done (False, got, pl, []) else Done (True, got, pl, []))"
| "frame_data_loop (x # xs) n got pl =
     (if ucast got < n then
        case x of None \<Rightarrow> Done (False, got, pl, xs)
        | Some ch \<Rightarrow>
            if UART_PACKET_PAYLOAD_MAX \<le> unat got then Overrun
            else frame_data_loop xs n (got + 1) (pl[unat got := ch])
      else Done (True, got, pl, x # xs))"

text \<open>Both receivers have the same function for the data.\<close>

definition frame_data_rx :: "uart_ctx \<Rightarrow> 'a boot_io_scheme \<Rightarrow> (u32 \<times> uart_ctx \<times> 'a boot_io_scheme) run" where
  "frame_data_rx c s =
     (let n = ucast (packet_size c) - 8 :: u32
      in run_bind (frame_data_loop (rx_in s) n 0 (payload c)) (\<lambda>(ok, got, pl, xs).
           let c1 = c\<lparr>received := got, payload := pl\<rparr>; s1 = s\<lparr>rx_in := xs\<rparr>; sz = unat (packet_size c)
           in if \<not> ok then Done (ERRCODE_FAIL, c1, s1)
              else if sz < 10 \<or> UART_PACKET_PAYLOAD_MAX \<le> sz - 9 then Overrun
              else let c2 = c1\<lparr>check_sum := le16 (pl ! (sz - 10)) (pl ! (sz - 9)),
                               payload := pl[sz - 9 := 0, sz - 10 := 0]\<rparr>
                   in if ucast (received c2) = n then Done (ERRCODE_SUCC, c2, s1)
                      else Done (ERRCODE_FAIL, c2, s1)))"

text \<open>The checksum of the received bytes; it covers all of the frame but its last two bytes.\<close>

definition packet_bytes :: "uart_ctx \<Rightarrow> u8 list" where
  "packet_bytes c = take (unat (packet_size c) - 2) (head c @ payload c)"

definition loader_read_frame :: "uart_ctx \<Rightarrow> 'a boot_io_scheme \<Rightarrow> (u32 \<times> uart_ctx \<times> 'a boot_io_scheme) run" where
  "loader_read_frame c s =
     run_bind (loader_frame_head_rx (rx_in s) 0 False empty_ctx s) (\<lambda>(ret, c1, s1).
       if ret \<noteq> ERRCODE_SUCC then Done (ERRCODE_FAIL, c1, s1)
       else run_bind (frame_data_rx c1 s1) (\<lambda>(ret2, c2, s2).
         if ret2 \<noteq> ERRCODE_SUCC then Done (ERRCODE_FAIL, c2, s2)
         else if frame_sum (packet_bytes c2) = check_sum c2 then Done (ERRCODE_SUCC, c2, s2)
         else Done (ERRCODE_FAIL, c2, s2)))"

definition uart_frame_rx :: "uart_ctx \<Rightarrow> 'a boot_io_scheme \<Rightarrow> (u32 \<times> uart_ctx \<times> 'a boot_io_scheme) run" where
  "uart_frame_rx c s =
     (let (ret, c1, s1) = uart_frame_head_rx (rx_in s) 0 False empty_ctx s
      in if ret \<noteq> ERRCODE_SUCC then Done (ret, c1, s1)
         else run_bind (frame_data_rx c1 s1) (\<lambda>(ret2, c2, s2).
           if ret2 \<noteq> ERRCODE_SUCC then Done (ERRCODE_FAIL, c2, s2)
           else if frame_sum (packet_bytes c2) = check_sum c2 then Done (ERRCODE_SUCC, c2, s2)
           else Done (ERRCODE_FAIL, c2, s2)))"

section \<open>Answers\<close>

definition le16_bytes :: "u16 \<Rightarrow> u8 list" where
  "le16_bytes w = [ucast w, ucast (drop_bit 8 w)]"

definition frame_head :: "u16 \<Rightarrow> u8 \<Rightarrow> u8 \<Rightarrow> u8 list" where
  "frame_head sz typ pad = start_byte @ le16_bytes sz @ [typ, pad]"

text \<open>\<open>loader_ack\<close> sends type 0xE1, its complement, the code and its complement: twelve bytes.\<close>

definition ack_bytes :: "u8 \<Rightarrow> u8 \<Rightarrow> u8 list" where
  "ack_bytes p0 p1 =
     (let body = frame_head 0x0C 0xE1 (NOT 0xE1) @ [p0, p1] in body @ le16_bytes (frame_sum body))"

definition loader_ack :: "u8 \<Rightarrow> 'a boot_io_scheme \<Rightarrow> 'a boot_io_scheme" where
  "loader_ack err_code s =
     (let bs = ack_bytes err_code (NOT err_code)
      in serial_put_buf (drop 10 bs) (serial_put_buf (take 10 bs) s))"

section \<open>Sender side\<close>

definition cmd_frame :: "u8 \<Rightarrow> u8 \<Rightarrow> u8 list \<Rightarrow> u8 list" where
  "cmd_frame typ pad args =
     (let body = frame_head (of_nat (length args + 10)) typ pad @ args in body @ le16_bytes (frame_sum body))"

lemma le16_split: "le16 (ucast w) (ucast (drop_bit 8 w)) = w"
  by (rule bit_word_eqI)
    (auto simp: le16_def bit_or_iff bit_push_bit_iff bit_ucast_iff bit_drop_bit_eq)

lemma le16_unat: "unat (le16 lo hi) = unat lo + 256 * unat hi"
proof -
  have "le16 lo hi = ucast lo + push_bit 8 (ucast hi)"
    unfolding le16_def
    by (rule disjunctive_add [symmetric])
      (auto simp: bit_push_bit_iff bit_ucast_iff dest: bit_imp_le_length)
  then have "le16 lo hi = ucast lo + ucast hi * 256" by (simp add: push_bit_eq_mult)
  then show ?thesis
    using unat_u8_less [of lo] unat_u8_less [of hi]
    by (simp add: unat_word_ariths unat_ucast_u8_u16)
qed

lemma frame_head_list: "frame_head sz typ pad = [0xEF, 0xBE, 0xAD, 0xDE, ucast sz, ucast (drop_bit 8 sz), typ, pad]"
  by (simp add: frame_head_def start_byte_def le16_bytes_def)

lemma length_frame_head [simp]: "length (frame_head sz typ pad) = 8"
  by (simp add: frame_head_list)

section \<open>Searching for the head\<close>

lemma head_reset_empty [simp]: "head_reset empty_ctx = empty_ctx"
  by (simp add: head_reset_def empty_ctx_def eval_nat_numeral)

definition kicks :: "nat \<Rightarrow> 'a boot_io_scheme \<Rightarrow> 'a boot_io_scheme" where
  "kicks n s = (boot_wdt_kick ^^ n) s"

lemma kick_kicks: "kicks n (boot_wdt_kick s) = kicks (Suc n) s"
  by (simp add: kicks_def funpow_swap1)

lemma kicks_8: "kicks 8 s = boot_wdt_kick (boot_wdt_kick (boot_wdt_kick (boot_wdt_kick (boot_wdt_kick (boot_wdt_kick (boot_wdt_kick (boot_wdt_kick s)))))))"
  by (simp add: kicks_def eval_nat_numeral)

definition noise_count :: "u8 option list \<Rightarrow> nat" where
  "noise_count g = length (filter (\<lambda>x. x \<noteq> None) g)"

lemma head_byte_noise: "ch \<noteq> 0xEF \<Longrightarrow> head_byte n ch empty_ctx = (empty_ctx, True, False)"
  by (simp add: head_byte_def empty_ctx_def CMD_RX_STATUS_WAIT_START_3_def start_byte_def)

lemma head_rx_noise:
  "Some 0xEF \<notin> set g \<Longrightarrow> rcv + noise_count g \<le> 100 \<Longrightarrow>
     \<exists>rf'. loader_frame_head_rx (g @ xs) rcv rf empty_ctx s
       = loader_frame_head_rx xs (rcv + noise_count g) rf' empty_ctx (kicks (length g) s)"
proof (induction g arbitrary: rcv rf s)
  case Nil
  then show ?case by (auto simp: noise_count_def kicks_def)
next
  case (Cons x g)
  show ?case
  proof (cases x)
    case None
    then show ?thesis using Cons.IH [of rcv rf "boot_wdt_kick s"] Cons.prems
      by (auto simp: noise_count_def kick_kicks)
  next
    case (Some ch)
    then have "ch \<noteq> 0xEF" using Cons.prems by auto
    then show ?thesis using Some Cons.IH [of "Suc rcv" True "boot_wdt_kick s"] Cons.prems
      by (auto simp: noise_count_def kick_kicks head_byte_noise)
  qed
qed

definition head_ctx :: "u16 \<Rightarrow> u8 \<Rightarrow> u8 \<Rightarrow> uart_ctx" where
  "head_ctx sz typ pad = empty_ctx\<lparr>head := frame_head sz typ pad, rx_status := 8\<rparr>"

lemma packet_size_head_ctx [simp]: "packet_size (head_ctx sz typ pad) = sz"
  by (simp add: packet_size_def head_ctx_def frame_head_list le16_split)

lemma not_oversize_low: "\<not> 1024 < le16 lo 0"
  using unat_u8_less [of lo] by (simp add: word_less_nat_alt le16_unat)

lemma head_rx_step:
  "rcv \<le> 100 \<Longrightarrow> head_byte CMD_RX_STATUS_WAIT_START_1 ch (if rf then head_reset c else c) = (c1, again, False) \<Longrightarrow>
     loader_frame_head_rx (Some ch # xs) rcv rf c s = loader_frame_head_rx xs (rcv + 1) again c1 (boot_wdt_kick s)"
  by simp

text \<open>The context after the bytes \<open>h\<close> of a head; \<open>t\<close> is what the head held before.\<close>

definition stage_on :: "u8 list \<Rightarrow> u8 list \<Rightarrow> uart_ctx" where
  "stage_on t h = empty_ctx\<lparr>head := h @ drop (length h) t, rx_status := length h\<rparr>"

lemma stage_byte:
  assumes "length h < 4" and "ch = start_byte ! length h" and "length t = 8"
  shows "head_byte n ch (stage_on t h) = (stage_on t (h @ [ch]), False, False)"
proof -
  have "drop (length h) t = t ! length h # drop (Suc (length h)) t"
    using assms(1,3) by (simp add: Cons_nth_drop_Suc)
  then show ?thesis using assms
    by (simp add: head_byte_def stage_on_def CMD_RX_STATUS_WAIT_START_3_def list_update_append)
qed

lemma stage_field:
  assumes "4 \<le> length h" and "length h < 8" and "length t = 8"
  shows "head_byte n ch (stage_on t h) =
    (if n \<le> length h \<and> 1024 < packet_size (stage_on t (h @ [ch]))
     then ((stage_on t (h @ [ch]))\<lparr>rx_status := length h\<rparr>, True, False)
     else (stage_on t (h @ [ch]), False, length h = 7))"
proof -
  let ?c = "(stage_on t h)\<lparr>head := (head (stage_on t h))[length h := ch]\<rparr>"
  have e: "drop (length h) t = t ! length h # drop (Suc (length h)) t"
    using assms(2,3) by (simp add: Cons_nth_drop_Suc)
  have s: "rx_status (stage_on t h) = length h" by (simp add: stage_on_def)
  have p: "packet_size ?c = packet_size (stage_on t (h @ [ch]))"
    using e by (simp add: packet_size_def stage_on_def list_update_append)
  have n: "?c\<lparr>rx_status := length h + 1\<rparr> = stage_on t (h @ [ch])" "?c = (stage_on t (h @ [ch]))\<lparr>rx_status := length h\<rparr>"
    using e by (simp_all add: stage_on_def list_update_append)
  have "head_byte n ch (stage_on t h) =
      (if n \<le> length h \<and> 1024 < packet_size ?c then (?c, True, False)
       else (?c\<lparr>rx_status := length h + 1\<rparr>, False, CMD_RX_STATUS_WAIT_DATA \<le> length h + 1))"
    using assms(1) unfolding head_byte_def Let_def s
    by (simp add: CMD_RX_STATUS_WAIT_START_3_def UART_PACKET_PAYLOAD_MAX_def s)
  then have "head_byte n ch (stage_on t h) =
      (if n \<le> length h \<and> 1024 < packet_size (stage_on t (h @ [ch])) then ((stage_on t (h @ [ch]))\<lparr>rx_status := length h\<rparr>, True, False)
       else (stage_on t (h @ [ch]), False, CMD_RX_STATUS_WAIT_DATA \<le> length h + 1))"
    unfolding p n(1) unfolding n(2) .
  then show ?thesis using assms(2) by (auto simp: CMD_RX_STATUS_WAIT_DATA_def)
qed

lemma stage_flag:
  assumes "length t = 8"
  shows "head_byte n 0xEF (stage_on t []) = (stage_on t [0xEF], False, False)"
    and "head_byte n 0xBE (stage_on t [0xEF]) = (stage_on t [0xEF, 0xBE], False, False)"
    and "head_byte n 0xAD (stage_on t [0xEF, 0xBE]) = (stage_on t [0xEF, 0xBE, 0xAD], False, False)"
    and "head_byte n 0xDE (stage_on t [0xEF, 0xBE, 0xAD]) = (stage_on t start_byte, False, False)"
  using stage_byte [of "[]"] stage_byte [of "[0xEF]"] stage_byte [of "[0xEF, 0xBE]"]
    stage_byte [of "[0xEF, 0xBE, 0xAD]"] assms
  by (simp_all add: start_byte_def)

lemma packet_size_stage:
  "packet_size (stage_on t [a, b, c, d, lo]) = le16 lo (t ! 5)" if "length t = 8" for t
  using that by (simp add: packet_size_def stage_on_def numeral_eq_Suc)

lemma packet_size_stage_full:
  "packet_size (stage_on t (a # b # c # d # lo # hi # r)) = le16 lo hi"
  by (simp add: packet_size_def stage_on_def)

lemma head_rx_frame:
  assumes "unat sz \<le> 1024" and "rcv \<le> 93"
  shows "loader_frame_head_rx (map Some (frame_head sz typ pad) @ xs) rcv rf empty_ctx s
    = Done (ERRCODE_SUCC, head_ctx sz typ pad, (kicks 8 s)\<lparr>rx_in := xs\<rparr>)"
proof -
  let ?lo = "ucast sz :: u8" and ?hi = "ucast (drop_bit 8 sz) :: u8"
  have sz: "\<not> 1024 < le16 ?lo ?hi" "\<not> 1024 < sz" using assms(1) by (simp_all add: le16_split word_less_nat_alt)
  let ?z = "replicate 8 0 :: u8 list"
  have rf: "(if rf then head_reset empty_ctx else empty_ctx) = stage_on ?z []"
    by (simp add: stage_on_def) (simp add: empty_ctx_def)
  have e: "stage_on ?z [0xEF, 0xBE, 0xAD, 0xDE, ?lo, ?hi, typ, pad] = head_ctx sz typ pad"
    by (simp add: stage_on_def head_ctx_def frame_head_list)
  show ?thesis using assms(2) sz not_oversize_low [of ?lo]
    by (simp add: frame_head_list rf stage_flag stage_field packet_size_stage packet_size_stage_full
        start_byte_def e kicks_8 del: replicate.simps)
qed

section \<open>The data\<close>

lemma frame_data_loop_bytes:
  "i + length bs \<le> UART_PACKET_PAYLOAD_MAX \<Longrightarrow> length pl = UART_PACKET_PAYLOAD_MAX \<Longrightarrow>
     frame_data_loop (map Some bs @ xs) (of_nat (i + length bs)) (of_nat i) pl
     = Done (True, of_nat (i + length bs), take i pl @ bs @ drop (i + length bs) pl, xs)"
proof (induction bs arbitrary: i pl)
  case Nil
  have "(ucast (of_nat i :: u16) :: u32) = of_nat i"
    using Nil by (intro word_unat_eq_iff [THEN iffD2])
      (simp add: unsigned_ucast_eq unat_of_nat UART_PACKET_PAYLOAD_MAX_def unsigned_take_bit_eq take_bit_nat_eq_self)
  then show ?case by (cases xs) simp_all
next
  case (Cons b bs)
  have b: "i + length (b # bs) \<le> 1024" using Cons.prems(1) by (simp add: UART_PACKET_PAYLOAD_MAX_def)
  have u: "unat (ucast (of_nat i :: u16) :: u32) = i"
    using b by (simp add: unsigned_ucast_eq unat_of_nat unsigned_take_bit_eq take_bit_nat_eq_self)
  have u2: "unat (of_nat (i + length (b # bs)) :: u32) = i + length (b # bs)"
    by (rule unat_of_nat_u32) (use b in simp)
  have lt: "(ucast (of_nat i :: u16) :: u32) < of_nat (i + length (b # bs))"
    unfolding word_less_nat_alt u u2 by simp
  have i: "unat (of_nat i :: u16) = i" "\<not> UART_PACKET_PAYLOAD_MAX \<le> i"
    using b by (simp_all add: unat_of_nat UART_PACKET_PAYLOAD_MAX_def)
  have "frame_data_loop (map Some (b # bs) @ xs) (of_nat (i + length (b # bs))) (of_nat i) pl
      = frame_data_loop (map Some bs @ xs) (of_nat (Suc i + length bs)) (of_nat (Suc i)) (pl[i := b])"
    using lt i by (simp add: algebra_simps)
  also have "\<dots> = Done (True, of_nat (Suc i + length bs), take (Suc i) (pl[i := b]) @ bs @ drop (Suc i + length bs) (pl[i := b]), xs)"
    by (rule Cons.IH) (use Cons.prems in simp_all)
  also have "take (Suc i) (pl[i := b]) = take i pl @ [b]"
    using Cons.prems i by (simp add: take_Suc_conv_app_nth UART_PACKET_PAYLOAD_MAX_def)
  finally show ?case by (simp add: algebra_simps)
qed

text \<open>The data of a frame whose payload is \<open>args\<close> followed by any two bytes as its checksum.\<close>

definition data_ctx :: "u16 \<Rightarrow> u8 \<Rightarrow> u8 \<Rightarrow> u8 list \<Rightarrow> u8 \<Rightarrow> u8 \<Rightarrow> uart_ctx" where
  "data_ctx sz typ pad args lo hi = (head_ctx sz typ pad)\<lparr>received := sz - 8,
     payload := args @ replicate (UART_PACKET_PAYLOAD_MAX - length args) 0, check_sum := le16 lo hi\<rparr>"

lemma frame_data_rx_bytes:
  assumes "length args \<le> 1014" and "sz = of_nat (length args + 10)"
    and "rx_in s = map Some (args @ [lo, hi]) @ rest"
  shows "frame_data_rx (head_ctx sz typ pad) s = Done (ERRCODE_SUCC, data_ctx sz typ pad args lo hi, s\<lparr>rx_in := rest\<rparr>)"
proof -
  let ?n = "length args"
  have usz: "unat sz = ?n + 10" using assms(1,2) by (simp add: unat_of_nat del: of_nat_add)
  have n: "ucast sz - 8 = (of_nat (?n + 2) :: u32)"
  proof -
    have "unat (of_nat (?n + 10) :: u32) = ?n + 10" by (rule unat_of_nat_u32) (use assms(1) in simp)
    then have "(ucast sz :: u32) = of_nat (?n + 10)"
      using usz by (intro word_unat_eq_iff [THEN iffD2]) (simp only: unat_ucast_u16_u32)
    then show ?thesis by simp
  qed
  have sz8: "of_nat (?n + 2) = sz - (8 :: u16)" using assms(2) by simp
  have pl0: "payload (head_ctx sz typ pad) = replicate UART_PACKET_PAYLOAD_MAX 0"
    by (simp add: head_ctx_def empty_ctx_def)
  let ?pl = "args @ [lo, hi] @ replicate (UART_PACKET_PAYLOAD_MAX - (?n + 2)) 0"
  have loop: "frame_data_loop (rx_in s) (of_nat (?n + 2)) 0 (replicate UART_PACKET_PAYLOAD_MAX 0)
      = Done (True, of_nat (?n + 2), ?pl, rest)"
    using frame_data_loop_bytes [of 0 "args @ [lo, hi]" "replicate UART_PACKET_PAYLOAD_MAX 0" rest] assms(1,3)
    by (simp add: UART_PACKET_PAYLOAD_MAX_def)
  have nth: "?pl ! ?n = lo" "?pl ! Suc ?n = hi" by (simp_all add: nth_append)
  have upd: "?pl[Suc ?n := 0, ?n := 0] = args @ replicate (UART_PACKET_PAYLOAD_MAX - ?n) 0"
  proof -
    have "UART_PACKET_PAYLOAD_MAX - ?n = Suc (Suc (UART_PACKET_PAYLOAD_MAX - (?n + 2)))"
      using assms(1) by (simp add: UART_PACKET_PAYLOAD_MAX_def)
    then show ?thesis by (simp add: list_update_append)
  qed
  have rc: "ucast (of_nat (?n + 2) :: u16) = (of_nat (?n + 2) :: u32)"
  proof (intro word_unat_eq_iff [THEN iffD2])
    have "unat (of_nat (?n + 2) :: u16) = ?n + 2" by (rule unat_of_nat_u16) (use assms(1) in simp)
    moreover have "unat (of_nat (?n + 2) :: u32) = ?n + 2" by (rule unat_of_nat_u32) (use assms(1) in simp)
    ultimately show "unat (ucast (of_nat (?n + 2) :: u16) :: u32) = unat (of_nat (?n + 2) :: u32)"
      by (simp only: unat_ucast_u16_u32)
  qed
  have big: "\<not> (unat sz < 10 \<or> UART_PACKET_PAYLOAD_MAX \<le> unat sz - 9)" "unat sz - 10 = ?n" "unat sz - 9 = Suc ?n"
    using assms(1) usz by (auto simp: UART_PACKET_PAYLOAD_MAX_def)
  show ?thesis
    unfolding frame_data_rx_def packet_size_head_ctx Let_def n pl0 loop run_bind.simps prod.case
    using big nth upd rc sz8
    by (simp add: data_ctx_def head_ctx_def empty_ctx_def del: of_nat_add append.simps)
qed

lemma packet_bytes_data_ctx:
  assumes "length args \<le> 1014" and "sz = of_nat (length args + 10)"
  shows "packet_bytes (data_ctx sz typ pad args lo hi) = frame_head sz typ pad @ args"
proof -
  have "unat sz = length args + 10" using assms by (simp add: unat_of_nat del: of_nat_add)
  moreover have "packet_size (data_ctx sz typ pad args lo hi) = sz"
    using packet_size_head_ctx [of sz "typ" pad] by (simp add: packet_size_def data_ctx_def)
  ultimately show ?thesis by (simp add: packet_bytes_def) (simp add: data_ctx_def head_ctx_def)
qed

text \<open>One frame behind noise, with any checksum: accepted exactly when the checksum is right.\<close>

lemma read_frame_wire:
  assumes "Some 0xEF \<notin> set g" and "noise_count g \<le> 93" and "length args \<le> 1014"
    and "sz = of_nat (length args + 10)"
    and "rx_in s = g @ map Some (frame_head sz typ pad @ args @ [lo, hi]) @ rest"
  shows "\<exists>k. loader_read_frame c s =
     Done (if frame_sum (frame_head sz typ pad @ args) = le16 lo hi then ERRCODE_SUCC else ERRCODE_FAIL,
       data_ctx sz typ pad args lo hi, (kicks k s)\<lparr>rx_in := rest\<rparr>)"
proof -
  let ?xs = "map Some (args @ [lo, hi]) @ rest"
  have usz: "unat sz \<le> 1024" using assms(3,4) by (simp add: unat_of_nat del: of_nat_add)
  obtain rf where "loader_frame_head_rx (rx_in s) 0 False empty_ctx s
      = loader_frame_head_rx (map Some (frame_head sz typ pad) @ ?xs) (0 + noise_count g) rf empty_ctx (kicks (length g) s)"
    using head_rx_noise [OF assms(1), of 0 "map Some (frame_head sz typ pad) @ ?xs" False s] assms(2,5) by auto
  also have "\<dots> = Done (ERRCODE_SUCC, head_ctx sz typ pad, (kicks 8 (kicks (length g) s))\<lparr>rx_in := ?xs\<rparr>)"
    by (rule head_rx_frame [OF usz]) (use assms(2) in simp)
  finally have h: "loader_frame_head_rx (rx_in s) 0 False empty_ctx s
      = Done (ERRCODE_SUCC, head_ctx sz typ pad, (kicks (8 + length g) s)\<lparr>rx_in := ?xs\<rparr>)"
    by (simp add: kicks_def funpow_add)
  have d: "frame_data_rx (head_ctx sz typ pad) ((kicks (8 + length g) s)\<lparr>rx_in := ?xs\<rparr>)
      = Done (ERRCODE_SUCC, data_ctx sz typ pad args lo hi, (kicks (8 + length g) s)\<lparr>rx_in := rest\<rparr>)"
    using frame_data_rx_bytes [OF assms(3,4), of "(kicks (8 + length g) s)\<lparr>rx_in := ?xs\<rparr>" lo hi rest] by simp
  have cs: "check_sum (data_ctx sz typ pad args lo hi) = le16 lo hi" by (simp add: data_ctx_def)
  show ?thesis
    unfolding loader_read_frame_def h run_bind.simps prod.case
    by (simp only: d run_bind.simps prod.case packet_bytes_data_ctx [OF assms(3,4)] cs) auto
qed

section \<open>Frames are found, checked and bounded\<close>

text \<open>C33: A command frame is found behind any silence and up to 93 bytes of noise without the first
  flag byte, its type and payload are read back unchanged, and nothing behind it is taken from
  the line.\<close>

theorem command_frame_roundtrip:
  assumes "Some 0xEF \<notin> set g" and "noise_count g \<le> 93" and "length args \<le> 1014"
    and "rx_in s = g @ map Some (cmd_frame ct cpad args) @ rest"
  shows "\<exists>c' s'. loader_read_frame c s = Done (ERRCODE_SUCC, c', s') \<and> packet_type c' = ct
    \<and> take (length args) (payload c') = args \<and> rx_in s' = rest \<and> flash_n s' = flash_n s"
proof -
  let ?sz = "of_nat (length args + 10) :: u16"
  let ?sum = "frame_sum (frame_head ?sz ct cpad @ args)"
  have rx: "rx_in s = g @ map Some (frame_head ?sz ct cpad @ args @ [ucast ?sum, ucast (drop_bit 8 ?sum)]) @ rest"
    using assms(4) by (simp add: cmd_frame_def Let_def le16_bytes_def)
  obtain k where r: "loader_read_frame c s = Done (ERRCODE_SUCC,
      data_ctx ?sz ct cpad args (ucast ?sum) (ucast (drop_bit 8 ?sum)), (kicks k s)\<lparr>rx_in := rest\<rparr>)"
    using read_frame_wire [OF assms(1-3) refl rx, of c] by (auto simp: le16_split)
  have "flash_n (kicks k s) = flash_n s" for k
    by (induction k) (simp_all add: kicks_def boot_wdt_kick_def boot_do_def)
  then show ?thesis using r
    by (simp add: packet_type_def data_ctx_def head_ctx_def frame_head_list eval_nat_numeral)
qed

definition idle_line :: "u8 option list \<Rightarrow> boot_io" where
  "idle_line rx = \<lparr>g_uart_mute = False, rx_in = rx, boot_log = [], flash_ans = (\<lambda>_. 0), flash_n = 0\<rparr>"

lemma command_frame_roundtrip_witness:
  "\<exists>c' s'. loader_read_frame empty_ctx
      (idle_line ([Some 0x41, None, Some 0x42] @ map Some (cmd_frame 0x87 0x78 [1, 2, 3]) @ [Some 9]))
      = Done (ERRCODE_SUCC, c', s') \<and> packet_type c' = 0x87
    \<and> take (length [1, 2, 3 :: u8]) (payload c') = [1, 2, 3] \<and> rx_in s' = [Some 9]
    \<and> flash_n s' = flash_n (idle_line [])"
  using command_frame_roundtrip [of "[Some 0x41, None, Some 0x42]" "[1, 2, 3]"
      "idle_line ([Some 0x41, None, Some 0x42] @ map Some (cmd_frame 0x87 0x78 [1, 2, 3]) @ [Some 9])"
      "0x87" "0x78" "[Some 9]" empty_ctx]
  by (simp add: noise_count_def idle_line_def)

text \<open>A frame in which any byte of the type, of its complement or of the payload was changed on
  the way is refused, and the bytes behind it stay on the line.\<close>

theorem damaged_frame_refused:
  assumes "length args \<le> 1014" and "6 \<le> i" and "i < 8 + length args"
    and "v \<noteq> cmd_frame ct cpad args ! i"
    and "rx_in s = map Some ((cmd_frame ct cpad args)[i := v]) @ rest"
  shows "\<exists>c' s'. loader_read_frame c s = Done (ERRCODE_FAIL, c', s') \<and> rx_in s' = rest"
proof -
  let ?sz = "of_nat (length args + 10) :: u16"
  let ?b = "frame_head ?sz ct cpad @ args"
  let ?sum = "frame_sum ?b"
  obtain ct' cpad' args' where n: "?b[i := v] = frame_head ?sz ct' cpad' @ args'" "length args' = length args"
  proof (cases "i < 8")
    case True
    then consider "i = 6" | "i = 7" using assms(2) by linarith
    then show ?thesis
    proof cases
      case 1
      then show ?thesis by (intro that [of v cpad args]) (simp_all add: frame_head_list eval_nat_numeral)
    next
      case 2
      then show ?thesis by (intro that [of ct v args]) (simp_all add: frame_head_list eval_nat_numeral)
    qed
  next
    case False
    then show ?thesis by (intro that [of ct cpad "args[i - 8 := v]"]) (simp_all add: list_update_append)
  qed
  have ib: "i < length ?b" using assms(3) by simp
  have vb: "v \<noteq> ?b ! i" using assms(4) unfolding cmd_frame_def Let_def nth_append_left [OF ib] .
  have bad: "frame_sum (?b[i := v]) \<noteq> ?sum" by (rule crc.changed_byte_refused [OF ib vb])
  have "(cmd_frame ct cpad args)[i := v] = ?b[i := v] @ le16_bytes ?sum"
    by (simp only: cmd_frame_def Let_def list_update_append1 [OF ib])
  then have rx: "rx_in s = [] @ map Some (frame_head ?sz ct' cpad' @ args' @ [ucast ?sum, ucast (drop_bit 8 ?sum)]) @ rest"
    using assms(5) n(1) by (simp add: le16_bytes_def)
  obtain k where "loader_read_frame c s = Done (ERRCODE_FAIL,
      data_ctx ?sz ct' cpad' args' (ucast ?sum) (ucast (drop_bit 8 ?sum)), (kicks k s)\<lparr>rx_in := rest\<rparr>)"
    using read_frame_wire [of "[]" args' ?sz s ct' cpad', OF _ _ _ _ rx, of c] assms(1) n bad
    by (auto simp: le16_split noise_count_def)
  then show ?thesis by auto
qed

lemma damaged_frame_refused_witness:
  "\<exists>c' s'. loader_read_frame empty_ctx (idle_line (map Some ((cmd_frame 0x87 0x78 [1, 2, 3])[9 := 7])))
      = Done (ERRCODE_FAIL, c', s') \<and> rx_in s' = []"
  using damaged_frame_refused [of "[1, 2, 3]" 9 7 "0x87" "0x78"
      "idle_line (map Some ((cmd_frame 0x87 0x78 [1, 2, 3])[9 := 7]))" "[]" empty_ctx]
  by (simp add: idle_line_def cmd_frame_def Let_def frame_head_list)

section \<open>Short frames\<close>

lemma frame_data_loop_bounded:
  "unat n \<le> UART_PACKET_PAYLOAD_MAX \<Longrightarrow> frame_data_loop xs n got pl \<noteq> Overrun"
proof (induction xs n got pl rule: frame_data_loop.induct)
  case (2 x xs n got pl)
  have "unat got < UART_PACKET_PAYLOAD_MAX" if "ucast got < n"
    using that 2(2) by (simp add: word_less_nat_alt unat_ucast_u16_u32)
  then show ?case using 2 by (auto split: option.splits)
qed auto

lemma frame_data_loop_overrun:
  "i + length bs = UART_PACKET_PAYLOAD_MAX \<Longrightarrow> UART_PACKET_PAYLOAD_MAX < unat n \<Longrightarrow>
     frame_data_loop (map Some (bs @ [b]) @ xs) n (of_nat i) pl = Overrun"
proof (induction bs arbitrary: i pl)
  case Nil
  then have "unat (of_nat i :: u16) = i" by (intro unat_of_nat_u16) (simp add: UART_PACKET_PAYLOAD_MAX_def)
  then show ?case using Nil by (simp add: word_less_nat_alt unat_ucast_u16_u32)
next
  case (Cons a bs)
  then have i: "unat (of_nat i :: u16) = i" by (intro unat_of_nat_u16) (simp add: UART_PACKET_PAYLOAD_MAX_def)
  have "(ucast (of_nat i :: u16) :: u32) < n" "\<not> UART_PACKET_PAYLOAD_MAX \<le> i"
    using Cons.prems i by (simp_all add: word_less_nat_alt unat_ucast_u16_u32)
  moreover have "frame_data_loop (map Some (bs @ [b]) @ xs) n (of_nat (Suc i)) (pl[i := a]) = Overrun"
    by (rule Cons.IH) (use Cons.prems in simp_all)
  ultimately show ?case using i by (simp add: add.commute)
qed

text \<open>The size field of a head decides whether the payload array is overrun: with a size of at least ten
  no input makes the receiver store outside it, with a smaller size the unsigned length wraps (or the
  checksum is looked for in front of the array) and 1025 further bytes reach beyond it.\<close>

theorem short_size_overruns:
  assumes "unat sz \<le> 1024" and "rx_in s = map Some (frame_head sz ct cpad) @ xs"
  shows "if 10 \<le> unat sz then loader_read_frame c s \<noteq> Overrun
    else \<forall>bs rest. xs = map Some bs @ rest \<and> length bs = 1025 \<longrightarrow> loader_read_frame c s = Overrun"
proof -
  let ?s1 = "(kicks 8 s)\<lparr>rx_in := xs\<rparr>" and ?c1 = "head_ctx sz ct cpad"
  let ?n = "ucast sz - 8 :: u32" and ?pl = "payload ?c1"
  have h: "loader_frame_head_rx (rx_in s) 0 False empty_ctx s = Done (ERRCODE_SUCC, ?c1, ?s1)"
    unfolding assms(2) by (rule head_rx_frame [OF assms(1)]) simp
  have iff: "loader_read_frame c s = Overrun \<longleftrightarrow> frame_data_rx ?c1 ?s1 = Overrun"
    unfolding loader_read_frame_def h run_bind.simps prod.case
    by (cases "frame_data_rx ?c1 ?s1") (auto split: prod.splits)
  show ?thesis
  proof (cases "10 \<le> unat sz")
    case True
    then have "unat ?n = unat sz - 8" by (simp add: unat_sub word_le_nat_alt unat_ucast_u16_u32)
    then have "frame_data_loop xs ?n 0 ?pl \<noteq> Overrun"
      using assms(1) by (intro frame_data_loop_bounded) (simp add: UART_PACKET_PAYLOAD_MAX_def)
    then have "frame_data_rx ?c1 ?s1 \<noteq> Overrun"
      using True assms(1)
      by (cases "frame_data_loop xs ?n 0 ?pl")
        (auto simp: frame_data_rx_def Let_def UART_PACKET_PAYLOAD_MAX_def split: prod.splits)
    then show ?thesis using True iff by simp
  next
    case False
    have "loader_read_frame c s = Overrun" if xs: "xs = map Some bs @ rest" "length bs = 1025" for bs rest
    proof -
      have "frame_data_rx ?c1 ?s1 = Overrun"
      proof (cases "8 \<le> unat sz")
        case True
        then have n: "unat ?n = unat sz - 8" by (simp add: unat_sub word_le_nat_alt unat_ucast_u16_u32)
        then have "frame_data_loop xs ?n 0 ?pl \<noteq> Overrun"
          using assms(1) by (intro frame_data_loop_bounded) (simp add: UART_PACKET_PAYLOAD_MAX_def)
        obtain b1 b2 bs' where b: "bs = b1 # b2 # bs'"
          using xs(2) by (cases bs; cases "tl bs") auto
        have "\<exists>got pl ys. frame_data_loop xs ?n 0 ?pl = Done (True, got, pl, ys)"
        proof -
          have "unat sz = 8 \<or> unat sz = 9" using True False by linarith
          then have "?n = 0 \<or> ?n = 1"
            using n by (metis diff_self_eq_0 unat_eq_zero unat_1 word_unat_eq_iff add_diff_cancel_left'
              numeral_plus_one semiring_norm(5) eval_nat_numeral(3) diff_Suc_Suc One_nat_def diff_add_inverse2 plus_1_eq_Suc)
          then show ?thesis using xs(1) b by (auto simp: UART_PACKET_PAYLOAD_MAX_def)
        qed
        then show ?thesis using False by (auto simp: frame_data_rx_def Let_def)
      next
        case small: False
        obtain bs' b where b: "bs = bs' @ [b]" "length bs' = 1024"
          using xs(2) by (cases bs rule: rev_cases) auto
        have "1024 < unat ?n"
        proof -
          have "unat (ucast sz :: u32) < 8" using small by (simp add: unat_ucast_u16_u32)
          then show ?thesis by (simp add: unat_sub_if_size word_size word_le_nat_alt)
        qed
        then have "frame_data_loop xs ?n 0 ?pl = Overrun"
          using frame_data_loop_overrun [of 0 bs' ?n b rest ?pl] b xs(1)
          by (simp add: UART_PACKET_PAYLOAD_MAX_def)
        then show ?thesis by (simp add: frame_data_rx_def Let_def)
      qed
      then show ?thesis using iff by simp
    qed
    then show ?thesis using False by simp
  qed
qed

lemma short_size_overruns_witness:
  "loader_read_frame empty_ctx (idle_line (map Some (frame_head 0 0x87 0x78) @ map Some (replicate 1025 1) @ [])) = Overrun"
  using short_size_overruns [of 0 "idle_line (map Some (frame_head 0 0x87 0x78) @ map Some (replicate 1025 1) @ [])"
      "0x87" "0x78" "map Some (replicate 1025 1) @ []" empty_ctx]
  by (simp add: idle_line_def del: append_Nil2 map_replicate)

section \<open>A stale size\<close>

lemma head_byte_idle:
  "rx_status c = 0 \<Longrightarrow> ch \<noteq> 0xEF \<Longrightarrow> head_byte n ch c = (c, True, False)"
  by (simp add: head_byte_def CMD_RX_STATUS_WAIT_START_3_def start_byte_def)

lemma head_reset_status [simp]: "rx_status (head_reset c) = 0"
  by (simp add: head_reset_def)

lemma head_reset_stage:
  "length t = 8 \<Longrightarrow> 4 \<le> length h \<Longrightarrow>
     head_reset ((stage_on t h)\<lparr>rx_status := k\<rparr>) = stage_on ([0, 0, 0, 0] @ drop 4 (h @ drop (length h) t)) []"
  by (simp add: head_reset_def stage_on_def)

text \<open>A head that announces a frame longer than the buffer is given up, but its size stays in the
  receiver. In the command loop the first size byte of the next head is then judged together with the
  old high byte, so that a correct frame that follows is not recognised; the receiver of the
  handshake, which tests the size only when both bytes are there, recognises it.\<close>

theorem oversize_blocks_next_frame:
  assumes "5 \<le> unat hi" and "unat sz \<le> 1024" and "0xEF \<notin> set (drop 5 (frame_head sz ct cpad))"
  shows "loader_frame_head_rx (map Some ([0xEF, 0xBE, 0xAD, 0xDE, lo, hi] @ frame_head sz ct cpad)) 0 False empty_ctx s
      = Waiting
    \<and> fst (uart_frame_head_rx (map Some ([0xEF, 0xBE, 0xAD, 0xDE, lo, hi] @ frame_head sz ct cpad)) 0 False empty_ctx s)
      = ERRCODE_SUCC"
proof -
  let ?lo = "ucast sz :: u8" and ?hi = "ucast (drop_bit 8 sz) :: u8"
  let ?z = "replicate 8 0 :: u8 list" and ?t = "[0, 0, 0, 0, lo, hi, 0, 0] :: u8 list"
  have big: "1024 < le16 b hi" for b using assms(1) by (simp add: word_less_nat_alt le16_unat)
  have sz: "\<not> 1024 < le16 ?lo ?hi" "\<not> 1024 < sz" using assms(2) by (simp_all add: le16_split word_less_nat_alt)
  have ne: "?hi \<noteq> 0xEF" "ct \<noteq> 0xEF" "cpad \<noteq> 0xEF" using assms(3) by (auto simp: frame_head_list)
  have z: "empty_ctx = stage_on ?z []" by (simp add: stage_on_def) (simp add: empty_ctx_def)
  have r1: "head_reset ((stage_on ?z [0xEF, 0xBE, 0xAD, 0xDE, lo, hi])\<lparr>rx_status := Suc (Suc (Suc (Suc (Suc 0))))\<rparr>) = stage_on ?t []"
    by (simp add: head_reset_stage) (simp add: eval_nat_numeral)
  have st: "rx_status (stage_on t h) = length h" for t h by (simp add: stage_on_def)
  have "loader_frame_head_rx (map Some ([0xEF, 0xBE, 0xAD, 0xDE, lo, hi] @ frame_head sz ct cpad)) 0 False empty_ctx s
      = Waiting"
    using assms(1) sz ne not_oversize_low big
    by (simp add: frame_head_list z stage_flag stage_field packet_size_stage packet_size_stage_full
        start_byte_def head_byte_idle r1 CMD_RX_STATUS_WAIT_START_1_def del: replicate.simps)
  moreover have "fst (uart_frame_head_rx (map Some ([0xEF, 0xBE, 0xAD, 0xDE, lo, hi] @ frame_head sz ct cpad)) 0 False empty_ctx s)
      = ERRCODE_SUCC"
    using sz big
    by (simp add: frame_head_list z stage_flag stage_field packet_size_stage packet_size_stage_full
        start_byte_def r1 RX_STATUS_WAIT_SIZE_1_def Let_def del: replicate.simps)
  ultimately show ?thesis by blast
qed

lemma oversize_blocks_next_frame_witness:
  "loader_frame_head_rx (map Some ([0xEF, 0xBE, 0xAD, 0xDE, 0, 8] @ frame_head 12 0x87 0x78)) 0 False empty_ctx
     (idle_line []) = Waiting"
  using oversize_blocks_next_frame [of 8 12 "0x87" "0x78" 0 "idle_line []"]
  by (simp add: frame_head_list)

end
