(* ===== verification/BootTransfer.thy ===== *)
theory BootTransfer
  imports BootLoad BootFrame
begin

text \<open>
  The transfers of the loader boot, boot_transfer.c: downloads to the flash, and uploads, in which the
  device is the YMODEM sender. \<open>upload_context\<close> is the code's \<open>g_upload_ctx\<close>; the memory it reads is
  the function \<open>mem\<close> from bus addresses to bytes. The two 4-bit counters are numbers modulo 16.
\<close>

section \<open>State\<close>

datatype upload_status = UPLOAD_NONE | UPLOAD_WAIT_START_C | UPLOAD_WAIT_INIT_ACK | UPLOAD_WAIT_TRANS_C
  | UPLOAD_WAIT_INTER_ACK | UPLOAD_WAIT_FINAL_ACK | UPLOAD_WAIT_EOT_C | UPLOAD_WAIT_ZERO_ACK

record upload_context =
  ul_addr :: u32
  ul_length :: u32
  ul_offset :: u32
  ul_status :: upload_status
  ul_seq :: u8
  ul_retry :: nat
  ul_can_cnt :: nat
  ul_buffer :: "u8 list"

record loader_state = ymodem_context +
  g_flash_all_erased :: bool
  g_upload_ctx :: "upload_context option"
  malloc_ok :: bool

definition UPLOAD_BUFF_LEN :: nat where "UPLOAD_BUFF_LEN = 1029"
definition SOH_MSG_LEN :: nat where "SOH_MSG_LEN = 128"
definition SOH_MSG_TOTAL_LEN :: nat where "SOH_MSG_TOTAL_LEN = 133"
definition UPLOAD_DATA_SIZE :: nat where "UPLOAD_DATA_SIZE = 1024"
definition RETRY_COUNT :: nat where "RETRY_COUNT = 0"
definition CAN_COUNT :: nat where "CAN_COUNT = 3"

text \<open>The file name with its NUL: \<open>UPLOAD_FILE_NAME_LEN\<close> bytes.\<close>

definition upload_file_name :: "u8 list" where
  "upload_file_name = map of_char ''upload.bin'' @ [0]"

definition erased_upload :: upload_context where
  "erased_upload = \<lparr>ul_addr = 0, ul_length = 0, ul_offset = 0, ul_status = UPLOAD_NONE, ul_seq = 0,
     ul_retry = 0, ul_can_cnt = 0, ul_buffer = replicate UPLOAD_BUFF_LEN 0\<rparr>"

text \<open>Bytes copied into a buffer at an index.\<close>

definition patch :: "nat \<Rightarrow> u8 list \<Rightarrow> u8 list \<Rightarrow> u8 list" where
  "patch i bs buf = take i buf @ bs @ drop (i + length bs) buf"

section \<open>Downloads\<close>

text \<open>The flash is erased, in the configuration with chip erase, only if that has not happened before.\<close>

definition download_to_flash ::
    "u32 \<Rightarrow> u32 \<Rightarrow> u32 \<Rightarrow> 'a loader_state_scheme \<Rightarrow> u32 \<times> 'a loader_state_scheme" where
  "download_to_flash flash_offset erase_size flash_size s0 =
     (let go = (\<lambda>sz s. loader_serial_ymodem flash_offset sz 0 flash_size
                  (loader_ack 0x5A (boot_msg0 ''Ready for download'' (boot_wdt_kick s))));
          erase = (\<lambda>(ret, s). if ret \<noteq> ERRCODE_SUCC then (ERRCODE_FAIL, boot_put_errno 0x3622 s)
                               else go erase_size s);
          s = boot_wdt_kick s0
      in if erase_size = FLASH_CHIP_ERASE_SIZE \<and> \<not> g_flash_all_erased s
         then erase (sfc_flash_erase 0 FLASH_CHIP_ERASE_SIZE s)
         else if erase_size \<noteq> 0 then erase (sfc_flash_erase flash_offset erase_size s)
         else go FLASH_CHIP_ERASE_SIZE s)"

definition download_image ::
    "u32 \<Rightarrow> u32 \<Rightarrow> u32 \<Rightarrow> u8 \<Rightarrow> 'a loader_state_scheme \<Rightarrow> u32 \<times> 'a loader_state_scheme" where
  "download_image addr erase_size flash_size burn_efuse s =
     (let (ret, s1) = download_to_flash addr erase_size flash_size s
      in (if ret \<noteq> ERRCODE_SUCC then ERRCODE_FAIL else ERRCODE_SUCC, s1))"

definition download_factory_image ::
    "u32 \<Rightarrow> u32 \<Rightarrow> u32 \<Rightarrow> u8 \<Rightarrow> 'a loader_state_scheme \<Rightarrow> u32 \<times> 'a loader_state_scheme" where
  "download_factory_image addr erase_size flash_size burn_efuse s =
     (let (ret, s1) = download_to_flash addr erase_size flash_size s
      in (if ret \<noteq> ERRCODE_SUCC then ERRCODE_FAIL else ERRCODE_SUCC, s1))"

section \<open>Uploads: what is sent\<close>

text \<open>The digits of the length, the lowest first, and the loop that turns them round.\<close>

function upload_digits :: "int \<Rightarrow> u8 list" where
  "upload_digits temp_length =
     (if 0 < temp_length then (0x30 + of_int (temp_length mod 10)) # upload_digits (temp_length div 10) else [])"
  by auto
termination by (relation "measure nat") auto

declare upload_digits.simps [simp del]

fun swap_loop :: "nat \<Rightarrow> nat \<Rightarrow> u8 list \<Rightarrow> u8 list" where
  "swap_loop 0 i ds = ds"
| "swap_loop (Suc k) i ds =
     swap_loop k (Suc i) (ds[i := ds ! (length ds - i - 1), length ds - i - 1 := ds ! i])"

definition upload_length_text :: "u32 \<Rightarrow> u8 list" where
  "upload_length_text n = (let ds = upload_digits (sint n) in swap_loop (length ds div 2) 0 ds)"

text \<open>The checksum of the 128 or 1024 data bytes goes behind them, high byte first.\<close>

definition put_crc :: "nat \<Rightarrow> u8 list \<Rightarrow> u8 list" where
  "put_crc n buf = (let crc = frame_sum (take n (drop 3 buf))
     in patch (3 + n) [ucast (drop_bit 8 crc), ucast crc] buf)"

definition upload_send_file_info ::
    "upload_context \<Rightarrow> 'a boot_io_scheme \<Rightarrow> upload_context \<times> 'a boot_io_scheme" where
  "upload_send_file_info c s =
     (if 0 < ul_retry c then (c, serial_put_buf (take SOH_MSG_TOTAL_LEN (ul_buffer c)) s)
      else
        let b0 = replicate UPLOAD_BUFF_LEN 0;
            b1 = patch 0 [YMODEM_SOH, ul_seq c, NOT (ul_seq c)] b0;
            b2 = patch 3 upload_file_name b1;
            b3 = patch (3 + length upload_file_name) (upload_length_text (ul_length c)) b2;
            b4 = put_crc SOH_MSG_LEN b3
        in (c\<lparr>ul_buffer := b4, ul_status := UPLOAD_WAIT_INIT_ACK\<rparr>,
            serial_put_buf (take SOH_MSG_TOTAL_LEN b4) s))"

definition upload_mem :: "(u32 \<Rightarrow> u8) \<Rightarrow> u32 \<Rightarrow> nat \<Rightarrow> u8 list" where
  "upload_mem mem a n = map (\<lambda>k. mem (a + of_nat k)) [0..<n]"

definition upload_send_data ::
    "(u32 \<Rightarrow> u8) \<Rightarrow> upload_context \<Rightarrow> 'a boot_io_scheme \<Rightarrow> upload_context \<times> 'a boot_io_scheme" where
  "upload_send_data mem c s =
     (if 0 < ul_retry c then
        (c, serial_put_buf
          (if hd (ul_buffer c) = YMODEM_SOH then take SOH_MSG_TOTAL_LEN (ul_buffer c)
           else take UPLOAD_BUFF_LEN (ul_buffer c)) s)
      else
        let remain = ul_length c - ul_offset c;
            sq = ul_seq c + 1;
            b0 = replicate UPLOAD_BUFF_LEN 0x1A
        in if remain \<le> of_nat SOH_MSG_LEN then
             let b1 = patch 0 [YMODEM_SOH, sq, NOT sq] b0;
                 b2 = patch 3 (upload_mem mem (ul_addr c + ul_offset c) (unat remain)) b1;
                 b3 = put_crc SOH_MSG_LEN b2
             in (c\<lparr>ul_status := UPLOAD_WAIT_FINAL_ACK, ul_seq := sq, ul_buffer := b3,
                   ul_offset := ul_offset c + remain\<rparr>,
                 boot_wdt_kick (serial_put_buf (take SOH_MSG_TOTAL_LEN b3) s))
           else
             let st = (if of_nat UPLOAD_DATA_SIZE < remain then UPLOAD_WAIT_INTER_ACK else UPLOAD_WAIT_FINAL_ACK);
                 n = (if of_nat UPLOAD_DATA_SIZE < remain then of_nat UPLOAD_DATA_SIZE else remain);
                 b1 = patch 0 [YMODEM_STX, sq, NOT sq] b0;
                 b2 = patch 3 (upload_mem mem (ul_addr c + ul_offset c) (unat n)) b1;
                 b3 = put_crc UPLOAD_DATA_SIZE b2
             in (c\<lparr>ul_status := st, ul_seq := sq, ul_buffer := b3, ul_offset := ul_offset c + n\<rparr>,
                 boot_wdt_kick (serial_put_buf (take UPLOAD_BUFF_LEN b3) s)))"

text \<open>The last packet clears the first 128 bytes of the buffer only.\<close>

definition upload_send_null_info ::
    "upload_context \<Rightarrow> 'a boot_io_scheme \<Rightarrow> upload_context \<times> 'a boot_io_scheme" where
  "upload_send_null_info c s =
     (let b1 = patch 0 (replicate SOH_MSG_LEN 0) (ul_buffer c);
          b2 = patch 0 [YMODEM_SOH, 0, 0xFF] b1;
          b3 = put_crc SOH_MSG_LEN b2
      in (c\<lparr>ul_buffer := b3, ul_status := UPLOAD_WAIT_ZERO_ACK\<rparr>,
          serial_put_buf (take SOH_MSG_TOTAL_LEN b3) s))"

section \<open>Uploads: the protocol\<close>

text \<open>The steps return whether they have handled the character, the context, the timeout and the port.\<close>

definition upload_modem_nak_step ::
    "(u32 \<Rightarrow> u8) \<Rightarrow> upload_context \<Rightarrow> u32 \<Rightarrow> 'a boot_io_scheme \<Rightarrow> bool \<times> upload_context \<times> u32 \<times> 'a boot_io_scheme" where
  "upload_modem_nak_step mem c timeout s =
     (case ul_status c of
        UPLOAD_WAIT_INIT_ACK \<Rightarrow> let (c1, s1) = upload_send_file_info c s in (True, c1, 10000000, s1)
      | UPLOAD_WAIT_INTER_ACK \<Rightarrow> let (c1, s1) = upload_send_data mem c s in (True, c1, timeout, s1)
      | UPLOAD_WAIT_FINAL_ACK \<Rightarrow> let (c1, s1) = upload_send_data mem c s in (True, c1, timeout, s1)
      | UPLOAD_WAIT_EOT_C \<Rightarrow> (True, c\<lparr>ul_status := UPLOAD_WAIT_EOT_C\<rparr>, timeout, serial_putc YMODEM_EOT s)
      | UPLOAD_WAIT_ZERO_ACK \<Rightarrow> let (c1, s1) = upload_send_null_info c s in (True, c1, timeout, s1)
      | _ \<Rightarrow> (False, c, timeout, s))"

definition upload_modem_c_step ::
    "(u32 \<Rightarrow> u8) \<Rightarrow> upload_context \<Rightarrow> 'a boot_io_scheme \<Rightarrow> bool \<times> upload_context \<times> 'a boot_io_scheme" where
  "upload_modem_c_step mem c s =
     (case ul_status c of
        UPLOAD_WAIT_START_C \<Rightarrow> (True, upload_send_file_info c s)
      | UPLOAD_WAIT_TRANS_C \<Rightarrow> (True, upload_send_data mem c s)
      | UPLOAD_WAIT_EOT_C \<Rightarrow> (True, upload_send_null_info c s)
      | _ \<Rightarrow> (False, c, s))"

definition upload_modem_ack_step ::
    "(u32 \<Rightarrow> u8) \<Rightarrow> upload_context \<Rightarrow> u32 \<Rightarrow> 'a boot_io_scheme \<Rightarrow> bool \<times> upload_context \<times> u32 \<times> 'a boot_io_scheme" where
  "upload_modem_ack_step mem c timeout s =
     (case ul_status c of
        UPLOAD_WAIT_INIT_ACK \<Rightarrow> (True, c\<lparr>ul_status := UPLOAD_WAIT_TRANS_C\<rparr>, 2000000, s)
      | UPLOAD_WAIT_INTER_ACK \<Rightarrow> let (c1, s1) = upload_send_data mem c s in (True, c1, timeout, s1)
      | UPLOAD_WAIT_FINAL_ACK \<Rightarrow> (True, c\<lparr>ul_status := UPLOAD_WAIT_EOT_C\<rparr>, timeout, serial_putc YMODEM_EOT s)
      | _ \<Rightarrow> (False, c, timeout, s))"

text \<open>One received character; \<open>Some ret\<close> ends the loop. An unhandled character is ignored.\<close>

definition upload_char ::
    "(u32 \<Rightarrow> u8) \<Rightarrow> u8 \<Rightarrow> upload_context \<Rightarrow> u32 \<Rightarrow> 'a boot_io_scheme
      \<Rightarrow> u32 option \<times> upload_context \<times> u32 \<times> 'a boot_io_scheme" where
  "upload_char mem ch c timeout s =
     (if ch = YMODEM_C then
        let c1 = c\<lparr>ul_can_cnt := 0, ul_retry := 0\<rparr>; (handled, c2, s2) = upload_modem_c_step mem c1 s
        in (None, c2, timeout, s2)
      else if ch = YMODEM_ACK then
        let c1 = c\<lparr>ul_can_cnt := 0, ul_retry := 0\<rparr>
        in if ul_status c1 = UPLOAD_WAIT_ZERO_ACK then (Some ERRCODE_SUCC, c1, timeout, mdelay 100 s)
           else let (handled, c2, t2, s2) = upload_modem_ack_step mem c1 timeout s in (None, c2, t2, s2)
      else if ch = 0x15 then
        let c1 = c\<lparr>ul_can_cnt := 0, ul_retry := (ul_retry c + 1) mod 16\<rparr>
        in if ul_retry c1 = RETRY_COUNT then (Some ERRCODE_FAIL, c1, timeout, s)
           else let (handled, c2, t2, s2) = upload_modem_nak_step mem c1 timeout s in (None, c2, t2, s2)
      else if ch = YMODEM_CAN then
        let c1 = c\<lparr>ul_retry := 0, ul_can_cnt := (ul_can_cnt c + 1) mod 16\<rparr>
        in if ul_can_cnt c1 = CAN_COUNT then (Some ERRCODE_FAIL, c1, timeout, s) else (None, c1, timeout, s)
      else (None, c, timeout, s))"

fun upload_loop ::
    "(u32 \<Rightarrow> u8) \<Rightarrow> u8 option list \<Rightarrow> upload_context \<Rightarrow> u32 \<Rightarrow> 'a boot_io_scheme
      \<Rightarrow> (u32 \<times> upload_context \<times> 'a boot_io_scheme) run" where
  "upload_loop mem [] c timeout s = Waiting"
| "upload_loop mem (None # xs) c timeout s = upload_loop mem xs c timeout s"
| "upload_loop mem (Some ch # xs) c timeout s =
     (case upload_char mem ch c timeout s of
        (Some ret, c1, t1, s1) \<Rightarrow> Done (ret, c1, s1\<lparr>rx_in := xs\<rparr>)
      | (None, c1, t1, s1) \<Rightarrow> upload_loop mem xs c1 t1 s1)"

definition upload_serial_ymodem ::
    "(u32 \<Rightarrow> u8) \<Rightarrow> upload_context \<Rightarrow> 'a boot_io_scheme \<Rightarrow> (u32 \<times> upload_context \<times> 'a boot_io_scheme) run" where
  "upload_serial_ymodem mem c s = upload_loop mem (rx_in s) c 10000000 s"

definition upload_malloc_init :: "'a loader_state_scheme \<Rightarrow> u32 \<times> 'a loader_state_scheme" where
  "upload_malloc_init s =
     (if g_upload_ctx s = None \<and> \<not> malloc_ok s then (ERRCODE_FAIL, s)
      else (ERRCODE_SUCC, s\<lparr>g_upload_ctx := Some erased_upload\<rparr>))"

definition upload_data ::
    "(u32 \<Rightarrow> u8) \<Rightarrow> u32 \<Rightarrow> u32 \<Rightarrow> 'a loader_state_scheme \<Rightarrow> (u32 \<times> 'a loader_state_scheme) run" where
  "upload_data mem addr len s =
     (let (ret, s1) = upload_malloc_init s
      in if ret \<noteq> ERRCODE_SUCC then Done (ERRCODE_FAIL, s1)
         else
           let c = erased_upload\<lparr>ul_addr := addr + FLASH_START, ul_length := len, ul_status := UPLOAD_WAIT_START_C\<rparr>
           in run_bind (upload_serial_ymodem mem c (loader_ack 0x5A s1)) (\<lambda>(ret2, c2, s2).
                Done (if ret2 = ERRCODE_SUCC then ERRCODE_SUCC else ERRCODE_FAIL, s2\<lparr>g_upload_ctx := Some c2\<rparr>)))"

section \<open>The text of the length\<close>

lemma swap_step:
  "length a = length b \<Longrightarrow>
     (let ds = a @ x # m @ y # b in ds[length a := ds ! (length ds - length a - 1),
        length ds - length a - 1 := ds ! length a]) = a @ y # m @ x # b"
  by (simp add: Let_def nth_append list_update_append)

lemma swap_loop_rev:
  "length a = length b \<Longrightarrow> swap_loop (length m div 2) (length a) (a @ m @ b) = a @ rev m @ b"
proof (induction "length m div 2" arbitrary: a m b)
  case 0
  then have "m = [] \<or> (\<exists>x. m = [x])" by (cases m; cases "tl m") auto
  then show ?case by auto
next
  case (Suc k)
  then obtain x m1 where m: "m = x # m1" "m1 \<noteq> []" by (cases m; cases "tl m") auto
  then obtain m2 y where m1: "m1 = m2 @ [y]" by (cases m1 rule: rev_cases) auto
  have k: "k = length m2 div 2" using Suc.hyps(2) m m1 by simp
  have "swap_loop (length m div 2) (length a) (a @ m @ b)
      = swap_loop k (Suc (length a)) (a @ y # m2 @ x # b)"
    using swap_step [OF Suc.prems, of x m2 y] m m1 Suc.hyps(2) [symmetric] by (simp add: Let_def)
  also have "\<dots> = (a @ [y]) @ rev m2 @ (x # b)"
    using Suc.hyps(1) [OF k, of "a @ [y]" "x # b"] Suc.prems k by simp
  finally show ?case using m m1 by simp
qed

lemma upload_digits_decimal: "0 < n \<Longrightarrow> rev (upload_digits (int n)) = decimal n"
proof (induction n rule: decimal.induct)
  case (1 n)
  have d: "(of_int (int n mod 10) :: u8) = of_nat (n mod 10)" by (metis of_int_of_nat_eq of_nat_numeral zmod_int)
  show ?case
  proof (cases "n < 10")
    case True
    then show ?thesis using 1(2) d
      by (simp add: upload_digits.simps [of "int n"] decimal.simps [of n] upload_digits.simps [of 0])
  next
    case False
    have "int n div 10 = int (n div 10)" by simp
    then show ?thesis using 1 False d
      by (simp add: upload_digits.simps [of "int n"] decimal.simps [of n])
  qed
qed

lemma upload_length_text_decimal:
  assumes "0 < n" and "n < 2 ^ 31"
  shows "upload_length_text (of_nat n) = decimal n"
proof -
  have "sint (of_nat n :: u32) = int n" using assms(2) by (simp add: sint_u32_of_nat)
  then show ?thesis
    using swap_loop_rev [of "[]" "[]" "upload_digits (int n)"] upload_digits_decimal [OF assms(1)]
    by (simp add: upload_length_text_def Let_def)
qed

lemma length_decimal: "n < 10 ^ k \<Longrightarrow> 0 < k \<Longrightarrow> length (decimal n) \<le> k"
proof (induction k arbitrary: n)
  case (Suc k)
  show ?case
  proof (cases "n < 10")
    case True
    then show ?thesis by (simp add: decimal.simps [of n])
  next
    case False
    then have "0 < k" using Suc.prems by (cases k) auto
    moreover have "n div 10 < 10 ^ k" using Suc.prems(1) by simp
    ultimately show ?thesis using Suc.IH [of "n div 10"] False by (simp add: decimal.simps [of n])
  qed
qed simp

section \<open>What is sent are packets\<close>

lemma length_patch [simp]: "i + length bs \<le> length buf \<Longrightarrow> length (patch i bs buf) = length buf"
  by (simp add: patch_def)

lemma patch_prefix: "length a = i \<Longrightarrow> patch i bs (a @ r) = a @ bs @ drop (length bs) r"
  by (auto simp: patch_def)

lemma put_crc_take:
  assumes "buf = h3 @ data @ r" and "length h3 = 3" and "length data = n" and "2 \<le> length r"
  shows "put_crc n buf = h3 @ data @ [ucast (drop_bit 8 (frame_sum data)), ucast (frame_sum data)] @ drop 2 r"
proof -
  have "take n (drop 3 buf) = data" using assms by simp
  moreover have "patch (3 + n) bs buf = h3 @ data @ bs @ drop (length bs) r" for bs
    using patch_prefix [of "h3 @ data" "3 + n" bs r] assms(1-3) by simp
  ultimately show ?thesis by (simp add: put_crc_def Let_def eval_nat_numeral)
qed

lemma put_crc_frame:
  assumes "buf = [h, b, NOT b] @ data @ r" and "length data = n" and "2 \<le> length r"
  shows "take (n + 5) (put_crc n buf) = ymodem_frame h b data" and "length (put_crc n buf) = length buf"
    and "hd (put_crc n buf) = h"
proof -
  have "put_crc n buf = ymodem_frame h b data @ drop 2 r"
    using put_crc_take [of buf "[h, b, NOT b]" data r n] assms by (simp add: ymodem_frame_def)
  moreover have "length (ymodem_frame h b data) = n + 5" using assms(2) by (simp add: ymodem_frame_def)
  moreover have "hd (ymodem_frame h b data @ x) = h" for x by (simp add: ymodem_frame_def)
  ultimately show "take (n + 5) (put_crc n buf) = ymodem_frame h b data"
    "length (put_crc n buf) = length buf" "hd (put_crc n buf) = h"
    using assms by simp_all
qed

lemma length_upload_mem [simp]: "length (upload_mem mem a n) = n"
  by (simp add: upload_mem_def)

lemma length_upload_file_name [simp]: "length upload_file_name = 11"
  by (simp add: upload_file_name_def)

text \<open>The first packet.\<close>

definition info_data :: "nat \<Rightarrow> u8 list" where
  "info_data len = upload_file_name @ decimal len @ replicate (117 - length (decimal len)) 0"

lemma length_decimal31: "n < 2 ^ 31 \<Longrightarrow> length (decimal n) \<le> 10"
  by (rule length_decimal) simp_all

lemma upload_info_frame:
  assumes "ul_retry c = 0" and "ul_length c = of_nat len" and "0 < len" and "len < 2 ^ 31"
  obtains buf where "upload_send_file_info c s =
      (c\<lparr>ul_buffer := buf, ul_status := UPLOAD_WAIT_INIT_ACK\<rparr>,
       serial_put_buf (ymodem_frame YMODEM_SOH (ul_seq c) (info_data len)) s)"
    and "length buf = UPLOAD_BUFF_LEN" and "hd buf = YMODEM_SOH"
proof -
  let ?n = "length (decimal len)"
  have n: "?n \<le> 10" using length_decimal31 [OF assms(4)] .
  let ?b3 = "[YMODEM_SOH, ul_seq c, NOT (ul_seq c)] @ info_data len @ replicate (UPLOAD_BUFF_LEN - 131) 0"
  have z: "patch 0 [YMODEM_SOH, ul_seq c, NOT (ul_seq c)] (replicate UPLOAD_BUFF_LEN 0)
      = [YMODEM_SOH, ul_seq c, NOT (ul_seq c)] @ replicate (UPLOAD_BUFF_LEN - 3) 0"
    by (simp add: patch_def UPLOAD_BUFF_LEN_def eval_nat_numeral del: replicate.simps)
  have p1: "patch 3 upload_file_name ([YMODEM_SOH, ul_seq c, NOT (ul_seq c)] @ replicate (UPLOAD_BUFF_LEN - 3) 0)
      = ([YMODEM_SOH, ul_seq c, NOT (ul_seq c)] @ upload_file_name) @ replicate (UPLOAD_BUFF_LEN - 14) 0"
    using patch_prefix [of "[YMODEM_SOH, ul_seq c, NOT (ul_seq c)]" 3 upload_file_name]
    by (simp add: UPLOAD_BUFF_LEN_def del: append.simps)
  have p2: "patch (3 + length upload_file_name) (decimal len)
      (([YMODEM_SOH, ul_seq c, NOT (ul_seq c)] @ upload_file_name) @ replicate (UPLOAD_BUFF_LEN - 14) 0) = ?b3"
  proof -
    have "replicate (UPLOAD_BUFF_LEN - 14 - ?n) (0 :: u8)
        = replicate (117 - ?n) 0 @ replicate (UPLOAD_BUFF_LEN - 131) 0"
      using n by (simp add: UPLOAD_BUFF_LEN_def flip: replicate_add)
    then show ?thesis
      using patch_prefix [of "[YMODEM_SOH, ul_seq c, NOT (ul_seq c)] @ upload_file_name" 14 "decimal len"]
      by (simp add: info_data_def)
  qed
  have li: "length (info_data len) = SOH_MSG_LEN" using n by (simp add: info_data_def SOH_MSG_LEN_def)
  have lr: "2 \<le> length (replicate (UPLOAD_BUFF_LEN - 131) (0 :: u8))" by (simp add: UPLOAD_BUFF_LEN_def)
  note f = put_crc_frame [OF refl li lr, of YMODEM_SOH "ul_seq c"]
  show ?thesis
  proof (rule that)
    show "upload_send_file_info c s = (c\<lparr>ul_buffer := put_crc SOH_MSG_LEN ?b3, ul_status := UPLOAD_WAIT_INIT_ACK\<rparr>,
        serial_put_buf (ymodem_frame YMODEM_SOH (ul_seq c) (info_data len)) s)"
      using f(1) assms unfolding upload_send_file_info_def Let_def assms(2)
        upload_length_text_decimal [OF assms(3,4)] z p1 p2
      by (simp add: SOH_MSG_TOTAL_LEN_def SOH_MSG_LEN_def)
    show "length (put_crc SOH_MSG_LEN ?b3) = UPLOAD_BUFF_LEN"
      unfolding f(2) using li by (simp add: UPLOAD_BUFF_LEN_def SOH_MSG_LEN_def)
    show "hd (put_crc SOH_MSG_LEN ?b3) = YMODEM_SOH" by (rule f(3))
  qed
qed

text \<open>A data packet: its header, its data, and how many bytes of the file it holds.\<close>

definition upload_packet :: "(u32 \<Rightarrow> u8) \<Rightarrow> u32 \<Rightarrow> nat \<Rightarrow> u8 \<times> u8 list" where
  "upload_packet mem a remain =
     (if remain \<le> 128 then (YMODEM_SOH, upload_mem mem a remain @ replicate (128 - remain) 0x1A)
      else (YMODEM_STX, upload_mem mem a (min remain 1024) @ replicate (1024 - min remain 1024) 0x1A))"

lemma upload_fill:
  assumes "n \<le> k" and "k \<le> 1024"
  shows "patch 3 (upload_mem mem a n) (patch 0 [h, b, NOT b] (replicate UPLOAD_BUFF_LEN 0x1A))
    = [h, b, NOT b] @ (upload_mem mem a n @ replicate (k - n) 0x1A) @ replicate (UPLOAD_BUFF_LEN - 3 - k) 0x1A"
proof -
  have "patch 0 [h, b, NOT b] (replicate UPLOAD_BUFF_LEN 0x1A) = [h, b, NOT b] @ replicate (UPLOAD_BUFF_LEN - 3) 0x1A"
    by (simp add: patch_def UPLOAD_BUFF_LEN_def eval_nat_numeral del: replicate.simps)
  moreover have "replicate (UPLOAD_BUFF_LEN - 3 - n) (0x1A :: u8)
      = replicate (k - n) 0x1A @ replicate (UPLOAD_BUFF_LEN - 3 - k) 0x1A"
    using assms by (simp add: UPLOAD_BUFF_LEN_def flip: replicate_add)
  ultimately show ?thesis
    using patch_prefix [of "[h, b, NOT b]" 3 "upload_mem mem a n" "replicate (UPLOAD_BUFF_LEN - 3) 0x1A"]
    by simp
qed

lemma upload_data_frame:
  assumes "ul_retry c = 0" and "unat (ul_length c - ul_offset c) = remain"
    and "upload_packet mem (ul_addr c + ul_offset c) remain = (h, d)"
  obtains buf where "upload_send_data mem c s =
      (c\<lparr>ul_status := (if 1024 < remain then UPLOAD_WAIT_INTER_ACK else UPLOAD_WAIT_FINAL_ACK),
         ul_seq := ul_seq c + 1, ul_buffer := buf, ul_offset := ul_offset c + of_nat (min remain 1024)\<rparr>,
       boot_wdt_kick (serial_put_buf (ymodem_frame h (ul_seq c + 1) d) s))"
    and "length buf = UPLOAD_BUFF_LEN"
proof (cases "remain \<le> 128")
  case True
  let ?d = "upload_mem mem (ul_addr c + ul_offset c) remain @ replicate (128 - remain) 0x1A"
  have hd: "h = YMODEM_SOH" "d = ?d" using assms(3) True by (simp_all add: upload_packet_def)
  have le: "ul_length c - ul_offset c \<le> of_nat SOH_MSG_LEN"
    using True assms(2) by (simp add: word_le_nat_alt SOH_MSG_LEN_def)
  have ld: "length ?d = SOH_MSG_LEN" using True by (simp add: SOH_MSG_LEN_def)
  have lr: "2 \<le> length (replicate (UPLOAD_BUFF_LEN - 3 - 128) (0x1A :: u8))" by (simp add: UPLOAD_BUFF_LEN_def)
  note f = put_crc_frame [OF refl ld lr, of YMODEM_SOH "ul_seq c + 1"]
  have r: "ul_length c - ul_offset c = of_nat remain" using assms(2) by auto
  show ?thesis
  proof (rule that)
    show "upload_send_data mem c s =
      (c\<lparr>ul_status := (if 1024 < remain then UPLOAD_WAIT_INTER_ACK else UPLOAD_WAIT_FINAL_ACK),
         ul_seq := ul_seq c + 1,
         ul_buffer := put_crc SOH_MSG_LEN ([YMODEM_SOH, ul_seq c + 1, NOT (ul_seq c + 1)] @ ?d @ replicate (UPLOAD_BUFF_LEN - 3 - 128) 0x1A),
         ul_offset := ul_offset c + of_nat (min remain 1024)\<rparr>,
       boot_wdt_kick (serial_put_buf (ymodem_frame h (ul_seq c + 1) d) s))"
      using f(1) assms(1) le True unfolding upload_send_data_def Let_def hd assms(2)
      by (simp add: upload_fill [of remain 128, simplified] SOH_MSG_TOTAL_LEN_def SOH_MSG_LEN_def min_def flip: r)
  qed (use f(2) ld in \<open>simp add: UPLOAD_BUFF_LEN_def SOH_MSG_LEN_def\<close>)
next
  case False
  let ?m = "min remain 1024"
  let ?d = "upload_mem mem (ul_addr c + ul_offset c) ?m @ replicate (1024 - ?m) 0x1A"
  have hd: "h = YMODEM_STX" "d = ?d" using assms(3) False by (simp_all add: upload_packet_def)
  have le: "\<not> ul_length c - ul_offset c \<le> of_nat SOH_MSG_LEN"
    using False assms(2) by (simp add: word_le_nat_alt SOH_MSG_LEN_def)
  have gt: "of_nat UPLOAD_DATA_SIZE < ul_length c - ul_offset c \<longleftrightarrow> 1024 < remain"
    using assms(2) by (simp add: word_less_nat_alt UPLOAD_DATA_SIZE_def)
  have ld: "length ?d = UPLOAD_DATA_SIZE" by (simp add: UPLOAD_DATA_SIZE_def)
  have lr: "2 \<le> length (replicate (UPLOAD_BUFF_LEN - 3 - 1024) (0x1A :: u8))" by (simp add: UPLOAD_BUFF_LEN_def)
  note f = put_crc_frame [OF refl ld lr, of YMODEM_STX "ul_seq c + 1"]
  have r: "ul_length c - ul_offset c = of_nat remain" using assms(2) by auto
  let ?n = "if of_nat UPLOAD_DATA_SIZE < ul_length c - ul_offset c then of_nat UPLOAD_DATA_SIZE
     else ul_length c - ul_offset c"
  have n: "unat ?n = ?m" "?n = of_nat ?m"
    using gt assms(2) r by (auto simp: min_def UPLOAD_DATA_SIZE_def)
  have fill: "patch 3 (upload_mem mem (ul_addr c + ul_offset c) ?m)
      (patch 0 [YMODEM_STX, ul_seq c + 1, NOT (ul_seq c + 1)] (replicate UPLOAD_BUFF_LEN 0x1A))
    = [YMODEM_STX, ul_seq c + 1, NOT (ul_seq c + 1)] @ ?d @ replicate (UPLOAD_BUFF_LEN - 3 - 1024) 0x1A"
    by (rule upload_fill) simp_all
  show ?thesis
  proof (rule that)
    show "upload_send_data mem c s =
      (c\<lparr>ul_status := (if 1024 < remain then UPLOAD_WAIT_INTER_ACK else UPLOAD_WAIT_FINAL_ACK),
         ul_seq := ul_seq c + 1,
         ul_buffer := put_crc UPLOAD_DATA_SIZE ([YMODEM_STX, ul_seq c + 1, NOT (ul_seq c + 1)] @ ?d @ replicate (UPLOAD_BUFF_LEN - 3 - 1024) 0x1A),
         ul_offset := ul_offset c + of_nat ?m\<rparr>,
       boot_wdt_kick (serial_put_buf (ymodem_frame h (ul_seq c + 1) d) s))"
      using f(1) assms(1) le unfolding upload_send_data_def Let_def hd n(1) unfolding n(2) fill gt
      by (simp add: UPLOAD_DATA_SIZE_def UPLOAD_BUFF_LEN_def flip: r)
  qed (use f(2) ld in \<open>simp add: UPLOAD_BUFF_LEN_def UPLOAD_DATA_SIZE_def\<close>)
qed

section \<open>A whole upload\<close>

function upload_packets :: "(u32 \<Rightarrow> u8) \<Rightarrow> u32 \<Rightarrow> nat \<Rightarrow> (u8 \<times> u8 list) list" where
  "upload_packets mem a remain =
     (if remain = 0 then []
      else upload_packet mem a remain # upload_packets mem (a + of_nat (min remain 1024)) (remain - min remain 1024))"
  by auto
termination by (relation "measure (\<lambda>(mem, a, n). n)") auto

declare upload_packets.simps [simp del]

lemma upload_packets_0 [simp]: "upload_packets mem a 0 = []"
  by (simp add: upload_packets.simps)

lemma upload_mem_append: "upload_mem mem a (m + n) = upload_mem mem a m @ upload_mem mem (a + of_nat m) n"
proof -
  have "[0..<m + n] = [0..<m] @ map (\<lambda>k. k + m) [0..<n]"
    using upt_add_eq_append [of 0 m n] map_add_upt [of m n] by (simp add: add.commute)
  then show ?thesis by (simp add: upload_mem_def algebra_simps)
qed

lemma upload_packets_payload:
  "take n (payload_of (upload_packets mem a n)) = upload_mem mem a n"
proof (induction mem a n rule: upload_packets.induct)
  case (1 mem a n)
  let ?m = "min n 1024"
  obtain h d where p: "upload_packet mem a n = (h, d)" by fastforce
  have d: "d = upload_mem mem a ?m @ drop ?m d" "?m \<le> length d" "1024 \<le> n \<Longrightarrow> length d = 1024"
    using p by (auto simp: upload_packet_def min_def split: if_splits)
  show ?case
  proof (cases "n \<le> 1024")
    case True
    then have "take n d = upload_mem mem a n" using d by (metis append_eq_conv_conj length_upload_mem min.absorb1)
    then show ?thesis using True d(2) p by (simp add: upload_packets.simps [of mem a n] upload_mem_def)
  next
    case False
    have m: "?m = 1024" "length d = 1024" using False d(3) by auto
    then have dm: "d = upload_mem mem a 1024" using d(1) by simp
    have "take (n - 1024) (payload_of (upload_packets mem (a + 1024) (n - 1024))) = upload_mem mem (a + 1024) (n - 1024)"
      using 1 False m(1) by simp
    then have "take n (payload_of (upload_packets mem a n)) = upload_mem mem a 1024 @ upload_mem mem (a + 1024) (n - 1024)"
      using p m dm False by (simp add: upload_packets.simps [of mem a n])
    then show ?thesis using upload_mem_append [of mem a 1024 "n - 1024"] False by simp
  qed
qed

lemma upload_packets_stream:
  "1024 dvd off \<Longrightarrow> stream_ok (off + n) off (upload_packets mem a n)"
proof (induction mem a n arbitrary: off rule: upload_packets.induct)
  case (1 mem a n)
  obtain h d where p: "upload_packet mem a n = (h, d)" by fastforce
  have off: "off mod 8192 + 1024 \<le> 8192"
  proof -
    obtain k where "off = 1024 * k" using 1(2) by auto
    then have "off mod 8192 = 1024 * (k mod 8)" by (simp add: mult_mod_right)
    moreover have "k mod 8 < 8" by simp
    ultimately show ?thesis by linarith
  qed
  have h: "packet_size_of h = Some (of_nat (length d))" "length d \<le> 1024" "min n 1024 \<le> length d"
      "1024 < n \<Longrightarrow> length d = 1024"
    using p by (auto simp: upload_packet_def min_def split: if_splits)
  show ?case
  proof (cases "n = 0")
    case False
    have "stream_ok (off + n) (off + length d) (upload_packets mem (a + of_nat (min n 1024)) (n - min n 1024))"
    proof (cases "1024 < n")
      case True
      then have e: "off + 1024 + (n - min n 1024) = off + n" by simp
      have "stream_ok (off + 1024 + (n - min n 1024)) (off + 1024) (upload_packets mem (a + of_nat (min n 1024)) (n - min n 1024))"
        by (rule "1.IH") (use False 1(2) in simp_all)
      then show ?thesis unfolding e using h(4) True by simp
    qed (use h in simp)
    then show ?thesis using False p off h
      by (simp add: upload_packets.simps [of mem a n] YMODEM_PACKET_SIZE_def del: packet_size_of.simps)
  qed simp
qed

lemma tx_put_buf [simp]:
  "tx_bytes (serial_put_buf bs s) = tx_bytes s @ (if g_uart_mute s then [] else bs)"
proof -
  have "List.map_filter (\<lambda>e. case e of Tx b \<Rightarrow> Some b | _ \<Rightarrow> None) (map Tx bs) = bs"
    by (induction bs) (simp_all add: map_filter_simps)
  then show ?thesis
    by (simp add: serial_put_buf_def check_uart_mute_def tx_bytes_def map_filter_def)
qed

lemma mute_put_buf [simp]: "g_uart_mute (serial_put_buf bs s) = g_uart_mute s"
  by (simp add: serial_put_buf_def)

lemma upload_loop_acks:
  assumes "unat (ul_length c - ul_offset c) = n" and "\<not> g_uart_mute s" and "length (ul_buffer c) = UPLOAD_BUFF_LEN"
    and "ul_status c = (if 0 < n then UPLOAD_WAIT_INTER_ACK else UPLOAD_WAIT_FINAL_ACK)"
  shows "\<exists>c' s'. upload_loop mem (replicate (length (upload_packets mem (ul_addr c + ul_offset c) n)) (Some YMODEM_ACK) @ xs) c t s
      = upload_loop mem xs c' t s' \<and> ul_status c' = UPLOAD_WAIT_FINAL_ACK \<and> length (ul_buffer c') = UPLOAD_BUFF_LEN
    \<and> tx_bytes s' = tx_bytes s @ frames_of (ul_seq c + 1) (upload_packets mem (ul_addr c + ul_offset c) n)
    \<and> \<not> g_uart_mute s' \<and> same_storage s s'"
  using assms
proof (induction n arbitrary: c s rule: less_induct)
  case (less n)
  show ?case
  proof (cases "n = 0")
    case True
    then show ?thesis using less.prems by (intro exI [of _ c] exI [of _ s]) simp
  next
    case False
    let ?a = "ul_addr c + ul_offset c" and ?m = "min n 1024"
    let ?c0 = "c\<lparr>ul_can_cnt := 0, ul_retry := 0\<rparr>"
    obtain h d where p: "upload_packet mem ?a n = (h, d)" by fastforce
    obtain buf where sd: "upload_send_data mem ?c0 s =
        (?c0\<lparr>ul_status := (if 1024 < n then UPLOAD_WAIT_INTER_ACK else UPLOAD_WAIT_FINAL_ACK),
           ul_seq := ul_seq c + 1, ul_buffer := buf, ul_offset := ul_offset c + of_nat ?m\<rparr>,
         boot_wdt_kick (serial_put_buf (ymodem_frame h (ul_seq c + 1) d) s))" "length buf = UPLOAD_BUFF_LEN"
      using upload_data_frame [of ?c0 n mem h d s] less.prems(1) p by auto
    let ?c1 = "?c0\<lparr>ul_status := (if 1024 < n then UPLOAD_WAIT_INTER_ACK else UPLOAD_WAIT_FINAL_ACK),
           ul_seq := ul_seq c + 1, ul_buffer := buf, ul_offset := ul_offset c + of_nat ?m\<rparr>"
    let ?s1 = "boot_wdt_kick (serial_put_buf (ymodem_frame h (ul_seq c + 1) d) s)"
    have step: "upload_loop mem (replicate (length (upload_packets mem ?a n)) (Some YMODEM_ACK) @ xs) c t s
        = upload_loop mem (replicate (length (upload_packets mem (?a + of_nat ?m) (n - ?m))) (Some YMODEM_ACK) @ xs) ?c1 t ?s1"
      using False less.prems(4) sd(1)
      by (simp add: upload_packets.simps [of mem ?a n] upload_char_def upload_modem_ack_step_def Let_def)
    have r: "unat (ul_length ?c1 - ul_offset ?c1) = n - ?m"
    proof -
      have u: "unat (of_nat ?m :: u32) = ?m" by (rule unat_of_nat_u32) (simp add: min_def)
      have "of_nat ?m \<le> ul_length c - ul_offset c" unfolding word_le_nat_alt u less.prems(1) by simp
      then have "unat (ul_length c - ul_offset c - of_nat ?m) = n - ?m"
        by (simp only: unat_sub u less.prems(1))
      then show ?thesis by (simp add: algebra_simps)
    qed
    have lt: "n - ?m < n" using False by simp
    have st: "ul_status ?c1 = (if 0 < n - ?m then UPLOAD_WAIT_INTER_ACK else UPLOAD_WAIT_FINAL_ACK)" by auto
    have "\<not> g_uart_mute ?s1" using less.prems(2) by simp
    then obtain c' s' where ih: "upload_loop mem (replicate (length (upload_packets mem (?a + of_nat ?m) (n - ?m))) (Some YMODEM_ACK) @ xs) ?c1 t ?s1
        = upload_loop mem xs c' t s'" "ul_status c' = UPLOAD_WAIT_FINAL_ACK" "length (ul_buffer c') = UPLOAD_BUFF_LEN"
        "tx_bytes s' = tx_bytes ?s1 @ frames_of (ul_seq c + 1 + 1) (upload_packets mem (?a + of_nat ?m) (n - ?m))"
        "\<not> g_uart_mute s'" "same_storage ?s1 s'"
      using less.IH [OF lt r _ _ st, of ?s1] sd(2) by (auto simp: add.assoc)
    have "same_storage s ?s1" by simp
    then have "same_storage s s'" using ih(6) by (rule same_storage_trans)
    then show ?thesis using step ih False p less.prems(2)
      by (intro exI [of _ c'] exI [of _ s']) (simp add: upload_packets.simps [of mem ?a n])
  qed
qed

lemma upload_null_frame:
  assumes "length (ul_buffer c) = UPLOAD_BUFF_LEN"
  obtains buf z where "upload_send_null_info c s =
      (c\<lparr>ul_buffer := buf, ul_status := UPLOAD_WAIT_ZERO_ACK\<rparr>, serial_put_buf (ymodem_frame YMODEM_SOH 0 z) s)"
    and "take 125 z = replicate 125 0" and "drop 125 z = take 3 (drop 128 (ul_buffer c))"
proof -
  let ?b = "ul_buffer c"
  let ?z = "replicate 125 0 @ take 3 (drop 128 ?b)"
  have lb: "length ?b = 1029" using assms by (simp add: UPLOAD_BUFF_LEN_def)
  have "replicate 128 (0 :: u8) = [0, 0, 0] @ replicate 125 0" by (simp add: eval_nat_numeral)
  then have "patch 0 [YMODEM_SOH, 0, 0xFF] (patch 0 (replicate SOH_MSG_LEN 0) ?b)
      = [YMODEM_SOH, 0, 0xFF] @ replicate 125 0 @ drop 128 ?b"
    by (simp add: patch_def SOH_MSG_LEN_def)
  also have "\<dots> = [YMODEM_SOH, 0, NOT 0] @ ?z @ drop 131 ?b"
    using append_take_drop_id [of 3 "drop 128 ?b"] by simp
  finally have b2: "patch 0 [YMODEM_SOH, 0, 0xFF] (patch 0 (replicate SOH_MSG_LEN 0) ?b)
      = [YMODEM_SOH, 0, NOT 0] @ ?z @ drop 131 ?b" .
  have lz: "length ?z = SOH_MSG_LEN" "2 \<le> length (drop 131 ?b)" using lb by (simp_all add: SOH_MSG_LEN_def)
  have t: "take SOH_MSG_TOTAL_LEN (put_crc SOH_MSG_LEN ([YMODEM_SOH, 0, NOT 0] @ ?z @ drop 131 ?b))
      = ymodem_frame YMODEM_SOH 0 ?z"
    using put_crc_frame(1) [OF refl lz, of YMODEM_SOH 0] by (simp add: SOH_MSG_TOTAL_LEN_def SOH_MSG_LEN_def)
  show ?thesis
  proof (rule that [of _ ?z])
    show "upload_send_null_info c s =
      (c\<lparr>ul_buffer := put_crc SOH_MSG_LEN ([YMODEM_SOH, 0, NOT 0] @ ?z @ drop 131 ?b), ul_status := UPLOAD_WAIT_ZERO_ACK\<rparr>,
       serial_put_buf (ymodem_frame YMODEM_SOH 0 ?z) s)"
      unfolding upload_send_null_info_def Let_def b2 t ..
  qed simp_all
qed

lemma upload_loop_spare_acks:
  "ul_status c = UPLOAD_WAIT_EOT_C \<Longrightarrow>
     \<exists>c'. upload_loop mem (replicate j (Some YMODEM_ACK) @ xs) c t s = upload_loop mem xs c' t s
       \<and> ul_status c' = UPLOAD_WAIT_EOT_C \<and> ul_buffer c' = ul_buffer c"
proof (induction j arbitrary: c)
  case (Suc j)
  let ?c = "c\<lparr>ul_can_cnt := 0, ul_retry := 0\<rparr>"
  show ?case using Suc.IH [of ?c] Suc.prems
    by (simp add: upload_char_def upload_modem_ack_step_def)
qed auto

text \<open>The answers that lead an upload of \<open>m\<close> packets to its end.\<close>

definition upload_answers :: "nat \<Rightarrow> nat \<Rightarrow> u8 list" where
  "upload_answers m j = [YMODEM_C, YMODEM_ACK, YMODEM_C] @ replicate (m + j) YMODEM_ACK @ [YMODEM_C, YMODEM_ACK]"

definition fresh_upload :: "u32 \<Rightarrow> nat \<Rightarrow> upload_context" where
  "fresh_upload a len = erased_upload\<lparr>ul_addr := a, ul_length := of_nat len, ul_status := UPLOAD_WAIT_START_C\<rparr>"

lemma upload_run:
  assumes "0 < len" and "len < 2 ^ 31" and "\<not> g_uart_mute s"
    and "rx_in s = map Some (upload_answers (length (upload_packets mem a len)) j) @ rest"
  shows "\<exists>c' s' z. upload_serial_ymodem mem (fresh_upload a len) s = Done (ERRCODE_SUCC, c', s')
    \<and> tx_bytes s' = tx_bytes s @ ymodem_frame YMODEM_SOH 0 (info_data len)
        @ frames_of 1 (upload_packets mem a len) @ [YMODEM_EOT] @ ymodem_frame YMODEM_SOH 0 z
    \<and> rx_in s' = rest \<and> same_storage s s' \<and> take 125 z = replicate 125 0"
proof -
  let ?c = "(fresh_upload a len)\<lparr>ul_can_cnt := 0, ul_retry := 0\<rparr>" and ?n = "length (upload_packets mem a len)"
  have f: "ul_retry ?c = 0" "ul_length ?c = of_nat len" "ul_addr ?c = a" "ul_offset ?c = 0" "ul_seq ?c = 0"
      "ul_status (fresh_upload a len) = UPLOAD_WAIT_START_C"
    by (simp_all add: fresh_upload_def erased_upload_def)
  obtain b1 where i: "upload_send_file_info ?c s = (?c\<lparr>ul_buffer := b1, ul_status := UPLOAD_WAIT_INIT_ACK\<rparr>,
      serial_put_buf (ymodem_frame YMODEM_SOH 0 (info_data len)) s)" "length b1 = UPLOAD_BUFF_LEN"
    using upload_info_frame [OF f(1,2) assms(1,2), of s] f(5) by metis
  let ?s1 = "serial_put_buf (ymodem_frame YMODEM_SOH 0 (info_data len)) s"
  obtain h d where p: "upload_packet mem a len = (h, d)" by fastforce
  let ?c1 = "?c\<lparr>ul_buffer := b1, ul_status := UPLOAD_WAIT_INIT_ACK\<rparr>"
  let ?c2 = "?c1\<lparr>ul_can_cnt := 0, ul_retry := 0, ul_status := UPLOAD_WAIT_TRANS_C, ul_can_cnt := 0, ul_retry := 0\<rparr>"
  have u: "unat (of_nat len :: u32) = len" using assms(2) by (simp add: unat_of_nat)
  obtain b2 where d: "upload_send_data mem ?c2 ?s1 =
      (?c2\<lparr>ul_status := (if 1024 < len then UPLOAD_WAIT_INTER_ACK else UPLOAD_WAIT_FINAL_ACK),
         ul_seq := 1, ul_buffer := b2, ul_offset := of_nat (min len 1024)\<rparr>,
       boot_wdt_kick (serial_put_buf (ymodem_frame h 1 d) ?s1))" "length b2 = UPLOAD_BUFF_LEN"
    using upload_data_frame [of ?c2 len mem h d ?s1] f u p by auto
  let ?c3 = "?c2\<lparr>ul_status := (if 1024 < len then UPLOAD_WAIT_INTER_ACK else UPLOAD_WAIT_FINAL_ACK),
         ul_seq := 1, ul_buffer := b2, ul_offset := of_nat (min len 1024)\<rparr>"
  let ?s3 = "boot_wdt_kick (serial_put_buf (ymodem_frame h 1 d) ?s1)"
  let ?m = "min len 1024" and ?ps = "upload_packets mem (a + of_nat (min len 1024)) (len - min len 1024)"
  have ps: "upload_packets mem a len = (h, d) # ?ps"
    using assms(1) p by (simp add: upload_packets.simps [of mem a len])
  have r: "unat (ul_length ?c3 - ul_offset ?c3) = len - ?m"
    using f(2) u by (simp add: unat_sub word_le_nat_alt unat_of_nat_u32 min_def)
  let ?tail = "Some YMODEM_ACK # replicate j (Some YMODEM_ACK) @ [Some YMODEM_C, Some YMODEM_ACK] @ rest"
  have head: "upload_serial_ymodem mem (fresh_upload a len) s
      = upload_loop mem (replicate (length ?ps) (Some YMODEM_ACK) @ ?tail) ?c3 2000000 ?s3"
  proof -
    have "map Some (upload_answers (length (upload_packets mem a len)) j) @ rest
        = [Some YMODEM_C, Some YMODEM_ACK, Some YMODEM_C] @ replicate (length ?ps) (Some YMODEM_ACK) @ ?tail"
      by (simp add: upload_answers_def ps replicate_add replicate_app_Cons_same map_replicate)
    then show ?thesis
      unfolding upload_serial_ymodem_def assms(4)
      using i d f(6) by (simp add: upload_char_def upload_modem_c_step_def upload_modem_ack_step_def)
  qed
  have pr: "\<not> g_uart_mute ?s3" "length (ul_buffer ?c3) = UPLOAD_BUFF_LEN"
      "ul_status ?c3 = (if 0 < len - ?m then UPLOAD_WAIT_INTER_ACK else UPLOAD_WAIT_FINAL_ACK)"
    using assms(3) d(2) by auto
  have ad: "ul_addr ?c3 + ul_offset ?c3 = a + of_nat ?m" "ul_seq ?c3 + 1 = 2" using f(3) by simp_all
  obtain c4 s4 where l: "upload_loop mem (replicate (length ?ps) (Some YMODEM_ACK) @ ?tail) ?c3 2000000 ?s3
      = upload_loop mem ?tail c4 2000000 s4" "ul_status c4 = UPLOAD_WAIT_FINAL_ACK" "length (ul_buffer c4) = UPLOAD_BUFF_LEN"
      "tx_bytes s4 = tx_bytes ?s3 @ frames_of 2 ?ps" "\<not> g_uart_mute s4" "same_storage ?s3 s4"
    using upload_loop_acks [OF r pr, of mem ?tail 2000000] unfolding ad by blast
  let ?c5 = "c4\<lparr>ul_can_cnt := 0, ul_retry := 0, ul_status := UPLOAD_WAIT_EOT_C\<rparr>"
  let ?s5 = "serial_putc YMODEM_EOT s4"
  obtain c6 where e: "upload_loop mem (replicate j (Some YMODEM_ACK) @ [Some YMODEM_C, Some YMODEM_ACK] @ rest) ?c5 2000000 ?s5
      = upload_loop mem ([Some YMODEM_C, Some YMODEM_ACK] @ rest) c6 2000000 ?s5"
      "ul_status c6 = UPLOAD_WAIT_EOT_C" "ul_buffer c6 = ul_buffer c4"
    using upload_loop_spare_acks [of ?c5 mem j "[Some YMODEM_C, Some YMODEM_ACK] @ rest" 2000000 ?s5]
    by (auto simp del: upload_loop.simps)
  let ?c7 = "c6\<lparr>ul_can_cnt := 0, ul_retry := 0\<rparr>"
  obtain b8 z where n: "upload_send_null_info ?c7 ?s5 =
      (?c7\<lparr>ul_buffer := b8, ul_status := UPLOAD_WAIT_ZERO_ACK\<rparr>, serial_put_buf (ymodem_frame YMODEM_SOH 0 z) ?s5)"
      "take 125 z = replicate 125 0"
  proof -
    have "length (ul_buffer ?c7) = UPLOAD_BUFF_LEN" using e(3) l(3) by simp
    then show ?thesis by (rule upload_null_frame [of ?c7 ?s5]) (rule that)
  qed
  let ?s8 = "serial_put_buf (ymodem_frame YMODEM_SOH 0 z) ?s5"
  have fin: "\<exists>c'. upload_serial_ymodem mem (fresh_upload a len) s
      = Done (ERRCODE_SUCC, c', (mdelay 100 ?s8)\<lparr>rx_in := rest\<rparr>)"
    unfolding head l(1) using l(2) e n
    by (simp add: upload_char_def upload_modem_c_step_def upload_modem_ack_step_def)
  have "same_storage s ?s3" by simp
  then have "same_storage s s4" using l(6) by (rule same_storage_trans)
  then have ss: "same_storage s ((mdelay 100 ?s8)\<lparr>rx_in := rest\<rparr>)" by simp
  have tx: "tx_bytes ((mdelay 100 ?s8)\<lparr>rx_in := rest\<rparr>) = tx_bytes s @ ymodem_frame YMODEM_SOH 0 (info_data len)
        @ frames_of 1 (upload_packets mem a len) @ [YMODEM_EOT] @ ymodem_frame YMODEM_SOH 0 z"
    using l(4,5) assms(3) ps by simp
  have rx: "rx_in ((mdelay 100 ?s8)\<lparr>rx_in := rest\<rparr>) = rest" by simp
  show ?thesis using fin tx rx ss n(2) by blast
qed

text \<open>C34: An upload whose packets are acknowledged sends the file information, the memory from the
  requested address packet by packet, the end mark and a packet without a name, and succeeds; extra
  acknowledgments in front of the last request do no harm.\<close>

theorem upload_sends_memory:
  assumes "0 < len" and "len < 2 ^ 31" and "\<not> g_uart_mute s"
    and "rx_in s = map Some (upload_answers (length (upload_packets mem a len)) j) @ rest"
  shows "\<exists>c' s' z. upload_serial_ymodem mem (fresh_upload a len) s = Done (ERRCODE_SUCC, c', s')
    \<and> tx_bytes s' = tx_bytes s @ ymodem_frame YMODEM_SOH 0 (info_data len)
        @ frames_of 1 (upload_packets mem a len) @ [YMODEM_EOT] @ ymodem_frame YMODEM_SOH 0 z
    \<and> take len (payload_of (upload_packets mem a len)) = upload_mem mem a len
    \<and> rx_in s' = rest \<and> same_storage s s'"
  using upload_run [OF assms] upload_packets_payload [of len mem a] by blast

lemma upload_sends_memory_witness:
  "\<exists>c' s' z. upload_serial_ymodem (\<lambda>x. ucast x) (fresh_upload 0x200000 2000)
      (idle_line (map Some (upload_answers (length (upload_packets (\<lambda>x. ucast x) 0x200000 2000)) 1) @ []))
      = Done (ERRCODE_SUCC, c', s')
    \<and> tx_bytes s' = tx_bytes (idle_line []) @ ymodem_frame YMODEM_SOH 0 (info_data 2000)
        @ frames_of 1 (upload_packets (\<lambda>x. ucast x) 0x200000 2000) @ [YMODEM_EOT] @ ymodem_frame YMODEM_SOH 0 z"
  using upload_sends_memory [of 2000 "idle_line (map Some (upload_answers (length (upload_packets (\<lambda>x. ucast x) 0x200000 2000)) 1) @ [])"
      "\<lambda>x. ucast x" "0x200000" 1 "[]"]
  by (auto simp: idle_line_def tx_bytes_def)

section \<open>From one device to another\<close>

lemma info_data_shape:
  assumes "len < 2 ^ 31"
  shows "info_data len = map of_char ''upload.bin'' @ 0 # decimal len @ 0 # replicate (116 - length (decimal len)) 0"
    and "length (info_data len) = 128"
proof -
  have n: "length (decimal len) \<le> 10" using length_decimal31 [OF assms] .
  then have "117 - length (decimal len) = Suc (116 - length (decimal len))" by simp
  then show "info_data len = map of_char ''upload.bin'' @ 0 # decimal len @ 0 # replicate (116 - length (decimal len)) 0"
    by (simp add: info_data_def upload_file_name_def)
  show "length (info_data len) = 128" using n by (simp add: info_data_def)
qed

text \<open>A loader that can take a file of \<open>len\<close> bytes at the flash address \<open>base\<close>.\<close>

definition ready_for :: "u32 \<Rightarrow> nat \<Rightarrow> 'a ymodem_context_scheme \<Rightarrow> bool" where
  "ready_for base len r = (unat base + len < 0x800000 \<and> flash_accepts r \<and> length (packet r) = YMODEM_PACKET_SIZE)"

text \<open>C35: What the upload routine of one device sends is what the download routine of another
  accepts: fed with those bytes, the downloading loader succeeds, and where its flash was blank it
  holds exactly the memory that was uploaded. This routine erases nothing: over other contents the flash
  holds the AND of the two. The rest of the flash is unchanged.\<close>

theorem upload_then_download:
  assumes "0 < len" and "\<not> g_uart_mute s" and "tx_bytes s = []"
    and "rx_in s = map Some (upload_answers (length (upload_packets mem a len)) j) @ rest"
    and "len \<le> 0x400000"
  shows "\<exists>c' s'. upload_serial_ymodem mem (fresh_upload a len) s = Done (ERRCODE_SUCC, c', s')
    \<and> (\<forall>r. ready_for base len r \<and> rx_in r = map Some (tx_bytes s') \<longrightarrow>
        (\<exists>r'. loader_serial_ymodem (base + FLASH_START) 0 0 0x400000 r = (ERRCODE_SUCC, r')
          \<and> flash_image (flash_log r') m = program_bytes base (upload_mem mem a len) (flash_image (flash_log r) m)
          \<and> (blank base len (flash_image (flash_log r) m) \<longrightarrow>
              flash_image (flash_log r') m = store_bytes base (upload_mem mem a len) (flash_image (flash_log r) m))))"
proof -
  have l31: "len < 2 ^ 31" using assms(5) by simp
  let ?cs = "upload_packets mem a len"
  obtain c' s' z where u: "upload_serial_ymodem mem (fresh_upload a len) s = Done (ERRCODE_SUCC, c', s')"
      "tx_bytes s' = ymodem_frame YMODEM_SOH 0 (info_data len) @ frames_of 1 ?cs @ [YMODEM_EOT] @ ymodem_frame YMODEM_SOH 0 z"
    using upload_run [OF assms(1) l31 assms(2,4)] assms(3) by auto
  have ok: "stream_ok len 0 ?cs" using upload_packets_stream [of 0 len mem a] by simp
  have L: "length (upload_mem mem a len) = len" by simp
  have "\<exists>r'. loader_serial_ymodem (base + FLASH_START) 0 0 0x400000 r = (ERRCODE_SUCC, r')
      \<and> flash_image (flash_log r') m = program_bytes base (upload_mem mem a len) (flash_image (flash_log r) m)"
    if r: "ready_for base len r" "rx_in r = map Some (tx_bytes s')" for r :: "'b ymodem_context_scheme"
  proof (rule download_complete [where img = "upload_mem mem a len" and h = YMODEM_SOH and n = 128 and data = "info_data len"
        and name = "map of_char ''upload.bin''" and pad = "replicate (116 - length (decimal len)) 0"
        and cs = ?cs and rest = "map Some ([YMODEM_EOT] @ ymodem_frame YMODEM_SOH 0 z)", unfolded L])
    show "rx_in r = map Some (ymodem_frame YMODEM_SOH 0 (info_data len) @ frames_of 1 ?cs)
        @ map Some ([YMODEM_EOT] @ ymodem_frame YMODEM_SOH 0 z)"
      using r(2) u(2) by simp
    show "take len (payload_of ?cs) = upload_mem mem a len" by (rule upload_packets_payload)
    show "upload_mem mem a len \<noteq> []" using assms(1) by (simp add: upload_mem_def)
  qed (use r(1) ok assms(1) assms(5) info_data_shape [OF l31] in \<open>simp_all add: ready_for_def\<close>)
  then show ?thesis using u(1) program_blank [of base "upload_mem mem a len"] unfolding L by (metis (no_types, lifting))
qed

lemma upload_then_download_witness:
  "\<exists>s' r'. loader_serial_ymodem (0x10000 + FLASH_START) 0 0 0x400000 (loader_idle (map Some (tx_bytes (s' :: boot_io))))
       = (ERRCODE_SUCC, r')
     \<and> flash_image (flash_log r') (\<lambda>_. 0xFF) = store_bytes 0x10000 (upload_mem (\<lambda>x. ucast x) 0x200000 2000) (\<lambda>_. 0xFF)"
proof -
  let ?in = "map Some (upload_answers (length (upload_packets (\<lambda>x. ucast x) 0x200000 2000)) 1) @ []"
  have lt: "(0 :: nat) < 2000" and le: "(2000 :: nat) \<le> 0x400000" by simp_all
  have p: "\<not> g_uart_mute (idle_line ?in)" "tx_bytes (idle_line ?in) = []" "rx_in (idle_line ?in) = ?in"
    by (simp_all add: idle_line_def tx_bytes_def)
  obtain s' :: boot_io where s': "\<forall>r :: ymodem_context. ready_for 0x10000 2000 r \<and> rx_in r = map Some (tx_bytes s') \<longrightarrow>
        (\<exists>r'. loader_serial_ymodem (0x10000 + FLASH_START) 0 0 0x400000 r = (ERRCODE_SUCC, r')
          \<and> (blank 0x10000 2000 (flash_image (flash_log r) (\<lambda>_. 0xFF)) \<longrightarrow> flash_image (flash_log r') (\<lambda>_. 0xFF)
            = store_bytes 0x10000 (upload_mem (\<lambda>x. ucast x) 0x200000 2000) (flash_image (flash_log r) (\<lambda>_. 0xFF))))"
    using upload_then_download [OF lt p le, of "0x10000" "\<lambda>_. 0xFF"] by blast
  have "ready_for 0x10000 2000 (loader_idle (map Some (tx_bytes s')))"
    by (simp add: ready_for_def loader_idle_def flash_accepts_def YMODEM_PACKET_SIZE_def)
  moreover have "rx_in (loader_idle xs) = xs" "flash_log (loader_idle xs) = []" for xs
    by (simp_all add: loader_idle_def flash_log_def)
  moreover have "blank 0x10000 2000 (\<lambda>_. 0xFF)" by (simp add: blank_def)
  ultimately show ?thesis using s' by (metis flash_image.simps(1))
qed

end
