(* ===== verification/EfuseDriver.thy ===== *)
theory EfuseDriver
  imports Prelude
begin

text \<open>
  The eFuse of the chip: hal_efuse_v151.c with its register operations, and the driver interface
  driver/efuse/efuse.c.

  The device is the hardware contract of one-time programmable memory: 16-bit words at register
  addresses; a load in read mode returns the word, a store in write mode with the programming voltage
  on sets the bits that are 1 in the value and never clears one. In any other mode a store has no
  effect and a load reads 0 (the driver never does either, as the properties below show through
  their exact results).

  The functions of efuse.c call the hardware layer through the table of \<open>hal_efuse_get_funcs\<close>, which is NULL before
  \<open>uapi_efuse_init\<close> and again behind \<open>uapi_efuse_deinit\<close>, and none but the latter tests it. A call through a NULL table
  or a NULL entry is undefined: the model records it in \<open>efuse_fault\<close> and leaves the state as it was at the
  call, with the interrupts locked where the code locks them before; nothing is claimed of what happens behind it.
\<close>

section \<open>The device\<close>

text \<open>
  The registers by their bit fields, the fuse array, the interrupt enable that \<open>osal_irq_lock\<close>
  clears, and the time spent in \<open>uapi_tcxo_delay_us\<close>.
\<close>

record efuse_dev =
  g_hal_efuses_funcs :: bool
  g_efuse_is_init :: bool
  g_efuse_clock_period :: u32
  clock_period :: u8
  efuse_wr_rd :: u16
  efuse_avdd_sw :: bool
  efuse_word :: "u32 \<Rightarrow> u16"
  irq_enabled :: bool
  efuse_us :: nat
  efuse_fault :: bool

definition efuse_load :: "u32 \<Rightarrow> efuse_dev \<Rightarrow> u32" where
  "efuse_load a e = (if efuse_wr_rd e = 0x5a5a then ucast (efuse_word e a) else 0)"

definition efuse_store :: "u32 \<Rightarrow> u32 \<Rightarrow> efuse_dev \<Rightarrow> efuse_dev" where
  "efuse_store a v e =
     (if efuse_wr_rd e = 0xa5a5 \<and> efuse_avdd_sw e
      then e\<lparr>efuse_word := (efuse_word e)(a := efuse_word e a OR ucast v)\<rparr> else e)"

definition tcxo_delay_us :: "nat \<Rightarrow> efuse_dev \<Rightarrow> efuse_dev" where
  "tcxo_delay_us n e = e\<lparr>efuse_us := efuse_us e + n\<rparr>"

definition irq_lock :: "efuse_dev \<Rightarrow> bool \<times> efuse_dev" where
  "irq_lock e = (irq_enabled e, e\<lparr>irq_enabled := False\<rparr>)"

definition irq_restore :: "bool \<Rightarrow> efuse_dev \<Rightarrow> efuse_dev" where
  "irq_restore sts e = e\<lparr>irq_enabled := sts\<rparr>"

section \<open>hal_efuse_v151.c\<close>

abbreviation (input) ERRCODE_EFUSE_INVALID_PARAM :: u32 where "ERRCODE_EFUSE_INVALID_PARAM \<equiv> 0x80001390"
abbreviation (input) ERRCODE_EFUSE_NOT_INIT :: u32 where "ERRCODE_EFUSE_NOT_INIT \<equiv> 0x80001391"

definition EFUSE_MAX_BYTES :: u32 where "EFUSE_MAX_BYTES = 256"
definition EFUSE_MAX_BIT_POS :: u8 where "EFUSE_MAX_BIT_POS = 8"
definition HAL_EFUSE0_READ_BASE_ADDR :: u32 where "HAL_EFUSE0_READ_BASE_ADDR = 0x44008800"

definition hal_efuse_ctl_set :: "u32 \<Rightarrow> efuse_dev \<Rightarrow> efuse_dev" where
  "hal_efuse_ctl_set val e = e\<lparr>efuse_wr_rd := ucast val\<rparr>"

definition hal_efuse_clock_period_set :: "u32 \<Rightarrow> efuse_dev \<Rightarrow> efuse_dev" where
  "hal_efuse_clock_period_set val e = e\<lparr>clock_period := ucast val\<rparr>"

definition hal_efuse_avdd_ctl_set :: "u32 \<Rightarrow> efuse_dev \<Rightarrow> efuse_dev" where
  "hal_efuse_avdd_ctl_set val e = e\<lparr>efuse_avdd_sw := odd val\<rparr>"

definition hal_efuse_set_clock_period :: "u32 \<Rightarrow> efuse_dev \<Rightarrow> efuse_dev" where
  "hal_efuse_set_clock_period val e = e\<lparr>g_efuse_clock_period := val\<rparr>"

definition hal_efuse_init :: "efuse_dev \<Rightarrow> u32 \<times> efuse_dev" where
  "hal_efuse_init e =
     (ERRCODE_SUCC, (hal_efuse_clock_period_set (g_efuse_clock_period e) e)\<lparr>g_efuse_is_init := True\<rparr>)"

definition hal_efuse_deinit :: "efuse_dev \<Rightarrow> efuse_dev" where
  "hal_efuse_deinit e = e\<lparr>g_efuse_is_init := False\<rparr>"

definition hal_efuse_get_byte_offset :: "u32 \<Rightarrow> u16" where
  "hal_efuse_get_byte_offset b = ucast (b mod EFUSE_MAX_BYTES)"

text \<open>There is one region, whose index is 0 for every valid byte.\<close>

definition hal_efuse_get_writeread_addr :: "u32 \<Rightarrow> u32" where
  "hal_efuse_get_writeread_addr b =
     HAL_EFUSE0_READ_BASE_ADDR + push_bit 2 (drop_bit 1 (ucast (hal_efuse_get_byte_offset b)))"

text \<open>\<open>Inl\<close> an error code, \<open>Inr\<close> the value stored through the pointer.\<close>

definition hal_efuse_read_byte :: "u32 \<Rightarrow> efuse_dev \<Rightarrow> (u32 + u8) \<times> efuse_dev" where
  "hal_efuse_read_byte b e =
     (if \<not> g_efuse_is_init e then (Inl ERRCODE_EFUSE_NOT_INIT, e)
      else if EFUSE_MAX_BYTES \<le> b then (Inl ERRCODE_INVALID_PARAM, e)
      else
        let a = hal_efuse_get_writeread_addr b; e1 = hal_efuse_ctl_set 0x5a5a e
        in (Inr (if b mod 2 \<noteq> 0 then ucast (drop_bit 8 (efuse_load a e1) AND 0xFF)
                 else ucast (efuse_load a e1 AND 0xFF)), e1))"

definition hal_efuse_write_operation :: "u32 \<Rightarrow> u8 \<Rightarrow> efuse_dev \<Rightarrow> u32 \<times> efuse_dev" where
  "hal_efuse_write_operation b v e =
     (if \<not> g_efuse_is_init e then (ERRCODE_EFUSE_NOT_INIT, e)
      else if EFUSE_MAX_BYTES \<le> b then (ERRCODE_INVALID_PARAM, e)
      else
        let e1 = tcxo_delay_us 100 (hal_efuse_avdd_ctl_set 1 (hal_efuse_ctl_set 0xa5a5 e));
            a = hal_efuse_get_writeread_addr b;
            e2 = efuse_store a (if b mod 2 \<noteq> 0 then push_bit 8 (ucast v) else ucast v) e1
        in (ERRCODE_SUCC, tcxo_delay_us 100 (hal_efuse_avdd_ctl_set 0 e2)))"

text \<open>The loops over a buffer, from its first byte and the address of that byte.\<close>

fun write_loop :: "u32 \<Rightarrow> u8 list \<Rightarrow> efuse_dev \<Rightarrow> u32 \<times> efuse_dev" where
  "write_loop b [] e = (ERRCODE_SUCC, e)"
| "write_loop b (v # vs) e =
     (let (ret, e1) = hal_efuse_write_operation b v e
      in if ret \<noteq> ERRCODE_SUCC then (ERRCODE_FAIL, e1) else write_loop (b + 1) vs e1)"

definition hal_efuse_write_buffer_operation :: "u32 \<Rightarrow> u8 list \<Rightarrow> efuse_dev \<Rightarrow> u32 \<times> efuse_dev" where
  "hal_efuse_write_buffer_operation b vs e =
     (if \<not> g_efuse_is_init e then (ERRCODE_EFUSE_NOT_INIT, e) else write_loop b vs e)"

fun read_loop :: "u32 \<Rightarrow> u8 list \<Rightarrow> efuse_dev \<Rightarrow> u32 \<times> u8 list \<times> efuse_dev" where
  "read_loop b [] e = (ERRCODE_SUCC, [], e)"
| "read_loop b (x # xs) e =
     (case hal_efuse_read_byte b e of
        (Inl err, e1) \<Rightarrow> (ERRCODE_FAIL, x # xs, e1)
      | (Inr v, e1) \<Rightarrow> let (ret, ys, e2) = read_loop (b + 1) xs e1 in (ret, v # ys, e2))"

definition hal_efuse_get_die_id :: "u8 list \<Rightarrow> efuse_dev \<Rightarrow> u32 \<times> u8 list \<times> efuse_dev" where
  "hal_efuse_get_die_id buf e =
     (if \<not> g_efuse_is_init e then (ERRCODE_EFUSE_NOT_INIT, buf, e) else read_loop 0 buf e)"

section \<open>efuse.c\<close>

text \<open>
  A buffer and its length are one list, a NULL pointer is \<open>None\<close>. A reader gets the buffer it fills
  and returns it, because a failure leaves the bytes read so far.
\<close>

text \<open>The table, registered or NULL, and the call of a function that is not there.\<close>

definition hal_efuse_register_funcs :: "bool \<Rightarrow> efuse_dev \<Rightarrow> u32 \<times> efuse_dev" where
  "hal_efuse_register_funcs funcs e =
     (if \<not> funcs then (ERRCODE_INVALID_PARAM, e) else (ERRCODE_SUCC, e\<lparr>g_hal_efuses_funcs := funcs\<rparr>))"

definition hal_efuse_unregister_funcs :: "efuse_dev \<Rightarrow> u32 \<times> efuse_dev" where
  "hal_efuse_unregister_funcs e = (ERRCODE_SUCC, e\<lparr>g_hal_efuses_funcs := False\<rparr>)"

definition efuse_port_register_hal_funcs :: "efuse_dev \<Rightarrow> efuse_dev" where
  "efuse_port_register_hal_funcs e = snd (hal_efuse_register_funcs True e)"

definition efuse_port_unregister_hal_funcs :: "efuse_dev \<Rightarrow> efuse_dev" where
  "efuse_port_unregister_hal_funcs e = snd (hal_efuse_unregister_funcs e)"

lemma port_funcs [simp]:
  "efuse_port_register_hal_funcs e = e\<lparr>g_hal_efuses_funcs := True\<rparr>"
  "efuse_port_unregister_hal_funcs e = e\<lparr>g_hal_efuses_funcs := False\<rparr>"
  by (simp_all add: efuse_port_register_hal_funcs_def hal_efuse_register_funcs_def
      efuse_port_unregister_hal_funcs_def hal_efuse_unregister_funcs_def)

definition null_call :: "efuse_dev \<Rightarrow> efuse_dev" where
  "null_call e = e\<lparr>efuse_fault := True\<rparr>"

definition uapi_efuse_init :: "efuse_dev \<Rightarrow> u32 \<times> efuse_dev" where
  "uapi_efuse_init e =
     (let (ret, e1) = hal_efuse_init (efuse_port_register_hal_funcs e)
      in if ret \<noteq> ERRCODE_SUCC then (ret, e1) else (ERRCODE_SUCC, e1))"

definition uapi_efuse_deinit :: "efuse_dev \<Rightarrow> u32 \<times> efuse_dev" where
  "uapi_efuse_deinit e =
     (ERRCODE_SUCC, efuse_port_unregister_hal_funcs (if g_hal_efuses_funcs e then hal_efuse_deinit e else e))"

definition uapi_efuse_read_bit :: "u32 \<Rightarrow> u8 \<Rightarrow> efuse_dev \<Rightarrow> (u32 + u8) \<times> efuse_dev" where
  "uapi_efuse_read_bit b pos e =
     (if EFUSE_MAX_BYTES \<le> b \<or> EFUSE_MAX_BIT_POS \<le> pos then (Inl ERRCODE_FAIL, e)
      else
        let (sts, e1) = irq_lock e
        in if \<not> g_hal_efuses_funcs e1 then (Inl ERRCODE_FAIL, null_call e1)
           else case hal_efuse_read_byte b e1 of
             (Inr v, e2) \<Rightarrow> (Inr (drop_bit (unat pos) v AND 1), irq_restore sts e2)
           | (Inl err, e2) \<Rightarrow> (Inl ERRCODE_FAIL, irq_restore sts e2))"

definition bad_range :: "u32 \<Rightarrow> nat \<Rightarrow> bool" where
  "bad_range b n = (n = 0 \<or> EFUSE_MAX_BYTES \<le> b \<or> EFUSE_MAX_BYTES < b + of_nat n)"

definition uapi_efuse_read_buffer :: "u32 \<Rightarrow> u8 list option \<Rightarrow> efuse_dev \<Rightarrow> u32 \<times> u8 list option \<times> efuse_dev" where
  "uapi_efuse_read_buffer b buf e =
     (case buf of None \<Rightarrow> (ERRCODE_FAIL, None, e)
      | Some xs \<Rightarrow>
          if bad_range b (length xs) then (ERRCODE_FAIL, buf, e)
          else
            let (sts, e1) = irq_lock e
            in if \<not> g_hal_efuses_funcs e1 then (ERRCODE_FAIL, buf, null_call e1)
               else let (ret, ys, e2) = read_loop b xs e1
                 in (ret, Some ys, irq_restore sts e2))"

definition uapi_efuse_write_bit :: "u32 \<Rightarrow> u8 \<Rightarrow> efuse_dev \<Rightarrow> u32 \<times> efuse_dev" where
  "uapi_efuse_write_bit b pos e =
     (if EFUSE_MAX_BYTES \<le> b \<or> EFUSE_MAX_BIT_POS \<le> pos then (ERRCODE_FAIL, e)
      else
        let (sts, e1) = irq_lock e
        in if \<not> g_hal_efuses_funcs e1 then (ERRCODE_FAIL, null_call e1)
           else case hal_efuse_read_byte b e1 of
             (Inl err, e2) \<Rightarrow> (ERRCODE_FAIL, irq_restore sts e2)
           | (Inr v, e2) \<Rightarrow>
               if v AND push_bit (unat pos) 1 \<noteq> 0 then (ERRCODE_INVALID_PARAM, irq_restore sts e2)
               else let (ret, e3) = hal_efuse_write_operation b (push_bit (unat pos) 1) e2
                    in (if ret = ERRCODE_SUCC then ERRCODE_SUCC else ERRCODE_FAIL, irq_restore sts e3))"

definition EFUSE_WRITE_PROTECT_FLAG :: u32 where "EFUSE_WRITE_PROTECT_FLAG = 0x5A5A5A5A"

definition uapi_efuse_write_bit_with_flag :: "u32 \<Rightarrow> u8 \<Rightarrow> u32 \<Rightarrow> efuse_dev \<Rightarrow> u32 \<times> efuse_dev" where
  "uapi_efuse_write_bit_with_flag b pos flag e =
     (if flag \<noteq> EFUSE_WRITE_PROTECT_FLAG then (ERRCODE_EFUSE_INVALID_PARAM, e)
      else if EFUSE_MAX_BYTES \<le> b \<or> EFUSE_MAX_BIT_POS \<le> pos then (ERRCODE_FAIL, e)
      else
        let (sts, e1) = irq_lock e
        in if \<not> g_hal_efuses_funcs e1 then (ERRCODE_FAIL, null_call e1)
           else case hal_efuse_read_byte b e1 of
             (Inl err, e2) \<Rightarrow> (ERRCODE_FAIL, irq_restore sts e2)
           | (Inr v, e2) \<Rightarrow>
               if v AND push_bit (unat pos) 1 \<noteq> 0 then (ERRCODE_INVALID_PARAM, irq_restore sts e2)
               else let (ret, e3) = hal_efuse_write_operation b (push_bit (unat pos) 1) e2
                    in (if ret = ERRCODE_SUCC then ERRCODE_SUCC else ERRCODE_FAIL, irq_restore sts e3))"

definition efuse_write_param_check :: "u32 \<Rightarrow> u8 list option \<Rightarrow> u32" where
  "efuse_write_param_check b buf =
     (case buf of None \<Rightarrow> ERRCODE_FAIL
      | Some xs \<Rightarrow> if bad_range b (length xs) then ERRCODE_FAIL else ERRCODE_SUCC)"

definition uapi_efuse_write_buffer :: "u32 \<Rightarrow> u8 list option \<Rightarrow> efuse_dev \<Rightarrow> u32 \<times> efuse_dev" where
  "uapi_efuse_write_buffer b buf e =
     (if efuse_write_param_check b buf \<noteq> ERRCODE_SUCC then (ERRCODE_EFUSE_INVALID_PARAM, e)
      else
        let (sts, e1) = irq_lock e
        in if \<not> g_hal_efuses_funcs e1 then (ERRCODE_FAIL, null_call e1)
           else let (ret, e2) = hal_efuse_write_buffer_operation b (the buf) e1
             in (if ret \<noteq> ERRCODE_SUCC then ERRCODE_FAIL else ERRCODE_SUCC, irq_restore sts e2))"

definition uapi_efuse_write_buffer_with_flag ::
    "u32 \<Rightarrow> u8 list option \<Rightarrow> u32 \<Rightarrow> efuse_dev \<Rightarrow> u32 \<times> efuse_dev" where
  "uapi_efuse_write_buffer_with_flag b buf flag e =
     (if flag \<noteq> EFUSE_WRITE_PROTECT_FLAG then (ERRCODE_EFUSE_INVALID_PARAM, e)
      else if efuse_write_param_check b buf \<noteq> ERRCODE_SUCC then (ERRCODE_EFUSE_INVALID_PARAM, e)
      else
        let (sts, e1) = irq_lock e
        in if \<not> g_hal_efuses_funcs e1 then (ERRCODE_FAIL, null_call e1)
           else let (ret, e2) = hal_efuse_write_buffer_operation b (the buf) e1
             in (if ret \<noteq> ERRCODE_SUCC then ERRCODE_FAIL else ERRCODE_SUCC, irq_restore sts e2))"

definition uapi_efuse_get_die_id :: "u8 list option \<Rightarrow> efuse_dev \<Rightarrow> u32 \<times> u8 list option \<times> efuse_dev" where
  "uapi_efuse_get_die_id buf e =
     (case buf of None \<Rightarrow> (ERRCODE_FAIL, None, e)
      | Some xs \<Rightarrow>
          if xs = [] then (ERRCODE_FAIL, buf, e)
          else if \<not> g_hal_efuses_funcs e then (ERRCODE_FAIL, buf, null_call e)
          else let (ret, ys, e1) = hal_efuse_get_die_id xs e
               in if ret \<noteq> ERRCODE_SUCC then (ret, Some ys, e1) else (ERRCODE_SUCC, Some ys, e1))"

text \<open>The entry \<open>get_chip_id\<close> of the table of this chip is NULL.\<close>

definition uapi_efuse_get_chip_id :: "u8 list option \<Rightarrow> efuse_dev \<Rightarrow> u32 \<times> u8 list option \<times> efuse_dev" where
  "uapi_efuse_get_chip_id buf e =
     (case buf of None \<Rightarrow> (ERRCODE_FAIL, None, e)
      | Some xs \<Rightarrow> if xs = [] then (ERRCODE_FAIL, buf, e) else (ERRCODE_FAIL, buf, null_call e))"

definition uapi_soc_read_id :: "u8 list option \<Rightarrow> efuse_dev \<Rightarrow> u32 \<times> u8 list option \<times> efuse_dev" where
  "uapi_soc_read_id buf e = uapi_efuse_get_die_id buf e"

fun count_zero_loop :: "nat \<Rightarrow> u8 \<Rightarrow> u8 \<Rightarrow> u8" where
  "count_zero_loop 0 count num_zeroes = num_zeroes"
| "count_zero_loop (Suc n) count num_zeroes =
     count_zero_loop n (drop_bit 1 count) (if count AND 1 = 0 then num_zeroes + 1 else num_zeroes)"

definition efuse_count_zero_in_byte :: "u8 \<Rightarrow> u8" where
  "efuse_count_zero_in_byte v = count_zero_loop 8 v 0"

text \<open>The \<open>crc\<close> pointer is \<open>crc_null\<close> when it is NULL.\<close>

definition uapi_efuse_calc_crc :: "u8 list option \<Rightarrow> bool \<Rightarrow> u32 + u8" where
  "uapi_efuse_calc_crc buf crc_null =
     (case buf of None \<Rightarrow> Inl ERRCODE_EFUSE_INVALID_PARAM
      | Some xs \<Rightarrow>
          if crc_null \<or> 32 < length xs then Inl ERRCODE_EFUSE_INVALID_PARAM
          else Inr (foldl (\<lambda>crc x. crc + efuse_count_zero_in_byte x) 0 xs))"

section \<open>The area of the customer\<close>

text \<open>\<open>len\<close> is the length argument; the buffer is the list of its \<open>len\<close> bytes.\<close>

definition CUSTOMER_RSVD_EFUSE_START_BIT :: u32 where "CUSTOMER_RSVD_EFUSE_START_BIT = 1776"
definition CUSTOMER_RSVD_EFUSE_BIT_LEN :: u32 where "CUSTOMER_RSVD_EFUSE_BIT_LEN = 128"

definition uapi_efuse_user_read_buffer ::
    "u32 \<Rightarrow> u8 list option \<Rightarrow> u16 \<Rightarrow> efuse_dev \<Rightarrow> u32 \<times> u8 list option \<times> efuse_dev" where
  "uapi_efuse_user_read_buffer offset buf len e =
     (if CUSTOMER_RSVD_EFUSE_BIT_LEN < (ucast len + offset) * 8 then (ERRCODE_EFUSE_INVALID_PARAM, buf, e)
      else uapi_efuse_read_buffer (offset + CUSTOMER_RSVD_EFUSE_START_BIT div 8) buf e)"

definition uapi_efuse_user_write_buffer :: "u32 \<Rightarrow> u8 list option \<Rightarrow> u16 \<Rightarrow> efuse_dev \<Rightarrow> u32 \<times> efuse_dev" where
  "uapi_efuse_user_write_buffer offset buf len e =
     (if CUSTOMER_RSVD_EFUSE_BIT_LEN < (ucast len + offset) * 8 then (ERRCODE_EFUSE_INVALID_PARAM, e)
      else uapi_efuse_write_buffer (offset + CUSTOMER_RSVD_EFUSE_START_BIT div 8) buf e)"

definition uapi_efuse_user_write_bit :: "u32 \<Rightarrow> u8 \<Rightarrow> efuse_dev \<Rightarrow> u32 \<times> efuse_dev" where
  "uapi_efuse_user_write_bit byte_offset pos e =
     (if CUSTOMER_RSVD_EFUSE_BIT_LEN < byte_offset * 8 + ucast pos then (ERRCODE_EFUSE_INVALID_PARAM, e)
      else uapi_efuse_write_bit (byte_offset + CUSTOMER_RSVD_EFUSE_START_BIT div 8) pos e)"

definition uapi_efuse_user_read_bit :: "u32 \<Rightarrow> u8 \<Rightarrow> efuse_dev \<Rightarrow> (u32 + u8) \<times> efuse_dev" where
  "uapi_efuse_user_read_bit byte_offset pos e =
     (if CUSTOMER_RSVD_EFUSE_BIT_LEN < byte_offset * 8 + ucast pos then (Inl ERRCODE_EFUSE_INVALID_PARAM, e)
      else uapi_efuse_read_bit (byte_offset + CUSTOMER_RSVD_EFUSE_START_BIT div 8) pos e)"

section \<open>The bytes of the array\<close>

definition efuse_bytes :: "efuse_dev \<Rightarrow> nat \<Rightarrow> u8" where
  "efuse_bytes e k =
     (if k < 256 then
        let w = efuse_word e (HAL_EFUSE0_READ_BASE_ADDR + 4 * of_nat (k div 2))
        in if odd k then ucast (drop_bit 8 w) else ucast w
      else 0)"

text \<open>What programming the bytes \<open>vs\<close> from index \<open>b\<close> makes of an array.\<close>

definition burnt :: "nat \<Rightarrow> u8 list \<Rightarrow> (nat \<Rightarrow> u8) \<Rightarrow> nat \<Rightarrow> u8" where
  "burnt b vs m k = (if b \<le> k \<and> k < b + length vs then m k OR vs ! (k - b) else m k)"

text \<open>What no operation changes.\<close>

definition same_mode :: "efuse_dev \<Rightarrow> efuse_dev \<Rightarrow> bool" where
  "same_mode e e' = (g_hal_efuses_funcs e' = g_hal_efuses_funcs e \<and> g_efuse_is_init e' = g_efuse_is_init e \<and>
     irq_enabled e' = irq_enabled e \<and> efuse_fault e' = efuse_fault e)"

text \<open>Between \<open>uapi_efuse_init\<close> and \<open>uapi_efuse_deinit\<close>.\<close>

definition efuse_ready :: "efuse_dev \<Rightarrow> bool" where
  "efuse_ready e = (g_hal_efuses_funcs e \<and> g_efuse_is_init e)"

lemma same_mode_ready: "same_mode e e' \<Longrightarrow> efuse_ready e' = efuse_ready e"
  by (simp add: same_mode_def efuse_ready_def)

lemma ready_fields [simp]:
  "efuse_ready (e\<lparr>efuse_wr_rd := m\<rparr>) = efuse_ready e" "efuse_ready (e\<lparr>irq_enabled := i\<rparr>) = efuse_ready e"
  by (simp_all add: efuse_ready_def)

lemma efuse_readyD [simp]: "efuse_ready e \<Longrightarrow> g_hal_efuses_funcs e" "efuse_ready e \<Longrightarrow> g_efuse_is_init e"
  by (simp_all add: efuse_ready_def)

lemma init_ready [simp]: "efuse_ready (snd (uapi_efuse_init e))"
  "efuse_fault (snd (uapi_efuse_init e)) = efuse_fault e"
  by (simp_all add: efuse_ready_def uapi_efuse_init_def hal_efuse_init_def
      hal_efuse_clock_period_set_def del: efuse_readyD)

lemma same_mode_refl [simp]: "same_mode e e"
  by (simp add: same_mode_def)

lemma same_mode_trans [trans]: "same_mode a b \<Longrightarrow> same_mode b c \<Longrightarrow> same_mode a c"
  by (simp add: same_mode_def)

lemma word_addr:
  assumes "unat b < 256"
  shows "hal_efuse_get_writeread_addr b = HAL_EFUSE0_READ_BASE_ADDR + 4 * of_nat (unat b div 2)"
proof -
  have "b mod EFUSE_MAX_BYTES = b" using assms by (simp add: EFUSE_MAX_BYTES_def unat_arith_simps)
  moreover have "(ucast (ucast b :: u16) :: u32) = b"
    using assms by (simp add: word_unat_eq_iff unat_ucast_u16_u32 unat_ucast_u32_u16)
  moreover have "drop_bit 1 b = of_nat (unat b div 2)"
    using assms by (simp add: word_unat_eq_iff drop_bit_eq_div unat_div unat_of_nat)
  ultimately show ?thesis
    by (simp add: hal_efuse_get_writeread_addr_def hal_efuse_get_byte_offset_def push_bit_eq_mult mult.commute)
qed

lemma word_index_inj:
  assumes "i < 128" and "j < 128"
  shows "(HAL_EFUSE0_READ_BASE_ADDR + 4 * of_nat i = HAL_EFUSE0_READ_BASE_ADDR + 4 * of_nat j) = (i = j)"
proof -
  have "unat (4 * of_nat n :: u32) = 4 * n" if "n < 128" for n
    using that unat_of_nat_u32 [of "4 * n"] by simp
  then show ?thesis using assms by (metis add_left_cancel mult_left_cancel zero_neq_numeral)
qed

lemma even_byte [simp]: "((b :: u32) mod 2 = 0) = even (unat b)" "(b mod 2 = 1) = odd (unat b)"
  by (simp_all add: unat_arith_simps odd_iff_mod_2_eq_one even_iff_mod_2_eq_zero)

lemma low_byte: "(ucast (ucast (w :: u16) AND 0xFF :: u32) :: u8) = ucast w"
  by (rule bit_word_eqI) (auto simp: bit_ucast_iff bit_and_iff u32_FF_mask bit_mask_iff)

lemma high_byte: "(ucast (drop_bit 8 (ucast (w :: u16)) AND 0xFF :: u32) :: u8) = ucast (drop_bit 8 w)"
  by (rule bit_word_eqI) (auto simp: bit_ucast_iff bit_and_iff u32_FF_mask bit_mask_iff bit_drop_bit_eq)

lemma hal_read_byte:
  assumes "g_efuse_is_init e" and "unat b < 256"
  shows "hal_efuse_read_byte b e = (Inr (efuse_bytes e (unat b)), e\<lparr>efuse_wr_rd := 0x5a5a\<rparr>)"
  using assms
  by (simp add: hal_efuse_read_byte_def Let_def EFUSE_MAX_BYTES_def word_le_nat_alt hal_efuse_ctl_set_def
      efuse_load_def efuse_bytes_def word_addr low_byte high_byte)

lemma or_low: "(ucast (w OR ucast (ucast (v :: u8) :: u32) :: u16) :: u8) = ucast w OR v"
  and or_low_high: "(ucast (drop_bit 8 (w OR ucast (ucast (v :: u8) :: u32) :: u16)) :: u8) = ucast (drop_bit 8 w)"
  and or_high: "(ucast (drop_bit 8 (w OR ucast (push_bit 8 (ucast (v :: u8)) :: u32) :: u16)) :: u8) = ucast (drop_bit 8 w) OR v"
  and or_high_low: "(ucast (w OR ucast (push_bit 8 (ucast (v :: u8)) :: u32) :: u16) :: u8) = ucast w"
  by (rule bit_word_eqI, auto simp: bit_ucast_iff bit_or_iff bit_push_bit_iff bit_drop_bit_eq dest: bit_imp_le_length)+

text \<open>A store to the word of byte \<open>b\<close> while programming is on.\<close>

lemma store_byte:
  assumes "efuse_wr_rd e = 0xa5a5" and "efuse_avdd_sw e" and "unat b < 256"
  shows "efuse_bytes (efuse_store (hal_efuse_get_writeread_addr b)
           (if b mod 2 \<noteq> 0 then push_bit 8 (ucast v) else ucast v) e) = burnt (unat b) [v] (efuse_bytes e)"
proof
  fix k
  show "efuse_bytes (efuse_store (hal_efuse_get_writeread_addr b)
           (if b mod 2 \<noteq> 0 then push_bit 8 (ucast v) else ucast v) e) k = burnt (unat b) [v] (efuse_bytes e) k"
  proof (cases "k < 256 \<and> k div 2 = unat b div 2")
    case True
    then consider "k = unat b" | "k \<noteq> unat b" "odd k \<noteq> odd (unat b)"
      by (metis div_mult_mod_eq even_iff_mod_2_eq_zero odd_iff_mod_2_eq_one)
    then show ?thesis
    proof cases
      case 1
      then show ?thesis using assms
        by (simp add: efuse_store_def efuse_bytes_def burnt_def word_addr or_low or_high del: drop_bit_or)
    next
      case 2
      then have "burnt (unat b) [v] (efuse_bytes e) k = efuse_bytes e k" by (auto simp: burnt_def)
      then show ?thesis using assms True 2
        by (cases "odd k") (simp_all add: efuse_store_def efuse_bytes_def word_addr or_low_high or_high_low del: drop_bit_or)
    qed
  next
    case False
    then have "k < 256 \<Longrightarrow> k \<noteq> unat b" by auto
    then show ?thesis using assms False word_index_inj [of "k div 2" "unat b div 2"]
      by (auto simp: efuse_store_def efuse_bytes_def burnt_def word_addr)
  qed
qed

lemma efuse_bytes_fields [simp]:
  "efuse_bytes (e\<lparr>efuse_wr_rd := m\<rparr>) = efuse_bytes e" "efuse_bytes (e\<lparr>efuse_avdd_sw := on\<rparr>) = efuse_bytes e"
  "efuse_bytes (e\<lparr>irq_enabled := i\<rparr>) = efuse_bytes e" "efuse_bytes (e\<lparr>efuse_us := t\<rparr>) = efuse_bytes e"
  "efuse_bytes (e\<lparr>g_efuse_is_init := i\<rparr>) = efuse_bytes e" "efuse_bytes (e\<lparr>clock_period := c\<rparr>) = efuse_bytes e"
  "efuse_bytes (e\<lparr>g_efuse_clock_period := p\<rparr>) = efuse_bytes e" "efuse_bytes (e\<lparr>g_hal_efuses_funcs := h\<rparr>) = efuse_bytes e"
  by (rule ext, simp add: efuse_bytes_def)+

lemma init_bytes [simp]: "efuse_bytes (snd (uapi_efuse_init e)) = efuse_bytes e"
  by (simp add: uapi_efuse_init_def hal_efuse_init_def hal_efuse_clock_period_set_def)

lemma hal_write_operation:
  assumes "g_efuse_is_init e" and "unat b < 256"
  obtains e' where "hal_efuse_write_operation b v e = (ERRCODE_SUCC, e')" and "same_mode e e'"
    and "efuse_bytes e' = burnt (unat b) [v] (efuse_bytes e)"
proof -
  let ?on = "tcxo_delay_us 100 (hal_efuse_avdd_ctl_set 1 (hal_efuse_ctl_set 0xa5a5 e))"
  let ?v = "if b mod 2 \<noteq> 0 then push_bit 8 (ucast v) else ucast v"
  let ?e = "tcxo_delay_us 100 (hal_efuse_avdd_ctl_set 0 (efuse_store (hal_efuse_get_writeread_addr b) ?v ?on))"
  have on: "efuse_wr_rd ?on = 0xa5a5" "efuse_avdd_sw ?on" "efuse_bytes ?on = efuse_bytes e" "same_mode e ?on"
    by (simp_all add: tcxo_delay_us_def hal_efuse_avdd_ctl_set_def hal_efuse_ctl_set_def same_mode_def)
  have "hal_efuse_write_operation b v e = (ERRCODE_SUCC, ?e)"
    using assms by (simp add: hal_efuse_write_operation_def Let_def EFUSE_MAX_BYTES_def word_le_nat_alt)
  moreover have "same_mode e ?e"
    using on(4) by (simp add: same_mode_def efuse_store_def tcxo_delay_us_def hal_efuse_avdd_ctl_set_def)
  moreover have "efuse_bytes ?e = burnt (unat b) [v] (efuse_bytes e)"
    using store_byte [OF on(1,2) assms(2), of v] on(3) by (simp add: tcxo_delay_us_def hal_efuse_avdd_ctl_set_def)
  ultimately show thesis by (rule that)
qed

lemma burnt_Nil [simp]: "burnt b [] m = m"
  by (auto simp: burnt_def fun_eq_iff)

lemma burnt_Cons: "burnt b (v # vs) m = burnt (Suc b) vs (burnt b [v] m)"
  by (auto simp: burnt_def fun_eq_iff nth_Cons')

lemma unat_next_u32: "unat (b :: u32) < 4294967295 \<Longrightarrow> unat (b + 1) = Suc (unat b)"
  by (simp add: unat_word_ariths)

lemma write_loop_ok:
  "g_efuse_is_init e \<Longrightarrow> unat b + length vs \<le> 256 \<Longrightarrow>
     \<exists>e'. write_loop b vs e = (ERRCODE_SUCC, e') \<and> same_mode e e'
       \<and> efuse_bytes e' = burnt (unat b) vs (efuse_bytes e)"
proof (induction vs arbitrary: b e)
  case Nil
  then show ?case by simp
next
  case (Cons v vs)
  obtain e1 where e1: "hal_efuse_write_operation b v e = (ERRCODE_SUCC, e1)" "same_mode e e1"
      "efuse_bytes e1 = burnt (unat b) [v] (efuse_bytes e)"
    using hal_write_operation [of e b v] Cons.prems by auto
  have "g_efuse_is_init e1" using e1(2) Cons.prems(1) by (simp add: same_mode_def)
  moreover have "unat (b + 1) = Suc (unat b)" using unat_next_u32 [of b] Cons.prems(2) by simp
  ultimately show ?case using Cons.IH [of e1 "b + 1"] Cons.prems(2) e1
    by (auto simp: burnt_Cons [of "unat b" v vs] intro: same_mode_trans)
qed

lemma read_loop_ok:
  "g_efuse_is_init e \<Longrightarrow> unat b + length xs \<le> 256 \<Longrightarrow>
     read_loop b xs e = (ERRCODE_SUCC, map (efuse_bytes e) [unat b..<unat b + length xs],
       if xs = [] then e else e\<lparr>efuse_wr_rd := 0x5a5a\<rparr>)"
proof (induction xs arbitrary: b e)
  case Nil
  then show ?case by simp
next
  case (Cons x xs)
  have "unat (b + 1) = Suc (unat b)" using unat_next_u32 [of b] Cons.prems(2) by simp
  then show ?case using Cons.IH [of "e\<lparr>efuse_wr_rd := 0x5a5a\<rparr>" "b + 1"] Cons.prems
    by (simp add: hal_read_byte upt_conv_Cons del: upt_Suc)
qed

section \<open>What the driver functions do\<close>

lemma bad_range_iff:
  assumes "n < 65536"
  shows "bad_range b n = (n = 0 \<or> 256 \<le> unat b \<or> 256 < unat b + n)"
proof (cases "256 \<le> unat b")
  case True
  then show ?thesis by (simp add: bad_range_def EFUSE_MAX_BYTES_def word_le_nat_alt)
next
  case False
  then have "unat (b + of_nat n) = unat b + n" using assms by (simp add: unat_word_ariths unat_of_nat)
  then show ?thesis by (simp add: bad_range_def EFUSE_MAX_BYTES_def word_le_nat_alt word_less_nat_alt)
qed

lemma write_buffer_ok:
  assumes "efuse_ready e" and "vs \<noteq> []" and "unat b + length vs \<le> 256"
  obtains e' where "uapi_efuse_write_buffer b (Some vs) e = (ERRCODE_SUCC, e')" and "same_mode e e'"
    and "efuse_bytes e' = burnt (unat b) vs (efuse_bytes e)"
proof -
  let ?e = "e\<lparr>irq_enabled := False\<rparr>"
  obtain e' where "write_loop b vs ?e = (ERRCODE_SUCC, e')" "same_mode ?e e'"
      "efuse_bytes e' = burnt (unat b) vs (efuse_bytes ?e)"
    using write_loop_ok [of ?e b vs] assms by auto
  moreover have "\<not> bad_range b (length vs)" using assms(2,3) bad_range_iff [of "length vs" b] by (cases vs) auto
  ultimately show thesis using assms
    by (intro that [of "e'\<lparr>irq_enabled := irq_enabled e\<rparr>"])
      (auto simp: uapi_efuse_write_buffer_def efuse_write_param_check_def irq_lock_def irq_restore_def
        hal_efuse_write_buffer_operation_def same_mode_def)
qed

lemma write_buffer_refuses:
  "bad_range b (length vs) \<Longrightarrow> uapi_efuse_write_buffer b (Some vs) e = (ERRCODE_EFUSE_INVALID_PARAM, e)"
  "uapi_efuse_write_buffer b None e = (ERRCODE_EFUSE_INVALID_PARAM, e)"
  by (simp_all add: uapi_efuse_write_buffer_def efuse_write_param_check_def)

lemma read_buffer_ok:
  assumes "efuse_ready e" and "xs \<noteq> []" and "unat b + length xs \<le> 256"
  shows "uapi_efuse_read_buffer b (Some xs) e =
    (ERRCODE_SUCC, Some (map (efuse_bytes e) [unat b..<unat b + length xs]), e\<lparr>efuse_wr_rd := 0x5a5a\<rparr>)"
proof -
  have "\<not> bad_range b (length xs)" using assms(2,3) bad_range_iff [of "length xs" b] by (cases xs) auto
  then show ?thesis using assms read_loop_ok [of "e\<lparr>irq_enabled := False\<rparr>" b xs]
    by (simp add: uapi_efuse_read_buffer_def irq_lock_def irq_restore_def)
qed

lemma read_bit_ok:
  assumes "efuse_ready e" and "unat b < 256" and "unat pos < 8"
  shows "uapi_efuse_read_bit b pos e =
    (Inr (if bit (efuse_bytes e (unat b)) (unat pos) then 1 else 0), e\<lparr>efuse_wr_rd := 0x5a5a\<rparr>)"
proof -
  have "drop_bit n v AND 1 = (if bit v n then 1 else 0)" for v :: u8 and n
    by (simp add: and_one_eq bit_iff_odd_drop_bit odd_iff_mod_2_eq_one)
  then show ?thesis using assms
    by (simp add: uapi_efuse_read_bit_def EFUSE_MAX_BYTES_def EFUSE_MAX_BIT_POS_def word_le_nat_alt
        irq_lock_def irq_restore_def hal_read_byte)
qed

lemma bit_test: "((v :: u8) AND 2 ^ n = 0) = (n < 8 \<longrightarrow> \<not> bit v n)"
proof -
  have *: "bit (v AND 2 ^ n) k = (k = n \<and> n < 8 \<and> bit v n)" for k
    by (auto simp: bit_and_iff bit_exp_iff dest: bit_imp_le_length)
  show ?thesis
  proof
    assume "v AND 2 ^ n = 0"
    then show "n < 8 \<longrightarrow> \<not> bit v n" using * [of n] by simp
  next
    assume "n < 8 \<longrightarrow> \<not> bit v n"
    then show "v AND 2 ^ n = 0" by (intro bit_word_eqI) (auto simp: *)
  qed
qed

lemma write_bit_ok:
  assumes "efuse_ready e" and "unat b < 256" and "unat pos < 8" and "\<not> bit (efuse_bytes e (unat b)) (unat pos)"
  obtains e' where "uapi_efuse_write_bit b pos e = (ERRCODE_SUCC, e')" and "same_mode e e'"
    and "efuse_bytes e' = burnt (unat b) [push_bit (unat pos) 1] (efuse_bytes e)"
proof -
  let ?e = "e\<lparr>irq_enabled := False, efuse_wr_rd := 0x5a5a\<rparr>"
  obtain e' where "hal_efuse_write_operation b (push_bit (unat pos) 1) ?e = (ERRCODE_SUCC, e')" "same_mode ?e e'"
      "efuse_bytes e' = burnt (unat b) [push_bit (unat pos) 1] (efuse_bytes ?e)"
    using hal_write_operation [of ?e b "push_bit (unat pos) 1"] assms by auto
  then show thesis using assms
    by (intro that [of "e'\<lparr>irq_enabled := irq_enabled e\<rparr>"])
      (simp_all add: uapi_efuse_write_bit_def EFUSE_MAX_BYTES_def EFUSE_MAX_BIT_POS_def word_le_nat_alt
        irq_lock_def irq_restore_def hal_read_byte bit_test same_mode_def)
qed

lemma write_bit_again:
  assumes "efuse_ready e" and "unat b < 256" and "unat pos < 8" and "bit (efuse_bytes e (unat b)) (unat pos)"
  shows "uapi_efuse_write_bit b pos e = (ERRCODE_INVALID_PARAM, e\<lparr>efuse_wr_rd := 0x5a5a\<rparr>)"
  using assms
  by (simp add: uapi_efuse_write_bit_def EFUSE_MAX_BYTES_def EFUSE_MAX_BIT_POS_def word_le_nat_alt
      irq_lock_def irq_restore_def hal_read_byte bit_test)

section \<open>Programming as an interface\<close>

text \<open>What the users of the fuses rely on: programming only adds 1 bits, and only where it writes.\<close>

locale otp_store =
  fixes contents :: "'s \<Rightarrow> nat \<Rightarrow> u8" and ready :: "'s \<Rightarrow> bool" and program :: "nat \<Rightarrow> u8 list \<Rightarrow> 's \<Rightarrow> 's"
  assumes program_bytes: "ready s \<Longrightarrow> vs \<noteq> [] \<Longrightarrow> b + length vs \<le> 256 \<Longrightarrow>
      contents (program b vs s) = burnt b vs (contents s)"
    and program_ready: "ready s \<Longrightarrow> vs \<noteq> [] \<Longrightarrow> b + length vs \<le> 256 \<Longrightarrow> ready (program b vs s)"
begin

lemma blank_reads_back:
  assumes "ready s" and "vs \<noteq> []" and "b + length vs \<le> 256"
    and "\<forall>k. b \<le> k \<and> k < b + length vs \<longrightarrow> contents s k = 0"
  shows "map (contents (program b vs s)) [b..<b + length vs] = vs"
  by (rule nth_equalityI) (use assms in \<open>simp_all add: program_bytes burnt_def\<close>)

lemma elsewhere_unchanged:
  "ready s \<Longrightarrow> vs \<noteq> [] \<Longrightarrow> b + length vs \<le> 256 \<Longrightarrow> k < b \<or> b + length vs \<le> k \<Longrightarrow>
     contents (program b vs s) k = contents s k"
  by (auto simp: program_bytes burnt_def)

lemma programmed_stays:
  "ready s \<Longrightarrow> vs \<noteq> [] \<Longrightarrow> b + length vs \<le> 256 \<Longrightarrow> bit (contents s k) n \<Longrightarrow> bit (contents (program b vs s) k) n"
  by (auto simp: program_bytes burnt_def bit_or_iff)

end

interpretation fuse: otp_store efuse_bytes efuse_ready
  "\<lambda>b vs e. snd (uapi_efuse_write_buffer (of_nat b) (Some vs) e)"
proof
  fix e :: efuse_dev and vs :: "u8 list" and b :: nat
  assume a: "efuse_ready e" "vs \<noteq> []" "b + length vs \<le> 256"
  then have "b < 256" by (cases vs) auto
  then have b: "unat (of_nat b :: u32) = b" by (simp add: unat_of_nat)
  then obtain e' where "uapi_efuse_write_buffer (of_nat b) (Some vs) e = (ERRCODE_SUCC, e')" "same_mode e e'"
      "efuse_bytes e' = burnt b vs (efuse_bytes e)"
    using write_buffer_ok [of e vs "of_nat b"] a by (metis unat_of_nat)
  then show "efuse_bytes (snd (uapi_efuse_write_buffer (of_nat b) (Some vs) e)) = burnt b vs (efuse_bytes e)"
    "efuse_ready (snd (uapi_efuse_write_buffer (of_nat b) (Some vs) e))"
    using a(1) by (simp_all add: same_mode_ready)
qed

section \<open>Sequences of calls\<close>

text \<open>What a call leaves alone, whatever its arguments are.\<close>

lemma hal_read_mode:
  "hal_efuse_read_byte b e = (r, e') \<Longrightarrow> same_mode e e' \<and> efuse_bytes e' = efuse_bytes e"
  by (auto simp: hal_efuse_read_byte_def Let_def hal_efuse_ctl_set_def same_mode_def split: if_splits)

lemma hal_write_mode: "hal_efuse_write_operation b v e = (r, e') \<Longrightarrow> same_mode e e'"
  by (auto simp: hal_efuse_write_operation_def Let_def tcxo_delay_us_def hal_efuse_avdd_ctl_set_def
      hal_efuse_ctl_set_def efuse_store_def same_mode_def split: if_splits)

lemma write_loop_mode: "write_loop b vs e = (r, e') \<Longrightarrow> same_mode e e'"
  by (induction b vs e arbitrary: r e' rule: write_loop.induct)
    (auto split: prod.splits if_splits dest!: hal_write_mode intro: same_mode_trans)

lemma read_loop_mode: "read_loop b xs e = (r, ys, e') \<Longrightarrow> same_mode e e' \<and> efuse_bytes e' = efuse_bytes e"
proof (induction b xs e arbitrary: r ys e' rule: read_loop.induct)
  case (2 b x xs e)
  obtain q e1 where q: "hal_efuse_read_byte b e = (q, e1)" by (cases "hal_efuse_read_byte b e")
  note mode = hal_read_mode [OF q]
  show ?case
  proof (cases q)
    case (Inl err)
    then show ?thesis using "2.prems" q mode by auto
  next
    case (Inr v)
    obtain r2 zs e2 where l: "read_loop (b + 1) xs e1 = (r2, zs, e2)" by (cases "read_loop (b + 1) xs e1") auto
    show ?thesis using "2.prems" q mode Inr l "2.IH" [OF q [symmetric] Inr l] by (auto intro: same_mode_trans)
  qed
qed simp

lemma irq_bracket: "same_mode (e\<lparr>irq_enabled := False\<rparr>) e' \<Longrightarrow> same_mode e (e'\<lparr>irq_enabled := irq_enabled e\<rparr>)"
  by (simp add: same_mode_def)

lemma read_bit_mode:
  assumes "efuse_ready e" and "uapi_efuse_read_bit b pos e = (r, e')"
  shows "same_mode e e' \<and> efuse_bytes e' = efuse_bytes e"
proof -
  obtain q e2 where q: "hal_efuse_read_byte b (e\<lparr>irq_enabled := False\<rparr>) = (q, e2)" by fastforce
  then show ?thesis using assms hal_read_mode [OF q] irq_bracket [of e e2]
    by (cases q) (auto simp: uapi_efuse_read_bit_def irq_lock_def irq_restore_def split: if_splits)
qed

lemma read_buffer_mode:
  assumes "efuse_ready e" and "uapi_efuse_read_buffer b buf e = (r, ys, e')"
  shows "same_mode e e' \<and> efuse_bytes e' = efuse_bytes e"
proof (cases "\<exists>xs. buf = Some xs \<and> \<not> bad_range b (length xs)")
  case True
  then obtain xs where xs: "buf = Some xs" "\<not> bad_range b (length xs)" by blast
  obtain q zs e2 where q: "read_loop b xs (e\<lparr>irq_enabled := False\<rparr>) = (q, zs, e2)" by (metis prod_cases3)
  then show ?thesis using assms xs read_loop_mode [OF q] irq_bracket [of e e2]
    by (auto simp: uapi_efuse_read_buffer_def irq_lock_def irq_restore_def)
next
  case False
  then show ?thesis using assms(2) by (auto simp: uapi_efuse_read_buffer_def split: option.splits)
qed

lemma write_bit_mode:
  assumes "efuse_ready e" and "uapi_efuse_write_bit b pos e = (r, e')"
  shows "same_mode e e'"
proof -
  let ?e = "e\<lparr>irq_enabled := False\<rparr>"
  obtain q e2 where q: "hal_efuse_read_byte b ?e = (q, e2)" by fastforce
  obtain w e3 where w: "hal_efuse_write_operation b (push_bit (unat pos) 1) e2 = (w, e3)" by fastforce
  have "same_mode ?e e2" "same_mode ?e e3"
    using hal_read_mode [OF q] hal_write_mode [OF w] by (auto intro: same_mode_trans)
  then have "same_mode e (e2\<lparr>irq_enabled := irq_enabled e\<rparr>)" "same_mode e (e3\<lparr>irq_enabled := irq_enabled e\<rparr>)"
    by (simp_all add: irq_bracket)
  then show ?thesis using assms q w
    by (cases q) (auto simp: uapi_efuse_write_bit_def irq_lock_def irq_restore_def Let_def split: if_splits)
qed

lemma die_id_mode:
  assumes "efuse_ready e" and "uapi_efuse_get_die_id buf e = (r, ys, e')"
  shows "same_mode e e' \<and> efuse_bytes e' = efuse_bytes e"
  using assms
  by (auto simp: uapi_efuse_get_die_id_def hal_efuse_get_die_id_def
      split: option.splits prod.splits if_splits dest!: read_loop_mode)

lemma write_bit_with_flag:
  "uapi_efuse_write_bit_with_flag b pos flag e =
     (if flag = EFUSE_WRITE_PROTECT_FLAG then uapi_efuse_write_bit b pos e else (ERRCODE_EFUSE_INVALID_PARAM, e))"
  by (simp add: uapi_efuse_write_bit_with_flag_def uapi_efuse_write_bit_def)

lemma write_buffer_with_flag:
  "uapi_efuse_write_buffer_with_flag b buf flag e =
     (if flag = EFUSE_WRITE_PROTECT_FLAG then uapi_efuse_write_buffer b buf e else (ERRCODE_EFUSE_INVALID_PARAM, e))"
  by (simp add: uapi_efuse_write_buffer_with_flag_def uapi_efuse_write_buffer_def)

text \<open>Every call of the driver. A machine that has faulted does nothing more.\<close>

datatype efuse_call =
    SetClockPeriod u32
  | EfuseInit
  | EfuseDeinit
  | ReadBit u32 u8
  | ReadBuffer u32 "u8 list option"
  | WriteBit u32 u8
  | WriteBitWithFlag u32 u8 u32
  | WriteBuffer u32 "u8 list option"
  | WriteBufferWithFlag u32 "u8 list option" u32
  | GetDieId "u8 list option"
  | GetChipId "u8 list option"
  | UserReadBuffer u32 "u8 list option" u16
  | UserWriteBuffer u32 "u8 list option" u16
  | UserWriteBit u32 u8
  | UserReadBit u32 u8

fun call_effect :: "efuse_call \<Rightarrow> efuse_dev \<Rightarrow> efuse_dev" where
  "call_effect (SetClockPeriod p) e = hal_efuse_set_clock_period p e"
| "call_effect EfuseInit e = snd (uapi_efuse_init e)"
| "call_effect EfuseDeinit e = snd (uapi_efuse_deinit e)"
| "call_effect (ReadBit b pos) e = snd (uapi_efuse_read_bit b pos e)"
| "call_effect (ReadBuffer b buf) e = snd (snd (uapi_efuse_read_buffer b buf e))"
| "call_effect (WriteBit b pos) e = snd (uapi_efuse_write_bit b pos e)"
| "call_effect (WriteBitWithFlag b pos flag) e = snd (uapi_efuse_write_bit_with_flag b pos flag e)"
| "call_effect (WriteBuffer b buf) e = snd (uapi_efuse_write_buffer b buf e)"
| "call_effect (WriteBufferWithFlag b buf flag) e = snd (uapi_efuse_write_buffer_with_flag b buf flag e)"
| "call_effect (GetDieId buf) e = snd (snd (uapi_efuse_get_die_id buf e))"
| "call_effect (GetChipId buf) e = snd (snd (uapi_efuse_get_chip_id buf e))"
| "call_effect (UserReadBuffer b buf len) e = snd (snd (uapi_efuse_user_read_buffer b buf len e))"
| "call_effect (UserWriteBuffer b buf len) e = snd (uapi_efuse_user_write_buffer b buf len e)"
| "call_effect (UserWriteBit b pos) e = snd (uapi_efuse_user_write_bit b pos e)"
| "call_effect (UserReadBit b pos) e = snd (uapi_efuse_user_read_bit b pos e)"

definition efuse_do :: "efuse_call \<Rightarrow> efuse_dev \<Rightarrow> efuse_dev" where
  "efuse_do c e = (if efuse_fault e then e else call_effect c e)"

text \<open>
  The contract of a sequence of calls, which does not mention the device. Each call stands for one of
  the plain ones or for nothing; it asks for some bits, it may reach for the table, and it may switch the driver on or off.
  A buffer is as long as its 16-bit length argument says.
\<close>

fun plain_call :: "efuse_call \<Rightarrow> efuse_call option" where
  "plain_call (WriteBitWithFlag b pos flag) = (if flag = EFUSE_WRITE_PROTECT_FLAG then Some (WriteBit b pos) else None)"
| "plain_call (WriteBufferWithFlag b buf flag) = (if flag = EFUSE_WRITE_PROTECT_FLAG then Some (WriteBuffer b buf) else None)"
| "plain_call (UserReadBuffer off buf len) = (if (ucast len + off) * 8 \<le> 128 then Some (ReadBuffer (off + 222) buf) else None)"
| "plain_call (UserWriteBuffer off buf len) = (if (ucast len + off) * 8 \<le> 128 then Some (WriteBuffer (off + 222) buf) else None)"
| "plain_call (UserWriteBit off pos) = (if off * 8 + ucast pos \<le> 128 then Some (WriteBit (off + 222) pos) else None)"
| "plain_call (UserReadBit off pos) = (if off * 8 + ucast pos \<le> 128 then Some (ReadBit (off + 222) pos) else None)"
| "plain_call c = Some c"

definition in_array :: "u32 \<Rightarrow> u8 list option \<Rightarrow> bool" where
  "in_array b buf = (case buf of None \<Rightarrow> False | Some xs \<Rightarrow> xs \<noteq> [] \<and> unat b + length xs \<le> 256)"

fun asks_for :: "efuse_call \<Rightarrow> nat \<Rightarrow> nat \<Rightarrow> bool" where
  "asks_for (WriteBit b pos) k n = (k = unat b \<and> n = unat pos \<and> k < 256 \<and> n < 8)"
| "asks_for (WriteBuffer b buf) k n =
     (in_array b buf \<and> unat b \<le> k \<and> k < unat b + length (the buf) \<and> bit (the buf ! (k - unat b)) n)"
| "asks_for c k n = False"

fun needs_table :: "efuse_call \<Rightarrow> bool" where
  "needs_table (ReadBit b pos) = (unat b < 256 \<and> unat pos < 8)"
| "needs_table (WriteBit b pos) = (unat b < 256 \<and> unat pos < 8)"
| "needs_table (ReadBuffer b buf) = in_array b buf"
| "needs_table (WriteBuffer b buf) = in_array b buf"
| "needs_table (GetDieId buf) = (buf \<noteq> None \<and> buf \<noteq> Some [])"
| "needs_table c = False"

fun calls_null :: "bool \<Rightarrow> efuse_call \<Rightarrow> bool" where
  "calls_null on (GetChipId buf) = (buf \<noteq> None \<and> buf \<noteq> Some [])"
| "calls_null on c = (\<not> on \<and> needs_table c)"

fun on_after :: "efuse_call \<Rightarrow> bool \<Rightarrow> bool" where
  "on_after EfuseInit on = True"
| "on_after EfuseDeinit on = False"
| "on_after c on = on"

fun call_sized :: "efuse_call \<Rightarrow> bool" where
  "call_sized (ReadBuffer b buf) = pred_option (\<lambda>xs. length xs < 65536) buf"
| "call_sized (WriteBuffer b buf) = pred_option (\<lambda>xs. length xs < 65536) buf"
| "call_sized (WriteBufferWithFlag b buf flag) = pred_option (\<lambda>xs. length xs < 65536) buf"
| "call_sized (UserReadBuffer b buf len) = pred_option (\<lambda>xs. length xs = unat len) buf"
| "call_sized (UserWriteBuffer b buf len) = pred_option (\<lambda>xs. length xs = unat len) buf"
| "call_sized c = True"

text \<open>Whether a sequence runs into a NULL pointer, and which bits it programs.\<close>

fun run_faults :: "bool \<Rightarrow> efuse_call list \<Rightarrow> bool" where
  "run_faults on [] = False"
| "run_faults on (c # cs) = (case plain_call c of None \<Rightarrow> run_faults on cs
     | Some p \<Rightarrow> calls_null on p \<or> run_faults (on_after p on) cs)"

fun run_asks :: "bool \<Rightarrow> efuse_call list \<Rightarrow> nat \<Rightarrow> nat \<Rightarrow> bool" where
  "run_asks on [] k n = False"
| "run_asks on (c # cs) k n = (case plain_call c of None \<Rightarrow> run_asks on cs k n
     | Some p \<Rightarrow> (on \<and> asks_for p k n) \<or> run_asks (on_after p on) cs k n)"

lemma plain_effect:
  "call_effect c e = (case plain_call c of None \<Rightarrow> e | Some p \<Rightarrow> call_effect p e)"
  by (cases c) (auto simp: write_bit_with_flag write_buffer_with_flag uapi_efuse_user_read_buffer_def
      uapi_efuse_user_write_buffer_def uapi_efuse_user_write_bit_def uapi_efuse_user_read_bit_def
      CUSTOMER_RSVD_EFUSE_BIT_LEN_def CUSTOMER_RSVD_EFUSE_START_BIT_def not_less [symmetric])

text \<open>The driver is switched on and off as a whole, and has not faulted.\<close>

definition efuse_sound :: "efuse_dev \<Rightarrow> bool" where
  "efuse_sound e = (\<not> efuse_fault e \<and> g_hal_efuses_funcs e = g_efuse_is_init e)"

text \<open>The relation between the states around a plain call.\<close>

definition as_asked :: "efuse_call \<Rightarrow> efuse_dev \<Rightarrow> efuse_dev \<Rightarrow> bool" where
  "as_asked p e e' =
     (if calls_null (efuse_ready e) p then efuse_fault e'
      else efuse_sound e' \<and> efuse_ready e' = on_after p (efuse_ready e) \<and> irq_enabled e' = irq_enabled e \<and>
        (\<forall>k n. bit (efuse_bytes e' k) n = (bit (efuse_bytes e k) n \<or> efuse_ready e \<and> asks_for p k n)))"

lemma sound_off: "efuse_sound e \<Longrightarrow> \<not> efuse_ready e \<Longrightarrow> \<not> g_hal_efuses_funcs e"
  by (simp add: efuse_sound_def efuse_ready_def del: efuse_readyD)

lemma mode_as_asked:
  assumes "efuse_sound e" and "same_mode e e'" and "\<not> calls_null (efuse_ready e) p" and "on_after p (efuse_ready e) = efuse_ready e"
    and "\<And>k n. bit (efuse_bytes e' k) n = (bit (efuse_bytes e k) n \<or> efuse_ready e \<and> asks_for p k n)"
  shows "as_asked p e e'"
  using assms same_mode_ready [OF assms(2)] by (auto simp: as_asked_def efuse_sound_def same_mode_def)

lemma read_bit_asked:
  assumes "efuse_sound e"
  shows "as_asked (ReadBit b pos) e (snd (uapi_efuse_read_bit b pos e))"
proof (cases "efuse_ready e")
  case True
  then show ?thesis using read_bit_mode [OF True, of b pos] assms
    by (cases "uapi_efuse_read_bit b pos e") (auto intro!: mode_as_asked)
next
  case False
  then show ?thesis using assms sound_off [OF assms False]
    by (auto simp: as_asked_def uapi_efuse_read_bit_def EFUSE_MAX_BYTES_def EFUSE_MAX_BIT_POS_def word_le_nat_alt
        irq_lock_def null_call_def Let_def)
qed

lemma bad_range_in_array: "length xs < 65536 \<Longrightarrow> bad_range b (length xs) = (\<not> in_array b (Some xs))"
  using bad_range_iff [of "length xs" b] by (cases xs) (auto simp: in_array_def)

lemma read_buffer_asked:
  assumes "efuse_sound e" and "call_sized (ReadBuffer b buf)"
  shows "as_asked (ReadBuffer b buf) e (snd (snd (uapi_efuse_read_buffer b buf e)))"
proof (cases "efuse_ready e")
  case True
  then show ?thesis using read_buffer_mode [OF True, of b buf] assms
    by (cases "uapi_efuse_read_buffer b buf e") (auto intro!: mode_as_asked)
next
  case False
  show ?thesis
  proof (cases buf)
    case (Some xs)
    then show ?thesis using assms False sound_off [OF assms(1) False] bad_range_in_array [of xs b]
      by (auto simp: as_asked_def uapi_efuse_read_buffer_def irq_lock_def null_call_def Let_def)
  qed (use False assms in \<open>simp add: as_asked_def uapi_efuse_read_buffer_def in_array_def\<close>)
qed

lemma write_bit_asked:
  assumes "efuse_sound e"
  shows "as_asked (WriteBit b pos) e (snd (uapi_efuse_write_bit b pos e))"
proof (cases "efuse_ready e \<and> unat b < 256 \<and> unat pos < 8")
  case True
  show ?thesis
  proof (cases "bit (efuse_bytes e (unat b)) (unat pos)")
    case set: True
    then have "uapi_efuse_write_bit b pos e = (ERRCODE_INVALID_PARAM, e\<lparr>efuse_wr_rd := 0x5a5a\<rparr>)"
      using write_bit_again True by blast
    then show ?thesis using True set assms by (auto simp: same_mode_def intro!: mode_as_asked)
  next
    case False
    obtain e' where e': "uapi_efuse_write_bit b pos e = (ERRCODE_SUCC, e')" "same_mode e e'"
        "efuse_bytes e' = burnt (unat b) [push_bit (unat pos) 1] (efuse_bytes e)"
      using write_bit_ok [of e b pos] True False by blast
    have one: "bit (2 ^ unat pos :: u8) n = (n = unat pos)" for n
      using True by (auto simp: bit_exp_iff)
    have "bit (efuse_bytes e' k) n = (bit (efuse_bytes e k) n \<or> efuse_ready e \<and> asks_for (WriteBit b pos) k n)" for k n
      using True by (auto simp: e'(3) burnt_def bit_or_iff one)
    then show ?thesis using True e' assms by (auto intro!: mode_as_asked)
  qed
next
  case False
  then show ?thesis using assms sound_off [OF assms]
    by (auto simp: as_asked_def uapi_efuse_write_bit_def EFUSE_MAX_BYTES_def EFUSE_MAX_BIT_POS_def word_le_nat_alt
        irq_lock_def null_call_def Let_def)
qed

lemma write_buffer_asked:
  assumes "efuse_sound e" and "call_sized (WriteBuffer b buf)"
  shows "as_asked (WriteBuffer b buf) e (snd (uapi_efuse_write_buffer b buf e))"
proof (cases buf)
  case (Some xs)
  show ?thesis
  proof (cases "efuse_ready e \<and> in_array b buf")
    case True
    obtain e' where e': "uapi_efuse_write_buffer b (Some xs) e = (ERRCODE_SUCC, e')" "same_mode e e'"
        "efuse_bytes e' = burnt (unat b) xs (efuse_bytes e)"
      using write_buffer_ok [of e xs b] True Some by (auto simp: in_array_def)
    have "bit (efuse_bytes e' k) n = (bit (efuse_bytes e k) n \<or> efuse_ready e \<and> asks_for (WriteBuffer b buf) k n)" for k n
      using True by (auto simp: e'(3) burnt_def bit_or_iff Some)
    then show ?thesis using True e' assms Some by (auto intro!: mode_as_asked)
  next
    case False
    then show ?thesis using assms Some sound_off [OF assms(1)] bad_range_in_array [of xs b]
      by (auto simp: as_asked_def uapi_efuse_write_buffer_def efuse_write_param_check_def irq_lock_def null_call_def Let_def)
  qed
qed (use assms in \<open>simp add: as_asked_def uapi_efuse_write_buffer_def efuse_write_param_check_def in_array_def\<close>)

lemma die_id_asked:
  assumes "efuse_sound e"
  shows "as_asked (GetDieId buf) e (snd (snd (uapi_efuse_get_die_id buf e)))"
proof (cases "efuse_ready e")
  case True
  then show ?thesis using die_id_mode [OF True, of buf] assms
    by (cases "uapi_efuse_get_die_id buf e") (auto intro!: mode_as_asked)
next
  case False
  then show ?thesis using assms sound_off [OF assms False]
    by (auto simp: as_asked_def uapi_efuse_get_die_id_def null_call_def split: option.splits)
qed

lemma switch_asked:
  assumes "efuse_sound e"
  shows "as_asked EfuseInit e (snd (uapi_efuse_init e))" "as_asked EfuseDeinit e (snd (uapi_efuse_deinit e))"
    "as_asked (SetClockPeriod p) e (hal_efuse_set_clock_period p e)"
    "as_asked (GetChipId buf) e (snd (snd (uapi_efuse_get_chip_id buf e)))"
proof -
  note [simp del] = efuse_readyD
  show "as_asked EfuseInit e (snd (uapi_efuse_init e))" "as_asked EfuseDeinit e (snd (uapi_efuse_deinit e))"
    "as_asked (SetClockPeriod p) e (hal_efuse_set_clock_period p e)"
    "as_asked (GetChipId buf) e (snd (snd (uapi_efuse_get_chip_id buf e)))"
    using assms
    by (auto simp: as_asked_def efuse_sound_def efuse_ready_def uapi_efuse_init_def hal_efuse_init_def hal_efuse_clock_period_set_def uapi_efuse_deinit_def hal_efuse_deinit_def hal_efuse_set_clock_period_def uapi_efuse_get_chip_id_def null_call_def
        split: option.splits)
qed

lemma plain_call_plain: "plain_call c = Some p \<Longrightarrow> plain_call p = Some p"
  by (cases c) (auto split: if_splits)

lemma plain_call_sized: "plain_call c = Some p \<Longrightarrow> call_sized c \<Longrightarrow> call_sized p"
  using unat_u16_less by (cases c) (auto split: if_splits elim!: option.pred_mono_strong)

lemma plain_call_asked:
  assumes "plain_call c = Some p" and "efuse_sound e" and "call_sized c"
  shows "as_asked p e (call_effect p e)"
  using plain_call_plain [OF assms(1)] plain_call_sized [OF assms(1,3)] switch_asked [OF assms(2)]
    read_bit_asked [OF assms(2)] read_buffer_asked [OF assms(2)] write_bit_asked [OF assms(2)]
    write_buffer_asked [OF assms(2)] die_id_asked [OF assms(2)]
  by (cases p) (auto split: if_splits)

text \<open>C27: Any sequence of calls of the driver, with any arguments, ends in a call through a NULL pointer exactly
  when it has a call that reaches the hardware layer before \<open>uapi_efuse_init\<close> or behind
  \<open>uapi_efuse_deinit\<close>, or a read of the chip ID. Any other sequence leaves the interrupts as it found them, and
  a fuse is programmed afterwards exactly when it was before or a write inside the array, while the driver was
  initialised, asked for it: no write is lost, none reaches another fuse.\<close>

theorem fuses_as_asked:
  assumes "efuse_sound e" and "\<forall>c \<in> set cs. call_sized c"
  shows "efuse_fault (fold efuse_do cs e) = run_faults (efuse_ready e) cs \<and>
    (\<not> run_faults (efuse_ready e) cs \<longrightarrow> irq_enabled (fold efuse_do cs e) = irq_enabled e \<and>
      (\<forall>k n. bit (efuse_bytes (fold efuse_do cs e) k) n = (bit (efuse_bytes e k) n \<or> run_asks (efuse_ready e) cs k n)))"
  using assms
proof (induction cs arbitrary: e)
  case Nil
  then show ?case by (simp add: efuse_sound_def)
next
  case (Cons c cs)
  have stuck: "fold efuse_do ds d = d" if "efuse_fault d" for ds d
    using that by (induction ds) (simp_all add: efuse_do_def)
  have first: "efuse_do c e = call_effect c e" using Cons.prems(1) by (simp add: efuse_do_def efuse_sound_def)
  show ?case
  proof (cases "plain_call c")
    case None
    then have "efuse_do c e = e" using first plain_effect [of c e] by simp
    then show ?thesis using Cons.IH [OF Cons.prems(1)] Cons.prems(2) None by simp
  next
    case (Some p)
    have e': "efuse_do c e = call_effect p e" using first plain_effect [of c e] Some by simp
    have asked: "as_asked p e (call_effect p e)" using plain_call_asked [OF Some Cons.prems(1)] Cons.prems(2) by simp
    show ?thesis
    proof (cases "calls_null (efuse_ready e) p")
      case True
      then show ?thesis using asked stuck Some by (simp add: as_asked_def e')
    next
      case False
      then have "efuse_sound (call_effect p e)" "efuse_ready (call_effect p e) = on_after p (efuse_ready e)"
        "irq_enabled (call_effect p e) = irq_enabled e"
        "\<forall>k n. bit (efuse_bytes (call_effect p e) k) n = (bit (efuse_bytes e k) n \<or> efuse_ready e \<and> asks_for p k n)"
        using asked by (simp_all add: as_asked_def)
      then show ?thesis using Cons.IH [of "call_effect p e"] Cons.prems(2) Some False by (auto simp: e')
    qed
  qed
qed

definition fuse_chip :: "u16 \<Rightarrow> efuse_dev" where
  "fuse_chip w = \<lparr>g_hal_efuses_funcs = False, g_efuse_is_init = False, g_efuse_clock_period = 0x1f, clock_period = 0,
     efuse_wr_rd = 0, efuse_avdd_sw = False, efuse_word = (\<lambda>_. w), irq_enabled = True, efuse_us = 0, efuse_fault = False\<rparr>"

text \<open>A write, one outside the array, the end of the driver; and then a call that comes too late.\<close>

lemma fuses_as_asked_witness:
  "let cs = [EfuseInit, WriteBuffer 4 (Some [0x80]), WriteBit 256 0, EfuseDeinit];
       e = fold efuse_do cs (fuse_chip 0x0101)
   in \<not> efuse_fault e \<and> irq_enabled e \<and> bit (efuse_bytes e 4) 0 \<and> bit (efuse_bytes e 4) 7 \<and> \<not> bit (efuse_bytes e 5) 7 \<and>
      efuse_fault (fold efuse_do (cs @ [ReadBit 0 0]) (fuse_chip 0x0101))"
proof -
  let ?cs = "[EfuseInit, WriteBuffer 4 (Some [0x80]), WriteBit 256 0, EfuseDeinit]"
  have s: "efuse_sound (fuse_chip 0x0101)" "\<not> efuse_ready (fuse_chip 0x0101)" "irq_enabled (fuse_chip 0x0101)"
    "bit (efuse_bytes (fuse_chip 0x0101) 4) 0" "\<not> bit (efuse_bytes (fuse_chip 0x0101) 5) 7"
    by (simp_all add: fuse_chip_def efuse_sound_def efuse_ready_def efuse_bytes_def del: efuse_readyD)
  have "\<not> run_faults False ?cs" "run_faults False (?cs @ [ReadBit 0 0])" "run_asks False ?cs 4 7" "\<not> run_asks False ?cs 5 7"
    by (simp_all add: in_array_def)
  then show ?thesis
    using fuses_as_asked [OF s(1), of ?cs] fuses_as_asked [OF s(1), of "?cs @ [ReadBit 0 0]"] s(2-) unfolding Let_def
    by (simp del: fold_simps(2) run_faults.simps run_asks.simps)
qed

section \<open>The customer area\<close>

text \<open>
  The area has the bytes 222 to 237. Its check adds \<open>offset\<close> and the length in 32 bits, so an offset
  below zero, written as an unsigned number, passes as long as the end of the access is inside.
\<close>

lemma user_range:
  assumes "k \<le> 222" and "k \<le> n" and "n \<le> k + 16"
  shows "(of_nat n + - of_nat k :: u32) * 8 \<le> 128" and "unat (222 - of_nat k :: u32) = 222 - k"
proof -
  have "(of_nat n + - of_nat k :: u32) = of_nat (n - k)" using assms(2) by simp
  then show "(of_nat n + - of_nat k :: u32) * 8 \<le> 128"
    using assms(3) by (simp add: word_le_nat_alt unat_word_ariths unat_of_nat)
  have "(222 - of_nat k :: u32) = of_nat (222 - k)" using assms(1) by simp
  then show "unat (222 - of_nat k :: u32) = 222 - k" using unat_of_nat_u32 [of "222 - k"] by simp
qed

text \<open>A write to the customer area with an offset of \<open>k\<close> bytes below zero and at least \<open>k\<close> bytes is
  accepted and programs the fuses from byte \<open>222 - k\<close> on, outside the area for every \<open>k > 0\<close>: with
  six bytes at offset -6 it is the last MAC address.\<close>

theorem user_write_leaves_area:
  assumes "efuse_ready e" and "k \<le> 222" and "k \<le> length vs" and "length vs \<le> k + 16" and "vs \<noteq> []"
  shows "\<exists>e'. uapi_efuse_user_write_buffer (- of_nat k) (Some vs) (of_nat (length vs)) e = (ERRCODE_SUCC, e')
    \<and> efuse_bytes e' = burnt (222 - k) vs (efuse_bytes e)"
proof -
  have len: "(ucast (of_nat (length vs) :: u16) :: u32) = of_nat (length vs)"
    using assms(2,4) by (simp add: word_unat_eq_iff unat_ucast_u16_u32 unat_of_nat)
  have start: "unat (222 - of_nat k :: u32) = 222 - k" using user_range(2) [OF assms(2-4)] .
  moreover have "222 - k + length vs \<le> 256" using assms(2,4) by linarith
  ultimately obtain e' where "uapi_efuse_write_buffer (222 - of_nat k) (Some vs) e = (ERRCODE_SUCC, e')"
      "efuse_bytes e' = burnt (222 - k) vs (efuse_bytes e)"
    using write_buffer_ok [of e vs "222 - of_nat k"] assms(1,5) by metis
  then show ?thesis using user_range(1) [OF assms(2-4)] len
    by (simp add: uapi_efuse_user_write_buffer_def CUSTOMER_RSVD_EFUSE_BIT_LEN_def CUSTOMER_RSVD_EFUSE_START_BIT_def not_less)
qed

lemma user_write_leaves_area_witness:
  "\<exists>e'. uapi_efuse_user_write_buffer (- of_nat 6) (Some [1, 2, 3, 4, 5, 6]) (of_nat (length [1, 2, 3, 4, 5, 6 :: u8]))
      (snd (uapi_efuse_init (fuse_chip 0))) = (ERRCODE_SUCC, e')
    \<and> efuse_bytes e' = burnt (222 - 6) [1, 2, 3, 4, 5, 6] (efuse_bytes (snd (uapi_efuse_init (fuse_chip 0))))"
  by (rule user_write_leaves_area) simp_all

text \<open>The bit functions test with \<open>>\<close> and so admit bit 128, the first bit behind the area.\<close>

lemma user_bit_behind_area:
  "uapi_efuse_user_write_bit 16 0 e = uapi_efuse_write_bit 238 0 e"
  by (simp add: uapi_efuse_user_write_bit_def CUSTOMER_RSVD_EFUSE_BIT_LEN_def CUSTOMER_RSVD_EFUSE_START_BIT_def)

text \<open>The die ID is read from byte 0, where the table of items has the chip ID.\<close>

lemma die_id_from_zero:
  assumes "efuse_ready e" and "0 < n" and "n \<le> 256"
  shows "\<exists>e'. uapi_efuse_get_die_id (Some (replicate n 0)) e = (ERRCODE_SUCC, Some (map (efuse_bytes e) [0..<n]), e')"
  using assms read_loop_ok [of e 0 "replicate n 0"]
  by (simp add: uapi_efuse_get_die_id_def hal_efuse_get_die_id_def)

text \<open>The zero count has eight bits: a block of 32 clear bytes counts like one of set bytes.\<close>

lemma zero_count_wraps:
  "uapi_efuse_calc_crc (Some (replicate 32 0)) False = uapi_efuse_calc_crc (Some (replicate 32 0xFF)) False"
  by code_simp

end
