(* ===== verification/EfuseItems.thy ===== *)
theory EfuseItems
  imports EfuseDriver
begin

text \<open>
  The items of the eFuse and the addresses kept in it: chips/ws63/porting/efuse/efuse_porting.c.
  An item is a range of bits of the table \<open>g_efuse_cfg\<close>. The chip has four slots for a MAC address, each
  with a lock bit; the customer data and the SLE address have one place each and are written once.
  \<open>check_data\<close> is modelled for data of at most 255 bytes (its index has eight bits); it gets 6 or 16.
\<close>

section \<open>Items\<close>

text \<open>Start bit and number of bits; every attribute is \<open>EFUSE_IDX_RW\<close> and nothing reads it.\<close>

definition g_efuse_cfg :: "(u16 \<times> u16) list" where
  "g_efuse_cfg =
     [(0, 8), (8, 160), (624, 32), (656, 8), (664, 8), (672, 256), (928, 32), (960, 1), (1000, 8),
      (1584, 48), (1632, 48), (1680, 48), (1728, 48), (1776, 128), (672, 256), (1135, 1), (1120, 15),
      (1136, 16), (1904, 48)]"

definition EFUSE_IDX_MAX :: u16 where "EFUSE_IDX_MAX = 19"

fun item_bit_loop :: "nat \<Rightarrow> u16 \<Rightarrow> u16 \<Rightarrow> u8 list \<Rightarrow> efuse_dev \<Rightarrow> u32 \<times> u8 list \<times> efuse_dev" where
  "item_bit_loop 0 bit_index id_start_bit data e = (ERRCODE_SUCC, data, e)"
| "item_bit_loop (Suc n) bit_index id_start_bit data e =
     (case uapi_efuse_read_bit (ucast (bit_index div 8)) (ucast (bit_index mod 8)) e of
        (Inl err, e1) \<Rightarrow> (err, data, e1)
      | (Inr v, e1) \<Rightarrow>
          let k = bit_index - id_start_bit; i = unat (k div 8)
          in item_bit_loop n (bit_index + 1) id_start_bit
               (if v \<noteq> 0 then data[i := data ! i OR push_bit (unat (k mod 8)) 1] else data) e1)"

definition efuse_read_item :: "u16 \<Rightarrow> u8 list option \<Rightarrow> efuse_dev \<Rightarrow> u32 \<times> u8 list option \<times> efuse_dev" where
  "efuse_read_item efuse_id buf e =
     (case buf of None \<Rightarrow> (ERRCODE_FAIL, None, e)
      | Some d \<Rightarrow>
          if EFUSE_IDX_MAX \<le> efuse_id then (ERRCODE_FAIL, buf, e)
          else
            let (id_start_bit, id_size) = g_efuse_cfg ! unat efuse_id;
                item_data_len = unat ((id_size + 7) div 8);
                d0 = replicate (length d) 0
            in if length d < item_data_len then (ERRCODE_FAIL, buf, e)
               else if id_size mod 8 = 0 \<and> id_start_bit mod 8 = 0 then
                 let (ret, ys, e1) =
                       uapi_efuse_read_buffer (ucast (id_start_bit div 8)) (Some (take item_data_len d0)) e
                 in (ret, map_option (\<lambda>y. y @ drop item_data_len d0) ys, e1)
               else let (ret, d1, e1) = item_bit_loop (unat id_size) id_start_bit id_start_bit d0 e
                    in (ret, Some d1, e1))"

section \<open>MAC addresses\<close>

definition EFUSE_MAC_LEN :: nat where "EFUSE_MAC_LEN = 6"
definition mac_lock_bit :: "u32 \<Rightarrow> u32" where "mac_lock_bit index = 314 + index"
definition mac_start_bit :: "u32 \<Rightarrow> u32" where "mac_start_bit index = 1584 + index * 6 * 8"

text \<open>The loops run over the indices still to come.\<close>

fun write_mac_loop :: "u32 list \<Rightarrow> u8 list \<Rightarrow> efuse_dev \<Rightarrow> u32 \<times> efuse_dev" where
  "write_mac_loop [] d e = (ERRCODE_FAIL, e)"
| "write_mac_loop (index # rest) d e =
     (let lock_bit = mac_lock_bit index; mac_bit = mac_start_bit index
      in case uapi_efuse_read_bit (lock_bit div 8) (ucast (lock_bit mod 8)) e of
           (Inl err, e1) \<Rightarrow> write_mac_loop rest d e1
         | (Inr lock_data, e1) \<Rightarrow>
             if lock_data = 0 then
               let (ret, e2) = uapi_efuse_write_buffer (mac_bit div 8) (Some d) e1
               in if ret = ERRCODE_SUCC then uapi_efuse_write_bit (lock_bit div 8) (ucast (lock_bit mod 8)) e2
                  else (ret, e2)
             else write_mac_loop rest d e1)"

definition efuse_write_mac :: "u8 list option \<Rightarrow> efuse_dev \<Rightarrow> u32 \<times> efuse_dev" where
  "efuse_write_mac data e =
     (case data of None \<Rightarrow> (ERRCODE_FAIL, e)
      | Some d \<Rightarrow> if length d \<noteq> EFUSE_MAC_LEN then (ERRCODE_FAIL, e) else write_mac_loop [0, 1, 2, 3] d e)"

text \<open>The third component is the number stored through \<open>left_time\<close>.\<close>

fun read_mac_loop :: "u32 list \<Rightarrow> u8 list \<Rightarrow> efuse_dev \<Rightarrow> u32 \<times> u8 list option \<times> u8 \<times> efuse_dev" where
  "read_mac_loop [] d e =
     (let (ret, ys, e1) = uapi_efuse_read_buffer (mac_start_bit 0 div 8) (Some d) e in (ret, ys, 4, e1))"
| "read_mac_loop (index # rest) d e =
     (let lock_bit = mac_lock_bit (3 - index); mac_bit = mac_start_bit (3 - index)
      in case uapi_efuse_read_bit (lock_bit div 8) (ucast (lock_bit mod 8)) e of
           (Inl err, e1) \<Rightarrow> read_mac_loop rest d e1
         | (Inr lock_data, e1) \<Rightarrow>
             if lock_data \<noteq> 0 then
               let (ret, ys, e2) = uapi_efuse_read_buffer (mac_bit div 8) (Some d) e1
               in (ret, ys, ucast index, e2)
             else read_mac_loop rest d e1)"

definition efuse_read_mac :: "u8 list option \<Rightarrow> u8 \<Rightarrow> efuse_dev \<Rightarrow> u32 \<times> u8 list option \<times> u8 \<times> efuse_dev" where
  "efuse_read_mac buf left_time e =
     (case buf of None \<Rightarrow> (ERRCODE_FAIL, None, left_time, e)
      | Some d \<Rightarrow> if length d \<noteq> EFUSE_MAC_LEN then (ERRCODE_FAIL, buf, left_time, e)
                  else read_mac_loop [0, 1, 2, 3] d e)"

section \<open>Data that is written once\<close>

definition check_data :: "u8 list option \<Rightarrow> u32" where
  "check_data data =
     (case data of None \<Rightarrow> ERRCODE_FAIL
      | Some d \<Rightarrow> if d = [] then ERRCODE_FAIL else if \<exists>x \<in> set d. x \<noteq> 0 then ERRCODE_FAIL else ERRCODE_SUCC)"

definition SLE_MAC_ADDR_START_BIT :: u32 where "SLE_MAC_ADDR_START_BIT = 1904"

definition efuse_write_sle_mac :: "u8 list option \<Rightarrow> efuse_dev \<Rightarrow> u32 \<times> efuse_dev" where
  "efuse_write_sle_mac data e =
     (if data = None \<or> length (the data) \<noteq> EFUSE_MAC_LEN then (ERRCODE_FAIL, e)
      else
        let (ret, read_back, e1) = uapi_efuse_read_buffer (SLE_MAC_ADDR_START_BIT div 8) (Some (replicate EFUSE_MAC_LEN 0)) e
        in if ret = ERRCODE_SUCC \<and> check_data read_back = ERRCODE_SUCC
           then uapi_efuse_write_buffer (SLE_MAC_ADDR_START_BIT div 8) data e1 else (ERRCODE_FAIL, e1))"

definition efuse_read_sle_mac :: "u8 list option \<Rightarrow> efuse_dev \<Rightarrow> u32 \<times> u8 list option \<times> efuse_dev" where
  "efuse_read_sle_mac buf e =
     (if buf = None \<or> length (the buf) \<noteq> EFUSE_MAC_LEN then (ERRCODE_FAIL, buf, e)
      else uapi_efuse_read_buffer (SLE_MAC_ADDR_START_BIT div 8) buf e)"

definition CUSTOM_RESVED_EFUSE_BYTE_LEN :: nat where "CUSTOM_RESVED_EFUSE_BYTE_LEN = 16"
definition CUSTOM_RESVED_START :: u32 where "CUSTOM_RESVED_START = 222"
definition CUSTOM_RESVED2_START :: u32 where "CUSTOM_RESVED2_START = 84"
definition CUSTOM_RESVED3_START :: u32 where "CUSTOM_RESVED3_START = 100"

definition efuse_write_customer_rsvd_efuse :: "u8 list option \<Rightarrow> efuse_dev \<Rightarrow> u32 \<times> efuse_dev" where
  "efuse_write_customer_rsvd_efuse data e =
     (if data = None \<or> length (the data) \<noteq> CUSTOM_RESVED_EFUSE_BYTE_LEN then (ERRCODE_FAIL, e)
      else
        let (ret, read_back, e1) = efuse_read_item 13 (Some (replicate CUSTOM_RESVED_EFUSE_BYTE_LEN 0)) e
        in if ret = ERRCODE_SUCC \<and> check_data read_back = ERRCODE_SUCC
           then uapi_efuse_write_buffer CUSTOM_RESVED_START data e1 else (ERRCODE_FAIL, e1))"

definition efuse_write_customer_rsvd2_efuse :: "u8 list option \<Rightarrow> efuse_dev \<Rightarrow> u32 \<times> efuse_dev" where
  "efuse_write_customer_rsvd2_efuse data e =
     (if data = None \<or> length (the data) \<noteq> CUSTOM_RESVED_EFUSE_BYTE_LEN then (ERRCODE_FAIL, e)
      else
        let blank = Some (replicate CUSTOM_RESVED_EFUSE_BYTE_LEN 0);
            (ret, read_back, e1) = uapi_efuse_read_buffer CUSTOM_RESVED2_START blank e
        in if ret = ERRCODE_SUCC \<and> check_data read_back = ERRCODE_SUCC
           then uapi_efuse_write_buffer CUSTOM_RESVED2_START data e1
           else
             let (ret, read_back3, e2) = uapi_efuse_read_buffer CUSTOM_RESVED3_START read_back e1
             in if ret = ERRCODE_SUCC \<and> check_data read_back3 = ERRCODE_SUCC
                then uapi_efuse_write_buffer CUSTOM_RESVED3_START data e2 else (ERRCODE_FAIL, e2))"

definition efuse_read_customer_rsvd2_efuse :: "u8 list option \<Rightarrow> efuse_dev \<Rightarrow> u32 \<times> u8 list option \<times> efuse_dev" where
  "efuse_read_customer_rsvd2_efuse buf e =
     (if buf = None \<or> length (the buf) \<noteq> CUSTOM_RESVED_EFUSE_BYTE_LEN then (ERRCODE_FAIL, buf, e)
      else
        let (ret, ys, e1) = uapi_efuse_read_buffer CUSTOM_RESVED3_START buf e
        in if ret = ERRCODE_SUCC \<and> check_data ys \<noteq> ERRCODE_SUCC then (ret, ys, e1)
           else
             let (ret, zs, e2) = uapi_efuse_read_buffer CUSTOM_RESVED2_START ys e1
             in if ret = ERRCODE_SUCC \<and> check_data zs \<noteq> ERRCODE_SUCC then (ret, zs, e2)
                else (ERRCODE_SUCC, zs, e2))"

section \<open>Keys and locks of the production test\<close>

definition efuse_write_jtag_ssi :: "efuse_dev \<Rightarrow> u32 \<times> efuse_dev" where
  "efuse_write_jtag_ssi e =
     (let (r1, e1) = uapi_efuse_write_bit (193 div 8) (193 mod 8) e;
          (r2, e2) = uapi_efuse_write_bit (194 div 8) (194 mod 8) e1;
          (r3, e3) = uapi_efuse_write_bit (195 div 8) (195 mod 8) e2
      in (r1 OR r2 OR r3, e3))"

definition efuse_read_jtag_ssi :: "u8 list option \<Rightarrow> efuse_dev \<Rightarrow> u32 \<times> u8 list option \<times> efuse_dev" where
  "efuse_read_jtag_ssi buf e =
     (if buf = None \<or> length (the buf) \<noteq> 1 then (ERRCODE_FAIL, buf, e)
      else
        let (ret, ys, e1) = uapi_efuse_read_buffer (193 div 8) (Some [0]) e; ssi_jtag = hd (the ys)
        in if ret \<noteq> ERRCODE_SUCC then (ret, buf, e1)
           else if ssi_jtag AND 0x0E \<noteq> 0 \<and> ssi_jtag AND 0x0E \<noteq> 0x0E then (ERRCODE_FAIL, buf, e1)
           else (ERRCODE_SUCC, Some [if ssi_jtag = 0 then 0 else 1], e1))"

definition efuse_write_hash_root_public_key :: "u8 list option \<Rightarrow> efuse_dev \<Rightarrow> u32 \<times> efuse_dev" where
  "efuse_write_hash_root_public_key data e =
     (if data = None \<or> length (the data) \<noteq> 32 then (ERRCODE_FAIL, e)
      else uapi_efuse_write_buffer (672 div 8) data e)"

definition efuse_read_hash_root_public_key :: "u8 list option \<Rightarrow> efuse_dev \<Rightarrow> u32 \<times> u8 list option \<times> efuse_dev" where
  "efuse_read_hash_root_public_key buf e =
     (if buf = None \<or> length (the buf) \<noteq> 32 then (ERRCODE_FAIL, buf, e)
      else uapi_efuse_read_buffer (672 div 8) buf e)"

definition efuse_write_sec_verify :: "efuse_dev \<Rightarrow> u32 \<times> efuse_dev" where
  "efuse_write_sec_verify e = uapi_efuse_write_bit (960 div 8) (960 mod 8) e"

definition efuse_read_sec_verify :: "u8 list option \<Rightarrow> efuse_dev \<Rightarrow> u32 \<times> u8 list option \<times> efuse_dev" where
  "efuse_read_sec_verify buf e =
     (if buf = None \<or> length (the buf) \<noteq> 1 then (ERRCODE_FAIL, buf, e)
      else case uapi_efuse_read_bit (960 div 8) (960 mod 8) e of
             (Inl err, e1) \<Rightarrow> (err, buf, e1) | (Inr v, e1) \<Rightarrow> (ERRCODE_SUCC, Some [v], e1))"

text \<open>The clock of the eFuse follows the crystal: \<open>tcxo24\<close> says whether it has 24 MHz.\<close>

definition set_efuse_period :: "bool \<Rightarrow> efuse_dev \<Rightarrow> efuse_dev" where
  "set_efuse_period tcxo24 e = hal_efuse_set_clock_period (if tcxo24 then 0x29 else 0x19) e"

section \<open>Reading an item\<close>

definition fuse_bit :: "efuse_dev \<Rightarrow> nat \<Rightarrow> bool" where
  "fuse_bit e n = bit (efuse_bytes e (n div 8)) (n mod 8)"

definition list_bit :: "u8 list \<Rightarrow> nat \<Rightarrow> bool" where
  "list_bit d j = bit (d ! (j div 8)) (j mod 8)"

text \<open>A device whose fuses and mode are those of another one; only the mode register may differ.\<close>

definition same_fuses :: "efuse_dev \<Rightarrow> efuse_dev \<Rightarrow> bool" where
  "same_fuses e e' = (efuse_bytes e' = efuse_bytes e \<and> same_mode e e')"

lemma same_fuses_refl [simp]: "same_fuses e e"
  by (simp add: same_fuses_def)

lemma same_fuses_mode [simp]: "same_fuses e (e'\<lparr>efuse_wr_rd := m\<rparr>) = same_fuses e e'"
  by (simp add: same_fuses_def same_mode_def)

lemma bit_position:
  assumes "unat (i :: u16) < 2048"
  shows "unat (ucast (i div 8) :: u32) = unat i div 8" and "unat (ucast (i mod 8) :: u8) = unat i mod 8"
proof -
  have "unat (i div 8) = unat i div 8" "unat (i mod 8) = unat i mod 8" by (simp_all add: unat_div unat_mod)
  then show "unat (ucast (i div 8) :: u32) = unat i div 8" by (simp add: unat_ucast_u16_u32)
  have "unat (ucast w :: u8) = unat w mod 256" for w :: u16 by (simp add: unsigned_ucast_eq unsigned_take_bit_eq take_bit_eq_mod)
  then show "unat (ucast (i mod 8) :: u8) = unat i mod 8"
    using \<open>unat (i mod 8) = unat i mod 8\<close> by (simp add: mod_mod_cancel)
qed

lemma list_bit_set:
  assumes "k < 8 * length d" and "j < 8 * length d"
  shows "list_bit (d[k div 8 := d ! (k div 8) OR 2 ^ (k mod 8)]) j = (list_bit d j \<or> j = k)"
proof -
  have "bit (2 ^ (k mod 8) :: u8) (j mod 8) = (j mod 8 = k mod 8)" by (auto simp: bit_exp_iff)
  moreover have "j div 8 < length d" "k div 8 < length d" using assms by auto
  moreover have "(j = k) = (j div 8 = k div 8 \<and> j mod 8 = k mod 8)" by (metis div_mult_mod_eq)
  ultimately show ?thesis by (auto simp: list_bit_def bit_or_iff nth_list_update)
qed

lemma item_bit_loop_ok:
  "efuse_ready e \<Longrightarrow> unat st + m + n \<le> 2048 \<Longrightarrow> m + n \<le> 8 * length d \<Longrightarrow> unat i = unat st + m \<Longrightarrow>
     \<exists>d' e'. item_bit_loop n i st d e = (ERRCODE_SUCC, d', e') \<and> same_fuses e e' \<and> length d' = length d
       \<and> (\<forall>j < 8 * length d. list_bit d' j = (list_bit d j \<or> m \<le> j \<and> j < m + n \<and> fuse_bit e (unat st + j)))"
proof (induction n arbitrary: m i d e)
  case 0
  then show ?case by auto
next
  case (Suc n)
  let ?e1 = "e\<lparr>efuse_wr_rd := 0x5a5a\<rparr>"
  let ?on = "fuse_bit e (unat st + m)"
  define d1 where "d1 = (if ?on then d[m div 8 := d ! (m div 8) OR 2 ^ (m mod 8)] else d)"
  have len: "length d1 = length d" by (simp add: d1_def)
  have i: "unat i < 2048" using Suc.prems(2,4) by simp
  have k: "unat (i - st) = m" using Suc.prems(4) by (simp add: unat_sub_if')
  have "unat ((i - st) div 8) = m div 8" "unat ((i - st) mod 8) = m mod 8" using k by (simp_all add: unat_div unat_mod)
  moreover have "uapi_efuse_read_bit (ucast (i div 8)) (ucast (i mod 8)) e = (Inr (if ?on then 1 else 0), ?e1)"
    using read_bit_ok [of e "ucast (i div 8)" "ucast (i mod 8)"] Suc.prems(1,4) i bit_position [OF i]
    by (simp add: fuse_bit_def div_less_iff_less_mult)
  ultimately have step: "item_bit_loop (Suc n) i st d e = item_bit_loop n (i + 1) st d1 ?e1"
    by (simp add: Let_def d1_def)
  have bits: "list_bit d1 j = (list_bit d j \<or> j = m \<and> ?on)" if "j < 8 * length d" for j
    using list_bit_set [of m d j] that Suc.prems(3) by (auto simp: d1_def)
  have "\<exists>d' e'. item_bit_loop n (i + 1) st d1 ?e1 = (ERRCODE_SUCC, d', e') \<and> same_fuses ?e1 e' \<and> length d' = length d1
      \<and> (\<forall>j < 8 * length d1. list_bit d' j = (list_bit d1 j \<or> Suc m \<le> j \<and> j < Suc m + n \<and> fuse_bit ?e1 (unat st + j)))"
  proof (rule Suc.IH)
    show "unat (i + 1) = unat st + Suc m" using i Suc.prems(4) by (simp add: unat_word_ariths)
  qed (use Suc.prems len in simp_all)
  moreover have "fuse_bit ?e1 = fuse_bit e" "same_fuses ?e1 e' = same_fuses e e'" for e'
    by (simp_all add: fuse_bit_def fun_eq_iff same_fuses_def same_mode_def)
  ultimately obtain d' e' where "item_bit_loop n (i + 1) st d1 ?e1 = (ERRCODE_SUCC, d', e')" "same_fuses e e'"
      "length d' = length d"
      "\<forall>j < 8 * length d. list_bit d' j = (list_bit d1 j \<or> Suc m \<le> j \<and> j < Suc m + n \<and> fuse_bit e (unat st + j))"
    using len by auto
  then show ?case using step bits by (auto simp: Suc_le_eq le_less)
qed

lemma g_efuse_cfg_rows: "(st, sz) \<in> set g_efuse_cfg \<Longrightarrow> 0 < unat sz \<and> unat sz \<le> 256 \<and> unat st + unat sz \<le> 2048"
  by (auto simp: g_efuse_cfg_def)

lemma read_item_bytes:
  fixes st sz :: u16
  assumes "efuse_ready e" and "unat sz mod 8 = 0" and "unat st mod 8 = 0" and "0 < unat sz" and "unat sz \<le> 256"
    and "unat st + unat sz \<le> 2048"
  shows "\<exists>ys e'. uapi_efuse_read_buffer (ucast (st div 8)) (Some (replicate (unat sz div 8) 0)) e = (ERRCODE_SUCC, Some ys, e')
    \<and> same_fuses e e' \<and> length ys = unat sz div 8 \<and> (\<forall>j < unat sz. list_bit ys j = fuse_bit e (unat st + j))"
proof -
  let ?b = "ucast (st div 8) :: u32" and ?n = "unat sz div 8"
  have b: "unat ?b = unat st div 8" by (simp add: unat_ucast_u16_u32 unat_div)
  have n: "0 < ?n" "unat st div 8 + ?n \<le> 256" using assms(2-6) by auto
  have "list_bit (map (efuse_bytes e) [unat st div 8..<unat st div 8 + ?n]) j = fuse_bit e (unat st + j)" if "j < unat sz" for j
  proof -
    have "j div 8 < ?n" using that assms(2) by auto
    moreover have "(unat st + j) div 8 = unat st div 8 + j div 8" "(unat st + j) mod 8 = j mod 8"
      using assms(3) by (auto simp: div_plus_div_distrib_dvd_left dvd_eq_mod_eq_0 mod_add_eq [symmetric])
    ultimately show ?thesis by (simp add: list_bit_def fuse_bit_def)
  qed
  then show ?thesis
    using read_buffer_ok [of e "replicate ?n 0" ?b] assms(1) n b by auto
qed

text \<open>C29: Every item of the table is read exactly: into a buffer that is long enough the function puts
  the bits of the item, lowest first, and clears the rest, whether it copies bytes or
  collects single bits; the fuses do not change.\<close>

theorem read_item_exact:
  assumes "efuse_ready e" and "efuse_id < EFUSE_IDX_MAX" and "length d \<le> 32"
    and "g_efuse_cfg ! unat efuse_id = (st, sz)" and "unat sz \<le> 8 * length d"
  shows "\<exists>ys e'. efuse_read_item efuse_id (Some d) e = (ERRCODE_SUCC, Some ys, e') \<and> same_fuses e e'
    \<and> length ys = length d \<and> (\<forall>j < 8 * length d. list_bit ys j = (j < unat sz \<and> fuse_bit e (unat st + j)))"
proof -
  have "(st, sz) \<in> set g_efuse_cfg"
    using assms(2,4) nth_mem [of "unat efuse_id" g_efuse_cfg] by (simp add: word_less_nat_alt EFUSE_IDX_MAX_def g_efuse_cfg_def)
  note row = g_efuse_cfg_rows [OF this]
  have sz: "unat ((sz + 7) div 8) = (unat sz + 7) div 8" using row by (simp add: unat_div unat_word_ariths)
  have ge: "\<not> length d < (unat sz + 7) div 8" using assms(5) by simp
  have al: "(sz mod 8 = 0) = (unat sz mod 8 = 0)" "(st mod 8 = 0) = (unat st mod 8 = 0)"
    by (simp_all add: word_unat_eq_iff unat_mod)
  have id: "\<not> EFUSE_IDX_MAX \<le> efuse_id" using assms(2) by simp
  show ?thesis
  proof (cases "unat sz mod 8 = 0 \<and> unat st mod 8 = 0")
    case True
    then have n: "(unat sz + 7) div 8 = unat sz div 8" by presburger
    obtain ys e' where ys: "uapi_efuse_read_buffer (ucast (st div 8)) (Some (replicate (unat sz div 8) 0)) e = (ERRCODE_SUCC, Some ys, e')"
      "same_fuses e e'" "length ys = unat sz div 8" "\<forall>j < unat sz. list_bit ys j = fuse_bit e (unat st + j)"
      using read_item_bytes [OF assms(1) conjunct1 [OF True] conjunct2 [OF True]] row by metis
    let ?r = "ys @ replicate (length d - unat sz div 8) 0"
    have "efuse_read_item efuse_id (Some d) e = (ERRCODE_SUCC, Some ?r, e')"
      using True ys(1) n sz ge al id assms(4) by (simp add: efuse_read_item_def min_absorb1)
    moreover have "list_bit ?r j = (j < unat sz \<and> fuse_bit e (unat st + j))" if "j < 8 * length d" for j
    proof (cases "j < unat sz")
      case True2: True
      then have "j div 8 < length ys" using True ys(3) by auto
      then show ?thesis using True2 ys(4) by (simp add: list_bit_def nth_append)
    next
      case False
      then have "\<not> j div 8 < length ys" using True ys(3) by auto
      then show ?thesis using False that ys(3) by (auto simp: list_bit_def nth_append)
    qed
    ultimately show ?thesis using ys(2,3) ge n by auto
  next
    case False
    then obtain d' e' where l: "item_bit_loop (unat sz) st st (replicate (length d) 0) e = (ERRCODE_SUCC, d', e')" "same_fuses e e'"
      "length d' = length d"
      "\<forall>j < 8 * length d. list_bit d' j = (list_bit (replicate (length d) 0) j \<or> j < unat sz \<and> fuse_bit e (unat st + j))"
      using item_bit_loop_ok [of e st 0 "unat sz" "replicate (length d) 0" st] assms row by auto
    have "\<not> list_bit (replicate (length d) 0) j" if "j < 8 * length d" for j using that by (simp add: list_bit_def)
    then show ?thesis using False l sz ge al id assms(4) by (auto simp: efuse_read_item_def)
  qed
qed

lemma read_item_exact_witness:
  "\<exists>ys e'. efuse_read_item 16 (Some (replicate 32 7)) (snd (uapi_efuse_init (fuse_chip 0xA5C3))) = (ERRCODE_SUCC, Some ys, e')
    \<and> same_fuses (snd (uapi_efuse_init (fuse_chip 0xA5C3))) e' \<and> length ys = length (replicate 32 (7 :: u8))
    \<and> (\<forall>j < 8 * length (replicate 32 (7 :: u8)). list_bit ys j
        = (j < unat (15 :: u16) \<and> fuse_bit (snd (uapi_efuse_init (fuse_chip 0xA5C3))) (unat (1120 :: u16) + j)))"
  by (rule read_item_exact)
    (simp_all add: init_bytes EFUSE_IDX_MAX_def g_efuse_cfg_def)

section \<open>The four MAC addresses\<close>

text \<open>The first \<open>i\<close> slots are locked, the others are not.\<close>

definition mac_used :: "efuse_dev \<Rightarrow> nat \<Rightarrow> bool" where
  "mac_used e i = (\<forall>j < 4. fuse_bit e (314 + j) = (j < i))"

lemma four_cases: "(j :: nat) < 4 \<Longrightarrow> (j = 0 \<Longrightarrow> P) \<Longrightarrow> (j = 1 \<Longrightarrow> P) \<Longrightarrow> (j = 2 \<Longrightarrow> P) \<Longrightarrow> (j = 3 \<Longrightarrow> P) \<Longrightarrow> P"
  by linarith

lemma lock_position:
  "j < 4 \<Longrightarrow> unat (mac_lock_bit (of_nat j) div 8) = 39"
  "j < 4 \<Longrightarrow> unat (ucast (mac_lock_bit (of_nat j) mod 8) :: u8) = j + 2"
  "j < 4 \<Longrightarrow> unat (mac_start_bit (of_nat j) div 8) = 198 + 6 * j"
  by (erule four_cases; simp add: mac_lock_bit_def mac_start_bit_def)+

lemma lock_fuse: "j < 4 \<Longrightarrow> fuse_bit e (314 + j) = bit (efuse_bytes e 39) (j + 2)"
  by (erule four_cases) (simp_all add: fuse_bit_def numeral_2_eq_2 numeral_3_eq_3)

lemma lock_read:
  "efuse_ready e \<Longrightarrow> j < 4 \<Longrightarrow>
     uapi_efuse_read_bit (mac_lock_bit (of_nat j) div 8) (ucast (mac_lock_bit (of_nat j) mod 8)) e =
       (Inr (if fuse_bit e (314 + j) then 1 else 0), e\<lparr>efuse_wr_rd := 0x5a5a\<rparr>)"
  using read_bit_ok [of e "mac_lock_bit (of_nat j) div 8" "ucast (mac_lock_bit (of_nat j) mod 8)"]
  by (simp add: lock_position lock_fuse)

lemma fuse_bit_mode [simp]: "fuse_bit (e\<lparr>efuse_wr_rd := m\<rparr>) n = fuse_bit e n"
  by (simp add: fuse_bit_def)

lemma write_mac_skip:
  "efuse_ready e \<Longrightarrow> j < 4 \<Longrightarrow> fuse_bit e (314 + j) \<Longrightarrow>
     write_mac_loop (of_nat j # rest) d e = write_mac_loop rest d (e\<lparr>efuse_wr_rd := 0x5a5a\<rparr>)"
  by (simp add: lock_read)

lemma write_mac_hit:
  assumes "efuse_ready e" and "j < 4" and "\<not> fuse_bit e (314 + j)" and "length d = 6"
  shows "\<exists>e'. write_mac_loop (of_nat j # rest) d e = (ERRCODE_SUCC, e') \<and> same_mode e e'
    \<and> efuse_bytes e' = burnt 39 [2 ^ (j + 2)] (burnt (198 + 6 * j) d (efuse_bytes e))"
proof -
  let ?e = "e\<lparr>efuse_wr_rd := 0x5a5a\<rparr>"
  have "d \<noteq> []" "unat (mac_start_bit (of_nat j) div 8) + length d \<le> 256" using assms(2,4) lock_position(3) [OF assms(2)] by auto
  then obtain e1 where e1: "uapi_efuse_write_buffer (mac_start_bit (of_nat j) div 8) (Some d) ?e = (ERRCODE_SUCC, e1)"
      "same_mode ?e e1" "efuse_bytes e1 = burnt (198 + 6 * j) d (efuse_bytes e)"
    using write_buffer_ok [of ?e d "mac_start_bit (of_nat j) div 8"] assms(1) lock_position(3) [OF assms(2)] by auto
  have "efuse_ready e1" using e1(2) assms(1) by (simp add: same_mode_ready)
  moreover have "\<not> bit (efuse_bytes e1 39) (j + 2)" using assms(3) lock_fuse [OF assms(2), of e] by (simp add: e1(3) burnt_def)
  ultimately obtain e2 where e2: "uapi_efuse_write_bit (mac_lock_bit (of_nat j) div 8) (ucast (mac_lock_bit (of_nat j) mod 8)) e1
      = (ERRCODE_SUCC, e2)" "same_mode e1 e2" "efuse_bytes e2 = burnt 39 [2 ^ (j + 2)] (efuse_bytes e1)"
    using write_bit_ok [of e1 "mac_lock_bit (of_nat j) div 8" "ucast (mac_lock_bit (of_nat j) mod 8)"] assms(2)
    by (auto simp: lock_position)
  have "same_mode e e2" using e1(2) e2(2) by (simp add: same_mode_def)
  then show ?thesis using assms(1-3) e1(1,3) e2(1,3) by (simp add: lock_read Let_def)
qed

lemma write_mac_slot:
  assumes "efuse_ready e" and "mac_used e i" and "i < 4" and "length d = 6"
  shows "\<exists>e'. efuse_write_mac (Some d) e = (ERRCODE_SUCC, e') \<and> same_mode e e'
    \<and> efuse_bytes e' = burnt 39 [2 ^ (i + 2)] (burnt (198 + 6 * i) d (efuse_bytes e))"
proof -
  let ?e = "e\<lparr>efuse_wr_rd := 0x5a5a\<rparr>"
  have used: "\<And>j. j < 4 \<Longrightarrow> fuse_bit e (314 + j) = (j < i)" using assms(2) by (simp add: mac_used_def)
  have at: "\<exists>e'. write_mac_loop (of_nat i # rest) d e = (ERRCODE_SUCC, e') \<and> same_mode e e'
      \<and> efuse_bytes e' = burnt 39 [2 ^ (i + 2)] (burnt (198 + 6 * i) d (efuse_bytes e))"
    "\<exists>e'. write_mac_loop (of_nat i # rest) d ?e = (ERRCODE_SUCC, e') \<and> same_mode e e'
      \<and> efuse_bytes e' = burnt 39 [2 ^ (i + 2)] (burnt (198 + 6 * i) d (efuse_bytes e))" for rest
    using write_mac_hit [of e i d rest] write_mac_hit [of ?e i d rest] used [OF assms(3)] assms(1,3,4)
    by (auto simp: same_mode_def)
  have skip: "write_mac_loop (of_nat j # rest) d e = write_mac_loop rest d ?e"
    "write_mac_loop (of_nat j # rest) d ?e = write_mac_loop rest d ?e" if "j < i" for j rest
    using write_mac_skip [of e j rest d] write_mac_skip [of ?e j rest d] used [of j] that assms(1,3) by auto
  have "\<exists>rest s. s \<in> {e, ?e} \<and> write_mac_loop [0, 1, 2, 3] d e = write_mac_loop (of_nat i # rest) d s"
    using assms(3)
  proof (rule four_cases)
    assume i: "i = 3"
    have "write_mac_loop [0, 1, 2, 3] d e = write_mac_loop [of_nat i] d ?e"
      using skip(1) [of 0 "[1, 2, 3]"] skip(2) [of 1 "[2, 3]"] skip(2) [of 2 "[3]"] i by (simp del: write_mac_loop.simps)
    then show ?thesis by blast
  next
    assume i: "i = 2"
    have "write_mac_loop [0, 1, 2, 3] d e = write_mac_loop [of_nat i, 3] d ?e"
      using skip(1) [of 0 "[1, 2, 3]"] skip(2) [of 1 "[2, 3]"] i by (simp del: write_mac_loop.simps)
    then show ?thesis by blast
  next
    assume i: "i = 1"
    have "write_mac_loop [0, 1, 2, 3] d e = write_mac_loop [of_nat i, 2, 3] d ?e"
      using skip(1) [of 0 "[1, 2, 3]"] i by (simp del: write_mac_loop.simps)
    then show ?thesis by blast
  next
    assume "i = 0"
    then have "write_mac_loop [0, 1, 2, 3] d e = write_mac_loop [of_nat i, 1, 2, 3] d e" by simp
    then show ?thesis by blast
  qed
  then show ?thesis using at assms(4) by (auto simp: efuse_write_mac_def EFUSE_MAC_LEN_def simp del: write_mac_loop.simps)
qed

lemma upper_index: "index + j = 3 \<Longrightarrow> (3 - of_nat index :: u32) = of_nat j"
  by (metis add_diff_cancel_left' of_nat_add of_nat_numeral)

lemma read_mac_skip:
  "efuse_ready e \<Longrightarrow> index + j = 3 \<Longrightarrow> \<not> fuse_bit e (314 + j) \<Longrightarrow>
     read_mac_loop (of_nat index # rest) d e = read_mac_loop rest d (e\<lparr>efuse_wr_rd := 0x5a5a\<rparr>)"
  using lock_read [of e j] by (simp add: Let_def upper_index)

lemma read_mac_hit:
  assumes "efuse_ready e" and "index + j = 3" and "fuse_bit e (314 + j)" and "length d = 6"
  shows "read_mac_loop (of_nat index # rest) d e =
    (ERRCODE_SUCC, Some (map (efuse_bytes e) [198 + 6 * j..<198 + 6 * j + 6]), of_nat index, e\<lparr>efuse_wr_rd := 0x5a5a\<rparr>)"
proof -
  have j: "j < 4" and "d \<noteq> []" using assms(2,4) by auto
  moreover have "(ucast (of_nat index :: u32) :: u8) = of_nat index" using assms(2)
    by (simp add: word_unat_eq_iff unsigned_ucast_eq unsigned_take_bit_eq take_bit_nat_eq_self_iff unat_of_nat)
  ultimately show ?thesis
    using assms lock_read [of e j] read_buffer_ok [of "e\<lparr>efuse_wr_rd := 0x5a5a\<rparr>" d "mac_start_bit (of_nat j) div 8"]
      lock_position(3) [OF j]
    by (simp add: Let_def upper_index)
qed

lemma read_mac_slot:
  assumes "efuse_ready e" and "mac_used e (Suc i)" and "i < 4" and "length d = 6"
  shows "efuse_read_mac (Some d) l e =
    (ERRCODE_SUCC, Some (map (efuse_bytes e) [198 + 6 * i..<198 + 6 * i + 6]), of_nat (3 - i), e\<lparr>efuse_wr_rd := 0x5a5a\<rparr>)"
proof -
  let ?e = "e\<lparr>efuse_wr_rd := 0x5a5a\<rparr>"
  let ?r = "\<lambda>index. (ERRCODE_SUCC, Some (map (efuse_bytes e) [198 + 6 * i..<198 + 6 * i + 6]), of_nat index :: u8, ?e)"
  have used: "\<And>j. j < 4 \<Longrightarrow> fuse_bit e (314 + j) = (j \<le> i)" using assms(2) by (simp add: mac_used_def less_Suc_eq_le)
  have skip: "read_mac_loop (of_nat index # rest) d e = read_mac_loop rest d ?e"
    "read_mac_loop (of_nat index # rest) d ?e = read_mac_loop rest d ?e" if "index + i < 3" for index rest
    using read_mac_skip [of e index "3 - index" rest d] read_mac_skip [of ?e index "3 - index" rest d]
      used [of "3 - index"] that assms(1) by auto
  have hit: "read_mac_loop (of_nat index # rest) d e = ?r index"
    "read_mac_loop (of_nat index # rest) d ?e = ?r index" if "index + i = 3" for index rest
    using read_mac_hit [of e index i d rest] read_mac_hit [of ?e index i d rest] used [OF assms(3)] that assms(1,4) by auto
  have "read_mac_loop [0, 1, 2, 3] d e = ?r (3 - i)"
    using assms(3)
  proof (rule four_cases)
    assume i: "i = 3"
    show ?thesis using hit(1) [of 0 "[1, 2, 3]"] i by (simp del: read_mac_loop.simps)
  next
    assume i: "i = 2"
    show ?thesis using skip(1) [of 0 "[1, 2, 3]"] hit(2) [of 1 "[2, 3]"] i by (simp del: read_mac_loop.simps)
  next
    assume i: "i = 1"
    show ?thesis using skip(1) [of 0 "[1, 2, 3]"] skip(2) [of 1 "[2, 3]"] hit(2) [of 2 "[3]"] i
      by (simp del: read_mac_loop.simps)
  next
    assume i: "i = 0"
    show ?thesis using skip(1) [of 0 "[1, 2, 3]"] skip(2) [of 1 "[2, 3]"] skip(2) [of 2 "[3]"] hit(2) [of 3 "[]"] i
      by (simp del: read_mac_loop.simps)
  qed
  then show ?thesis using assms(4) by (simp add: efuse_read_mac_def EFUSE_MAC_LEN_def del: read_mac_loop.simps)
qed

lemma mac_used_next:
  assumes "mac_used e i" and "i < 4" and "length d = 6"
    and "efuse_bytes e' = burnt 39 [2 ^ (i + 2)] (burnt (198 + 6 * i) d (efuse_bytes e))"
  shows "mac_used e' (Suc i)"
proof -
  have "bit (2 ^ (i + 2) :: u8) (j + 2) = (j = i)" if "j < 4" for j
    by (rule four_cases [OF that]; rule four_cases [OF assms(2)]; simp)
  then show ?thesis using assms by (auto simp: mac_used_def lock_fuse burnt_def bit_or_iff less_Suc_eq)
qed

text \<open>C28: The chip takes four MAC addresses: with \<open>i < 4\<close> of them written, writing another one succeeds,
  touches only the next slot and its lock bit, and reading then gives exactly this address and
  the number of writes that are left; with four of them a write is refused and nothing changes.\<close>

theorem mac_write_then_read:
  assumes "efuse_ready e" and "mac_used e i" and "length d = 6" and "length buf = 6"
    and "\<forall>k. 198 + 6 * i \<le> k \<and> k < 204 + 6 * i \<longrightarrow> efuse_bytes e k = 0"
  shows "if i < 4 then
      \<exists>e1 e2. efuse_write_mac (Some d) e = (ERRCODE_SUCC, e1) \<and> mac_used e1 (Suc i)
        \<and> efuse_read_mac (Some buf) l e1 = (ERRCODE_SUCC, Some d, of_nat (3 - i), e2)
        \<and> (\<forall>k. k \<noteq> 39 \<and> \<not> (198 + 6 * i \<le> k \<and> k < 204 + 6 * i) \<longrightarrow> efuse_bytes e2 k = efuse_bytes e k)
    else \<exists>e1. efuse_write_mac (Some d) e = (ERRCODE_FAIL, e1) \<and> same_fuses e e1"
proof (cases "i < 4")
  case True
  obtain e1 where e1: "efuse_write_mac (Some d) e = (ERRCODE_SUCC, e1)" "same_mode e e1"
      "efuse_bytes e1 = burnt 39 [2 ^ (i + 2)] (burnt (198 + 6 * i) d (efuse_bytes e))"
    using write_mac_slot [OF assms(1,2) True assms(3)] by blast
  note used = mac_used_next [OF assms(2) True assms(3) e1(3)]
  have "efuse_ready e1" using e1(2) assms(1) by (simp add: same_mode_ready)
  note rd = read_mac_slot [OF this used True assms(4), of l]
  have "map (efuse_bytes e1) [198 + 6 * i..<198 + 6 * i + 6] = d"
    by (rule nth_equalityI) (use assms(3,5) in \<open>simp_all add: e1(3) burnt_def\<close>)
  moreover have "efuse_bytes e1 k = efuse_bytes e k"
    if "k \<noteq> 39 \<and> \<not> (198 + 6 * i \<le> k \<and> k < 204 + 6 * i)" for k
    using that assms(3) by (auto simp: e1(3) burnt_def)
  ultimately show ?thesis using True e1(1) used rd by auto
next
  case False
  let ?e = "e\<lparr>efuse_wr_rd := 0x5a5a\<rparr>"
  have used: "fuse_bit e (314 + j)" if "j < 4" for j using assms(2) False that by (simp add: mac_used_def)
  have skip: "write_mac_loop (of_nat j # rest) d e = write_mac_loop rest d ?e"
    "write_mac_loop (of_nat j # rest) d ?e = write_mac_loop rest d ?e" if "j < 4" for j rest
    using write_mac_skip [of e j rest d] write_mac_skip [of ?e j rest d] used [OF that] that assms(1) by auto
  have "write_mac_loop [0, 1, 2, 3] d e = write_mac_loop [] d ?e"
    using skip(1) [of 0 "[1, 2, 3]"] skip(2) [of 1 "[2, 3]"] skip(2) [of 2 "[3]"] skip(2) [of 3 "[]"]
    by (simp del: write_mac_loop.simps)
  then show ?thesis using False assms(3) by (simp add: efuse_write_mac_def EFUSE_MAC_LEN_def)
qed

lemma mac_write_then_read_witness:
  "\<exists>e1 e2. efuse_write_mac (Some [0, 1, 2, 3, 4, 5]) (snd (uapi_efuse_init (fuse_chip 0))) = (ERRCODE_SUCC, e1) \<and> mac_used e1 (Suc 0)
    \<and> efuse_read_mac (Some [9, 9, 9, 9, 9, 9]) 0 e1 = (ERRCODE_SUCC, Some [0, 1, 2, 3, 4, 5], of_nat (3 - 0), e2)"
proof -
  have "mac_used (snd (uapi_efuse_init (fuse_chip 0))) 0" "efuse_bytes (snd (uapi_efuse_init (fuse_chip 0))) k = 0"
    "efuse_ready (snd (uapi_efuse_init (fuse_chip 0)))" for k
    by (simp_all add: mac_used_def fuse_bit_def efuse_bytes_def fuse_chip_def init_bytes)
  then show ?thesis
    using mac_write_then_read [of "snd (uapi_efuse_init (fuse_chip 0))" 0 "[0, 1, 2, 3, 4, 5]" "[9, 9, 9, 9, 9, 9]" 0] by auto
qed

section \<open>Data that overlaps\<close>

lemma burnt_blank: "\<forall>k. b \<le> k \<and> k < b + length d \<longrightarrow> m k = 0 \<Longrightarrow> map (burnt b d m) [b..<b + length d] = d"
  by (rule nth_equalityI) (simp_all add: burnt_def)

text \<open>
  The second customer area lies in the fuses of the hash of the root public key: what a customer
  writes there comes back as the first half of that item.
\<close>

lemma customer2_is_root_key:
  assumes "efuse_ready e" and "length d = 16" and "\<forall>k. 84 \<le> k \<and> k < 116 \<longrightarrow> efuse_bytes e k = 0"
  shows "\<exists>e1 e2. efuse_write_customer_rsvd2_efuse (Some d) e = (ERRCODE_SUCC, e1)
    \<and> efuse_read_hash_root_public_key (Some (replicate 32 0)) e1 = (ERRCODE_SUCC, Some (d @ replicate 16 0), e2)"
proof -
  let ?e = "e\<lparr>efuse_wr_rd := 0x5a5a\<rparr>"
  have blank: "map (efuse_bytes e) [84..<100] = replicate 16 0"
    using replicate_length_same [of "map (efuse_bytes e) [84..<100]" 0] assms(3) by (simp add: eval_nat_numeral)
  have "uapi_efuse_read_buffer 84 (Some (replicate 16 0)) e = (ERRCODE_SUCC, Some (replicate 16 0), ?e)"
    using read_buffer_ok [OF assms(1), of "replicate 16 0" 84] blank by simp
  moreover have "d \<noteq> []" using assms(2) by auto
  then obtain e1 where e1: "uapi_efuse_write_buffer 84 (Some d) ?e = (ERRCODE_SUCC, e1)" "same_mode ?e e1"
      "efuse_bytes e1 = burnt 84 d (efuse_bytes e)"
    using write_buffer_ok [of ?e d 84] assms(1,2) by auto
  ultimately have w: "efuse_write_customer_rsvd2_efuse (Some d) e = (ERRCODE_SUCC, e1)"
    using assms(2) by (simp add: efuse_write_customer_rsvd2_efuse_def CUSTOM_RESVED_EFUSE_BYTE_LEN_def
        CUSTOM_RESVED2_START_def check_data_def)
  have "map (efuse_bytes e1) [84..<84 + length d] = d"
    unfolding e1(3) by (rule burnt_blank) (use assms(2,3) in simp)
  moreover have "map (efuse_bytes e1) [100..<116] = replicate 16 0"
    using replicate_length_same [of "map (efuse_bytes e1) [100..<116]" 0] assms(2,3)
    by (simp add: e1(3) burnt_def eval_nat_numeral)
  moreover have "[84..<116] = [84..<100] @ [100..<116 :: nat]" using upt_add_eq_append [of 84 100 16] by simp
  ultimately have "map (efuse_bytes e1) [84..<116] = d @ replicate 16 0" using assms(2) by simp
  moreover have "efuse_ready e1" using e1(2) assms(1) by (simp add: same_mode_ready)
  ultimately have "efuse_read_hash_root_public_key (Some (replicate 32 0)) e1
      = (ERRCODE_SUCC, Some (d @ replicate 16 0), e1\<lparr>efuse_wr_rd := 0x5a5a\<rparr>)"
    using read_buffer_ok [of e1 "replicate 32 0" 84] by (simp add: efuse_read_hash_root_public_key_def)
  with w show ?thesis by blast
qed

end
