(* ===== verification/BootAuth.thy ===== *)
theory BootAuth
  imports BootTransfer EfuseItems
begin

text \<open>
  The serial handshake and the change of the line speed: the rest of boot_uart_auth.c, the
  initialisation of the UART in serial.c and \<open>serial_port_set_baudrate\<close> of provision_ws63 main.c.
  The state of the loader gets its last parts here: the line parameters and the eFuse.
\<close>

section \<open>State\<close>

record uart_param_stru =
  baudrate :: u32
  databit :: u8
  stopbit :: u8
  parity :: u8
  flow_ctrl :: u8
  fifoline_tx_int :: u8
  fifoline_rx_int :: u8
  fifoline_rts :: u8
  uart_pad :: u8

record cmd_state = loader_state +
  g_uart_param :: uart_param_stru
  g_hiburn_uart_enabled :: bool
  efuse :: efuse_dev

definition UART_CFG_LEN :: nat where "UART_CFG_LEN = 8"
definition INTER_DATA_LEN :: u16 where "INTER_DATA_LEN = 0x12"
definition UART_TYPE_ROMBOOT_HANDSHAKE :: u8 where "UART_TYPE_ROMBOOT_HANDSHAKE = 0xF0"
abbreviation (input) ACK_SUCCESS :: u8 where "ACK_SUCCESS \<equiv> 0x5A"
abbreviation (input) ACK_FAILURE :: u8 where "ACK_FAILURE \<equiv> 0xA5"
definition CMD_SET_BUADRATE :: u8 where "CMD_SET_BUADRATE = 0x5A"

text \<open>A little-endian word of the payload.\<close>

definition le32 :: "u8 list \<Rightarrow> nat \<Rightarrow> u32" where
  "le32 bs i = ucast (bs ! i) OR push_bit 8 (ucast (bs ! (i + 1))) OR push_bit 16 (ucast (bs ! (i + 2)))
     OR push_bit 24 (ucast (bs ! (i + 3)))"

text \<open>The copy of the first eight bytes of the payload over the parameters.\<close>

definition load_uart_param :: "u8 list \<Rightarrow> uart_param_stru \<Rightarrow> uart_param_stru" where
  "load_uart_param pl p =
     p\<lparr>baudrate := le32 pl 0, databit := pl ! 4, stopbit := pl ! 5, parity := pl ! 6, flow_ctrl := pl ! 7\<rparr>"

section \<open>The UART\<close>

definition hiburn_uart_init :: "uart_param_stru \<Rightarrow> 'a cmd_state_scheme \<Rightarrow> 'a cmd_state_scheme" where
  "hiburn_uart_init p s =
     (boot_do (UartInit (baudrate p) (databit p - 5)
        (if parity p = 1 then 1 else if parity p = 2 then 2 else 0) (stopbit p - 1)) s)
       \<lparr>g_hiburn_uart_enabled := True\<rparr>"

definition hiburn_uart_deinit :: "'a cmd_state_scheme \<Rightarrow> 'a cmd_state_scheme" where
  "hiburn_uart_deinit s = (boot_do UartDeinit s)\<lparr>g_hiburn_uart_enabled := False\<rparr>"

definition serial_port_set_baudrate :: "uart_param_stru \<Rightarrow> 'a cmd_state_scheme \<Rightarrow> u32 \<times> 'a cmd_state_scheme" where
  "serial_port_set_baudrate p s =
     (let s1 = hiburn_uart_deinit s;
          s2 = boot_do (RegBit 0x44001104 18 False) s1;
          s3 = boot_do (RegBit 0x44001134 1 True) s2;
          s4 = boot_do (RegBit 0x44001104 18 True) s3;
          s5 = boot_do (UartClock 160000000) s4
      in (ERRCODE_SUCC, hiburn_uart_init p s5))"

section \<open>The handshake\<close>

text \<open>
  \<open>uart_ack\<close> sends the first ten bytes of the packet and the checksum; it sets all of them, and the
  second byte of its payload is \<open>g_encrypt_flag\<close>, which is never changed from 0.
\<close>

definition uart_ack :: "'a boot_io_scheme \<Rightarrow> 'a boot_io_scheme" where
  "uart_ack s =
     (let bs = ack_bytes ACK_SUCCESS 0 in serial_put_buf (drop 10 bs) (serial_put_buf (take 10 bs) s))"

definition uart_usr_interrupt_verify :: "uart_ctx \<Rightarrow> 'a cmd_state_scheme \<Rightarrow> u32 \<times> 'a cmd_state_scheme" where
  "uart_usr_interrupt_verify c s =
     (if packet_size c = INTER_DATA_LEN \<and> packet_type c = UART_TYPE_ROMBOOT_HANDSHAKE
      then (ERRCODE_SUCC, s\<lparr>g_uart_param := load_uart_param (payload c) (g_uart_param s)\<rparr>)
      else (ERRCODE_FAIL, s))"

definition uart_wait_usr_interrupt :: "uart_ctx \<Rightarrow> 'a cmd_state_scheme \<Rightarrow> (u32 \<times> 'a cmd_state_scheme) run" where
  "uart_wait_usr_interrupt c s =
     run_bind (uart_frame_rx c s) (\<lambda>(ret, c1, s1).
       if ret \<noteq> ERRCODE_SUCC then Done (ERRCODE_FAIL, s1) else Done (uart_usr_interrupt_verify c1 s1))"

definition uart_process :: "'a cmd_state_scheme \<Rightarrow> (u32 \<times> 'a cmd_state_scheme) run" where
  "uart_process s =
     run_bind (uart_wait_usr_interrupt empty_ctx (boot_do (BootStatus 0x5A03) s)) (\<lambda>(ret, s1).
       if ret \<noteq> ERRCODE_SUCC then Done (ERRCODE_FAIL, s1)
       else Done (ERRCODE_SUCC, mdelay 5 (uart_ack (uart_ack (uart_ack s1)))))"

text \<open>\<open>None\<close> is the NULL pointer.\<close>

definition uart_baudrate_rcv :: "uart_ctx \<Rightarrow> 'a cmd_state_scheme \<Rightarrow> uart_param_stru option \<times> 'a cmd_state_scheme" where
  "uart_baudrate_rcv c s =
     (if packet_size c \<noteq> INTER_DATA_LEN \<or> packet_type c \<noteq> CMD_SET_BUADRATE then (None, s)
      else
        let s1 = s\<lparr>g_uart_param := load_uart_param (payload c) (g_uart_param s)\<rparr>;
            s2 = mdelay 5 (uart_ack s1)
        in (Some (g_uart_param s2), s2))"

definition loader_set_baudrate :: "uart_ctx \<Rightarrow> 'a cmd_state_scheme \<Rightarrow> u32 \<times> 'a cmd_state_scheme" where
  "loader_set_baudrate c s =
     (case uart_baudrate_rcv c s of
        (None, s1) \<Rightarrow> (ERRCODE_FAIL, s1)
      | (Some p, s1) \<Rightarrow> serial_port_set_baudrate p s1)"

end
