(* ===== verification/BootEfuse.thy ===== *)
theory BootEfuse
  imports BootAuth
begin

text \<open>
  Burning and reading the eFuse over the loader: boot_efuse_opt.c. The configuration file is received
  into the RAM at \<open>BURN_EFUSE_BIN_ADDR\<close>, checked with a SHA-256 that the ROM computes (the parameter
  \<open>sha\<close>; its three calls may fail), and its items are burnt bit by bit.

  What the code reads from a bus address is \<open>bus_now\<close>: in the RAM the bytes at the start, changed by the
  writes that the log records; in the mapped flash what the parameter \<open>mem\<close> says.
\<close>

section \<open>Memory\<close>

fun ram_image :: "boot_event list \<Rightarrow> (u32 \<Rightarrow> u8) \<Rightarrow> u32 \<Rightarrow> u8" where
  "ram_image [] m = m"
| "ram_image (RamWrite a bs # es) m = ram_image es (store_bytes a bs m)"
| "ram_image (_ # es) m = ram_image es m"

text \<open>
  The flash is mapped at \<open>FLASH_START\<close>, read-only: its bytes after the operations \<open>log\<close> are \<open>mem log\<close>,
  whatever the flash makes of them.
\<close>

definition bus_now :: "(boot_event list \<Rightarrow> u32 \<Rightarrow> u8) \<Rightarrow> 'a boot_io_scheme \<Rightarrow> u32 \<Rightarrow> u8" where
  "bus_now mem s a =
     (if FLASH_START \<le> a \<and> a < FLASH_START + FLASH_LEN then mem (flash_log s) a
      else ram_image (boot_log s) (mem []) a)"

definition bus_u16 :: "(u32 \<Rightarrow> u8) \<Rightarrow> u32 \<Rightarrow> u16" where
  "bus_u16 bus a = le16 (bus a) (bus (a + 1))"

definition BURN_EFUSE_BIN_ADDR :: u32 where "BURN_EFUSE_BIN_ADDR = 0xA30000"
definition EFUSE_CFG_MAX_LEN :: u32 where "EFUSE_CFG_MAX_LEN = 1320"
definition EFUSE_CFG_MIN_LEN :: u32 where "EFUSE_CFG_MIN_LEN = 48"
definition EFUSE_READ_MAX_BYTE :: nat where "EFUSE_READ_MAX_BYTE = 32"
definition SHA_256_LENGTH :: u32 where "SHA_256_LENGTH = 32"

section \<open>The configuration file\<close>

text \<open>
  The header has the hash (32 bytes), \<open>stru_ver\<close>, \<open>stru_size\<close>, \<open>number\<close> (16 bits), the size of the file and
  eight reserved bytes: 48 bytes. The hash covers everything behind it.
\<close>

definition efuse_cfg_verify ::
    "(u8 list \<Rightarrow> u8 list) \<Rightarrow> (u32 \<Rightarrow> u8) \<Rightarrow> u32 \<Rightarrow> u32 \<Rightarrow> 'a boot_io_scheme \<Rightarrow> u32 \<times> 'a boot_io_scheme" where
  "efuse_cfg_verify sha bus file_addr file_len s =
     (let text = upload_mem bus (file_addr + 32) (unat (file_len - SHA_256_LENGTH));
          (ret, s1) = flash_call (CipherCall 0) s
      in if ret \<noteq> ERRCODE_SUCC then (ERRCODE_FAIL, boot_msg1 ''drv_rom_cipher_init !!! ret = '' ret s1)
         else let (ret, s2) = flash_call (CipherCall 1) s1
         in if ret \<noteq> ERRCODE_SUCC then (ERRCODE_FAIL, boot_msg1 ''drv_rom_cipher_sha256 !!! ret = '' ret s2)
         else let (ret, s3) = flash_call (CipherCall 2) s2
         in if ret \<noteq> ERRCODE_SUCC then (ERRCODE_FAIL, boot_msg1 ''drv_rom_cipher_deinit !!! ret = '' ret s3)
         else if upload_mem bus file_addr 32 \<noteq> sha text
         then (ERRCODE_FAIL, boot_msg0 ''hash commpare fail!!!'' s3)
         else if EFUSE_IDX_MAX < bus_u16 bus (file_addr + 34)
         then (ERRCODE_FAIL, boot_msg0 ''exceed efuse index!!!'' s3)
         else (ERRCODE_SUCC, s3))"

section \<open>Burning\<close>

text \<open>
  The loop of \<open>efuse_write_bits\<close>. \<open>i\<close> and \<open>j\<close> have 16 bits and the bound is an \<open>int\<close>: with a bound above
  65535 the loop ends only by an error, so it is a partial function, and \<open>None\<close> means that it
  does not return.
\<close>

partial_function (option) bits_loop ::
    "(u32 \<Rightarrow> u8) \<Rightarrow> u32 \<Rightarrow> nat \<Rightarrow> u16 \<Rightarrow> u16 \<Rightarrow> efuse_dev \<Rightarrow> (u32 \<times> efuse_dev) option" where
  "bits_loop bus key_data bound i j e =
     (if unat i < bound then
        if bus (key_data + ucast (drop_bit 3 j)) AND push_bit (unat (j AND 7)) 1 \<noteq> 0 then
          (let (ret, e1) = uapi_efuse_write_bit (ucast (drop_bit 3 i)) (ucast (i AND 7)) e
           in if ret \<noteq> ERRCODE_SUCC then Some (ret, e1) else bits_loop bus key_data bound (i + 1) (j + 1) e1)
        else bits_loop bus key_data bound (i + 1) (j + 1) e
      else Some (ERRCODE_SUCC, e))"

definition efuse_write_bits :: "(u32 \<Rightarrow> u8) \<Rightarrow> u16 \<Rightarrow> u16 \<Rightarrow> u32 \<Rightarrow> efuse_dev \<Rightarrow> (u32 \<times> efuse_dev) option" where
  "efuse_write_bits bus start_bit sz key_data e = bits_loop bus key_data (unat start_bit + unat sz) start_bit 0 e"

text \<open>
  The loop over the items, \<open>n\<close> of them to come and \<open>i\<close> done. An item has its own header of
  \<open>stru_size\<close> bytes, of which the first eight are version, size, start bit, width and the length of the
  value; the value is taken behind these eight. The result of a write only decides about a message.
\<close>

fun burn_items ::
    "(u32 \<Rightarrow> u8) \<Rightarrow> nat \<Rightarrow> nat \<Rightarrow> u32 \<Rightarrow> 'a cmd_state_scheme \<Rightarrow> (u32 \<times> 'a cmd_state_scheme) run" where
  "burn_items bus 0 i item s = Done (ERRCODE_SUCC, s)"
| "burn_items bus (Suc n) i item s =
     (if item = 0 then Done (ERRCODE_FAIL, s)
      else case efuse_write_bits bus (bus_u16 bus (item + 2)) (bus_u16 bus (item + 4)) (item + 8) (efuse s) of
        None \<Rightarrow> Looping
      | Some (ret, e1) \<Rightarrow>
          let s1 = s\<lparr>efuse := e1\<rparr>;
              s2 = (if ret \<noteq> ERRCODE_SUCC then
                      serial_puts nl (serial_puthex (ucast (bus_u16 bus (item + 4))) True
                        (serial_puts '' len(bits)='' (serial_puthex (ucast (bus_u16 bus (item + 2))) True
                          (serial_puts ''Start bit: '' (boot_msg1 ''efuse write error, index:'' (of_nat i) s1)))))
                    else s1)
          in burn_items bus n (Suc i) (item + ucast (bus (item + 1)) + ucast (bus_u16 bus (item + 6))) s2)"

definition efuse_burn ::
    "(u8 list \<Rightarrow> u8 list) \<Rightarrow> (u32 \<Rightarrow> u8) \<Rightarrow> u32 \<Rightarrow> u32 \<Rightarrow> 'a cmd_state_scheme \<Rightarrow> (u32 \<times> 'a cmd_state_scheme) run" where
  "efuse_burn sha bus file_addr file_len s =
     (let (ret, s1) = efuse_cfg_verify sha bus file_addr file_len s
      in if ret \<noteq> ERRCODE_SUCC then Done (ERRCODE_FAIL, boot_msg0 ''Efuse config file invalid'' s1)
         else burn_items bus (unat (bus_u16 bus (file_addr + 34))) 0 (file_addr + ucast (bus (file_addr + 33))) s1)"

definition loady_file :: "u32 \<Rightarrow> 'a cmd_state_scheme \<Rightarrow> u32 \<times> 'a cmd_state_scheme" where
  "loady_file ram_addr s = loader_serial_ymodem ram_addr 0 48 EFUSE_CFG_MAX_LEN (loader_ack ACK_SUCCESS s)"

definition loader_burn_efuse ::
    "(u8 list \<Rightarrow> u8 list) \<Rightarrow> (boot_event list \<Rightarrow> u32 \<Rightarrow> u8) \<Rightarrow> uart_ctx \<Rightarrow> 'a cmd_state_scheme \<Rightarrow> (u32 \<times> 'a cmd_state_scheme) run" where
  "loader_burn_efuse sha mem c s =
     (let file_len = le32 (payload c) 0
      in if file_len \<le> EFUSE_CFG_MIN_LEN \<or> EFUSE_CFG_MAX_LEN < file_len
         then Done (ERRCODE_FAIL, boot_msg1 ''File length error : '' file_len s)
         else let (ret, s1) = loady_file BURN_EFUSE_BIN_ADDR s
         in if ret \<noteq> ERRCODE_SUCC then Done (ret, boot_msg1 ''Loady efuse file failed:'' ret s1)
            else efuse_burn sha (bus_now mem s1) BURN_EFUSE_BIN_ADDR file_len s1)"

section \<open>Reading\<close>

definition put_read_bytes :: "u8 list \<Rightarrow> 'a boot_io_scheme \<Rightarrow> 'a boot_io_scheme" where
  "put_read_bytes bs s = foldl (\<lambda>s b. serial_puts ''  '' (serial_puthex (ucast b) True s)) s bs"

definition loader_read_efuse :: "uart_ctx \<Rightarrow> 'a cmd_state_scheme \<Rightarrow> u32 \<times> 'a cmd_state_scheme" where
  "loader_read_efuse c s =
     (let efuse_id = le16 (payload c ! 0) (payload c ! 1);
          s1 = serial_puts crnl (serial_puthex (ucast efuse_id) True
                 (serial_puts ''Start bit: '' (boot_msg0 ''Efuse read'' s)))
      in if EFUSE_IDX_MAX \<le> efuse_id then (ERRCODE_FAIL, boot_msg0 ''Params err'' s1)
         else let (ret, data, e1) = efuse_read_item efuse_id (Some (replicate EFUSE_READ_MAX_BYTE 0)) (efuse s1);
                  s2 = s1\<lparr>efuse := e1\<rparr>
         in if ret \<noteq> ERRCODE_SUCC then (ERRCODE_FAIL, s2)
            else (ERRCODE_SUCC, put_read_bytes (the data) s2))"

section \<open>What is burnt\<close>

text \<open>Bit \<open>x\<close> of a value in memory, lowest bit of the lowest byte first.\<close>

definition value_bit :: "(u32 \<Rightarrow> u8) \<Rightarrow> u32 \<Rightarrow> nat \<Rightarrow> bool" where
  "value_bit bus a x = bit (bus (a + of_nat (x div 8))) (x mod 8)"

lemma u16_7_mask: "(7 :: u16) = mask 3"
  by (simp add: mask_eq_exp_minus_1)

lemma byte_and_bit:
  "unat (drop_bit 3 (i :: u16)) = unat i div 8" "unat (i AND 7) = unat i mod 8"
  "unat (ucast (drop_bit 3 i) :: u32) = unat i div 8" "unat (ucast (i AND 7) :: u8) = unat i mod 8"
proof -
  show d: "unat (drop_bit 3 i) = unat i div 8" by (simp add: drop_bit_eq_div unat_div)
  have "i AND 7 = i mod 8" using take_bit_eq_mask [of 3 i] take_bit_eq_mod [of 3 i] u16_7_mask by simp
  then show m: "unat (i AND 7) = unat i mod 8" by (simp add: unat_mod)
  show "unat (ucast (drop_bit 3 i) :: u32) = unat i div 8" by (simp add: unat_ucast_u16_u32 d)
  have "unat (ucast w :: u8) = unat w mod 256" for w :: u16
    by (simp add: unsigned_ucast_eq unsigned_take_bit_eq take_bit_eq_mod)
  then show "unat (ucast (i AND 7) :: u8) = unat i mod 8" using m by (simp add: mod_mod_cancel)
qed

lemma write_bit_fuse:
  assumes "efuse_ready e" and "unat (i :: u16) < 2048" and "\<not> fuse_bit e (unat i)"
  shows "\<exists>e'. uapi_efuse_write_bit (ucast (drop_bit 3 i)) (ucast (i AND 7)) e = (ERRCODE_SUCC, e') \<and> same_mode e e'
    \<and> (\<forall>k. fuse_bit e' k = (fuse_bit e k \<or> k = unat i))"
proof -
  obtain e' where e': "uapi_efuse_write_bit (ucast (drop_bit 3 i)) (ucast (i AND 7)) e = (ERRCODE_SUCC, e')" "same_mode e e'"
      "efuse_bytes e' = burnt (unat i div 8) [2 ^ (unat i mod 8)] (efuse_bytes e)"
    using write_bit_ok [of e "ucast (drop_bit 3 i)" "ucast (i AND 7)"] assms
    by (auto simp: byte_and_bit fuse_bit_def div_less_iff_less_mult)
  have "fuse_bit e' k = (fuse_bit e k \<or> k = unat i)" for k
  proof -
    have "bit (2 ^ (unat i mod 8) :: u8) (k mod 8) = (k mod 8 = unat i mod 8)" by (auto simp: bit_exp_iff)
    moreover have "(k = unat i) = (k div 8 = unat i div 8 \<and> k mod 8 = unat i mod 8)" by (metis div_mult_mod_eq)
    ultimately show ?thesis by (auto simp: fuse_bit_def e'(3) burnt_def bit_or_iff)
  qed
  with e'(1,2) show ?thesis by blast
qed

lemma value_bit_test:
  assumes "unat (j :: u16) = x"
  shows "(bus (a + ucast (drop_bit 3 j)) AND push_bit (unat (j AND 7)) 1 \<noteq> (0 :: u8)) = value_bit bus a x"
proof -
  have "(ucast (drop_bit 3 j) :: u32) = of_nat (x div 8)"
    using assms unat_u16_less [of j] by (simp add: word_unat_eq_iff byte_and_bit unat_of_nat)
  then show ?thesis by (simp add: value_bit_def byte_and_bit(2) assms bit_test)
qed

lemma bits_loop_run:
  "efuse_ready e \<Longrightarrow> unat i + n = bound \<Longrightarrow> bound \<le> 2048 \<Longrightarrow> unat i = st + unat j \<Longrightarrow>
   \<forall>k. unat i \<le> k \<and> k < bound \<and> value_bit bus a (k - st) \<longrightarrow> \<not> fuse_bit e k \<Longrightarrow>
     \<exists>e'. bits_loop bus a bound i j e = Some (ERRCODE_SUCC, e') \<and> same_mode e e'
       \<and> (\<forall>k. fuse_bit e' k = (fuse_bit e k \<or> unat i \<le> k \<and> k < bound \<and> value_bit bus a (k - st)))"
proof (induction n arbitrary: i j e)
  case 0
  then show ?case by (subst bits_loop.simps) auto
next
  case (Suc n)
  let ?one = "value_bit bus a (unat j)"
  have i: "unat i < 2048" "unat i < bound" using Suc.prems(2,3) by auto
  have nxt: "unat (i + 1) = Suc (unat i)" "unat (j + 1) = Suc (unat j)"
    using i(1) Suc.prems(4) by (simp_all add: unat_word_ariths)
  have "\<exists>e1. same_mode e e1 \<and> (\<forall>k. fuse_bit e1 k = (fuse_bit e k \<or> k = unat i \<and> ?one))
      \<and> bits_loop bus a bound i j e = bits_loop bus a bound (i + 1) (j + 1) e1"
  proof (cases ?one)
    case True
    then have "\<not> fuse_bit e (unat i)" using Suc.prems(4,5) i(2) by auto
    then show ?thesis using write_bit_fuse [OF Suc.prems(1) i(1)] True i(2) value_bit_test [OF refl, of bus a j]
      by (subst bits_loop.simps) auto
  next
    case False
    then show ?thesis using i(2) value_bit_test [OF refl, of bus a j]
      by (intro exI [of _ e], subst bits_loop.simps) simp
  qed
  then obtain e1 where e1: "same_mode e e1" "\<And>k. fuse_bit e1 k = (fuse_bit e k \<or> k = unat i \<and> ?one)"
      "bits_loop bus a bound i j e = bits_loop bus a bound (i + 1) (j + 1) e1" by blast
  have ready: "efuse_ready e1" using e1(1) Suc.prems(1) by (simp add: same_mode_ready)
  have fresh: "\<forall>k. unat (i + 1) \<le> k \<and> k < bound \<and> value_bit bus a (k - st) \<longrightarrow> \<not> fuse_bit e1 k"
    using Suc.prems(5) nxt(1) e1(2) by auto
  have "unat (i + 1) + n = bound" "unat (i + 1) = st + unat (j + 1)" using nxt Suc.prems(2,4) by auto
  then obtain e' where e': "bits_loop bus a bound (i + 1) (j + 1) e1 = Some (ERRCODE_SUCC, e')" "same_mode e1 e'"
      "\<And>k. fuse_bit e' k = (fuse_bit e1 k \<or> unat (i + 1) \<le> k \<and> k < bound \<and> value_bit bus a (k - st))"
    using Suc.IH [OF ready _ Suc.prems(3) _ fresh] by blast
  have "unat i - st = unat j" using Suc.prems(4) by simp
  then have "fuse_bit e' k = (fuse_bit e k \<or> unat i \<le> k \<and> k < bound \<and> value_bit bus a (k - st))" for k
    using e1(2) e'(3) nxt(1) i(2) by (auto simp: Suc_le_eq le_less)
  then show ?case using e'(1,2) e1(1,3) same_mode_trans by auto
qed

text \<open>An item in memory: its start, its width and the fuses that it sets.\<close>

definition item_start :: "(u32 \<Rightarrow> u8) \<Rightarrow> u32 \<Rightarrow> nat" where
  "item_start bus it = unat (bus_u16 bus (it + 2))"

definition item_width :: "(u32 \<Rightarrow> u8) \<Rightarrow> u32 \<Rightarrow> nat" where
  "item_width bus it = unat (bus_u16 bus (it + 4))"

definition item_ones :: "(u32 \<Rightarrow> u8) \<Rightarrow> u32 \<Rightarrow> nat \<Rightarrow> bool" where
  "item_ones bus it k =
     (item_start bus it \<le> k \<and> k < item_start bus it + item_width bus it \<and> value_bit bus (it + 8) (k - item_start bus it))"

fun item_addrs :: "(u32 \<Rightarrow> u8) \<Rightarrow> nat \<Rightarrow> u32 \<Rightarrow> u32 list" where
  "item_addrs bus 0 it = []"
| "item_addrs bus (Suc n) it = it # item_addrs bus n (it + ucast (bus (it + 1)) + ucast (bus_u16 bus (it + 6)))"

text \<open>No item sets a fuse that is set already, by the chip or by an earlier item.\<close>

fun burnable :: "(u32 \<Rightarrow> u8) \<Rightarrow> u32 list \<Rightarrow> (nat \<Rightarrow> bool) \<Rightarrow> bool" where
  "burnable bus [] set_now = True"
| "burnable bus (it # rest) set_now =
     (it \<noteq> 0 \<and> item_start bus it + item_width bus it \<le> 2048 \<and> (\<forall>k. item_ones bus it k \<longrightarrow> \<not> set_now k)
      \<and> burnable bus rest (\<lambda>k. set_now k \<or> item_ones bus it k))"

lemma write_bits_run:
  assumes "efuse_ready e" and "item_start bus it + item_width bus it \<le> 2048"
    and "\<forall>k. item_ones bus it k \<longrightarrow> \<not> fuse_bit e k"
  shows "\<exists>e'. efuse_write_bits bus (bus_u16 bus (it + 2)) (bus_u16 bus (it + 4)) (it + 8) e = Some (ERRCODE_SUCC, e')
    \<and> same_mode e e' \<and> (\<forall>k. fuse_bit e' k = (fuse_bit e k \<or> item_ones bus it k))"
proof -
  let ?i = "bus_u16 bus (it + 2)" and ?st = "item_start bus it" and ?w = "item_width bus it"
  have i: "unat ?i = ?st" "unat (bus_u16 bus (it + 4)) = ?w" by (simp_all only: item_start_def item_width_def)
  have "\<exists>e'. bits_loop bus (it + 8) (?st + ?w) ?i 0 e = Some (ERRCODE_SUCC, e') \<and> same_mode e e'
      \<and> (\<forall>k. fuse_bit e' k = (fuse_bit e k \<or> unat ?i \<le> k \<and> k < ?st + ?w \<and> value_bit bus (it + 8) (k - ?st)))"
  proof (rule bits_loop_run [OF assms(1) _ assms(2)])
    show "unat ?i + ?w = ?st + ?w" "unat ?i = ?st + unat (0 :: u16)" using i(1) by simp_all
    show "\<forall>k. unat ?i \<le> k \<and> k < ?st + ?w \<and> value_bit bus (it + 8) (k - ?st) \<longrightarrow> \<not> fuse_bit e k"
      using assms(3) i(1) by (simp only: item_ones_def)
  qed
  then show ?thesis by (simp only: efuse_write_bits_def item_ones_def i)
qed

lemma burn_items_run:
  "efuse_ready (efuse s) \<Longrightarrow> burnable bus (item_addrs bus n it) (fuse_bit (efuse s)) \<Longrightarrow>
     \<exists>e'. burn_items bus n i it s = Done (ERRCODE_SUCC, s\<lparr>efuse := e'\<rparr>) \<and> same_mode (efuse s) e'
       \<and> (\<forall>k. fuse_bit e' k = (fuse_bit (efuse s) k \<or> (\<exists>x \<in> set (item_addrs bus n it). item_ones bus x k)))"
proof (induction n arbitrary: i it s)
  case 0
  then show ?case by (intro exI [of _ "efuse s"]) simp
next
  case (Suc n)
  obtain e1 where e1: "efuse_write_bits bus (bus_u16 bus (it + 2)) (bus_u16 bus (it + 4)) (it + 8) (efuse s) = Some (ERRCODE_SUCC, e1)"
      "same_mode (efuse s) e1" "\<And>k. fuse_bit e1 k = (fuse_bit (efuse s) k \<or> item_ones bus it k)"
    using write_bits_run [of "efuse s" bus it] Suc.prems by auto
  let ?next = "it + ucast (bus (it + 1)) + ucast (bus_u16 bus (it + 6))"
  have "fuse_bit e1 = (\<lambda>k. fuse_bit (efuse s) k \<or> item_ones bus it k)" using e1(3) by auto
  moreover have "efuse_ready e1" using e1(2) Suc.prems(1) by (simp add: same_mode_ready)
  ultimately obtain e' where "burn_items bus n (Suc i) ?next (s\<lparr>efuse := e1\<rparr>) = Done (ERRCODE_SUCC, s\<lparr>efuse := e'\<rparr>)"
      "same_mode e1 e'" "\<And>k. fuse_bit e' k = (fuse_bit e1 k \<or> (\<exists>x \<in> set (item_addrs bus n ?next). item_ones bus x k))"
    using Suc.IH [of "s\<lparr>efuse := e1\<rparr>" ?next "Suc i"] Suc.prems by auto
  then show ?case using e1 Suc.prems by (auto intro: same_mode_trans)
qed

section \<open>A whole burn\<close>

text \<open>A configuration file in memory that the check accepts.\<close>

definition config_ok :: "(u8 list \<Rightarrow> u8 list) \<Rightarrow> (u32 \<Rightarrow> u8) \<Rightarrow> u32 \<Rightarrow> u32 \<Rightarrow> bool" where
  "config_ok sha bus a len =
     (upload_mem bus a 32 = sha (upload_mem bus (a + 32) (unat (len - 32))) \<and> bus_u16 bus (a + 34) \<le> 19)"

lemma cipher_call_fields [simp]: "efuse (snd (flash_call ev s)) = efuse s"
  by (simp add: flash_call_def boot_do_def)

lemma cfg_verify_ok:
  fixes s :: "'a cmd_state_scheme"
  assumes "config_ok sha bus a len" and "flash_accepts s"
  shows "\<exists>s'. efuse_cfg_verify sha bus a len s = (ERRCODE_SUCC, s') \<and> efuse s' = efuse s"
proof -
  have ok: "\<exists>t'. flash_call ev t = (ERRCODE_SUCC, t') \<and> flash_accepts t' \<and> efuse t' = efuse t"
    if "flash_accepts t" for ev and t :: "'a cmd_state_scheme"
    using that flash_accepts_now [OF that] flash_accepts_call [OF that, of ev] cipher_call_fields [of ev t]
    by (intro exI [of _ "snd (flash_call ev t)"]) (simp add: flash_call_def)
  obtain s1 where "flash_call (CipherCall 0) s = (ERRCODE_SUCC, s1)" "flash_accepts s1" "efuse s1 = efuse s"
    using ok assms(2) by blast
  moreover from this obtain s2 where "flash_call (CipherCall 1) s1 = (ERRCODE_SUCC, s2)" "flash_accepts s2" "efuse s2 = efuse s1"
    using ok by blast
  moreover from this obtain s3 where "flash_call (CipherCall 2) s2 = (ERRCODE_SUCC, s3)" "efuse s3 = efuse s2"
    using ok by blast
  ultimately show ?thesis using assms(1)
    by (simp add: efuse_cfg_verify_def config_ok_def SHA_256_LENGTH_def EFUSE_IDX_MAX_def not_less)
qed

text \<open>C20: A configuration whose hash is right and whose items set no fuse twice is burnt exactly: the
  fuses set afterwards are those set before and those of the one-bits of its items, every
  item at its start bit and no further than its width.\<close>

theorem efuse_burn_exact:
  assumes "config_ok sha bus a len" and "flash_accepts s" and "efuse_ready (efuse s)"
    and "burnable bus (item_addrs bus (unat (bus_u16 bus (a + 34))) (a + ucast (bus (a + 33)))) (fuse_bit (efuse s))"
  shows "\<exists>s'. efuse_burn sha bus a len s = Done (ERRCODE_SUCC, s') \<and> same_mode (efuse s) (efuse s')
    \<and> (\<forall>k. fuse_bit (efuse s') k = (fuse_bit (efuse s) k
        \<or> (\<exists>x \<in> set (item_addrs bus (unat (bus_u16 bus (a + 34))) (a + ucast (bus (a + 33)))). item_ones bus x k)))"
proof -
  obtain s1 where s1: "efuse_cfg_verify sha bus a len s = (ERRCODE_SUCC, s1)" "efuse s1 = efuse s"
    using cfg_verify_ok [OF assms(1,2)] by blast
  then show ?thesis
    using burn_items_run [of s1 bus "unat (bus_u16 bus (a + 34))" "a + ucast (bus (a + 33))" 0] assms(3,4)
    by (auto simp: efuse_burn_def)
qed

text \<open>
  A file in memory with one item of two bytes for the bits 1776 to 1791; the example hash
  gives 32 zero bytes.
\<close>

definition demo_config :: "u8 list" where
  "demo_config = replicate 32 0 @ [0, 48, 1, 0, 60, 0, 0, 0] @ replicate 8 0
     @ [0, 8, 0xF0, 0x06, 16, 0, 4, 0, 0x81, 0x03, 0, 0]"

definition demo_bus :: "u32 \<Rightarrow> u8" where
  "demo_bus x = (if unat (x - 0xA30000) < length demo_config then demo_config ! unat (x - 0xA30000) else 0)"

definition cmd_idle :: "u8 option list \<Rightarrow> cmd_state" where
  "cmd_idle rx = \<lparr>g_uart_mute = False, rx_in = rx, boot_log = [], flash_ans = (\<lambda>_. 0), flash_n = 0,
     packet_len = 0, packet = replicate YMODEM_PACKET_SIZE 0, rx_eof = False, tx_ack = False, blk = 0,
     expected_blk = 0, file_length = 0, read_length = 0, g_flash_all_erased = False, g_upload_ctx = None,
     malloc_ok = True,
     g_uart_param = \<lparr>baudrate = 115200, databit = 8, stopbit = 1, parity = 0, flow_ctrl = 0, fifoline_tx_int = 3,
       fifoline_rx_int = 1, fifoline_rts = 4, uart_pad = 0\<rparr>,
     g_hiburn_uart_enabled = True, efuse = snd (uapi_efuse_init (fuse_chip 0))\<rparr>"

lemma efuse_burn_exact_witness:
  "\<exists>s'. efuse_burn (\<lambda>_. replicate 32 0) demo_bus 0xA30000 60 (cmd_idle []) = Done (ERRCODE_SUCC, s')
    \<and> fuse_bit (efuse s') 1776 \<and> \<not> fuse_bit (efuse s') 1777"
proof -
  note bus = demo_bus_def demo_config_def
  have hdr: "bus_u16 demo_bus (0xA30000 + 34) = 1" "demo_bus (0xA30000 + 33) = 48"
    by (simp_all add: bus_u16_def le16_def bus nth_append)
  have it: "bus_u16 demo_bus (0xA30030 + 2) = 1776" "bus_u16 demo_bus (0xA30030 + 4) = 16"
    "demo_bus 0xA30038 = 0x81"
    by (simp_all add: bus_u16_def le16_def bus nth_append)
  have items: "item_addrs demo_bus (unat (bus_u16 demo_bus (0xA30000 + 34))) (0xA30000 + ucast (demo_bus (0xA30000 + 33)))
      = [0xA30030]"
    using hdr by simp
  have blank: "\<not> fuse_bit (efuse (cmd_idle [])) k" for k
    by (simp add: cmd_idle_def fuse_bit_def efuse_bytes_def fuse_chip_def init_bytes)
  have ones: "item_ones demo_bus 0xA30030 1776" "\<not> item_ones demo_bus 0xA30030 1777"
    using it by (simp_all add: item_ones_def item_start_def item_width_def value_bit_def bit_iff_odd_drop_bit)
  have "demo_bus (0xA30000 + of_nat k) = 0" if "k < 32" for k
    using that unat_of_nat_u32 [of k] by (simp add: bus nth_append)
  then have "upload_mem demo_bus 0xA30000 32 = replicate 32 0"
    unfolding upload_mem_def by (intro nth_equalityI) simp_all
  then have "config_ok (\<lambda>_. replicate 32 0) demo_bus 0xA30000 60" using hdr(1) by (simp add: config_ok_def)
  moreover have "flash_accepts (cmd_idle [])" "efuse_ready (efuse (cmd_idle []))"
    by (simp_all add: flash_accepts_def cmd_idle_def init_bytes)
  moreover have "burnable demo_bus [0xA30030] (fuse_bit (efuse (cmd_idle [])))"
    using it blank by (simp add: item_start_def item_width_def)
  ultimately show ?thesis
    using efuse_burn_exact [of "\<lambda>_. replicate 32 0" demo_bus "0xA30000" 60 "cmd_idle []"] items ones blank by auto
qed

end
