(* ===== verification/BootCmd.thy ===== *)
theory BootCmd
  imports BootEfuse
begin

text \<open>
  The command loop of the loader: the commands of boot_cmd_loop.c, boot_erase.c and the table that
  connects them. The configuration is that of ws63_loaderboot.config: burning, chip erase, upload and the
  change of the line speed are there, reading the version is not.

  \<open>cmd_turn\<close> is the body of the endless loop of \<open>cmd_loop\<close>; \<open>sha\<close> and \<open>mem\<close> are the hash of the ROM and the
  memory of the bus (\<open>bus_now\<close>).
\<close>

section \<open>Chip erase: boot_erase.c\<close>

definition CMD_DL_IMAGE :: u8 where "CMD_DL_IMAGE = 0xD2"
definition CMD_RESET :: u8 where "CMD_RESET = 0x87"
definition CMD_FACTORY_IMAGE :: u8 where "CMD_FACTORY_IMAGE = 0x78"
definition CMD_BURN_EFUSE :: u8 where "CMD_BURN_EFUSE = 0xC3"
definition CMD_READ_EFUSE :: u8 where "CMD_READ_EFUSE = 0xA5"
definition CMD_UL_DATA :: u8 where "CMD_UL_DATA = 0xB4"
definition FLASH_CHIP_ERASE_FILE_LEN :: u32 where "FLASH_CHIP_ERASE_FILE_LEN = 0"
definition FLASH_MEM_SIZE :: u32 where "FLASH_MEM_SIZE = 0x400000"

definition loader_download_is_flash_all_erased :: "'a loader_state_scheme \<Rightarrow> bool" where
  "loader_download_is_flash_all_erased s = g_flash_all_erased s"

definition loader_download_set_flash_all_erase :: "bool \<Rightarrow> 'a loader_state_scheme \<Rightarrow> 'a loader_state_scheme" where
  "loader_download_set_flash_all_erase all_erased s = s\<lparr>g_flash_all_erased := all_erased\<rparr>"

text \<open>The error code, \<open>need_erase_all\<close> and \<open>need_write\<close>.\<close>

definition loader_get_erasing_writing :: "uart_ctx \<Rightarrow> u32 \<times> bool \<times> bool" where
  "loader_get_erasing_writing c =
     (let flen = le32 (payload c) 4; erase_size = le32 (payload c) 8
      in if packet_type c \<noteq> CMD_DL_IMAGE then (ERRCODE_FAIL, False, False)
         else (ERRCODE_SUCC, erase_size = FLASH_CHIP_ERASE_SIZE, flen \<noteq> FLASH_CHIP_ERASE_FILE_LEN))"

definition loader_erase_all_process :: "uart_ctx \<Rightarrow> 'a loader_state_scheme \<Rightarrow> u32 \<times> bool \<times> 'a loader_state_scheme" where
  "loader_erase_all_process c s =
     (let (ret, need_erase_all, need_write) = loader_get_erasing_writing c
      in if ret \<noteq> ERRCODE_SUCC then (ret, False, s)
         else if need_erase_all then
           let (ret, s1) = sfc_flash_erase 0 FLASH_CHIP_ERASE_SIZE (boot_wdt_kick s)
           in if ret \<noteq> ERRCODE_SUCC then (ret, False, s1)
              else (ERRCODE_SUCC, need_write, loader_download_set_flash_all_erase True s1)
         else (ERRCODE_SUCC, need_write, s))"

section \<open>Commands\<close>

text \<open>The device resets and never returns; the log goes up to the write of the reset register.\<close>

definition loader_reset :: "uart_ctx \<Rightarrow> cmd_state \<Rightarrow> (u32 \<times> cmd_state) run" where
  "loader_reset c s =
     (let s1 = mdelay 5 (loader_ack ACK_SUCCESS (boot_msg0 (nl @ ''Reset device...'' @ nl) s))
      in Halted (boot_log (boot_do ChipReset s1)))"

definition loader_download_image :: "uart_ctx \<Rightarrow> cmd_state \<Rightarrow> u32 \<times> cmd_state" where
  "loader_download_image c s =
     (let flash_size = FLASH_MEM_SIZE;
          download_addr = le32 (payload c) 0; flen = le32 (payload c) 4; erase_size = le32 (payload c) 8;
          burn_efuse = payload c ! 12;
          (ret, write_flash, s1) = loader_erase_all_process c s
      in if ret \<noteq> ERRCODE_SUCC then (ret, boot_msg1 ''Chip Erase failure!'' ret s1)
         else if \<not> write_flash then (ERRCODE_SUCC, s1)
         else if flen = 0 \<or> erase_size \<noteq> 0 \<and> erase_size < flen \<or> flash_size < flen then
           (ERRCODE_FAIL,
             serial_puts crnl (serial_puthex erase_size True (serial_puts '' erase_size ''
               (serial_puthex flen True (serial_puts '' file_len ''
                 (serial_puthex download_addr True (serial_puts ''download_addr ''
                   (boot_msg0 ''Invalid params'' s1))))))))
         else if packet_type c = CMD_FACTORY_IMAGE
         then download_factory_image download_addr erase_size flash_size burn_efuse s1
         else download_image download_addr erase_size flash_size burn_efuse s1)"

definition loader_upload_data :: "(boot_event list \<Rightarrow> u32 \<Rightarrow> u8) \<Rightarrow> uart_ctx \<Rightarrow> cmd_state \<Rightarrow> (u32 \<times> cmd_state) run" where
  "loader_upload_data mem c s =
     (let flen = le32 (payload c) 0; upload_addr = le32 (payload c) 4
      in if flen = 0 \<or> FLASH_MEM_SIZE < flen then Done (ERRCODE_FAIL, boot_msg0 ''Upload length error'' s)
         else if upload_addr AND 0x3 \<noteq> 0 then Done (ERRCODE_FAIL, boot_msg0 ''Upload addr error'' s)
         else if FLASH_MEM_SIZE < upload_addr + flen
         then Done (ERRCODE_FAIL, boot_msg0 ''Upload addr exceeds flash capacity'' s)
         else upload_data (bus_now mem s) upload_addr flen s)"

definition g_loader_cmdtable ::
    "(u8 list \<Rightarrow> u8 list) \<Rightarrow> (boot_event list \<Rightarrow> u32 \<Rightarrow> u8) \<Rightarrow> (u8 \<times> (uart_ctx \<Rightarrow> cmd_state \<Rightarrow> (u32 \<times> cmd_state) run)) list" where
  "g_loader_cmdtable sha mem =
     [(CMD_DL_IMAGE, \<lambda>c s. Done (loader_download_image c s)),
      (CMD_RESET, loader_reset),
      (CMD_FACTORY_IMAGE, \<lambda>c s. Done (loader_download_image c s)),
      (CMD_BURN_EFUSE, loader_burn_efuse sha mem),
      (CMD_READ_EFUSE, \<lambda>c s. Done (loader_read_efuse c s)),
      (CMD_UL_DATA, loader_upload_data mem),
      (CMD_SET_BUADRATE, \<lambda>c s. Done (loader_set_baudrate c s))]"

definition loader_exe_cmd ::
    "(u8 list \<Rightarrow> u8 list) \<Rightarrow> (boot_event list \<Rightarrow> u32 \<Rightarrow> u8) \<Rightarrow> uart_ctx \<Rightarrow> cmd_state \<Rightarrow> (u32 \<times> cmd_state) run" where
  "loader_exe_cmd sha mem c s =
     (case find (\<lambda>(cmd_type, cmdfunc). cmd_type = packet_type c) (g_loader_cmdtable sha mem) of
        Some (_, cmdfunc) \<Rightarrow> cmdfunc c s
      | None \<Rightarrow> Done (ERRCODE_FAIL, boot_msg1 ''Unsupport CMD:'' (ucast (packet_type c)) s))"

section \<open>The loop\<close>

definition cmd_turn ::
    "(u8 list \<Rightarrow> u8 list) \<Rightarrow> (boot_event list \<Rightarrow> u32 \<Rightarrow> u8) \<Rightarrow> cmd_state \<Rightarrow> cmd_state run" where
  "cmd_turn sha mem s =
     run_bind (loader_read_frame empty_ctx s) (\<lambda>(ret, c1, s1).
       if ret \<noteq> ERRCODE_SUCC then Done (loader_ack ACK_FAILURE s1)
       else run_bind (loader_exe_cmd sha mem c1 s1) (\<lambda>(ret2, s2).
         if ret2 \<noteq> ERRCODE_SUCC then Done (loader_ack ACK_FAILURE s2)
         else Done (boot_msg0 ''========================='' (boot_msg0 ''Execution Successful''
                (loader_ack ACK_SUCCESS (boot_wdt_kick s2))))))"

text \<open>
  \<open>n\<close> turns of the loop, and the loop as a transition system over the ways a turn can end: behind a turn that
  is done comes the next one; the others (a wait without end, a store behind the payload array, the reset, an
  endless loop) are final.
\<close>

fun cmd_loop :: "nat \<Rightarrow> (u8 list \<Rightarrow> u8 list) \<Rightarrow> (boot_event list \<Rightarrow> u32 \<Rightarrow> u8) \<Rightarrow> cmd_state \<Rightarrow> cmd_state run" where
  "cmd_loop 0 sha mem s = Done s"
| "cmd_loop (Suc n) sha mem s = run_bind (cmd_turn sha mem s) (cmd_loop n sha mem)"

inductive cmd_step ::
    "(u8 list \<Rightarrow> u8 list) \<Rightarrow> (boot_event list \<Rightarrow> u32 \<Rightarrow> u8) \<Rightarrow> cmd_state run \<Rightarrow> cmd_state run \<Rightarrow> bool" for sha mem where
  "cmd_step sha mem (Done s) (cmd_turn sha mem s)"

inductive_cases cmd_stepE: "cmd_step sha mem r r'"

end
