(* ===== verification/BootRun.thy ===== *)
theory BootRun
  imports BootCmd
begin

text \<open>
  The loader as a whole: what a turn of the command loop does for each command, and what every turn
  of it keeps.
\<close>

section \<open>What every command can rely on\<close>

lemma serial_chain_storage [simp]:
  "same_storage s (serial_puthex h p t) = same_storage s t" "same_storage s (loader_ack a t) = same_storage s t"
  "same_storage s (kicks n t) = same_storage s t"
proof -
  show "same_storage s (serial_puthex h p t) = same_storage s t" by (simp add: serial_puthex_def)
  show "same_storage s (loader_ack a t) = same_storage s t" by (simp add: loader_ack_def Let_def)
  show "same_storage s (kicks n t) = same_storage s t"
    by (induction n arbitrary: t) (simp_all add: kicks_def)
qed

lemma tx_serial [simp]:
  "tx_bytes (serial_puts m s) = tx_bytes s @ (if g_uart_mute s then [] else map of_char m)"
  "tx_bytes (loader_ack a s) = tx_bytes s @ (if g_uart_mute s then [] else ack_bytes a (NOT a))"
  "g_uart_mute (serial_puts m s) = g_uart_mute s" "g_uart_mute (serial_puthex h p s) = g_uart_mute s"
  "g_uart_mute (loader_ack a s) = g_uart_mute s"
proof -
  have "List.map_filter (\<lambda>e. case e of Tx b \<Rightarrow> Some b | _ \<Rightarrow> None) (map (\<lambda>c. Tx (of_char c)) m) = map of_char m"
    by (induction m) (simp_all add: map_filter_simps)
  then show "tx_bytes (serial_puts m s) = tx_bytes s @ (if g_uart_mute s then [] else map of_char m)"
    by (simp add: serial_puts_def check_uart_mute_def tx_bytes_def map_filter_def)
  show mute: "g_uart_mute (serial_puts m s) = g_uart_mute s" for m and s :: "'a boot_io_scheme"
    by (simp add: serial_puts_def)
  show "g_uart_mute (serial_puthex h p s) = g_uart_mute s" by (simp add: serial_puthex_def mute)
  show "tx_bytes (loader_ack a s) = tx_bytes s @ (if g_uart_mute s then [] else ack_bytes a (NOT a))"
    "g_uart_mute (loader_ack a s) = g_uart_mute s"
    by (simp_all add: loader_ack_def Let_def append_take_drop_id)
qed

text \<open>The head of a command frame as the receiver sees it.\<close>

definition cmd_ctx :: "u8 \<Rightarrow> u8 \<Rightarrow> u8 list \<Rightarrow> uart_ctx" where
  "cmd_ctx ct cpad args =
     (let sz = of_nat (length args + 10); sum = frame_sum (frame_head sz ct cpad @ args)
      in data_ctx sz ct cpad args (ucast sum) (ucast (drop_bit 8 sum)))"

lemma read_frame_cmd:
  assumes "Some 0xEF \<notin> set g" and "noise_count g \<le> 93" and "length args \<le> 1014"
    and "rx_in s = g @ map Some (cmd_frame ct cpad args) @ rest"
  shows "\<exists>k. loader_read_frame c s = Done (ERRCODE_SUCC, cmd_ctx ct cpad args, (kicks k s)\<lparr>rx_in := rest\<rparr>)"
proof -
  let ?sz = "of_nat (length args + 10) :: u16"
  let ?sum = "frame_sum (frame_head ?sz ct cpad @ args)"
  have "rx_in s = g @ map Some (frame_head ?sz ct cpad @ args @ [ucast ?sum, ucast (drop_bit 8 ?sum)]) @ rest"
    using assms(4) by (simp add: cmd_frame_def Let_def le16_bytes_def)
  from read_frame_wire [OF assms(1-3) refl this, of c] show ?thesis
    by (auto simp: le16_split cmd_ctx_def Let_def)
qed

lemma packet_size_data_ctx [simp]: "packet_size (data_ctx sz ct cpad args lo hi) = sz"
  using packet_size_head_ctx by (simp add: data_ctx_def packet_size_def)

lemma cmd_ctx_fields:
  "packet_type (cmd_ctx ct cpad args) = ct"
  "packet_size (cmd_ctx ct cpad args) = of_nat (length args + 10)"
  "i < length args \<Longrightarrow> payload (cmd_ctx ct cpad args) ! i = args ! i"
  "length args \<le> i \<Longrightarrow> i < 1024 \<Longrightarrow> payload (cmd_ctx ct cpad args) ! i = 0"
proof -
  show "packet_type (cmd_ctx ct cpad args) = ct"
    by (simp add: cmd_ctx_def Let_def data_ctx_def head_ctx_def packet_type_def frame_head_list eval_nat_numeral)
  show "packet_size (cmd_ctx ct cpad args) = of_nat (length args + 10)" by (simp add: cmd_ctx_def Let_def)
  have p: "payload (cmd_ctx ct cpad args) = args @ replicate (UART_PACKET_PAYLOAD_MAX - length args) 0"
    by (simp add: cmd_ctx_def Let_def data_ctx_def)
  show "i < length args \<Longrightarrow> payload (cmd_ctx ct cpad args) ! i = args ! i"
    "length args \<le> i \<Longrightarrow> i < 1024 \<Longrightarrow> payload (cmd_ctx ct cpad args) ! i = 0"
    by (simp_all add: p nth_append UART_PACKET_PAYLOAD_MAX_def)
qed

text \<open>The parameters of a command, as the host sends them.\<close>

definition u32_bytes :: "u32 \<Rightarrow> u8 list" where
  "u32_bytes w = [ucast w, ucast (drop_bit 8 w), ucast (drop_bit 16 w), ucast (drop_bit 24 w)]"

lemma length_u32_bytes [simp]: "length (u32_bytes w) = 4"
  by (simp add: u32_bytes_def)

lemma le32_bytes: "le32 (u32_bytes w) 0 = w"
proof (rule bit_word_eqI)
  fix n assume "n < LENGTH(32)"
  then show "bit (le32 (u32_bytes w) 0) n = bit w n"
    by (cases "24 \<le> n"; cases "16 \<le> n"; cases "8 \<le> n")
      (auto simp: le32_def u32_bytes_def bit_or_iff bit_push_bit_iff bit_ucast_iff bit_drop_bit_eq)
qed

lemma le32_at:
  assumes "i = length a" and "\<And>k. k < 4 \<Longrightarrow> bs ! (i + k) = (a @ u32_bytes w @ b) ! (i + k)"
  shows "le32 bs i = w"
proof -
  have "bs ! (i + k) = u32_bytes w ! k" if "k < 4" for k
    using assms(2) [OF that] that assms(1) by (simp add: nth_append)
  from this [of 0] this [of 1] this [of 2] this [of 3] have "le32 bs i = le32 (u32_bytes w) 0"
    by (simp add: le32_def eval_nat_numeral)
  then show ?thesis by (simp add: le32_bytes)
qed

definition download_args :: "u32 \<Rightarrow> u32 \<Rightarrow> u32 \<Rightarrow> u8 list" where
  "download_args addr len erase = u32_bytes addr @ u32_bytes len @ u32_bytes erase @ [0]"

lemma download_args_read:
  assumes "c = cmd_ctx ct cpad (download_args addr len erase)"
  shows "le32 (payload c) 0 = addr" "le32 (payload c) 4 = len" "le32 (payload c) 8 = erase"
proof -
  have p: "payload c ! i = download_args addr len erase ! i" if "i < 13" for i
    using that cmd_ctx_fields(3) [of i "download_args addr len erase"] assms by (simp add: download_args_def)
  show "le32 (payload c) 0 = addr" by (rule le32_at [of _ "[]"]) (simp_all add: p download_args_def)
  show "le32 (payload c) 4 = len"
    by (rule le32_at [of _ "u32_bytes addr" _ _ "u32_bytes erase @ [0]"]) (simp_all add: p download_args_def)
  show "le32 (payload c) 8 = erase"
    by (rule le32_at [of _ "u32_bytes addr @ u32_bytes len" _ _ "[0]"]) (simp_all add: p download_args_def)
qed

section \<open>The receiver keeps the rest of the state\<close>

text \<open>
  What a transfer leaves alone: the muting, the size of the packet buffer and all that the loader
  keeps beside the receiver.
\<close>

definition same_rest :: "'a ymodem_context_scheme \<Rightarrow> 'a ymodem_context_scheme \<Rightarrow> bool" where
  "same_rest s t = (g_uart_mute t = g_uart_mute s \<and> length (packet t) = length (packet s)
     \<and> ymodem_context.more t = ymodem_context.more s)"

lemma same_rest_refl [simp]: "same_rest s s"
  by (simp add: same_rest_def)

lemma same_rest_serial [simp]:
  "same_rest s (boot_do ev t) = same_rest s t" "same_rest s (serial_put_buf bs t) = same_rest s t"
  "same_rest s (serial_puts m t) = same_rest s t" "same_rest s (serial_putc c t) = same_rest s t"
  by (simp_all add: same_rest_def boot_do_def serial_put_buf_def serial_puts_def serial_putc_def)

lemma same_rest_ops [simp]:
  "same_rest s (udelay n t) = same_rest s t" "same_rest s (mdelay n t) = same_rest s t"
  "same_rest s (boot_wdt_kick t) = same_rest s t" "same_rest s (serial_puthex h b t) = same_rest s t"
  "same_rest s (boot_msg0 m t) = same_rest s t" "same_rest s (boot_msg1 m h t) = same_rest s t"
  "same_rest s (loader_ack a t) = same_rest s t" "same_rest s (boot_put_errno e t) = same_rest s t"
  by (simp_all add: udelay_def mdelay_def boot_wdt_kick_def serial_puthex_def boot_msg0_def boot_msg1_def
      loader_ack_def Let_def boot_put_errno_def)

lemma same_rest_fields [simp]:
  "same_rest s (t\<lparr>rx_in := x\<rparr>) = same_rest s t" "same_rest s (t\<lparr>flash_n := k\<rparr>) = same_rest s t"
  "same_rest s (t\<lparr>packet_len := a\<rparr>) = same_rest s t" "same_rest s (t\<lparr>rx_eof := v\<rparr>) = same_rest s t"
  "same_rest s (t\<lparr>tx_ack := v\<rparr>) = same_rest s t" "same_rest s (t\<lparr>blk := c\<rparr>) = same_rest s t"
  "same_rest s (t\<lparr>expected_blk := c\<rparr>) = same_rest s t" "same_rest s (t\<lparr>file_length := a\<rparr>) = same_rest s t"
  "same_rest s (t\<lparr>read_length := a\<rparr>) = same_rest s t"
  by (simp_all add: same_rest_def)

lemma same_rest_flush [simp]:
  "same_rest s (ymodem_flush t) = same_rest s t" "same_rest s (ymodem_close t) = same_rest s t"
  by (simp_all add: ymodem_flush_def ymodem_close_def)

lemma packet_loop_buffer: "packet_loop n i pkt xs = (ok, pkt', ys) \<Longrightarrow> length pkt' = length pkt"
  by (induction n i pkt xs rule: packet_loop.induct) auto

lemma same_rest_packet: "length p = length (packet t) \<Longrightarrow> same_rest s (t\<lparr>packet := p\<rparr>) = same_rest s t"
  by (simp add: same_rest_def)

lemma same_rest_getc: "ymodem_getc_timeout t = (r, t1) \<Longrightarrow> same_rest s t1 = same_rest s t"
  by (auto simp: getc_cases)

lemma same_rest_head: "ymodem_get_head_process t = (r, t1) \<Longrightarrow> same_rest s t1 = same_rest s t"
  by (auto simp: ymodem_get_head_process_def split: prod.splits ymodem_head.splits)

lemma same_rest_get_packet: "ymodem_get_packet t = (r, t1) \<Longrightarrow> same_rest s t1 = same_rest s t"
  by (auto simp: ymodem_get_packet_def Let_def same_rest_packet split: prod.splits option.splits if_splits
    dest!: same_rest_getc [of _ _ _ s] same_rest_head [of _ _ _ s] packet_loop_buffer)

lemma same_rest_get_packet_len [simp]: "same_rest s (get_packet_len t) = same_rest s t"
  by (simp add: get_packet_len_def Let_def)

lemma same_rest_check_loop: "same_rest s (snd (check_loop n p t)) = same_rest s t"
  by (induction n arbitrary: p t)
    (auto simp: Let_def split: prod.splits dest!: same_rest_get_packet [of _ _ _ s])

lemma same_rest_read_loop: "same_rest s (snd (ymodem_read_loop n acc t)) = same_rest s t"
proof (induction n acc t rule: ymodem_read_loop.induct)
  case (1 n acc t)
  obtain r t1 where p: "(if packet_len t = 0 then ymodem_check_packet t else (ERRCODE_SUCC, t)) = (r, t1)"
    by fastforce
  have "same_rest s t1 = same_rest s t"
    using p same_rest_check_loop [of s YMODEM_MAX_RETRIES ERRCODE_FAIL t]
    by (auto simp: ymodem_check_packet_def split: if_splits)
  then show ?case
    using "1.IH" [OF _ p [symmetric] refl] p
    by (subst ymodem_read_loop.simps) (simp add: Let_def)
qed

lemma same_rest_read: "ymodem_read n t = (bs, t1) \<Longrightarrow> same_rest s t1 = same_rest s t"
  using same_rest_read_loop [of s n "[]" t] by (simp add: ymodem_read_def)

lemma same_rest_get_info: "ymodem_get_info t = (r, t1) \<Longrightarrow> same_rest s t1 = same_rest s t"
  by (auto simp: ymodem_get_info_def Let_def split: option.splits if_splits)

lemma same_rest_open_loop: "open_loop k t = (r, t1) \<Longrightarrow> same_rest s t1 = same_rest s t"
  by (induction k arbitrary: t)
    (auto simp: Let_def split: prod.splits if_splits
      dest!: same_rest_get_packet [of _ _ _ s] same_rest_get_info [of _ _ _ s])

lemma same_rest_open: "ymodem_open t = (r, t1) \<Longrightarrow> same_rest s t1 = same_rest s t"
  unfolding ymodem_open_def by (drule same_rest_open_loop [where s = s]) simp

lemma same_rest_write: "sfc_flash_write a bs t = (r, t1) \<Longrightarrow> same_rest s t1 = same_rest s t"
  by (auto simp: sfc_flash_write_def flash_call_def split: if_splits)

lemma same_rest_erase: "sfc_flash_erase a n t = (r, t1) \<Longrightarrow> same_rest s t1 = same_rest s t"
  by (auto simp: sfc_flash_erase_def flash_call_def split: if_splits)

lemma same_rest_receive_loop: "same_rest s (snd (receive_loop flen a sz t)) = same_rest s t"
proof (induction flen a sz t rule: receive_loop.induct)
  case (1 flen a sz t)
  obtain buf t1 where r: "ymodem_read (min flen READ_SIZE) t = (buf, t1)" by fastforce
  obtain w t2 where w: "sfc_flash_write (a - FLASH_START) buf t1 = (w, t2)" by fastforce
  note [simp] = same_rest_read [OF r, of s] same_rest_write [OF w, of s]
  show ?case
    using "1.IH" [OF _ refl r [symmetric] refl _ refl w [symmetric]] r w
    by (subst receive_loop.simps) (simp add: Let_def)
qed

lemma same_rest_receive_file: "receive_file flen er a sz t = (p, t1) \<Longrightarrow> same_rest s t1 = same_rest s t"
  using same_rest_receive_loop [of s flen a sz t] same_rest_read_loop [of s READ_SIZE "[]"]
  by (auto simp: receive_file_def ymodem_read_def split: prod.splits if_splits)

lemma same_rest_load:
  assumes "loader_serial_ymodem a er mn mx t = (r, t1)"
  shows "same_rest s t1 = same_rest s t"
proof -
  obtain q u where o: "ymodem_open t = (q, u)" by fastforce
  obtain p v where f: "receive_file (ymodem_get_length u) er a 0 u = (p, v)" by fastforce
  note [simp] = same_rest_open [OF o, of s] same_rest_receive_file [OF f, of s]
  show ?thesis using assms o f unfolding loader_serial_ymodem_def Let_def
    by (cases p) (auto split: if_splits)
qed

lemma same_rest_download:
  assumes "download_to_flash a er sz t = (r, t1)"
  shows "same_rest s t1 = same_rest s t"
  using assms
  by (auto simp: download_to_flash_def Let_def split: prod.splits if_splits
    dest!: same_rest_load [of _ _ _ _ _ _ _ s] same_rest_erase [of _ _ _ _ _ s])

section \<open>Downloads, end to end\<close>

lemma packet_serial [simp]:
  "packet (serial_puts m s) = packet s" "packet (loader_ack a s) = packet s" "packet (boot_wdt_kick s) = packet s"
  "rx_in (serial_puts m s) = rx_in s" "rx_in (loader_ack a s) = rx_in s"
  by (simp_all add: serial_puts_def loader_ack_def serial_put_buf_def boot_wdt_kick_def boot_do_def Let_def)

lemma erased_kick [simp]: "g_flash_all_erased (boot_wdt_kick s) = g_flash_all_erased s"
  by (simp add: boot_wdt_kick_def boot_do_def)

lemma kicks_packet [simp]: "packet (kicks n s) = packet s"
  by (induction n) (simp_all add: kicks_def)

lemma kicks_erased [simp]: "g_flash_all_erased (kicks n s) = g_flash_all_erased s"
  by (induction n) (simp_all add: kicks_def)

lemma kicks_storage [simp]:
  "flash_log (kicks n s) = flash_log s" "flash_accepts (kicks n s) = flash_accepts s" "g_uart_mute (kicks n s) = g_uart_mute s"
  using serial_chain_storage(3) [of s n s] by (simp_all add: same_storage_def flash_accepts_def)

lemma erase_call:
  assumes "flash_accepts s"
  shows "\<exists>t. sfc_flash_erase (base + FLASH_START) n s = (ERRCODE_SUCC, t) \<and> flash_accepts t
    \<and> packet t = packet s \<and> rx_in t = rx_in s \<and> g_uart_mute t = g_uart_mute s
    \<and> flash_log t = flash_log s @ [if n = FLASH_CHIP_ERASE_SIZE then FlashEraseChip 0 else FlashErase base n 0]"
  using assms flash_accepts_now [OF assms] flash_accepts_call [OF assms, of "FlashErase base n"]
    flash_accepts_call [OF assms, of FlashEraseChip]
  by (simp add: sfc_flash_erase_def flash_call_def boot_do_def flash_log_def flash_event_def)

lemma download_image_complete:
  assumes "packet_size_of h = Some n" and "length data = unat n"
    and "data = name @ 0 # decimal (length img) @ 0 # pad" and "0 \<notin> set name" and "length name \<le> 128"
    and "stream_ok (length img) 0 cs" and "take (length img) (payload_of cs) = img"
    and "img \<noteq> []" and "length img \<le> 0x400000" and "erase = 0 \<or> length img \<le> unat erase" and "erase \<noteq> FLASH_CHIP_ERASE_SIZE"
    and "unat base + length img < 0x800000" and "flash_accepts s" and "length (packet s) = YMODEM_PACKET_SIZE"
    and "rx_in s = map Some (ymodem_frame h 0 data @ frames_of 1 cs) @ rest"
  shows "\<exists>s'. download_image (base + FLASH_START) erase 0x400000 b s = (ERRCODE_SUCC, s')
    \<and> flash_image (flash_log s') m = program_bytes base img
        (if erase = 0 then flash_image (flash_log s) m else erase_bytes base erase (flash_image (flash_log s) m))"
proof -
  have run: "\<exists>s'. loader_serial_ymodem (base + FLASH_START) sz 0 0x400000 (loader_ack 0x5A (boot_msg0 msg (boot_wdt_kick t)))
      = (ERRCODE_SUCC, s') \<and> flash_image (flash_log s') m = program_bytes base img (flash_image (flash_log t) m)"
    if "flash_accepts t" "packet t = packet s" "rx_in t = rx_in s" "length img \<le> unat sz" for t sz msg
  proof -
    let ?t = "loader_ack 0x5A (boot_msg0 msg (boot_wdt_kick t))"
    have st: "same_storage t ?t" by simp
    then have l: "flash_log ?t = flash_log t" by (rule same_storage_log)
    have "\<exists>s'. loader_serial_ymodem (base + FLASH_START) sz 0 0x400000 ?t = (ERRCODE_SUCC, s')
        \<and> flash_image (flash_log s') m = program_bytes base img (flash_image (flash_log ?t) m)"
    proof (rule download_complete [OF assms(1-8)])
      show "flash_accepts ?t" using that(1) flash_accepts_storage [OF st] by simp
      show "length (packet ?t) = YMODEM_PACKET_SIZE" "rx_in ?t = map Some (ymodem_frame h 0 data @ frames_of 1 cs) @ rest"
        using that(2,3) assms(14,15) by (simp_all add: boot_msg0_def)
    qed (use assms(8,9,12) that(4) in simp_all)
    then show ?thesis by (simp only: l)
  qed
  have L: "length img \<le> unat FLASH_CHIP_ERASE_SIZE" using assms(9) by (simp add: FLASH_CHIP_ERASE_SIZE_def)
  show ?thesis
  proof (cases "erase = 0")
    case True
    then show ?thesis using run [of "boot_wdt_kick s" FLASH_CHIP_ERASE_SIZE "''Ready for download''"] assms(13) L assms(11)
      by (auto simp: download_image_def download_to_flash_def)
  next
    case False
    let ?k = "boot_wdt_kick s"
    obtain t where t: "sfc_flash_erase (base + FLASH_START) erase ?k = (ERRCODE_SUCC, t)" "flash_accepts t"
        "packet t = packet s" "rx_in t = rx_in s" "flash_log t = flash_log s @ [FlashErase base erase 0]"
      using erase_call [of ?k base erase] assms(11,13) by auto
    have "length img \<le> unat erase" using assms(10) False by simp
    then show ?thesis using run [OF t(2-4), of erase "''Ready for download''"] t(1,5) False assms(11)
      by (auto simp: download_image_def download_to_flash_def flash_image_append)
  qed
qed

lemma turn_success:
  assumes "loader_read_frame empty_ctx s = Done (ERRCODE_SUCC, c, s1)"
    and "loader_exe_cmd sha mem c s1 = Done (ERRCODE_SUCC, s2)" and "\<not> g_uart_mute s2"
  shows "\<exists>s' pre. cmd_turn sha mem s = Done s' \<and> same_storage s2 s'
    \<and> tx_bytes s' = pre @ ack_bytes 0x5A 0xA5
        @ map of_char (''Execution Successful'' @ crnl @ ''========================='' @ crnl)"
proof -
  have e: "NOT (0x5A :: u8) = 0xA5" by simp
  have tx: "tx_bytes (loader_ack 0x5A t) = tx_bytes t @ (if g_uart_mute t then [] else ack_bytes 0x5A 0xA5)" for t :: cmd_state
    unfolding tx_serial(2) e ..
  show ?thesis using assms by (simp add: cmd_turn_def boot_msg0_def crnl_def tx del: tx_serial(2))
qed

lemma exe_download_image:
  assumes "c = cmd_ctx CMD_DL_IMAGE cpad (download_args addr len erase)" and "len \<noteq> 0" "\<not> FLASH_MEM_SIZE < len"
    "\<not> (erase \<noteq> 0 \<and> erase < len)" and "erase \<noteq> FLASH_CHIP_ERASE_SIZE"
    and "download_image addr erase 0x400000 (payload c ! 12) s = (ret, t)"
  shows "loader_exe_cmd sha mem c s = Done (ret, t)"
proof -
  have ty: "packet_type c = CMD_DL_IMAGE" using assms(1) by (simp add: cmd_ctx_fields(1))
  have ne: "CMD_DL_IMAGE \<noteq> CMD_FACTORY_IMAGE" by (simp add: CMD_DL_IMAGE_def CMD_FACTORY_IMAGE_def)
  have erase_all: "loader_erase_all_process c s = (ERRCODE_SUCC, True, s)"
    using assms(2,5) by (simp add: loader_erase_all_process_def loader_get_erasing_writing_def ty
      download_args_read [OF assms(1)] FLASH_CHIP_ERASE_FILE_LEN_def)
  have "loader_download_image c s = (ret, t)"
    using assms(2-4,6) by (auto simp: loader_download_image_def erase_all ty ne download_args_read [OF assms(1)]
      FLASH_MEM_SIZE_def Let_def)
  then show ?thesis by (simp add: loader_exe_cmd_def g_loader_cmdtable_def ty)
qed

text \<open>C18: A download as a host runs it: the command frame, with noise before it, and behind it the file in
  YMODEM packets. The turn of the command loop ends with the success acknowledgement, the announced
  range is erased and the flash holds exactly the file at its address. When the host asks for no erase,
  each byte of the file is programmed over what was there, and the flash holds the AND of the two. Nothing else
  of the flash changes in either case.\<close>

theorem download_command:
  assumes "Some 0xEF \<notin> set g" and "noise_count g \<le> 93"
    and "rx_in s = g @ map Some (cmd_frame CMD_DL_IMAGE cpad (download_args (base + FLASH_START) (of_nat (length img)) erase)
           @ ymodem_frame h 0 data @ frames_of 1 cs) @ rest"
    and "packet_size_of h = Some n" and "length data = unat n"
    and "data = name @ 0 # decimal (length img) @ 0 # pad" and "0 \<notin> set name" and "length name \<le> 128"
    and "stream_ok (length img) 0 cs" and "take (length img) (payload_of cs) = img"
    and "img \<noteq> []" and "length img \<le> 0x400000" and "erase = 0 \<or> length img \<le> unat erase" and "erase \<noteq> FLASH_CHIP_ERASE_SIZE"
    and "unat base + length img < 0x800000" and "flash_accepts s" and "length (packet s) = YMODEM_PACKET_SIZE"
    and "\<not> g_uart_mute s"
  shows "\<exists>s' pre. cmd_turn sha mem s = Done s'
    \<and> tx_bytes s' = pre @ ack_bytes 0x5A 0xA5
        @ map of_char (''Execution Successful'' @ crnl @ ''========================='' @ crnl)
    \<and> flash_image (flash_log s') m =
        (if erase = 0 then program_bytes base img (flash_image (flash_log s) m)
         else store_bytes base img (erase_bytes base erase (flash_image (flash_log s) m)))"
proof -
  let ?args = "download_args (base + FLASH_START) (of_nat (length img)) erase"
  let ?c = "cmd_ctx CMD_DL_IMAGE cpad ?args"
  let ?wire = "map Some (ymodem_frame h 0 data @ frames_of 1 cs) @ rest"
  have "length ?args \<le> 1014" by (simp add: download_args_def)
  moreover have "rx_in s = g @ map Some (cmd_frame CMD_DL_IMAGE cpad ?args) @ ?wire" using assms(3) by simp
  ultimately obtain k where rd: "loader_read_frame empty_ctx s = Done (ERRCODE_SUCC, ?c, (kicks k s)\<lparr>rx_in := ?wire\<rparr>)"
    using read_frame_cmd [OF assms(1,2)] by blast
  let ?s = "(kicks k s)\<lparr>rx_in := ?wire\<rparr>"
  have L: "unat (of_nat (length img) :: u32) = length img" using assms(12) by (simp add: unat_of_nat)
  have flen: "of_nat (length img) \<noteq> (0 :: u32)" "\<not> FLASH_MEM_SIZE < of_nat (length img)"
    "\<not> (erase \<noteq> 0 \<and> erase < of_nat (length img))"
    using L assms(11-13) by (auto simp: FLASH_MEM_SIZE_def word_less_nat_alt unat_eq_0 [symmetric])
  have acc: "flash_accepts ?s = flash_accepts (kicks k s)" by (simp add: flash_accepts_def)
  obtain s2 where s2: "download_image (base + FLASH_START) erase 0x400000 (payload ?c ! 12) ?s = (ERRCODE_SUCC, s2)"
    "flash_image (flash_log s2) m = program_bytes base img
        (if erase = 0 then flash_image (flash_log ?s) m else erase_bytes base erase (flash_image (flash_log ?s) m))"
  proof -
    have "\<exists>s2. download_image (base + FLASH_START) erase 0x400000 (payload ?c ! 12) ?s = (ERRCODE_SUCC, s2)
        \<and> flash_image (flash_log s2) m = program_bytes base img
          (if erase = 0 then flash_image (flash_log ?s) m else erase_bytes base erase (flash_image (flash_log ?s) m))"
      by (rule download_image_complete [OF assms(4-15)]) (use assms(16,17) acc in simp_all)
    then show ?thesis using that by blast
  qed
  have mute: "\<not> g_uart_mute s2"
    using s2(1) same_rest_download [of _ _ _ ?s _ s2 ?s] assms(18)
    by (auto simp: download_image_def same_rest_def split: prod.splits)
  have log: "flash_log ?s = flash_log s"
    using kicks_storage(1) [of k s] by (simp add: flash_log_def)
  have image: "loader_exe_cmd sha mem ?c ?s = Done (ERRCODE_SUCC, s2)"
    by (rule exe_download_image [OF refl flen assms(14)]) (use s2(1) in simp)
  have stored: "program_bytes base img (erase_bytes base erase n) = store_bytes base img (erase_bytes base erase n)"
    if "erase \<noteq> 0" for n
    using assms(13) that by (intro program_blank blank_erased) simp
  show ?thesis using turn_success [OF rd image mute] s2(2) stored by (auto simp: log dest: same_storage_log)
qed

definition demo_download :: "u8 option list" where
  "demo_download = [Some 0x20, Some 0x0D] @ map Some (cmd_frame CMD_DL_IMAGE 0
      (download_args (0x1000 + FLASH_START) (of_nat (length [0x55, 0xAA :: u8])) 0x1000)
    @ ymodem_frame 1 0 ([0x61] @ 0 # decimal 2 @ 0 # replicate 124 0)
    @ frames_of 1 [(1, [0x55, 0xAA] @ replicate 126 0x1A)]) @ [Some 4]"

lemma download_command_witness:
  "\<exists>s' pre. cmd_turn (\<lambda>_. []) (\<lambda>_ _. 0) (cmd_idle demo_download) = Done s'
    \<and> tx_bytes s' = pre @ ack_bytes 0x5A 0xA5
        @ map of_char (''Execution Successful'' @ crnl @ ''========================='' @ crnl)
    \<and> flash_image (flash_log s') (\<lambda>_. 0) =
        (if (0x1000 :: u32) = 0 then program_bytes 0x1000 [0x55, 0xAA] (flash_image (flash_log (cmd_idle demo_download)) (\<lambda>_. 0))
         else store_bytes 0x1000 [0x55, 0xAA] (erase_bytes 0x1000 0x1000 (flash_image (flash_log (cmd_idle demo_download)) (\<lambda>_. 0))))"
proof (rule download_command [where g = "[Some 0x20, Some 0x0D]" and cpad = 0 and h = 1 and n = 128 and name = "[0x61]"
        and data = "[0x61] @ 0 # decimal 2 @ 0 # replicate 124 0" and pad = "replicate 124 0"
        and cs = "[(1, [0x55, 0xAA] @ replicate 126 0x1A)]" and rest = "[Some 4]"])
  show "length ([0x61] @ 0 # decimal 2 @ 0 # replicate 124 0) = unat (128 :: u32)"
    by (simp add: decimal.simps)
  show "rx_in (cmd_idle demo_download) = [Some 0x20, Some 0x0D] @ map Some (cmd_frame CMD_DL_IMAGE 0
      (download_args (0x1000 + FLASH_START) (of_nat (length [0x55, 0xAA :: u8])) 0x1000)
    @ ymodem_frame 1 0 ([0x61] @ 0 # decimal 2 @ 0 # replicate 124 0)
    @ frames_of 1 [(1, [0x55, 0xAA] @ replicate 126 0x1A)]) @ [Some 4]"
    by (simp only: cmd_idle_def demo_download_def cmd_state.select_convs boot_io.select_convs)
qed (simp_all add: noise_count_def cmd_idle_def flash_accepts_def YMODEM_PACKET_SIZE_def FLASH_CHIP_ERASE_SIZE_def
      flip: numeral_2_eq_2)

section \<open>Frames that are refused\<close>

lemma turn_failure:
  assumes "loader_read_frame empty_ctx s = Done (ERRCODE_SUCC, c, s1)"
    and "loader_exe_cmd sha mem c s1 = Done (ret, s2)" and "ret \<noteq> ERRCODE_SUCC"
  shows "cmd_turn sha mem s = Done (loader_ack ACK_FAILURE s2)"
  using assms by (simp add: cmd_turn_def)

lemma cmd_ctx_serial [simp]:
  "efuse (boot_do ev s) = efuse s" "efuse (serial_puts m s) = efuse s" "efuse (serial_put_buf bs s) = efuse s"
  "efuse (serial_puthex h p s) = efuse s" "efuse (boot_msg0 m s) = efuse s" "efuse (boot_msg1 m h s) = efuse s"
  "efuse (loader_ack a s) = efuse s" "efuse (kicks k s) = efuse s"
proof -
  have io: "efuse (boot_do ev s) = efuse s" "efuse (serial_puts m s) = efuse s" "efuse (serial_put_buf bs s) = efuse s" for s ev m bs
    by (simp_all add: boot_do_def serial_puts_def serial_put_buf_def)
  have hex: "efuse (serial_puthex h p s) = efuse s" for h p s by (simp add: serial_puthex_def io)
  show "efuse (boot_do ev s) = efuse s" "efuse (serial_puts m s) = efuse s" "efuse (serial_put_buf bs s) = efuse s"
    "efuse (serial_puthex h p s) = efuse s" "efuse (boot_msg0 m s) = efuse s" "efuse (boot_msg1 m h s) = efuse s"
    "efuse (loader_ack a s) = efuse s"
    by (simp_all add: io hex boot_msg0_def boot_msg1_def loader_ack_def Let_def)
  show "efuse (kicks k s) = efuse s"
    by (induction k) (simp_all add: kicks_def boot_wdt_kick_def io)
qed

lemma rx_messages [simp]:
  "rx_in (serial_puthex h p s) = rx_in s" "rx_in (boot_msg1 m h s) = rx_in s" "g_uart_mute (boot_msg1 m h s) = g_uart_mute s"
proof -
  show hex: "rx_in (serial_puthex h p s) = rx_in s" for h p and s :: "'a boot_io_scheme" by (simp add: serial_puthex_def serial_put_buf_def serial_puts_def)
  show "rx_in (boot_msg1 m h s) = rx_in s" "g_uart_mute (boot_msg1 m h s) = g_uart_mute s"
    by (simp_all add: boot_msg1_def hex serial_puts_def)
qed

lemma factory_turn:
  assumes "Some 0xEF \<notin> set g" and "noise_count g \<le> 93" and "length args \<le> 1014"
    and "rx_in s = g @ map Some (cmd_frame CMD_FACTORY_IMAGE cpad args) @ rest" and "\<not> g_uart_mute s"
  shows "\<exists>s' pre. cmd_turn sha mem s = Done s' \<and> tx_bytes s' = pre @ ack_bytes 0xA5 0x5A
    \<and> flash_log s' = flash_log s \<and> efuse s' = efuse s \<and> rx_in s' = rest"
proof -
  let ?c = "cmd_ctx CMD_FACTORY_IMAGE cpad args"
  obtain k where rd: "loader_read_frame empty_ctx s = Done (ERRCODE_SUCC, ?c, (kicks k s)\<lparr>rx_in := rest\<rparr>)"
    using read_frame_cmd [OF assms(1-4)] by blast
  let ?s = "(kicks k s)\<lparr>rx_in := rest\<rparr>"
  let ?t = "boot_msg1 ''Chip Erase failure!'' ERRCODE_FAIL ?s"
  have ne: "CMD_DL_IMAGE \<noteq> CMD_FACTORY_IMAGE" "CMD_RESET \<noteq> CMD_FACTORY_IMAGE" "ERRCODE_FAIL \<noteq> (ERRCODE_SUCC :: u32)"
    by (simp_all add: CMD_DL_IMAGE_def CMD_FACTORY_IMAGE_def CMD_RESET_def)
  have "loader_exe_cmd sha mem ?c ?s = Done (ERRCODE_FAIL, ?t)"
    using ne by (simp add: loader_exe_cmd_def g_loader_cmdtable_def cmd_ctx_fields(1) loader_download_image_def
      loader_erase_all_process_def loader_get_erasing_writing_def)
  then have turn: "cmd_turn sha mem s = Done (loader_ack ACK_FAILURE ?t)" by (rule turn_failure [OF rd]) (rule ne(3))
  have e: "NOT (0xA5 :: u8) = 0x5A" by simp
  have "tx_bytes (loader_ack ACK_FAILURE ?t) = tx_bytes ?t @ ack_bytes 0xA5 0x5A"
    unfolding tx_serial(2) e using assms(5) by (simp add: boot_msg1_def)
  moreover have "same_storage s (loader_ack ACK_FAILURE ?t)" by simp
  ultimately show ?thesis using turn by (auto simp: same_storage_log)
qed

text \<open>C30: A correct frame with the documented command for a factory image is always answered with
  a failure, whatever its parameters are: the check for a chip erase, which runs before every download,
  knows the other download command only. Neither the flash nor the eFuse is touched.\<close>

theorem factory_image_refused:
  assumes "Some 0xEF \<notin> set g" and "noise_count g \<le> 93" and "length args \<le> 1014"
    and "rx_in s = g @ map Some (cmd_frame CMD_FACTORY_IMAGE cpad args) @ rest" and "\<not> g_uart_mute s"
  shows "\<exists>s' pre. cmd_turn sha mem s = Done s' \<and> tx_bytes s' = pre @ ack_bytes 0xA5 0x5A
    \<and> flash_log s' = flash_log s \<and> efuse s' = efuse s \<and> rx_in s' = rest"
  using assms by (rule factory_turn)

lemma factory_image_refused_witness:
  "\<exists>s' pre. cmd_turn (\<lambda>_. []) (\<lambda>_ _. 0) (cmd_idle (map Some (cmd_frame CMD_FACTORY_IMAGE 0 (download_args 0x200000 0x100 0)) @ [Some 1]))
      = Done s' \<and> tx_bytes s' = pre @ ack_bytes 0xA5 0x5A \<and> flash_log s' = flash_log (cmd_idle []) \<and> rx_in s' = [Some 1]"
proof -
  let ?s = "cmd_idle (map Some (cmd_frame CMD_FACTORY_IMAGE 0 (download_args 0x200000 0x100 0)) @ [Some 1])"
  have f: "rx_in ?s = [] @ map Some (cmd_frame CMD_FACTORY_IMAGE 0 (download_args 0x200000 0x100 0)) @ [Some 1]"
    "\<not> g_uart_mute ?s" "flash_log ?s = flash_log (cmd_idle [])" "length (download_args 0x200000 0x100 0) \<le> 1014"
    "noise_count [] \<le> 93"
    by (simp_all add: cmd_idle_def flash_log_def download_args_def noise_count_def)
  show ?thesis using factory_image_refused [of "[]" "download_args 0x200000 0x100 0" ?s 0 "[Some 1]" "\<lambda>_. []" "\<lambda>_ _. 0"] f
    by (simp only: list.set empty_iff simp_thms) blast
qed

section \<open>What every turn keeps\<close>

text \<open>
  The shape of the loader's state: the packet buffer has its size, the upload context, when there is one,
  has a full buffer and 4-bit counters, the line is neither muted nor left switched off, and the eFuse driver
  is initialised and has met no fault. \<open>loader_ok\<close> adds what the fuses are.
\<close>

definition upload_ok :: "upload_context \<Rightarrow> bool" where
  "upload_ok c = (length (ul_buffer c) = UPLOAD_BUFF_LEN \<and> ul_retry c < 16 \<and> ul_can_cnt c < 16)"

definition loader_sound :: "cmd_state \<Rightarrow> bool" where
  "loader_sound s = (length (packet s) = YMODEM_PACKET_SIZE \<and> pred_option upload_ok (g_upload_ctx s)
     \<and> \<not> g_uart_mute s \<and> g_hiburn_uart_enabled s \<and> efuse_ready (efuse s) \<and> \<not> efuse_fault (efuse s))"

definition loader_ok :: "(nat \<Rightarrow> u8) \<Rightarrow> cmd_state \<Rightarrow> bool" where
  "loader_ok fb s = (loader_sound s \<and> efuse_bytes (efuse s) = fb)"

lemma more_fields:
  fixes s t :: cmd_state
  assumes "ymodem_context.more t = ymodem_context.more s"
  shows "g_upload_ctx t = g_upload_ctx s" "g_hiburn_uart_enabled t = g_hiburn_uart_enabled s" "efuse t = efuse s"
  using assms by (cases s; cases t; simp)+

lemma loader_ok_same: "same_rest s t \<Longrightarrow> loader_ok fb t = loader_ok fb s"
  using more_fields [of t s] by (simp add: same_rest_def loader_ok_def loader_sound_def)





text \<open>An upload.\<close>

lemma upload_ok_fields [simp]:
  "upload_ok (c\<lparr>ul_status := st\<rparr>) = upload_ok c" "upload_ok (c\<lparr>ul_offset := off\<rparr>) = upload_ok c"
  "upload_ok (c\<lparr>ul_seq := q\<rparr>) = upload_ok c" "upload_ok (c\<lparr>ul_addr := a\<rparr>) = upload_ok c"
  "upload_ok (c\<lparr>ul_length := n\<rparr>) = upload_ok c"
  by (simp_all add: upload_ok_def)















lemma loader_ok_serial [simp]:
  "loader_ok fb (boot_do ev s) = loader_ok fb s" "loader_ok fb (serial_puts m s) = loader_ok fb s"
  "loader_ok fb (serial_puthex h p s) = loader_ok fb s" "loader_ok fb (boot_msg0 m s) = loader_ok fb s"
  "loader_ok fb (boot_msg1 m h s) = loader_ok fb s" "loader_ok fb (loader_ack a s) = loader_ok fb s"
  "loader_ok fb (boot_wdt_kick s) = loader_ok fb s" "loader_ok fb (mdelay n s) = loader_ok fb s"
  "loader_ok fb (serial_put_buf bs s) = loader_ok fb s"
  by (rule loader_ok_same, simp)+

lemma loader_sound_iff: "loader_sound s = loader_ok (efuse_bytes (efuse s)) s"
  by (simp add: loader_ok_def)

lemma loader_sound_same: "same_rest s t \<Longrightarrow> loader_sound t = loader_sound s"
  using more_fields [of t s] by (simp add: same_rest_def loader_sound_def)

lemma loader_sound_serial [simp]:
  "loader_sound (boot_do ev s) = loader_sound s" "loader_sound (serial_puts t s) = loader_sound s"
  "loader_sound (serial_puthex h p s) = loader_sound s" "loader_sound (boot_msg0 t s) = loader_sound s"
  "loader_sound (boot_msg1 t h s) = loader_sound s" "loader_sound (boot_wdt_kick s) = loader_sound s"
  by (rule loader_sound_same, simp)+

lemma loader_ok_flash_call:
  assumes "flash_call ev s = (r, s1)"
  shows "loader_ok fb s1 = loader_ok fb s"
  by (rule loader_ok_same) (use assms in \<open>auto simp: flash_call_def\<close>)
































end
