(* ===== verification/AtBase.thy ===== *)
theory AtBase
  imports CText
begin

text \<open>
  The AT command framework (src/src/middleware/utils/at/at): at_base.c and the result codes of at.h, in
  the configuration of ws63_liteos_app.config, which has neither log, attributes, asynchronous commands nor
  notifications.

  The functions that the application registers are oracles: \<open>malloc_ans\<close> says whether the n-th
  allocation of a size succeeds, \<open>queue_ans\<close> whether the n-th write to the message queue does, and
  \<open>handler_ans\<close> what the n-th command handler reports and returns. \<open>at_live\<close> counts the blocks that are
  allocated and not freed.
\<close>

section \<open>Types\<close>

datatype at_ret_t = AT_RET_OK | AT_RET_SYNTAX_ERROR | AT_RET_MALLOC_ERROR | AT_RET_MEM_API_ERROR
  | AT_RET_CHANNEL_PARA_ERROR | AT_RET_CHANNEL_NOT_INIT | AT_RET_CHANNEL_DATA_NULL | AT_RET_CMD_PARA_ERROR
  | AT_RET_CMD_FORMAT_ERROR | AT_RET_CMD_NO_MATCH | AT_RET_CMD_TYPE_ERROR | AT_RET_CMD_IN_PROGRESS_BLOCK
  | AT_RET_CMD_ATTR_NOT_ALLOW | AT_RET_PROC_CMD_FUNC_MISSING | AT_RET_PROC_READ_FUNC_MISSING
  | AT_RET_PROC_TEST_FUNC_MISSING | AT_RET_PROC_SET_FUNC_MISSING | AT_RET_PROC_WAIT_INTERACTIVITY
  | AT_RET_PROC_ABORT_CURRENT_COMMAND | AT_RET_PARSE_PARA_ERROR | AT_RET_PARSE_PARA_MISSING_ERROR
  | AT_RET_PROGRESS_BLOCK | AT_RET_TIMER_ERROR | AT_RET_ABORT_DELAY

datatype at_cmd_type_t = AT_CMD_TYPE_CMD | AT_CMD_TYPE_SET | AT_CMD_TYPE_READ | AT_CMD_TYPE_TEST | AT_CMD_TYPE_ERROR

text \<open>
  The parameter structure of a command: the 32-bit words and the pointers at its offsets. The
  fields of a structure do not overlap, so words and pointers are two maps; \<open>None\<close> is the NULL pointer, and
  a string is what is in front of its NUL.
\<close>

record at_args =
  arg_words :: "nat \<Rightarrow> u32"
  arg_ptrs :: "nat \<Rightarrow> string option"

definition zero_args :: at_args where
  "zero_args = \<lparr>arg_words = (\<lambda>_. 0), arg_ptrs = (\<lambda>_. None)\<rparr>"

text \<open>What the framework does to the outside: texts written to a channel and calls of handlers.\<close>

datatype at_event = AtWrite nat string | AtCall u16 at_cmd_type_t "at_args option"

text \<open>Which functions of the registered table are not NULL.\<close>

record at_base_api_t =
  malloc_func :: bool
  free_func :: bool
  msg_queue_create_func :: bool
  msg_queue_write_func :: bool
  msg_queue_read_func :: bool
  task_pause_func :: bool

record at_env =
  g_at_base_api :: at_base_api_t
  g_at_init_status :: bool
  malloc_ans :: "nat \<Rightarrow> nat \<Rightarrow> bool"
  malloc_n :: nat
  at_live :: nat
  queue_ans :: "nat \<Rightarrow> bool"
  queue_n :: nat
  handler_ans :: "nat \<Rightarrow> string list \<times> at_ret_t"
  handler_n :: nat
  at_log :: "at_event list"

section \<open>at_base.c\<close>

definition upper_char :: "char \<Rightarrow> char" where
  "upper_char c = (if 97 \<le> (of_char c :: nat) \<and> (of_char c :: nat) \<le> 122 then char_of ((of_char c :: nat) - 97 + 65) else c)"

definition at_base_toupper :: "string \<Rightarrow> nat \<Rightarrow> string" where
  "at_base_toupper str len = map upper_char (take len str) @ drop len str"

definition at_base_api_register_base_api_check :: "at_base_api_t \<Rightarrow> bool" where
  "at_base_api_register_base_api_check api =
     (msg_queue_create_func api \<and> msg_queue_read_func api \<and> msg_queue_write_func api
      \<and> malloc_func api \<and> free_func api \<and> task_pause_func api)"

text \<open>\<open>True\<close> is \<open>ERRCODE_SUCC\<close>, \<open>False\<close> is \<open>ERRCODE_INVALID_PARAM\<close>.\<close>

definition uapi_at_base_api_register :: "at_base_api_t \<Rightarrow> 'a at_env_scheme \<Rightarrow> bool \<times> 'a at_env_scheme" where
  "uapi_at_base_api_register api s =
     (if \<not> at_base_api_register_base_api_check api then (False, s)
      else (True, s\<lparr>g_at_base_api := api, g_at_init_status := True\<rparr>))"

definition at_base_is_at_init :: "'a at_env_scheme \<Rightarrow> bool" where
  "at_base_is_at_init s = g_at_init_status s"

text \<open>\<open>False\<close> is the NULL pointer.\<close>

definition at_malloc :: "nat \<Rightarrow> 'a at_env_scheme \<Rightarrow> bool \<times> 'a at_env_scheme" where
  "at_malloc sz s =
     (if malloc_func (g_at_base_api s) then
        let ok = malloc_ans s (malloc_n s) sz
        in (ok, s\<lparr>malloc_n := malloc_n s + 1, at_live := (if ok then at_live s + 1 else at_live s)\<rparr>)
      else (False, s))"

definition at_free :: "'a at_env_scheme \<Rightarrow> 'a at_env_scheme" where
  "at_free s = (if free_func (g_at_base_api s) then s\<lparr>at_live := at_live s - 1\<rparr> else s)"

definition at_emit :: "at_event \<Rightarrow> 'a at_env_scheme \<Rightarrow> 'a at_env_scheme" where
  "at_emit ev s = s\<lparr>at_log := at_log s @ [ev]\<rparr>"

section \<open>Lemmas\<close>

text \<open>What allocation leaves alone: everything but the counters.\<close>

definition heap_only :: "'a at_env_scheme \<Rightarrow> 'a at_env_scheme \<Rightarrow> bool" where
  "heap_only s t = (t\<lparr>malloc_n := malloc_n s, at_live := at_live s\<rparr> = s)"

lemma heap_only_refl [simp]: "heap_only s s"
  by (simp add: heap_only_def)

lemma heap_only_fields:
  assumes "heap_only s t"
  shows "g_at_base_api t = g_at_base_api s" "at_log t = at_log s" "at_env.more t = at_env.more s"
    "handler_n t = handler_n s" "handler_ans t = handler_ans s" "queue_n t = queue_n s" "queue_ans t = queue_ans s"
    "g_at_init_status t = g_at_init_status s" "malloc_ans t = malloc_ans s"
  using assms by (cases s; cases t; simp add: heap_only_def)+

lemma heap_onlyI:
  assumes "g_at_base_api t = g_at_base_api s" "at_log t = at_log s" "at_env.more t = at_env.more s"
    "handler_n t = handler_n s" "handler_ans t = handler_ans s" "queue_n t = queue_n s" "queue_ans t = queue_ans s"
    "g_at_init_status t = g_at_init_status s" "malloc_ans t = malloc_ans s"
  shows "heap_only s t"
  using assms by (cases s; cases t; simp add: heap_only_def)

lemma heap_only_trans: "heap_only s t \<Longrightarrow> heap_only t u \<Longrightarrow> heap_only s u"
  by (rule heap_onlyI) (simp_all add: heap_only_fields)

lemma heap_only_malloc: "at_malloc n s = (ok, t) \<Longrightarrow> heap_only s t"
  by (rule heap_onlyI) (auto simp: at_malloc_def Let_def split: if_splits)

lemma heap_only_free: "heap_only s (at_free s)"
  by (rule heap_onlyI) (simp_all add: at_free_def)

text \<open>A registered heap: an allocation that succeeds adds a block, and freeing removes one.\<close>

definition at_ready :: "'a at_env_scheme \<Rightarrow> bool" where
  "at_ready s = (malloc_func (g_at_base_api s) \<and> free_func (g_at_base_api s))"

lemma live_malloc: "at_malloc n s = (ok, t) \<Longrightarrow> at_live t = (if ok then at_live s + 1 else at_live s)"
  by (auto simp: at_malloc_def Let_def split: if_splits)

lemma live_free: "at_ready s \<Longrightarrow> at_live (at_free s) = at_live s - 1"
  by (simp add: at_free_def at_ready_def)

lemma ready_heap: "heap_only s t \<Longrightarrow> at_ready t = at_ready s"
  by (simp add: at_ready_def heap_only_fields)

lemma length_toupper [simp]: "length (at_base_toupper s n) = length s"
  by (simp add: at_base_toupper_def)

end
