(* ===== verification/AtParse.thy ===== *)
theory AtParse
  imports AtBase
begin

text \<open>
  at_parse.c: the list of commands of a line, the type of a command and its parameters.

  A string is what is in front of its NUL; reading the character at its end gives the NUL. A pointer into a
  string is the rest of the string. The counters of 16 bits are numbers: a line has at most
  4160 characters, the size of the channel's buffer.
\<close>

section \<open>The commands of a line\<close>

datatype at_format_t = AT_FORMAT_ADD | AT_FORMAT_EXPAND | AT_FORMAT_ERROR

datatype at_parse_state_t = AT_NORMAL_STATE | AT_ESCAPE_STATE | AT_END_STATE

record at_cmd_info_t =
  cmd_str :: string
  str_len :: u16
  cmd_channel :: nat

record at_parse_env = at_env +
  g_at_remain_list :: "at_cmd_info_t list"

definition NUL :: char where "NUL = CHR 0x00"

definition char_at :: "string \<Rightarrow> nat \<Rightarrow> char" where
  "char_at s i = (if i < length s then s ! i else NUL)"

definition at_parse_has_remain_cmd :: "'a at_parse_env_scheme \<Rightarrow> bool" where
  "at_parse_has_remain_cmd s = (g_at_remain_list s \<noteq> [])"

definition at_parse_get_next_remain_cmd ::
    "'a at_parse_env_scheme \<Rightarrow> at_cmd_info_t option \<times> 'a at_parse_env_scheme" where
  "at_parse_get_next_remain_cmd s =
     (case g_at_remain_list s of [] \<Rightarrow> (None, s) | cmd # rest \<Rightarrow> (Some cmd, s\<lparr>g_at_remain_list := rest\<rparr>))"

definition at_parse_format_of_cmd :: "at_cmd_info_t \<Rightarrow> nat \<Rightarrow> at_format_t \<times> nat" where
  "at_parse_format_of_cmd cmd_info offset =
     (let c = char_at (cmd_str cmd_info) offset
      in if c = CHR ''^'' \<or> c = CHR ''+'' then (AT_FORMAT_ADD, offset + 1) else (AT_FORMAT_ERROR, offset))"

text \<open>A node and its string are two blocks.\<close>

definition at_parse_del_one_remain_cmd :: "at_cmd_info_t option \<Rightarrow> 'a at_env_scheme \<Rightarrow> 'a at_env_scheme" where
  "at_parse_del_one_remain_cmd cmd_info s = (if cmd_info = None then s else at_free (at_free s))"

fun del_all_loop :: "nat \<Rightarrow> 'a at_parse_env_scheme \<Rightarrow> 'a at_parse_env_scheme" where
  "del_all_loop 0 s = s"
| "del_all_loop (Suc n) s =
     (case at_parse_get_next_remain_cmd s of
        (None, s1) \<Rightarrow> s1
      | (Some cmd, s1) \<Rightarrow> del_all_loop n (at_parse_del_one_remain_cmd (Some cmd) s1))"

text \<open>The loop ends when the list is empty: after as many turns as it has nodes.\<close>

definition at_parse_del_all_remain_cmd :: "'a at_parse_env_scheme \<Rightarrow> 'a at_parse_env_scheme" where
  "at_parse_del_all_remain_cmd s = del_all_loop (length (g_at_remain_list s)) s"

definition at_parse_add_remain_list ::
    "string \<Rightarrow> nat \<Rightarrow> nat \<Rightarrow> nat \<Rightarrow> 'a at_parse_env_scheme \<Rightarrow> at_ret_t \<times> 'a at_parse_env_scheme" where
  "at_parse_add_remain_list data start len channel_id s =
     (if len = 0 then (AT_RET_OK, s)
      else let (ok, s1) = at_malloc 12 s
      in if \<not> ok then (AT_RET_MALLOC_ERROR, s1)
      else let (ok, s2) = at_malloc (len + 1) s1
      in if \<not> ok then (AT_RET_MALLOC_ERROR, at_free s2)
      else (AT_RET_OK, s2\<lparr>g_at_remain_list := g_at_remain_list s2 @
             [\<lparr>cmd_str = take len (drop start data), str_len = of_nat (len + 1), cmd_channel = channel_id\<rparr>]\<rparr>))"

text \<open>\<open>out\<close> is what has been written to \<open>out_string\<close>; its length is \<open>index\<close>.\<close>

definition at_parse_split_combine_cmd_machines :: "at_parse_state_t \<Rightarrow> char \<Rightarrow> string \<Rightarrow> at_parse_state_t \<times> string" where
  "at_parse_split_combine_cmd_machines state ch out =
     (case state of
        AT_NORMAL_STATE \<Rightarrow>
          if ch = CHR 0x5C then (AT_ESCAPE_STATE, out)
          else if ch = CHR '';'' \<or> ch = NUL then (AT_END_STATE, out)
          else (AT_NORMAL_STATE, out @ [ch])
      | AT_ESCAPE_STATE \<Rightarrow>
          if ch = NUL then (AT_END_STATE, out)
          else (AT_NORMAL_STATE, (if ch \<noteq> CHR '';'' then out @ [CHR 0x5C] else out) @ [ch])
      | AT_END_STATE \<Rightarrow> (AT_NORMAL_STATE, out))"

text \<open>The loop over the characters of the line, its NUL included.\<close>

fun split_loop ::
    "string \<Rightarrow> at_parse_state_t \<Rightarrow> string \<Rightarrow> nat \<Rightarrow> 'a at_parse_env_scheme \<Rightarrow> at_ret_t \<times> 'a at_parse_env_scheme" where
  "split_loop [] state out channel_id s = (AT_RET_OK, at_free s)"
| "split_loop (ch # rest) state out channel_id s =
     (let (state1, out1) = at_parse_split_combine_cmd_machines state ch out
      in if state1 \<noteq> AT_END_STATE then split_loop rest state1 out1 channel_id s
         else let (ret, s1) = at_parse_add_remain_list out1 0 (length out1) channel_id s
         in if ret \<noteq> AT_RET_OK then (ret, at_free (at_parse_del_all_remain_cmd s1))
            else split_loop rest AT_NORMAL_STATE [] channel_id s1)"

definition at_parse_split_combine_cmd ::
    "string \<Rightarrow> nat \<Rightarrow> 'a at_parse_env_scheme \<Rightarrow> at_ret_t \<times> 'a at_parse_env_scheme" where
  "at_parse_split_combine_cmd data channel_id s =
     (let (ok, s1) = at_malloc (length data + 1) s
      in if \<not> ok then (AT_RET_MALLOC_ERROR, s1)
         else split_loop (data @ [NUL]) AT_NORMAL_STATE [] channel_id s1)"

definition at_parse_cmd_type :: "string \<Rightarrow> nat \<Rightarrow> at_cmd_type_t \<times> nat" where
  "at_parse_cmd_type str offset =
     (let c = char_at str
      in if c offset = CHR ''?'' \<and> c (offset + 1) = NUL then (AT_CMD_TYPE_READ, offset + 1)
         else if c offset = CHR ''='' \<and> c (offset + 1) = CHR ''?'' \<and> c (offset + 2) = NUL
         then (AT_CMD_TYPE_TEST, offset + 2)
         else if c offset = CHR ''='' then (AT_CMD_TYPE_SET, offset + 1)
         else if c offset = NUL then (AT_CMD_TYPE_CMD, offset + 1)
         else (AT_CMD_TYPE_ERROR, offset))"

section \<open>The parameters\<close>

datatype at_syntax_type_t = AT_SYNTAX_TYPE_INT | AT_SYNTAX_TYPE_STRING | AT_SYNTAX_TYPE_BIT_STRING | AT_SYNTAX_TYPE_OCTET_STRING

definition AT_SYNTAX_ATTR_OPTIONAL :: u16 where "AT_SYNTAX_ATTR_OPTIONAL = 0x0002"
definition AT_SYNTAX_ATTR_AT_MIN_VALUE :: u16 where "AT_SYNTAX_ATTR_AT_MIN_VALUE = 0x0004"
definition AT_SYNTAX_ATTR_AT_MAX_VALUE :: u16 where "AT_SYNTAX_ATTR_AT_MAX_VALUE = 0x0008"
definition AT_SYNTAX_ATTR_LIST_VALUE :: u16 where "AT_SYNTAX_ATTR_LIST_VALUE = 0x0010"
definition AT_SYNTAX_ATTR_MAX_LENGTH :: u16 where "AT_SYNTAX_ATTR_MAX_LENGTH = 0x0020"
definition AT_SYNTAX_ATTR_FIX_CASE :: u16 where "AT_SYNTAX_ATTR_FIX_CASE = 0x0080"
definition AT_SYNTAX_ATTR_LENGTH_FIELD :: u16 where "AT_SYNTAX_ATTR_LENGTH_FIELD = 0x0100"

text \<open>
  The union \<open>entry\<close> is spread over fields; a table fills in the member that type and attributes select,
  which is the one the code reads. A syntax is the list of its rows up to the one marked \<open>last\<close>.
\<close>

record at_para_parse_syntax_t =
  syn_type :: at_syntax_type_t
  syn_last :: bool
  attribute :: u16
  offset :: nat
  min_val :: int
  max_val :: int
  int_values :: "int list"
  max_length :: u32
  string_values :: "string list"
  max_value :: u32
  bit_values :: "u32 list"
  length_field_offset :: nat

definition has_attr :: "at_para_parse_syntax_t \<Rightarrow> u16 \<Rightarrow> bool" where
  "has_attr syntax a = (attribute syntax AND a \<noteq> 0)"

text \<open>The rows up to the last one.\<close>

fun at_parse_get_expect_para_number :: "at_para_parse_syntax_t list \<Rightarrow> nat \<Rightarrow> nat \<Rightarrow> nat \<times> nat" where
  "at_parse_get_expect_para_number [] mn mx = (mn, mx)"
| "at_parse_get_expect_para_number (row # rows) mn mx =
     (let mn1 = (if has_attr row AT_SYNTAX_ATTR_OPTIONAL then mn else mn + 1)
      in if syn_last row then (mn1, mx + 1) else at_parse_get_expect_para_number rows mn1 (mx + 1))"

definition at_parse_split_params_machines :: "at_parse_state_t \<Rightarrow> char \<Rightarrow> at_parse_state_t" where
  "at_parse_split_params_machines state ch =
     (case state of
        AT_NORMAL_STATE \<Rightarrow>
          if ch = CHR 0x5C then AT_ESCAPE_STATE else if ch = CHR '','' then AT_END_STATE else AT_NORMAL_STATE
      | _ \<Rightarrow> AT_NORMAL_STATE)"

fun count_params :: "string \<Rightarrow> at_parse_state_t \<Rightarrow> nat \<Rightarrow> nat" where
  "count_params [] state num = num + 1"
| "count_params (ch # rest) state num =
     (let state1 = at_parse_split_params_machines state ch
      in if state1 = AT_END_STATE then count_params rest AT_NORMAL_STATE (num + 1) else count_params rest state1 num)"

definition at_parse_get_actual_para_number :: "string \<Rightarrow> nat" where
  "at_parse_get_actual_para_number str = count_params str AT_NORMAL_STATE 0"

text \<open>\<open>Inr\<close> the number of parameters and of rows.\<close>

definition at_parse_check_para_num :: "string \<Rightarrow> at_para_parse_syntax_t list \<Rightarrow> at_ret_t + nat \<times> nat" where
  "at_parse_check_para_num str syntax =
     (let (para_min_num, para_max_num) = at_parse_get_expect_para_number syntax 0 0;
          para_actual_num = at_parse_get_actual_para_number str
      in if para_actual_num < para_min_num \<or> para_max_num < para_actual_num then Inl AT_RET_PARSE_PARA_ERROR
         else Inr (para_actual_num, para_max_num))"

definition at_parse_create_params_machines :: "at_parse_state_t \<Rightarrow> char \<Rightarrow> at_parse_state_t" where
  "at_parse_create_params_machines state ch =
     (case state of
        AT_NORMAL_STATE \<Rightarrow>
          if ch = CHR 0x5C then AT_ESCAPE_STATE
          else if ch = CHR '','' \<or> ch = NUL then AT_END_STATE else AT_NORMAL_STATE
      | AT_ESCAPE_STATE \<Rightarrow> if ch = NUL then AT_END_STATE else AT_NORMAL_STATE
      | AT_END_STATE \<Rightarrow> AT_NORMAL_STATE)"

text \<open>The inner loop: the length of the parameter that starts at \<open>str\<close>, and where it ends.\<close>

fun param_loop :: "string \<Rightarrow> at_parse_state_t \<Rightarrow> nat \<Rightarrow> nat \<times> string" where
  "param_loop [] state n = (n, [])"
| "param_loop (ch # rest) state n =
     (let state1 = at_parse_create_params_machines state ch
      in if state1 = AT_END_STATE then (n, ch # rest) else param_loop rest state1 (n + 1))"

text \<open>
  The outer loop, \<open>count\<close> parameters from \<open>ch\<close> on. Behind each it skips one character, the comma, or the
  NUL behind the last one.
\<close>

fun params_loop :: "nat \<Rightarrow> string \<Rightarrow> (string option \<times> nat) list" where
  "params_loop 0 ch = []"
| "params_loop (Suc n) ch =
     (let (para_len, rest) = param_loop ch AT_NORMAL_STATE 0
      in ((if para_len = 0 then None else Some ch), para_len) # params_loop n (tl rest))"

text \<open>The zeroed array of all rows with its first entries set.\<close>

definition at_parse_create_para_array ::
    "string \<Rightarrow> nat \<Rightarrow> nat \<Rightarrow> 'a at_env_scheme \<Rightarrow> (at_ret_t + (string option \<times> nat) list) \<times> 'a at_env_scheme" where
  "at_parse_create_para_array str param_count param_max_num s =
     (let (ok, s1) = at_malloc (param_max_num * 8) s
      in if \<not> ok then (Inl AT_RET_MALLOC_ERROR, s1)
         else (Inr (params_loop param_count str @ replicate (param_max_num - param_count) (None, 0)), s1))"

section \<open>The value of a parameter\<close>

text \<open>
  \<open>strtoull\<close> with base 0: white space, a sign, a prefix that selects the base, and the longest run of
  digits. It returns the value and how many characters it has read, none if there is no digit.
\<close>

definition base_digit :: "nat \<Rightarrow> char \<Rightarrow> bool" where
  "base_digit b c =
     (let n = (of_char c :: nat)
      in 48 \<le> n \<and> n \<le> 57 \<and> n - 48 < b \<or> b = 16 \<and> (97 \<le> n \<and> n \<le> 102 \<or> 65 \<le> n \<and> n \<le> 70))"

definition base_value :: "char \<Rightarrow> nat" where
  "base_value c = (let n = (of_char c :: nat) in if n \<le> 57 then n - 48 else if n \<le> 70 then n - 65 + 10 else n - 97 + 10)"

definition strtoull :: "string \<Rightarrow> u64 \<times> nat" where
  "strtoull s =
     (let s1 = dropWhile is_space s;
          signed = (char_at s1 0 = CHR ''-'' \<or> char_at s1 0 = CHR ''+'');
          s2 = (if signed then tl s1 else s1);
          hex = (char_at s2 0 = CHR ''0'' \<and> (char_at s2 1 = CHR ''x'' \<or> char_at s2 1 = CHR ''X'') \<and> base_digit 16 (char_at s2 2));
          b = (if hex then 16 else if char_at s2 0 = CHR ''0'' then 8 else 10);
          s3 = (if hex then drop 2 s2 else s2);
          ds = takeWhile (base_digit b) s3;
          v = foldl (\<lambda>v c. b * v + base_value c) 0 ds
      in if ds = [] then (0, 0)
         else (if 2 ^ 64 \<le> v then - 1 else if char_at s1 0 = CHR ''-'' then - of_nat v else of_nat v,
               length s - length s3 + length ds))"

text \<open>A parameter is its place in the line and its length; the assignments are called with a length above 0.\<close>

definition at_parse_argument_assign_int ::
    "string \<times> nat \<Rightarrow> at_para_parse_syntax_t \<Rightarrow> at_args \<Rightarrow> 'a at_env_scheme \<Rightarrow> at_ret_t \<times> at_args \<times> 'a at_env_scheme" where
  "at_parse_argument_assign_int para syntax args s =
     (let (str, n) = para; (w, used) = strtoull str; v = sint w
      in if 10 < n then (AT_RET_PARSE_PARA_ERROR, args, s)
         else if n \<noteq> used then (AT_RET_PARSE_PARA_ERROR, args, s)
         else if 2147483647 < v \<or> v < - 2147483648 then (AT_RET_PARSE_PARA_ERROR, args, s)
         else (AT_RET_OK, args\<lparr>arg_words := (arg_words args)(offset syntax := of_int v)\<rparr>, s))"

definition at_parse_verify_argument_int :: "at_args \<Rightarrow> at_para_parse_syntax_t \<Rightarrow> at_ret_t" where
  "at_parse_verify_argument_int args syntax =
     (let val = sint (arg_words args (offset syntax))
      in if has_attr syntax AT_SYNTAX_ATTR_LIST_VALUE then
           if val \<in> set (int_values syntax) then AT_RET_OK else AT_RET_PARSE_PARA_ERROR
         else if has_attr syntax AT_SYNTAX_ATTR_AT_MIN_VALUE \<and> val < min_val syntax then AT_RET_PARSE_PARA_ERROR
         else if has_attr syntax AT_SYNTAX_ATTR_AT_MAX_VALUE \<and> max_val syntax < val then AT_RET_PARSE_PARA_ERROR
         else AT_RET_OK)"

text \<open>The loop that copies a string without its escapes; \<open>out\<close> has been written.\<close>

fun prepare_loop :: "string \<Rightarrow> nat \<Rightarrow> bool \<Rightarrow> string \<Rightarrow> string" where
  "prepare_loop [] index_max escape out = out"
| "prepare_loop (ch # rest) index_max escape out =
     (if index_max \<le> length out then out
      else if escape then prepare_loop rest index_max False (out @ [ch])
      else if ch = CHR 0x5C then prepare_loop rest index_max True out
      else prepare_loop rest index_max False (out @ [ch]))"

definition at_parse_argument_prepare_string :: "nat \<Rightarrow> string \<times> nat \<Rightarrow> string" where
  "at_parse_argument_prepare_string index_max para = prepare_loop (take (snd para) (fst para)) index_max False []"

definition at_parse_argument_assign_string ::
    "string \<times> nat \<Rightarrow> at_para_parse_syntax_t \<Rightarrow> at_args \<Rightarrow> 'a at_env_scheme \<Rightarrow> at_ret_t \<times> at_args \<times> 'a at_env_scheme" where
  "at_parse_argument_assign_string para syntax args s =
     (let (ok, s1) = at_malloc (snd para + 1) s;
          put = (\<lambda>p. args\<lparr>arg_ptrs := (arg_ptrs args)(offset syntax := p)\<rparr>)
      in if \<not> ok then (AT_RET_MALLOC_ERROR, put None, s1)
         else let str = at_parse_argument_prepare_string (snd para + 1) para
              in (AT_RET_OK,
                  put (Some (if has_attr syntax AT_SYNTAX_ATTR_FIX_CASE then str else at_base_toupper str (snd para))), s1))"

definition at_parse_verify_argument_string :: "at_args \<Rightarrow> at_para_parse_syntax_t \<Rightarrow> at_ret_t" where
  "at_parse_verify_argument_string args syntax =
     (let val = the (arg_ptrs args (offset syntax))
      in if has_attr syntax AT_SYNTAX_ATTR_LIST_VALUE then
           if val \<in> set (string_values syntax) then AT_RET_OK else AT_RET_PARSE_PARA_ERROR
         else if has_attr syntax AT_SYNTAX_ATTR_MAX_LENGTH \<and> unat (max_length syntax) < length val
         then AT_RET_PARSE_PARA_ERROR
         else AT_RET_OK)"

definition at_parse_char_to_hex :: "char \<Rightarrow> u8 option" where
  "at_parse_char_to_hex ch =
     (let n = (of_char ch :: u8)
      in if 0x30 \<le> n \<and> n \<le> 0x39 then Some (n - 0x30)
         else if 0x61 \<le> n \<and> n \<le> 0x66 then Some (n - 0x61 + 10)
         else if 0x41 \<le> n \<and> n \<le> 0x46 then Some (n - 0x41 + 10)
         else None)"

text \<open>
  The loop over \<open>len\<close> characters, two at a time; the second one is read even when only one is left. The
  bytes are added to \<open>dst\<close>; a bad second digit leaves the byte of the first one.
\<close>

function at_parse_hex_string_to_uint8 :: "string \<Rightarrow> nat \<Rightarrow> string \<Rightarrow> at_ret_t \<times> string" where
  "at_parse_hex_string_to_uint8 src len dst =
     (if len = 0 then (AT_RET_OK, dst)
      else case at_parse_char_to_hex (char_at src 0) of
        None \<Rightarrow> (AT_RET_PARSE_PARA_ERROR, dst)
      | Some hi \<Rightarrow>
          (case at_parse_char_to_hex (char_at src 1) of
             None \<Rightarrow> (AT_RET_PARSE_PARA_ERROR, dst @ [char_of (unat (push_bit 4 hi))])
           | Some lo \<Rightarrow> at_parse_hex_string_to_uint8 (drop 2 src) (len - 2) (dst @ [char_of (unat (push_bit 4 hi OR lo))])))"
  by auto
termination by (relation "measure (\<lambda>(src, len, dst). len)") auto

declare at_parse_hex_string_to_uint8.simps [simp del]

text \<open>The bytes that a failed conversion has not written are never read: the caller frees the structure.\<close>

definition at_parse_argument_assign_octet_string ::
    "string \<times> nat \<Rightarrow> at_para_parse_syntax_t \<Rightarrow> at_args \<Rightarrow> 'a at_env_scheme \<Rightarrow> at_ret_t \<times> at_args \<times> 'a at_env_scheme" where
  "at_parse_argument_assign_octet_string para syntax args s =
     (let (str, n) = para; lf = length_field_offset syntax;
          fixed = has_attr syntax AT_SYNTAX_ATTR_LENGTH_FIELD;
          args1 = (if fixed then args else args\<lparr>arg_words := (arg_words args)(lf := of_nat n div 2)\<rparr>)
      in if fixed \<and> of_nat n \<noteq> arg_words args lf * 2 then (AT_RET_PARSE_PARA_ERROR, args, s)
         else if \<not> fixed \<and> odd n then (AT_RET_PARSE_PARA_ERROR, args, s)
         else let (ok, s1) = at_malloc (unat (arg_words args1 lf + 1)) s;
                  put = (\<lambda>p. args1\<lparr>arg_ptrs := (arg_ptrs args1)(offset syntax := p)\<rparr>)
         in if \<not> ok then (AT_RET_MALLOC_ERROR, put None, s1)
            else let (ret, dst) = at_parse_hex_string_to_uint8 str n [] in (ret, put (Some dst), s1))"

definition at_parse_verify_argument_octet_string :: "at_args \<Rightarrow> at_para_parse_syntax_t \<Rightarrow> at_ret_t" where
  "at_parse_verify_argument_octet_string args syntax =
     (if has_attr syntax AT_SYNTAX_ATTR_MAX_LENGTH \<and> max_length syntax < arg_words args (length_field_offset syntax)
      then AT_RET_PARSE_PARA_ERROR else AT_RET_OK)"

fun bit_string_loop :: "string \<Rightarrow> u32 \<Rightarrow> at_ret_t \<times> u32" where
  "bit_string_loop [] val = (AT_RET_OK, val)"
| "bit_string_loop (ch # rest) val =
     (if ch \<noteq> CHR ''0'' \<and> ch \<noteq> CHR ''1'' then (AT_RET_PARSE_PARA_ERROR, val)
      else bit_string_loop rest (push_bit 1 val OR (of_char ch - 0x30)))"

definition at_parse_argument_assign_bit_string ::
    "string \<times> nat \<Rightarrow> at_para_parse_syntax_t \<Rightarrow> at_args \<Rightarrow> 'a at_env_scheme \<Rightarrow> at_ret_t \<times> at_args \<times> 'a at_env_scheme" where
  "at_parse_argument_assign_bit_string para syntax args s =
     (if 32 < snd para then (AT_RET_PARSE_PARA_ERROR, args, s)
      else let (ret, val) = bit_string_loop (take (snd para) (fst para)) 0
           in (ret, args\<lparr>arg_words := (arg_words args)(offset syntax := val)\<rparr>, s))"

definition at_parse_verify_argument_bit_string :: "at_args \<Rightarrow> at_para_parse_syntax_t \<Rightarrow> at_ret_t" where
  "at_parse_verify_argument_bit_string args syntax =
     (let val = arg_words args (offset syntax)
      in if has_attr syntax AT_SYNTAX_ATTR_LIST_VALUE then
           if val \<in> set (bit_values syntax) then AT_RET_OK else AT_RET_PARSE_PARA_ERROR
         else if has_attr syntax AT_SYNTAX_ATTR_AT_MAX_VALUE \<and> max_value syntax < val then AT_RET_PARSE_PARA_ERROR
         else AT_RET_OK)"

section \<open>All parameters\<close>

text \<open>The first word of the structure says which parameters are present.\<close>

definition at_parse_one_argument ::
    "string option \<times> nat \<Rightarrow> at_args \<Rightarrow> at_para_parse_syntax_t \<Rightarrow> nat \<Rightarrow> 'a at_env_scheme
      \<Rightarrow> at_ret_t \<times> at_args \<times> 'a at_env_scheme" where
  "at_parse_one_argument para args syntax index s =
     (if snd para = 0 then
        (if has_attr syntax AT_SYNTAX_ATTR_OPTIONAL then AT_RET_OK else AT_RET_PARSE_PARA_MISSING_ERROR, args, s)
      else
        let p = (the (fst para), snd para);
            args1 = args\<lparr>arg_words := (arg_words args)(0 := arg_words args 0 OR push_bit index 1)\<rparr>;
            (ret, args2, s1) =
              (case syn_type syntax of
                 AT_SYNTAX_TYPE_INT \<Rightarrow> at_parse_argument_assign_int p syntax args1 s
               | AT_SYNTAX_TYPE_STRING \<Rightarrow> at_parse_argument_assign_string p syntax args1 s
               | AT_SYNTAX_TYPE_BIT_STRING \<Rightarrow> at_parse_argument_assign_bit_string p syntax args1 s
               | AT_SYNTAX_TYPE_OCTET_STRING \<Rightarrow> at_parse_argument_assign_octet_string p syntax args1 s)
        in if ret \<noteq> AT_RET_OK then (ret, args2, s1)
           else (case syn_type syntax of
                   AT_SYNTAX_TYPE_INT \<Rightarrow> at_parse_verify_argument_int args2 syntax
                 | AT_SYNTAX_TYPE_STRING \<Rightarrow> at_parse_verify_argument_string args2 syntax
                 | AT_SYNTAX_TYPE_BIT_STRING \<Rightarrow> at_parse_verify_argument_bit_string args2 syntax
                 | AT_SYNTAX_TYPE_OCTET_STRING \<Rightarrow> at_parse_verify_argument_octet_string args2 syntax, args2, s1))"

text \<open>The loop over the rows, the parameters of the array beside them.\<close>

fun arguments_loop ::
    "(string option \<times> nat) list \<Rightarrow> at_para_parse_syntax_t list \<Rightarrow> nat \<Rightarrow> at_args \<Rightarrow> 'a at_env_scheme
      \<Rightarrow> at_ret_t \<times> at_args \<times> 'a at_env_scheme" where
  "arguments_loop (para # paras) (row # rows) count args s =
     (let (ret, args1, s1) = at_parse_one_argument para args row count s
      in if ret \<noteq> AT_RET_OK then (ret, args1, s1) else arguments_loop paras rows (count + 1) args1 s1)"
| "arguments_loop _ _ count args s = (AT_RET_OK, args, s)"

definition at_parse_para_arguments ::
    "string \<Rightarrow> at_args \<Rightarrow> at_para_parse_syntax_t list \<Rightarrow> 'a at_env_scheme \<Rightarrow> at_ret_t \<times> at_args \<times> 'a at_env_scheme" where
  "at_parse_para_arguments str args syntax s =
     (let (ok, s1) = at_malloc 8 s
      in if \<not> ok then (AT_RET_MALLOC_ERROR, args, s1)
         else case at_parse_check_para_num str syntax of
           Inl err \<Rightarrow> (err, args, at_free s1)
         | Inr (param_count, param_max_num) \<Rightarrow>
             (case at_parse_create_para_array str param_count param_max_num s1 of
                (Inl err, s2) \<Rightarrow> (err, args, at_free s2)
              | (Inr params, s2) \<Rightarrow>
                  let (ret, args1, s3) = arguments_loop params syntax 0 args s2
                  in (ret, args1, at_free (at_free s3))))"

definition at_parse_free_one_argument :: "at_args \<Rightarrow> at_para_parse_syntax_t \<Rightarrow> 'a at_env_scheme \<Rightarrow> 'a at_env_scheme" where
  "at_parse_free_one_argument args syntax s =
     (if (syn_type syntax = AT_SYNTAX_TYPE_STRING \<or> syn_type syntax = AT_SYNTAX_TYPE_OCTET_STRING)
        \<and> arg_ptrs args (offset syntax) \<noteq> None
      then at_free s else s)"

fun at_parse_free_arguments :: "at_args \<Rightarrow> at_para_parse_syntax_t list \<Rightarrow> 'a at_env_scheme \<Rightarrow> 'a at_env_scheme" where
  "at_parse_free_arguments args [] s = s"
| "at_parse_free_arguments args (row # rows) s =
     (let s1 = at_parse_free_one_argument args row s
      in if syn_last row then s1 else at_parse_free_arguments args rows s1)"

end
