(* ===== verification/AtLine.thy ===== *)
theory AtLine
  imports AtParse
begin

text \<open>
  What at_parse.c makes of a line: a line of commands becomes the list of its commands, and every outcome of
  the split, with or without memory, keeps no block but those of the list.
\<close>

section \<open>Escapes\<close>

text \<open>A text as the scanners see it: characters on their own, and characters behind a backslash.\<close>

datatype at_tok = Plain char | Pair char

fun tok_text :: "at_tok \<Rightarrow> string" where
  "tok_text (Plain c) = [c]"
| "tok_text (Pair c) = [CHR 0x5C, c]"

fun tok_ok :: "char \<Rightarrow> at_tok \<Rightarrow> bool" where
  "tok_ok sep (Plain c) = (c \<noteq> sep \<and> c \<noteq> CHR 0x5C \<and> c \<noteq> NUL)"
| "tok_ok sep (Pair c) = (c \<noteq> NUL)"

definition toks_text :: "at_tok list \<Rightarrow> string" where
  "toks_text ts = concat (map tok_text ts)"

lemma toks_text_simps [simp]:
  "toks_text [] = []" "toks_text (t # ts) = tok_text t @ toks_text ts" "toks_text (ts @ us) = toks_text ts @ toks_text us"
  by (simp_all add: toks_text_def)

text \<open>What the splitting of a line makes of a token: an escaped semicolon loses its backslash.\<close>

fun cmd_text :: "at_tok \<Rightarrow> string" where
  "cmd_text (Plain c) = [c]"
| "cmd_text (Pair c) = (if c = CHR '';'' then [c] else [CHR 0x5C, c])"

text \<open>Texts with a separator between them.\<close>

fun joined :: "char \<Rightarrow> string list \<Rightarrow> string" where
  "joined sep [] = []"
| "joined sep [x] = x"
| "joined sep (x # y # ys) = x @ sep # joined sep (y # ys)"

lemma joined_snoc: "xs \<noteq> [] \<Longrightarrow> joined sep (xs @ [y]) = joined sep xs @ sep # y"
  by (induction sep xs rule: joined.induct) simp_all

section \<open>Splitting a line\<close>

lemma split_loop_toks:
  "\<forall>t \<in> set ts. tok_ok (CHR '';'') t \<Longrightarrow>
     split_loop (toks_text ts @ rest) AT_NORMAL_STATE out ch s
       = split_loop rest AT_NORMAL_STATE (out @ concat (map cmd_text ts)) ch s"
proof (induction ts arbitrary: out)
  case (Cons t ts)
  then show ?case
    by (cases t) (auto simp: at_parse_split_combine_cmd_machines_def)
qed simp

lemma split_loop_end:
  "c = CHR '';'' \<or> c = NUL \<Longrightarrow> split_loop (c # rest) AT_NORMAL_STATE out ch s =
     (let (ret, s1) = at_parse_add_remain_list out 0 (length out) ch s
      in if ret \<noteq> AT_RET_OK then (ret, at_free (at_parse_del_all_remain_cmd s1))
         else split_loop rest AT_NORMAL_STATE [] ch s1)"
  by (auto simp: at_parse_split_combine_cmd_machines_def NUL_def)

text \<open>The node of a command; an empty command has none.\<close>

definition cmd_node :: "nat \<Rightarrow> string \<Rightarrow> at_cmd_info_t list" where
  "cmd_node ch txt = (if txt = [] then [] else [\<lparr>cmd_str = txt, str_len = of_nat (length txt + 1), cmd_channel = ch\<rparr>])"

definition all_malloc :: "'a at_env_scheme \<Rightarrow> bool" where
  "all_malloc s = (at_ready s \<and> (\<forall>n k. malloc_ans s n k))"

lemma all_malloc_heap: "heap_only s t \<Longrightarrow> all_malloc t = all_malloc s"
  by (simp add: all_malloc_def ready_heap heap_only_fields)

lemma malloc_ok:
  assumes "all_malloc s"
  obtains t where "at_malloc n s = (True, t)" and "heap_only s t" and "at_live t = at_live s + 1"
proof -
  obtain ok t where t: "at_malloc n s = (ok, t)" by fastforce
  then have "ok" using assms by (auto simp: at_malloc_def all_malloc_def at_ready_def Let_def)
  then show thesis using that t heap_only_malloc [OF t] live_malloc [OF t] by simp
qed


text \<open>What the list functions leave alone: everything but the counters of the heap and the list.\<close>

definition line_only :: "'a at_parse_env_scheme \<Rightarrow> 'a at_parse_env_scheme \<Rightarrow> bool" where
  "line_only s t = heap_only s (t\<lparr>g_at_remain_list := g_at_remain_list s\<rparr>)"

lemma line_only_heap: "heap_only s t \<Longrightarrow> line_only s t"
  by (cases s; cases t; simp add: heap_only_def line_only_def)

lemma line_only_refl [simp]: "line_only s s"
  by (simp add: line_only_heap)

lemma line_only_trans: "line_only s t \<Longrightarrow> line_only t u \<Longrightarrow> line_only s u"
  by (cases s; cases t; cases u; simp add: heap_only_def line_only_def)

lemma line_only_list [simp]: "line_only s (s\<lparr>g_at_remain_list := l\<rparr>)"
  by (cases s; simp add: heap_only_def line_only_def)

lemma line_only_fields:
  assumes "line_only s t"
  shows "g_at_base_api t = g_at_base_api s" "at_log t = at_log s" "at_parse_env.more t = at_parse_env.more s"
    "handler_n t = handler_n s" "handler_ans t = handler_ans s" "queue_n t = queue_n s" "queue_ans t = queue_ans s"
    "g_at_init_status t = g_at_init_status s" "malloc_ans t = malloc_ans s"
  using assms by (cases s; cases t; simp add: heap_only_def line_only_def)+

lemma ready_line: "line_only s t \<Longrightarrow> at_ready t = at_ready s"
  by (simp add: at_ready_def line_only_fields)

lemma all_malloc_line: "line_only s t \<Longrightarrow> all_malloc t = all_malloc s"
  by (simp add: all_malloc_def ready_line line_only_fields)

lemma remain_heap: "heap_only s t \<Longrightarrow> g_at_remain_list t = g_at_remain_list s"
  by (cases s; cases t; simp add: heap_only_def)

lemma add_remain_outcome:
  assumes ready: "at_ready s" and add: "at_parse_add_remain_list out 0 (length out) ch s = (ret, t)"
  shows "line_only s t"
    and "ret = AT_RET_OK \<Longrightarrow> g_at_remain_list t = g_at_remain_list s @ cmd_node ch out
           \<and> at_live t = at_live s + 2 * length (cmd_node ch out)"
    and "ret \<noteq> AT_RET_OK \<Longrightarrow> ret = AT_RET_MALLOC_ERROR \<and> g_at_remain_list t = g_at_remain_list s \<and> at_live t = at_live s"
proof -
  obtain ok1 s1 where m1: "at_malloc 12 s = (ok1, s1)" by fastforce
  obtain ok2 s2 where m2: "at_malloc (Suc (length out)) s1 = (ok2, s2)" by fastforce
  note h1 = heap_only_malloc [OF m1] and h2 = heap_only_malloc [OF m2]
  note l1 = live_malloc [OF m1] and l2 = live_malloc [OF m2]
  have r: "at_ready s2" using ready ready_heap [OF h1] ready_heap [OF h2] by simp
  note facts = add l1 l2 remain_heap [OF h1] remain_heap [OF h2] live_free [OF r]
    remain_heap [OF heap_only_free [of s2]]
  show "line_only s t"
    using add line_only_heap [OF h1] line_only_heap [OF h2] line_only_heap [OF heap_only_free [of s2]]
    by (auto simp: at_parse_add_remain_list_def m1 m2 split: if_splits intro: line_only_trans)
  show "ret = AT_RET_OK \<Longrightarrow> g_at_remain_list t = g_at_remain_list s @ cmd_node ch out
           \<and> at_live t = at_live s + 2 * length (cmd_node ch out)"
    using facts by (auto simp: at_parse_add_remain_list_def m1 m2 cmd_node_def split: if_splits)
  show "ret \<noteq> AT_RET_OK \<Longrightarrow> ret = AT_RET_MALLOC_ERROR \<and> g_at_remain_list t = g_at_remain_list s \<and> at_live t = at_live s"
    using facts by (auto simp: at_parse_add_remain_list_def m1 m2 cmd_node_def split: if_splits)
qed

lemma add_remain_ok:
  assumes "all_malloc s"
  obtains t where "at_parse_add_remain_list out 0 (length out) ch s = (AT_RET_OK, t)"
proof -
  obtain t1 where m1: "at_malloc 12 s = (True, t1)" and h1: "heap_only s t1" using malloc_ok [OF assms] by metis
  obtain t2 where "at_malloc (Suc (length out)) t1 = (True, t2)"
    using malloc_ok [of t1] all_malloc_heap [OF h1] assms by metis
  then show thesis using that by (cases "out = []") (simp_all add: at_parse_add_remain_list_def m1)
qed

lemma del_one_outcome:
  assumes "at_ready s"
  shows "heap_only s (at_parse_del_one_remain_cmd c s)"
    and "at_live (at_parse_del_one_remain_cmd (Some cmd) s) = at_live s - 2"
proof -
  show "heap_only s (at_parse_del_one_remain_cmd c s)"
    by (auto simp: at_parse_del_one_remain_cmd_def intro: heap_only_trans [OF heap_only_free heap_only_free])
  show "at_live (at_parse_del_one_remain_cmd (Some cmd) s) = at_live s - 2"
    using assms live_free [OF assms] ready_heap [OF heap_only_free [of s]]
    by (simp add: at_parse_del_one_remain_cmd_def live_free)
qed

lemma del_all_outcome:
  assumes "at_ready s"
  shows "line_only s (at_parse_del_all_remain_cmd s)"
    and "g_at_remain_list (at_parse_del_all_remain_cmd s) = []"
    and "at_live (at_parse_del_all_remain_cmd s) = at_live s - 2 * length (g_at_remain_list s)"
proof -
  have "line_only s (del_all_loop n s) \<and> g_at_remain_list (del_all_loop n s) = []
     \<and> at_live (del_all_loop n s) = at_live s - 2 * n"
    if "at_ready s" "length (g_at_remain_list s) = n" for n and s :: "'a at_parse_env_scheme"
    using that
  proof (induction n arbitrary: s)
    case (Suc n)
    then obtain cmd rest where l: "g_at_remain_list s = cmd # rest" by (cases "g_at_remain_list s") auto
    let ?s = "s\<lparr>g_at_remain_list := rest\<rparr>"
    let ?t = "at_parse_del_one_remain_cmd (Some cmd) ?s"
    have r: "at_ready ?s" using Suc.prems ready_line [OF line_only_list] by blast
    note d = del_one_outcome(1) [OF r, of "Some cmd"] del_one_outcome(2) [OF r, of cmd]
    have t: "at_ready ?t" "g_at_remain_list ?t = rest" "line_only s ?t" "at_live ?t = at_live s - 2"
      using r ready_heap [OF d(1)] remain_heap [OF d(1)] d line_only_trans [OF line_only_list line_only_heap [OF d(1)]]
      by auto
    show ?case
      using Suc.IH [OF t(1)] t l Suc.prems line_only_trans [OF t(3)]
      by (auto simp: at_parse_get_next_remain_cmd_def)
  qed simp
  from this [OF assms refl] show "line_only s (at_parse_del_all_remain_cmd s)"
    and "g_at_remain_list (at_parse_del_all_remain_cmd s) = []"
    and "at_live (at_parse_del_all_remain_cmd s) = at_live s - 2 * length (g_at_remain_list s)"
    by (simp_all add: at_parse_del_all_remain_cmd_def)
qed

text \<open>Every outcome of the split: either the nodes are on the list, or the list is empty; nothing else is kept.\<close>

lemma split_loop_outcome:
  assumes "at_ready s" and "at_live s = base + 1 + 2 * length (g_at_remain_list s)"
    and "split_loop data state out ch s = (ret, t)"
  shows "line_only s t \<and> at_live t = base + 2 * length (g_at_remain_list t)
     \<and> (ret = AT_RET_OK \<or> ret = AT_RET_MALLOC_ERROR \<and> g_at_remain_list t = [])"
  using assms
proof (induction data arbitrary: state out s)
  case Nil
  then show ?case
    using line_only_heap [OF heap_only_free [of s]] remain_heap [OF heap_only_free [of s]] live_free [of s] by auto
next
  case (Cons c rest)
  obtain st o1 where m: "at_parse_split_combine_cmd_machines state c out = (st, o1)" by fastforce
  show ?case
  proof (cases "st = AT_END_STATE")
    case False
    then show ?thesis using Cons.IH Cons.prems m by (simp add: Let_def)
  next
    case True
    obtain r1 s1 where a: "at_parse_add_remain_list o1 0 (length o1) ch s = (r1, s1)" by fastforce
    note out = add_remain_outcome [OF Cons.prems(1) a]
    have r: "at_ready s1" using Cons.prems(1) ready_line [OF out(1)] by simp
    show ?thesis
    proof (cases "r1 = AT_RET_OK")
      case True
      then show ?thesis
        using \<open>st = AT_END_STATE\<close> Cons.IH [OF r] Cons.prems m a out line_only_trans [OF out(1)] by simp
    next
      case False
      let ?u = "at_parse_del_all_remain_cmd s1"
      note d = del_all_outcome [OF r]
      have u: "at_ready ?u" using r ready_line [OF d(1)] by simp
      have "t = at_free ?u" "ret = r1" using False True Cons.prems(3) m a by simp_all
      moreover have "line_only s (at_free ?u)"
        by (rule line_only_trans [OF out(1) line_only_trans [OF d(1) line_only_heap [OF heap_only_free]]])
      ultimately show ?thesis
        using out(3) [OF False] Cons.prems(2) d(2,3) live_free [OF u] remain_heap [OF heap_only_free [of ?u]] by simp
    qed
  qed
qed

lemma split_outcome:
  assumes ready: "at_ready s" and empty: "g_at_remain_list s = []"
    and split: "at_parse_split_combine_cmd data ch s = (ret, t)"
  shows "line_only s t" and "at_live t = at_live s + 2 * length (g_at_remain_list t)"
    and "ret = AT_RET_OK \<or> ret = AT_RET_MALLOC_ERROR \<and> g_at_remain_list t = []"
proof -
  obtain ok s1 where m: "at_malloc (Suc (length data)) s = (ok, s1)" by fastforce
  note h = heap_only_malloc [OF m]
  have "line_only s t \<and> at_live t = at_live s + 2 * length (g_at_remain_list t)
      \<and> (ret = AT_RET_OK \<or> ret = AT_RET_MALLOC_ERROR \<and> g_at_remain_list t = [])"
  proof (cases ok)
    case True
    then have l: "at_live s1 = at_live s + 1 + 2 * length (g_at_remain_list s1)"
      using live_malloc [OF m] remain_heap [OF h] empty by simp
    have r: "at_ready s1" using ready ready_heap [OF h] by simp
    have loop: "split_loop (data @ [NUL]) AT_NORMAL_STATE [] ch s1 = (ret, t)"
      using split True m by (simp add: at_parse_split_combine_cmd_def)
    from split_loop_outcome [OF r l loop] show ?thesis
      using line_only_trans [OF line_only_heap [OF h]] by blast
  next
    case False
    then show ?thesis
      using split m live_malloc [OF m] remain_heap [OF h] empty line_only_heap [OF h]
      by (auto simp: at_parse_split_combine_cmd_def)
  qed
  then show "line_only s t" and "at_live t = at_live s + 2 * length (g_at_remain_list t)"
    and "ret = AT_RET_OK \<or> ret = AT_RET_MALLOC_ERROR \<and> g_at_remain_list t = []" by auto
qed

text \<open>With memory, a line of commands becomes the list of its commands.\<close>

definition line_text :: "at_tok list list \<Rightarrow> string" where
  "line_text cmds = joined CHR '';'' (map toks_text cmds)"

definition cmds_ok :: "at_tok list list \<Rightarrow> bool" where
  "cmds_ok cmds = (cmds \<noteq> [] \<and> (\<forall>ts \<in> set cmds. \<forall>t \<in> set ts. tok_ok CHR '';'' t))"

definition cmd_nodes :: "nat \<Rightarrow> at_tok list list \<Rightarrow> at_cmd_info_t list" where
  "cmd_nodes ch cmds = concat (map (\<lambda>ts. cmd_node ch (concat (map cmd_text ts))) cmds)"

lemma split_loop_line:
  assumes "cmds_ok cmds" and "all_malloc s"
  shows "\<exists>t. split_loop (line_text cmds @ [NUL]) AT_NORMAL_STATE [] ch s = (AT_RET_OK, t)
     \<and> g_at_remain_list t = g_at_remain_list s @ cmd_nodes ch cmds"
  using assms
proof (induction cmds arbitrary: s)
  case (Cons ts cmds)
  let ?o = "concat (map cmd_text ts)"
  obtain t where a: "at_parse_add_remain_list ?o 0 (length ?o) ch s = (AT_RET_OK, t)"
    using add_remain_ok Cons.prems(2) by blast
  have "at_ready s" using Cons.prems(2) by (simp add: all_malloc_def)
  note out = add_remain_outcome [OF this a]
  have am: "all_malloc t" using all_malloc_line [OF out(1)] Cons.prems(2) by simp
  have tok: "\<forall>t \<in> set ts. tok_ok CHR '';'' t" using Cons.prems(1) by (simp add: cmds_ok_def)
  show ?case
  proof (cases "cmds = []")
    case True
    have "g_at_remain_list (at_free t) = g_at_remain_list t" by (rule remain_heap [OF heap_only_free])
    then show ?thesis using True out(2) [OF refl] a
      by (simp add: line_text_def split_loop_toks [OF tok] split_loop_end cmd_nodes_def del: split_loop.simps(2))
  next
    case False
    then obtain us rest where cmds: "cmds = us # rest" by (cases cmds) auto
    have "cmds_ok cmds" using Cons.prems(1) False by (simp add: cmds_ok_def)
    note ih = Cons.IH [OF this am]
    have "line_text (ts # cmds) @ [NUL] = toks_text ts @ CHR '';'' # (line_text cmds @ [NUL])"
      using cmds by (simp add: line_text_def)
    then show ?thesis
      using ih out(2) [OF refl] a by (simp add: split_loop_toks [OF tok] split_loop_end cmd_nodes_def del: split_loop.simps(2))
  qed
qed (simp add: cmds_ok_def)

lemma split_line:
  assumes "cmds_ok cmds" and "all_malloc s" and "g_at_remain_list s = []"
  obtains t where "at_parse_split_combine_cmd (line_text cmds) ch s = (AT_RET_OK, t)"
    and "g_at_remain_list t = cmd_nodes ch cmds"
proof -
  obtain s1 where m: "at_malloc (Suc (length (line_text cmds))) s = (True, s1)" and h: "heap_only s s1"
    using malloc_ok [OF assms(2)] by metis
  have "all_malloc s1" using all_malloc_heap [OF h] assms(2) by simp
  from split_loop_line [OF assms(1) this, of ch] show thesis
    using that m remain_heap [OF h] assms(3) by (auto simp: at_parse_split_combine_cmd_def)
qed

section \<open>Properties\<close>

text \<open>C24: A line of commands with semicolons between them becomes the list of its commands, in order: an escaped
  semicolon is part of its command, the other escapes stay for the parameters, and empty commands are dropped.\<close>

theorem line_split_commands:
  assumes "cmds_ok cmds" and "all_malloc s" and "g_at_remain_list s = []"
  shows "\<exists>t. at_parse_split_combine_cmd (line_text cmds) ch s = (AT_RET_OK, t)
     \<and> map cmd_str (g_at_remain_list t) = filter (\<lambda>x. x \<noteq> []) (map (\<lambda>ts. concat (map cmd_text ts)) cmds)
     \<and> (\<forall>cmd \<in> set (g_at_remain_list t). cmd_channel cmd = ch)"
proof -
  obtain t where t: "at_parse_split_combine_cmd (line_text cmds) ch s = (AT_RET_OK, t)" "g_at_remain_list t = cmd_nodes ch cmds"
    by (rule split_line [OF assms])
  have "map cmd_str (cmd_nodes ch cmds) = filter (\<lambda>x. x \<noteq> []) (map (\<lambda>ts. concat (map cmd_text ts)) cmds)"
    by (induction cmds) (simp_all add: cmd_nodes_def cmd_node_def)
  moreover have "\<forall>cmd \<in> set (cmd_nodes ch cmds). cmd_channel cmd = ch" by (auto simp: cmd_nodes_def cmd_node_def)
  ultimately show ?thesis using t by auto
qed

definition demo_line_env :: at_parse_env where
  "demo_line_env = \<lparr>g_at_base_api = \<lparr>malloc_func = True, free_func = True, msg_queue_create_func = True,
       msg_queue_write_func = True, msg_queue_read_func = True, task_pause_func = True\<rparr>,
     g_at_init_status = True, malloc_ans = (\<lambda>_ _. True), malloc_n = 0, at_live = 0, queue_ans = (\<lambda>_. True), queue_n = 0,
     handler_ans = (\<lambda>_. ([], AT_RET_OK)), handler_n = 0, at_log = [], g_at_remain_list = []\<rparr>"

definition demo_cmds :: "at_tok list list" where
  "demo_cmds = [[Plain CHR ''+'', Plain CHR ''A''], [], [Plain CHR ''+'', Pair CHR '';'', Pair CHR '','']]"

text \<open>The line \<open>+A;;+\;\,\<close>.\<close>

theorem line_split_commands_witness:
  "\<exists>t. at_parse_split_combine_cmd [CHR ''+'', CHR ''A'', CHR '';'', CHR '';'', CHR ''+'', CHR 0x5C, CHR '';'', CHR 0x5C, CHR '','']
       1 demo_line_env = (AT_RET_OK, t)
     \<and> map cmd_str (g_at_remain_list t) = [''+A'', [CHR ''+'', CHR '';'', CHR 0x5C, CHR '','']]"
proof -
  have "cmds_ok demo_cmds" by (simp add: demo_cmds_def cmds_ok_def NUL_def)
  moreover have "all_malloc demo_line_env" by (simp add: all_malloc_def at_ready_def demo_line_env_def)
  moreover have "g_at_remain_list demo_line_env = []" by (simp add: demo_line_env_def)
  ultimately show ?thesis using line_split_commands [of demo_cmds demo_line_env 1] by (auto simp: demo_cmds_def line_text_def)
qed

lemma split_keeps_no_block_facts:
  assumes "at_ready s" and "g_at_remain_list s = []" and "at_parse_split_combine_cmd data ch s = (ret, t)"
  shows "at_live t = at_live s + 2 * length (g_at_remain_list t)"
    and "ret = AT_RET_OK \<or> ret = AT_RET_MALLOC_ERROR \<and> g_at_remain_list t = []"
  by (rule split_outcome [OF assms])+

text \<open>Whatever allocation fails while a line is split, the outcome is success or the allocation error with an empty
  list, and the blocks that are left are those of the nodes on the list, two each.\<close>

theorem split_keeps_no_block:
  assumes "at_ready s" and "g_at_remain_list s = []" and "at_parse_split_combine_cmd data ch s = (ret, t)"
  shows "(at_live t = at_live s + 2 * length (g_at_remain_list t))
    \<and> (ret = AT_RET_OK \<or> ret = AT_RET_MALLOC_ERROR \<and> g_at_remain_list t = [])"
  by (intro conjI split_keeps_no_block_facts [OF assms])

text \<open>The fifth allocation, that of the second node's text, fails.\<close>

theorem split_keeps_no_block_witness:
  "fst (at_parse_split_combine_cmd ''+A;+B'' 0 (demo_line_env\<lparr>malloc_ans := (\<lambda>n _. n < 4)\<rparr>)) = AT_RET_MALLOC_ERROR
   \<and> at_live (snd (at_parse_split_combine_cmd ''+A;+B'' 0 (demo_line_env\<lparr>malloc_ans := (\<lambda>n _. n < 4)\<rparr>))) = 0"
proof -
  let ?s = "demo_line_env\<lparr>malloc_ans := (\<lambda>n _. n < 4)\<rparr>"
  obtain ret t where r: "at_parse_split_combine_cmd ''+A;+B'' 0 ?s = (ret, t)" by fastforce
  have "at_ready ?s" "g_at_remain_list ?s = []" by (simp_all add: at_ready_def demo_line_env_def)
  note p = split_keeps_no_block [OF this r]
  have "fst (at_parse_split_combine_cmd ''+A;+B'' 0 ?s) = AT_RET_MALLOC_ERROR"
    by (simp add: at_parse_split_combine_cmd_def at_parse_split_combine_cmd_machines_def at_parse_add_remain_list_def
        at_malloc_def demo_line_env_def NUL_def)
  then have "ret = AT_RET_MALLOC_ERROR" using r by simp
  then show ?thesis using p r by (simp add: demo_line_env_def)
qed

end
