(* ===== verification/AtArgs.thy ===== *)
theory AtArgs
  imports AtLine
begin

text \<open>
  What at_parse.c makes of the parameters of a command: which blocks the parameter structure owns, and what it
  holds when the text is a list of values.
\<close>

section \<open>The blocks of a parameter structure\<close>

definition ptr_row :: "at_para_parse_syntax_t \<Rightarrow> bool" where
  "ptr_row row = (syn_type row = AT_SYNTAX_TYPE_STRING \<or> syn_type row = AT_SYNTAX_TYPE_OCTET_STRING)"

definition owns :: "at_args \<Rightarrow> at_para_parse_syntax_t \<Rightarrow> bool" where
  "owns args row = (ptr_row row \<and> arg_ptrs args (offset row) \<noteq> None)"

definition owned :: "at_args \<Rightarrow> at_para_parse_syntax_t list \<Rightarrow> nat" where
  "owned args rows = length (filter (owns args) rows)"

lemma owned_simps [simp]:
  "owned args [] = 0" "owned args (row # rows) = (if owns args row then Suc (owned args rows) else owned args rows)"
  by (simp_all add: owned_def)

lemma owned_cong: "(\<And>row. row \<in> set rows \<Longrightarrow> owns args row = owns args' row) \<Longrightarrow> owned args rows = owned args' rows"
  unfolding owned_def by (metis (mono_tags, lifting) filter_cong)

text \<open>A syntax as the tables write it: the mark on the last row, and a place of its own for each string.\<close>

definition syntax_ok :: "at_para_parse_syntax_t list \<Rightarrow> bool" where
  "syntax_ok rows = (rows \<noteq> [] \<and> syn_last (last rows) \<and> (\<forall>row \<in> set (butlast rows). \<not> syn_last row)
     \<and> distinct (map offset (filter ptr_row rows)))"

text \<open>An operation on the structure that may add one block, at its own row.\<close>

definition one_block ::
    "at_para_parse_syntax_t \<Rightarrow> at_args \<times> 'a at_env_scheme \<Rightarrow> at_args \<times> 'a at_env_scheme \<Rightarrow> bool" where
  "one_block row x y = (heap_only (snd x) (snd y)
     \<and> at_live (snd y) = at_live (snd x) + (if owns (fst y) row then 1 else 0)
     \<and> (\<forall>p. ptr_row row \<and> p = offset row \<or> arg_ptrs (fst y) p = arg_ptrs (fst x) p))"

lemma one_block_none: "\<not> owns args row \<Longrightarrow> arg_ptrs args' = arg_ptrs args \<Longrightarrow> one_block row (args, s) (args', s)"
  by (simp add: one_block_def owns_def)

lemma one_block_alloc:
  assumes "ptr_row row" and "at_malloc n s = (ok, t)" and "arg_ptrs args' = (arg_ptrs args)(offset row := p)" and "(p \<noteq> None) = ok"
  shows "one_block row (args, s) (args', t)"
  using assms heap_only_malloc [OF assms(2)] live_malloc [OF assms(2)] by (auto simp: one_block_def owns_def)

lemma assign_int_block:
  "\<not> owns args row \<Longrightarrow> at_parse_argument_assign_int para row args s = (ret, args', t) \<Longrightarrow> one_block row (args, s) (args', t)"
  by (auto simp: at_parse_argument_assign_int_def Let_def split: prod.splits if_splits intro!: one_block_none)

lemma assign_bits_block:
  "\<not> owns args row \<Longrightarrow> at_parse_argument_assign_bit_string para row args s = (ret, args', t) \<Longrightarrow> one_block row (args, s) (args', t)"
  by (auto simp: at_parse_argument_assign_bit_string_def Let_def split: prod.splits if_splits intro!: one_block_none)

lemma assign_string_block:
  "ptr_row row \<Longrightarrow> at_parse_argument_assign_string para row args s = (ret, args', t) \<Longrightarrow> one_block row (args, s) (args', t)"
  by (auto simp: at_parse_argument_assign_string_def Let_def split: prod.splits if_splits intro!: one_block_alloc)

lemma assign_octets_block:
  "ptr_row row \<Longrightarrow> \<not> owns args row \<Longrightarrow> at_parse_argument_assign_octet_string para row args s = (ret, args', t)
     \<Longrightarrow> one_block row (args, s) (args', t)"
  by (auto simp: at_parse_argument_assign_octet_string_def Let_def split: prod.splits if_splits
      intro!: one_block_alloc one_block_none)

lemma owns_words [simp]: "owns (args\<lparr>arg_words := w\<rparr>) row = owns args row"
  by (simp add: owns_def)

lemma one_block_words: "one_block row (args\<lparr>arg_words := w\<rparr>, s) y = one_block row (args, s) y"
  by (simp add: one_block_def)

lemma one_argument_block:
  assumes "\<not> owns args row" and "at_parse_one_argument para args row i s = (ret, args', t)"
  shows "one_block row (args, s) (args', t)"
proof (cases "snd para = 0")
  case True
  then show ?thesis using assms by (auto simp: at_parse_one_argument_def intro: one_block_none)
next
  case False
  have fold: "one_block row (args\<lparr>arg_words := w\<rparr>, s) (args', t) \<Longrightarrow> ?thesis" for w by (simp add: one_block_words)
  show ?thesis
  proof (cases "syn_type row")
    case AT_SYNTAX_TYPE_INT
    then show ?thesis using False assms
      by (auto simp: at_parse_one_argument_def Let_def split: prod.splits if_splits intro!: fold assign_int_block)
  next
    case AT_SYNTAX_TYPE_STRING
    then show ?thesis using False assms
      by (auto simp: at_parse_one_argument_def ptr_row_def Let_def split: prod.splits if_splits intro!: fold assign_string_block)
  next
    case AT_SYNTAX_TYPE_BIT_STRING
    then show ?thesis using False assms
      by (auto simp: at_parse_one_argument_def Let_def split: prod.splits if_splits intro!: fold assign_bits_block)
  next
    case AT_SYNTAX_TYPE_OCTET_STRING
    then show ?thesis using False assms
      by (auto simp: at_parse_one_argument_def ptr_row_def Let_def split: prod.splits if_splits intro!: fold assign_octets_block)
  qed
qed

lemma arguments_loop_block:
  assumes "\<forall>row \<in> set rows. \<not> owns args row" and "distinct (map offset (filter ptr_row rows))"
    and "length paras = length rows" and "arguments_loop paras rows i args s = (ret, args', t)"
  shows "heap_only s t \<and> at_live t = at_live s + owned args' rows
     \<and> (\<forall>p. p \<in> offset ` set (filter ptr_row rows) \<or> arg_ptrs args' p = arg_ptrs args p)"
  using assms
proof (induction rows arbitrary: paras args s i)
  case (Cons row rows)
  then obtain para ps where paras: "paras = para # ps" by (cases paras) auto
  obtain r1 a1 s1 where one: "at_parse_one_argument para args row i s = (r1, a1, s1)" using prod_cases3 by blast
  have n: "\<not> owns args row" using Cons.prems(1) by simp
  note blk = one_argument_block [OF n one, unfolded one_block_def, simplified]
  have rest: "\<forall>row' \<in> set rows. \<not> owns a1 row'"
  proof
    fix row' assume row': "row' \<in> set rows"
    show "\<not> owns a1 row'"
    proof (cases "ptr_row row'")
      case True
      then have "\<not> (ptr_row row \<and> offset row' = offset row)" using Cons.prems(2) row' by (fastforce simp: image_iff)
      then have "arg_ptrs a1 (offset row') = arg_ptrs args (offset row')" using blk by blast
      then show ?thesis using Cons.prems(1) row' by (simp add: owns_def)
    qed (simp add: owns_def)
  qed
  have keep: "owned a' (row # rows) = (if owns a1 row then 1 else 0) + owned a' rows"
    if "\<forall>p. p \<in> offset ` set (filter ptr_row rows) \<or> arg_ptrs a' p = arg_ptrs a1 p" for a'
    using that Cons.prems(2) by (auto simp: owns_def split: if_splits)
  show ?case
  proof (cases "r1 = AT_RET_OK")
    case True
    have "arguments_loop ps rows (i + 1) a1 s1 = (ret, args', t)"
      using Cons.prems(4) one True paras by simp
    from Cons.IH [OF rest _ _ this] have ih: "heap_only s1 t" "at_live t = at_live s1 + owned args' rows"
      "\<forall>p. p \<in> offset ` set (filter ptr_row rows) \<or> arg_ptrs args' p = arg_ptrs a1 p"
      using Cons.prems(2,3) paras by (auto split: if_splits)
    have "arg_ptrs args' p = arg_ptrs args p" if p: "p \<notin> offset ` set (filter ptr_row (row # rows))" for p
    proof -
      have "arg_ptrs a1 p = arg_ptrs args p" using p blk by (cases "ptr_row row") auto
      moreover have "arg_ptrs args' p = arg_ptrs a1 p" using p ih(3) by (cases "ptr_row row") auto
      ultimately show ?thesis by simp
    qed
    moreover have "heap_only s t" using blk ih(1) heap_only_trans by blast
    moreover have "at_live t = at_live s + owned args' (row # rows)" using blk keep [OF ih(3)] ih(2) by simp
    ultimately show ?thesis by blast
  next
    case False
    then have "args' = a1" "t = s1" using Cons.prems(4) one paras by simp_all
    then show ?thesis using blk keep [of a1] owned_cong [of rows a1 args'] rest by (auto simp: owned_def)
  qed
qed simp

lemma params_loop_length [simp]: "length (params_loop n ch) = n"
  by (induction n arbitrary: ch) (simp_all add: Let_def split: prod.split)

lemma expect_number:
  "rows \<noteq> [] \<Longrightarrow> syn_last (last rows) \<Longrightarrow> \<forall>row \<in> set (butlast rows). \<not> syn_last row
     \<Longrightarrow> snd (at_parse_get_expect_para_number rows mn mx) = mx + length rows"
  by (induction rows arbitrary: mn mx) (auto simp: Let_def split: if_splits)

lemma para_arguments_block:
  assumes ready: "at_ready s" and "syntax_ok rows" and free: "\<forall>row \<in> set rows. \<not> owns args row"
    and parse: "at_parse_para_arguments str args rows s = (ret, args', t)"
  shows "heap_only s t" and "at_live t = at_live s + owned args' rows"
proof -
  obtain ok s1 where m: "at_malloc 8 s = (ok, s1)" by fastforce
  note h1 = heap_only_malloc [OF m]
  have r1: "at_ready s1" using ready ready_heap [OF h1] by simp
  have none: "owned args rows = 0" using free by (simp add: owned_def)
  have "heap_only s t \<and> at_live t = at_live s + owned args' rows"
  proof (cases "ok \<and> (\<exists>n. at_parse_check_para_num str rows = Inr n)")
    case False
    then show ?thesis
      using parse m h1 live_malloc [OF m] live_free [OF r1] none heap_only_trans [OF h1 heap_only_free]
      by (auto simp: at_parse_para_arguments_def split: if_splits sum.splits)
  next
    case True
    then obtain c where chk: "at_parse_check_para_num str rows = Inr (c, length rows)" and c: "c \<le> length rows"
      using expect_number [of rows 0 0] assms(2)
      by (auto simp: at_parse_check_para_num_def syntax_ok_def Let_def split: prod.splits if_splits)
    obtain ok2 s2 where m2: "at_malloc (length rows * 8) s1 = (ok2, s2)" by fastforce
    note h2 = heap_only_malloc [OF m2]
    have r2: "at_ready s2" using r1 ready_heap [OF h2] by simp
    show ?thesis
    proof (cases ok2)
      case False
      then show ?thesis
        using True chk parse m m2 h1 h2 live_malloc [OF m] live_malloc [OF m2] live_free [OF r2] none
          heap_only_trans [OF heap_only_trans [OF h1 h2] heap_only_free]
        by (simp add: at_parse_para_arguments_def at_parse_create_para_array_def)
    next
      case ok2: True
      let ?ps = "params_loop c str @ replicate (length rows - c) (None, 0)"
      obtain r a s3 where loop: "arguments_loop ?ps rows 0 args s2 = (r, a, s3)" using prod_cases3 by blast
      have lens: "length ?ps = length rows" using c by simp
      have dist: "distinct (map offset (filter ptr_row rows))" using assms(2) by (simp add: syntax_ok_def)
      note blk = arguments_loop_block [OF free dist lens loop]
      have r3: "at_ready s3" using r2 blk ready_heap by metis
      have r4: "at_ready (at_free s3)" using r3 ready_heap [OF heap_only_free [of s3]] by simp
      have t: "args' = a" "t = at_free (at_free s3)"
        using True ok2 chk parse m m2 loop by (simp_all add: at_parse_para_arguments_def at_parse_create_para_array_def)
      have "heap_only s t" unfolding t
        by (rule heap_only_trans [OF heap_only_trans [OF h1 h2] heap_only_trans [OF conjunct1 [OF blk]
              heap_only_trans [OF heap_only_free heap_only_free]]])
      then show ?thesis
        using True ok2 blk t live_malloc [OF m] live_malloc [OF m2] live_free [OF r3] live_free [OF r4] by simp
    qed
  qed
  then show "heap_only s t" and "at_live t = at_live s + owned args' rows" by auto
qed

lemma free_arguments_block:
  assumes "at_ready s" and "rows \<noteq> []" and "syn_last (last rows)" and "\<forall>row \<in> set (butlast rows). \<not> syn_last row"
  shows "heap_only s (at_parse_free_arguments args rows s)
     \<and> at_live (at_parse_free_arguments args rows s) = at_live s - owned args rows"
  using assms
proof (induction rows arbitrary: s)
  case (Cons row rows)
  let ?s = "at_parse_free_one_argument args row s"
  have one: "heap_only s ?s" "at_live ?s = at_live s - (if owns args row then 1 else 0)"
    using live_free [OF Cons.prems(1)] heap_only_free [of s] by (auto simp: at_parse_free_one_argument_def owns_def ptr_row_def)
  have r: "at_ready ?s" using Cons.prems(1) ready_heap [OF one(1)] by simp
  show ?case
  proof (cases "rows = []")
    case True
    then show ?thesis using Cons.prems one by simp
  next
    case False
    then have "heap_only ?s (at_parse_free_arguments args rows ?s)
        \<and> at_live (at_parse_free_arguments args rows ?s) = at_live ?s - owned args rows"
      using Cons.IH [OF r] Cons.prems by simp
    then show ?thesis using Cons.prems one False heap_only_trans [OF one(1)] by auto
  qed
qed simp

section \<open>Numbers\<close>

lemma hd_fmt_u_zero: "hd (fmt_u n) = CHR ''0'' \<Longrightarrow> n = 0"
  unfolding fmt_u_def
proof (induction "10::nat" n rule: digits_base.induct)
  case (1 n)
  show ?case
  proof (cases "n < 10")
    case True
    have "\<forall>d \<in> set [1..<10]. digit_char d \<noteq> CHR ''0''" by code_simp
    then show ?thesis using True 1(2) by (cases "n = 0") (auto simp: digits_base_small)
  next
    case False
    then have "digits_base 10 n = digits_base 10 (n div 10) @ [digit_char (n mod 10)]" by (simp add: digits_base_step)
    then have "hd (digits_base 10 (n div 10)) = CHR ''0''" using 1(2) by simp
    then have "n div 10 = 0" using 1(1) False by simp
    then show ?thesis using False by simp
  qed
qed

lemma base_digit_ten: "base_digit 10 = is_digit"
  by (auto simp: base_digit_def is_digit_def Let_def fun_eq_iff)

lemma base_value_digit: "is_digit c \<Longrightarrow> base_value c = digit_val c"
  by (simp add: base_value_def digit_val_def is_digit_def Let_def)

lemma foldl_base_value:
  "\<forall>c \<in> set ds. is_digit c \<Longrightarrow> foldl (\<lambda>v c. 10 * v + base_value c) v ds = foldl (\<lambda>v c. 10 * v + digit_val c) v ds"
  by (induction ds arbitrary: v) (simp_all add: base_value_digit)

text \<open>What follows a parameter: nothing or the comma.\<close>

definition param_end :: "string \<Rightarrow> bool" where
  "param_end suf = (suf = [] \<or> hd suf = CHR '','')"

lemma param_end_chars:
  assumes "param_end suf"
  shows "takeWhile (base_digit b) suf = []" "char_at suf 0 \<noteq> CHR ''x''" "char_at suf 0 \<noteq> CHR ''X''"
  using assms by (cases suf; auto simp: param_end_def base_digit_def char_at_def NUL_def Let_def)+

lemma char_at_digits:
  assumes "ds \<noteq> []" and "\<forall>c \<in> set ds. is_digit c"
  shows "char_at (ds @ suf) 0 = hd ds" and "is_digit (hd ds)" and "\<not> is_space (hd ds)"
    and "hd ds \<noteq> CHR ''-''" and "hd ds \<noteq> CHR ''+''"
  using assms is_digit_plain [of "hd ds"] by (cases ds; auto simp: char_at_def)+

lemma char_at_second:
  assumes "ds \<noteq> []" and "\<forall>c \<in> set ds. is_digit c" and "param_end suf"
  shows "char_at (ds @ suf) 1 \<noteq> CHR ''x'' \<and> char_at (ds @ suf) 1 \<noteq> CHR ''X''"
proof -
  have x: "\<not> is_digit CHR ''x''" "\<not> is_digit CHR ''X''" by (simp_all add: is_digit_def)
  obtain d ds' where ds: "ds = d # ds'" using assms(1) by (cases ds) auto
  have "char_at (ds @ suf) 1 = (if ds' = [] then char_at suf 0 else hd ds')"
    by (cases ds') (auto simp: ds char_at_def)
  moreover have "ds' \<noteq> [] \<Longrightarrow> is_digit (hd ds')" using assms(2) ds by (cases ds') auto
  ultimately show ?thesis using param_end_chars [OF assms(3)] x by auto
qed

lemma strtoull_unsigned:
  assumes "param_end suf" and s2_def: "s2 = fmt_u n @ suf"
  shows "char_at s2 0 = CHR ''0'' \<Longrightarrow> takeWhile (base_digit 8) s2 = fmt_u n \<and> n = 0"
    and "takeWhile (base_digit 10) s2 = fmt_u n"
    and "foldl (\<lambda>v c. 10 * v + base_value c) 0 (fmt_u n) = n"
proof -
  have dg: "\<forall>c \<in> set (fmt_u n). is_digit c" by (rule fmt_u_digits)
  show "takeWhile (base_digit 10) s2 = fmt_u n"
    using param_end_chars(1) [OF assms(1), of 10] dg by (simp add: s2_def base_digit_ten takeWhile_all)
  show "foldl (\<lambda>v c. 10 * v + base_value c) 0 (fmt_u n) = n"
    using digits_value_fmt_u [of n] by (simp add: foldl_base_value [OF dg] digits_value_def)
  assume "char_at s2 0 = CHR ''0''"
  then have "n = 0" using hd_fmt_u_zero char_at_digits(1) [OF fmt_u_nonempty dg] by (simp add: s2_def)
  moreover have "fmt_u 0 = ''0''" by (simp add: fmt_u_def digits_base_small digit_char_def)
  moreover have "base_digit 8 CHR ''0''" by (simp add: base_digit_def)
  ultimately show "takeWhile (base_digit 8) s2 = fmt_u n \<and> n = 0"
    using param_end_chars(1) [OF assms(1), of 8] by (simp add: s2_def)
qed

lemma strtoull_fmt_d:
  assumes "param_end suf" and "nat \<bar>i\<bar> < 2 ^ 64"
  shows "strtoull (fmt_d i @ suf) = (of_int i, length (fmt_d i))"
proof -
  let ?n = "nat \<bar>i\<bar>"
  let ?s2 = "fmt_u ?n @ suf"
  have dg: "\<forall>c \<in> set (fmt_u ?n). is_digit c" by (rule fmt_u_digits)
  note c0 = char_at_digits [OF fmt_u_nonempty dg]
  note c1 = char_at_second [OF fmt_u_nonempty dg assms(1)]
  note u = strtoull_unsigned [OF assms(1) refl, of ?n]
  have dw: "dropWhile is_space ?s2 = ?s2" using c0(3) by (cases "fmt_u ?n") auto
  have f0: "foldl (\<lambda>v c. b * v + base_value c) 0 (fmt_u 0) = 0" for b
    by (simp add: fmt_u_def digits_base_small digit_char_def base_value_def)
  have v: "foldl (\<lambda>v c. (if char_at ?s2 0 = CHR ''0'' then 8 else 10) * v + base_value c) 0 (fmt_u ?n) = ?n"
    using u(1,3) f0 by (cases "char_at ?s2 0 = CHR ''0''") auto
  have tw: "takeWhile (base_digit (if char_at ?s2 0 = CHR ''0'' then 8 else 10)) ?s2 = fmt_u ?n"
    using u(1,2) by (cases "char_at ?s2 0 = CHR ''0''") auto
  show ?thesis
  proof (cases "i < 0")
    case True
    then have tx: "fmt_d i @ suf = CHR ''-'' # ?s2" by (simp add: fmt_d_def abs_if)
    have "\<not> is_space CHR ''-''" by (simp add: is_space_def)
    moreover have "char_at (CHR ''-'' # ?s2) 0 = CHR ''-''" by (simp add: char_at_def)
    moreover have "(- of_nat ?n :: u64) = of_int i" using True by simp
    ultimately show ?thesis using True assms(2) c1 v tw
      by (simp add: tx strtoull_def Let_def fmt_d_def abs_if)
  next
    case False
    then have tx: "fmt_d i @ suf = ?s2" by (simp add: fmt_d_def)
    have "(of_nat ?n :: u64) = of_int i" using False by simp
    then show ?thesis using False assms(2) c0 c1 v tw dw
      by (simp add: tx strtoull_def Let_def fmt_d_def)
  qed
qed

lemma assign_int_text:
  assumes "param_end suf" and "- 999999999 \<le> i" and "i \<le> 2147483647"
  shows "at_parse_argument_assign_int (fmt_d i @ suf, length (fmt_d i)) row args s
     = (AT_RET_OK, args\<lparr>arg_words := (arg_words args)(offset row := of_int i)\<rparr>, s)"
proof -
  have len: "length (fmt_d i) \<le> 10"
  proof (cases "i < 0")
    case True
    then show ?thesis using assms(2) length_fmt_d [of 9 i] by simp
  next
    case False
    then show ?thesis using assms(3) length_fmt_u [of "nat i" 10] by (simp add: fmt_d_def)
  qed
  have "nat \<bar>i\<bar> < 2 ^ 64" using assms(2,3) by simp
  note st = strtoull_fmt_d [OF assms(1) this]
  have "sint (of_int i :: u64) = i"
    using assms(2,3) by (simp add: int_word_sint)
  then show ?thesis using len assms(2,3) by (simp add: at_parse_argument_assign_int_def st)
qed

section \<open>Texts\<close>

text \<open>How a sender writes a character that the parser would take for a separator or an escape.\<close>

definition escape_char :: "char \<Rightarrow> string" where
  "escape_char c = (if c = CHR '','' \<or> c = CHR 0x5C then [CHR 0x5C, c] else [c])"

definition escape :: "string \<Rightarrow> string" where
  "escape tx = concat (map escape_char tx)"

lemma escape_simps [simp]: "escape [] = []" "escape (c # tx) = escape_char c @ escape tx"
  by (simp_all add: escape_def)

lemma escape_empty [simp]: "escape tx = [] \<longleftrightarrow> tx = []"
  by (cases tx) (simp_all add: escape_char_def)

lemma length_escape: "length tx \<le> length (escape tx)"
  by (induction tx) (simp_all add: escape_char_def)

lemma prepare_loop_escape:
  "length out + length tx < m \<Longrightarrow> prepare_loop (escape tx) m False out = out @ tx"
proof (induction tx arbitrary: out)
  case (Cons c tx)
  then show ?case by (simp add: escape_char_def)
qed simp

lemma prepare_string_escape:
  "at_parse_argument_prepare_string (Suc (length (escape tx))) (escape tx @ suf, length (escape tx)) = tx"
  using prepare_loop_escape [of "[]" tx] length_escape [of tx] by (simp add: at_parse_argument_prepare_string_def)

text \<open>Without the attribute \<open>AT_SYNTAX_ATTR_FIX_CASE\<close> the handler gets the text in upper case.\<close>

definition row_text :: "at_para_parse_syntax_t \<Rightarrow> string \<Rightarrow> string" where
  "row_text row tx = (if has_attr row AT_SYNTAX_ATTR_FIX_CASE then tx else map upper_char tx)"

lemma assign_string_text:
  assumes "at_malloc (length (escape tx) + 1) s = (True, t)"
  shows "at_parse_argument_assign_string (escape tx @ suf, length (escape tx)) row args s
     = (AT_RET_OK, args\<lparr>arg_ptrs := (arg_ptrs args)(offset row := Some (row_text row tx))\<rparr>, t)"
proof -
  have "at_base_toupper tx (length (escape tx)) = map upper_char tx"
    using length_escape [of tx] by (simp add: at_base_toupper_def)
  then show ?thesis
    using assms prepare_string_escape [of tx suf] by (simp add: at_parse_argument_assign_string_def row_text_def)
qed

section \<open>Bits and bytes\<close>

definition bits_text :: "bool list \<Rightarrow> string" where
  "bits_text bs = map (\<lambda>b. if b then CHR ''1'' else CHR ''0'') bs"

definition bits_value :: "bool list \<Rightarrow> nat" where
  "bits_value bs = foldl (\<lambda>v b. 2 * v + of_bool b) 0 bs"

lemma push_or_bit: "push_bit 1 w OR of_bool b = 2 * w + of_bool b" for w :: u32
  by (cases b) (simp_all add: push_bit_eq_mult or_one_eq mult.commute)

lemma bit_loop_text:
  "bit_string_loop (bits_text bs) (of_nat v) = (AT_RET_OK, of_nat (foldl (\<lambda>v b. 2 * v + of_bool b) v bs))"
proof (induction bs arbitrary: v)
  case (Cons b bs)
  have "push_bit 1 (of_nat v) OR (of_char (if b then CHR ''1'' else CHR ''0'') - 0x30) = (of_nat (2 * v + of_bool b) :: u32)"
    using push_or_bit [of "of_nat v" b] by (cases b) simp_all
  then show ?case using Cons [of "2 * v + of_bool b"] by (cases b) (simp_all add: bits_text_def mult.commute)
qed (simp add: bits_text_def)

lemma assign_bits_text:
  "length bs \<le> 32 \<Longrightarrow> at_parse_argument_assign_bit_string (bits_text bs @ suf, length (bits_text bs)) row args s
     = (AT_RET_OK, args\<lparr>arg_words := (arg_words args)(offset row := of_nat (bits_value bs))\<rparr>, s)"
  using bit_loop_text [of bs 0] by (simp add: at_parse_argument_assign_bit_string_def bits_text_def bits_value_def)

text \<open>Two digits for a byte.\<close>

definition octet_text :: "char \<Rightarrow> string" where
  "octet_text c = [digit_char (of_char c div 16), digit_char (of_char c mod 16)]"

definition octets_text :: "string \<Rightarrow> string" where
  "octets_text os = concat (map octet_text os)"

lemma length_octets_text [simp]: "length (octets_text os) = 2 * length os"
  by (induction os) (simp_all add: octets_text_def octet_text_def)

lemma char_to_hex_digit: "d < 16 \<Longrightarrow> at_parse_char_to_hex (digit_char d) = Some (of_nat d)"
proof -
  have "\<forall>d \<in> set [0..<16]. at_parse_char_to_hex (digit_char d) = Some (of_nat d)" by code_simp
  then show "d < 16 \<Longrightarrow> ?thesis" by simp
qed

lemma octet_value: "char_of (unat (push_bit 4 (of_nat (of_char c div 16)) OR of_nat (of_char c mod 16) :: u8)) = c"
proof -
  have "\<forall>n \<in> set [0..<256]. unat (push_bit 4 (of_nat (n div 16)) OR of_nat (n mod 16) :: u8) = n" by code_simp
  then have "unat (push_bit 4 (of_nat (of_char c div 16)) OR of_nat (of_char c mod 16) :: u8) = of_char c" by simp
  then show ?thesis by (simp add: char_of_char)
qed

lemma hex_loop_text:
  "at_parse_hex_string_to_uint8 (octets_text os @ suf) (2 * length os) dst = (AT_RET_OK, dst @ os)"
proof (induction os arbitrary: dst)
  case Nil
  then show ?case by (simp add: at_parse_hex_string_to_uint8.simps)
next
  case (Cons c os)
  let ?t = "octets_text (c # os) @ suf"
  have t: "?t = digit_char (of_char c div 16) # digit_char (of_char c mod 16) # (octets_text os @ suf)"
    by (simp add: octets_text_def octet_text_def)
  have "of_char c div 16 < (16 :: nat)" by (simp add: less_mult_imp_div_less)
  then have hex: "at_parse_char_to_hex (char_at ?t 0) = Some (of_nat (of_char c div 16))"
    "at_parse_char_to_hex (char_at ?t (Suc 0)) = Some (of_nat (of_char c mod 16))"
    by (simp_all add: t char_at_def char_to_hex_digit)
  note hex = hex [unfolded t]
  show ?case
    using Cons [of "dst @ [c]"]
    by (subst at_parse_hex_string_to_uint8.simps) (simp add: hex octet_value t)
qed

lemma assign_octets_text:
  assumes "at_malloc (length os + 1) s = (True, t)" and "\<not> has_attr row AT_SYNTAX_ATTR_LENGTH_FIELD" and "length os < 2 ^ 16"
  shows "at_parse_argument_assign_octet_string (octets_text os @ suf, length (octets_text os)) row args s
     = (AT_RET_OK, args\<lparr>arg_words := (arg_words args)(length_field_offset row := of_nat (length os)),
          arg_ptrs := (arg_ptrs args)(offset row := Some os)\<rparr>, t)"
proof -
  have half: "(of_nat (2 * length os) div 2 :: u32) = of_nat (length os)"
  proof (rule word_unat_eq_iff [THEN iffD2])
    have "unat (of_nat (2 * length os) :: u32) = 2 * length os" and "unat (of_nat (length os) :: u32) = length os"
      using assms(3) by (simp_all only: unat_of_nat) simp_all
    then show "unat (of_nat (2 * length os) div 2 :: u32) = unat (of_nat (length os) :: u32)"
      by (simp only: unat_div) simp
  qed
  have "unat (of_nat (length os) + 1 :: u32) = length os + 1"
    using assms(3) by (simp add: unat_word_ariths unat_of_nat)
  then show ?thesis
    using assms(1,2) hex_loop_text [of os suf "[]"] half by (simp add: at_parse_argument_assign_octet_string_def)
qed

section \<open>Values\<close>

datatype at_value = Absent | IntValue int | TextValue string | BitsValue "bool list" | OctetsValue string

fun value_text :: "at_value \<Rightarrow> string" where
  "value_text Absent = []"
| "value_text (IntValue i) = fmt_d i"
| "value_text (TextValue tx) = escape tx"
| "value_text (BitsValue bs) = bits_text bs"
| "value_text (OctetsValue os) = octets_text os"

text \<open>Which values a row of the syntax admits.\<close>

fun value_fits :: "at_para_parse_syntax_t \<Rightarrow> at_value \<Rightarrow> bool" where
  "value_fits row Absent = has_attr row AT_SYNTAX_ATTR_OPTIONAL"
| "value_fits row (IntValue i) =
     (syn_type row = AT_SYNTAX_TYPE_INT \<and> - 999999999 \<le> i \<and> i \<le> 2147483647
      \<and> (if has_attr row AT_SYNTAX_ATTR_LIST_VALUE then i \<in> set (int_values row)
         else (has_attr row AT_SYNTAX_ATTR_AT_MIN_VALUE \<longrightarrow> min_val row \<le> i)
           \<and> (has_attr row AT_SYNTAX_ATTR_AT_MAX_VALUE \<longrightarrow> i \<le> max_val row)))"
| "value_fits row (TextValue tx) =
     (syn_type row = AT_SYNTAX_TYPE_STRING \<and> tx \<noteq> [] \<and> NUL \<notin> set tx
      \<and> (if has_attr row AT_SYNTAX_ATTR_LIST_VALUE then row_text row tx \<in> set (string_values row)
         else has_attr row AT_SYNTAX_ATTR_MAX_LENGTH \<longrightarrow> length tx \<le> unat (max_length row)))"
| "value_fits row (BitsValue bs) =
     (syn_type row = AT_SYNTAX_TYPE_BIT_STRING \<and> bs \<noteq> [] \<and> length bs \<le> 32
      \<and> (if has_attr row AT_SYNTAX_ATTR_LIST_VALUE then of_nat (bits_value bs) \<in> set (bit_values row)
         else has_attr row AT_SYNTAX_ATTR_AT_MAX_VALUE \<longrightarrow> of_nat (bits_value bs) \<le> max_value row))"
| "value_fits row (OctetsValue os) =
     (syn_type row = AT_SYNTAX_TYPE_OCTET_STRING \<and> os \<noteq> [] \<and> length os < 2 ^ 16
      \<and> \<not> has_attr row AT_SYNTAX_ATTR_LENGTH_FIELD
      \<and> (has_attr row AT_SYNTAX_ATTR_MAX_LENGTH \<longrightarrow> of_nat (length os) \<le> max_length row))"

text \<open>The structure after a value has been stored.\<close>

definition mark :: "nat \<Rightarrow> at_args \<Rightarrow> at_args" where
  "mark i args = args\<lparr>arg_words := (arg_words args)(0 := arg_words args 0 OR push_bit i 1)\<rparr>"

definition put_word :: "nat \<Rightarrow> u32 \<Rightarrow> at_args \<Rightarrow> at_args" where
  "put_word p w args = args\<lparr>arg_words := (arg_words args)(p := w)\<rparr>"

definition put_ptr :: "nat \<Rightarrow> string \<Rightarrow> at_args \<Rightarrow> at_args" where
  "put_ptr p tx args = args\<lparr>arg_ptrs := (arg_ptrs args)(p := Some tx)\<rparr>"

fun put_value :: "at_para_parse_syntax_t \<Rightarrow> nat \<Rightarrow> at_value \<Rightarrow> at_args \<Rightarrow> at_args" where
  "put_value row i Absent args = args"
| "put_value row i (IntValue v) args = put_word (offset row) (of_int v) (mark i args)"
| "put_value row i (TextValue tx) args = put_ptr (offset row) (row_text row tx) (mark i args)"
| "put_value row i (BitsValue bs) args = put_word (offset row) (of_nat (bits_value bs)) (mark i args)"
| "put_value row i (OctetsValue os) args =
     put_ptr (offset row) os (put_word (length_field_offset row) (of_nat (length os)) (mark i args))"

lemma value_text_empty: "value_fits row v \<Longrightarrow> value_text v = [] \<longleftrightarrow> v = Absent"
  by (cases v) (auto simp: fmt_d_def bits_text_def octets_text_def octet_text_def)

lemma length_row_text [simp]: "length (row_text row tx) = length tx"
  by (simp add: row_text_def)

text \<open>A parameter as the array holds it: the line from its start on, and its length.\<close>

definition param_view :: "string \<Rightarrow> string \<Rightarrow> string option \<times> nat" where
  "param_view tx suf = (if tx = [] then None else Some (tx @ suf), length tx)"

lemma one_argument_present:
  assumes "tx \<noteq> []"
  shows "syn_type row = AT_SYNTAX_TYPE_INT \<Longrightarrow> at_parse_argument_assign_int (tx @ suf, length tx) row (mark i args) s = (AT_RET_OK, a, t)
      \<Longrightarrow> at_parse_one_argument (param_view tx suf) args row i s = (at_parse_verify_argument_int a row, a, t)"
    and "syn_type row = AT_SYNTAX_TYPE_STRING \<Longrightarrow> at_parse_argument_assign_string (tx @ suf, length tx) row (mark i args) s = (AT_RET_OK, a, t)
      \<Longrightarrow> at_parse_one_argument (param_view tx suf) args row i s = (at_parse_verify_argument_string a row, a, t)"
    and "syn_type row = AT_SYNTAX_TYPE_BIT_STRING \<Longrightarrow> at_parse_argument_assign_bit_string (tx @ suf, length tx) row (mark i args) s = (AT_RET_OK, a, t)
      \<Longrightarrow> at_parse_one_argument (param_view tx suf) args row i s = (at_parse_verify_argument_bit_string a row, a, t)"
    and "syn_type row = AT_SYNTAX_TYPE_OCTET_STRING \<Longrightarrow> at_parse_argument_assign_octet_string (tx @ suf, length tx) row (mark i args) s = (AT_RET_OK, a, t)
      \<Longrightarrow> at_parse_one_argument (param_view tx suf) args row i s = (at_parse_verify_argument_octet_string a row, a, t)"
  using assms unfolding at_parse_one_argument_def param_view_def mark_def by simp_all

lemma put_fields [simp]:
  "arg_words (put_word p w args) = (arg_words args)(p := w)" "arg_ptrs (put_word p w args) = arg_ptrs args"
  "arg_ptrs (put_ptr p tx args) = (arg_ptrs args)(p := Some tx)" "arg_words (put_ptr p tx args) = arg_words args"
  by (simp_all add: put_word_def put_ptr_def)

lemma one_argument_value:
  assumes fits: "value_fits row v" and "all_malloc s" and suf: "param_end suf"
  obtains t where "at_parse_one_argument (param_view (value_text v) suf) args row i s = (AT_RET_OK, put_value row i v args, t)"
    and "all_malloc t"
proof (cases v)
  case Absent
  then show thesis using that [of s] fits assms(2) by (simp add: at_parse_one_argument_def param_view_def)
next
  case v: (IntValue n)
  then have "sint (of_int n :: u32) = n" using fits by (simp add: int_word_sint)
  then have "at_parse_verify_argument_int (put_value row i v args) row = AT_RET_OK"
    using fits v by (auto simp: at_parse_verify_argument_int_def split: if_splits)
  moreover have a: "at_parse_argument_assign_int (value_text v @ suf, length (value_text v)) row (mark i args) s
      = (AT_RET_OK, put_value row i v args, s)"
    using fits v assign_int_text [OF suf, of n row "mark i args" s] by (simp add: put_word_def)
  ultimately show thesis
    using that [of s] fits v assms(2) value_text_empty [OF fits] one_argument_present(1) [OF _ _ a] by simp
next
  case v: (TextValue tx)
  obtain t where m: "at_malloc (length (escape tx) + 1) s = (True, t)" and h: "heap_only s t"
    using malloc_ok [OF assms(2)] by metis
  have "at_parse_verify_argument_string (put_value row i v args) row = AT_RET_OK"
    using fits v by (auto simp: at_parse_verify_argument_string_def split: if_splits)
  moreover have a: "at_parse_argument_assign_string (value_text v @ suf, length (value_text v)) row (mark i args) s
      = (AT_RET_OK, put_value row i v args, t)"
    using fits v assign_string_text [OF m, of suf row "mark i args"] by (simp add: put_ptr_def)
  ultimately show thesis
    using that [of t] fits v assms(2) value_text_empty [OF fits] one_argument_present(2) [OF _ _ a] all_malloc_heap [OF h] by simp
next
  case v: (BitsValue bs)
  have "at_parse_verify_argument_bit_string (put_value row i v args) row = AT_RET_OK"
    using fits v by (auto simp: at_parse_verify_argument_bit_string_def split: if_splits)
  moreover have a: "at_parse_argument_assign_bit_string (value_text v @ suf, length (value_text v)) row (mark i args) s
      = (AT_RET_OK, put_value row i v args, s)"
    using fits v assign_bits_text [of bs suf row "mark i args" s] by (simp add: put_word_def)
  ultimately show thesis
    using that [of s] fits v assms(2) value_text_empty [OF fits] one_argument_present(3) [OF _ _ a] by simp
next
  case v: (OctetsValue os)
  obtain t where m: "at_malloc (length os + 1) s = (True, t)" and h: "heap_only s t"
    using malloc_ok [OF assms(2)] by metis
  have len: "length os < 2 ^ 16" "\<not> has_attr row AT_SYNTAX_ATTR_LENGTH_FIELD" using fits v by simp_all
  have "at_parse_verify_argument_octet_string (put_value row i v args) row = AT_RET_OK"
    using fits v by (auto simp: at_parse_verify_argument_octet_string_def split: if_splits)
  moreover have a: "at_parse_argument_assign_octet_string (value_text v @ suf, length (value_text v)) row (mark i args) s
      = (AT_RET_OK, put_value row i v args, t)"
    using fits v assign_octets_text [OF m len(2,1), of suf "mark i args"] by (simp add: put_ptr_def put_word_def)
  ultimately show thesis
    using that [of t] fits v assms(2) value_text_empty [OF fits] one_argument_present(4) [OF _ _ a] all_malloc_heap [OF h] by simp
qed

section \<open>Lists of values\<close>

fun values_fit :: "at_para_parse_syntax_t list \<Rightarrow> at_value list \<Rightarrow> bool" where
  "values_fit rows [] = (\<forall>row \<in> set rows. has_attr row AT_SYNTAX_ATTR_OPTIONAL)"
| "values_fit (row # rows) (v # vs) = (value_fits row v \<and> values_fit rows vs)"
| "values_fit [] (v # vs) = False"

fun put_values :: "at_para_parse_syntax_t list \<Rightarrow> nat \<Rightarrow> at_value list \<Rightarrow> at_args \<Rightarrow> at_args" where
  "put_values (row # rows) i (v # vs) args = put_values rows (i + 1) vs (put_value row i v args)"
| "put_values rows i vs args = args"

fun param_views :: "string list \<Rightarrow> (string option \<times> nat) list" where
  "param_views [] = []"
| "param_views [x] = [param_view x []]"
| "param_views (x # y # ys) = param_view x (CHR '','' # joined CHR '','' (y # ys)) # param_views (y # ys)"

lemma arguments_loop_absent:
  "\<forall>row \<in> set rows. has_attr row AT_SYNTAX_ATTR_OPTIONAL \<Longrightarrow>
     arguments_loop (replicate n (None, 0)) rows i args s = (AT_RET_OK, args, s)"
  by (induction rows arbitrary: i n) (case_tac n; simp add: at_parse_one_argument_def)+

lemma arguments_loop_values:
  assumes "values_fit rows vs" and "all_malloc s"
  obtains t where "arguments_loop (param_views (map value_text vs) @ replicate n (None, 0)) rows i args s
       = (AT_RET_OK, put_values rows i vs args, t)"
proof -
  have "\<exists>t. arguments_loop (param_views (map value_text vs) @ replicate n (None, 0)) rows i args s
       = (AT_RET_OK, put_values rows i vs args, t)"
    using assms
  proof (induction rows vs arbitrary: i args s rule: values_fit.induct)
    case (1 rows)
    then show ?case by (cases rows) (simp_all add: arguments_loop_absent)
  next
    case (2 row rows v vs)
    have v: "value_fits row v" using 2(2) by simp
    let ?suf = "if vs = [] then [] else CHR '','' # joined CHR '','' (map value_text vs)"
    have views: "param_views (map value_text (v # vs)) = param_view (value_text v) ?suf # param_views (map value_text vs)"
      by (cases vs) simp_all
    have "param_end ?suf" by (simp add: param_end_def)
    then obtain t where one: "at_parse_one_argument (param_view (value_text v) ?suf) args row i s
        = (AT_RET_OK, put_value row i v args, t)" and "all_malloc t"
      by (rule one_argument_value [OF v 2(3)])
    then show ?case using 2(1) [of t "i + 1" "put_value row i v args"] 2(2) by (simp add: views del: list.map)
  qed simp
  then show thesis using that by blast
qed

section \<open>Splitting the parameters\<close>

lemma count_params_toks:
  "\<forall>t \<in> set ts. tok_ok CHR '','' t \<Longrightarrow> count_params (toks_text ts @ rest) AT_NORMAL_STATE n = count_params rest AT_NORMAL_STATE n"
proof (induction ts)
  case (Cons t ts)
  then show ?case by (cases t) (auto simp: at_parse_split_params_machines_def)
qed simp

lemma param_loop_toks:
  "\<forall>t \<in> set ts. tok_ok CHR '','' t \<Longrightarrow>
     param_loop (toks_text ts @ rest) AT_NORMAL_STATE n = param_loop rest AT_NORMAL_STATE (n + length (toks_text ts))"
proof (induction ts arbitrary: n)
  case (Cons t ts)
  then show ?case by (cases t) (auto simp: at_parse_create_params_machines_def)
qed simp

text \<open>A parameter without open separators.\<close>

definition param_ok :: "string \<Rightarrow> bool" where
  "param_ok x = (\<exists>ts. x = toks_text ts \<and> (\<forall>t \<in> set ts. tok_ok CHR '','' t))"

lemma param_ok_Nil: "param_ok []"
  unfolding param_ok_def by (rule exI [of _ "[]"]) simp

lemma param_ok_append: "param_ok x \<Longrightarrow> param_ok y \<Longrightarrow> param_ok (x @ y)"
  unfolding param_ok_def by (metis UnE set_append toks_text_simps(3))

lemma param_ok_char: "c \<noteq> CHR '','' \<Longrightarrow> c \<noteq> CHR 0x5C \<Longrightarrow> c \<noteq> NUL \<Longrightarrow> param_ok [c]"
  unfolding param_ok_def by (rule exI [of _ "[Plain c]"]) simp

lemma param_ok_plain: "\<forall>c \<in> set x. c \<noteq> CHR '','' \<and> c \<noteq> CHR 0x5C \<and> c \<noteq> NUL \<Longrightarrow> param_ok x"
  using param_ok_append [OF param_ok_char] by (induction x) (auto simp: param_ok_Nil)

lemma param_ok_escape: "NUL \<notin> set tx \<Longrightarrow> param_ok (escape tx)"
proof (induction tx)
  case (Cons c tx)
  have "param_ok [CHR 0x5C, c]" unfolding param_ok_def by (rule exI [of _ "[Pair c]"]) (use Cons.prems in auto)
  moreover have "param_ok [c]" if "c \<noteq> CHR '',''" "c \<noteq> CHR 0x5C" using that Cons.prems by (intro param_ok_char) auto
  ultimately have "param_ok (escape_char c)" by (simp add: escape_char_def)
  then show ?case using Cons by (simp add: param_ok_append)
qed (simp add: param_ok_Nil)

lemma count_params_joined:
  "xs \<noteq> [] \<Longrightarrow> \<forall>x \<in> set xs. param_ok x \<Longrightarrow> count_params (joined CHR '','' xs) AT_NORMAL_STATE n = n + length xs"
proof (induction "CHR '',''" xs arbitrary: n rule: joined.induct)
  case (2 x)
  then obtain ts where "x = toks_text ts" "\<forall>t \<in> set ts. tok_ok CHR '','' t" by (auto simp: param_ok_def)
  then show ?case using count_params_toks [of ts "[]" n] by simp
next
  case (3 x y ys)
  then obtain ts where "x = toks_text ts" "\<forall>t \<in> set ts. tok_ok CHR '','' t" by (auto simp: param_ok_def)
  then show ?case
    using 3 count_params_toks [of ts "CHR '','' # joined CHR '','' (y # ys)" n] by (simp add: at_parse_split_params_machines_def)
qed simp

lemma param_loop_end:
  assumes "param_ok x" and "param_end suf"
  shows "param_loop (x @ suf) AT_NORMAL_STATE 0 = (length x, suf)"
proof -
  obtain ts where ts: "x = toks_text ts" "\<forall>t \<in> set ts. tok_ok CHR '','' t" using assms(1) by (auto simp: param_ok_def)
  have "param_loop suf AT_NORMAL_STATE n = (n, suf)" for n
    using assms(2) by (cases suf) (auto simp: param_end_def at_parse_create_params_machines_def)
  then show ?thesis using param_loop_toks [OF ts(2), of suf 0] ts(1) by simp
qed

lemma params_loop_joined:
  "\<forall>x \<in> set xs. param_ok x \<Longrightarrow> params_loop (length xs) (joined CHR '','' xs) = param_views xs"
proof (induction "CHR '',''" xs rule: joined.induct)
  case (2 x)
  then show ?case using param_loop_end [of x "[]"] by (simp add: param_end_def param_view_def)
next
  case (3 x y ys)
  then show ?case
    using param_loop_end [of x "CHR '','' # joined CHR '','' (y # ys)"]
    by (auto simp: param_end_def param_view_def split: prod.splits)
qed simp

lemma param_ok_value: "value_fits row v \<Longrightarrow> param_ok (value_text v)"
proof (cases v)
  case (IntValue i)
  have "\<not> is_digit CHR '',''" "\<not> is_digit CHR 0x5C" "\<not> is_digit NUL" by (simp_all add: is_digit_def NUL_def)
  then have "\<forall>c \<in> set (fmt_d i). c \<noteq> CHR '','' \<and> c \<noteq> CHR 0x5C \<and> c \<noteq> NUL"
    using not_in_fmt_d [of _ i] by (auto simp: NUL_def)
  then show ?thesis using IntValue by (simp add: param_ok_plain)
next
  case (OctetsValue os)
  have "\<forall>d \<in> set [0..<16]. digit_char d \<noteq> CHR '','' \<and> digit_char d \<noteq> CHR 0x5C \<and> digit_char d \<noteq> NUL" by code_simp
  then have "\<forall>c \<in> set (octets_text os). c \<noteq> CHR '','' \<and> c \<noteq> CHR 0x5C \<and> c \<noteq> NUL"
    by (auto simp: octets_text_def octet_text_def less_mult_imp_div_less)
  then show ?thesis using OctetsValue by (simp add: param_ok_plain)
next
  case (BitsValue bs)
  then show ?thesis by (auto simp: bits_text_def NUL_def intro: param_ok_plain)
qed (auto simp: param_ok_Nil param_ok_escape)

lemma param_ok_values: "values_fit rows vs \<Longrightarrow> \<forall>x \<in> set (map value_text vs). param_ok x"
  by (induction rows vs rule: values_fit.induct) (auto simp: param_ok_value)

lemma values_fit_length: "values_fit rows vs \<Longrightarrow> length vs \<le> length rows"
  by (induction rows vs rule: values_fit.induct) auto

text \<open>The number of rows that are not optional.\<close>

lemma expect_mandatory:
  "rows \<noteq> [] \<Longrightarrow> syn_last (last rows) \<Longrightarrow> \<forall>row \<in> set (butlast rows). \<not> syn_last row
     \<Longrightarrow> fst (at_parse_get_expect_para_number rows mn mx)
        = mn + length (filter (\<lambda>row. \<not> has_attr row AT_SYNTAX_ATTR_OPTIONAL) rows)"
  by (induction rows arbitrary: mn mx) (auto simp: Let_def split: if_splits)

lemma values_fit_mandatory:
  "values_fit rows vs \<Longrightarrow> length (filter (\<lambda>row. \<not> has_attr row AT_SYNTAX_ATTR_OPTIONAL) rows) \<le> length vs"
  by (induction rows vs rule: values_fit.induct) (auto simp: filter_empty_conv)

text \<open>A list of values that fits the syntax is accepted, and every value is stored.\<close>

lemma para_arguments_values:
  assumes "syntax_ok rows" and "values_fit rows vs" and "vs \<noteq> []" and "all_malloc s"
  obtains t where "at_parse_para_arguments (joined CHR '','' (map value_text vs)) args rows s
      = (AT_RET_OK, put_values rows 0 vs args, t)"
proof -
  let ?str = "joined CHR '','' (map value_text vs)"
  let ?xs = "map value_text vs"
  have ok: "\<forall>x \<in> set ?xs. param_ok x" using assms(2) by (rule param_ok_values)
  have n: "at_parse_get_actual_para_number ?str = length vs"
    using count_params_joined [OF _ ok, of 0] assms(3) by (simp add: at_parse_get_actual_para_number_def)
  have chk: "at_parse_check_para_num ?str rows = Inr (length vs, length rows)"
    using expect_number [of rows 0 0] expect_mandatory [of rows 0 0] assms(1)
      values_fit_mandatory [OF assms(2)] values_fit_length [OF assms(2)]
    by (auto simp: at_parse_check_para_num_def n syntax_ok_def Let_def split: prod.split)
  obtain s1 where m1: "at_malloc 8 s = (True, s1)" and h1: "heap_only s s1" using malloc_ok [OF assms(4)] by metis
  have am1: "all_malloc s1" using all_malloc_heap [OF h1] assms(4) by simp
  obtain s2 where m2: "at_malloc (length rows * 8) s1 = (True, s2)" and h2: "heap_only s1 s2" using malloc_ok [OF am1] by metis
  have am2: "all_malloc s2" using all_malloc_heap [OF h2] am1 by simp
  have views: "params_loop (length vs) ?str = param_views ?xs" using params_loop_joined [OF ok] by simp
  obtain t where "arguments_loop (param_views ?xs @ replicate (length rows - length vs) (None, 0)) rows 0 args s2
      = (AT_RET_OK, put_values rows 0 vs args, t)"
    using arguments_loop_values [OF assms(2) am2] by blast
  then show thesis
    using that [of "at_free (at_free t)"] m1 m2 chk views
    by (simp add: at_parse_para_arguments_def at_parse_create_para_array_def)
qed

section \<open>Reading the structure\<close>

text \<open>Where a row keeps its words, and where its pointer.\<close>

definition word_fields :: "at_para_parse_syntax_t \<Rightarrow> nat list" where
  "word_fields row =
     (case syn_type row of
        AT_SYNTAX_TYPE_INT \<Rightarrow> [offset row]
      | AT_SYNTAX_TYPE_STRING \<Rightarrow> []
      | AT_SYNTAX_TYPE_BIT_STRING \<Rightarrow> [offset row]
      | AT_SYNTAX_TYPE_OCTET_STRING \<Rightarrow> [length_field_offset row])"

definition ptr_fields :: "at_para_parse_syntax_t \<Rightarrow> nat list" where
  "ptr_fields row = (if ptr_row row then [offset row] else [])"

text \<open>A structure whose first word is the mask of the parameters and whose fields do not overlap.\<close>

definition layout_ok :: "at_para_parse_syntax_t list \<Rightarrow> bool" where
  "layout_ok rows = (distinct (0 # concat (map word_fields rows)) \<and> distinct (concat (map ptr_fields rows)))"

text \<open>What a handler reads of a parameter.\<close>

fun holds :: "at_args \<Rightarrow> at_para_parse_syntax_t \<Rightarrow> at_value \<Rightarrow> bool" where
  "holds args row Absent =
     ((\<forall>p \<in> set (word_fields row). arg_words args p = 0) \<and> (\<forall>p \<in> set (ptr_fields row). arg_ptrs args p = None))"
| "holds args row (IntValue i) = (sint (arg_words args (offset row)) = i)"
| "holds args row (TextValue tx) = (arg_ptrs args (offset row) = Some (row_text row tx))"
| "holds args row (BitsValue bs) = (arg_words args (offset row) = of_nat (bits_value bs))"
| "holds args row (OctetsValue os) =
     (arg_ptrs args (offset row) = Some os \<and> arg_words args (length_field_offset row) = of_nat (length os))"

lemma put_value_frame:
  assumes "value_fits row v"
  shows "p \<notin> set (word_fields row) \<Longrightarrow> p \<noteq> 0 \<Longrightarrow> arg_words (put_value row i v args) p = arg_words args p"
    and "p \<notin> set (ptr_fields row) \<Longrightarrow> arg_ptrs (put_value row i v args) p = arg_ptrs args p"
    and "0 \<notin> set (word_fields row) \<Longrightarrow>
      arg_words (put_value row i v args) 0 = (if v = Absent then arg_words args 0 else arg_words args 0 OR push_bit i 1)"
  using assms by (cases v; auto simp: mark_def word_fields_def ptr_fields_def ptr_row_def)+

lemma put_value_holds:
  "value_fits row v \<Longrightarrow> 0 \<notin> set (word_fields row) \<Longrightarrow> holds args row Absent \<Longrightarrow> holds (put_value row i v args) row v"
  by (cases v) (auto simp: mark_def word_fields_def ptr_fields_def ptr_row_def int_word_sint)

lemma holds_cong:
  assumes "value_fits row v" and "\<And>p. p \<in> set (word_fields row) \<Longrightarrow> arg_words a p = arg_words b p"
    and "\<And>p. p \<in> set (ptr_fields row) \<Longrightarrow> arg_ptrs a p = arg_ptrs b p"
  shows "holds a row v = holds b row v"
  using assms by (cases v) (auto simp: word_fields_def ptr_fields_def ptr_row_def)

lemma put_values_frame:
  assumes "values_fit rows vs"
  shows "p \<notin> set (concat (map word_fields rows)) \<Longrightarrow> p \<noteq> 0 \<Longrightarrow> arg_words (put_values rows i vs args) p = arg_words args p"
    and "p \<notin> set (concat (map ptr_fields rows)) \<Longrightarrow> arg_ptrs (put_values rows i vs args) p = arg_ptrs args p"
  using assms by (induction rows vs arbitrary: i args rule: values_fit.induct)
    (simp_all add: put_value_frame)

lemma put_values_holds:
  assumes "values_fit rows vs" and "layout_ok rows" and "\<forall>row \<in> set rows. holds args row Absent"
  shows "\<forall>k < length rows. holds (put_values rows i vs args) (rows ! k) (if k < length vs then vs ! k else Absent)"
  using assms
proof (induction rows vs arbitrary: i args rule: values_fit.induct)
  case (1 rows)
  have "put_values rows i [] args = args" by (cases rows) simp_all
  then show ?case using 1(3) by (simp del: holds.simps)
next
  case (2 row rows v vs)
  let ?a = "put_value row i v args"
  have v: "value_fits row v" and lay: "layout_ok rows" and vs: "values_fit rows vs" using 2(2,3) by (simp_all add: layout_ok_def)
  have zero: "\<forall>row' \<in> set rows. holds ?a row' Absent"
  proof
    fix row' assume row': "row' \<in> set rows"
    have "0 \<notin> set (word_fields row')" "set (word_fields row) \<inter> set (word_fields row') = {}"
      "set (ptr_fields row) \<inter> set (ptr_fields row') = {}"
      using 2(3) row' by (auto simp: layout_ok_def)
    then have "arg_words ?a p = arg_words args p" if "p \<in> set (word_fields row')" for p
      using that by (intro put_value_frame(1) [OF v]) auto
    moreover have "arg_ptrs ?a p = arg_ptrs args p" if "p \<in> set (ptr_fields row')" for p
      using that \<open>set (ptr_fields row) \<inter> set (ptr_fields row') = {}\<close> by (intro put_value_frame(2) [OF v]) auto
    ultimately show "holds ?a row' Absent" using 2(4) row' by simp
  qed
  note ih = 2(1) [OF vs lay zero, of "i + 1"]
  have "holds (put_values rows (i + 1) vs ?a) row v = holds ?a row v"
  proof (rule holds_cong [OF v])
    have w: "0 \<notin> set (word_fields row)" "set (word_fields row) \<inter> set (concat (map word_fields rows)) = {}"
      and q: "set (ptr_fields row) \<inter> set (concat (map ptr_fields rows)) = {}"
      using 2(3) by (auto simp: layout_ok_def)
    fix p
    show "arg_words (put_values rows (i + 1) vs ?a) p = arg_words ?a p" if p: "p \<in> set (word_fields row)"
    proof (rule put_values_frame(1) [OF vs])
      show "p \<notin> set (concat (map word_fields rows))" using p w(2) by blast
      show "p \<noteq> 0" using p w(1) by metis
    qed
    show "arg_ptrs (put_values rows (i + 1) vs ?a) p = arg_ptrs ?a p" if p: "p \<in> set (ptr_fields row)"
    proof (rule put_values_frame(2) [OF vs])
      show "p \<notin> set (concat (map ptr_fields rows))" using p q by blast
    qed
  qed
  moreover have "holds ?a row v"
    using put_value_holds [OF v] 2(3,4) by (simp add: layout_ok_def del: holds.simps)
  ultimately show ?case
    using ih by (auto simp: less_Suc_eq_0_disj simp del: holds.simps)
qed simp

text \<open>The mask in the first word.\<close>

lemma put_values_mask:
  assumes "values_fit rows vs" and "layout_ok rows" and "k < 32"
  shows "bit (arg_words (put_values rows i vs args) 0) k
    = (bit (arg_words args 0) k \<or> i \<le> k \<and> k < i + length vs \<and> vs ! (k - i) \<noteq> Absent)"
  using assms
proof (induction rows vs arbitrary: i args rule: values_fit.induct)
  case (1 rows)
  then show ?case by (cases rows) auto
next
  case (2 row rows v vs)
  have v: "value_fits row v" and lay: "layout_ok rows" and vs: "values_fit rows vs" and z: "0 \<notin> set (word_fields row)"
    using 2(2,3) by (simp_all add: layout_ok_def)
  have "bit (arg_words (put_value row i v args) 0) k = (bit (arg_words args 0) k \<or> v \<noteq> Absent \<and> k = i)"
    using put_value_frame(3) [OF v z, of i args] 2(4) by (auto simp: bit_simps)
  moreover have "(v # vs) ! (k - i) = (if k = i then v else vs ! (k - (i + 1)))" if "i \<le> k"
    using that by (auto simp: nth_Cons')
  ultimately show ?case
    using 2(1) [OF vs lay 2(4), of "i + 1" "put_value row i v args"]
    by (cases "k = i"; cases "i \<le> k"; simp)
qed simp

lemma zero_args_holds: "holds zero_args row Absent"
  by (simp add: zero_args_def)

section \<open>Properties\<close>

lemma length_fmt_u_lower: "10 ^ k \<le> n \<Longrightarrow> k < length (fmt_u n)"
proof (rule ccontr)
  assume n: "10 ^ k \<le> n" and "\<not> k < length (fmt_u n)"
  have bound: "digits_value ds < 10 ^ length ds" if "\<forall>c \<in> set ds. is_digit c" for ds
    using that
  proof (induction ds rule: rev_induct)
    case (snoc c ds)
    have "is_digit c" using snoc.prems by simp
    then have "digit_val c \<le> 9" by (auto simp: is_digit_def digit_val_def)
    then show ?case using snoc by (simp add: digits_value_snoc)
  qed (simp add: digits_value_def)
  have "n < 10 ^ length (fmt_u n)" using bound [OF fmt_u_digits, of n] by simp
  also have "(10 :: nat) ^ length (fmt_u n) \<le> 10 ^ k" using \<open>\<not> k < length (fmt_u n)\<close> by (intro power_increasing) simp_all
  finally show False using n by simp
qed

lemma assign_int_refused:
  assumes suf: "param_end suf" and i: "i < - 999999999 \<or> 2147483647 < i"
  shows "fst (at_parse_argument_assign_int (fmt_d i @ suf, length (fmt_d i)) row args s) = AT_RET_PARSE_PARA_ERROR"
proof (cases "10 < length (fmt_d i)")
  case True
  then show ?thesis by (simp add: at_parse_argument_assign_int_def Let_def split: prod.split)
next
  case False
  have big: "2147483647 < i"
  proof (rule ccontr)
    assume "\<not> 2147483647 < i"
    then have "i < 0" "10 ^ 9 \<le> nat (- i)" using i by auto
    then show False using length_fmt_u_lower [of 9 "nat (- i)"] False by (simp add: fmt_d_def)
  qed
  then have fu: "fmt_d i = fmt_u (nat i)" by (simp add: fmt_d_def)
  have "\<not> 10 ^ 10 \<le> nat i" using length_fmt_u_lower [of 10 "nat i"] False fu by auto
  then have hi: "i < 10 ^ 10" using big by simp
  then have st: "strtoull (fmt_d i @ suf) = (of_int i, length (fmt_d i))" using big by (intro strtoull_fmt_d [OF suf]) simp
  have "sint (of_int i :: u64) = i" using big hi by (simp add: int_word_sint)
  then show ?thesis using st big by (simp add: at_parse_argument_assign_int_def)
qed

lemma int_parameter_range_facts:
  assumes "param_end suf"
  shows "(fst (at_parse_argument_assign_int (fmt_d i @ suf, length (fmt_d i)) row args s) = AT_RET_OK)
      = (- 999999999 \<le> i \<and> i \<le> 2147483647)"
    and "- 999999999 \<le> i \<Longrightarrow> i \<le> 2147483647 \<Longrightarrow>
      sint (arg_words (fst (snd (at_parse_argument_assign_int (fmt_d i @ suf, length (fmt_d i)) row args s))) (offset row)) = i"
proof -
  show "(fst (at_parse_argument_assign_int (fmt_d i @ suf, length (fmt_d i)) row args s) = AT_RET_OK)
      = (- 999999999 \<le> i \<and> i \<le> 2147483647)"
    using assign_int_text [OF assms, of i row args s] assign_int_refused [OF assms, of i row args s]
    by (cases "- 999999999 \<le> i \<and> i \<le> 2147483647") auto
  show "- 999999999 \<le> i \<Longrightarrow> i \<le> 2147483647 \<Longrightarrow>
      sint (arg_words (fst (snd (at_parse_argument_assign_int (fmt_d i @ suf, length (fmt_d i)) row args s))) (offset row)) = i"
    using assign_int_text [OF assms, of i row args s] by (simp add: int_word_sint)
qed

text \<open>C26: A decimal number is taken as the value of a parameter exactly if it is between -999999999 and 2147483647; the
  numbers below, down to the smallest 32-bit one, are refused because their text has more than ten characters.\<close>

theorem int_parameter_range:
  assumes "param_end suf"
  shows "((fst (at_parse_argument_assign_int (fmt_d i @ suf, length (fmt_d i)) row args s) = AT_RET_OK)
      = (- 999999999 \<le> i \<and> i \<le> 2147483647))
    \<and> (- 999999999 \<le> i \<and> i \<le> 2147483647 \<longrightarrow>
      sint (arg_words (fst (snd (at_parse_argument_assign_int (fmt_d i @ suf, length (fmt_d i)) row args s))) (offset row)) = i)"
  using int_parameter_range_facts [OF assms, of i row args s] by simp

definition demo_row :: at_para_parse_syntax_t where
  "demo_row = \<lparr>syn_type = AT_SYNTAX_TYPE_INT, syn_last = False, attribute = 0, offset = 4, min_val = 0, max_val = 0,
     int_values = [], max_length = 0, string_values = [], max_value = 0, bit_values = [], length_field_offset = 0\<rparr>"

theorem int_parameter_range_witness:
  "fst (at_parse_argument_assign_int (''-1000000000,7'', 11) demo_row zero_args demo_line_env) \<noteq> AT_RET_OK
   \<and> sint (arg_words (fst (snd (at_parse_argument_assign_int (''-42,7'', 3) demo_row zero_args demo_line_env))) 4) = - 42"
proof -
  have n: "fmt_d (- 1000000000) = ''-1000000000''" "fmt_d (- 42) = ''-42''"
    by (simp_all add: fmt_d_def fmt_u_def digits_base_small digits_base_step digit_char_def)
  have e: "param_end '',7''" by (simp add: param_end_def)
  have o: "offset demo_row = 4" by (simp add: demo_row_def)
  have t: "''-1000000000'' @ '',7'' = ''-1000000000,7''" "''-42'' @ '',7'' = ''-42,7''"
    "length ''-1000000000'' = 11" "length ''-42'' = 3" by simp_all
  have "fst (at_parse_argument_assign_int (''-1000000000,7'', 11) demo_row zero_args demo_line_env) \<noteq> AT_RET_OK"
    using conjunct1 [OF int_parameter_range [OF e, of "- 1000000000" demo_row zero_args demo_line_env]] unfolding n t by linarith
  moreover have "sint (arg_words (fst (snd (at_parse_argument_assign_int (''-42,7'', 3) demo_row zero_args demo_line_env))) 4) = - 42"
    using conjunct2 [OF int_parameter_range [OF e, of "- 42" demo_row zero_args demo_line_env]] unfolding n t o by linarith
  ultimately show ?thesis ..
qed

end
