(* ===== verification/AtCmd.thy ===== *)
theory AtCmd
  imports AtArgs
begin

text \<open>
  at_cmd.c: the tables of commands that the application has registered, and the search of a command by its
  name. A table is the list of its entries, the list of tables the list of \<open>g_at_cmd_list\<close> in the order of the
  registrations. An entry says which of its four functions are not NULL.
\<close>

section \<open>Entries and tables\<close>

record at_cmd_entry_t =
  entry_name :: "string option"
  entry_cmd_id :: u16
  entry_syntax :: "at_para_parse_syntax_t list option"
  has_cmd :: bool
  has_set :: bool
  has_read :: bool
  has_test :: bool

record at_cmd_env = at_parse_env +
  g_at_cmd_list :: "at_cmd_entry_t list list"
  g_at_cmd_struct_max_size :: u32

fun entry_total_loop :: "at_cmd_entry_t list list \<Rightarrow> u32 \<Rightarrow> u32" where
  "entry_total_loop [] nr_size = nr_size"
| "entry_total_loop (table # rest) nr_size = entry_total_loop rest (foldl (\<lambda>n _. n + 1) nr_size table)"

definition at_cmd_get_entry_total :: "'a at_cmd_env_scheme \<Rightarrow> u32" where
  "at_cmd_get_entry_total s = entry_total_loop (g_at_cmd_list s) 0"

text \<open>The two loops of \<open>at_cmd_get_all_entrys\<close>: the inner one returns from the function once it has stored one entry more than \<open>cnt\<close>.\<close>

fun table_entrys_loop :: "at_cmd_entry_t list \<Rightarrow> nat \<Rightarrow> at_cmd_entry_t list \<Rightarrow> bool \<times> at_cmd_entry_t list" where
  "table_entrys_loop [] cnt entrys = (False, entrys)"
| "table_entrys_loop (e # rest) cnt entrys =
     (if cnt < length entrys + 1 then (True, entrys @ [e]) else table_entrys_loop rest cnt (entrys @ [e]))"

fun all_entrys_loop :: "at_cmd_entry_t list list \<Rightarrow> nat \<Rightarrow> at_cmd_entry_t list \<Rightarrow> at_cmd_entry_t list" where
  "all_entrys_loop [] cnt entrys = entrys"
| "all_entrys_loop (table # rest) cnt entrys =
     (case table_entrys_loop table cnt entrys of
        (True, entrys1) \<Rightarrow> entrys1
      | (False, entrys1) \<Rightarrow> all_entrys_loop rest cnt entrys1)"

text \<open>The entries that have been stored; the returned total is their number.\<close>

definition at_cmd_get_all_entrys :: "nat \<Rightarrow> 'a at_cmd_env_scheme \<Rightarrow> at_cmd_entry_t list" where
  "at_cmd_get_all_entrys cnt s = all_entrys_loop (g_at_cmd_list s) cnt []"

text \<open>\<open>True\<close> is \<open>ERRCODE_SUCC\<close>, \<open>False\<close> is \<open>ERRCODE_MALLOC\<close>.\<close>

definition at_cmd_table_add :: "at_cmd_entry_t list \<Rightarrow> 'a at_cmd_env_scheme \<Rightarrow> bool \<times> 'a at_cmd_env_scheme" where
  "at_cmd_table_add table s =
     (let (ok, s1) = at_malloc 12 s
      in if \<not> ok then (False, s1) else (True, s1\<lparr>g_at_cmd_list := g_at_cmd_list s1 @ [table]\<rparr>))"

datatype at_register_t = AT_REGISTER_SUCC | AT_REGISTER_INVALID_PARAM | AT_REGISTER_MALLOC

text \<open>The table is not NULL; its length is \<open>len\<close>.\<close>

definition uapi_at_cmd_table_register ::
    "at_cmd_entry_t list option \<Rightarrow> u32 \<Rightarrow> 'a at_cmd_env_scheme \<Rightarrow> at_register_t \<times> 'a at_cmd_env_scheme" where
  "uapi_at_cmd_table_register table struct_max_size s =
     (case table of
        None \<Rightarrow> (AT_REGISTER_INVALID_PARAM, s)
      | Some t \<Rightarrow>
          if t = [] then (AT_REGISTER_INVALID_PARAM, s)
          else let (ok, s1) = at_cmd_table_add t s
          in (if ok then AT_REGISTER_SUCC else AT_REGISTER_MALLOC,
              if ok \<and> g_at_cmd_struct_max_size s1 < struct_max_size
              then s1\<lparr>g_at_cmd_struct_max_size := struct_max_size\<rparr> else s1))"

definition at_cmd_get_max_struct_size :: "'a at_cmd_env_scheme \<Rightarrow> u32" where
  "at_cmd_get_max_struct_size s = g_at_cmd_struct_max_size s"

section \<open>The search\<close>

definition name_char :: "char \<Rightarrow> bool" where
  "name_char c =
     (let n = (of_char c :: nat) in 65 \<le> n \<and> n \<le> 90 \<or> 97 \<le> n \<and> n \<le> 122 \<or> 48 \<le> n \<and> n \<le> 57)"

fun at_cmd_get_name_length :: "string \<Rightarrow> nat" where
  "at_cmd_get_name_length [] = 0"
| "at_cmd_get_name_length (c # rest) = (if name_char c then 1 + at_cmd_get_name_length rest else 0)"

datatype 'a at_found = Found 'a | NullName | NotInTable

fun find_loop :: "at_cmd_entry_t list \<Rightarrow> string \<Rightarrow> nat \<Rightarrow> at_cmd_entry_t at_found" where
  "find_loop [] name name_len = NotInTable"
| "find_loop (e # rest) name name_len =
     (case entry_name e of
        None \<Rightarrow> NullName
      | Some n \<Rightarrow>
          if take name_len n = take name_len name \<and> name_len = length n then Found e
          else find_loop rest name name_len)"

fun find_tables :: "at_cmd_entry_t list list \<Rightarrow> string \<Rightarrow> nat \<Rightarrow> at_cmd_entry_t option" where
  "find_tables [] name name_len = None"
| "find_tables (table # rest) name name_len =
     (case find_loop table name name_len of
        Found e \<Rightarrow> Some e
      | NullName \<Rightarrow> None
      | NotInTable \<Rightarrow> find_tables rest name name_len)"

text \<open>
  The string, the name in it in upper case, the offset behind the name if there is an entry, and the entry.
  \<open>strncmp\<close> is called with the length of the name, which has no NUL.
\<close>

definition at_cmd_find_entry ::
    "string \<Rightarrow> nat \<Rightarrow> 'a at_cmd_env_scheme \<Rightarrow> at_cmd_entry_t option \<times> string \<times> nat" where
  "at_cmd_find_entry str pos s =
     (if g_at_cmd_list s = [] then (None, str, pos)
      else
        let name_len = at_cmd_get_name_length (drop pos str);
            name = at_base_toupper (drop pos str) name_len;
            str1 = take pos str @ name
        in case find_tables (g_at_cmd_list s) name name_len of
             None \<Rightarrow> (None, str1, pos)
           | Some e \<Rightarrow> (Some e, str1, pos + name_len))"

section \<open>Lemmas\<close>

lemma name_length_le: "at_cmd_get_name_length s \<le> length s"
  by (induction s) auto

lemma name_length_append:
  "\<forall>c \<in> set n. name_char c \<Longrightarrow> rest = [] \<or> \<not> name_char (hd rest) \<Longrightarrow> at_cmd_get_name_length (n @ rest) = length n"
  by (induction n) (cases rest, auto)+

text \<open>The search as a search in one list: the entries in the order of their registration.\<close>

fun find_first :: "at_cmd_entry_t list \<Rightarrow> string \<Rightarrow> at_cmd_entry_t option" where
  "find_first [] n = None"
| "find_first (e # rest) n =
     (case entry_name e of None \<Rightarrow> None | Some m \<Rightarrow> if m = n then Some e else find_first rest n)"

lemma take_name_eq: "take (length n) m = take (length n) (n @ suf) \<and> length n = length m \<longleftrightarrow> m = n"
  by (auto simp: take_all)

lemma find_loop_append:
  "find_first (table @ rest) n = (case find_loop table (n @ suf) (length n) of
     Found e \<Rightarrow> Some e | NullName \<Rightarrow> None | NotInTable \<Rightarrow> find_first rest n)"
proof (induction table)
  case (Cons e table)
  then show ?case using take_name_eq [of n _ suf] by (auto split: option.split)
qed simp

lemma find_tables_first: "find_tables tables (n @ suf) (length n) = find_first (concat tables) n"
  by (induction tables) (simp_all add: find_loop_append [of _ _ n suf] split: at_found.split)

lemma find_first_distinct:
  assumes "e \<in> set es" and "\<forall>e \<in> set es. entry_name e \<noteq> None" and "distinct (map entry_name es)" and "entry_name e = Some n"
  shows "find_first es n = Some e"
  using assms
proof (induction es)
  case (Cons a es)
  then obtain m where m: "entry_name a = Some m" by auto
  show ?case
  proof (cases "e = a")
    case False
    then have "e \<in> set es" using Cons.prems(1) by simp
    then have "entry_name e \<in> set (map entry_name es)" by simp
    then have "m \<noteq> n" using Cons.prems(3,4) m by auto
    then show ?thesis using Cons m \<open>e \<in> set es\<close> by simp
  qed (use Cons.prems(4) in simp)
qed simp

lemma find_first_in: "find_first es n = Some e \<Longrightarrow> e \<in> set es \<and> entry_name e = Some n"
  by (induction es) (auto split: option.splits if_splits)

lemma table_entrys_take:
  "length entrys \<le> cnt \<Longrightarrow> table_entrys_loop table cnt entrys
     = (cnt < length entrys + length table, entrys @ take (Suc cnt - length entrys) table)"
proof (induction table arbitrary: entrys)
  case (Cons e table)
  moreover have "Suc (cnt - Suc (length entrys)) = cnt - length entrys" if "cnt \<noteq> length entrys" using that Cons.prems by simp
  ultimately show ?case by (cases "cnt = length entrys") (auto simp: Suc_diff_le)
qed simp

lemma all_entrys_take:
  "length entrys \<le> cnt \<Longrightarrow> all_entrys_loop tables cnt entrys = entrys @ take (Suc cnt - length entrys) (concat tables)"
proof (induction tables arbitrary: entrys)
  case (Cons table tables)
  then show ?case by (cases "cnt < length entrys + length table") (simp_all add: table_entrys_take)
qed simp

end
