(* ===== verification/AtChannel.thy ===== *)
theory AtChannel
  imports AtCmd
begin

text \<open>
  at_channel.c: the two channels (UART and diagnosis), which collect the bytes of a line and hand it over to the
  task; and the part of at_msg.c that writes to the queue.

  A channel's buffer is NULL or the list of its first \<open>len\<close> bytes: the code reads no byte behind them.
  \<open>at_channel_id_t\<close> is a number; the functions that index the table with it are called with one below
  \<open>AT_MAX_PORT_NUMBER\<close>. The queue that the system provides is the list of the messages in it.
\<close>

section \<open>State\<close>

abbreviation (input) ERRCODE_MEMCPY :: u32 where "ERRCODE_MEMCPY \<equiv> 0x80000004"
abbreviation (input) ERRCODE_AT_CHANNEL_BUSY :: u32 where "ERRCODE_AT_CHANNEL_BUSY \<equiv> 0x80003020"
abbreviation (input) ERRCODE_AT_CMD_TOO_LONG :: u32 where "ERRCODE_AT_CMD_TOO_LONG \<equiv> 0x80003021"
abbreviation (input) ERRCODE_AT_MSG_SEND_ERROR :: u32 where "ERRCODE_AT_MSG_SEND_ERROR \<equiv> 0x80003024"

definition AT_CMD_MAX_LENGTH :: nat where "AT_CMD_MAX_LENGTH = 4160"
definition AT_MAX_PORT_NUMBER :: nat where "AT_MAX_PORT_NUMBER = 2"
definition AT_FLAG_LENGTH :: nat where "AT_FLAG_LENGTH = 2"
definition AT_RESPONSE_OK :: string where "AT_RESPONSE_OK = ''OK'' @ [CHR 0x0D, CHR 0x0A]"
definition AT_RESPONSE_ERROR :: string where "AT_RESPONSE_ERROR = ''ERROR'' @ [CHR 0x0D, CHR 0x0A]"

datatype at_channel_state_t = AT_CHANNEL_UNINITIALIZED | AT_CHANNEL_FREE | AT_CHANNEL_INTERACTIVITY | AT_CHANNEL_BLOCK

record at_channel_t =
  ch_state :: at_channel_state_t
  ch_write :: bool
  ch_data :: "string option"

datatype at_msg_type_t = AT_CMD_MSG | AT_CMD_RESULT_MSG | AT_CMD_INTERACTIVITY_MSG | AT_CMD_TIMEOUT_MSG | AT_CMD_URC_REPORT_MSG

record at_msg_block_t =
  msg_type :: at_msg_type_t
  msg_channel :: nat
  msg_len :: u16

record at_channel_env = at_cmd_env +
  g_channel_entry :: "at_channel_t list"
  g_at_msg_queue :: "at_msg_block_t list"

definition chan :: "nat \<Rightarrow> 'a at_channel_env_scheme \<Rightarrow> at_channel_t" where
  "chan cid s = g_channel_entry s ! cid"

definition set_chan :: "nat \<Rightarrow> at_channel_t \<Rightarrow> 'a at_channel_env_scheme \<Rightarrow> 'a at_channel_env_scheme" where
  "set_chan cid c s = s\<lparr>g_channel_entry := (g_channel_entry s)[cid := c]\<rparr>"

definition chan_bytes :: "nat \<Rightarrow> 'a at_channel_env_scheme \<Rightarrow> string" where
  "chan_bytes cid s = (case ch_data (chan cid s) of None \<Rightarrow> [] | Some d \<Rightarrow> d)"

section \<open>Operations\<close>

definition uapi_at_channel_write_register :: "nat \<Rightarrow> bool \<Rightarrow> 'a at_channel_env_scheme \<Rightarrow> u32 \<times> 'a at_channel_env_scheme" where
  "uapi_at_channel_write_register cid func s =
     (if AT_MAX_PORT_NUMBER \<le> cid \<or> \<not> func then (ERRCODE_INVALID_PARAM, s)
      else (ERRCODE_SUCC, set_chan cid ((chan cid s)\<lparr>ch_write := True\<rparr>) s))"

definition enable_channel :: "at_channel_t \<Rightarrow> at_channel_t" where
  "enable_channel c =
     (if ch_state c \<noteq> AT_CHANNEL_UNINITIALIZED then c
      else if \<not> ch_write c then c
      else c\<lparr>ch_state := AT_CHANNEL_FREE\<rparr>)"

definition at_channel_check_and_enable :: "'a at_channel_env_scheme \<Rightarrow> 'a at_channel_env_scheme" where
  "at_channel_check_and_enable s = s\<lparr>g_channel_entry := map enable_channel (g_channel_entry s)\<rparr>"

text \<open>\<open>True\<close>: the function is not NULL.\<close>

definition at_channel_get_write_func :: "nat \<Rightarrow> 'a at_channel_env_scheme \<Rightarrow> bool" where
  "at_channel_get_write_func cid s = (if ch_state (chan cid s) = AT_CHANNEL_UNINITIALIZED then False else ch_write (chan cid s))"

definition at_channel_get_data :: "nat \<Rightarrow> 'a at_channel_env_scheme \<Rightarrow> string option" where
  "at_channel_get_data cid s = ch_data (chan cid s)"

definition at_channel_set_state :: "nat \<Rightarrow> at_channel_state_t \<Rightarrow> 'a at_channel_env_scheme \<Rightarrow> 'a at_channel_env_scheme" where
  "at_channel_set_state cid st s = set_chan cid ((chan cid s)\<lparr>ch_state := st\<rparr>) s"

definition at_channel_data_reset :: "nat \<Rightarrow> 'a at_channel_env_scheme \<Rightarrow> 'a at_channel_env_scheme" where
  "at_channel_data_reset cid s =
     (let s1 = (if ch_data (chan cid s) \<noteq> None then at_free s else s)
      in set_chan cid ((chan cid s)\<lparr>ch_data := None, ch_state := AT_CHANNEL_FREE\<rparr>) s1)"

definition at_channel_data_wait_interactivity :: "nat \<Rightarrow> 'a at_channel_env_scheme \<Rightarrow> 'a at_channel_env_scheme" where
  "at_channel_data_wait_interactivity cid s = at_channel_set_state cid AT_CHANNEL_INTERACTIVITY s"

definition at_is_channel_block :: "nat \<Rightarrow> 'a at_channel_env_scheme \<Rightarrow> bool" where
  "at_is_channel_block cid s = (ch_state (chan cid s) = AT_CHANNEL_BLOCK \<or> ch_state (chan cid s) = AT_CHANNEL_UNINITIALIZED)"

definition line_end :: "char \<Rightarrow> bool" where
  "line_end c = (c = CHR 0x0D \<or> c = CHR 0x0A)"

text \<open>The first line end behind the first byte becomes a NUL.\<close>

fun cut_line :: "string \<Rightarrow> bool \<times> string" where
  "cut_line [] = (False, [])"
| "cut_line (c # rest) = (if line_end c then (True, NUL # rest) else let (ok, d) = cut_line rest in (ok, c # d))"

definition at_channel_is_data_integrated :: "nat \<Rightarrow> 'a at_channel_env_scheme \<Rightarrow> bool \<times> 'a at_channel_env_scheme" where
  "at_channel_is_data_integrated cid s =
     (case chan_bytes cid s of
        [] \<Rightarrow> (False, s)
      | c # rest \<Rightarrow> let (ok, d) = cut_line rest in (ok, set_chan cid ((chan cid s)\<lparr>ch_data := Some (c # d)\<rparr>) s))"

definition at_channel_del_invalid_data :: "nat \<Rightarrow> nat \<Rightarrow> 'a at_channel_env_scheme \<Rightarrow> 'a at_channel_env_scheme" where
  "at_channel_del_invalid_data cid index s =
     (if AT_CMD_MAX_LENGTH < index then s
      else set_chan cid ((chan cid s)\<lparr>ch_data := Some (drop index (chan_bytes cid s))\<rparr>) s)"

definition is_a :: "char \<Rightarrow> bool" where "is_a c = (c = CHR ''a'' \<or> c = CHR ''A'')"
definition is_t :: "char \<Rightarrow> bool" where "is_t c = (c = CHR ''t'' \<or> c = CHR ''T'')"

text \<open>The loop over the pairs of bytes: the index of the first AT.\<close>

fun at_head_loop :: "string \<Rightarrow> nat \<Rightarrow> nat option" where
  "at_head_loop (c # d # rest) index = (if is_a c \<and> is_t d then Some index else at_head_loop (d # rest) (index + 1))"
| "at_head_loop rest index = None"

text \<open>It is called with at least one byte; after the loop the index is that of the last one.\<close>

definition at_channel_cmd_head_check :: "nat \<Rightarrow> 'a at_channel_env_scheme \<Rightarrow> bool \<times> 'a at_channel_env_scheme" where
  "at_channel_cmd_head_check cid s =
     (let d = chan_bytes cid s
      in case at_head_loop d 0 of
           Some index \<Rightarrow> (True, at_channel_del_invalid_data cid index s)
         | None \<Rightarrow>
             (False, if is_a (last d) then at_channel_del_invalid_data cid (length d - 1) s
                     else at_channel_data_reset cid s))"

definition at_msg_queue_write :: "at_msg_block_t \<Rightarrow> 'a at_channel_env_scheme \<Rightarrow> bool \<times> 'a at_channel_env_scheme" where
  "at_msg_queue_write msg s =
     (if msg_queue_write_func (g_at_base_api s) then
        let ok = queue_ans s (queue_n s); s1 = s\<lparr>queue_n := queue_n s + 1\<rparr>
        in (ok, if ok then s1\<lparr>g_at_msg_queue := g_at_msg_queue s1 @ [msg]\<rparr> else s1)
      else (True, s))"

definition at_msg_send :: "at_msg_block_t \<Rightarrow> 'a at_channel_env_scheme \<Rightarrow> u32 \<times> 'a at_channel_env_scheme" where
  "at_msg_send msg s =
     (let (ok, s1) = at_msg_queue_write msg s
      in (if ok then ERRCODE_SUCC else ERRCODE_AT_MSG_SEND_ERROR, s1))"

definition at_channel_send_msg :: "at_msg_type_t \<Rightarrow> nat \<Rightarrow> 'a at_channel_env_scheme \<Rightarrow> u32 \<times> 'a at_channel_env_scheme" where
  "at_channel_send_msg ty cid s =
     at_msg_send \<lparr>msg_type = ty, msg_channel = cid, msg_len = of_nat (length (chan_bytes cid s))\<rparr> s"

definition at_channel_cmd_handle :: "nat \<Rightarrow> 'a at_channel_env_scheme \<Rightarrow> u32 \<times> 'a at_channel_env_scheme" where
  "at_channel_cmd_handle cid s =
     (let (head, s1) = at_channel_cmd_head_check cid s
      in if \<not> head then (ERRCODE_SUCC, s1)
         else let (whole, s2) = at_channel_is_data_integrated cid s1
         in if \<not> whole then (ERRCODE_SUCC, s2)
         else let s3 = at_channel_del_invalid_data cid AT_FLAG_LENGTH s2
         in if char_at (chan_bytes cid s3) 0 = NUL then (ERRCODE_SUCC, at_emit (AtWrite cid AT_RESPONSE_OK) s3)
         else let (ret, s4) = at_channel_send_msg AT_CMD_MSG cid (at_channel_set_state cid AT_CHANNEL_BLOCK s3)
         in (ret, if ret \<noteq> ERRCODE_SUCC
                  then at_channel_set_state cid AT_CHANNEL_FREE (at_channel_data_reset cid s4) else s4))"

definition at_channel_interactivity_handle :: "nat \<Rightarrow> 'a at_channel_env_scheme \<Rightarrow> u32 \<times> 'a at_channel_env_scheme" where
  "at_channel_interactivity_handle cid s =
     (let (whole, s1) = at_channel_is_data_integrated cid s
      in if \<not> whole then (ERRCODE_SUCC, s1)
         else at_channel_send_msg AT_CMD_INTERACTIVITY_MSG cid (at_channel_set_state cid AT_CHANNEL_BLOCK s1))"

definition at_channel_data_handle :: "nat \<Rightarrow> 'a at_channel_env_scheme \<Rightarrow> u32 \<times> 'a at_channel_env_scheme" where
  "at_channel_data_handle cid s =
     (if ch_state (chan cid s) = AT_CHANNEL_FREE then at_channel_cmd_handle cid s else at_channel_interactivity_handle cid s)"

definition at_channel_prepare :: "nat \<Rightarrow> 'a at_channel_env_scheme \<Rightarrow> u32 \<times> 'a at_channel_env_scheme" where
  "at_channel_prepare cid s =
     (if at_is_channel_block cid s then (ERRCODE_AT_CHANNEL_BUSY, s)
      else if ch_data (chan cid s) = None then
        let (ok, s1) = at_malloc AT_CMD_MAX_LENGTH s
        in if \<not> ok then (ERRCODE_MALLOC, s1)
           else (ERRCODE_SUCC, set_chan cid ((chan cid s)\<lparr>ch_data := Some []\<rparr>) s1)
      else (ERRCODE_SUCC, s))"

text \<open>
  The sum of the lengths is one of 32 bits. \<open>memcpy_s\<close> refuses a destination of more than \<open>0x7fffffff\<close>
  bytes, its documented limit; the destination's size is \<open>len\<close>.
\<close>

definition at_channel_data_add :: "nat \<Rightarrow> string \<Rightarrow> u32 \<Rightarrow> 'a at_channel_env_scheme \<Rightarrow> u32 \<times> 'a at_channel_env_scheme" where
  "at_channel_data_add cid data len s =
     (let d = chan_bytes cid s
      in if of_nat AT_CMD_MAX_LENGTH < of_nat (length d) + len then (ERRCODE_AT_CMD_TOO_LONG, at_channel_data_reset cid s)
         else if 0x7fffffff < len then (ERRCODE_MEMCPY, at_channel_data_reset cid s)
         else (ERRCODE_SUCC, set_chan cid ((chan cid s)\<lparr>ch_data := Some (d @ take (unat len) data)\<rparr>) s))"

definition uapi_at_channel_data_recv ::
    "nat \<Rightarrow> string option \<Rightarrow> u32 \<Rightarrow> 'a at_channel_env_scheme \<Rightarrow> u32 \<times> 'a at_channel_env_scheme" where
  "uapi_at_channel_data_recv cid data len s =
     (if AT_MAX_PORT_NUMBER \<le> cid \<or> data = None \<or> len = 0 then (ERRCODE_INVALID_PARAM, s)
      else let (ret, s1) = at_channel_prepare cid s
      in if ret \<noteq> ERRCODE_SUCC then (ret, s1)
         else let (ret, s2) = at_channel_data_add cid (the data) len s1
         in if ret \<noteq> ERRCODE_SUCC then (ret, s2) else at_channel_data_handle cid s2)"

end
