(* ===== verification/AtProc.thy ===== *)
theory AtProc
  imports AtChannel
begin

text \<open>
  at_process.c, at_report.c, at_msg.c and at_zdiag.c: the execution of the commands of a line, the answers, and
  the task that serves the message queue.

  A handler is the application's code: it reports texts to the current channel and returns a
  result, which the oracle \<open>handler_ans\<close> gives. \<open>AtCall\<close> in the log says which handler was called and with what
  parameters.
\<close>

section \<open>State\<close>

record at_state = at_channel_env +
  cb_channel_id :: nat
  cb_entry :: "at_cmd_entry_t option"
  cb_format :: at_format_t
  cb_type :: at_cmd_type_t
  cb_args :: "at_args option"
  g_at_pre_char :: char
  uart_pre_char :: char
  g_at_uart_recv_cnt :: u32

section \<open>Reports\<close>

definition at_proc_get_current_channel_id :: "'a at_state_scheme \<Rightarrow> nat" where
  "at_proc_get_current_channel_id s = cb_channel_id s"

definition uapi_at_report_to_single_channel :: "nat \<Rightarrow> string \<Rightarrow> 'a at_state_scheme \<Rightarrow> 'a at_state_scheme" where
  "uapi_at_report_to_single_channel cid str s =
     (if at_channel_get_write_func cid s then at_emit (AtWrite cid str) s else s)"

definition uapi_at_report :: "string \<Rightarrow> 'a at_state_scheme \<Rightarrow> 'a at_state_scheme" where
  "uapi_at_report str s =
     (let channel_id = at_proc_get_current_channel_id s
      in if at_channel_get_write_func channel_id s then at_emit (AtWrite channel_id str) s else s)"

section \<open>One command\<close>

definition call_handler :: "at_cmd_type_t \<Rightarrow> at_args option \<Rightarrow> 'a at_state_scheme \<Rightarrow> at_ret_t \<times> 'a at_state_scheme" where
  "call_handler ty args s =
     (let (reports, ret) = handler_ans s (handler_n s);
          s1 = at_emit (AtCall (entry_cmd_id (the (cb_entry s))) ty args) (s\<lparr>handler_n := handler_n s + 1\<rparr>)
      in (ret, fold uapi_at_report reports s1))"

definition at_proc_perform_command_cmd :: "'a at_state_scheme \<Rightarrow> at_ret_t \<times> 'a at_state_scheme" where
  "at_proc_perform_command_cmd s =
     (if has_cmd (the (cb_entry s)) then call_handler AT_CMD_TYPE_CMD None s else (AT_RET_PROC_CMD_FUNC_MISSING, s))"

definition at_proc_perform_read_cmd :: "'a at_state_scheme \<Rightarrow> at_ret_t \<times> 'a at_state_scheme" where
  "at_proc_perform_read_cmd s =
     (if has_read (the (cb_entry s)) then call_handler AT_CMD_TYPE_READ None s else (AT_RET_PROC_READ_FUNC_MISSING, s))"

definition at_proc_perform_test_cmd :: "'a at_state_scheme \<Rightarrow> at_ret_t \<times> 'a at_state_scheme" where
  "at_proc_perform_test_cmd s =
     (if has_test (the (cb_entry s)) then call_handler AT_CMD_TYPE_TEST None s else (AT_RET_PROC_TEST_FUNC_MISSING, s))"

definition at_proc_perform_set_cmd :: "'a at_state_scheme \<Rightarrow> at_ret_t \<times> 'a at_state_scheme" where
  "at_proc_perform_set_cmd s =
     (if has_set (the (cb_entry s)) then call_handler AT_CMD_TYPE_SET (cb_args s) s else (AT_RET_PROC_SET_FUNC_MISSING, s))"

definition at_proc_perform_current_cmd :: "'a at_state_scheme \<Rightarrow> at_ret_t \<times> 'a at_state_scheme" where
  "at_proc_perform_current_cmd s =
     (case cb_type s of
        AT_CMD_TYPE_CMD \<Rightarrow> at_proc_perform_command_cmd s
      | AT_CMD_TYPE_READ \<Rightarrow> at_proc_perform_read_cmd s
      | AT_CMD_TYPE_TEST \<Rightarrow> at_proc_perform_test_cmd s
      | AT_CMD_TYPE_SET \<Rightarrow> at_proc_perform_set_cmd s
      | AT_CMD_TYPE_ERROR \<Rightarrow> (AT_RET_CMD_TYPE_ERROR, s))"

definition at_proc_para_arguments_finish :: "'a at_state_scheme \<Rightarrow> 'a at_state_scheme" where
  "at_proc_para_arguments_finish s =
     (case cb_args s of
        None \<Rightarrow> s
      | Some args \<Rightarrow>
          at_free (at_parse_free_arguments args (the (entry_syntax (the (cb_entry s)))) s)\<lparr>cb_args := None\<rparr>)"

definition at_proc_para_arguments_prepare :: "string \<Rightarrow> 'a at_state_scheme \<Rightarrow> at_ret_t \<times> 'a at_state_scheme" where
  "at_proc_para_arguments_prepare str s =
     (if cb_type s \<noteq> AT_CMD_TYPE_SET \<or> entry_syntax (the (cb_entry s)) = None then (AT_RET_OK, s)
      else
        let (ok, s1) = at_malloc (unat (at_cmd_get_max_struct_size s)) s
        in if \<not> ok then (AT_RET_MALLOC_ERROR, s1\<lparr>cb_args := None\<rparr>)
           else let (ret, args, s2) = at_parse_para_arguments str zero_args (the (entry_syntax (the (cb_entry s1)))) s1;
                    s3 = s2\<lparr>cb_args := Some args\<rparr>
           in if ret \<noteq> AT_RET_OK then (ret, at_proc_para_arguments_finish s3) else (AT_RET_OK, s3))"

definition at_proc_exec_cmd :: "at_cmd_info_t \<Rightarrow> 'a at_state_scheme \<Rightarrow> at_ret_t \<times> 'a at_state_scheme" where
  "at_proc_exec_cmd cmd_info s =
     (let (format, pos) = at_parse_format_of_cmd cmd_info 0;
          s1 = s\<lparr>cb_channel_id := cmd_channel cmd_info, cb_format := format\<rparr>
      in if format = AT_FORMAT_ERROR then (AT_RET_CMD_FORMAT_ERROR, s1)
         else let (entry, str, pos1) = at_cmd_find_entry (cmd_str cmd_info) pos s1;
                  s2 = s1\<lparr>cb_entry := entry\<rparr>
         in if entry = None then (AT_RET_CMD_NO_MATCH, s2)
         else let (ty, pos2) = at_parse_cmd_type str pos1;
                  (ret, s3) = at_proc_para_arguments_prepare (drop pos2 str) (s2\<lparr>cb_type := ty\<rparr>)
         in if ret \<noteq> AT_RET_OK then (ret, s3)
         else let (ret, s4) = at_proc_perform_current_cmd s3
         in (ret, at_proc_para_arguments_finish s4))"

section \<open>A line\<close>

definition at_proc_need_exit :: "at_ret_t \<Rightarrow> 'a at_state_scheme \<Rightarrow> bool \<times> 'a at_state_scheme" where
  "at_proc_need_exit result s =
     (if result = AT_RET_OK then (False, uapi_at_report AT_RESPONSE_OK s) else (False, uapi_at_report AT_RESPONSE_ERROR s))"

text \<open>The loop over the list: a turn takes one node, so it ends after as many turns as there are nodes.\<close>

fun proc_loop :: "nat \<Rightarrow> 'a at_state_scheme \<Rightarrow> 'a at_state_scheme" where
  "proc_loop 0 s = s"
| "proc_loop (Suc n) s =
     (case at_parse_get_next_remain_cmd s of
        (None, s1) \<Rightarrow> s1
      | (Some cmd_info, s1) \<Rightarrow>
          let (ret, s2) = at_proc_exec_cmd cmd_info s1;
              (exit, s3) = at_proc_need_exit ret (at_parse_del_one_remain_cmd (Some cmd_info) s2)
          in if exit then s3 else proc_loop n s3)"

definition at_proc_cmd_process :: "'a at_state_scheme \<Rightarrow> 'a at_state_scheme" where
  "at_proc_cmd_process s = proc_loop (length (g_at_remain_list s)) s"

definition at_proc_cmd_handle :: "nat \<Rightarrow> 'a at_state_scheme \<Rightarrow> at_ret_t \<times> 'a at_state_scheme" where
  "at_proc_cmd_handle channel_id s =
     (case at_channel_get_data channel_id s of
        None \<Rightarrow> (AT_RET_CHANNEL_DATA_NULL, at_channel_data_reset channel_id s)
      | Some str \<Rightarrow>
          let (ret, s1) = at_parse_split_combine_cmd (cstr str) channel_id s;
              s2 = at_channel_data_reset channel_id s1
          in if ret \<noteq> AT_RET_OK then (ret, s2) else (ret, at_proc_cmd_process s2))"

section \<open>The task\<close>

definition at_msg_process :: "at_msg_block_t \<Rightarrow> 'a at_state_scheme \<Rightarrow> 'a at_state_scheme" where
  "at_msg_process msg s =
     (case msg_type msg of
        AT_CMD_MSG \<Rightarrow> snd (at_proc_cmd_handle (msg_channel msg) s)
      | _ \<Rightarrow> s)"

text \<open>\<open>uapi_at_msg_main\<close> in front of its loop, which is entered if the base functions are registered.\<close>

definition msg_main_start :: "'a at_state_scheme \<Rightarrow> bool \<times> 'a at_state_scheme" where
  "msg_main_start s =
     (if \<not> at_base_is_at_init s then (False, s)
      else (True, at_channel_check_and_enable (s\<lparr>g_at_msg_queue := []\<rparr>)))"

text \<open>One turn of the loop; the read waits for a message.\<close>

definition msg_main_turn :: "'a at_state_scheme \<Rightarrow> 'a at_state_scheme" where
  "msg_main_turn s =
     (case g_at_msg_queue s of
        [] \<Rightarrow> s
      | msg # rest \<Rightarrow> at_msg_process msg (s\<lparr>g_at_msg_queue := rest\<rparr>))"

section \<open>The diagnosis channel\<close>

definition AT_ZDIAG_PORT :: nat where "AT_ZDIAG_PORT = 1"

definition zdiag_at_init :: "'a at_state_scheme \<Rightarrow> u32 \<times> 'a at_state_scheme" where
  "zdiag_at_init s = uapi_at_channel_write_register AT_ZDIAG_PORT True s"

text \<open>The bytes of the packet are at least \<open>data_size\<close>, which is not 0.\<close>

definition zdiag_at_proc :: "u32 \<Rightarrow> string \<Rightarrow> 'a at_state_scheme \<Rightarrow> u32 \<times> 'a at_state_scheme" where
  "zdiag_at_proc data_size data s =
     (let (ret, s1) = uapi_at_channel_data_recv AT_ZDIAG_PORT (Some data) data_size s
      in if ret \<noteq> ERRCODE_SUCC
            \<and> (g_at_pre_char s1 \<noteq> CHR 0x0D \<or> data_size \<noteq> 1 \<or> data ! 0 \<noteq> CHR 0x0A \<or> ret \<noteq> ERRCODE_AT_CHANNEL_BUSY)
         then (ret, s1)
         else (ERRCODE_SUCC, s1\<lparr>g_at_pre_char := data ! (unat data_size - 1)\<rparr>))"

section \<open>The UART channel\<close>

text \<open>
  The callback of the UART (uart_porting.c): it echoes what it has received to the UART, where the answers of
  the channel go too, and hands it to the channel. \<open>None\<close> is the panic on an empty reception. It tells an error
  in a message only.
\<close>

definition AT_UART_PORT :: nat where "AT_UART_PORT = 0"
definition CRLF_STR :: string where "CRLF_STR = [CHR 0x0D, CHR 0x0A]"

definition at_uart_rx_callback :: "string \<Rightarrow> bool \<Rightarrow> 'a at_state_scheme \<Rightarrow> 'a at_state_scheme option" where
  "at_uart_rx_callback buffer error s =
     (if buffer = [] then None
      else
        let s1 = s\<lparr>g_at_uart_recv_cnt := g_at_uart_recv_cnt s + of_nat (length buffer)\<rparr>;
            s2 = (if buffer ! 0 = CHR 0x0D then at_emit (AtWrite AT_UART_PORT CRLF_STR) s1
                  else at_emit (AtWrite AT_UART_PORT buffer) s1);
            (ret, s3) = uapi_at_channel_data_recv AT_UART_PORT (Some buffer) (of_nat (length buffer)) s2
        in Some (s3\<lparr>uart_pre_char := last buffer\<rparr>))"

definition at_uart_get_rcv_cnt :: "'a at_state_scheme \<Rightarrow> u32" where
  "at_uart_get_rcv_cnt s = g_at_uart_recv_cnt s"

section \<open>Boot\<close>

text \<open>\<open>at_base_api_register\<close> of main.c: the functions of the system, none of them NULL.\<close>

definition at_base_api_register :: "'a at_state_scheme \<Rightarrow> 'a at_state_scheme" where
  "at_base_api_register s =
     snd (uapi_at_base_api_register
       \<lparr>malloc_func = True, free_func = True, msg_queue_create_func = True, msg_queue_write_func = True,
        msg_queue_read_func = True, task_pause_func = True\<rparr> s)"

end
