(* ===== verification/AtRecv.thy ===== *)
theory AtRecv
  imports AtProc
begin

text \<open>
  What the channels make of the bytes they receive: a line may arrive in any pieces.
\<close>

section \<open>Frames\<close>

lemma heap_more:
  fixes s t :: "'a at_cmd_env_scheme"
  assumes "heap_only s t"
  shows "g_at_cmd_list t = g_at_cmd_list s" "g_at_cmd_struct_max_size t = g_at_cmd_struct_max_size s"
  using assms by (cases s; cases t; simp add: heap_only_def)+

lemma heap_more_chan:
  fixes s t :: "'a at_channel_env_scheme"
  assumes "heap_only s t"
  shows "g_channel_entry t = g_channel_entry s" "g_at_msg_queue t = g_at_msg_queue s" "chan cid t = chan cid s"
    "chan_bytes cid t = chan_bytes cid s"
  using assms by (cases s; cases t; simp add: heap_only_def chan_def chan_bytes_def)+

lemma chan_set_chan [simp]:
  "cid < length (g_channel_entry s) \<Longrightarrow> chan cid (set_chan cid c s) = c"
  "cid \<noteq> cid' \<Longrightarrow> chan cid' (set_chan cid c s) = chan cid' s"
  by (simp_all add: chan_def set_chan_def)

lemma set_chan_fields [simp]:
  "length (g_channel_entry (set_chan cid c s)) = length (g_channel_entry s)"
  "g_at_msg_queue (set_chan cid c s) = g_at_msg_queue s" "g_at_base_api (set_chan cid c s) = g_at_base_api s"
  "at_log (set_chan cid c s) = at_log s" "queue_ans (set_chan cid c s) = queue_ans s" "queue_n (set_chan cid c s) = queue_n s"
  "at_live (set_chan cid c s) = at_live s" "malloc_ans (set_chan cid c s) = malloc_ans s" "malloc_n (set_chan cid c s) = malloc_n s"
  "g_at_remain_list (set_chan cid c s) = g_at_remain_list s" "g_at_cmd_list (set_chan cid c s) = g_at_cmd_list s"
  "g_at_cmd_struct_max_size (set_chan cid c s) = g_at_cmd_struct_max_size s"
  "at_channel_env.more (set_chan cid c s) = at_channel_env.more s"
  "handler_n (set_chan cid c s) = handler_n s" "handler_ans (set_chan cid c s) = handler_ans s"
  "g_at_init_status (set_chan cid c s) = g_at_init_status s"
  by (simp_all add: set_chan_def)

lemma set_chan_twice [simp]: "set_chan cid c (set_chan cid d s) = set_chan cid c s"
  by (simp add: set_chan_def)

lemma set_chan_same [simp]: "set_chan cid (chan cid s) s = s"
  by (simp add: set_chan_def chan_def)

lemma ready_set_chan [simp]: "at_ready (set_chan cid c s) = at_ready s" "all_malloc (set_chan cid c s) = all_malloc s"
  by (simp_all add: at_ready_def all_malloc_def)

text \<open>An operation of a channel: it changes the heap's counters and the one entry.\<close>

definition chan_only :: "nat \<Rightarrow> 'a at_channel_env_scheme \<Rightarrow> 'a at_channel_env_scheme \<Rightarrow> bool" where
  "chan_only cid s t = heap_only s (set_chan cid (chan cid s) t)"

lemma chan_only_refl [simp]: "chan_only cid s s"
  by (simp add: chan_only_def)

lemma chan_only_heap: "heap_only s t \<Longrightarrow> chan_only cid s t"
  by (simp add: chan_only_def heap_more_chan(3) [symmetric])

lemma chan_only_set: "chan_only cid s (set_chan cid c s)"
  by (simp add: chan_only_def)

lemma heap_set_chan: "heap_only s t \<Longrightarrow> heap_only (set_chan cid c s) (set_chan cid c t)"
  by (cases s; cases t; simp add: heap_only_def set_chan_def)

lemma chan_only_trans: "chan_only cid s t \<Longrightarrow> chan_only cid t u \<Longrightarrow> chan_only cid s u"
  unfolding chan_only_def by (metis heap_only_trans heap_set_chan set_chan_twice)

lemma chan_only_fields:
  assumes "chan_only cid s t"
  shows "g_at_base_api t = g_at_base_api s" "at_log t = at_log s" "handler_n t = handler_n s" "handler_ans t = handler_ans s"
    "queue_n t = queue_n s" "queue_ans t = queue_ans s" "g_at_init_status t = g_at_init_status s" "malloc_ans t = malloc_ans s"
    "g_at_msg_queue t = g_at_msg_queue s" "g_at_remain_list t = g_at_remain_list s" "g_at_cmd_list t = g_at_cmd_list s"
    "g_at_cmd_struct_max_size t = g_at_cmd_struct_max_size s" "at_channel_env.more t = at_channel_env.more s"
    "length (g_channel_entry t) = length (g_channel_entry s)" "at_ready t = at_ready s" "all_malloc t = all_malloc s"
    "cid' \<noteq> cid \<Longrightarrow> chan cid' t = chan cid' s"
proof -
  note h = assms [unfolded chan_only_def]
  show "g_at_base_api t = g_at_base_api s" "at_log t = at_log s" "handler_n t = handler_n s" "handler_ans t = handler_ans s"
    "queue_n t = queue_n s" "queue_ans t = queue_ans s" "g_at_init_status t = g_at_init_status s" "malloc_ans t = malloc_ans s"
    using heap_only_fields [OF h] by simp_all
  show "g_at_msg_queue t = g_at_msg_queue s" "g_at_cmd_list t = g_at_cmd_list s"
    "g_at_cmd_struct_max_size t = g_at_cmd_struct_max_size s" "g_at_remain_list t = g_at_remain_list s"
    "at_ready t = at_ready s" "all_malloc t = all_malloc s"
    using heap_more_chan [OF h] heap_more [OF h] remain_heap [OF h] ready_heap [OF h] all_malloc_heap [OF h] by simp_all
  show "at_channel_env.more t = at_channel_env.more s"
    using h by (cases s; cases t; simp add: heap_only_def set_chan_def)
  show "length (g_channel_entry t) = length (g_channel_entry s)"
    using heap_more_chan(1) [OF h] by (metis set_chan_fields(1))
  show "cid' \<noteq> cid \<Longrightarrow> chan cid' t = chan cid' s"
    using heap_more_chan(3) [OF h, of cid'] by simp
qed

section \<open>Receiving\<close>

lemma cut_line_none: "\<forall>c \<in> set d. \<not> line_end c \<Longrightarrow> cut_line d = (False, d)"
  by (induction d) auto

lemma cut_line_first: "\<forall>c \<in> set body. \<not> line_end c \<Longrightarrow> line_end e \<Longrightarrow> cut_line (body @ e # junk) = (True, body @ NUL # junk)"
  by (induction body) auto

text \<open>A channel that has collected \<open>d\<close>.\<close>

definition collecting :: "nat \<Rightarrow> string \<Rightarrow> 'a at_channel_env_scheme \<Rightarrow> bool" where
  "collecting cid d s = (cid < AT_MAX_PORT_NUMBER \<and> length (g_channel_entry s) = AT_MAX_PORT_NUMBER
     \<and> ch_state (chan cid s) = AT_CHANNEL_FREE \<and> chan_bytes cid s = d)"

lemma chan_bytes_set [simp]:
  "cid < length (g_channel_entry s) \<Longrightarrow> chan_bytes cid (set_chan cid c s) = (case ch_data c of None \<Rightarrow> [] | Some d \<Rightarrow> d)"
  by (simp add: chan_bytes_def)

text \<open>A chunk that fits is added, and the line is looked at.\<close>

lemma recv_added:
  assumes coll: "collecting cid d s" and "all_malloc s" and "c \<noteq> []" and fit: "length d + length c \<le> AT_CMD_MAX_LENGTH"
  obtains t where "uapi_at_channel_data_recv cid (Some c) (of_nat (length c)) s = at_channel_data_handle cid t"
    and "chan_only cid s t" and "chan cid t = (chan cid s)\<lparr>ch_data := Some (d @ c)\<rparr>"
proof -
  have cid: "cid < length (g_channel_entry s)" and bytes: "chan_bytes cid s = d"
    and free: "\<not> at_is_channel_block cid s" "\<not> AT_MAX_PORT_NUMBER \<le> cid"
    using coll by (auto simp: collecting_def at_is_channel_block_def)
  obtain s1 where prep: "at_channel_prepare cid s = (ERRCODE_SUCC, s1)" and s1: "chan_only cid s s1"
    and c1: "chan cid s1 = (chan cid s)\<lparr>ch_data := Some d\<rparr>"
  proof (cases "ch_data (chan cid s) = None")
    case True
    obtain s0 where m: "at_malloc AT_CMD_MAX_LENGTH s = (True, s0)" and h: "heap_only s s0" using malloc_ok [OF assms(2)] by metis
    show thesis
      using that [of "set_chan cid ((chan cid s)\<lparr>ch_data := Some []\<rparr>) s0"] True m free cid bytes
        chan_only_trans [OF chan_only_heap [OF h] chan_only_set] heap_more_chan [OF h]
      by (simp add: at_channel_prepare_def chan_bytes_def)
  next
    case False
    then have "chan cid s = (chan cid s)\<lparr>ch_data := Some d\<rparr>" using bytes by (auto simp: chan_bytes_def)
    then show thesis using that [of s] False free by (simp add: at_channel_prepare_def)
  qed
  have small: "length c \<le> 4160" "length d \<le> 4160" using fit by (simp_all add: AT_CMD_MAX_LENGTH_def)
  have len: "unat (of_nat (length c) :: u32) = length c" using small by (simp add: unat_of_nat)
  have nz: "(of_nat (length c) :: u32) \<noteq> 0" using len assms(3) by (metis length_0_conv unat_0)
  have sum: "unat (of_nat (length d) + of_nat (length c) :: u32) = length d + length c"
    using fit by (simp add: AT_CMD_MAX_LENGTH_def unat_of_nat flip: of_nat_add)
  have le: "\<not> (of_nat AT_CMD_MAX_LENGTH :: u32) < of_nat (length d) + of_nat (length c)"
    using fit sum by (simp add: word_less_nat_alt AT_CMD_MAX_LENGTH_def)
  have mem: "\<not> 0x7fffffff < (of_nat (length c) :: u32)" using len small by (simp add: word_less_nat_alt)
  have cid1: "cid < length (g_channel_entry s1)" using chan_only_fields(14) [OF s1] cid by simp
  let ?t = "set_chan cid ((chan cid s)\<lparr>ch_data := Some (d @ c)\<rparr>) s1"
  have "chan_bytes cid s1 = d" using c1 by (simp add: chan_bytes_def)
  then have "at_channel_data_add cid c (of_nat (length c)) s1 = (ERRCODE_SUCC, ?t)"
    using le mem len c1 by (simp add: at_channel_data_add_def Let_def)
  then have "uapi_at_channel_data_recv cid (Some c) (of_nat (length c)) s = at_channel_data_handle cid ?t"
    using free nz prep by (simp add: uapi_at_channel_data_recv_def)
  then show thesis using that [of ?t] cid1 chan_only_trans [OF s1 chan_only_set] by simp
qed

text \<open>The start of a line: no line end behind the AT yet.\<close>

definition at_part :: "string \<Rightarrow> bool" where
  "at_part d = (\<exists>a. is_a a \<and> (d = [a] \<or> (\<exists>b body. is_t b \<and> d = a # b # body \<and> (\<forall>c \<in> set body. \<not> line_end c))))"

lemma at_part_end: "is_t b \<Longrightarrow> \<not> line_end b"
  by (auto simp: is_t_def line_end_def)

lemma handle_part:
  assumes "collecting cid d s" and data: "ch_data (chan cid s) = Some d" and "at_part d"
  shows "at_channel_data_handle cid s = (ERRCODE_SUCC, s)"
proof -
  have same: "set_chan cid ((chan cid s)\<lparr>ch_data := Some d\<rparr>) s = s"
    using data set_chan_same [of cid s] by (metis at_channel_t.surjective at_channel_t.update_convs(3) at_channel_t.select_convs(3))
  have free: "ch_state (chan cid s) = AT_CHANNEL_FREE" and bytes: "chan_bytes cid s = d"
    using assms(1) by (simp_all add: collecting_def)
  obtain a where a: "is_a a" and d: "d = [a] \<or> (\<exists>b body. is_t b \<and> d = a # b # body \<and> (\<forall>c \<in> set body. \<not> line_end c))"
    using assms(3) by (auto simp: at_part_def)
  have del: "at_channel_del_invalid_data cid 0 s = s" using bytes same by (simp add: at_channel_del_invalid_data_def)
  from d show ?thesis
  proof
    assume "d = [a]"
    then show ?thesis using a bytes free del
      by (simp add: at_channel_data_handle_def at_channel_cmd_handle_def at_channel_cmd_head_check_def)
  next
    assume "\<exists>b body. is_t b \<and> d = a # b # body \<and> (\<forall>c \<in> set body. \<not> line_end c)"
    then obtain b body where b: "is_t b" "d = a # b # body" "\<forall>c \<in> set body. \<not> line_end c" by blast
    have "cut_line (b # body) = (False, b # body)" using b at_part_end by (intro cut_line_none) auto
    then have "at_channel_is_data_integrated cid s = (False, s)"
      using bytes b(2) same by (simp add: at_channel_is_data_integrated_def)
    then show ?thesis using a b bytes free del
      by (simp add: at_channel_data_handle_def at_channel_cmd_handle_def at_channel_cmd_head_check_def)
  qed
qed

text \<open>The whole line: what is behind AT is left in the buffer, in front of a NUL.\<close>

lemma handle_line:
  assumes coll: "collecting cid d s" and d: "d = a # b # body @ e # junk" and "is_a a" "is_t b" "line_end e"
    and body: "\<forall>c \<in> set body. \<not> line_end c"
  defines "s1 \<equiv> set_chan cid ((chan cid s)\<lparr>ch_data := Some (body @ NUL # junk)\<rparr>) s"
  shows "at_channel_data_handle cid s =
    (if char_at (body @ NUL # junk) 0 = NUL then (ERRCODE_SUCC, at_emit (AtWrite cid AT_RESPONSE_OK) s1)
     else let (ret, t) = at_channel_send_msg AT_CMD_MSG cid (at_channel_set_state cid AT_CHANNEL_BLOCK s1)
       in (ret, if ret \<noteq> ERRCODE_SUCC then at_channel_set_state cid AT_CHANNEL_FREE (at_channel_data_reset cid t) else t))"
proof -
  have free: "ch_state (chan cid s) = AT_CHANNEL_FREE" and bytes: "chan_bytes cid s = d"
    and cid: "cid < length (g_channel_entry s)" using coll by (auto simp: collecting_def)
  let ?s0 = "set_chan cid ((chan cid s)\<lparr>ch_data := Some d\<rparr>) s"
  let ?s2 = "set_chan cid ((chan cid s)\<lparr>ch_data := Some (a # b # body @ NUL # junk)\<rparr>) s"
  have head: "at_channel_cmd_head_check cid s = (True, ?s0)"
    using assms(3,4) d bytes by (simp add: at_channel_cmd_head_check_def at_channel_del_invalid_data_def)
  have "cut_line (b # body @ e # junk) = (True, b # body @ NUL # junk)"
    using cut_line_first [of "b # body" e junk] body assms(4,5) at_part_end by auto
  then have cut: "at_channel_is_data_integrated cid ?s0 = (True, ?s2)"
    using d cid by (simp add: at_channel_is_data_integrated_def)
  have drop: "at_channel_del_invalid_data cid AT_FLAG_LENGTH ?s2 = s1"
    using cid by (simp add: at_channel_del_invalid_data_def AT_FLAG_LENGTH_def AT_CMD_MAX_LENGTH_def s1_def)
  have "chan_bytes cid s1 = body @ NUL # junk" using cid by (simp add: s1_def)
  then show ?thesis
    using free head cut drop by (simp add: at_channel_data_handle_def at_channel_cmd_handle_def)
qed

section \<open>A line in pieces\<close>

definition recv_all :: "nat \<Rightarrow> string list \<Rightarrow> 'a at_channel_env_scheme \<Rightarrow> 'a at_channel_env_scheme" where
  "recv_all cid chunks s = fold (\<lambda>c s. snd (uapi_at_channel_data_recv cid (Some c) (of_nat (length c)) s)) chunks s"

lemma at_part_prefix: "at_part (d @ c) \<Longrightarrow> d \<noteq> [] \<Longrightarrow> at_part d"
  by (cases d; cases "tl d") (auto simp: at_part_def)

lemma recv_parts:
  assumes "collecting cid d s" and "all_malloc s" and "\<forall>c \<in> set chunks. c \<noteq> []" and "at_part (d @ concat chunks) \<or> chunks = []"
    and "length (d @ concat chunks) \<le> AT_CMD_MAX_LENGTH"
  shows "chan_only cid s (recv_all cid chunks s) \<and> collecting cid (d @ concat chunks) (recv_all cid chunks s)
     \<and> ch_write (chan cid (recv_all cid chunks s)) = ch_write (chan cid s)"
  using assms
proof (induction chunks arbitrary: d s)
  case (Cons c chunks)
  obtain t where t: "uapi_at_channel_data_recv cid (Some c) (of_nat (length c)) s = at_channel_data_handle cid t"
    and only: "chan_only cid s t" and ct: "chan cid t = (chan cid s)\<lparr>ch_data := Some (d @ c)\<rparr>"
    using recv_added [OF Cons.prems(1,2), of c] Cons.prems(3,5) by auto
  have coll: "collecting cid (d @ c) t"
    using Cons.prems(1) ct chan_only_fields(14) [OF only] by (simp add: collecting_def chan_bytes_def)
  have "at_part (d @ c)" using Cons.prems(3,4) at_part_prefix [of "d @ c" "concat chunks"] by auto
  then have "snd (uapi_at_channel_data_recv cid (Some c) (of_nat (length c)) s) = t"
    using handle_part [OF coll] ct t by simp
  then have all: "recv_all cid (c # chunks) s = recv_all cid chunks t" by (simp add: recv_all_def)
  have "at_part ((d @ c) @ concat chunks) \<or> chunks = []" using Cons.prems(4) by auto
  from Cons.IH [OF coll _ _ this] show ?case
    using Cons.prems(2,3,5) ct only chan_only_fields(16) [OF only] chan_only_trans [OF only]
    by (auto simp: all)
qed (simp add: recv_all_def)

lemma recv_all_snoc: "recv_all cid (chunks @ [c]) s = snd (uapi_at_channel_data_recv cid (Some c) (of_nat (length c)) (recv_all cid chunks s))"
  by (simp add: recv_all_def)

text \<open>The message that hands a line over.\<close>

definition line_msg :: "nat \<Rightarrow> string \<Rightarrow> at_msg_block_t" where
  "line_msg cid d = \<lparr>msg_type = AT_CMD_MSG, msg_channel = cid, msg_len = of_nat (length d)\<rparr>"

definition queue_free :: "'a at_channel_env_scheme \<Rightarrow> bool" where
  "queue_free s = (msg_queue_write_func (g_at_base_api s) \<and> queue_ans s (queue_n s))"

lemma recv_line:
  assumes coll: "collecting cid [] s" and mem: "all_malloc s" and queue: "queue_free s"
    and chunks: "\<forall>x \<in> set (chunks @ [c]). x \<noteq> []"
    and line: "concat (chunks @ [c]) = a # b # body @ e # junk" and ab: "is_a a" "is_t b" and e: "line_end e"
    and body: "\<forall>x \<in> set body. \<not> line_end x" "body \<noteq> []" "hd body \<noteq> NUL"
    and early: "length (concat chunks) \<le> 2 + length body" and fit: "length (concat (chunks @ [c])) \<le> AT_CMD_MAX_LENGTH"
  obtains t where "recv_all cid (chunks @ [c]) s = t\<lparr>queue_n := queue_n t + 1, g_at_msg_queue := g_at_msg_queue t @ [line_msg cid (body @ NUL # junk)]\<rparr>"
    and "chan_only cid s t"
    and "chan cid t = (chan cid s)\<lparr>ch_state := AT_CHANNEL_BLOCK, ch_data := Some (body @ NUL # junk)\<rparr>"
proof -
  let ?d = "concat chunks" and ?s1 = "recv_all cid chunks s"
  have d: "?d = take (length ?d) (a # b # body)"
  proof -
    have "?d = take (length ?d) (a # b # body @ e # junk)" using line by (metis append_eq_conv_conj concat_append)
    also have "\<dots> = take (length ?d) ((a # b # body) @ e # junk)" by simp
    also have "\<dots> = take (length ?d) (a # b # body)" using early by (subst take_append) simp
    finally show ?thesis .
  qed
  have part: "at_part ?d \<or> chunks = []"
  proof (cases "?d = []")
    case False
    have "at_part (a # b # body)" using ab body(1) by (auto simp: at_part_def)
    then have "at_part (?d @ drop (length ?d) (a # b # body))" by (metis append_take_drop_id d)
    then show ?thesis using at_part_prefix False by blast
  qed (use chunks in \<open>cases chunks; auto\<close>)
  note r = recv_parts [OF coll mem _ _, of chunks, simplified]
  have r1: "chan_only cid s ?s1" "collecting cid ?d ?s1" "ch_write (chan cid ?s1) = ch_write (chan cid s)"
    using r chunks part fit by auto
  obtain t where t: "uapi_at_channel_data_recv cid (Some c) (of_nat (length c)) ?s1 = at_channel_data_handle cid t"
    and only: "chan_only cid ?s1 t" and ct: "chan cid t = (chan cid ?s1)\<lparr>ch_data := Some (?d @ c)\<rparr>"
    using recv_added [OF r1(2), of c] chan_only_fields(16) [OF r1(1)] mem chunks fit by auto
  have only': "chan_only cid s t" by (rule chan_only_trans [OF r1(1) only])
  have coll': "collecting cid (?d @ c) t"
    using r1(2) ct chan_only_fields(14) [OF only] by (simp add: collecting_def chan_bytes_def)
  have cid: "cid < length (g_channel_entry t)" using coll' by (simp add: collecting_def)
  let ?u = "set_chan cid ((chan cid s)\<lparr>ch_state := AT_CHANNEL_BLOCK, ch_data := Some (body @ NUL # junk)\<rparr>) t"
  have st: "(chan cid t)\<lparr>ch_data := x, ch_state := AT_CHANNEL_BLOCK\<rparr> = (chan cid s)\<lparr>ch_state := AT_CHANNEL_BLOCK, ch_data := x\<rparr>" for x
    using ct r1(3) by simp
  have "char_at (body @ NUL # junk) 0 \<noteq> NUL" using body(2,3) by (cases body) (auto simp: char_at_def)
  then have "snd (at_channel_data_handle cid t)
      = ?u\<lparr>queue_n := queue_n ?u + 1, g_at_msg_queue := g_at_msg_queue ?u @ [line_msg cid (body @ NUL # junk)]\<rparr>"
    using handle_line [OF coll' _ ab e body(1), of junk] line queue st cid chan_only_fields [OF only']
    by (simp add: at_channel_send_msg_def at_channel_set_state_def at_msg_send_def at_msg_queue_write_def Let_def queue_free_def
        line_msg_def)
  then show thesis
    using that [of ?u] t cid recv_all_snoc [of cid chunks c s] chan_only_trans [OF only' chan_only_set] by simp
qed

section \<open>Properties\<close>

lemma line_in_pieces_facts:
  assumes "collecting cid [] s" and "all_malloc s" and "queue_free s"
    and "\<forall>x \<in> set (chunks @ [c]). x \<noteq> []" and "concat (chunks @ [c]) = a # b # body @ e # junk"
    and "is_a a" and "is_t b" and "line_end e" and "\<forall>x \<in> set body. \<not> line_end x" and "body \<noteq> []" and "hd body \<noteq> NUL"
    and "length (concat chunks) \<le> 2 + length body" and "length (concat (chunks @ [c])) \<le> AT_CMD_MAX_LENGTH"
  shows "ch_state (chan cid (recv_all cid (chunks @ [c]) s)) = AT_CHANNEL_BLOCK"
    and "ch_data (chan cid (recv_all cid (chunks @ [c]) s)) = Some (body @ NUL # junk)"
    and "g_at_msg_queue (recv_all cid (chunks @ [c]) s) = g_at_msg_queue s @ [line_msg cid (body @ NUL # junk)]"
    and "at_log (recv_all cid (chunks @ [c]) s) = at_log s"
proof -
  obtain t where t: "recv_all cid (chunks @ [c]) s = t\<lparr>queue_n := queue_n t + 1,
        g_at_msg_queue := g_at_msg_queue t @ [line_msg cid (body @ NUL # junk)]\<rparr>"
    and only: "chan_only cid s t" and ct: "chan cid t = (chan cid s)\<lparr>ch_state := AT_CHANNEL_BLOCK, ch_data := Some (body @ NUL # junk)\<rparr>"
    by (rule recv_line [OF assms])
  have "chan cid (recv_all cid (chunks @ [c]) s) = chan cid t" using t by (simp add: chan_def)
  then show "ch_state (chan cid (recv_all cid (chunks @ [c]) s)) = AT_CHANNEL_BLOCK"
    and "ch_data (chan cid (recv_all cid (chunks @ [c]) s)) = Some (body @ NUL # junk)" using ct by simp_all
  show "g_at_msg_queue (recv_all cid (chunks @ [c]) s) = g_at_msg_queue s @ [line_msg cid (body @ NUL # junk)]"
    and "at_log (recv_all cid (chunks @ [c]) s) = at_log s"
    using t chan_only_fields [OF only] by simp_all
qed

text \<open>C25: It does not matter in which pieces a line arrives: if the end of the line is in the last piece, the channel is
  blocked with the text behind AT in its buffer, and one message for the task has been queued.\<close>

theorem line_in_pieces:
  assumes "collecting cid [] s" and "all_malloc s" and "queue_free s"
    and "\<forall>x \<in> set (chunks @ [c]). x \<noteq> []" and "concat (chunks @ [c]) = a # b # body @ e # junk"
    and "is_a a" and "is_t b" and "line_end e" and "\<forall>x \<in> set body. \<not> line_end x" and "body \<noteq> []" and "hd body \<noteq> NUL"
    and "length (concat chunks) \<le> 2 + length body" and "length (concat (chunks @ [c])) \<le> AT_CMD_MAX_LENGTH"
  shows "(ch_state (chan cid (recv_all cid (chunks @ [c]) s)) = AT_CHANNEL_BLOCK)
    \<and> (ch_data (chan cid (recv_all cid (chunks @ [c]) s)) = Some (body @ NUL # junk))
    \<and> (g_at_msg_queue (recv_all cid (chunks @ [c]) s) = g_at_msg_queue s @ [line_msg cid (body @ NUL # junk)])
    \<and> (at_log (recv_all cid (chunks @ [c]) s) = at_log s)"
  by (intro conjI line_in_pieces_facts [OF assms])

definition demo_channel_env :: at_channel_env where
  "demo_channel_env = \<lparr>g_at_base_api = \<lparr>malloc_func = True, free_func = True, msg_queue_create_func = True,
       msg_queue_write_func = True, msg_queue_read_func = True, task_pause_func = True\<rparr>,
     g_at_init_status = True, malloc_ans = (\<lambda>_ _. True), malloc_n = 0, at_live = 0, queue_ans = (\<lambda>_. True), queue_n = 0,
     handler_ans = (\<lambda>_. ([], AT_RET_OK)), handler_n = 0, at_log = [], g_at_remain_list = [], g_at_cmd_list = [],
     g_at_cmd_struct_max_size = 0,
     g_channel_entry = replicate 2 \<lparr>ch_state = AT_CHANNEL_FREE, ch_write = True, ch_data = None\<rparr>, g_at_msg_queue = []\<rparr>"

text \<open>The pieces \<open>a\<close>, \<open>T+\<close>, \<open>X\<close> and a line end with a line feed.\<close>

theorem line_in_pieces_witness:
  "ch_data (chan 0 (recv_all 0 [''a'', ''T+'', ''X'' @ [CHR 0x0D, CHR 0x0A]] demo_channel_env)) = Some (''+X'' @ [NUL, CHR 0x0A])"
proof -
  have env: "collecting 0 [] demo_channel_env" "all_malloc demo_channel_env" "queue_free demo_channel_env"
    by (simp_all add: collecting_def all_malloc_def queue_free_def at_ready_def demo_channel_env_def AT_MAX_PORT_NUMBER_def
        chan_def chan_bytes_def)
  have "ch_data (chan 0 (recv_all 0 ([''a'', ''T+''] @ [''X'' @ [CHR 0x0D, CHR 0x0A]]) demo_channel_env))
      = Some (''+X'' @ NUL # [CHR 0x0A])"
    by (rule line_in_pieces [OF env, of _ _ "CHR ''a''" "CHR ''T''" _ "CHR 0x0D", THEN conjunct2, THEN conjunct1])
      (simp_all add: is_a_def is_t_def line_end_def NUL_def AT_CMD_MAX_LENGTH_def)
  then show ?thesis by simp
qed

end
