(* ===== verification/AtServe.thy ===== *)
theory AtServe
  imports AtRecv
begin

text \<open>
  What the task makes of the commands of a line: every command is at_answered once, and no path keeps a block.
\<close>

section \<open>Frames\<close>

text \<open>What the execution of a command leaves alone.\<close>

definition proc_keep :: "'a at_state_scheme \<Rightarrow> 'a at_state_scheme \<Rightarrow> bool" where
  "proc_keep s t = (g_at_base_api t = g_at_base_api s \<and> malloc_ans t = malloc_ans s \<and> queue_ans t = queue_ans s
     \<and> queue_n t = queue_n s \<and> g_at_init_status t = g_at_init_status s \<and> handler_ans t = handler_ans s
     \<and> g_at_remain_list t = g_at_remain_list s \<and> g_at_cmd_list t = g_at_cmd_list s
     \<and> g_at_cmd_struct_max_size t = g_at_cmd_struct_max_size s \<and> g_channel_entry t = g_channel_entry s
     \<and> g_at_msg_queue t = g_at_msg_queue s)"

lemma proc_keep_trans: "proc_keep s t \<Longrightarrow> proc_keep t u \<Longrightarrow> proc_keep s u"
  by (simp add: proc_keep_def)

lemma proc_keep_refl [simp]: "proc_keep s s"
  by (simp add: proc_keep_def)

lemma proc_keep_heap: "heap_only s t \<Longrightarrow> proc_keep s t"
  by (simp add: proc_keep_def heap_only_fields heap_more heap_more_chan remain_heap)

lemma heap_more_proc:
  fixes s t :: "'a at_state_scheme"
  assumes "heap_only s t"
  shows "cb_channel_id t = cb_channel_id s" "cb_entry t = cb_entry s" "cb_type t = cb_type s" "cb_args t = cb_args s"
  using assms by (cases s; cases t; simp add: heap_only_def)+

lemma keep_ready: "proc_keep s t \<Longrightarrow> at_ready t = at_ready s" "proc_keep s t \<Longrightarrow> all_malloc t = all_malloc s"
  by (simp_all add: proc_keep_def at_ready_def all_malloc_def)

lemma keep_write: "proc_keep s t \<Longrightarrow> at_channel_get_write_func cid t = at_channel_get_write_func cid s"
  by (simp add: proc_keep_def at_channel_get_write_func_def chan_def)

text \<open>Reports to a channel that can write.\<close>

lemma report_keep:
  "proc_keep s (uapi_at_report str s)" "at_live (uapi_at_report str s) = at_live s"
  "handler_n (uapi_at_report str s) = handler_n s" "cb_args (uapi_at_report str s) = cb_args s"
  "cb_channel_id (uapi_at_report str s) = cb_channel_id s" "cb_entry (uapi_at_report str s) = cb_entry s"
  by (simp_all add: uapi_at_report_def proc_keep_def Let_def at_emit_def)

lemma report_log:
  "at_channel_get_write_func (cb_channel_id s) s \<Longrightarrow> at_log (uapi_at_report str s) = at_log s @ [AtWrite (cb_channel_id s) str]"
  by (simp add: uapi_at_report_def at_proc_get_current_channel_id_def at_emit_def)

lemma reports_keep:
  "proc_keep s (fold uapi_at_report strs s) \<and> at_live (fold uapi_at_report strs s) = at_live s
   \<and> handler_n (fold uapi_at_report strs s) = handler_n s \<and> cb_args (fold uapi_at_report strs s) = cb_args s
   \<and> cb_channel_id (fold uapi_at_report strs s) = cb_channel_id s \<and> cb_entry (fold uapi_at_report strs s) = cb_entry s"
proof (induction strs arbitrary: s)
  case (Cons str strs)
  then show ?case using proc_keep_trans [OF report_keep(1) [of s str]] by (simp add: report_keep)
qed simp

lemma reports_log:
  "at_channel_get_write_func (cb_channel_id s) s \<Longrightarrow>
     at_log (fold uapi_at_report strs s) = at_log s @ map (AtWrite (cb_channel_id s)) strs"
proof (induction strs arbitrary: s)
  case (Cons str strs)
  have "at_channel_get_write_func (cb_channel_id (uapi_at_report str s)) (uapi_at_report str s)"
    using Cons.prems by (simp add: report_keep keep_write [OF report_keep(1)])
  then show ?case using Cons.IH report_log [OF Cons.prems] by (simp add: report_keep)
qed simp

section \<open>One command\<close>

lemma call_handler_outcome:
  assumes "at_channel_get_write_func (cb_channel_id s) s" and "handler_ans s (handler_n s) = (reports, r)"
    and "call_handler ty args s = (ret, t)"
  shows "ret = r \<and> proc_keep s t \<and> at_live t = at_live s \<and> handler_n t = handler_n s + 1 \<and> cb_args t = cb_args s
    \<and> cb_channel_id t = cb_channel_id s \<and> cb_entry t = cb_entry s
    \<and> at_log t = at_log s @ AtCall (entry_cmd_id (the (cb_entry s))) ty args # map (AtWrite (cb_channel_id s)) reports"
proof -
  let ?s = "at_emit (AtCall (entry_cmd_id (the (cb_entry s))) ty args) (s\<lparr>handler_n := handler_n s + 1\<rparr>)"
  have w: "at_channel_get_write_func (cb_channel_id ?s) ?s"
    using assms(1) by (auto simp: at_channel_get_write_func_def chan_def at_emit_def split: if_splits)
  have k: "proc_keep s ?s" by (simp add: proc_keep_def at_emit_def)
  have "ret = r" "t = fold uapi_at_report reports ?s" using assms(2,3) by (simp_all add: call_handler_def)
  then show ?thesis
    using reports_keep [where s = ?s and strs = reports] proc_keep_trans [OF k] reports_log [OF w]
    by (simp add: at_emit_def)
qed

text \<open>The outcome of a command: it calls no handler and fails, or it returns what its handler does.\<close>

definition command_outcome :: "nat \<Rightarrow> at_ret_t \<Rightarrow> 'a at_state_scheme \<Rightarrow> 'a at_state_scheme \<Rightarrow> bool" where
  "command_outcome cid ret s t =
     (ret \<noteq> AT_RET_OK \<and> at_log t = at_log s \<and> handler_n t = handler_n s
      \<or> (\<exists>i ty args reports. handler_ans s (handler_n s) = (reports, ret) \<and> handler_n t = handler_n s + 1
          \<and> at_log t = at_log s @ AtCall i ty args # map (AtWrite cid) reports))"

lemma perform_outcome:
  assumes w: "at_channel_get_write_func (cb_channel_id s) s" and "at_proc_perform_current_cmd s = (ret, t)"
  shows "command_outcome (cb_channel_id s) ret s t \<and> proc_keep s t \<and> at_live t = at_live s \<and> cb_args t = cb_args s
    \<and> cb_channel_id t = cb_channel_id s \<and> cb_entry t = cb_entry s"
proof -
  obtain reports r where h: "handler_ans s (handler_n s) = (reports, r)" by fastforce
  have refused: "ret \<noteq> AT_RET_OK \<Longrightarrow> t = s \<Longrightarrow> ?thesis" by (simp add: command_outcome_def)
  have called: "call_handler ty args s = (ret, t) \<Longrightarrow> ?thesis" for ty args
    using call_handler_outcome [OF w h, of ty args ret t] h by (auto simp: command_outcome_def)
  show ?thesis
    using assms(2) refused called
    by (cases "cb_type s") (auto simp: at_proc_perform_current_cmd_def at_proc_perform_command_cmd_def
        at_proc_perform_read_cmd_def at_proc_perform_test_cmd_def at_proc_perform_set_cmd_def split: if_splits)
qed

text \<open>The tables hold syntaxes as they are meant.\<close>

definition syntaxes_ok :: "'a at_cmd_env_scheme \<Rightarrow> bool" where
  "syntaxes_ok s = (\<forall>e \<in> set (concat (g_at_cmd_list s)). \<forall>rows. entry_syntax e = Some rows \<longrightarrow> syntax_ok rows)"

definition entry_ok :: "at_cmd_entry_t option \<Rightarrow> bool" where
  "entry_ok e = (\<forall>rows. entry_syntax (the e) = Some rows \<longrightarrow> syntax_ok rows)"

text \<open>The blocks of the parameters: the structure and what it owns.\<close>

definition args_blocks :: "'a at_state_scheme \<Rightarrow> nat" where
  "args_blocks s = (case cb_args s of None \<Rightarrow> 0 | Some args \<Rightarrow> 1 + owned args (the (entry_syntax (the (cb_entry s)))))"

lemma finish_outcome:
  assumes "at_ready s" and "cb_args s \<noteq> None \<longrightarrow> entry_syntax (the (cb_entry s)) \<noteq> None \<and> entry_ok (cb_entry s)"
  defines "t \<equiv> at_proc_para_arguments_finish s"
  shows "proc_keep s t \<and> cb_args t = None \<and> at_live t = at_live s - args_blocks s \<and> at_log t = at_log s
    \<and> handler_n t = handler_n s \<and> cb_channel_id t = cb_channel_id s \<and> cb_entry t = cb_entry s \<and> cb_type t = cb_type s"
proof (cases "cb_args s")
  case None
  then show ?thesis by (simp add: t_def at_proc_para_arguments_finish_def args_blocks_def)
next
  case (Some args)
  let ?rows = "the (entry_syntax (the (cb_entry s)))"
  let ?u = "at_parse_free_arguments args ?rows s"
  have rows: "syntax_ok ?rows" using assms(2) Some by (auto simp: entry_ok_def)
  have f: "heap_only s ?u" "at_live ?u = at_live s - owned args ?rows"
    using free_arguments_block [OF assms(1), of ?rows args] rows by (simp_all add: syntax_ok_def)
  have r: "at_ready ?u" using assms(1) ready_heap [OF f(1)] by simp
  have h: "heap_only s (at_free ?u)" using heap_only_trans [OF f(1) heap_only_free] .
  have t: "t = (at_free ?u)\<lparr>cb_args := None\<rparr>" using Some by (simp add: t_def at_proc_para_arguments_finish_def)
  have "proc_keep (at_free ?u) ((at_free ?u)\<lparr>cb_args := None\<rparr>)" by (simp add: proc_keep_def)
  then have "proc_keep s t" unfolding t by (rule proc_keep_trans [OF proc_keep_heap [OF h]])
  then show ?thesis
    using f(2) live_free [OF r] heap_only_fields [OF h] heap_more_proc [OF h] Some by (simp add: t args_blocks_def)
qed

lemma prepare_outcome:
  assumes ready: "at_ready s" and none: "cb_args s = None" and entry: "entry_ok (cb_entry s)"
    and prep: "at_proc_para_arguments_prepare str s = (ret, t)"
  shows "proc_keep s t \<and> at_log t = at_log s \<and> handler_n t = handler_n s \<and> cb_channel_id t = cb_channel_id s
    \<and> cb_entry t = cb_entry s \<and> cb_type t = cb_type s \<and> at_live t = at_live s + args_blocks t
    \<and> (cb_args t \<noteq> None \<longrightarrow> entry_syntax (the (cb_entry t)) \<noteq> None) \<and> (ret \<noteq> AT_RET_OK \<longrightarrow> cb_args t = None)"
proof (cases "cb_type s \<noteq> AT_CMD_TYPE_SET \<or> entry_syntax (the (cb_entry s)) = None")
  case True
  then have "t = s" using prep by (auto simp: at_proc_para_arguments_prepare_def)
  then show ?thesis using none True prep by (auto simp: args_blocks_def at_proc_para_arguments_prepare_def)
next
  case False
  then obtain rows where rows: "entry_syntax (the (cb_entry s)) = Some rows" and ok: "syntax_ok rows"
    using entry by (auto simp: entry_ok_def)
  obtain b s1 where m: "at_malloc (unat (at_cmd_get_max_struct_size s)) s = (b, s1)" by fastforce
  note h1 = heap_only_malloc [OF m]
  show ?thesis
  proof (cases b)
    case False
    then have t: "t = s1\<lparr>cb_args := None\<rparr>" "ret \<noteq> AT_RET_OK"
      using prep m rows \<open>\<not> (cb_type s \<noteq> AT_CMD_TYPE_SET \<or> _)\<close> by (auto simp: at_proc_para_arguments_prepare_def)
    have "proc_keep s t" unfolding t by (rule proc_keep_trans [OF proc_keep_heap [OF h1]]) (simp add: proc_keep_def)
    then show ?thesis
      using t live_malloc [OF m] False heap_only_fields [OF h1] heap_more_proc [OF h1] by (simp add: args_blocks_def)
  next
    case b: True
    obtain r args s2 where p: "at_parse_para_arguments str zero_args rows s1 = (r, args, s2)" using prod_cases3 by blast
    have r1: "at_ready s1" using ready ready_heap [OF h1] by simp
    have "\<forall>row \<in> set rows. \<not> owns zero_args row" by (simp add: owns_def zero_args_def)
    note blk = para_arguments_block [OF r1 ok this p]
    let ?s3 = "s2\<lparr>cb_args := Some args\<rparr>"
    note h2 = heap_only_trans [OF h1 blk(1)]
    have k3: "proc_keep s ?s3" by (rule proc_keep_trans [OF proc_keep_heap [OF h2]]) (simp add: proc_keep_def)
    have e3: "cb_entry ?s3 = cb_entry s" "cb_type ?s3 = cb_type s" "cb_channel_id ?s3 = cb_channel_id s"
      "at_log ?s3 = at_log s" "handler_n ?s3 = handler_n s"
      using heap_only_fields [OF h2] heap_more_proc [OF h2] by simp_all
    have l3: "at_live ?s3 = at_live s + args_blocks ?s3"
      using blk(2) live_malloc [OF m] b rows e3(1) by (simp add: args_blocks_def)
    have t: "t = (if r \<noteq> AT_RET_OK then at_proc_para_arguments_finish ?s3 else ?s3)" "ret = r"
      using prep m b p rows False heap_more_proc [OF h1]
      by (cases "r = AT_RET_OK"; simp add: at_proc_para_arguments_prepare_def)+
    show ?thesis
    proof (cases "r = AT_RET_OK")
      case True
      then show ?thesis using t k3 e3 l3 rows by simp
    next
      case False
      have "at_ready ?s3" using ready keep_ready(1) [OF k3] by simp
      then have f: "proc_keep ?s3 t \<and> cb_args t = None \<and> at_live t = at_live ?s3 - args_blocks ?s3 \<and> at_log t = at_log ?s3
          \<and> handler_n t = handler_n ?s3 \<and> cb_channel_id t = cb_channel_id ?s3 \<and> cb_entry t = cb_entry ?s3
          \<and> cb_type t = cb_type ?s3"
        using finish_outcome [of ?s3] e3(1) rows entry False t(1) by auto
      then show ?thesis using f e3 l3 t(2) proc_keep_trans [OF k3] by (simp add: args_blocks_def)
    qed
  qed
qed

lemma find_entry_ok:
  assumes "syntaxes_ok s" and "at_cmd_find_entry str pos s = (Some e, str1, pos1)"
  shows "entry_ok (Some e)"
proof -
  have loop: "find_loop table name n = Found e \<Longrightarrow> e \<in> set table" for table name n
    by (induction table) (auto split: option.splits if_splits)
  have "find_tables tables name n = Some e \<Longrightarrow> e \<in> set (concat tables)" for tables name n
    by (induction tables) (auto split: at_found.splits dest: loop)
  then have "e \<in> set (concat (g_at_cmd_list s))"
    using assms(2) by (auto simp: at_cmd_find_entry_def Let_def split: if_splits option.splits)
  then show ?thesis using assms(1) by (auto simp: syntaxes_ok_def entry_ok_def)
qed

lemma exec_outcome:
  assumes ready: "at_ready s" and none: "cb_args s = None" and syn: "syntaxes_ok s"
    and w: "at_channel_get_write_func (cmd_channel cmd) s" and exec: "at_proc_exec_cmd cmd s = (ret, t)"
  shows "command_outcome (cmd_channel cmd) ret s t \<and> proc_keep s t \<and> at_live t = at_live s \<and> cb_args t = None
    \<and> cb_channel_id t = cmd_channel cmd"
proof -
  obtain fmt pos where f: "at_parse_format_of_cmd cmd 0 = (fmt, pos)" by fastforce
  let ?s1 = "s\<lparr>cb_channel_id := cmd_channel cmd, cb_format := fmt\<rparr>"
  obtain entry str pos1 where e: "at_cmd_find_entry (cmd_str cmd) pos ?s1 = (entry, str, pos1)" using prod_cases3 by blast
  have k1: "proc_keep s (?s1\<lparr>cb_entry := x, cb_type := y\<rparr>)" "proc_keep s (?s1\<lparr>cb_entry := x\<rparr>)" "proc_keep s ?s1" for x y
    by (simp_all add: proc_keep_def)
  show ?thesis
  proof (cases "fmt = AT_FORMAT_ERROR \<or> entry = None")
    case True
    then show ?thesis using exec f e none k1
      by (cases "fmt = AT_FORMAT_ERROR") (auto simp: at_proc_exec_cmd_def command_outcome_def Let_def)
  next
    case False
    then obtain en where en: "entry = Some en" by blast
    obtain ty pos2 where ty: "at_parse_cmd_type str pos1 = (ty, pos2)" by fastforce
    let ?s2 = "?s1\<lparr>cb_entry := entry, cb_type := ty\<rparr>"
    obtain r3 s3 where p: "at_proc_para_arguments_prepare (drop pos2 str) ?s2 = (r3, s3)" by fastforce
    have "syntaxes_ok ?s1" using syn by (simp add: syntaxes_ok_def)
    then have eok: "entry_ok (cb_entry ?s2)" using find_entry_ok [of ?s1] e en by simp
    have r2: "at_ready ?s2" "cb_args ?s2 = None" using ready none by (simp_all add: at_ready_def)
    note prep = prepare_outcome [OF r2 eok p]
    have k3: "proc_keep s s3" by (rule proc_keep_trans [OF k1(1) conjunct1 [OF prep]])
    show ?thesis
    proof (cases "r3 = AT_RET_OK")
      case False
      then have "ret = r3" "t = s3" using exec f e en ty p \<open>\<not> (fmt = _ \<or> _)\<close> by (simp_all add: at_proc_exec_cmd_def)
      then show ?thesis using False prep k3 by (simp add: command_outcome_def args_blocks_def)
    next
      case True
      obtain r4 s4 where q: "at_proc_perform_current_cmd s3 = (r4, s4)" by fastforce
      have w3: "at_channel_get_write_func (cb_channel_id s3) s3" using w prep keep_write [OF k3] by simp
      note perf = perform_outcome [OF w3 q]
      have k4: "proc_keep s s4" using proc_keep_trans [OF k3] perf by blast
      have t: "ret = r4" "t = at_proc_para_arguments_finish s4"
        using exec f e en ty p q True \<open>\<not> (fmt = _ \<or> _)\<close> by (simp_all add: at_proc_exec_cmd_def)
      have "at_ready s4" using ready keep_ready(1) [OF k4] by simp
      moreover have "cb_args s4 \<noteq> None \<longrightarrow> entry_syntax (the (cb_entry s4)) \<noteq> None \<and> entry_ok (cb_entry s4)"
        using prep perf eok by auto
      ultimately have fin: "proc_keep s4 t \<and> cb_args t = None \<and> at_live t = at_live s4 - args_blocks s4 \<and> at_log t = at_log s4
          \<and> handler_n t = handler_n s4 \<and> cb_channel_id t = cb_channel_id s4"
        using finish_outcome [of s4] t(2) by blast
      have "cb_args s4 = cb_args s3" "cb_entry s4 = cb_entry s3" using perf by blast+
      then have "args_blocks s4 = args_blocks s3" by (simp add: args_blocks_def split: option.split)
      moreover have "handler_ans s3 = handler_ans s" using k3 by (simp add: proc_keep_def)
      ultimately show ?thesis
        using fin perf prep t(1) proc_keep_trans [OF k4] by (auto simp: command_outcome_def)
    qed
  qed
qed

section \<open>All commands of a line\<close>

text \<open>
  What the outside sees of a list of commands: a command that calls no handler is at_answered ERROR; one that calls a
  handler shows the reports of this handler and its result. The handlers answer in the order of the calls.
\<close>

inductive at_answered :: "(nat \<Rightarrow> string list \<times> at_ret_t) \<Rightarrow> nat \<Rightarrow> nat list \<Rightarrow> at_event list \<Rightarrow> bool" where
  at_answered_nil: "at_answered ans n [] []"
| at_answered_refused: "at_answered ans n chs evs \<Longrightarrow> at_answered ans n (ch # chs) (AtWrite ch AT_RESPONSE_ERROR # evs)"
| at_answered_called: "ans n = (reports, ret) \<Longrightarrow> at_answered ans (n + 1) chs evs \<Longrightarrow>
    at_answered ans n (ch # chs) (AtCall i ty args # map (AtWrite ch) reports
      @ AtWrite ch (if ret = AT_RET_OK then AT_RESPONSE_OK else AT_RESPONSE_ERROR) # evs)"

lemma at_answered_step:
  assumes "command_outcome ch ret s t" and evs: "at_answered (handler_ans s) (handler_n t) chs evs"
  shows "\<exists>evs'. at_log t @ AtWrite ch (if ret = AT_RET_OK then AT_RESPONSE_OK else AT_RESPONSE_ERROR) # evs = at_log s @ evs'
     \<and> at_answered (handler_ans s) (handler_n s) (ch # chs) evs'"
  using assms(1) unfolding command_outcome_def
proof (elim disjE conjE exE)
  assume "ret \<noteq> AT_RET_OK" "at_log t = at_log s" "handler_n t = handler_n s"
  then show ?thesis using evs at_answered_refused by auto
next
  fix i ty args reports
  assume h: "handler_ans s (handler_n s) = (reports, ret)" "handler_n t = handler_n s + 1"
    and log: "at_log t = at_log s @ AtCall i ty args # map (AtWrite ch) reports"
  have "at_answered (handler_ans s) (handler_n s + 1) chs evs" using evs h(2) by simp
  from at_answered_called [OF h(1) this] show ?thesis using log by (intro exI conjI) auto
qed

lemma proc_loop_outcome:
  assumes "at_ready s" and "cb_args s = None" and "syntaxes_ok s" and "length (g_at_remain_list s) = n"
    and "\<forall>cmd \<in> set (g_at_remain_list s). at_channel_get_write_func (cmd_channel cmd) s"
  shows "\<exists>evs. at_log (proc_loop n s) = at_log s @ evs
      \<and> at_answered (handler_ans s) (handler_n s) (map cmd_channel (g_at_remain_list s)) evs
      \<and> proc_keep (s\<lparr>g_at_remain_list := []\<rparr>) (proc_loop n s) \<and> cb_args (proc_loop n s) = None
      \<and> at_live (proc_loop n s) = at_live s - 2 * n"
  using assms
proof (induction n arbitrary: s)
  case 0
  then show ?case by (auto intro: at_answered_nil simp: proc_keep_def)
next
  case (Suc n)
  then obtain cmd rest where l: "g_at_remain_list s = cmd # rest" by (cases "g_at_remain_list s") auto
  let ?s1 = "s\<lparr>g_at_remain_list := rest\<rparr>"
  obtain ret s2 where e: "at_proc_exec_cmd cmd ?s1 = (ret, s2)" by fastforce
  let ?s3 = "at_parse_del_one_remain_cmd (Some cmd) s2"
  let ?resp = "if ret = AT_RET_OK then AT_RESPONSE_OK else AT_RESPONSE_ERROR"
  let ?s4 = "uapi_at_report ?resp ?s3"
  have wr: "at_channel_get_write_func cid ?s1 = at_channel_get_write_func cid s" for cid
    by (simp add: at_channel_get_write_func_def chan_def)
  have w1: "at_channel_get_write_func (cmd_channel cmd) ?s1" using Suc.prems(5) l wr by simp
  have p1: "at_ready ?s1" "cb_args ?s1 = None" "syntaxes_ok ?s1"
    using Suc.prems(1-3) by (simp_all add: at_ready_def syntaxes_ok_def)
  note ex = exec_outcome [OF p1 w1 e]
  have r2: "at_ready s2" using p1(1) keep_ready(1) ex by metis
  note d = del_one_outcome(1) [OF r2, of "Some cmd"] del_one_outcome(2) [OF r2, of cmd]
  have k3: "proc_keep ?s1 ?s3" using proc_keep_trans proc_keep_heap [OF d(1)] ex by metis
  have w3: "at_channel_get_write_func (cb_channel_id ?s3) ?s3"
    using w1 ex heap_more_proc [OF d(1)] keep_write [OF k3] by simp
  have k4: "proc_keep ?s1 ?s4" by (rule proc_keep_trans [OF k3 report_keep(1)])
  have log4: "at_log ?s4 = at_log s2 @ [AtWrite (cmd_channel cmd) ?resp]"
    using report_log [OF w3, of ?resp] heap_only_fields [OF d(1)] heap_more_proc [OF d(1)] ex by simp
  have loop: "proc_loop (Suc n) s = proc_loop n ?s4"
    using l e by (simp add: at_parse_get_next_remain_cmd_def at_proc_need_exit_def)
  have fields: "g_at_remain_list ?s4 = rest" "cb_args ?s4 = None" "handler_n ?s4 = handler_n s2" "handler_ans ?s4 = handler_ans s"
    "at_live ?s4 = at_live s - 2" "at_ready ?s4" "syntaxes_ok ?s4"
    using k4 ex d heap_more_proc [OF d(1)] heap_only_fields [OF d(1)] p1 keep_ready(1) [OF k4]
    by (simp_all add: report_keep proc_keep_def syntaxes_ok_def)
  have "\<forall>cmd \<in> set (g_at_remain_list ?s4). at_channel_get_write_func (cmd_channel cmd) ?s4"
    using Suc.prems(5) l fields(1) keep_write [OF k4] wr by simp
  with Suc.IH [of ?s4] fields Suc.prems(4) l obtain evs where
    ih: "at_log (proc_loop n ?s4) = at_log ?s4 @ evs" "at_answered (handler_ans s) (handler_n s2) (map cmd_channel rest) evs"
      "proc_keep (?s4\<lparr>g_at_remain_list := []\<rparr>) (proc_loop n ?s4)" "cb_args (proc_loop n ?s4) = None"
      "at_live (proc_loop n ?s4) = at_live s - 2 - 2 * n" by auto
  have "\<exists>evs'. at_log (proc_loop n ?s4) = at_log s @ evs'
      \<and> at_answered (handler_ans s) (handler_n s) (cmd_channel cmd # map cmd_channel rest) evs'"
    using at_answered_step [of "cmd_channel cmd" ret ?s1 s2 "map cmd_channel rest" evs] ex ih(1,2) log4 by simp
  moreover have "proc_keep (s\<lparr>g_at_remain_list := []\<rparr>) (proc_loop n ?s4)"
    using k4 ih(3) by (simp add: proc_keep_def)
  ultimately show ?case using ih(4,5) loop l by auto
qed

end
