(* ===== verification/AtSystem.thy ===== *)
theory AtSystem
  imports AtServe
begin

text \<open>
  The AT task and the receivers as a transition system: bytes arrive on the channels, the task serves the
  queue, commands and write functions are registered. The invariant says which channels are blocked, what is in
  their buffers and which blocks are allocated.
\<close>

section \<open>The state of a channel\<close>

definition chan_ok :: "at_channel_t \<Rightarrow> bool" where
  "chan_ok c =
     (case ch_state c of
        AT_CHANNEL_UNINITIALIZED \<Rightarrow> ch_data c = None
      | AT_CHANNEL_FREE \<Rightarrow> ch_write c \<and> (\<forall>d. ch_data c = Some d \<longrightarrow> length d \<le> AT_CMD_MAX_LENGTH)
      | AT_CHANNEL_INTERACTIVITY \<Rightarrow> False
      | AT_CHANNEL_BLOCK \<Rightarrow>
          ch_write c \<and> (\<exists>d. ch_data c = Some d \<and> length d \<le> AT_CMD_MAX_LENGTH \<and> NUL \<in> set d \<and> hd d \<noteq> NUL))"

definition chan_blocks :: "at_channel_t \<Rightarrow> nat" where
  "chan_blocks c = (if ch_data c = None then 0 else 1)"

text \<open>What a reception may do: it changes one channel, and a channel that becomes blocked is put into the queue.\<close>

definition recv_frame :: "'a at_channel_env_scheme \<Rightarrow> 'a at_channel_env_scheme \<Rightarrow> bool" where
  "recv_frame s t = (g_at_base_api t = g_at_base_api s \<and> g_at_remain_list t = g_at_remain_list s
     \<and> g_at_cmd_list t = g_at_cmd_list s \<and> at_channel_env.more t = at_channel_env.more s)"

definition recv_result :: "nat \<Rightarrow> 'a at_channel_env_scheme \<Rightarrow> 'a at_channel_env_scheme \<Rightarrow> bool" where
  "recv_result cid s t = (\<exists>c. g_channel_entry t = (g_channel_entry s)[cid := c] \<and> chan_ok c \<and> recv_frame s t
     \<and> at_live t + chan_blocks (chan cid s) = at_live s + chan_blocks c
     \<and> (ch_state c = AT_CHANNEL_BLOCK \<and> (\<exists>m. g_at_msg_queue t = g_at_msg_queue s @ [m] \<and> msg_type m = AT_CMD_MSG \<and> msg_channel m = cid)
        \<or> ch_state c \<noteq> AT_CHANNEL_BLOCK \<and> g_at_msg_queue t = g_at_msg_queue s))"

lemma recv_frame_set [simp]: "recv_frame s (set_chan cid c t) = recv_frame s t"
  by (simp add: recv_frame_def)

lemma recv_frame_refl [simp]: "recv_frame s s"
  by (simp add: recv_frame_def)

lemma recv_frame_trans: "recv_frame s t \<Longrightarrow> recv_frame t u \<Longrightarrow> recv_frame s u"
  by (simp add: recv_frame_def)

lemma recv_frame_heap: "heap_only s t \<Longrightarrow> recv_frame s t"
  by (cases s; cases t; simp add: heap_only_def recv_frame_def)

text \<open>The new entry is in place.\<close>

lemma recv_result_set:
  assumes "chan_ok c" and "ch_state c \<noteq> AT_CHANNEL_BLOCK" and "recv_frame s u" and "g_channel_entry u = g_channel_entry s"
    and "g_at_msg_queue u = g_at_msg_queue s" and "at_live u + chan_blocks (chan cid s) = at_live s + chan_blocks c"
  shows "recv_result cid s (set_chan cid c u)"
  using assms unfolding recv_result_def by (intro exI [of _ c]) (simp add: set_chan_def recv_frame_def)

lemma reset_result:
  assumes "at_ready s" and "cid < length (g_channel_entry s)" and "ch_write (chan cid s)" and "chan_blocks (chan cid s) \<le> at_live s"
  shows "recv_result cid s (at_channel_data_reset cid s)"
proof -
  have ok: "chan_ok ((chan cid s)\<lparr>ch_data := None, ch_state := AT_CHANNEL_FREE\<rparr>)" using assms(3) by (simp add: chan_ok_def)
  show ?thesis
  proof (cases "ch_data (chan cid s) = None")
    case True
    then show ?thesis using ok by (simp add: at_channel_data_reset_def recv_result_set chan_blocks_def)
  next
    case False
    have "recv_result cid s (set_chan cid ((chan cid s)\<lparr>ch_data := None, ch_state := AT_CHANNEL_FREE\<rparr>) (at_free s))"
      using ok assms(4) live_free [OF assms(1)] heap_more_chan [OF heap_only_free [of s]] False
      by (intro recv_result_set recv_frame_heap heap_only_free) (auto simp: chan_blocks_def)
    then show ?thesis using False by (simp add: at_channel_data_reset_def)
  qed
qed

section \<open>The line in the buffer\<close>

lemma cut_line_cases:
  "cut_line d = (ok, d') \<Longrightarrow> length d' = length d \<and> (if ok then NUL \<in> set d' else d' = d)"
  by (induction d arbitrary: ok d') (auto split: if_splits prod.splits)

lemma at_head_loop_some:
  "at_head_loop d k = Some i \<Longrightarrow> \<exists>pre a b rest. d = pre @ a # b # rest \<and> i = k + length pre \<and> is_a a \<and> is_t b"
proof (induction d k rule: at_head_loop.induct)
  case (1 c d rest index)
  show ?case
  proof (cases "is_a c \<and> is_t d")
    case True
    then show ?thesis using 1(2) by (intro exI [of _ "[]"]) auto
  next
    case False
    then obtain pre a b rs where "d # rest = pre @ a # b # rs" "i = Suc index + length pre" "is_a a" "is_t b"
      using 1 by auto
    then show ?thesis by (intro exI [of _ "c # pre"]) auto
  qed
qed simp_all

lemma cmd_handle_result:
  assumes ready: "at_ready s" "msg_queue_write_func (g_at_base_api s)" and cid: "cid < length (g_channel_entry s)"
    and ch: "ch_state (chan cid s) = AT_CHANNEL_FREE" "ch_write (chan cid s)" "ch_data (chan cid s) = Some d"
    and d: "d \<noteq> []" "length d \<le> AT_CMD_MAX_LENGTH" and live: "0 < at_live s"
  shows "recv_result cid s (snd (at_channel_cmd_handle cid s))"
proof -
  let ?c = "chan cid s"
  have bytes: "chan_bytes cid s = d" using ch by (simp add: chan_bytes_def)
  have same: "at_live s + chan_blocks ?c = at_live s + chan_blocks (?c\<lparr>ch_data := Some x\<rparr>)" for x
    using ch by (simp add: chan_blocks_def)
  have free_ok: "length x \<le> AT_CMD_MAX_LENGTH \<Longrightarrow> recv_result cid s (set_chan cid (?c\<lparr>ch_data := Some x\<rparr>) s)" for x
    using ch same by (intro recv_result_set) (simp_all add: chan_ok_def)
  show ?thesis
  proof (cases "at_head_loop d 0")
    case None
    then show ?thesis
      using bytes d free_ok [of "drop (length d - 1) d"] reset_result [OF ready(1) cid ch(2)] live
      by (auto simp: at_channel_cmd_handle_def at_channel_cmd_head_check_def at_channel_del_invalid_data_def chan_blocks_def)
  next
    case (Some i)
    then obtain pre a b rest where dd: "d = pre @ a # b # rest" and i: "i = length pre" and ab: "is_a a" "is_t b"
      using at_head_loop_some by fastforce
    have "\<not> AT_CMD_MAX_LENGTH < i" using d(2) dd i by simp
    then have head: "at_channel_cmd_head_check cid s = (True, set_chan cid (?c\<lparr>ch_data := Some (a # b # rest)\<rparr>) s)"
      using Some bytes dd i by (simp add: at_channel_cmd_head_check_def at_channel_del_invalid_data_def)
    obtain ok r where cut: "cut_line rest = (ok, r)" by fastforce
    note r = cut_line_cases [OF cut]
    have len: "length (a # b # rest) \<le> AT_CMD_MAX_LENGTH" "length r \<le> AT_CMD_MAX_LENGTH" using d(2) dd r by simp_all
    have integ: "at_channel_is_data_integrated cid (set_chan cid (?c\<lparr>ch_data := Some (a # b # rest)\<rparr>) s)
        = (ok, set_chan cid (?c\<lparr>ch_data := Some (a # b # r)\<rparr>) s)"
      using cut cid at_part_end [OF ab(2)] by (simp add: at_channel_is_data_integrated_def)
    show ?thesis
    proof (cases ok)
      case False
      then show ?thesis using head integ r free_ok [OF len(1)] by (simp add: at_channel_cmd_handle_def)
    next
      case True
      let ?s3 = "set_chan cid (?c\<lparr>ch_data := Some r\<rparr>) s"
      have del: "at_channel_del_invalid_data cid AT_FLAG_LENGTH (set_chan cid (?c\<lparr>ch_data := Some (a # b # r)\<rparr>) s) = ?s3"
        using cid by (simp add: at_channel_del_invalid_data_def AT_FLAG_LENGTH_def AT_CMD_MAX_LENGTH_def)
      have r3: "chan_bytes cid ?s3 = r" using cid by simp
      have nul: "NUL \<in> set r" "r \<noteq> []" using r True by auto
      show ?thesis
      proof (cases "char_at r 0 = NUL")
        case True
        then have "snd (at_channel_cmd_handle cid s) = at_emit (AtWrite cid AT_RESPONSE_OK) ?s3"
          using head integ del r3 \<open>ok\<close> by (simp add: at_channel_cmd_handle_def)
        moreover have "recv_result cid s (at_emit ev t) = recv_result cid s t" for ev t
          by (simp add: recv_result_def at_emit_def recv_frame_def)
        ultimately show ?thesis using free_ok [OF len(2)] by simp
      next
        case False
        then have hd: "hd r \<noteq> NUL" using nul by (cases r) (auto simp: char_at_def)
        let ?b = "?c\<lparr>ch_data := Some r, ch_state := AT_CHANNEL_BLOCK\<rparr>"
        have b: "chan_ok ?b" "ch_state ?b = AT_CHANNEL_BLOCK" "chan_blocks ?b = chan_blocks ?c"
          using hd nul ch len(2) by (simp_all add: chan_ok_def chan_blocks_def)
        have bs: "at_channel_set_state cid AT_CHANNEL_BLOCK ?s3 = set_chan cid ?b s"
          using cid by (simp add: at_channel_set_state_def)
        show ?thesis
        proof (cases "queue_ans s (queue_n s)")
          case True
          then have "snd (at_channel_cmd_handle cid s) = (set_chan cid ?b s)\<lparr>queue_n := queue_n s + 1,
              g_at_msg_queue := g_at_msg_queue s @ [line_msg cid r]\<rparr>"
            using head integ del r3 \<open>ok\<close> False bs ready(2) cid
            by (simp add: at_channel_cmd_handle_def at_channel_send_msg_def at_msg_send_def at_msg_queue_write_def Let_def line_msg_def)
          then show ?thesis
            using b unfolding recv_result_def
            by (intro exI [of _ ?b]) (simp add: set_chan_def recv_frame_def line_msg_def)
        next
          case no: False
          let ?u = "(set_chan cid ?b s)\<lparr>queue_n := queue_n s + 1\<rparr>"
          have u: "snd (at_channel_cmd_handle cid s) = at_channel_set_state cid AT_CHANNEL_FREE (at_channel_data_reset cid ?u)"
            using head integ del r3 \<open>ok\<close> False bs ready(2) cid no
            by (simp add: at_channel_cmd_handle_def at_channel_send_msg_def at_msg_send_def at_msg_queue_write_def Let_def)
          let ?f = "?c\<lparr>ch_data := None, ch_state := AT_CHANNEL_FREE\<rparr>"
          have cu: "chan cid ?u = ?b" using cid by (simp add: chan_def set_chan_def)
          have "at_channel_set_state cid AT_CHANNEL_FREE (at_channel_data_reset cid ?u) = set_chan cid ?f (at_free ?u)"
            using cu cid heap_more_chan [OF heap_only_free [of ?u]]
            by (simp add: at_channel_set_state_def at_channel_data_reset_def)
          moreover have "set_chan cid ?f (at_free ?u) = set_chan cid ?f (at_free (s\<lparr>queue_n := queue_n s + 1\<rparr>))"
            by (simp add: at_free_def set_chan_def)
          moreover have "recv_result cid s (set_chan cid ?f (at_free (s\<lparr>queue_n := queue_n s + 1\<rparr>)))"
            using ch live ready(1) by (intro recv_result_set)
              (simp_all add: chan_ok_def recv_frame_def at_free_def at_ready_def chan_blocks_def)
          ultimately show ?thesis using u by simp
        qed
      qed
    qed
  qed
qed

section \<open>The invariant\<close>

definition at_inv :: "'a at_state_scheme \<Rightarrow> bool" where
  "at_inv s = (at_base_api_register_base_api_check (g_at_base_api s)
     \<and> length (g_channel_entry s) = AT_MAX_PORT_NUMBER \<and> (\<forall>c \<in> set (g_channel_entry s). chan_ok c)
     \<and> distinct (map msg_channel (g_at_msg_queue s)) \<and> (\<forall>m \<in> set (g_at_msg_queue s). msg_type m = AT_CMD_MSG)
     \<and> (\<forall>cid. cid \<in> set (map msg_channel (g_at_msg_queue s)) \<longleftrightarrow> cid < AT_MAX_PORT_NUMBER \<and> ch_state (chan cid s) = AT_CHANNEL_BLOCK)
     \<and> g_at_remain_list s = [] \<and> cb_args s = None \<and> syntaxes_ok s
     \<and> at_live s = length (g_at_cmd_list s) + sum_list (map chan_blocks (g_channel_entry s)))"

lemma inv_facts:
  assumes "at_inv s"
  shows "at_ready s" and "msg_queue_write_func (g_at_base_api s)" and "length (g_channel_entry s) = AT_MAX_PORT_NUMBER"
    and "cid < AT_MAX_PORT_NUMBER \<Longrightarrow> chan_ok (chan cid s)"
    and "cid < AT_MAX_PORT_NUMBER \<Longrightarrow> chan_blocks (chan cid s) \<le> at_live s"
proof -
  show "at_ready s" "msg_queue_write_func (g_at_base_api s)" "length (g_channel_entry s) = AT_MAX_PORT_NUMBER"
    using assms by (auto simp: at_inv_def at_ready_def at_base_api_register_base_api_check_def)
  then show "cid < AT_MAX_PORT_NUMBER \<Longrightarrow> chan_ok (chan cid s)"
    using assms by (auto simp: at_inv_def chan_def)
  assume "cid < AT_MAX_PORT_NUMBER"
  then have "chan_blocks (chan cid s) \<in> set (map chan_blocks (g_channel_entry s))"
    using assms by (auto simp: at_inv_def chan_def)
  then show "chan_blocks (chan cid s) \<le> at_live s"
    using assms member_le_sum_list [of "chan_blocks (chan cid s)" "map chan_blocks (g_channel_entry s)"] by (simp add: at_inv_def)
qed

lemma sum_list_update_nat:
  "i < length xs \<Longrightarrow> sum_list (xs[i := x]) + xs ! i = sum_list xs + (x :: nat)"
  by (induction xs arbitrary: i) (auto split: nat.split)

lemma inv_recv_result:
  assumes inv: "at_inv s" and cid: "cid < AT_MAX_PORT_NUMBER" and free: "ch_state (chan cid s) \<noteq> AT_CHANNEL_BLOCK"
    and res: "recv_result cid s t"
  shows "at_inv t"
proof -
  obtain c where c: "g_channel_entry t = (g_channel_entry s)[cid := c]" "chan_ok c" "recv_frame s t"
    "at_live t + chan_blocks (chan cid s) = at_live s + chan_blocks c"
    and q: "ch_state c = AT_CHANNEL_BLOCK \<and> (\<exists>m. g_at_msg_queue t = g_at_msg_queue s @ [m] \<and> msg_type m = AT_CMD_MSG \<and> msg_channel m = cid)
        \<or> ch_state c \<noteq> AT_CHANNEL_BLOCK \<and> g_at_msg_queue t = g_at_msg_queue s"
    using res by (auto simp: recv_result_def)
  have len: "length (g_channel_entry s) = AT_MAX_PORT_NUMBER" using inv by (rule inv_facts(3))
  have chans: "chan i t = (if i = cid then c else chan i s)" for i using c(1) cid len by (auto simp: chan_def)
  have keep: "cb_args t = cb_args s" "g_at_base_api t = g_at_base_api s" "g_at_remain_list t = g_at_remain_list s"
    "g_at_cmd_list t = g_at_cmd_list s"
    using c(3) by (cases s; cases t; simp add: recv_frame_def)+
  have sum: "sum_list (map chan_blocks (g_channel_entry t)) + chan_blocks (chan cid s)
      = sum_list (map chan_blocks (g_channel_entry s)) + chan_blocks c"
    using sum_list_update_nat [of cid "map chan_blocks (g_channel_entry s)" "chan_blocks c"] cid len c(1)
    by (simp add: map_update chan_def)
  have oks: "\<forall>x \<in> set (g_channel_entry t). chan_ok x"
    using inv c(1,2) by (auto simp: at_inv_def dest!: subsetD [OF set_update_subset_insert])
  have old: "distinct (map msg_channel (g_at_msg_queue s))" "\<forall>m \<in> set (g_at_msg_queue s). msg_type m = AT_CMD_MSG"
    "i \<in> set (map msg_channel (g_at_msg_queue s)) \<longleftrightarrow> i < AT_MAX_PORT_NUMBER \<and> ch_state (chan i s) = AT_CHANNEL_BLOCK" for i
    using inv by (simp_all add: at_inv_def)
  have fresh: "cid \<notin> set (map msg_channel (g_at_msg_queue s))" using old(3) free by simp
  have queue: "distinct (map msg_channel (g_at_msg_queue t)) \<and> (\<forall>m \<in> set (g_at_msg_queue t). msg_type m = AT_CMD_MSG)
      \<and> (\<forall>i. i \<in> set (map msg_channel (g_at_msg_queue t)) \<longleftrightarrow> i < AT_MAX_PORT_NUMBER \<and> ch_state (chan i t) = AT_CHANNEL_BLOCK)"
    using q
  proof (elim disjE conjE exE)
    fix m assume m: "ch_state c = AT_CHANNEL_BLOCK" "g_at_msg_queue t = g_at_msg_queue s @ [m]"
      "msg_type m = AT_CMD_MSG" "msg_channel m = cid"
    have "set (map msg_channel (g_at_msg_queue t)) = insert cid (set (map msg_channel (g_at_msg_queue s)))" using m by simp
    then show ?thesis using m old(1,2) fresh old(3) chans cid by auto
  next
    assume "ch_state c \<noteq> AT_CHANNEL_BLOCK" "g_at_msg_queue t = g_at_msg_queue s"
    then show ?thesis using old fresh chans by (metis free)
  qed
  have "at_live t = length (g_at_cmd_list t) + sum_list (map chan_blocks (g_channel_entry t))"
    using inv sum c(4) keep(4) by (simp add: at_inv_def)
  moreover have "syntaxes_ok t" using inv keep(4) by (simp add: at_inv_def syntaxes_ok_def)
  ultimately show ?thesis
    unfolding at_inv_def using inv keep oks queue c(1) len by (auto simp: at_inv_def)
qed

lemma inv_heap:
  assumes "at_inv s" and "heap_only s t" and "at_live t = at_live s"
  shows "at_inv t"
  using assms heap_only_fields [OF assms(2)] heap_more [OF assms(2)] heap_more_chan [OF assms(2)] heap_more_proc [OF assms(2)]
    remain_heap [OF assms(2)]
  by (simp add: at_inv_def syntaxes_ok_def)

lemma prepare_inv:
  assumes inv: "at_inv s" and cid: "cid < AT_MAX_PORT_NUMBER" and prep: "at_channel_prepare cid s = (ret, t)"
  shows "at_inv t" and "ret = ERRCODE_SUCC \<Longrightarrow> ch_state (chan cid t) = AT_CHANNEL_FREE \<and> ch_data (chan cid t) \<noteq> None"
proof -
  note len = inv_facts(3) [OF inv]
  have ok: "chan_ok (chan cid s)" using inv_facts(4) [OF inv cid] .
  show "at_inv t"
  proof (cases "at_is_channel_block cid s \<or> ch_data (chan cid s) \<noteq> None")
    case True
    then show ?thesis using prep inv by (auto simp: at_channel_prepare_def split: if_splits)
  next
    case False
    obtain b s1 where m: "at_malloc AT_CMD_MAX_LENGTH s = (b, s1)" by fastforce
    note h = heap_only_malloc [OF m]
    show ?thesis
    proof (cases b)
      case True
      have t: "t = set_chan cid ((chan cid s)\<lparr>ch_data := Some []\<rparr>) s1"
        using prep m True False heap_more_chan [OF h] by (simp add: at_channel_prepare_def)
      have "recv_result cid s t" unfolding t
        using False True ok heap_more_chan [OF h] live_malloc [OF m] recv_frame_heap [OF h]
        by (intro recv_result_set) (auto simp: chan_ok_def chan_blocks_def at_is_channel_block_def split: at_channel_state_t.splits)
      then show ?thesis using inv_recv_result [OF inv cid] False by (simp add: at_is_channel_block_def)
    next
      case b: False
      then have "t = s1" using prep m False by (simp add: at_channel_prepare_def)
      then show ?thesis using inv_heap [OF inv h] live_malloc [OF m] b by simp
    qed
  qed
  show "ch_state (chan cid t) = AT_CHANNEL_FREE \<and> ch_data (chan cid t) \<noteq> None" if "ret = ERRCODE_SUCC"
    using that prep ok len cid
    by (auto simp: at_channel_prepare_def at_is_channel_block_def chan_ok_def heap_more_chan [OF heap_only_malloc]
        split: if_splits prod.splits at_channel_state_t.splits)
qed

text \<open>The 32-bit sum of the lengths may wrap around, but not for a length that \<open>memcpy_s\<close> accepts.\<close>

lemma add_fits:
  assumes "n \<le> AT_CMD_MAX_LENGTH" and "\<not> (of_nat AT_CMD_MAX_LENGTH :: u32) < of_nat n + len" and "\<not> 0x7fffffff < len"
  shows "n + unat len \<le> AT_CMD_MAX_LENGTH"
proof -
  have len: "unat len \<le> 2147483647" using assms(3) by (simp add: word_less_nat_alt)
  have n: "unat (of_nat n :: u32) = n" using assms(1) by (simp add: unat_of_nat AT_CMD_MAX_LENGTH_def)
  have "unat (of_nat n + len) = n + unat len"
    using len n assms(1) by (simp add: unat_word_ariths AT_CMD_MAX_LENGTH_def)
  then show ?thesis using assms(2) by (simp add: word_less_nat_alt AT_CMD_MAX_LENGTH_def)
qed

lemma recv_inv:
  assumes inv: "at_inv s" and buffer: "\<forall>d. data = Some d \<longrightarrow> unat len \<le> length d"
  shows "at_inv (snd (uapi_at_channel_data_recv cid data len s))"
proof (cases "AT_MAX_PORT_NUMBER \<le> cid \<or> data = None \<or> len = 0")
  case False
  then obtain d where cid: "cid < AT_MAX_PORT_NUMBER" and data: "data = Some d" and "len \<noteq> 0" by auto
  then have d: "0 < unat len" "unat len \<le> length d" using buffer by (auto simp: unat_gt_0)
  obtain r1 s1 where p: "at_channel_prepare cid s = (r1, s1)" by fastforce
  note i1 = prepare_inv [OF inv cid p]
  show ?thesis
  proof (cases "r1 = ERRCODE_SUCC")
    case False
    then show ?thesis using i1(1) p by (simp add: uapi_at_channel_data_recv_def inv)
  next
    case True
    then obtain old where old: "ch_state (chan cid s1) = AT_CHANNEL_FREE" "ch_data (chan cid s1) = Some old" using i1(2) by auto
    note f1 = inv_facts [OF i1(1)]
    have ok: "ch_write (chan cid s1)" "length old \<le> AT_CMD_MAX_LENGTH" using f1(4) [OF cid] old by (simp_all add: chan_ok_def)
    have cid1: "cid < length (g_channel_entry s1)" using cid f1(3) by simp
    have bytes: "chan_bytes cid s1 = old" using old by (simp add: chan_bytes_def)
    obtain r2 s2 where a: "at_channel_data_add cid d len s1 = (r2, s2)" by fastforce
    have res: "recv_result cid s1 (at_channel_data_reset cid s1)"
      by (rule reset_result [OF f1(1) cid1 ok(1) f1(5) [OF cid]])
    have nb: "ch_state (chan cid s1) \<noteq> AT_CHANNEL_BLOCK" using old by simp
    show ?thesis
    proof (cases "r2 = ERRCODE_SUCC")
      case False
      then have "s2 = at_channel_data_reset cid s1" using a bytes by (auto simp: at_channel_data_add_def Let_def split: if_splits)
      then show ?thesis
        using inv_recv_result [OF i1(1) cid nb res] False a p data \<open>r1 = _\<close> cid \<open>len \<noteq> 0\<close>
        by (simp add: uapi_at_channel_data_recv_def)
    next
      case r2: True
      let ?new = "old @ take (unat len) d"
      let ?c = "(chan cid s1)\<lparr>ch_data := Some ?new\<rparr>"
      have s2: "s2 = set_chan cid ?c s1" and fit: "length old + unat len \<le> AT_CMD_MAX_LENGTH"
        using a bytes r2 add_fits [OF ok(2), of len] by (auto simp: at_channel_data_add_def Let_def split: if_splits)
      have new: "length ?new \<le> AT_CMD_MAX_LENGTH" "?new \<noteq> []" using fit d by auto
      have "recv_result cid s1 s2" unfolding s2
        using old ok new by (intro recv_result_set) (simp_all add: chan_ok_def chan_blocks_def)
      then have i2: "at_inv s2" by (rule inv_recv_result [OF i1(1) cid nb])
      note f2 = inv_facts [OF i2]
      have c2: "chan cid s2 = ?c" "cid < length (g_channel_entry s2)" using s2 cid1 by simp_all
      have live: "0 < at_live s2" using f2(5) [OF cid] c2 by (simp add: chan_blocks_def)
      have "recv_result cid s2 (snd (at_channel_cmd_handle cid s2))"
        by (rule cmd_handle_result [OF f2(1,2) c2(2) _ _ _ new(2,1) live]) (use c2(1) old ok in simp_all)
      then have "at_inv (snd (at_channel_cmd_handle cid s2))"
        using inv_recv_result [OF i2 cid] c2(1) old by simp
      then show ?thesis
        using a p data True r2 cid \<open>len \<noteq> 0\<close> c2(1) old by (simp add: uapi_at_channel_data_recv_def at_channel_data_handle_def)
    qed
  qed
qed (simp add: uapi_at_channel_data_recv_def inv)

section \<open>Serving the queue\<close>

lemma line_more:
  fixes s t :: "'a at_state_scheme"
  assumes "line_only s t"
  shows "g_at_cmd_list t = g_at_cmd_list s" "g_channel_entry t = g_channel_entry s" "g_at_msg_queue t = g_at_msg_queue s"
    "g_at_cmd_struct_max_size t = g_at_cmd_struct_max_size s" "cb_args t = cb_args s" "chan cid t = chan cid s"
  using assms by (cases s; cases t; simp add: heap_only_def line_only_def chan_def)+

text \<open>The nodes belong to the channel of the line.\<close>

lemma add_remain_channel:
  "at_parse_add_remain_list data start len ch s = (ret, t) \<Longrightarrow>
     \<forall>cmd \<in> set (g_at_remain_list t). cmd \<in> set (g_at_remain_list s) \<or> cmd_channel cmd = ch"
  by (auto simp: at_parse_add_remain_list_def Let_def remain_heap [OF heap_only_malloc] remain_heap [OF heap_only_free]
      split: if_splits prod.splits)

lemma split_loop_channel:
  "at_ready s \<Longrightarrow> split_loop data state out ch s = (ret, t) \<Longrightarrow>
     \<forall>cmd \<in> set (g_at_remain_list t). cmd \<in> set (g_at_remain_list s) \<or> cmd_channel cmd = ch"
proof (induction data arbitrary: state out s)
  case Nil
  then show ?case by (auto simp: remain_heap [OF heap_only_free])
next
  case (Cons c rest)
  obtain st o1 where m: "at_parse_split_combine_cmd_machines state c out = (st, o1)" by fastforce
  obtain r1 s1 where a: "at_parse_add_remain_list o1 0 (length o1) ch s = (r1, s1)" by fastforce
  have r: "at_ready s1" using Cons.prems(1) ready_line [OF add_remain_outcome(1) [OF Cons.prems(1) a]] by simp
  have "g_at_remain_list (at_free (at_parse_del_all_remain_cmd s1)) = []"
    using del_all_outcome(2) [OF r] by (simp add: remain_heap [OF heap_only_free])
  moreover note ih = Cons.IH [OF Cons.prems(1)] Cons.IH [OF r] add_remain_channel [OF a]
  ultimately show ?case using Cons.prems(2) m a by (cases "st = AT_END_STATE"; cases "r1 = AT_RET_OK"; fastforce)
qed

lemma split_channel:
  assumes "at_ready s" and "g_at_remain_list s = []" and "at_parse_split_combine_cmd data ch s = (ret, t)"
  shows "\<forall>cmd \<in> set (g_at_remain_list t). cmd_channel cmd = ch"
proof -
  obtain ok s1 where m: "at_malloc (Suc (length data)) s = (ok, s1)" by fastforce
  note h = heap_only_malloc [OF m]
  have "at_ready s1" "g_at_remain_list s1 = []" using assms ready_heap [OF h] remain_heap [OF h] by simp_all
  then show ?thesis
    using split_loop_channel [of s1 "data @ [NUL]" AT_NORMAL_STATE "[]" ch ret t] assms(2,3) m
    by (auto simp: at_parse_split_combine_cmd_def split: if_splits)
qed

text \<open>A blocked channel that has been served.\<close>

lemma inv_served:
  assumes inv: "at_inv s" and queue: "g_at_msg_queue s = m # rest" "msg_channel m = cid"
    and t: "g_channel_entry t = (g_channel_entry s)[cid := (chan cid s)\<lparr>ch_data := None, ch_state := AT_CHANNEL_FREE\<rparr>]"
      "g_at_msg_queue t = rest" "at_live t = at_live s - 1" "cb_args t = None" "g_at_remain_list t = []"
      "g_at_base_api t = g_at_base_api s" "g_at_cmd_list t = g_at_cmd_list s"
  shows "at_inv t"
proof -
  let ?c = "(chan cid s)\<lparr>ch_data := None, ch_state := AT_CHANNEL_FREE\<rparr>"
  have mem: "cid \<in> set (map msg_channel (g_at_msg_queue s))" using queue by simp
  then have cid: "cid < AT_MAX_PORT_NUMBER" and block: "ch_state (chan cid s) = AT_CHANNEL_BLOCK"
    using inv by (simp_all add: at_inv_def)
  note f = inv_facts [OF inv]
  obtain d where d: "ch_data (chan cid s) = Some d" "ch_write (chan cid s)" using f(4) [OF cid] block by (auto simp: chan_ok_def)
  have chans: "chan i t = (if i = cid then ?c else chan i s)" for i using t(1) cid f(3) by (auto simp: chan_def)
  have ok: "\<forall>x \<in> set (g_channel_entry t). chan_ok x"
    using inv t(1) d(2) by (auto simp: at_inv_def chan_ok_def dest!: subsetD [OF set_update_subset_insert])
  have "sum_list (map chan_blocks (g_channel_entry t)) + 1 = sum_list (map chan_blocks (g_channel_entry s)) + 0"
    using sum_list_update_nat [of cid "map chan_blocks (g_channel_entry s)" "chan_blocks ?c"] cid f(3) t(1) d
    by (simp add: map_update chan_def chan_blocks_def)
  then have live: "at_live t = length (g_at_cmd_list t) + sum_list (map chan_blocks (g_channel_entry t))"
    using inv t(3,7) by (simp add: at_inv_def)
  have dist: "distinct (map msg_channel rest)" "cid \<notin> set (map msg_channel rest)" "\<forall>m \<in> set rest. msg_type m = AT_CMD_MSG"
    and link: "i \<in> set (map msg_channel (m # rest)) \<longleftrightarrow> i < AT_MAX_PORT_NUMBER \<and> ch_state (chan i s) = AT_CHANNEL_BLOCK" for i
    using inv queue by (auto simp: at_inv_def)
  have "i \<in> set (map msg_channel rest) \<longleftrightarrow> i < AT_MAX_PORT_NUMBER \<and> ch_state (chan i t) = AT_CHANNEL_BLOCK" for i
    using link [of i] dist(2) chans queue(2) by (cases "i = cid") auto
  moreover have "syntaxes_ok t" using inv t(7) by (simp add: at_inv_def syntaxes_ok_def)
  ultimately show ?thesis using inv t live ok dist f(3) unfolding at_inv_def by simp
qed

lemma turn_outcome:
  assumes inv: "at_inv s" and queue: "g_at_msg_queue s = m # rest" "msg_channel m = cid"
  obtains d ret s1 where "ch_data (chan cid s) = Some d" and "at_parse_split_combine_cmd (cstr d) cid (s\<lparr>g_at_msg_queue := rest\<rparr>) = (ret, s1)"
    and "at_inv (msg_main_turn s)" and "proc_keep (s\<lparr>g_at_msg_queue := rest, g_channel_entry := g_channel_entry (msg_main_turn s)\<rparr>) (msg_main_turn s)"
    and "g_channel_entry (msg_main_turn s) = (g_channel_entry s)[cid := (chan cid s)\<lparr>ch_data := None, ch_state := AT_CHANNEL_FREE\<rparr>]"
    and "ret = AT_RET_OK \<Longrightarrow> \<exists>evs. at_log (msg_main_turn s) = at_log s @ evs
      \<and> at_answered (handler_ans s) (handler_n s) (replicate (length (g_at_remain_list s1)) cid) evs"
proof -
  let ?s = "s\<lparr>g_at_msg_queue := rest\<rparr>"
  note f = inv_facts [OF inv]
  have mem: "cid \<in> set (map msg_channel (g_at_msg_queue s))" using queue by simp
  then have cid: "cid < AT_MAX_PORT_NUMBER" and block: "ch_state (chan cid s) = AT_CHANNEL_BLOCK" and ty: "msg_type m = AT_CMD_MSG"
    using inv queue by (auto simp: at_inv_def)
  obtain d where d: "ch_data (chan cid s) = Some d" "ch_write (chan cid s)" using f(4) [OF cid] block by (auto simp: chan_ok_def)
  obtain ret s1 where sp: "at_parse_split_combine_cmd (cstr d) cid ?s = (ret, s1)" by fastforce
  have r0: "at_ready ?s" "g_at_remain_list ?s = []" using f(1) inv by (simp_all add: at_ready_def at_inv_def)
  note out = split_outcome [OF r0 sp] and chs = split_channel [OF r0 sp]
  note more = line_more [OF out(1)]
  let ?c = "(chan cid s)\<lparr>ch_data := None, ch_state := AT_CHANNEL_FREE\<rparr>"
  have csame: "chan i ?s = chan i s" for i by (simp add: chan_def)
  let ?s2 = "at_channel_data_reset cid s1"
  have r1: "at_ready s1" using r0(1) ready_line [OF out(1)] by simp
  have s2: "?s2 = set_chan cid ?c (at_free s1)"
    using d more(6) csame heap_more_chan [OF heap_only_free [of s1]] by (simp add: at_channel_data_reset_def)
  note fr = heap_more_chan [OF heap_only_free [of s1]] heap_more [OF heap_only_free [of s1]] remain_heap [OF heap_only_free [of s1]]
    heap_only_fields [OF heap_only_free [of s1]] heap_more_proc [OF heap_only_free [of s1]]
  have cb2: "cb_args ?s2 = None" using fr(9) more(5) inv unfolding s2 by (simp add: set_chan_def at_free_def at_inv_def)
  have g2: "g_channel_entry ?s2 = (g_channel_entry s)[cid := ?c]" "g_at_msg_queue ?s2 = rest"
    "g_at_remain_list ?s2 = g_at_remain_list s1" "g_at_base_api ?s2 = g_at_base_api s" "g_at_cmd_list ?s2 = g_at_cmd_list s"
    "handler_ans ?s2 = handler_ans s" "handler_n ?s2 = handler_n s" "at_log ?s2 = at_log s" "malloc_ans ?s2 = malloc_ans s"
    "queue_ans ?s2 = queue_ans s" "queue_n ?s2 = queue_n s" "g_at_init_status ?s2 = g_at_init_status s"
    "g_at_cmd_struct_max_size ?s2 = g_at_cmd_struct_max_size s"
    using fr more line_only_fields [OF out(1)] unfolding s2 by (simp_all add: set_chan_def)
  have live2: "at_live ?s2 = at_live s + 2 * length (g_at_remain_list s1) - 1"
    using out(2) live_free [OF r1] unfolding s2 by simp
  have r2: "at_ready ?s2" using g2(4) f(1) by (simp add: at_ready_def)
  have syn2: "syntaxes_ok ?s2" using inv g2(5) by (simp add: at_inv_def syntaxes_ok_def)
  have wr: "\<forall>cmd \<in> set (g_at_remain_list ?s2). at_channel_get_write_func (cmd_channel cmd) ?s2"
    using chs g2(1,3) cid f(3) d(2) by (simp add: at_channel_get_write_func_def chan_def)
  have turn: "msg_main_turn s = (if ret \<noteq> AT_RET_OK then ?s2 else at_proc_cmd_process ?s2)"
    using queue ty sp d csame by (simp add: msg_main_turn_def at_msg_process_def at_proc_cmd_handle_def at_channel_get_data_def)
  show thesis
  proof (cases "ret = AT_RET_OK")
    case False
    then have empty: "g_at_remain_list s1 = []" using out(3) by simp
    have "at_inv ?s2" by (rule inv_served [OF inv queue g2(1,2) _ cb2 _ g2(4,5)]) (use live2 empty g2(3) in simp_all)
    moreover have "proc_keep (?s\<lparr>g_channel_entry := g_channel_entry ?s2\<rparr>) ?s2"
      using g2 empty inv by (simp add: proc_keep_def at_inv_def)
    ultimately show thesis using that [OF d(1) sp] turn False g2(1) by simp
  next
    case True
    let ?t = "at_proc_cmd_process ?s2"
    obtain evs where evs: "at_log ?t = at_log ?s2 @ evs"
        "at_answered (handler_ans ?s2) (handler_n ?s2) (map cmd_channel (g_at_remain_list ?s2)) evs"
        "proc_keep (?s2\<lparr>g_at_remain_list := []\<rparr>) ?t" "cb_args ?t = None" "at_live ?t = at_live ?s2 - 2 * length (g_at_remain_list ?s2)"
      using proc_loop_outcome [OF r2 cb2 syn2 refl wr] unfolding at_proc_cmd_process_def by blast
    have t: "g_channel_entry ?t = (g_channel_entry s)[cid := ?c]" "g_at_msg_queue ?t = rest" "g_at_remain_list ?t = []"
      "g_at_base_api ?t = g_at_base_api s" "g_at_cmd_list ?t = g_at_cmd_list s"
      using evs(3) g2 by (simp_all add: proc_keep_def)
    have "at_live ?t = at_live s - 1" using evs(5) live2 g2(3) by simp
    then have "at_inv ?t" by (intro inv_served [OF inv queue t(1,2) _ evs(4) t(3,4,5)])
    moreover have "proc_keep (?s\<lparr>g_channel_entry := g_channel_entry ?t\<rparr>) ?t"
      using evs(3) g2 inv by (simp add: proc_keep_def at_inv_def)
    moreover have "map cmd_channel (g_at_remain_list s1) = replicate (length (g_at_remain_list s1)) cid"
      using chs by (simp add: map_replicate_const list_eq_iff_nth_eq)
    ultimately show thesis using that [OF d(1) sp] turn True evs(1,2) g2(3,6,7,8) t(1) by auto
  qed
qed

section \<open>The transition system\<close>

definition tables_ok :: "at_cmd_entry_t list option \<Rightarrow> bool" where
  "tables_ok table = (\<forall>t. table = Some t \<longrightarrow> (\<forall>e \<in> set t. \<forall>rows. entry_syntax e = Some rows \<longrightarrow> syntax_ok rows))"

inductive at_step :: "'a at_state_scheme \<Rightarrow> 'a at_state_scheme \<Rightarrow> bool" where
  step_recv: "\<forall>d. data = Some d \<longrightarrow> unat len \<le> length d \<Longrightarrow> at_step s (snd (uapi_at_channel_data_recv cid data len s))"
| step_zdiag: "unat len \<le> length data \<Longrightarrow> at_step s (snd (zdiag_at_proc len data s))"
| step_uart: "length buffer < 2 ^ 16 \<Longrightarrow> at_uart_rx_callback buffer error s = Some t \<Longrightarrow> at_step s t"
| step_turn: "at_step s (msg_main_turn s)"
| step_table: "tables_ok table \<Longrightarrow> at_step s (snd (uapi_at_cmd_table_register table sz s))"
| step_write: "at_step s (snd (uapi_at_channel_write_register cid func s))"

text \<open>The state at power on, and the one in which the task enters its loop.\<close>

definition at_zero :: "'a at_state_scheme \<Rightarrow> bool" where
  "at_zero s = (\<not> g_at_init_status s \<and> at_live s = 0 \<and> g_at_remain_list s = [] \<and> g_at_cmd_list s = []
     \<and> g_channel_entry s = replicate AT_MAX_PORT_NUMBER \<lparr>ch_state = AT_CHANNEL_UNINITIALIZED, ch_write = False, ch_data = None\<rparr>
     \<and> cb_args s = None)"

definition at_start :: "'a at_state_scheme \<Rightarrow> bool" where
  "at_start s = (\<exists>z uart diag. at_zero z
     \<and> s = snd (msg_main_start (snd (uapi_at_channel_write_register AT_ZDIAG_PORT diag
              (snd (uapi_at_channel_write_register AT_UART_PORT uart (at_base_api_register z)))))))"

lemma start_inv:
  assumes "at_start s"
  shows "at_inv s"
proof -
  obtain z uart diag where z: "at_zero z" and s: "s = snd (msg_main_start (snd (uapi_at_channel_write_register AT_ZDIAG_PORT diag
      (snd (uapi_at_channel_write_register AT_UART_PORT uart (at_base_api_register z))))))"
    using assms by (auto simp: at_start_def)
  define c where "c = (\<lambda>func. if func then \<lparr>ch_state = AT_CHANNEL_FREE, ch_write = True, ch_data = None\<rparr>
     else \<lparr>ch_state = AT_CHANNEL_UNINITIALIZED, ch_write = False, ch_data = (None :: string option)\<rparr>)"
  note ops = msg_main_start_def uapi_at_channel_write_register_def at_base_api_register_def uapi_at_base_api_register_def
    at_base_api_register_base_api_check_def at_base_is_at_init_def set_chan_def chan_def at_channel_check_and_enable_def
    enable_channel_def AT_MAX_PORT_NUMBER_def AT_UART_PORT_def AT_ZDIAG_PORT_def numeral_2_eq_2
  have chans: "g_channel_entry s = [c uart, c diag]"
    using z unfolding s at_zero_def by (cases uart; cases diag; simp add: ops c_def)
  have rest: "g_at_msg_queue s = []" "g_at_remain_list s = []" "g_at_cmd_list s = []" "cb_args s = None" "at_live s = 0"
    "at_base_api_register_base_api_check (g_at_base_api s)"
    using z unfolding s at_zero_def by (cases uart; cases diag; simp add: ops)+
  have c: "chan_ok (c f)" "chan_blocks (c f) = 0" "ch_state (c f) \<noteq> AT_CHANNEL_BLOCK" for f
    by (simp_all add: c_def chan_ok_def chan_blocks_def)
  have "ch_state (chan cid s) \<noteq> AT_CHANNEL_BLOCK" if "cid < AT_MAX_PORT_NUMBER" for cid
    using that c(3) chans less_2_cases [of cid] by (auto simp: chan_def AT_MAX_PORT_NUMBER_def)
  then show ?thesis using chans rest c by (auto simp: at_inv_def syntaxes_ok_def AT_MAX_PORT_NUMBER_def)
qed

lemma inv_frame:
  assumes "at_inv s" and "g_at_base_api t = g_at_base_api s" "g_channel_entry t = g_channel_entry s"
    "g_at_msg_queue t = g_at_msg_queue s" "g_at_remain_list t = g_at_remain_list s" "cb_args t = cb_args s"
    "g_at_cmd_list t = g_at_cmd_list s" "at_live t = at_live s"
  shows "at_inv t"
  using assms by (simp add: at_inv_def syntaxes_ok_def chan_def)

lemma table_inv:
  assumes inv: "at_inv s" and ok: "tables_ok table"
  shows "at_inv (snd (uapi_at_cmd_table_register table sz s))"
proof (cases "table = None \<or> table = Some []")
  case True
  then show ?thesis using inv by (auto simp: uapi_at_cmd_table_register_def)
next
  case False
  then obtain t where t: "table = Some t" "t \<noteq> []" by auto
  obtain b s1 where m: "at_malloc 12 s = (b, s1)" by fastforce
  note h = heap_only_malloc [OF m]
  have base: "at_inv (s1\<lparr>at_live := at_live s\<rparr>)"
    by (rule inv_frame [OF inv]) (simp_all add: heap_only_fields [OF h] heap_more [OF h] heap_more_chan [OF h]
        heap_more_proc [OF h] remain_heap [OF h])
  show ?thesis
  proof (cases b)
    case True
    have "at_inv (s1\<lparr>g_at_cmd_list := g_at_cmd_list s1 @ [t]\<rparr>)"
      using base ok t True live_malloc [OF m] heap_more_chan(1) [OF h] heap_more(1) [OF h] inv
      by (auto simp: at_inv_def syntaxes_ok_def tables_ok_def chan_def)
    then have "at_inv (s1\<lparr>g_at_cmd_list := g_at_cmd_list s1 @ [t], g_at_cmd_struct_max_size := x\<rparr>)" for x
      by (rule inv_frame) simp_all
    then show ?thesis
      using t m True \<open>at_inv (s1\<lparr>g_at_cmd_list := _\<rparr>)\<close> by (simp add: uapi_at_cmd_table_register_def at_cmd_table_add_def)
  next
    case False
    then show ?thesis
      using t m inv_heap [OF inv h] live_malloc [OF m] by (simp add: uapi_at_cmd_table_register_def at_cmd_table_add_def)
  qed
qed

lemma write_inv: "at_inv s \<Longrightarrow> at_inv (snd (uapi_at_channel_write_register cid func s))"
proof (cases "AT_MAX_PORT_NUMBER \<le> cid \<or> \<not> func")
  case False
  assume inv: "at_inv s"
  let ?c = "(chan cid s)\<lparr>ch_write := True\<rparr>"
  let ?t = "set_chan cid ?c s"
  have cid: "cid < length (g_channel_entry s)" using False inv_facts(3) [OF inv] by simp
  have "chan_ok (chan cid s)" using inv_facts(4) [OF inv] False by simp
  then have "chan_ok ?c" by (cases "ch_state (chan cid s)") (simp_all add: chan_ok_def)
  then have "\<forall>x \<in> set (g_channel_entry ?t). chan_ok x"
    using inv by (auto simp: at_inv_def set_chan_def dest!: subsetD [OF set_update_subset_insert])
  moreover have "map chan_blocks (g_channel_entry ?t) = map chan_blocks (g_channel_entry s)"
    using cid by (auto simp: set_chan_def chan_def chan_blocks_def list_eq_iff_nth_eq nth_list_update)
  moreover have "ch_state (chan i ?t) = ch_state (chan i s)" for i
    using cid by (cases "i = cid") simp_all
  moreover have "cb_args ?t = cb_args s" "syntaxes_ok ?t = syntaxes_ok s" by (simp_all add: set_chan_def syntaxes_ok_def)
  ultimately have "at_inv ?t" using inv by (simp add: at_inv_def)
  then show ?thesis using False by (simp add: uapi_at_channel_write_register_def)
qed (auto simp: uapi_at_channel_write_register_def)

lemma turn_inv: "at_inv s \<Longrightarrow> at_inv (msg_main_turn s)"
proof (cases "g_at_msg_queue s")
  case (Cons m rest)
  assume "at_inv s"
  then show ?thesis using Cons by (rule turn_outcome [OF _ _ refl])
qed (simp add: msg_main_turn_def)

lemma zdiag_inv:
  assumes "at_inv s" and "unat len \<le> length data"
  shows "at_inv (snd (zdiag_at_proc len data s))"
proof -
  obtain ret t where r: "uapi_at_channel_data_recv AT_ZDIAG_PORT (Some data) len s = (ret, t)" by fastforce
  have t: "at_inv t" using recv_inv [OF assms(1), of "Some data" len AT_ZDIAG_PORT] assms(2) r by simp
  have "at_inv (t\<lparr>g_at_pre_char := c\<rparr>)" for c by (rule inv_frame [OF t]) simp_all
  then show ?thesis using t r unfolding zdiag_at_proc_def by simp
qed

lemma uart_inv:
  assumes inv: "at_inv s" and len: "length buffer < 2 ^ 16" and "at_uart_rx_callback buffer error s = Some t"
  shows "at_inv t"
proof -
  define u where "u = at_emit (AtWrite AT_UART_PORT (if buffer ! 0 = CHR 0x0D then CRLF_STR else buffer))
    (s\<lparr>g_at_uart_recv_cnt := g_at_uart_recv_cnt s + of_nat (length buffer)\<rparr>)"
  have u: "g_at_base_api u = g_at_base_api s" "g_channel_entry u = g_channel_entry s"
    "g_at_msg_queue u = g_at_msg_queue s" "g_at_remain_list u = g_at_remain_list s" "cb_args u = cb_args s"
    "g_at_cmd_list u = g_at_cmd_list s" "at_live u = at_live s"
    by (simp_all add: u_def at_emit_def)
  have t: "t = (snd (uapi_at_channel_data_recv AT_UART_PORT (Some buffer) (of_nat (length buffer)) u))\<lparr>uart_pre_char := last buffer\<rparr>"
    using assms(3) by (cases "buffer ! 0 = CHR 0x0D")
      (auto simp: at_uart_rx_callback_def u_def Let_def split: if_splits prod.splits)
  have "unat (of_nat (length buffer) :: u32) \<le> length buffer" using len by (simp add: unat_of_nat)
  then have "at_inv (snd (uapi_at_channel_data_recv AT_UART_PORT (Some buffer) (of_nat (length buffer)) u))"
    by (intro recv_inv inv_frame [OF inv]) (simp_all add: u)
  then show ?thesis unfolding t by (rule inv_frame) simp_all
qed

interpretation at_task: invariant_system at_start at_step at_inv
proof
  show "at_inv s \<Longrightarrow> at_step s t \<Longrightarrow> at_inv t" for s t :: "'a at_state_scheme"
    by (erule at_step.cases) (auto intro: recv_inv zdiag_inv uart_inv turn_inv table_inv write_inv)
qed (rule start_inv)

section \<open>Properties\<close>

lemma inv_queue_short: "at_inv s \<Longrightarrow> length (g_at_msg_queue s) \<le> AT_MAX_PORT_NUMBER"
proof -
  assume inv: "at_inv s"
  then have "set (map msg_channel (g_at_msg_queue s)) \<subseteq> {..< AT_MAX_PORT_NUMBER}" "distinct (map msg_channel (g_at_msg_queue s))"
    by (auto simp: at_inv_def)
  then have "card (set (map msg_channel (g_at_msg_queue s))) \<le> AT_MAX_PORT_NUMBER"
    by (metis card_lessThan card_mono finite_lessThan)
  then show ?thesis using \<open>distinct _\<close> by (simp only: distinct_card length_map)
qed

lemma at_task_invariant_facts:
  assumes "reaches at_start at_step s"
  shows "\<forall>cid < AT_MAX_PORT_NUMBER.
      (cid \<in> set (map msg_channel (g_at_msg_queue s))) = (ch_state (chan cid s) = AT_CHANNEL_BLOCK)"
    and "distinct (map msg_channel (g_at_msg_queue s))" and "length (g_at_msg_queue s) \<le> AT_MAX_PORT_NUMBER"
    and "\<forall>cid < AT_MAX_PORT_NUMBER. length (chan_bytes cid s) \<le> AT_CMD_MAX_LENGTH"
    and "g_at_remain_list s = []" and "cb_args s = None"
    and "at_live s = length (g_at_cmd_list s) + length (filter (\<lambda>c. ch_data c \<noteq> None) (g_channel_entry s))"
proof -
  have inv: "at_inv s" by (rule at_task.inv_reaches [OF assms])
  then show "\<forall>cid < AT_MAX_PORT_NUMBER. (cid \<in> set (map msg_channel (g_at_msg_queue s))) = (ch_state (chan cid s) = AT_CHANNEL_BLOCK)"
    and "distinct (map msg_channel (g_at_msg_queue s))" and "g_at_remain_list s = []" and "cb_args s = None"
    by (simp_all add: at_inv_def)
  show "length (g_at_msg_queue s) \<le> AT_MAX_PORT_NUMBER" by (rule inv_queue_short [OF inv])
  show "\<forall>cid < AT_MAX_PORT_NUMBER. length (chan_bytes cid s) \<le> AT_CMD_MAX_LENGTH"
  proof (intro allI impI)
    fix cid assume "cid < AT_MAX_PORT_NUMBER"
    then show "length (chan_bytes cid s) \<le> AT_CMD_MAX_LENGTH"
      using inv_facts(4) [OF inv, of cid] by (cases "ch_state (chan cid s)"; cases "ch_data (chan cid s)")
        (auto simp: chan_ok_def chan_bytes_def)
  qed
  have "sum_list (map chan_blocks cs) = length (filter (\<lambda>c. ch_data c \<noteq> None) cs)" for cs
    by (induction cs) (simp_all add: chan_blocks_def)
  then show "at_live s = length (g_at_cmd_list s) + length (filter (\<lambda>c. ch_data c \<noteq> None) (g_channel_entry s))"
    using inv by (simp add: at_inv_def)
qed

text \<open>C22: Over any interleaving of receptions, turns of the task and registrations, with any allocation failing: a
  channel is blocked exactly if its one message is in the queue, so the queue never holds more than one message for each
  channel; no buffer is longer than it was allocated; and the blocks that are allocated are those of the registered tables
  and of the channels' buffers, so nothing is lost and nothing is freed twice.\<close>

theorem at_task_invariant:
  assumes "reaches at_start at_step s"
  shows "(\<forall>cid < AT_MAX_PORT_NUMBER.
      (cid \<in> set (map msg_channel (g_at_msg_queue s))) = (ch_state (chan cid s) = AT_CHANNEL_BLOCK))
    \<and> (distinct (map msg_channel (g_at_msg_queue s)))
    \<and> (length (g_at_msg_queue s) \<le> AT_MAX_PORT_NUMBER)
    \<and> (\<forall>cid < AT_MAX_PORT_NUMBER. length (chan_bytes cid s) \<le> AT_CMD_MAX_LENGTH)
    \<and> (g_at_remain_list s = [])
    \<and> (cb_args s = None)
    \<and> (at_live s = length (g_at_cmd_list s) + length (filter (\<lambda>c. ch_data c \<noteq> None) (g_channel_entry s)))"
  by (intro conjI at_task_invariant_facts [OF assms])

definition demo_zero :: at_state where
  "demo_zero = \<lparr>g_at_base_api = \<lparr>malloc_func = False, free_func = False, msg_queue_create_func = False,
       msg_queue_write_func = False, msg_queue_read_func = False, task_pause_func = False\<rparr>,
     g_at_init_status = False, malloc_ans = (\<lambda>_ _. True), malloc_n = 0, at_live = 0, queue_ans = (\<lambda>_. True), queue_n = 0,
     handler_ans = (\<lambda>_. ([''+X:1''], AT_RET_OK)), handler_n = 0, at_log = [], g_at_remain_list = [], g_at_cmd_list = [],
     g_at_cmd_struct_max_size = 0,
     g_channel_entry = replicate AT_MAX_PORT_NUMBER \<lparr>ch_state = AT_CHANNEL_UNINITIALIZED, ch_write = False, ch_data = None\<rparr>,
     g_at_msg_queue = [], cb_channel_id = 0, cb_entry = None, cb_format = AT_FORMAT_ADD, cb_type = AT_CMD_TYPE_CMD,
     cb_args = None, g_at_pre_char = NUL, uart_pre_char = NUL, g_at_uart_recv_cnt = 0\<rparr>"

definition demo_start :: at_state where
  "demo_start = snd (msg_main_start (snd (uapi_at_channel_write_register AT_ZDIAG_PORT True
     (snd (uapi_at_channel_write_register AT_UART_PORT True (at_base_api_register demo_zero))))))"

lemma demo_start_start: "at_start demo_start"
  unfolding at_start_def demo_start_def
  by (intro exI [of _ demo_zero] exI [of _ True] conjI refl) (simp add: at_zero_def demo_zero_def)

lemma replicate_two: "replicate 2 x = [x, x]"
  by (simp add: numeral_2_eq_2)

lemma demo_start_reached: "reaches at_start at_step demo_start"
  by (rule reaches_init) (rule demo_start_start)

lemma demo_start_eq:
  "demo_start = demo_zero\<lparr>g_at_base_api := \<lparr>malloc_func = True, free_func = True, msg_queue_create_func = True,
     msg_queue_write_func = True, msg_queue_read_func = True, task_pause_func = True\<rparr>, g_at_init_status := True,
     g_channel_entry := replicate AT_MAX_PORT_NUMBER \<lparr>ch_state = AT_CHANNEL_FREE, ch_write = True, ch_data = None\<rparr>\<rparr>"
  by (simp add: demo_start_def demo_zero_def msg_main_start_def uapi_at_channel_write_register_def at_base_api_register_def
      uapi_at_base_api_register_def at_base_api_register_base_api_check_def at_base_is_at_init_def set_chan_def chan_def
      at_channel_check_and_enable_def enable_channel_def AT_MAX_PORT_NUMBER_def AT_UART_PORT_def AT_ZDIAG_PORT_def numeral_2_eq_2)

text \<open>After the reception of \<open>AT+X\<close> the channel has its buffer.\<close>

theorem at_task_invariant_witness:
  "at_live (snd (uapi_at_channel_data_recv 0 (Some ''AT+X'') 4 demo_start)) = 1"
proof -
  let ?s = "snd (uapi_at_channel_data_recv 0 (Some ''AT+X'') 4 demo_start)"
  have "at_step demo_start ?s" by (rule step_recv) simp
  then have "reaches at_start at_step ?s" by (rule reaches_step [OF demo_start_reached])
  note inv = at_task_invariant [OF this]
  have "g_at_cmd_list ?s = [] \<and> g_channel_entry ?s =
      [\<lparr>ch_state = AT_CHANNEL_FREE, ch_write = True, ch_data = Some ''AT+X''\<rparr>,
       \<lparr>ch_state = AT_CHANNEL_FREE, ch_write = True, ch_data = None\<rparr>]"
    by (simp add: demo_start_eq demo_zero_def uapi_at_channel_data_recv_def at_channel_prepare_def at_is_channel_block_def
        chan_def set_chan_def at_malloc_def at_channel_data_add_def chan_bytes_def AT_CMD_MAX_LENGTH_def AT_MAX_PORT_NUMBER_def
        replicate_two at_channel_data_handle_def at_channel_cmd_handle_def at_channel_cmd_head_check_def is_a_def is_t_def
        at_channel_del_invalid_data_def at_channel_is_data_integrated_def line_end_def)
  then show ?thesis using inv by simp
qed

lemma every_command_answered_facts:
  assumes "reaches at_start at_step s" and "all_malloc s" and queue: "g_at_msg_queue s = m # rest" "msg_channel m = cid"
    and d: "ch_data (chan cid s) = Some d" "cstr d = line_text cmds" and cmds: "cmds_ok cmds"
  shows "\<exists>evs. at_log (msg_main_turn s) = at_log s @ evs
     \<and> at_answered (handler_ans s) (handler_n s) (replicate (length (filter (\<lambda>ts. ts \<noteq> []) cmds)) cid) evs"
    and "g_at_remain_list (msg_main_turn s) = []" and "g_at_msg_queue (msg_main_turn s) = rest"
    and "ch_state (chan cid (msg_main_turn s)) = AT_CHANNEL_FREE"
proof -
  have inv: "at_inv s" by (rule at_task.inv_reaches [OF assms(1)])
  let ?s = "s\<lparr>g_at_msg_queue := rest\<rparr>"
  have am: "all_malloc ?s" "g_at_remain_list ?s = []" using assms(2) inv by (simp_all add: all_malloc_def at_ready_def at_inv_def)
  obtain t where t: "at_parse_split_combine_cmd (line_text cmds) cid ?s = (AT_RET_OK, t)" "g_at_remain_list t = cmd_nodes cid cmds"
    by (rule split_line [OF cmds am])
  have len: "length (cmd_nodes cid cmds) = length (filter (\<lambda>ts. ts \<noteq> []) cmds)"
  proof (induction cmds)
    case (Cons ts cmds)
    have "concat (map cmd_text ts) = [] \<longleftrightarrow> ts = []" by (cases ts; cases "hd ts") auto
    then show ?case using Cons by (simp add: cmd_nodes_def cmd_node_def del: concat_eq_Nil_conv)
  qed (simp add: cmd_nodes_def)
  obtain d' ret s1 where o: "ch_data (chan cid s) = Some d'" "at_parse_split_combine_cmd (cstr d') cid ?s = (ret, s1)"
      "at_inv (msg_main_turn s)"
      "proc_keep (s\<lparr>g_at_msg_queue := rest, g_channel_entry := g_channel_entry (msg_main_turn s)\<rparr>) (msg_main_turn s)"
      "g_channel_entry (msg_main_turn s) = (g_channel_entry s)[cid := (chan cid s)\<lparr>ch_data := None, ch_state := AT_CHANNEL_FREE\<rparr>]"
      "ret = AT_RET_OK \<Longrightarrow> \<exists>evs. at_log (msg_main_turn s) = at_log s @ evs
        \<and> at_answered (handler_ans s) (handler_n s) (replicate (length (g_at_remain_list s1)) cid) evs"
    by (rule turn_outcome [OF inv queue]) blast
  have "ret = AT_RET_OK" "s1 = t" using o(1,2) d t(1) by simp_all
  then show "\<exists>evs. at_log (msg_main_turn s) = at_log s @ evs
     \<and> at_answered (handler_ans s) (handler_n s) (replicate (length (filter (\<lambda>ts. ts \<noteq> []) cmds)) cid) evs"
    using o(6) t(2) len by simp
  show "g_at_remain_list (msg_main_turn s) = []" using o(3) by (simp add: at_inv_def)
  show q: "g_at_msg_queue (msg_main_turn s) = rest" using o(4) by (simp add: proc_keep_def)
  have mem: "cid \<in> set (map msg_channel (g_at_msg_queue s))" using queue by simp
  then have "cid < AT_MAX_PORT_NUMBER" using inv by (simp add: at_inv_def)
  then show "ch_state (chan cid (msg_main_turn s)) = AT_CHANNEL_FREE"
    using o(5) inv_facts(3) [OF inv] by (simp add: chan_def)
qed

text \<open>C23: A turn of the task over a line of any number of commands ends with an empty list and answers every command once,
  in order: a command that reaches no handler with ERROR, any other one with its handler's reports and OK or ERROR by
  its result. The channel is free again.\<close>

theorem every_command_answered:
  assumes "reaches at_start at_step s" and "all_malloc s" and queue: "g_at_msg_queue s = m # rest" "msg_channel m = cid"
    and d: "ch_data (chan cid s) = Some d" "cstr d = line_text cmds" and cmds: "cmds_ok cmds"
  shows "(\<exists>evs. at_log (msg_main_turn s) = at_log s @ evs
     \<and> at_answered (handler_ans s) (handler_n s) (replicate (length (filter (\<lambda>ts. ts \<noteq> []) cmds)) cid) evs)
    \<and> (g_at_remain_list (msg_main_turn s) = [])
    \<and> (g_at_msg_queue (msg_main_turn s) = rest)
    \<and> (ch_state (chan cid (msg_main_turn s)) = AT_CHANNEL_FREE)"
  by (intro conjI every_command_answered_facts [OF assms])

definition demo_received :: at_state where
  "demo_received = snd (uapi_at_channel_data_recv 0 (Some (''AT+A;+B'' @ [CHR 0x0D])) 8 demo_start)"

lemma demo_received_fields:
  "g_at_msg_queue demo_received = [line_msg 0 (''+A;+B'' @ [NUL])] \<and> ch_data (chan 0 demo_received) = Some (''+A;+B'' @ [NUL])
   \<and> all_malloc demo_received"
  by (simp add: demo_received_def demo_start_eq demo_zero_def uapi_at_channel_data_recv_def at_channel_prepare_def at_is_channel_block_def
      chan_def set_chan_def at_malloc_def at_channel_data_add_def chan_bytes_def AT_CMD_MAX_LENGTH_def AT_MAX_PORT_NUMBER_def
      replicate_two at_channel_data_handle_def at_channel_cmd_handle_def at_channel_cmd_head_check_def is_a_def is_t_def
      at_channel_del_invalid_data_def at_channel_is_data_integrated_def line_end_def AT_FLAG_LENGTH_def char_at_def NUL_def
      at_channel_send_msg_def at_channel_set_state_def at_msg_send_def at_msg_queue_write_def line_msg_def all_malloc_def at_ready_def)

theorem every_command_answered_witness:
  "\<exists>evs. at_log (msg_main_turn demo_received) = at_log demo_received @ evs
     \<and> at_answered (handler_ans demo_received) (handler_n demo_received) [0, 0] evs"
proof -
  let ?cmds = "[[Plain CHR ''+'', Plain CHR ''A''], [Plain CHR ''+'', Plain CHR ''B'']]"
  have "at_step demo_start demo_received" unfolding demo_received_def by (rule step_recv) simp
  then have reach: "reaches at_start at_step demo_received" by (rule reaches_step [OF demo_start_reached])
  note f = demo_received_fields
  have mem: "all_malloc demo_received" and q: "g_at_msg_queue demo_received = [line_msg 0 (''+A;+B'' @ [NUL])]"
    and d: "ch_data (chan 0 demo_received) = Some (''+A;+B'' @ [NUL])" using f by simp_all
  have ch: "msg_channel (line_msg 0 (''+A;+B'' @ [NUL])) = 0" by (simp add: line_msg_def)
  have line: "cstr (''+A;+B'' @ [NUL]) = line_text ?cmds" by (simp add: cstr_def NUL_def line_text_def)
  have "cmds_ok ?cmds" by (simp add: cmds_ok_def NUL_def)
  from every_command_answered [OF reach mem q ch d line this] show ?thesis by (simp add: numeral_2_eq_2)
qed

end
