(* ===== verification/AtSet.thy ===== *)
theory AtSet
  imports AtSystem
begin

text \<open>
  The whole way of a command that sets parameters: from the bytes on the wire, in any pieces, to the call of the
  handler with the values and its answer.
\<close>

section \<open>The set command\<close>

lemma param_ok_nul: "param_ok x \<Longrightarrow> NUL \<notin> set x"
proof -
  have "\<forall>t \<in> set ts. tok_ok CHR '','' t \<Longrightarrow> NUL \<notin> set (toks_text ts)" for ts
  proof (induction ts)
    case (Cons t ts)
    then show ?case by (cases t) (auto simp: NUL_def)
  qed simp
  then show "param_ok x \<Longrightarrow> ?thesis" by (auto simp: param_ok_def)
qed

lemma joined_nul: "\<forall>x \<in> set xs. NUL \<notin> set x \<Longrightarrow> NUL \<notin> set (joined CHR '','' xs)"
  by (induction "CHR '',''" xs rule: joined.induct) (auto simp: NUL_def)

lemma set_type:
  assumes "NUL \<notin> set params" and "params \<noteq> ''?''"
  shows "at_parse_cmd_type (pre @ CHR ''='' # params) (length pre) = (AT_CMD_TYPE_SET, length pre + 1)"
proof -
  have c: "char_at (pre @ CHR ''='' # params) (length pre) = CHR ''=''"
    "char_at (pre @ CHR ''='' # params) (length pre + 1) = char_at params 0"
    "char_at (pre @ CHR ''='' # params) (length pre + 2) = char_at params 1"
    by (auto simp: char_at_def nth_append)
  have "\<not> (char_at params 0 = CHR ''?'' \<and> char_at params 1 = NUL)"
    using assms by (cases params; cases "tl params") (auto simp: char_at_def NUL_def)
  then show ?thesis using c by (auto simp: at_parse_cmd_type_def Let_def)
qed

lemma find_set_entry:
  assumes "find_first (concat (g_at_cmd_list s)) (map upper_char name) = Some e" and "\<forall>c \<in> set name. name_char c"
  shows "at_cmd_find_entry (f # name @ CHR ''='' # params) 1 s
    = (Some e, f # map upper_char name @ CHR ''='' # params, 1 + length name)"
proof -
  have len: "at_cmd_get_name_length (name @ CHR ''='' # params) = length name"
    using assms(2) by (intro name_length_append) (auto simp: name_char_def)
  have up: "at_base_toupper (name @ CHR ''='' # params) (length name) = map upper_char name @ CHR ''='' # params"
    by (simp add: at_base_toupper_def)
  have "g_at_cmd_list s \<noteq> []" using assms(1) by auto
  moreover have "find_tables (g_at_cmd_list s) (map upper_char name @ CHR ''='' # params) (length name) = Some e"
    using find_tables_first [of "g_at_cmd_list s" "map upper_char name"] assms(1) by simp
  ultimately show ?thesis using len up by (simp add: at_cmd_find_entry_def)
qed

lemma exec_set:
  assumes mem: "all_malloc s" and w: "at_channel_get_write_func (cmd_channel cmd) s"
    and tx: "cmd_str cmd = f # name @ CHR ''='' # joined CHR '','' (map value_text vs)" and f: "f = CHR ''+'' \<or> f = CHR ''^''"
    and name: "\<forall>c \<in> set name. name_char c" and e: "find_first (concat (g_at_cmd_list s)) (map upper_char name) = Some e"
    and set: "has_set e" "entry_syntax e = Some rows" and rows: "syntax_ok rows" "values_fit rows vs" "vs \<noteq> []"
    and no_test: "joined CHR '','' (map value_text vs) \<noteq> ''?''"
    and h: "handler_ans s (handler_n s) = (reports, ret)"
  shows "\<exists>t. at_proc_exec_cmd cmd s = (ret, t)
    \<and> at_log t = at_log s @ AtCall (entry_cmd_id e) AT_CMD_TYPE_SET (Some (put_values rows 0 vs zero_args))
        # map (AtWrite (cmd_channel cmd)) reports"
proof -
  let ?p = "joined CHR '','' (map value_text vs)"
  let ?str = "f # map upper_char name @ CHR ''='' # ?p"
  let ?s1 = "s\<lparr>cb_channel_id := cmd_channel cmd, cb_format := AT_FORMAT_ADD\<rparr>"
  let ?s2 = "?s1\<lparr>cb_entry := Some e, cb_type := AT_CMD_TYPE_SET\<rparr>"
  have fmt: "at_parse_format_of_cmd cmd 0 = (AT_FORMAT_ADD, 1)"
    using f tx by (auto simp: at_parse_format_of_cmd_def char_at_def)
  have find: "at_cmd_find_entry (cmd_str cmd) 1 ?s1 = (Some e, ?str, 1 + length name)"
    using find_set_entry [of ?s1] e name tx by simp
  have nul: "NUL \<notin> set ?p" using param_ok_values [OF rows(2)] param_ok_nul by (intro joined_nul) auto
  have ty: "at_parse_cmd_type ?str (1 + length name) = (AT_CMD_TYPE_SET, 2 + length name)"
    using set_type [OF nul no_test, of "f # map upper_char name"] by simp
  have am2: "all_malloc ?s2" using mem by (simp add: all_malloc_def at_ready_def)
  obtain s3 where m: "at_malloc (unat (at_cmd_get_max_struct_size ?s2)) ?s2 = (True, s3)" and h3: "heap_only ?s2 s3"
    using malloc_ok [OF am2] by metis
  have am3: "all_malloc s3" using all_malloc_heap [OF h3] am2 by simp
  let ?args = "put_values rows 0 vs zero_args"
  obtain s4 where parse: "at_parse_para_arguments ?p zero_args rows s3 = (AT_RET_OK, ?args, s4)"
    using para_arguments_values [OF rows am3] by blast
  have "\<forall>row \<in> set rows. \<not> owns zero_args row" by (simp add: owns_def zero_args_def)
  moreover have "at_ready s3" using am3 by (simp add: all_malloc_def)
  ultimately have h4: "heap_only s3 s4" using para_arguments_block(1) [OF _ rows(1) _ parse] by blast
  note h24 = heap_only_trans [OF h3 h4]
  let ?s5 = "s4\<lparr>cb_args := Some ?args\<rparr>"
  have prep: "at_proc_para_arguments_prepare ?p ?s2 = (AT_RET_OK, ?s5)"
    using m parse set(2) heap_more_proc [OF h3] by (simp add: at_proc_para_arguments_prepare_def)
  have f5: "cb_channel_id ?s5 = cmd_channel cmd" "cb_entry ?s5 = Some e" "cb_type ?s5 = AT_CMD_TYPE_SET" "cb_args ?s5 = Some ?args"
    "handler_ans ?s5 = handler_ans s" "handler_n ?s5 = handler_n s" "at_log ?s5 = at_log s" "g_channel_entry ?s5 = g_channel_entry s"
    using heap_more_proc [OF h24] heap_only_fields [OF h24] heap_more_chan [OF h24] by simp_all
  have w5: "at_channel_get_write_func (cb_channel_id ?s5) ?s5"
    using w f5(1,8) by (auto simp: at_channel_get_write_func_def chan_def split: if_splits)
  obtain r t where call: "call_handler AT_CMD_TYPE_SET (Some ?args) ?s5 = (r, t)" by fastforce
  have "handler_ans ?s5 (handler_n ?s5) = (reports, ret)" using h f5 by simp
  note out = call_handler_outcome [OF w5 this call]
  have perf: "at_proc_perform_current_cmd ?s5 = (r, t)"
    using f5 set(1) call by (simp add: at_proc_perform_current_cmd_def at_proc_perform_set_cmd_def)
  have drop: "drop (2 + length name) ?str = ?p" by simp
  have "at_proc_exec_cmd cmd s = (ret, at_proc_para_arguments_finish t)"
    using fmt find ty prep perf out drop by (simp add: at_proc_exec_cmd_def del: drop_Suc_Cons)
  moreover have "at_log (at_proc_para_arguments_finish t) = at_log t"
  proof -
    have "proc_keep ?s5 t" using out by blast
    then have rt: "at_ready t"
      using keep_ready(1) ready_heap [OF h24] am2 by (auto simp: all_malloc_def proc_keep_def at_ready_def)
    then show ?thesis using finish_outcome [OF rt] out f5(2) set(2) rows(1) by (auto simp: entry_ok_def)
  qed
  ultimately show ?thesis using out f5 by simp
qed

section \<open>From the wire to the handler\<close>

text \<open>What a command that sets parameters must look like, and the entry it selects.\<close>

definition set_request :: "'a at_cmd_env_scheme \<Rightarrow> string \<Rightarrow> at_cmd_entry_t \<Rightarrow> at_para_parse_syntax_t list \<Rightarrow> at_value list \<Rightarrow> bool" where
  "set_request s tx e rows vs =
     (\<exists>f name. (f = CHR ''+'' \<or> f = CHR ''^'') \<and> (\<forall>c \<in> set name. name_char c)
        \<and> tx = f # name @ CHR ''='' # joined CHR '','' (map value_text vs)
        \<and> find_first (concat (g_at_cmd_list s)) (map upper_char name) = Some e
        \<and> has_set e \<and> entry_syntax e = Some rows \<and> values_fit rows vs \<and> vs \<noteq> []
        \<and> joined CHR '','' (map value_text vs) \<noteq> ''?'')"

lemma exec_request:
  assumes "all_malloc s" and "at_channel_get_write_func (cmd_channel cmd) s" and "syntaxes_ok s"
    and req: "set_request s (cmd_str cmd) e rows vs" and h: "handler_ans s (handler_n s) = (reports, ret)"
  shows "\<exists>t. at_proc_exec_cmd cmd s = (ret, t)
    \<and> at_log t = at_log s @ AtCall (entry_cmd_id e) AT_CMD_TYPE_SET (Some (put_values rows 0 vs zero_args))
        # map (AtWrite (cmd_channel cmd)) reports"
proof -
  obtain f name where r: "f = CHR ''+'' \<or> f = CHR ''^''" "\<forall>c \<in> set name. name_char c"
      "cmd_str cmd = f # name @ CHR ''='' # joined CHR '','' (map value_text vs)"
      "find_first (concat (g_at_cmd_list s)) (map upper_char name) = Some e" "has_set e" "entry_syntax e = Some rows"
      "values_fit rows vs" "vs \<noteq> []" "joined CHR '','' (map value_text vs) \<noteq> ''?''"
    using req unfolding set_request_def by blast
  have "e \<in> set (concat (g_at_cmd_list s))" using find_first_in [OF r(4)] by blast
  then have "syntax_ok rows" using assms(3) r(6) unfolding syntaxes_ok_def by blast
  with r show ?thesis by (intro exec_set [OF assms(1,2) r(3) r(1,2) r(4-6) _ r(7-9) h])
qed

lemma turn_request:
  assumes inv: "at_inv s" and mem: "all_malloc s" and queue: "g_at_msg_queue s = m # rest" "msg_channel m = cid"
    and d: "ch_data (chan cid s) = Some d" "cstr d = toks_text ts" and ts: "\<forall>t \<in> set ts. tok_ok CHR '';'' t"
    and req: "set_request s (concat (map cmd_text ts)) e rows vs" and h: "handler_ans s (handler_n s) = (reports, ret)"
  shows "at_log (msg_main_turn s) = at_log s
    @ AtCall (entry_cmd_id e) AT_CMD_TYPE_SET (Some (put_values rows 0 vs zero_args)) # map (AtWrite cid) reports
    @ [AtWrite cid (if ret = AT_RET_OK then AT_RESPONSE_OK else AT_RESPONSE_ERROR)]"
proof -
  let ?s = "s\<lparr>g_at_msg_queue := rest\<rparr>" and ?tx = "concat (map cmd_text ts)"
  let ?node = "\<lparr>cmd_str = ?tx, str_len = of_nat (length ?tx + 1), cmd_channel = cid\<rparr>"
  note f = inv_facts [OF inv]
  have "cid \<in> set (map msg_channel (g_at_msg_queue s))" using queue by simp
  then have cid: "cid < AT_MAX_PORT_NUMBER" and block: "ch_state (chan cid s) = AT_CHANNEL_BLOCK" and ty: "msg_type m = AT_CMD_MSG"
    using inv queue by (auto simp: at_inv_def)
  have wr: "ch_write (chan cid s)" using f(4) [OF cid] block by (simp add: chan_ok_def)
  have ok: "cmds_ok [ts]" "line_text [ts] = toks_text ts" using ts by (simp_all add: cmds_ok_def line_text_def)
  have ne: "?tx \<noteq> []" using req unfolding set_request_def by (metis list.distinct(1))
  have r0: "at_ready ?s" "g_at_remain_list ?s = []" "all_malloc ?s"
    using f(1) inv mem by (simp_all add: at_ready_def at_inv_def all_malloc_def)
  have node: "cmd_nodes cid [ts] = [?node]"
    using ne by (simp only: cmd_nodes_def cmd_node_def list.map concat.simps if_False append_Nil2)
  obtain s1 where sp: "at_parse_split_combine_cmd (cstr d) cid ?s = (AT_RET_OK, s1)" and l1: "g_at_remain_list s1 = [?node]"
    by (rule split_line [OF ok(1) r0(3,2), of cid, unfolded ok(2) node d(2) [symmetric]])
  note out = split_outcome [OF r0(1,2) sp] and more = line_more [OF split_outcome(1) [OF r0(1,2) sp]]
  let ?c = "(chan cid s)\<lparr>ch_data := None, ch_state := AT_CHANNEL_FREE\<rparr>"
  let ?s2 = "at_channel_data_reset cid s1"
  have csame: "chan i ?s = chan i s" for i by (simp add: chan_def)
  have s2: "?s2 = set_chan cid ?c (at_free s1)"
    using d(1) more(6) csame heap_more_chan [OF heap_only_free [of s1]] by (simp add: at_channel_data_reset_def)
  note fr = heap_more_chan [OF heap_only_free [of s1]] heap_more [OF heap_only_free [of s1]] remain_heap [OF heap_only_free [of s1]]
    heap_only_fields [OF heap_only_free [of s1]]
  let ?s3 = "?s2\<lparr>g_at_remain_list := []\<rparr>"
  have g3: "g_channel_entry ?s3 = (g_channel_entry s)[cid := ?c]" "g_at_cmd_list ?s3 = g_at_cmd_list s"
    "handler_ans ?s3 = handler_ans s" "handler_n ?s3 = handler_n s" "at_log ?s3 = at_log s"
    "g_at_base_api ?s3 = g_at_base_api s" "malloc_ans ?s3 = malloc_ans s"
    using fr more line_only_fields [OF out(1)] unfolding s2 by (simp_all add: set_chan_def)
  have cb3: "cb_args ?s3 = None"
    using more(5) inv heap_more_proc(4) [OF heap_only_free [of s1]] unfolding s2 by (simp add: set_chan_def at_inv_def)
  have w3: "at_channel_get_write_func (cmd_channel ?node) ?s3"
    using g3(1) cid f(3) wr by (simp add: at_channel_get_write_func_def chan_def)
  have p3: "all_malloc ?s3" "syntaxes_ok ?s3" "at_ready ?s3"
    using mem inv g3 by (simp_all add: all_malloc_def at_ready_def at_inv_def syntaxes_ok_def)
  have rq: "set_request ?s3 (cmd_str ?node) e rows vs" using req g3(2) by (simp add: set_request_def)
  have hh: "handler_ans ?s3 (handler_n ?s3) = (reports, ret)" using h g3 by simp
  obtain t where t: "at_proc_exec_cmd ?node ?s3 = (ret, t)" and log: "at_log t = at_log s
      @ AtCall (entry_cmd_id e) AT_CMD_TYPE_SET (Some (put_values rows 0 vs zero_args)) # map (AtWrite cid) reports"
    using exec_request [OF p3(1) w3 p3(2) rq hh] g3(5) by auto
  note ex = exec_outcome [OF p3(3) cb3 p3(2) w3 t]
  let ?u = "at_parse_del_one_remain_cmd (Some ?node) t"
  have rt: "at_ready t" using ex p3(3) keep_ready(1) by metis
  note dl = del_one_outcome(1) [OF rt, of "Some ?node"]
  have ku: "proc_keep ?s3 ?u" using ex proc_keep_trans proc_keep_heap [OF dl] by metis
  have wu: "at_channel_get_write_func (cb_channel_id ?u) ?u"
    using w3 ex heap_more_proc(1) [OF dl] keep_write [OF ku] by simp
  have "msg_main_turn s = proc_loop 1 ?s2"
    using queue ty sp d(1) csame l1 fr(6,7) s2
    by (simp add: msg_main_turn_def at_msg_process_def at_proc_cmd_handle_def at_channel_get_data_def at_proc_cmd_process_def)
  also have "\<dots> = uapi_at_report (if ret = AT_RET_OK then AT_RESPONSE_OK else AT_RESPONSE_ERROR) ?u"
    using l1 fr(6,7) s2 t by (simp add: at_parse_get_next_remain_cmd_def at_proc_need_exit_def)
  finally show ?thesis
    using report_log [OF wu] log heap_only_fields(2) [OF dl] heap_more_proc(1) [OF dl] ex by simp
qed

lemma recv_all_inv: "at_inv s \<Longrightarrow> at_inv (recv_all cid chunks s)"
proof (induction chunks arbitrary: s)
  case (Cons c chunks)
  have "unat (of_nat (length c) :: u32) \<le> length c" by (simp add: unat_of_nat)
  then have "at_inv (snd (uapi_at_channel_data_recv cid (Some c) (of_nat (length c)) s))" using Cons.prems by (intro recv_inv) simp_all
  then show ?case using Cons.IH by (simp add: recv_all_def)
qed (simp add: recv_all_def)

lemma cstr_line: "NUL \<notin> set body \<Longrightarrow> cstr (body @ NUL # junk) = body"
  unfolding NUL_def by (rule cstr_append)

lemma toks_nul: "\<forall>t \<in> set ts. tok_ok sep t \<Longrightarrow> NUL \<notin> set (toks_text ts)"
proof (induction ts)
  case (Cons t ts)
  then show ?case by (cases t) (auto simp: NUL_def)
qed simp

text \<open>A line arrives in any pieces, the end of the line in the last one; then the task makes a turn.\<close>

definition in_pieces :: "string list \<Rightarrow> string \<Rightarrow> bool" where
  "in_pieces chunks body =
     (\<exists>front c a b e junk. chunks = front @ [c] \<and> (\<forall>x \<in> set chunks. x \<noteq> []) \<and> concat chunks = a # b # body @ e # junk
        \<and> is_a a \<and> is_t b \<and> line_end e \<and> length (concat front) \<le> 2 + length body
        \<and> length (concat chunks) \<le> AT_CMD_MAX_LENGTH)"

lemma served_request:
  assumes inv: "at_inv s" and coll: "collecting cid [] s" and mem: "all_malloc s" and q: "queue_free s" "g_at_msg_queue s = []"
    and pieces: "in_pieces chunks (toks_text ts)" and ts: "\<forall>t \<in> set ts. tok_ok CHR '';'' t"
    and plain: "\<forall>c \<in> set (toks_text ts). \<not> line_end c"
    and req: "set_request s (concat (map cmd_text ts)) e rows vs" and h: "handler_ans s (handler_n s) = (reports, ret)"
  shows "at_log (msg_main_turn (recv_all cid chunks s)) = at_log s
    @ AtCall (entry_cmd_id e) AT_CMD_TYPE_SET (Some (put_values rows 0 vs zero_args)) # map (AtWrite cid) reports
    @ [AtWrite cid (if ret = AT_RET_OK then AT_RESPONSE_OK else AT_RESPONSE_ERROR)]"
proof -
  obtain front c a b en junk where p: "chunks = front @ [c]" "\<forall>x \<in> set (front @ [c]). x \<noteq> []"
      "concat (front @ [c]) = a # b # toks_text ts @ en # junk" "is_a a" "is_t b" "line_end en"
      "length (concat front) \<le> 2 + length (toks_text ts)" "length (concat (front @ [c])) \<le> AT_CMD_MAX_LENGTH"
    using pieces by (auto simp: in_pieces_def)
  have nul: "NUL \<notin> set (toks_text ts)" using toks_nul [OF ts] .
  have "ts \<noteq> []" using req by (auto simp: set_request_def)
  then have ne: "toks_text ts \<noteq> []" by (cases ts; cases "hd ts") auto
  then have hd: "hd (toks_text ts) \<noteq> NUL" using nul by (metis hd_in_set)
  obtain t where t: "recv_all cid (front @ [c]) s = t\<lparr>queue_n := queue_n t + 1,
        g_at_msg_queue := g_at_msg_queue t @ [line_msg cid (toks_text ts @ NUL # junk)]\<rparr>"
    and only: "chan_only cid s t"
    and ct: "chan cid t = (chan cid s)\<lparr>ch_state := AT_CHANNEL_BLOCK, ch_data := Some (toks_text ts @ NUL # junk)\<rparr>"
    by (rule recv_line [OF coll mem q(1) p(2,3,4,5,6) plain ne hd p(7,8)])
  let ?u = "recv_all cid chunks s"
  note fields = chan_only_fields [OF only]
  have u: "g_at_msg_queue ?u = [line_msg cid (toks_text ts @ NUL # junk)]" "at_log ?u = at_log s" "all_malloc ?u"
    "handler_ans ?u = handler_ans s" "handler_n ?u = handler_n s" "g_at_cmd_list ?u = g_at_cmd_list s"
    using t p(1) fields q(2) mem by (simp_all add: all_malloc_def at_ready_def)
  have data: "ch_data (chan cid ?u) = Some (toks_text ts @ NUL # junk)" using t p(1) ct by (simp add: chan_def)
  have "set_request ?u (concat (map cmd_text ts)) e rows vs" using req u(6) by (simp add: set_request_def)
  moreover have "handler_ans ?u (handler_n ?u) = (reports, ret)" using h u by simp
  moreover have "msg_channel (line_msg cid (toks_text ts @ NUL # junk)) = cid" by (simp add: line_msg_def)
  ultimately show ?thesis
    using turn_request [OF recv_all_inv [OF inv] u(3,1) _ data cstr_line [OF nul] ts] u(2) by simp
qed

section \<open>Properties\<close>

text \<open>C21: A command that sets parameters arrives in any pieces on a free channel, its values written as text. In the next turn of
  the task the handler of the entry with this name (in upper case) is called once, with a structure that holds every
  value in the field of its row and a mask of the parameters that are present; then come its reports and OK or ERROR
  by its result.\<close>

theorem set_command_reaches_handler:
  assumes "reaches at_start at_step s" and "collecting cid [] s" and "all_malloc s" and "queue_free s" and "g_at_msg_queue s = []"
    and "in_pieces chunks (toks_text ts)" and "\<forall>t \<in> set ts. tok_ok CHR '';'' t" and "\<forall>c \<in> set (toks_text ts). \<not> line_end c"
    and req: "set_request s (concat (map cmd_text ts)) e rows vs" and lay: "layout_ok rows" "length rows \<le> 32"
    and h: "handler_ans s (handler_n s) = (reports, ret)"
  shows "\<exists>args. at_log (msg_main_turn (recv_all cid chunks s)) = at_log s
      @ AtCall (entry_cmd_id e) AT_CMD_TYPE_SET (Some args) # map (AtWrite cid) reports
      @ [AtWrite cid (if ret = AT_RET_OK then AT_RESPONSE_OK else AT_RESPONSE_ERROR)]
    \<and> (\<forall>k < length rows. holds args (rows ! k) (if k < length vs then vs ! k else Absent)
         \<and> bit (arg_words args 0) k = (k < length vs \<and> vs ! k \<noteq> Absent))"
proof (intro exI conjI allI impI)
  have fit: "values_fit rows vs" using req by (auto simp: set_request_def)
  show "at_log (msg_main_turn (recv_all cid chunks s)) = at_log s
      @ AtCall (entry_cmd_id e) AT_CMD_TYPE_SET (Some (put_values rows 0 vs zero_args)) # map (AtWrite cid) reports
      @ [AtWrite cid (if ret = AT_RET_OK then AT_RESPONSE_OK else AT_RESPONSE_ERROR)]"
    by (rule served_request [OF at_task.inv_reaches [OF assms(1)] assms(2-9) h])
  fix k assume k: "k < length rows"
  show "holds (put_values rows 0 vs zero_args) (rows ! k) (if k < length vs then vs ! k else Absent)"
    using put_values_holds [OF fit lay(1), of zero_args 0] zero_args_holds k by blast
  have "k < 32" using k lay(2) by simp
  then show "bit (arg_words (put_values rows 0 vs zero_args) 0) k = (k < length vs \<and> vs ! k \<noteq> Absent)"
    using put_values_mask [OF fit lay(1), of k 0 zero_args] by (simp add: zero_args_def)
qed

text \<open>The command \<open>AT+X=-5,"a\,b"\<close> without the quotes, for an entry with a number and an optional text; it arrives in two pieces.\<close>

definition demo_rows :: "at_para_parse_syntax_t list" where
  "demo_rows = [demo_row, demo_row\<lparr>syn_type := AT_SYNTAX_TYPE_STRING, syn_last := True, attribute := AT_SYNTAX_ATTR_OPTIONAL, offset := 8\<rparr>]"

definition demo_entry :: at_cmd_entry_t where
  "demo_entry = \<lparr>entry_name = Some ''X'', entry_cmd_id = 7, entry_syntax = Some demo_rows, has_cmd = False, has_set = True,
     has_read = False, has_test = False\<rparr>"

definition demo_ready :: at_state where
  "demo_ready = snd (uapi_at_cmd_table_register (Some [demo_entry]) 12 demo_start)"

definition demo_toks :: "at_tok list" where
  "demo_toks = [Plain CHR ''+'', Plain CHR ''x'', Plain CHR ''='', Plain CHR ''-'', Plain CHR ''5'', Plain CHR '','',
     Plain CHR ''a'', Pair CHR '','', Plain CHR ''b'']"

lemma demo_ready_reached: "reaches at_start at_step demo_ready"
proof -
  have "tables_ok (Some [demo_entry])"
    by (simp add: tables_ok_def demo_entry_def demo_rows_def demo_row_def syntax_ok_def ptr_row_def)
  then have "at_step demo_start demo_ready" unfolding demo_ready_def by (rule step_table)
  then show ?thesis by (rule reaches_step [OF demo_start_reached])
qed

lemma demo_ready_fields:
  "collecting 0 [] demo_ready" "all_malloc demo_ready" "queue_free demo_ready" "g_at_msg_queue demo_ready = []"
  "g_at_cmd_list demo_ready = [[demo_entry]]" "handler_ans demo_ready (handler_n demo_ready) = ([''+X:1''], AT_RET_OK)"
  "at_log demo_ready = []"
  by (simp_all add: demo_ready_def demo_start_eq demo_zero_def uapi_at_cmd_table_register_def at_cmd_table_add_def at_malloc_def
      collecting_def AT_MAX_PORT_NUMBER_def chan_def chan_bytes_def all_malloc_def at_ready_def queue_free_def)

theorem set_command_reaches_handler_witness:
  "\<exists>args. at_log (msg_main_turn (recv_all 0 [''AT+x'', ''=-5,a'' @ [CHR 0x5C, CHR '','', CHR ''b'', CHR 0x0D]] demo_ready))
      = [AtCall 7 AT_CMD_TYPE_SET (Some args), AtWrite 0 ''+X:1'', AtWrite 0 AT_RESPONSE_OK]
    \<and> sint (arg_words args 4) = - 5 \<and> arg_ptrs args 8 = Some ''A,B''"
proof -
  have up: "upper_char CHR ''x'' = CHR ''X''" "upper_char CHR ''a'' = CHR ''A''" "upper_char CHR ''b'' = CHR ''B''"
    "upper_char CHR '','' = CHR '',''" by code_simp+
  let ?chunks = "[''AT+x'', ''=-5,a'' @ [CHR 0x5C, CHR '','', CHR ''b'', CHR 0x0D]]"
  let ?vs = "[IntValue (- 5), TextValue ''a,b'']"
  have tx: "joined CHR '','' (map value_text ?vs) = ''-5,a'' @ [CHR 0x5C, CHR '','', CHR ''b'']"
    by (simp add: fmt_d_def fmt_u_def digits_base_small digit_char_def escape_char_def)
  have p: "in_pieces ?chunks (toks_text demo_toks)"
    unfolding in_pieces_def
    by (intro exI [of _ "[''AT+x'']"] exI [of _ "''=-5,a'' @ [CHR 0x5C, CHR '','', CHR ''b'', CHR 0x0D]"] exI [of _ "CHR ''A''"]
          exI [of _ "CHR ''T''"] exI [of _ "CHR 0x0D"] exI [of _ "[]"])
      (simp add: demo_toks_def is_a_def is_t_def line_end_def AT_CMD_MAX_LENGTH_def)
  have t: "\<forall>t \<in> set demo_toks. tok_ok CHR '';'' t" "\<forall>c \<in> set (toks_text demo_toks). \<not> line_end c"
    by (simp_all add: demo_toks_def NUL_def line_end_def)
  have opt: "has_attr (demo_row\<lparr>syn_type := x, syn_last := y, attribute := AT_SYNTAX_ATTR_OPTIONAL, offset := z\<rparr>) a
      = (AT_SYNTAX_ATTR_OPTIONAL AND a \<noteq> 0)" "has_attr demo_row a = (0 AND a \<noteq> 0)" for x y z a
    by (simp_all add: has_attr_def demo_row_def)
  have fits: "values_fit demo_rows ?vs"
    by (simp add: demo_rows_def opt NUL_def AT_SYNTAX_ATTR_OPTIONAL_def AT_SYNTAX_ATTR_LIST_VALUE_def
        AT_SYNTAX_ATTR_MAX_LENGTH_def) (simp add: demo_row_def has_attr_def)
  have r: "set_request demo_ready (concat (map cmd_text demo_toks)) demo_entry demo_rows ?vs"
    unfolding set_request_def tx
    by (intro exI [of _ "CHR ''+''"] exI [of _ "''x''"] conjI)
      (use fits in \<open>simp_all add: demo_toks_def name_char_def demo_ready_fields(5) demo_entry_def up\<close>)
  have lay: "layout_ok demo_rows" "length demo_rows \<le> 32"
    by (simp_all add: layout_ok_def demo_rows_def demo_row_def word_fields_def ptr_fields_def ptr_row_def)
  note f = demo_ready_fields
  obtain args where "at_log (msg_main_turn (recv_all 0 ?chunks demo_ready)) = at_log demo_ready
      @ AtCall (entry_cmd_id demo_entry) AT_CMD_TYPE_SET (Some args) # map (AtWrite 0) [''+X:1'']
      @ [AtWrite 0 (if AT_RET_OK = AT_RET_OK then AT_RESPONSE_OK else AT_RESPONSE_ERROR)]"
    and hold: "\<forall>k < length demo_rows. holds args (demo_rows ! k) (if k < length ?vs then ?vs ! k else Absent)"
    using set_command_reaches_handler [OF demo_ready_reached f(1-4) p t r lay f(6)] by blast
  moreover have "holds args (demo_rows ! 0) (IntValue (- 5))" "holds args (demo_rows ! 1) (TextValue ''a,b'')"
    using hold by (auto simp: demo_rows_def)
  ultimately show ?thesis
    by (intro exI [of _ args])
      (simp add: f(7) demo_entry_def demo_rows_def demo_row_def row_text_def has_attr_def AT_SYNTAX_ATTR_OPTIONAL_def
        AT_SYNTAX_ATTR_FIX_CASE_def up)
qed

end
