(* ===== verification/NvCrc.thy ===== *)
theory NvCrc
  imports Prelude
begin

text \<open>
  The checksum of the non-volatile storage, uapi_crc32.c: the reflected CRC-32 with a table of 256
  words. The routine reads single bytes up to a word boundary, then whole words, then the rest; the
  reference definition shifts one bit at a time. The two are equal wherever the buffer starts, a text
  may be checked in pieces, and a damage confined to four neighbouring bytes changes the checksum.
\<close>

section \<open>uapi_crc32.c\<close>

definition g_unf_crc32_tab :: "u32 list" where
  "g_unf_crc32_tab =
    [0x00000000, 0x77073096, 0xee0e612c, 0x990951ba, 0x076dc419, 0x706af48f,
     0xe963a535, 0x9e6495a3, 0x0edb8832, 0x79dcb8a4, 0xe0d5e91e, 0x97d2d988,
     0x09b64c2b, 0x7eb17cbd, 0xe7b82d07, 0x90bf1d91, 0x1db71064, 0x6ab020f2,
     0xf3b97148, 0x84be41de, 0x1adad47d, 0x6ddde4eb, 0xf4d4b551, 0x83d385c7,
     0x136c9856, 0x646ba8c0, 0xfd62f97a, 0x8a65c9ec, 0x14015c4f, 0x63066cd9,
     0xfa0f3d63, 0x8d080df5, 0x3b6e20c8, 0x4c69105e, 0xd56041e4, 0xa2677172,
     0x3c03e4d1, 0x4b04d447, 0xd20d85fd, 0xa50ab56b, 0x35b5a8fa, 0x42b2986c,
     0xdbbbc9d6, 0xacbcf940, 0x32d86ce3, 0x45df5c75, 0xdcd60dcf, 0xabd13d59,
     0x26d930ac, 0x51de003a, 0xc8d75180, 0xbfd06116, 0x21b4f4b5, 0x56b3c423,
     0xcfba9599, 0xb8bda50f, 0x2802b89e, 0x5f058808, 0xc60cd9b2, 0xb10be924,
     0x2f6f7c87, 0x58684c11, 0xc1611dab, 0xb6662d3d, 0x76dc4190, 0x01db7106,
     0x98d220bc, 0xefd5102a, 0x71b18589, 0x06b6b51f, 0x9fbfe4a5, 0xe8b8d433,
     0x7807c9a2, 0x0f00f934, 0x9609a88e, 0xe10e9818, 0x7f6a0dbb, 0x086d3d2d,
     0x91646c97, 0xe6635c01, 0x6b6b51f4, 0x1c6c6162, 0x856530d8, 0xf262004e,
     0x6c0695ed, 0x1b01a57b, 0x8208f4c1, 0xf50fc457, 0x65b0d9c6, 0x12b7e950,
     0x8bbeb8ea, 0xfcb9887c, 0x62dd1ddf, 0x15da2d49, 0x8cd37cf3, 0xfbd44c65,
     0x4db26158, 0x3ab551ce, 0xa3bc0074, 0xd4bb30e2, 0x4adfa541, 0x3dd895d7,
     0xa4d1c46d, 0xd3d6f4fb, 0x4369e96a, 0x346ed9fc, 0xad678846, 0xda60b8d0,
     0x44042d73, 0x33031de5, 0xaa0a4c5f, 0xdd0d7cc9, 0x5005713c, 0x270241aa,
     0xbe0b1010, 0xc90c2086, 0x5768b525, 0x206f85b3, 0xb966d409, 0xce61e49f,
     0x5edef90e, 0x29d9c998, 0xb0d09822, 0xc7d7a8b4, 0x59b33d17, 0x2eb40d81,
     0xb7bd5c3b, 0xc0ba6cad, 0xedb88320, 0x9abfb3b6, 0x03b6e20c, 0x74b1d29a,
     0xead54739, 0x9dd277af, 0x04db2615, 0x73dc1683, 0xe3630b12, 0x94643b84,
     0x0d6d6a3e, 0x7a6a5aa8, 0xe40ecf0b, 0x9309ff9d, 0x0a00ae27, 0x7d079eb1,
     0xf00f9344, 0x8708a3d2, 0x1e01f268, 0x6906c2fe, 0xf762575d, 0x806567cb,
     0x196c3671, 0x6e6b06e7, 0xfed41b76, 0x89d32be0, 0x10da7a5a, 0x67dd4acc,
     0xf9b9df6f, 0x8ebeeff9, 0x17b7be43, 0x60b08ed5, 0xd6d6a3e8, 0xa1d1937e,
     0x38d8c2c4, 0x4fdff252, 0xd1bb67f1, 0xa6bc5767, 0x3fb506dd, 0x48b2364b,
     0xd80d2bda, 0xaf0a1b4c, 0x36034af6, 0x41047a60, 0xdf60efc3, 0xa867df55,
     0x316e8eef, 0x4669be79, 0xcb61b38c, 0xbc66831a, 0x256fd2a0, 0x5268e236,
     0xcc0c7795, 0xbb0b4703, 0x220216b9, 0x5505262f, 0xc5ba3bbe, 0xb2bd0b28,
     0x2bb45a92, 0x5cb36a04, 0xc2d7ffa7, 0xb5d0cf31, 0x2cd99e8b, 0x5bdeae1d,
     0x9b64c2b0, 0xec63f226, 0x756aa39c, 0x026d930a, 0x9c0906a9, 0xeb0e363f,
     0x72076785, 0x05005713, 0x95bf4a82, 0xe2b87a14, 0x7bb12bae, 0x0cb61b38,
     0x92d28e9b, 0xe5d5be0d, 0x7cdcefb7, 0x0bdbdf21, 0x86d3d2d4, 0xf1d4e242,
     0x68ddb3f8, 0x1fda836e, 0x81be16cd, 0xf6b9265b, 0x6fb077e1, 0x18b74777,
     0x88085ae6, 0xff0f6a70, 0x66063bca, 0x11010b5c, 0x8f659eff, 0xf862ae69,
     0x616bffd3, 0x166ccf45, 0xa00ae278, 0xd70dd2ee, 0x4e048354, 0x3903b3c2,
     0xa7672661, 0xd06016f7, 0x4969474d, 0x3e6e77db, 0xaed16a4a, 0xd9d65adc,
     0x40df0b66, 0x37d83bf0, 0xa9bcae53, 0xdebb9ec5, 0x47b2cf7f, 0x30b5ffe9,
     0xbdbdf21c, 0xcabac28a, 0x53b39330, 0x24b4a3a6, 0xbad03605, 0xcdd70693,
     0x54de5729, 0x23d967bf, 0xb3667a2e, 0xc4614ab8, 0x5d681b02, 0x2a6f2b94,
     0xb40bbe37, 0xc30c8ea1, 0x5a05df1b, 0x2d02ef8d]"

definition crc32_tab_step :: "u32 \<Rightarrow> u32" where
  "crc32_tab_step crc = g_unf_crc32_tab ! unat (crc AND 0xFF) XOR drop_bit 8 crc"

text \<open>Single bytes up to the next word boundary: \<open>p\<close> is the address of the first byte.\<close>

fun crc32_align_loop :: "u32 \<Rightarrow> u32 \<Rightarrow> u8 list \<Rightarrow> u32 \<times> u8 list" where
  "crc32_align_loop crc p [] = (crc, [])"
| "crc32_align_loop crc p (b # bs) =
     (let crc = crc32_tab_step (crc XOR ucast b)
      in if bs \<noteq> [] \<and> (p + 1) AND 3 \<noteq> 0 then crc32_align_loop crc (p + 1) bs else (crc, bs))"

definition word_le :: "u8 \<Rightarrow> u8 \<Rightarrow> u8 \<Rightarrow> u8 \<Rightarrow> u32" where
  "word_le a b c d =
     ucast a OR push_bit 8 (ucast b) OR push_bit 16 (ucast c) OR push_bit 24 (ucast d)"

fun crc32_word_loop :: "u32 \<Rightarrow> u8 list \<Rightarrow> u32 \<times> u8 list" where
  "crc32_word_loop crc (a # b # c # d # bs) =
     crc32_word_loop
       (crc32_tab_step (crc32_tab_step (crc32_tab_step (crc32_tab_step (crc XOR word_le a b c d))))) bs"
| "crc32_word_loop crc bs = (crc, bs)"

fun crc32_rest_loop :: "u32 \<Rightarrow> u8 list \<Rightarrow> u32" where
  "crc32_rest_loop crc [] = crc"
| "crc32_rest_loop crc (b # bs) = crc32_rest_loop (crc32_tab_step (crc XOR ucast b)) bs"

text \<open>A null buffer is \<open>None\<close>; the length is that of the list, and \<open>addr\<close> the address of the buffer.\<close>

definition uapi_crc32_no_comp :: "u32 \<Rightarrow> u32 \<Rightarrow> u8 list option \<Rightarrow> u32" where
  "uapi_crc32_no_comp crc_start addr buffer =
     (case buffer of None \<Rightarrow> crc_start
      | Some bs \<Rightarrow>
          let (crc, buf) = (if addr AND 3 \<noteq> 0 \<and> bs \<noteq> [] then crc32_align_loop crc_start addr bs else (crc_start, bs));
              (crc, buf) = crc32_word_loop crc buf
          in crc32_rest_loop crc buf)"

definition uapi_crc32 :: "u32 \<Rightarrow> u32 \<Rightarrow> u8 list option \<Rightarrow> u32" where
  "uapi_crc32 crc_start addr buffer =
     uapi_crc32_no_comp (crc_start XOR 0xFFFFFFFF) addr buffer XOR 0xFFFFFFFF"

section \<open>Bit by bit\<close>

definition crc32_shift :: "u32 \<Rightarrow> u32" where
  "crc32_shift c = (if bit c 0 then drop_bit 1 c XOR 0xEDB88320 else drop_bit 1 c)"

definition crc32_byte :: "u32 \<Rightarrow> u8 \<Rightarrow> u32" where
  "crc32_byte c b = (crc32_shift ^^ 8) (c XOR ucast b)"

lemma crc32_shift_0 [simp]: "crc32_shift 0 = 0"
  by (simp add: crc32_shift_def)

lemma crc32_shift_xor: "crc32_shift (x XOR y) = crc32_shift x XOR crc32_shift y"
  by (cases "bit x 0"; cases "bit y 0")
    (auto simp: crc32_shift_def bit_xor_iff xor.assoc xor.left_commute xor.commute)

lemma crc32_shifts_xor: "(crc32_shift ^^ n) (x XOR y) = (crc32_shift ^^ n) x XOR (crc32_shift ^^ n) y"
  by (induction n) (auto simp: crc32_shift_xor)

lemma crc32_shift_eq_0: "crc32_shift x = 0 \<Longrightarrow> x = 0"
proof -
  assume a: "crc32_shift x = 0"
  have "bit (0xEDB88320 :: u32) 31" by simp
  moreover have "\<not> bit x 32" by (auto dest: bit_imp_le_length)
  ultimately have "bit (crc32_shift x) 31 = bit x 0"
    by (simp add: crc32_shift_def bit_xor_iff bit_drop_bit_eq)
  then have h: "\<not> bit x 0" using a by simp
  then have p: "drop_bit 1 x = 0" using a by (simp add: crc32_shift_def)
  show "x = 0"
  proof (rule bit_word_eqI)
    fix n assume "n < LENGTH(32)"
    have "bit x (Suc m) = bit (drop_bit 1 x) m" for m by (simp add: bit_drop_bit_eq)
    then show "bit x n = bit 0 n" using h p by (cases n) auto
  qed
qed

lemma crc32_shifts_eq_0: "(crc32_shift ^^ n) x = 0 \<Longrightarrow> x = 0"
  by (induction n) (auto dest: crc32_shift_eq_0)

lemma crc32_shifts_inj: "(crc32_shift ^^ n) x = (crc32_shift ^^ n) y \<longleftrightarrow> x = y"
  using crc32_shifts_eq_0 [of n "x XOR y"] by (auto simp: crc32_shifts_xor xor_self_eq_0)

lemma crc32_shift_even: "\<not> bit x 0 \<Longrightarrow> crc32_shift x = drop_bit 1 x"
  by (simp add: crc32_shift_def)

lemma crc32_shifts_low_zero:
  "(\<And>i. i < n \<Longrightarrow> \<not> bit x i) \<Longrightarrow> (crc32_shift ^^ n) x = drop_bit n x"
proof (induction n)
  case (Suc n)
  have "(crc32_shift ^^ n) x = drop_bit n x" using Suc.prems by (intro Suc.IH) simp
  moreover have "\<not> bit (drop_bit n x) 0" using Suc.prems [of n] by (simp add: bit_drop_bit_eq)
  ultimately show ?case by (simp add: crc32_shift_even)
qed simp

text \<open>
  The table is checked by halving: entry \<open>i\<close> is entry \<open>2 i\<close> shifted once more, entry \<open>2 i + 1\<close> differs
  from entry \<open>2 i\<close> by entry 1.
\<close>

fun halves :: "u32 list \<Rightarrow> u32 list \<Rightarrow> bool" where
  "halves (x # xs) (a # b # r) = (x = crc32_shift a \<and> b = a XOR 0x77073096 \<and> halves xs r)"
| "halves [] r = (r = [])"
| "halves _ _ = False"

lemma length_crc32_tab [simp]: "length g_unf_crc32_tab = 256"
  by (simp add: g_unf_crc32_tab_def)

lemma crc32_tab_halves: "halves (take 128 g_unf_crc32_tab) g_unf_crc32_tab"
  by (simp add: g_unf_crc32_tab_def crc32_shift_def)

lemma halves_nth:
  "halves xs r \<Longrightarrow> i < length xs \<Longrightarrow>
     xs ! i = crc32_shift (r ! (2 * i)) \<and> r ! Suc (2 * i) = r ! (2 * i) XOR 0x77073096"
proof (induction xs r arbitrary: i rule: halves.induct)
  case (1 x xs a b r)
  then show ?case by (cases i) auto
qed auto

lemma crc32_tab_nth: "i < 256 \<Longrightarrow> g_unf_crc32_tab ! i = (crc32_shift ^^ 8) (of_nat i)"
proof (induction i rule: less_induct)
  case (less i)
  have one: "(crc32_shift ^^ 8) 1 = 0x77073096"
    by (simp add: funpow8 crc32_shift_def)
  show ?case
  proof (cases "i = 0")
    case True
    then show ?thesis by (simp add: g_unf_crc32_tab_def funpow8)
  next
    case False
    define j where "j = i div 2"
    have j: "j < i" "j < 128" using False less.prems by (auto simp: j_def)
    have dbl: "crc32_shift (of_nat (2 * j)) = of_nat j"
    proof -
      have "drop_bit 1 (of_nat (2 * j) :: u32) = of_nat j"
        using j by (intro word_unat_eq_iff [THEN iffD2]) (simp add: drop_bit_eq_div unat_div unat_word_ariths unat_of_nat)
      then show ?thesis by (simp add: crc32_shift_even bit_0)
    qed
    have "crc32_shift (g_unf_crc32_tab ! (2 * j)) = (crc32_shift ^^ 8) (crc32_shift (of_nat (2 * j)))"
      using halves_nth [OF crc32_tab_halves, of j] less.IH [of j] j dbl by simp
    then have e: "g_unf_crc32_tab ! (2 * j) = (crc32_shift ^^ 8) (of_nat (2 * j))"
      using crc32_shifts_inj [of 1] by (simp add: funpow_swap1 [symmetric])
    have o: "g_unf_crc32_tab ! Suc (2 * j) = g_unf_crc32_tab ! (2 * j) XOR 0x77073096"
      using halves_nth [OF crc32_tab_halves, of j] j by simp
    have odd: "(of_nat (Suc (2 * j)) :: u32) = of_nat (2 * j) XOR 1"
      by (simp add: even_xor_iff xor_one_eq)
    show ?thesis
    proof (cases "even i")
      case True
      then have "i = 2 * j" by (simp add: j_def)
      then show ?thesis using e by simp
    next
      case False
      then have "i = Suc (2 * j)" by (simp add: j_def)
      then show ?thesis using e o odd one by (simp only: crc32_shifts_xor)
    qed
  qed
qed

lemma crc32_tab_step_bits: "crc32_tab_step x = (crc32_shift ^^ 8) x"
proof -
  have lt: "unat (x AND 0xFF) < 256"
  proof -
    have "x AND 0xFF < 2 ^ 8"
      by (rule word_less_pow2I) (auto simp: bit_and_iff u32_FF_mask bit_mask_iff)
    then show ?thesis by (simp add: word_less_nat_alt)
  qed
  have s: "x = (x AND 0xFF) XOR push_bit 8 (drop_bit 8 x)"
    by (rule bit_word_eqI)
      (auto simp: u32_FF_mask bit_xor_iff bit_and_iff bit_mask_iff bit_push_bit_iff bit_drop_bit_eq)
  have "(crc32_shift ^^ 8) (push_bit 8 (drop_bit 8 x)) = drop_bit 8 (push_bit 8 (drop_bit 8 x))"
    by (rule crc32_shifts_low_zero) (simp add: bit_push_bit_iff)
  also have "\<dots> = drop_bit 8 x"
    by (rule bit_word_eqI) (auto simp: bit_push_bit_iff bit_drop_bit_eq dest: bit_imp_le_length)
  finally have "(crc32_shift ^^ 8) x = (crc32_shift ^^ 8) (x AND 0xFF) XOR drop_bit 8 x"
    by (subst s) (simp only: crc32_shifts_xor)
  with lt show ?thesis by (simp add: crc32_tab_step_def crc32_tab_nth)
qed

lemma crc32_tab_step_byte: "crc32_tab_step (c XOR ucast b) = crc32_byte c b"
  by (simp add: crc32_tab_step_bits crc32_byte_def)

lemma crc32_four_bytes:
  "crc32_tab_step (crc32_tab_step (crc32_tab_step (crc32_tab_step (c XOR word_le a b d e))))
   = foldl crc32_byte c [a, b, d, e]"
proof -
  have w: "word_le a b d e = ucast a XOR push_bit 8 (ucast b) XOR push_bit 16 (ucast d) XOR push_bit 24 (ucast e)"
    by (rule bit_word_eqI)
      (auto simp: word_le_def bit_or_iff bit_xor_iff bit_push_bit_iff bit_ucast_iff dest: bit_imp_le_length)
  have sh: "(crc32_shift ^^ 8) (push_bit (n + 8) (ucast (x :: u8))) = push_bit n (ucast x)" if "n \<le> 16" for n x
  proof -
    have "(crc32_shift ^^ 8) (push_bit (n + 8) (ucast x)) = drop_bit 8 (push_bit (n + 8) (ucast x :: u32))"
      by (rule crc32_shifts_low_zero) (simp add: bit_push_bit_iff)
    also have "\<dots> = push_bit n (ucast x)" using that
      by (intro bit_word_eqI) (auto simp: bit_push_bit_iff bit_drop_bit_eq bit_ucast_iff dest: bit_imp_le_length)
    finally show ?thesis .
  qed
  have e: "(crc32_shift ^^ 8) (push_bit 8 (ucast (x :: u8))) = ucast x"
      "(crc32_shift ^^ 8) (push_bit 16 (ucast (x :: u8))) = push_bit 8 (ucast x)"
      "(crc32_shift ^^ 8) (push_bit 24 (ucast (x :: u8))) = push_bit 16 (ucast x)" for x
    using sh [of 0 x] sh [of 8 x] sh [of 16 x] by simp_all
  show ?thesis
    by (simp add: w crc32_tab_step_bits crc32_byte_def crc32_shifts_xor e xor.assoc xor.left_commute)
qed

lemma crc32_rest_loop_bytes: "crc32_rest_loop c bs = foldl crc32_byte c bs"
  by (induction c bs rule: crc32_rest_loop.induct) (auto simp: crc32_tab_step_byte)

lemma crc32_word_loop_bytes:
  "crc32_word_loop c bs = (c', r) \<Longrightarrow> foldl crc32_byte c' r = foldl crc32_byte c bs"
  by (induction c bs rule: crc32_word_loop.induct) (auto simp: crc32_four_bytes)

lemma crc32_align_loop_bytes:
  "crc32_align_loop c p bs = (c', r) \<Longrightarrow> foldl crc32_byte c' r = foldl crc32_byte c bs"
  by (induction c p bs rule: crc32_align_loop.induct)
    (auto simp: crc32_tab_step_byte Let_def split: if_splits)

lemma crc32_no_comp_bytes:
  "uapi_crc32_no_comp c addr (Some bs) = foldl crc32_byte c bs"
  by (auto simp: uapi_crc32_no_comp_def crc32_rest_loop_bytes
      dest!: crc32_word_loop_bytes crc32_align_loop_bytes split: prod.splits)

lemma crc32_bytes:
  "uapi_crc32 c addr (Some bs) = foldl crc32_byte (c XOR 0xFFFFFFFF) bs XOR 0xFFFFFFFF"
  by (simp add: uapi_crc32_def crc32_no_comp_bytes)

text \<open>A text may be checked in pieces, each piece wherever its buffer lies.\<close>

lemma crc32_chunks:
  "uapi_crc32 (uapi_crc32 c x (Some bs)) y (Some cs) = uapi_crc32 c z (Some (bs @ cs))"
  by (simp add: crc32_bytes xor.assoc)

lemma crc32_none: "uapi_crc32 c x (Some []) = c"
  by (simp add: crc32_bytes xor.assoc)

lemma crc32_byte_inj_state: "crc32_byte c b = crc32_byte c' b \<longleftrightarrow> c = c'"
  by (simp add: crc32_byte_def crc32_shifts_inj xor_cancel_right)

lemma foldl_crc32_byte_inj: "foldl crc32_byte c bs = foldl crc32_byte c' bs \<longleftrightarrow> c = c'"
  by (induction bs arbitrary: c c') (auto simp: crc32_byte_inj_state)

lemma word_le_inj:
  "word_le a b d e = word_le a' b' d' e' \<longleftrightarrow> a = a' \<and> b = b' \<and> d = d' \<and> e = e'"
proof
  assume w: "word_le a b d e = word_le a' b' d' e'"
  have "ucast (word_le a b d e) = a" "ucast (drop_bit 8 (word_le a b d e)) = b"
    "ucast (drop_bit 16 (word_le a b d e)) = d" "ucast (drop_bit 24 (word_le a b d e)) = e" for a b d e
    by (rule bit_word_eqI;
        auto simp: word_le_def bit_or_iff bit_push_bit_iff bit_drop_bit_eq bit_ucast_iff dest: bit_imp_le_length)+
  from this [of a b d e] this [of a' b' d' e'] w
  show "a = a' \<and> b = b' \<and> d = d' \<and> e = e'" by simp
qed simp

lemma crc32_window4:
  assumes "length a = 4" and "length a' = 4" and "foldl crc32_byte c a = foldl crc32_byte c a'"
  shows "a = a'"
proof -
  obtain p q r s where a: "a = [p, q, r, s]"
    using assms(1) by (auto simp: numeral_eq_Suc length_Suc_conv)
  obtain p' q' r' s' where a': "a' = [p', q', r', s']"
    using assms(2) by (auto simp: numeral_eq_Suc length_Suc_conv)
  have "word_le p q r s = word_le p' q' r' s'"
    using assms(3) unfolding a a' crc32_four_bytes [symmetric] crc32_tab_step_bits crc32_shifts_inj
    by (simp add: xor_cancel_left)
  then show ?thesis by (simp add: a a' word_le_inj)
qed

lemma crc32_window:
  assumes "length a = length a'" and "length a \<le> 4" and "a \<noteq> a'"
  shows "uapi_crc32 s x (Some (p @ a @ q)) \<noteq> uapi_crc32 s y (Some (p @ a' @ q))"
proof
  let ?z = "replicate (4 - length a) 0 :: u8 list"
  assume "uapi_crc32 s x (Some (p @ a @ q)) = uapi_crc32 s y (Some (p @ a' @ q))"
  then have "foldl crc32_byte (foldl crc32_byte (s XOR 0xFFFFFFFF) p) (a @ ?z)
      = foldl crc32_byte (foldl crc32_byte (s XOR 0xFFFFFFFF) p) (a' @ ?z)"
    by (simp add: crc32_bytes xor_cancel_right foldl_crc32_byte_inj)
  then have "a @ ?z = a' @ ?z" by (rule crc32_window4 [rotated 2]) (use assms in auto)
  with assms(3) show False by simp
qed

text \<open>C40: The table-driven CRC-32 is the bitwise remainder of the reflected polynomial 0xEDB88320, at whatever
  address the buffer lies and in whatever pieces the text is given; and texts that differ within four neighbouring
  bytes have different checksums.
\<close>

theorem crc32_reference_and_burst:
  "uapi_crc32 c x (Some bs) = foldl crc32_byte (c XOR 0xFFFFFFFF) bs XOR 0xFFFFFFFF
   \<and> uapi_crc32 (uapi_crc32 c x (Some bs)) y (Some cs) = uapi_crc32 c z (Some (bs @ cs))
   \<and> (length a = length a' \<and> length a \<le> 4 \<and> a \<noteq> a' \<longrightarrow>
        uapi_crc32 c x (Some (p @ a @ q)) \<noteq> uapi_crc32 c y (Some (p @ a' @ q)))"
  using crc32_bytes [of c x bs] crc32_chunks [of c x bs y cs z] crc32_window [of a a' c x p q y] by blast

lemma crc32_reference_and_burst_witness:
  "uapi_crc32 0 0 (Some ([1] @ [2, 3] @ [4])) \<noteq> uapi_crc32 0 0 (Some ([1] @ [2, 4] @ [4]))"
  using crc32_reference_and_burst [of 0 0 "[]" 0 "[]" 0 "[2, 3]" "[2, 4]" "[1]" "[4]"] by simp

end
