(* ===== verification/NvFlash.thy ===== *)
theory NvFlash
  imports NvCrc
begin

text \<open>
  The flash and the heap under the non-volatile storage: nv_flash.c and the flash helpers at the top of
  nv_key.c. The flash controller driver (\<open>uapi_sfc_reg_*\<close>) and the heap are oracles: streams of answers,
  one taken by every call. The flash itself is the contract of NOR memory: programming clears bits and
  never sets one, an erase sets all bits of its area; a failing program call has written the first bytes
  of its data, as many as the answer says, which also describes a loss of power during the call.
\<close>

section \<open>The world under the storage\<close>

record nv_world =
  nv_flash :: "u32 \<Rightarrow> u8"
  sfc_rd :: "nat \<Rightarrow> u32"
  sfc_wr :: "nat \<Rightarrow> u32 \<times> nat"
  sfc_er :: "nat \<Rightarrow> u32 \<times> (u32 \<Rightarrow> u8)"
  nv_heap :: "nat \<Rightarrow> bool"

text \<open>The bytes of an area, and the memory after programming bytes from an address on.\<close>

definition flash_bytes :: "(u32 \<Rightarrow> u8) \<Rightarrow> u32 \<Rightarrow> nat \<Rightarrow> u8 list" where
  "flash_bytes f a n = map (\<lambda>i. f (a + of_nat i)) [0..<n]"

definition flash_prog :: "u32 \<Rightarrow> u8 list \<Rightarrow> (u32 \<Rightarrow> u8) \<Rightarrow> u32 \<Rightarrow> u8" where
  "flash_prog a bs f = (\<lambda>x. if unat (x - a) < length bs then f x AND bs ! unat (x - a) else f x)"

definition flash_fill :: "u32 \<Rightarrow> u32 \<Rightarrow> (u32 \<Rightarrow> u8) \<Rightarrow> (u32 \<Rightarrow> u8) \<Rightarrow> u32 \<Rightarrow> u8" where
  "flash_fill a n g f = (\<lambda>x. if x - a < n then g x else f x)"

definition uapi_sfc_reg_read :: "u32 \<Rightarrow> u32 \<Rightarrow> 'a nv_world_scheme \<Rightarrow> u32 \<times> u8 list \<times> 'a nv_world_scheme" where
  "uapi_sfc_reg_read addr sz s =
     (let ret = sfc_rd s 0; s1 = s\<lparr>sfc_rd := (\<lambda>n. sfc_rd s (Suc n))\<rparr>
      in (ret, if ret = ERRCODE_SUCC then flash_bytes (nv_flash s) addr (unat sz) else [], s1))"

definition uapi_sfc_reg_write :: "u32 \<Rightarrow> u8 list \<Rightarrow> 'a nv_world_scheme \<Rightarrow> u32 \<times> 'a nv_world_scheme" where
  "uapi_sfc_reg_write addr bs s =
     (let (ret, k) = sfc_wr s 0; s1 = s\<lparr>sfc_wr := (\<lambda>n. sfc_wr s (Suc n))\<rparr>
      in (ret, s1\<lparr>nv_flash := flash_prog addr (if ret = ERRCODE_SUCC then bs else take k bs) (nv_flash s)\<rparr>))"

definition uapi_sfc_reg_erase :: "u32 \<Rightarrow> u32 \<Rightarrow> 'a nv_world_scheme \<Rightarrow> u32 \<times> 'a nv_world_scheme" where
  "uapi_sfc_reg_erase addr sz s =
     (let (ret, g) = sfc_er s 0; s1 = s\<lparr>sfc_er := (\<lambda>n. sfc_er s (Suc n))\<rparr>
      in (ret, s1\<lparr>nv_flash := flash_fill addr sz (if ret = ERRCODE_SUCC then (\<lambda>_. 0xFF) else g) (nv_flash s)\<rparr>))"

definition kv_malloc :: "'a nv_world_scheme \<Rightarrow> bool \<times> 'a nv_world_scheme" where
  "kv_malloc s = (nv_heap s 0, s\<lparr>nv_heap := (\<lambda>n. nv_heap s (Suc n))\<rparr>)"

section \<open>nv_flash.c\<close>

definition kv_flash_read :: "u32 \<Rightarrow> u32 \<Rightarrow> 'a nv_world_scheme \<Rightarrow> u32 \<times> u8 list \<times> 'a nv_world_scheme" where
  "kv_flash_read flash_offset read_size s =
     (let (ret, bs, s1) = uapi_sfc_reg_read flash_offset read_size s
      in if ret \<noteq> ERRCODE_SUCC then (ERRCODE_FAIL, [], s1) else (ERRCODE_SUCC, bs, s1))"

definition kv_flash_erase :: "u32 \<Rightarrow> u32 \<Rightarrow> 'a nv_world_scheme \<Rightarrow> u32 \<times> 'a nv_world_scheme" where
  "kv_flash_erase flash_addr sz s = uapi_sfc_reg_erase flash_addr sz s"

text \<open>The sign of \<open>memcmp\<close> becomes the error code: -1 or 1, here \<open>ERRCODE_FAIL\<close> for both.\<close>

definition kv_flash_write :: "u32 \<Rightarrow> u8 list \<Rightarrow> bool \<Rightarrow> 'a nv_world_scheme \<Rightarrow> u32 \<times> 'a nv_world_scheme" where
  "kv_flash_write flash_offset write_data do_erase s =
     (let (ret, s1) = (if do_erase then kv_flash_erase flash_offset (of_nat (length write_data)) s
                       else (ERRCODE_SUCC, s))
      in if ret \<noteq> ERRCODE_SUCC then (ret, s1)
         else let (ok, s2) = kv_malloc s1
              in if \<not> ok then (ERRCODE_MALLOC, s2)
                 else let (ret, s3) = uapi_sfc_reg_write flash_offset write_data s2
                      in if ret \<noteq> ERRCODE_SUCC then (ret, s3)
                         else let (ret, cmp_data, s4) =
                                    uapi_sfc_reg_read flash_offset (of_nat (length write_data)) s3
                              in if ret \<noteq> ERRCODE_SUCC then (ret, s4)
                                 else if cmp_data \<noteq> write_data then (ERRCODE_FAIL, s4)
                                 else (ERRCODE_SUCC, s4))"

section \<open>The flash helpers of nv_key.c\<close>

abbreviation (input) FLASH_PHYSICAL_ADDR_START :: u32 where "FLASH_PHYSICAL_ADDR_START \<equiv> 0x200000"
abbreviation (input) FLASH_PHYSICAL_ADDR_END :: u32 where "FLASH_PHYSICAL_ADDR_END \<equiv> 0xA00000"
abbreviation (input) KV_COPY_SIZE_ALIGN :: u16 where "KV_COPY_SIZE_ALIGN \<equiv> 32"
abbreviation (input) ERRCODE_NV_ZERO_LENGTH_COPY :: u32 where "ERRCODE_NV_ZERO_LENGTH_COPY \<equiv> 0x80003093"
abbreviation (input) ERRCODE_NV_READ_FLASH_ERR :: u32 where "ERRCODE_NV_READ_FLASH_ERR \<equiv> 0x80003095"
abbreviation (input) ERRCODE_FLASH_INVALID_PARAM_BEYOND_ADDR :: u32 where "ERRCODE_FLASH_INVALID_PARAM_BEYOND_ADDR \<equiv> 0x80003131"

definition buf_put :: "u8 list \<Rightarrow> nat \<Rightarrow> u8 list \<Rightarrow> u8 list" where
  "buf_put buf k bs = take k buf @ bs @ drop (k + length bs) buf"

text \<open>
  The destination is a buffer that is returned with the bytes read in place. \<open>length_rounded\<close> is a
  multiple of 32, so that its loop is run \<open>length_rounded div 32\<close> times.
\<close>

primrec copy_flash_loop ::
    "nat \<Rightarrow> u16 \<Rightarrow> u32 \<Rightarrow> u8 list \<Rightarrow> 'a nv_world_scheme \<Rightarrow> u32 \<times> u8 list \<times> 'a nv_world_scheme" where
  "copy_flash_loop 0 dest_offset src_addr buf s = (ERRCODE_SUCC, buf, s)"
| "copy_flash_loop (Suc n) dest_offset src_addr buf s =
     (let (ret, bs, s1) = kv_flash_read src_addr (ucast KV_COPY_SIZE_ALIGN) s
      in if ret \<noteq> ERRCODE_SUCC then (ERRCODE_NV_READ_FLASH_ERR, buf, s1)
         else copy_flash_loop n (dest_offset + KV_COPY_SIZE_ALIGN) (src_addr + ucast KV_COPY_SIZE_ALIGN)
                (buf_put buf (unat dest_offset) bs) s1)"

definition kv_key_helper_copy_flash ::
    "u8 list \<Rightarrow> u32 \<Rightarrow> u16 \<Rightarrow> 'a nv_world_scheme \<Rightarrow> u32 \<times> u8 list \<times> 'a nv_world_scheme" where
  "kv_key_helper_copy_flash buf src_location len s =
     (if len = 0 then (ERRCODE_NV_ZERO_LENGTH_COPY, buf, s)
      else
        let src_addr = src_location - FLASH_PHYSICAL_ADDR_START;
            length_rounded = len AND NOT (KV_COPY_SIZE_ALIGN - 1);
            length_remainder = len AND (KV_COPY_SIZE_ALIGN - 1);
            (ret, buf, s) = copy_flash_loop (unat length_rounded div 32) 0 src_addr buf s
        in if ret \<noteq> ERRCODE_SUCC then (ret, buf, s)
           else if 0 < length_remainder then
             let (ret, bs, s) = kv_flash_read (src_addr + ucast length_rounded) (ucast length_remainder) s
             in if ret \<noteq> ERRCODE_SUCC then (ERRCODE_NV_READ_FLASH_ERR, buf, s)
                else (ERRCODE_SUCC, buf_put buf (unat length_rounded) bs, s)
           else (ERRCODE_SUCC, buf, s))"

definition kv_key_direct_write_flash :: "u32 \<Rightarrow> u8 list \<Rightarrow> 'a nv_world_scheme \<Rightarrow> u32 \<times> 'a nv_world_scheme" where
  "kv_key_direct_write_flash dest src s =
     (if FLASH_PHYSICAL_ADDR_START \<le> dest \<and> dest + of_nat (length src) \<le> FLASH_PHYSICAL_ADDR_END then
        let (ret, s1) = kv_flash_write (dest - FLASH_PHYSICAL_ADDR_START) src False s
        in if ret \<noteq> ERRCODE_SUCC then (ERRCODE_NV_READ_FLASH_ERR, s1) else (ERRCODE_SUCC, s1)
      else (ERRCODE_FLASH_INVALID_PARAM_BEYOND_ADDR, s))"

definition kv_key_direct_erase_flash :: "u32 \<Rightarrow> u32 \<Rightarrow> 'a nv_world_scheme \<Rightarrow> u32 \<times> 'a nv_world_scheme" where
  "kv_key_direct_erase_flash dest sz s =
     (if FLASH_PHYSICAL_ADDR_START \<le> dest \<and> dest + sz \<le> FLASH_PHYSICAL_ADDR_END then
        let (ret, s1) = kv_flash_erase (dest - FLASH_PHYSICAL_ADDR_START) sz s
        in if ret \<noteq> ERRCODE_SUCC then (ERRCODE_FAIL, s1) else (ERRCODE_SUCC, s1)
      else (ERRCODE_FLASH_INVALID_PARAM_BEYOND_ADDR, s))"

definition kv_key_write_flash :: "u32 \<Rightarrow> u8 list \<Rightarrow> 'a nv_world_scheme \<Rightarrow> u32 \<times> 'a nv_world_scheme" where
  "kv_key_write_flash dest src s = kv_key_direct_write_flash dest src s"

definition kv_key_erase_flash :: "u32 \<Rightarrow> u32 \<Rightarrow> 'a nv_world_scheme \<Rightarrow> u32 \<times> 'a nv_world_scheme" where
  "kv_key_erase_flash dest sz s = kv_key_direct_erase_flash dest sz s"

section \<open>When reads and allocations succeed\<close>

text \<open>
  Under this condition the reading functions leave the state as it is, and their results are functions
  of the flash. The writes may fail as they like.
\<close>

definition nv_quiet :: "'a nv_world_scheme \<Rightarrow> bool" where
  "nv_quiet s \<longleftrightarrow> sfc_rd s = (\<lambda>_. ERRCODE_SUCC) \<and> nv_heap s = (\<lambda>_. True)"

named_theorems nv_quiet_simps \<open>what the reading functions return when nothing fails\<close>

lemma quiet_update [simp]:
  "nv_quiet (s\<lparr>nv_flash := f\<rparr>) = nv_quiet s"
  "nv_quiet (s\<lparr>sfc_wr := w\<rparr>) = nv_quiet s"
  "nv_quiet (s\<lparr>sfc_er := e\<rparr>) = nv_quiet s"
  by (simp_all add: nv_quiet_def)

lemma length_flash_bytes [simp]: "length (flash_bytes f a n) = n"
  by (simp add: flash_bytes_def)

lemma nth_flash_bytes: "i < n \<Longrightarrow> flash_bytes f a n ! i = f (a + of_nat i)"
  by (simp add: flash_bytes_def)

lemma flash_bytes_append: "flash_bytes f a (m + n) = flash_bytes f a m @ flash_bytes f (a + of_nat m) n"
  by (rule nth_equalityI) (auto simp: flash_bytes_def nth_append)

lemma flash_bytes_0 [simp]: "flash_bytes f a 0 = []"
  by (simp add: flash_bytes_def)

lemma sfc_read_quiet [nv_quiet_simps]:
  "nv_quiet s \<Longrightarrow> uapi_sfc_reg_read a n s = (ERRCODE_SUCC, flash_bytes (nv_flash s) a (unat n), s)"
  by (simp add: uapi_sfc_reg_read_def nv_quiet_def)

lemma kv_malloc_quiet [nv_quiet_simps]: "nv_quiet s \<Longrightarrow> kv_malloc s = (True, s)"
  by (simp add: kv_malloc_def nv_quiet_def)

lemma kv_flash_read_quiet [nv_quiet_simps]:
  "nv_quiet s \<Longrightarrow> kv_flash_read a n s = (ERRCODE_SUCC, flash_bytes (nv_flash s) a (unat n), s)"
  by (simp add: kv_flash_read_def nv_quiet_simps)

lemma copy_flash_loop_quiet:
  assumes "nv_quiet s"
  shows "unat d + 32 * n \<le> length buf \<Longrightarrow> unat d + 32 * n < 65536 \<Longrightarrow>
    copy_flash_loop n d a buf s
    = (ERRCODE_SUCC, buf_put buf (unat d) (flash_bytes (nv_flash s) a (32 * n)), s)"
proof (induction n arbitrary: d a buf)
  case 0
  then show ?case by (simp add: buf_put_def)
next
  case (Suc n)
  let ?f = "nv_flash s"
  have d: "unat (d + 32) = unat d + 32"
    using Suc.prems by (subst unat_add_lem [THEN iffD1]) auto
  have put: "buf_put (buf_put buf (unat d) (flash_bytes ?f a 32)) (unat d + 32) (flash_bytes ?f (a + 32) (32 * n))
      = buf_put buf (unat d) (flash_bytes ?f a (32 + 32 * n))"
    using Suc.prems by (simp add: buf_put_def flash_bytes_append [of _ _ 32] add.commute add.left_commute)
  have "unat (d + 32) + 32 * n \<le> length (buf_put buf (unat d) (flash_bytes ?f a 32))"
    "unat (d + 32) + 32 * n < 65536"
    using Suc.prems d by (simp_all add: buf_put_def)
  from Suc.IH [OF this] show ?case
    using assms by (simp add: nv_quiet_simps d put)
qed

lemma buf_put_0: "buf_put buf 0 bs = bs @ drop (length bs) buf"
  by (simp add: buf_put_def)

lemma unat_u16_round32: "unat ((len :: u16) AND - 32) = 32 * (unat len div 32)"
proof -
  have m: "(- 32 :: u16) = NOT (mask 5)" by (simp add: mask_eq_exp_minus_1)
  have "len AND NOT (mask 5) = push_bit 5 (drop_bit 5 len)"
    by (rule bit_word_eqI) (auto simp: bit_simps)
  then have "unat (len AND - 32) = 32 * (unat len div 32) mod 65536" unfolding m
    by (simp add: push_bit_eq_mult drop_bit_eq_div unat_word_ariths mult.commute mod_mult_right_eq)
  then show ?thesis using unat_u16_less [of len] by simp
qed

lemma unat_u16_rest32: "unat ((len :: u16) AND 31) = unat len mod 32"
proof -
  have "(31 :: u16) = mask 5" by (simp add: mask_eq_exp_minus_1)
  then have "len AND 31 = take_bit 5 len" by (simp add: take_bit_eq_mask)
  then have "unat (len AND 31) = take_bit 5 (unat len)" by (simp add: unsigned_take_bit_eq)
  then show ?thesis by (simp add: take_bit_eq_mod)
qed

lemma copy_flash_quiet [nv_quiet_simps]:
  assumes q: "nv_quiet s" and len: "len \<noteq> 0" "unat len \<le> length buf"
  shows "kv_key_helper_copy_flash buf src len s
    = (ERRCODE_SUCC, flash_bytes (nv_flash s) (src - 0x200000) (unat len) @ drop (unat len) buf, s)"
proof -
  let ?n = "unat len div 32" and ?r = "unat len mod 32" and ?f = "nv_flash s" and ?a = "src - 0x200000"
  have l: "unat len < 65536" by (rule unat_u16_less)
  then have n: "32 * ?n \<le> unat len" "32 * ?n + ?r = unat len" "32 * ?n < 65536" by auto
  have loop: "copy_flash_loop ?n 0 ?a buf s = (ERRCODE_SUCC, buf_put buf 0 (flash_bytes ?f ?a (32 * ?n)), s)"
    using copy_flash_loop_quiet [OF q, of 0 ?n buf ?a] n len l by simp
  have uc: "ucast (len AND - 32) = (of_nat (32 * ?n) :: u32)" "unat (ucast (len AND 31) :: u32) = ?r"
    by (metis of_nat_unat unat_u16_round32) (simp add: unat_ucast_u16_u32 unat_u16_rest32)
  have split: "flash_bytes ?f ?a (unat len)
      = flash_bytes ?f ?a (32 * ?n) @ flash_bytes ?f (?a + of_nat (32 * ?n)) ?r"
    using n(2) flash_bytes_append [of ?f ?a "32 * ?n" ?r] by simp
  have pos: "0 < len AND 31 \<longleftrightarrow> ?r \<noteq> 0"
    by (metis unat_u16_rest32 unat_0 unat_eq_zero word_gt_0)
  show ?thesis
  proof (cases "?r = 0")
    case True
    then have "32 * ?n = unat len" using n by simp
    with True loop pos show ?thesis
      using len by (simp add: kv_key_helper_copy_flash_def unat_u16_round32 buf_put_0)
  next
    case False
    have put: "buf_put (buf_put buf 0 (flash_bytes ?f ?a (32 * ?n))) (32 * ?n) (flash_bytes ?f (?a + of_nat (32 * ?n)) ?r)
        = flash_bytes ?f ?a (unat len) @ drop (unat len) buf"
      using len n(2) by (simp add: buf_put_def split)
    show ?thesis using loop q uc len pos False put
      by (simp add: kv_key_helper_copy_flash_def unat_u16_round32 nv_quiet_simps del: of_nat_mult)
  qed
qed

end
