(* ===== verification/NvKey.thy ===== *)
theory NvKey
  imports NvFlash "HOL-Library.Monad_Syntax"
begin

text \<open>
  The keys of the non-volatile storage, nv_key.c, in the configuration of this chip
  (nv_config.h: no encryption, no hash, corrupted keys are skipped). A key lies in a flash page as a
  header of 16 bytes, its data padded to a multiple of four and a CRC-32 of both, high byte first.
  A search walks from key to key by the lengths in their headers; where a header or its length cannot
  be trusted it looks for the next magic byte. The walk may run for ever on a damaged header, so that
  the functions that walk return an option: \<open>None\<close> means that the code does not return.
\<close>

section \<open>Data\<close>

abbreviation (input) KV_KEY_MAGIC :: u8 where "KV_KEY_MAGIC \<equiv> 0xA9"
abbreviation (input) KV_KEY_VALID :: u8 where "KV_KEY_VALID \<equiv> 0xFF"
abbreviation (input) KV_KEY_INVALID :: u8 where "KV_KEY_INVALID \<equiv> 0"
abbreviation (input) KV_KEY_NO_MAGIC :: u8 where "KV_KEY_NO_MAGIC \<equiv> 0xFF"
abbreviation (input) KV_KEY_TYPE_NORMAL :: u8 where "KV_KEY_TYPE_NORMAL \<equiv> 0xFF"
abbreviation (input) KV_KEY_TYPE_PERMANENT :: u8 where "KV_KEY_TYPE_PERMANENT \<equiv> 0"
abbreviation (input) KV_CRYPTO_HASH_SIZE :: u16 where "KV_CRYPTO_HASH_SIZE \<equiv> 32"
abbreviation (input) KV_CRYPTO_CRC_SIZE :: u16 where "KV_CRYPTO_CRC_SIZE \<equiv> 4"
abbreviation (input) AES_KDFKEY_SDRK_TYPE :: u16 where "AES_KDFKEY_SDRK_TYPE \<equiv> 0x52"
abbreviation (input) INVAILD_CRYPTO_HANDLE :: u32 where "INVAILD_CRYPTO_HANDLE \<equiv> 0xFFFFFFFF"
abbreviation (input) KV_KEY_FILTER_STATE_VALID :: u32 where "KV_KEY_FILTER_STATE_VALID \<equiv> 1"
abbreviation (input) KV_KEY_FILTER_STATE_INVALID :: u32 where "KV_KEY_FILTER_STATE_INVALID \<equiv> 2"
abbreviation (input) KV_KEY_FILTER_STATE_ANY :: u32 where "KV_KEY_FILTER_STATE_ANY \<equiv> 3"
abbreviation (input) KV_KEY_FILTER_TYPE_NORMAL :: u32 where "KV_KEY_FILTER_TYPE_NORMAL \<equiv> 1"
abbreviation (input) KV_KEY_FILTER_TYPE_PERMANENT :: u32 where "KV_KEY_FILTER_TYPE_PERMANENT \<equiv> 2"
abbreviation (input) KV_KEY_FILTER_TYPE_ANY :: u32 where "KV_KEY_FILTER_TYPE_ANY \<equiv> 3"
abbreviation (input) KV_ATTRIBUTE_PERMANENT :: u32 where "KV_ATTRIBUTE_PERMANENT \<equiv> 1"
abbreviation (input) KV_ATTRIBUTE_NON_UPGRADE :: u32 where "KV_ATTRIBUTE_NON_UPGRADE \<equiv> 4"
abbreviation (input) NV_NORMAL_KVALUE_MAX_LEN :: u16 where "NV_NORMAL_KVALUE_MAX_LEN \<equiv> 4060"
abbreviation (input) NV_KEY_DATA_CHUNK_LEN :: u32 where "NV_KEY_DATA_CHUNK_LEN \<equiv> 128"
abbreviation (input) KV_PAGE_SIZE :: u32 where "KV_PAGE_SIZE \<equiv> 4096"
abbreviation (input) KV_CLEARTEXT_PADDING_SIZE :: u32 where "KV_CLEARTEXT_PADDING_SIZE \<equiv> 4"
abbreviation (input) ERRCODE_NV_KEY_NOT_FOUND :: u32 where "ERRCODE_NV_KEY_NOT_FOUND \<equiv> 0x80003081"
abbreviation (input) ERRCODE_NV_DATA_MISMATCH :: u32 where "ERRCODE_NV_DATA_MISMATCH \<equiv> 0x80003096"
abbreviation (input) ERRCODE_NV_LENGTH_MISMATCH :: u32 where "ERRCODE_NV_LENGTH_MISMATCH \<equiv> 0x80003097"
abbreviation (input) ERRCODE_NV_INVALID_KEY_HEADER :: u32 where "ERRCODE_NV_INVALID_KEY_HEADER \<equiv> 0x80003100"
abbreviation (input) ERRCODE_NV_SEARCH_PATTERN_MISMATCH :: u32 where "ERRCODE_NV_SEARCH_PATTERN_MISMATCH \<equiv> 0x80003101"
abbreviation (input) ERRCODE_NV_SEARCH_KEY_TYPE_MISMATCH :: u32 where "ERRCODE_NV_SEARCH_KEY_TYPE_MISMATCH \<equiv> 0x80003102"
abbreviation (input) ERRCODE_NV_SEARCH_KEY_STATE_MISMATCH :: u32 where "ERRCODE_NV_SEARCH_KEY_STATE_MISMATCH \<equiv> 0x80003103"
abbreviation (input) ERRCODE_NV_HASH_MISMATCH :: u32 where "ERRCODE_NV_HASH_MISMATCH \<equiv> 0x80003104"

datatype kv_key_validate_status_t = KV_KEY_NOT_VALIDATE | KV_KEY_VALIDATE_CORRECT | KV_KEY_VALIDATE_WRONG

record kv_key_header_t =
  kh_magic :: u8
  kh_valid :: u8
  kh_length :: u16
  kh_type :: u8
  kh_upgrade :: u8
  kh_key_id :: u16
  kh_enc_key :: u16
  kh_version :: u16
  kh_rnd :: u32

record kv_key_handle_t =
  kk_header :: kv_key_header_t
  kk_location :: u32

record kv_key_filter_t =
  kf_location :: u32
  kf_pattern :: u16
  kf_mask :: u16
  kf_state :: u32
  kf_type :: u32

record kv_nvregion_area_t =
  nv_data_addr :: u32
  nv_data_size :: u32
  nv_backup_addr :: u32
  nv_backup_size :: u32

text \<open>\<open>nv_stack_key\<close> is what an uninitialised handle on the stack holds.\<close>

record kv_key_state = nv_world +
  g_nv_header_magic :: u8
  g_kv_nvregion_area :: kv_nvregion_area_t
  nv_stack_key :: kv_key_handle_t

text \<open>The header as the 16 bytes it is in memory and flash, low bytes first.\<close>

definition bytes16 :: "u16 \<Rightarrow> u8 list" where
  "bytes16 w = [ucast w, ucast (drop_bit 8 w)]"

definition bytes32 :: "u32 \<Rightarrow> u8 list" where
  "bytes32 w = [ucast w, ucast (drop_bit 8 w), ucast (drop_bit 16 w), ucast (drop_bit 24 w)]"

definition half_le :: "u8 \<Rightarrow> u8 \<Rightarrow> u16" where
  "half_le a b = ucast a OR push_bit 8 (ucast b)"

definition header_bytes :: "kv_key_header_t \<Rightarrow> u8 list" where
  "header_bytes h = [kh_magic h, kh_valid h] @ bytes16 (kh_length h) @ [kh_type h, kh_upgrade h]
     @ bytes16 (kh_key_id h) @ bytes16 (kh_enc_key h) @ bytes16 (kh_version h) @ bytes32 (kh_rnd h)"

definition bytes_header :: "u8 list \<Rightarrow> kv_key_header_t" where
  "bytes_header bs = \<lparr>kh_magic = bs ! 0, kh_valid = bs ! 1, kh_length = half_le (bs ! 2) (bs ! 3),
     kh_type = bs ! 4, kh_upgrade = bs ! 5, kh_key_id = half_le (bs ! 6) (bs ! 7),
     kh_enc_key = half_le (bs ! 8) (bs ! 9), kh_version = half_le (bs ! 10) (bs ! 11),
     kh_rnd = word_le (bs ! 12) (bs ! 13) (bs ! 14) (bs ! 15)\<rparr>"

section \<open>Reading the data of a key\<close>

text \<open>Without encryption every call has the invalid crypto handle.\<close>

definition kv_key_read_data_from_flash ::
    "u8 list \<Rightarrow> u32 \<Rightarrow> u32 \<Rightarrow> u32 \<Rightarrow> 'a nv_world_scheme \<Rightarrow> u32 \<times> u8 list \<times> 'a nv_world_scheme" where
  "kv_key_read_data_from_flash buf src len crypto_handle s =
     (if crypto_handle = INVAILD_CRYPTO_HANDLE then kv_key_helper_copy_flash buf src (ucast len) s
      else (ERRCODE_FAIL, buf, s))"

text \<open>The loop of \<open>kv_key_read_data\<close>: \<open>dest\<close> is the buffer at \<open>dest_location\<close>.\<close>

function read_data_loop ::
    "u32 \<Rightarrow> u32 \<Rightarrow> u32 \<Rightarrow> u8 list \<Rightarrow> 'a nv_world_scheme \<Rightarrow> u32 \<times> u8 list \<times> 'a nv_world_scheme" where
  "read_data_loop key_data_location key_data_offset decryptable_data_len dest s =
     (if key_data_offset < decryptable_data_len then
        let chunk_len = min NV_KEY_DATA_CHUNK_LEN (decryptable_data_len - key_data_offset);
            (res, bs, s1) = kv_key_read_data_from_flash (drop (unat key_data_offset) dest)
                              (key_data_location + key_data_offset) chunk_len INVAILD_CRYPTO_HANDLE s;
            dest = take (unat key_data_offset) dest @ bs
        in if res \<noteq> ERRCODE_SUCC then (res, dest, s1)
           else read_data_loop key_data_location (key_data_offset + chunk_len) decryptable_data_len dest s1
      else (ERRCODE_SUCC, dest, s))"
  by pat_completeness auto

lemma chunk_step:
  fixes a b n :: u32
  assumes "a < b" and "0 < n"
  shows "unat b - unat (a + min n (b - a)) < unat b - unat a"
    and "unat (a + min n (b - a)) = min (unat a + unat n) (unat b)"
proof -
  have ba: "unat (b - a) = unat b - unat a" using assms by (simp add: unat_sub)
  have m: "unat (min n (b - a)) = min (unat n) (unat b - unat a)"
    by (simp add: min_def word_le_nat_alt ba)
  have s: "unat (a + min n (b - a)) = unat a + unat (min n (b - a))"
    using assms unat_u32_less [of b] by (subst unat_add_lem [THEN iffD1]) (auto simp: m word_less_nat_alt)
  show "unat b - unat (a + min n (b - a)) < unat b - unat a"
    using assms by (simp add: s m word_less_nat_alt)
  show "unat (a + min n (b - a)) = min (unat a + unat n) (unat b)"
    using assms by (simp add: s m word_less_nat_alt)
qed

termination read_data_loop
  by (relation "measure (\<lambda>(loc, ofs, n, dest, s). unat n - unat ofs)") (auto simp: chunk_step(1))

declare read_data_loop.simps [simp del]

definition kv_key_read_data ::
    "kv_key_handle_t \<Rightarrow> u8 list \<Rightarrow> 'a nv_world_scheme \<Rightarrow> u32 \<times> u8 list \<times> 'a nv_world_scheme" where
  "kv_key_read_data key dest s =
     read_data_loop (kk_location key + 16) 0 (ucast (kh_length (kk_header key))) dest s"

text \<open>
  The new value is in RAM, at an address outside the range of the flash, so that the second buffer is
  not needed. The loop compares chunk after chunk.
\<close>

function compare_loop ::
    "kv_key_handle_t \<Rightarrow> u8 list \<Rightarrow> u32 \<Rightarrow> u8 list \<Rightarrow> 'a nv_world_scheme \<Rightarrow> u32 \<times> 'a nv_world_scheme" where
  "compare_loop key compare_data key_data_offset key_data_chunk s =
     (let len = ucast (kh_length (kk_header key)) :: u32
      in if key_data_offset < len then
        let chunk_len = min NV_KEY_DATA_CHUNK_LEN (len - key_data_offset);
            (res, key_data_chunk, s1) = kv_key_read_data_from_flash key_data_chunk
                (kk_location key + 16 + key_data_offset) chunk_len INVAILD_CRYPTO_HANDLE s
        in if res \<noteq> ERRCODE_SUCC then (res, s1)
           else if take (unat chunk_len) key_data_chunk
                     \<noteq> take (unat chunk_len) (drop (unat key_data_offset) compare_data)
           then (ERRCODE_NV_DATA_MISMATCH, s1)
           else compare_loop key compare_data (key_data_offset + chunk_len) key_data_chunk s1
      else (ERRCODE_SUCC, s))"
  by pat_completeness auto

termination
  by (relation "measure (\<lambda>(key, bs, ofs, chunk, s). unat (ucast (kh_length (kk_header key)) :: u32) - unat ofs)")
    (auto simp: chunk_step(1))

declare compare_loop.simps [simp del]

definition kv_helper_compare_key_data_chunks ::
    "kv_key_handle_t \<Rightarrow> u8 list \<Rightarrow> u8 list \<Rightarrow> 'a nv_world_scheme \<Rightarrow> u32 \<times> 'a nv_world_scheme" where
  "kv_helper_compare_key_data_chunks key compare_data key_data_chunk s =
     compare_loop key compare_data 0 key_data_chunk s"

definition kv_helper_compare_key_data ::
    "kv_key_handle_t \<Rightarrow> u8 list \<Rightarrow> u16 \<Rightarrow> 'a nv_world_scheme \<Rightarrow> u32 \<times> 'a nv_world_scheme" where
  "kv_helper_compare_key_data key compare_data compare_length s =
     (if kh_length (kk_header key) \<noteq> compare_length then (ERRCODE_NV_LENGTH_MISMATCH, s)
      else
        let (ok, s) = kv_malloc s
        in if \<not> ok then (ERRCODE_MALLOC, s)
           else kv_helper_compare_key_data_chunks key compare_data
                  (replicate (unat NV_KEY_DATA_CHUNK_LEN) 0) s)"

section \<open>Sizes and attributes\<close>

definition kv_padded_length :: "u16 \<Rightarrow> u32 \<Rightarrow> u32" where
  "kv_padded_length d sz = (ucast d + (sz - 1)) AND NOT (sz - 1)"

definition kv_key_padded_data_length :: "u32 \<Rightarrow> u16 \<Rightarrow> u16" where
  "kv_key_padded_data_length attributes unpadded_length =
     ucast (kv_padded_length unpadded_length KV_CLEARTEXT_PADDING_SIZE)"

definition kv_key_attributes :: "kv_key_handle_t \<Rightarrow> u32" where
  "kv_key_attributes key =
     (if kh_type (kk_header key) \<noteq> KV_KEY_TYPE_NORMAL then KV_ATTRIBUTE_PERMANENT else 0)
     OR (if kh_upgrade (kk_header key) \<noteq> KV_KEY_TYPE_NORMAL then KV_ATTRIBUTE_NON_UPGRADE else 0)"

definition kv_key_flash_size :: "kv_key_handle_t \<Rightarrow> u16" where
  "kv_key_flash_size key =
     16 + KV_CRYPTO_CRC_SIZE + kv_key_padded_data_length (kv_key_attributes key) (kh_length (kk_header key))"

definition kv_crc32_swap :: "u32 \<Rightarrow> u32" where
  "kv_crc32_swap crc = drop_bit 24 crc OR (drop_bit 8 crc AND 0xFF00)
     OR (push_bit 8 crc AND 0xFF0000) OR push_bit 24 crc"

definition kv_key_is_erased :: "kv_key_handle_t \<Rightarrow> 'a kv_key_state_scheme \<Rightarrow> bool" where
  "kv_key_is_erased key s \<longleftrightarrow>
     kh_magic (kk_header key) \<noteq> g_nv_header_magic s \<or> kh_valid (kk_header key) \<noteq> KV_KEY_VALID
     \<or> kh_length (kk_header key) = 0xFFFF \<or> kh_length (kk_header key) = 0"

section \<open>Checking a key\<close>

text \<open>
  \<open>chunk\<close> is the buffer \<open>read_data_chunk\<close>. A key that was marked invalid is checked as if it were still
  valid. The buffers come from the heap, whose blocks lie on word boundaries.
\<close>

definition kv_key_fix_header_for_validate :: "u8 list \<Rightarrow> bool \<Rightarrow> 'a kv_key_state_scheme \<Rightarrow> u8 list" where
  "kv_key_fix_header_for_validate chunk ignor_invalid s =
     (if ignor_invalid \<and> chunk ! 1 = KV_KEY_INVALID then
        let chunk = chunk[1 := KV_KEY_VALID]
        in if g_nv_header_magic s = KV_KEY_NO_MAGIC then chunk[0 := g_nv_header_magic s] else chunk
      else chunk)"

definition kv_key_hash_crc_tag_start :: u32 where
  "kv_key_hash_crc_tag_start = 0"

definition kv_key_hash_crc_tag_update :: "u8 list \<Rightarrow> u32 \<Rightarrow> u32" where
  "kv_key_hash_crc_tag_update data_chunk crc_ret = uapi_crc32 crc_ret 0 (Some data_chunk)"

definition kv_key_hash_crc_tag_finish :: "kv_key_handle_t \<Rightarrow> u8 list \<Rightarrow> u32 \<Rightarrow> u8 list" where
  "kv_key_hash_crc_tag_finish key calculated_hash crc_value =
     (if kh_enc_key (kk_header key) \<noteq> AES_KDFKEY_SDRK_TYPE
      then buf_put calculated_hash 0 (bytes32 (kv_crc32_swap crc_value)) else calculated_hash)"

definition kv_key_hash_crc_tag_verify :: "kv_key_handle_t \<Rightarrow> u8 list \<Rightarrow> u8 list \<Rightarrow> u32" where
  "kv_key_hash_crc_tag_verify key read_hash_crc cal_hash_crc =
     (if kh_enc_key (kk_header key) \<noteq> AES_KDFKEY_SDRK_TYPE then
        if take 4 cal_hash_crc \<noteq> take 4 read_hash_crc then ERRCODE_NV_HASH_MISMATCH else ERRCODE_SUCC
      else ERRCODE_NV_HASH_MISMATCH)"

function validate_data_loop :: "u32 \<Rightarrow> u32 \<Rightarrow> u32 \<Rightarrow> u8 list \<Rightarrow> u32 \<Rightarrow> 'a nv_world_scheme
    \<Rightarrow> u32 \<times> u32 \<times> u8 list \<times> u32 \<times> 'a nv_world_scheme" where
  "validate_data_loop key_location key_data_offset decryptable_data_len chunk crc_ret s =
     (if key_data_offset < decryptable_data_len then
        let chunk_len = min NV_KEY_DATA_CHUNK_LEN (decryptable_data_len - key_data_offset);
            (res, chunk, s1) = kv_key_read_data_from_flash chunk (key_location + key_data_offset) chunk_len
                                 INVAILD_CRYPTO_HANDLE s
        in if res \<noteq> ERRCODE_SUCC then (res, key_data_offset, chunk, crc_ret, s1)
           else validate_data_loop key_location (key_data_offset + chunk_len) decryptable_data_len chunk
                  (kv_key_hash_crc_tag_update (take (unat chunk_len) chunk) crc_ret) s1
      else (ERRCODE_SUCC, key_data_offset, chunk, crc_ret, s))"
  by pat_completeness auto

termination
  by (relation "measure (\<lambda>(loc, ofs, n, chunk, crc, s). unat n - unat ofs)") (auto simp: chunk_step(1))

declare validate_data_loop.simps [simp del]

text \<open>The result is the code, \<open>read_data_chunk\<close> and \<open>cal_hash_crc\<close>.\<close>

definition kv_key_validate_hash_chunks :: "kv_key_handle_t \<Rightarrow> u8 list \<Rightarrow> u8 list \<Rightarrow> bool
    \<Rightarrow> 'a kv_key_state_scheme \<Rightarrow> u32 \<times> u8 list \<times> u8 list \<times> 'a kv_key_state_scheme" where
  "kv_key_validate_hash_chunks key read_data_chunk cal_hash_crc ignor_invalid s =
     (let crc_ret = kv_key_hash_crc_tag_start;
          (res, chunk, s) = kv_key_read_data_from_flash read_data_chunk (kk_location key) 16 INVAILD_CRYPTO_HANDLE s
      in if res \<noteq> ERRCODE_SUCC then (res, chunk, cal_hash_crc, s)
         else
           let chunk = kv_key_fix_header_for_validate chunk ignor_invalid s;
               crc_ret = kv_key_hash_crc_tag_update (take 16 chunk) crc_ret;
               decryptable_data_len =
                 ucast (kv_key_padded_data_length (kv_key_attributes key) (kh_length (kk_header key)));
               key_location = kk_location key + 16;
               (res, key_data_offset, chunk, crc_ret, s) =
                 validate_data_loop key_location 0 decryptable_data_len chunk crc_ret s
           in if res \<noteq> ERRCODE_SUCC then (res, chunk, cal_hash_crc, s)
              else
                let (res, chunk, s) = kv_key_read_data_from_flash chunk (key_location + key_data_offset)
                                        (ucast KV_CRYPTO_CRC_SIZE) INVAILD_CRYPTO_HANDLE s
                in (res, chunk, kv_key_hash_crc_tag_finish key cal_hash_crc crc_ret, s))"

text \<open>
  \<open>kv_key_validate_integrity\<close> and \<open>kv_key_validation\<close> differ in the encrypted case only. The contents
  of the fresh buffers do not matter and are 0.
\<close>

definition kv_key_validate_integrity :: "kv_key_handle_t \<Rightarrow> bool \<Rightarrow> 'a kv_key_state_scheme
    \<Rightarrow> u32 \<times> 'a kv_key_state_scheme" where
  "kv_key_validate_integrity key ignor_invalid s =
     (if NV_NORMAL_KVALUE_MAX_LEN < kh_length (kk_header key) then (ERRCODE_NV_INVALID_KEY_HEADER, s)
      else
        let (ok, s) = kv_malloc s
        in if \<not> ok then (ERRCODE_MALLOC, s)
           else
             let (ok, s) = kv_malloc s
             in if \<not> ok then (ERRCODE_MALLOC, s)
                else
                  let (res, chunk, cal, s) = kv_key_validate_hash_chunks key
                        (replicate (unat NV_KEY_DATA_CHUNK_LEN) 0) (replicate (unat KV_CRYPTO_HASH_SIZE) 0) ignor_invalid s
                  in if res \<noteq> ERRCODE_SUCC then (res, s) else (kv_key_hash_crc_tag_verify key chunk cal, s))"

definition kv_key_validation :: "kv_key_handle_t \<Rightarrow> bool \<Rightarrow> 'a kv_key_state_scheme
    \<Rightarrow> u32 \<times> 'a kv_key_state_scheme" where
  "kv_key_validation key ignor_invalid s =
     (if NV_NORMAL_KVALUE_MAX_LEN < kh_length (kk_header key) then (ERRCODE_NV_INVALID_KEY_HEADER, s)
      else
        let (ok, s) = kv_malloc s
        in if \<not> ok then (ERRCODE_MALLOC, s)
           else
             let (ok, s) = kv_malloc s
             in if \<not> ok then (ERRCODE_MALLOC, s)
                else
                  let (res, chunk, cal, s) = kv_key_validate_hash_chunks key
                        (replicate (unat NV_KEY_DATA_CHUNK_LEN) 0) (replicate (unat KV_CRYPTO_HASH_SIZE) 0) ignor_invalid s
                  in if res \<noteq> ERRCODE_SUCC then (res, s) else (kv_key_hash_crc_tag_verify key chunk cal, s))"

definition kv_key_is_valid :: "kv_key_handle_t \<Rightarrow> 'a kv_key_state_scheme \<Rightarrow> bool \<times> 'a kv_key_state_scheme" where
  "kv_key_is_valid key s =
     (if kv_key_is_erased key s then (False, s)
      else let (ret, s) = kv_key_validation key False s in (ret = ERRCODE_SUCC, s))"

definition kv_key_does_pattern_match :: "kv_key_handle_t \<Rightarrow> u16 \<Rightarrow> u16 \<Rightarrow> u32" where
  "kv_key_does_pattern_match key search_pattern search_mask =
     (if kh_key_id (kk_header key) AND search_mask \<noteq> search_pattern
      then ERRCODE_NV_SEARCH_PATTERN_MISMATCH else ERRCODE_SUCC)"

definition kv_key_does_filter_match :: "kv_key_handle_t \<Rightarrow> kv_key_filter_t option \<Rightarrow> 'a kv_key_state_scheme
    \<Rightarrow> u32 \<times> 'a kv_key_state_scheme" where
  "kv_key_does_filter_match key search_filter s =
     (case search_filter of None \<Rightarrow> (ERRCODE_SUCC, s)
      | Some flt \<Rightarrow>
          let res = kv_key_does_pattern_match key (kf_pattern flt) (kf_mask flt);
              key_type = (if kv_key_attributes key AND KV_ATTRIBUTE_PERMANENT \<noteq> 0
                          then KV_KEY_FILTER_TYPE_PERMANENT else KV_KEY_FILTER_TYPE_NORMAL)
          in if res \<noteq> ERRCODE_SUCC then (res, s)
             else if kf_type flt AND KV_KEY_FILTER_TYPE_ANY \<noteq> KV_KEY_FILTER_TYPE_ANY
                     \<and> kf_type flt AND key_type = 0 then (ERRCODE_NV_SEARCH_KEY_TYPE_MISMATCH, s)
             else if kf_state flt AND KV_KEY_FILTER_STATE_ANY \<noteq> KV_KEY_FILTER_STATE_ANY then
               let (valid, s) = kv_key_is_valid key s;
                   key_state = (if valid then KV_KEY_FILTER_STATE_VALID else KV_KEY_FILTER_STATE_INVALID)
               in if kf_state flt AND key_state = 0 then (ERRCODE_NV_SEARCH_KEY_STATE_MISMATCH, s)
                  else (ERRCODE_SUCC, s)
             else (ERRCODE_SUCC, s))"

section \<open>From key to key\<close>

definition kv_key_header_is_full_ff :: "kv_key_header_t \<Rightarrow> nat \<Rightarrow> bool" where
  "kv_key_header_is_full_ff key_header len =
     (let cmp_len = min len 16 in take cmp_len (header_bytes key_header) = replicate cmp_len 0xFF)"

definition kv_key_get_handle_from_location :: "u32 \<Rightarrow> kv_key_handle_t \<Rightarrow> 'a kv_key_state_scheme
    \<Rightarrow> u32 \<times> kv_key_handle_t \<times> 'a kv_key_state_scheme" where
  "kv_key_get_handle_from_location key_location key s =
     (let key = key\<lparr>kk_header := (kk_header key)\<lparr>kh_length := 0xFFFF\<rparr>\<rparr>;
          (res, bs, s) = kv_key_helper_copy_flash (header_bytes (kk_header key)) key_location 16 s;
          key = key\<lparr>kk_header := bytes_header bs\<rparr>
      in if res \<noteq> ERRCODE_SUCC then (res, key, s)
         else
           let key = key\<lparr>kk_location := key_location\<rparr>
           in if kv_key_header_is_full_ff (kk_header key) 16 then (ERRCODE_NV_KEY_NOT_FOUND, key, s)
              else if g_nv_header_magic s = KV_KEY_MAGIC \<and> kh_magic (kk_header key) \<noteq> KV_KEY_MAGIC
              then (ERRCODE_NV_INVALID_KEY_HEADER, key, s)
              else (ERRCODE_SUCC, key, s))"

definition kv_key_locations_in_same_page :: "u32 \<Rightarrow> u32 \<Rightarrow> u32" where
  "kv_key_locations_in_same_page first_key_location second_key_location =
     (if first_key_location AND NOT (KV_PAGE_SIZE - 1) \<noteq> (second_key_location + 16) AND NOT (KV_PAGE_SIZE - 1)
      then ERRCODE_FAIL else ERRCODE_SUCC)"

text \<open>
  The first loop of \<open>kv_key_get_next_magic_position\<close>, up to 16 bytes in front of the page end. An early
  return is \<open>Some\<close> of its code; \<open>tmp_location\<close> is set when \<open>found_ending\<close> is.
\<close>

partial_function (option) magic_loop :: "u32 \<Rightarrow> u32 \<Rightarrow> bool \<Rightarrow> u32 \<Rightarrow> kv_key_handle_t \<Rightarrow> 'a kv_key_state_scheme
    \<Rightarrow> (u32 option \<times> bool \<times> u32 \<times> kv_key_handle_t \<times> 'a kv_key_state_scheme) option" where
  "magic_loop next_page_loc src found_ending tmp_location key s =
     (if src < next_page_loc - 16 then
        let key = key\<lparr>kk_header := bytes_header (replicate 16 0)\<rparr>;
            (res, bs, s) = kv_key_helper_copy_flash (header_bytes (kk_header key)) src 16 s;
            key = key\<lparr>kk_header := bytes_header bs\<rparr>
        in if res \<noteq> ERRCODE_SUCC then Some (Some ERRCODE_NV_READ_FLASH_ERR, found_ending, tmp_location, key, s)
           else
             let start = kh_magic (kk_header key) = KV_KEY_MAGIC
                   \<and> (kh_valid (kk_header key) = KV_KEY_INVALID \<or> kh_valid (kk_header key) = KV_KEY_VALID);
                 key = (if start then key\<lparr>kk_location := src\<rparr> else key);
                 (res, s) = (if start then kv_key_validate_integrity key True s else (ERRCODE_FAIL, s))
             in if res = ERRCODE_SUCC then Some (Some ERRCODE_SUCC, found_ending, tmp_location, key, s)
                else if kv_key_header_is_full_ff (kk_header key) 16 then
                  magic_loop next_page_loc (src + 16) True (if found_ending then tmp_location else src) key s
                else magic_loop next_page_loc (src + 1) False tmp_location key s
      else Some (None, found_ending, tmp_location, key, s))"

text \<open>The second loop, over the last 16 bytes of the page.\<close>

function page_tail_loop :: "u32 \<Rightarrow> u32 \<Rightarrow> kv_key_handle_t \<Rightarrow> 'a kv_key_state_scheme
    \<Rightarrow> u32 \<times> kv_key_handle_t \<times> 'a kv_key_state_scheme" where
  "page_tail_loop next_page_loc src key s =
     (if src < next_page_loc then
        let read_len = next_page_loc - src;
            (res, bs, s1) = kv_key_helper_copy_flash (header_bytes (kk_header key)) src (ucast read_len) s;
            key = key\<lparr>kk_header := bytes_header bs\<rparr>
        in if res \<noteq> ERRCODE_SUCC then (ERRCODE_NV_READ_FLASH_ERR, key, s1)
           else if kv_key_header_is_full_ff (kk_header key) (unat (ucast read_len :: u8))
           then (ERRCODE_NV_KEY_NOT_FOUND, key\<lparr>kk_location := src\<rparr>, s1)
           else page_tail_loop next_page_loc (src + 1) key s1
      else (ERRCODE_NV_KEY_NOT_FOUND, key\<lparr>kk_location := src\<rparr>, s))"
  by pat_completeness auto

lemma word_succ_less: "src < (n :: u32) \<Longrightarrow> unat n - unat (src + 1) < unat n - unat src"
  using unat_u32_less [of n] by (simp add: word_less_nat_alt unat_word_ariths)

termination page_tail_loop
  by (relation "measure (\<lambda>(n, src, key, s). unat n - unat src)") (auto simp: word_succ_less)

declare page_tail_loop.simps [simp del]

definition kv_key_get_next_magic_position :: "u32 \<Rightarrow> kv_key_handle_t \<Rightarrow> 'a kv_key_state_scheme
    \<Rightarrow> (u32 \<times> kv_key_handle_t \<times> 'a kv_key_state_scheme) option" where
  "kv_key_get_next_magic_position key_location key s =
     (let start_page_loc = nv_data_addr (g_kv_nvregion_area s) - FLASH_PHYSICAL_ADDR_START;
          next_page_loc = ((key_location - start_page_loc) div KV_PAGE_SIZE + 1) * KV_PAGE_SIZE + start_page_loc
      in do {
        (early, found_ending, tmp_location, key, s) \<leftarrow> magic_loop next_page_loc (key_location + 1) False 0 key s;
        case early of Some res \<Rightarrow> Some (res, key, s)
        | None \<Rightarrow>
            if found_ending then Some (ERRCODE_NV_KEY_NOT_FOUND, key\<lparr>kk_location := tmp_location\<rparr>, s)
            else Some (page_tail_loop next_page_loc (next_page_loc - 16) key s)
      })"

definition kv_key_get_next_key_from_location :: "u32 \<Rightarrow> u32 \<Rightarrow> kv_key_handle_t \<Rightarrow> 'a kv_key_state_scheme
    \<Rightarrow> u32 \<times> kv_key_handle_t \<times> 'a kv_key_state_scheme" where
  "kv_key_get_next_key_from_location cur_key_loc next_key_loc key s =
     (if kv_key_locations_in_same_page cur_key_loc next_key_loc \<noteq> ERRCODE_SUCC
      then (ERRCODE_NV_KEY_NOT_FOUND, key, s)
      else kv_key_get_handle_from_location next_key_loc key s)"

definition kv_key_get_next_handle_with_corrupt_key ::
    "kv_key_handle_t \<Rightarrow> kv_key_validate_status_t \<Rightarrow> 'a kv_key_state_scheme
    \<Rightarrow> (u32 \<times> kv_key_handle_t \<times> 'a kv_key_state_scheme) option" where
  "kv_key_get_next_handle_with_corrupt_key key key_status s =
     (if key_status = KV_KEY_VALIDATE_WRONG then kv_key_get_next_magic_position (kk_location key) key s
      else if kv_key_header_is_full_ff (kk_header key) 16 then Some (ERRCODE_NV_KEY_NOT_FOUND, key, s)
      else if kh_magic (kk_header key) \<noteq> KV_KEY_MAGIC then kv_key_get_next_magic_position (kk_location key) key s
      else
        let next_key_location = kk_location key + ucast (kv_key_flash_size key);
            cur_key = key;
            (res, key, s) = kv_key_get_next_key_from_location (kk_location key) next_key_location key s
        in if res \<noteq> ERRCODE_SUCC then
             let (ok, s) = (if key_status = KV_KEY_VALIDATE_CORRECT then (True, s)
                   else let (r, s) = kv_key_validate_integrity cur_key True s in (r = ERRCODE_SUCC, s))
             in if ok then
                  Some (if res = ERRCODE_NV_INVALID_KEY_HEADER then ERRCODE_SUCC else res,
                        key\<lparr>kk_location := next_key_location\<rparr>, s)
                else kv_key_get_next_magic_position (kk_location cur_key) key s
           else Some (res, key, s))"

definition kv_key_get_next_handle_direct :: "kv_key_handle_t \<Rightarrow> 'a kv_key_state_scheme
    \<Rightarrow> u32 \<times> kv_key_handle_t \<times> 'a kv_key_state_scheme" where
  "kv_key_get_next_handle_direct key s =
     (if kh_length (kk_header key) = 0xFFFF then (ERRCODE_NV_KEY_NOT_FOUND, key, s)
      else
        let new_key_location = kk_location key + ucast (kv_key_flash_size key)
        in if kv_key_locations_in_same_page (kk_location key) new_key_location \<noteq> ERRCODE_SUCC
           then (ERRCODE_NV_KEY_NOT_FOUND, key, s)
           else kv_key_get_handle_from_location new_key_location key s)"

definition kv_key_get_next_handle :: "kv_key_handle_t \<Rightarrow> kv_key_validate_status_t \<Rightarrow> 'a kv_key_state_scheme
    \<Rightarrow> (u32 \<times> kv_key_handle_t \<times> 'a kv_key_state_scheme) option" where
  "kv_key_get_next_handle key key_status s =
     (if g_nv_header_magic s = KV_KEY_MAGIC then kv_key_get_next_handle_with_corrupt_key key key_status s
      else Some (kv_key_get_next_handle_direct key s))"

section \<open>A new key\<close>

record kv_key_details_t =
  kd_key_id :: u16
  kd_focre_write :: bool
  kd_kvalue :: "u8 list"
  kd_kvalue_length :: u32
  kd_attributes :: u32

definition kv_key_build_from_new :: "kv_key_handle_t \<Rightarrow> kv_key_details_t \<Rightarrow> u32 \<Rightarrow> 'a kv_key_state_scheme
    \<Rightarrow> kv_key_handle_t" where
  "kv_key_build_from_new key new_key key_location s =
     (let h = (kk_header key)\<lparr>kh_key_id := kd_key_id new_key, kh_length := ucast (kd_kvalue_length new_key),
                kh_magic := g_nv_header_magic s, kh_valid := KV_KEY_VALID,
                kh_type := (if kd_attributes new_key AND KV_ATTRIBUTE_PERMANENT \<noteq> 0
                            then KV_KEY_TYPE_PERMANENT else KV_KEY_TYPE_NORMAL),
                kh_upgrade := KV_KEY_TYPE_NORMAL\<rparr>;
          h = (if kd_attributes new_key AND KV_ATTRIBUTE_NON_UPGRADE \<noteq> 0
               then h\<lparr>kh_upgrade := 0, kh_version := kh_version h + 1\<rparr> else h)
      in \<lparr>kk_header = h\<lparr>kh_enc_key := 0\<rparr>, kk_location = key_location\<rparr>)"
end
