(* ===== verification/NvPage.thy ===== *)
theory NvPage
  imports NvKey
begin

text \<open>
  Pages and the region of the non-volatile storage: nv_page.c and nv_nvregion.c. A page has a header of
  16 bytes with the number of its store, its index there and a sequence number, both also inverted; its
  keys follow. The region map holds the headers of the pages in use and how full each page is.
\<close>

section \<open>nv_page.c\<close>

abbreviation (input) ERRCODE_NV_PAGE_NOT_FOUND :: u32 where "ERRCODE_NV_PAGE_NOT_FOUND \<equiv> 0x80003105"
abbreviation (input) ERRCODE_NV_INVALID_PAGE :: u32 where "ERRCODE_NV_INVALID_PAGE \<equiv> 0x80003106"
abbreviation (input) ERRCODE_NV_INVALID_PARAMS :: u32 where "ERRCODE_NV_INVALID_PARAMS \<equiv> 0x80003083"
abbreviation (input) ERRCODE_NV_NOT_INITIALISED :: u32 where "ERRCODE_NV_NOT_INITIALISED \<equiv> 0x80003090"
abbreviation (input) KV_STORE_ID_BACKUP :: u16 where "KV_STORE_ID_BACKUP \<equiv> 0x34B2"

record kv_page_header_t =
  ph_store_id :: u16
  ph_ver :: u8
  ph_page_index :: u8
  ph_inverted_details_word :: u32
  ph_sequence_number :: u32
  ph_inverted_sequence_number :: u32

record kv_page_handle_t =
  pg_header :: kv_page_header_t
  pg_location :: u32

record kv_page_status_t =
  ps_total_space :: u32
  ps_used_space :: u32
  ps_reclaimable_space :: u32
  ps_corrupted_space :: u32
  ps_max_key_space :: u32
  ps_first_writable_location :: u32

record nv_page_status_map_t =
  pm_page_location :: u32
  pm_used_space :: u16
  pm_reclaimable_space :: u16
  pm_corrupted_space :: u16
  pm_first_writable_offset :: u16

definition details_bytes :: "kv_page_header_t \<Rightarrow> u8 list" where
  "details_bytes h = bytes16 (ph_store_id h) @ [ph_ver h, ph_page_index h]"

definition details_word :: "kv_page_header_t \<Rightarrow> u32" where
  "details_word h = (let bs = details_bytes h in word_le (bs ! 0) (bs ! 1) (bs ! 2) (bs ! 3))"

definition page_header_bytes :: "kv_page_header_t \<Rightarrow> u8 list" where
  "page_header_bytes h = details_bytes h @ bytes32 (ph_inverted_details_word h)
     @ bytes32 (ph_sequence_number h) @ bytes32 (ph_inverted_sequence_number h)"

definition bytes_page_header :: "u8 list \<Rightarrow> kv_page_header_t" where
  "bytes_page_header bs = \<lparr>ph_store_id = half_le (bs ! 0) (bs ! 1), ph_ver = bs ! 2, ph_page_index = bs ! 3,
     ph_inverted_details_word = word_le (bs ! 4) (bs ! 5) (bs ! 6) (bs ! 7),
     ph_sequence_number = word_le (bs ! 8) (bs ! 9) (bs ! 10) (bs ! 11),
     ph_inverted_sequence_number = word_le (bs ! 12) (bs ! 13) (bs ! 14) (bs ! 15)\<rparr>"

definition zero_page_header :: kv_page_header_t where
  "zero_page_header = \<lparr>ph_store_id = 0, ph_ver = 0, ph_page_index = 0, ph_inverted_details_word = 0,
     ph_sequence_number = 0, ph_inverted_sequence_number = 0\<rparr>"

definition kv_page_get_index :: "kv_page_handle_t \<Rightarrow> u32 \<times> u32 option" where
  "kv_page_get_index page =
     (let h = pg_header page
      in if pg_location page \<noteq> 0 \<and> NOT (ph_inverted_details_word h) = details_word h
            \<and> NOT (ph_inverted_sequence_number h) = ph_sequence_number h
         then (ERRCODE_SUCC, Some (ucast (ph_page_index h))) else (ERRCODE_NV_INVALID_PAGE, None))"

text \<open>The loop that the two searches share.\<close>

partial_function (option) find_key_loop :: "kv_key_filter_t option \<Rightarrow> u32 \<Rightarrow> kv_key_handle_t
    \<Rightarrow> 'a kv_key_state_scheme \<Rightarrow> (u32 \<times> kv_key_handle_t \<times> 'a kv_key_state_scheme) option" where
  "find_key_loop search_filter res key s =
     (if res = ERRCODE_SUCC then
        let (res, s) = kv_key_does_filter_match key search_filter s
        in if res = ERRCODE_SUCC then Some (ERRCODE_SUCC, key, s)
           else do {
             (res, key, s) \<leftarrow> kv_key_get_next_handle key KV_KEY_NOT_VALIDATE s;
             find_key_loop search_filter res key s
           }
      else Some (res, key, s))"

definition kv_page_find_first_key :: "u32 \<Rightarrow> kv_key_filter_t option \<Rightarrow> kv_key_handle_t
    \<Rightarrow> 'a kv_key_state_scheme \<Rightarrow> (u32 \<times> kv_key_handle_t \<times> 'a kv_key_state_scheme) option" where
  "kv_page_find_first_key page_location search_filter key s =
     (let key_location = page_location + 16;
          (res, key, s) = kv_key_get_handle_from_location key_location key s
      in do {
        (res, key, s) \<leftarrow> (if res = ERRCODE_NV_INVALID_KEY_HEADER then kv_key_get_next_magic_position key_location key s
                           else Some (res, key, s));
        find_key_loop search_filter res key s
      })"

definition kv_page_find_next_key :: "kv_key_filter_t option \<Rightarrow> kv_key_handle_t
    \<Rightarrow> 'a kv_key_state_scheme \<Rightarrow> (u32 \<times> kv_key_handle_t \<times> 'a kv_key_state_scheme) option" where
  "kv_page_find_next_key search_filter key s =
     do {
       (res, key, s) \<leftarrow> kv_key_get_next_handle key KV_KEY_NOT_VALIDATE s;
       find_key_loop search_filter res key s
     }"

definition kv_page_copy_status_map :: "nv_page_status_map_t \<Rightarrow> kv_page_status_t" where
  "kv_page_copy_status_map m =
     (let total = KV_PAGE_SIZE - 16; used = ucast (pm_used_space m); reclaimable = ucast (pm_reclaimable_space m)
      in \<lparr>ps_total_space = total, ps_used_space = used, ps_reclaimable_space = reclaimable,
          ps_corrupted_space = ucast (pm_corrupted_space m), ps_max_key_space = total - used + reclaimable,
          ps_first_writable_location = pm_page_location m + ucast (pm_first_writable_offset m)\<rparr>)"

text \<open>The loop of \<open>kv_page_read_status_to_map\<close>.\<close>

partial_function (option) page_status_loop :: "u32 \<Rightarrow> kv_key_handle_t \<Rightarrow> nv_page_status_map_t
    \<Rightarrow> 'a kv_key_state_scheme \<Rightarrow> (nv_page_status_map_t \<times> 'a kv_key_state_scheme) option" where
  "page_status_loop key_found key m s =
     (if key_found = ERRCODE_SUCC then
        let key_size = kv_key_flash_size key;
            (ret, s) = kv_key_validate_integrity key True s
        in if ret \<noteq> ERRCODE_SUCC then
             let last_key_location = kk_location key
             in do {
               (key_found, key, s) \<leftarrow> kv_key_get_next_handle key KV_KEY_VALIDATE_WRONG s;
               if key_found = ERRCODE_SUCC \<or> key_found = ERRCODE_NV_KEY_NOT_FOUND then
                 let key_size = ucast (kk_location key - last_key_location)
                 in page_status_loop key_found key
                      (m\<lparr>pm_corrupted_space := pm_corrupted_space m + key_size,
                         pm_reclaimable_space := pm_reclaimable_space m + key_size,
                         pm_used_space := pm_used_space m + key_size\<rparr>) s
               else Some (m, s)
             }
           else
             let m = (if kv_key_is_erased key s
                      then m\<lparr>pm_reclaimable_space := pm_reclaimable_space m + key_size\<rparr> else m)
             in do {
               (key_found, key, s) \<leftarrow> kv_key_get_next_handle key KV_KEY_VALIDATE_CORRECT s;
               page_status_loop key_found key (m\<lparr>pm_used_space := pm_used_space m + key_size\<rparr>) s
             }
      else Some (m, s))"

definition kv_page_read_status_to_map :: "u32 \<Rightarrow> 'a kv_key_state_scheme
    \<Rightarrow> (nv_page_status_map_t \<times> 'a kv_key_state_scheme) option" where
  "kv_page_read_status_to_map page_location s =
     (let page_data_loc = page_location + 16;
          m = \<lparr>pm_page_location = page_location, pm_used_space = 0, pm_reclaimable_space = 0,
               pm_corrupted_space = 0, pm_first_writable_offset = 0\<rparr>
      in do {
        (key_found, key, s) \<leftarrow> kv_page_find_first_key page_location None (nv_stack_key s) s;
        let gap = (if page_data_loc < kk_location key then ucast (kk_location key - page_data_loc) else 0);
        (m, s) \<leftarrow> page_status_loop key_found key
           (m\<lparr>pm_corrupted_space := gap, pm_reclaimable_space := gap, pm_used_space := gap\<rparr>) s;
        Some (m\<lparr>pm_first_writable_offset := 16 + pm_used_space m\<rparr>, s)
      })"

definition kv_page_get_status :: "u32 \<Rightarrow> 'a kv_key_state_scheme \<Rightarrow> (kv_page_status_t \<times> 'a kv_key_state_scheme) option" where
  "kv_page_get_status page_location s =
     do {
       (m, s) \<leftarrow> kv_page_read_status_to_map page_location s;
       Some (kv_page_copy_status_map m, s)
     }"

section \<open>nv_nvregion.c\<close>

text \<open>\<open>nv_entries\<close> and \<open>nv_page_status_map\<close> are \<open>None\<close> for a null pointer.\<close>

record kv_region_state = kv_key_state +
  nv_entries :: "kv_page_header_t list option"
  nv_page_status_map :: "nv_page_status_map_t list option"
  nv_num_entries :: u32

definition kv_nvregion_get_page_number :: "u32 \<Rightarrow> 'a kv_region_state_scheme \<Rightarrow> u32" where
  "kv_nvregion_get_page_number page_location s =
     (let page_number = (page_location - nv_data_addr (g_kv_nvregion_area s)) div KV_PAGE_SIZE
      in if nv_num_entries s \<le> page_number then - 1 else page_number)"

definition kv_nvregion_get_use_times :: "u32 \<Rightarrow> 'a kv_region_state_scheme \<Rightarrow> u32" where
  "kv_nvregion_get_use_times page_location s =
     (let page_number = kv_nvregion_get_page_number page_location s
      in if page_number = - 1 then - 1
         else ph_sequence_number (the (nv_entries s) ! unat page_number))"

definition kv_page_get_status_from_map ::
    "u32 \<Rightarrow> kv_page_status_t \<Rightarrow> 'a kv_region_state_scheme \<Rightarrow> kv_page_status_t" where
  "kv_page_get_status_from_map page_location page_status s =
     (let page_number = kv_nvregion_get_page_number page_location s
      in if nv_num_entries s \<le> page_number then page_status
         else kv_page_copy_status_map (the (nv_page_status_map s) ! unat page_number))"

definition kv_nvregion_is_valid_map_entry :: "kv_page_header_t \<Rightarrow> u32" where
  "kv_nvregion_is_valid_map_entry h =
     (if ph_store_id h \<noteq> 0 \<and> ph_store_id h \<noteq> 0xFFFF \<and> NOT (ph_inverted_details_word h) = details_word h
         \<and> NOT (ph_inverted_sequence_number h) = ph_sequence_number h
      then ERRCODE_SUCC else ERRCODE_FAIL)"

text \<open>\<open>n\<close> is the index of the new entry, \<open>k\<close> that of the existing one.\<close>

function filter_entries_loop :: "nat \<Rightarrow> nat \<Rightarrow> kv_page_header_t list \<Rightarrow> kv_page_header_t list" where
  "filter_entries_loop n k es =
     (if k < n then
        if ph_store_id (es ! k) = ph_store_id (es ! n) \<and> ph_page_index (es ! k) = ph_page_index (es ! n) then
          if ph_sequence_number (es ! k) \<le> ph_sequence_number (es ! n)
          then filter_entries_loop n (Suc k) (es[k := zero_page_header])
          else es[n := zero_page_header]
        else filter_entries_loop n (Suc k) es
      else es)"
  by pat_completeness auto

termination by (relation "measure (\<lambda>(n, k, es). n - k)") auto

declare filter_entries_loop.simps [simp del]

definition kv_nvregion_filter_duplicate_map_entries ::
    "nat \<Rightarrow> kv_page_header_t list \<Rightarrow> kv_page_header_t list" where
  "kv_nvregion_filter_duplicate_map_entries n es = filter_entries_loop n 0 es"

definition kv_nvregion_free_resource :: "'a kv_region_state_scheme \<Rightarrow> 'a kv_region_state_scheme" where
  "kv_nvregion_free_resource s = s\<lparr>nv_entries := None, nv_page_status_map := None\<rparr>"

definition kv_nvregion_init_map :: "'a kv_region_state_scheme \<Rightarrow> u32 \<times> 'a kv_region_state_scheme" where
  "kv_nvregion_init_map s =
     (let area = g_kv_nvregion_area s; num_entries = nv_data_size area div KV_PAGE_SIZE
      in if num_entries = 0 then (ERRCODE_NV_INVALID_PARAMS, s)
         else if nv_data_addr area AND (KV_PAGE_SIZE - 1) \<noteq> 0 \<or> nv_data_size area AND (KV_PAGE_SIZE - 1) \<noteq> 0
              \<or> nv_data_size area AND NOT (KV_PAGE_SIZE - 1) = 0 then (ERRCODE_FAIL, s)
         else
           let s = (if num_entries \<noteq> nv_num_entries s then kv_nvregion_free_resource s else s);
               s = (if nv_entries s = None then
                      let (ok, s) = kv_malloc s
                      in if ok then s\<lparr>nv_entries := Some (replicate (unat num_entries) zero_page_header)\<rparr> else s
                    else s);
               s = (if nv_page_status_map s = None then
                      let (ok, s) = kv_malloc s
                      in if ok then s\<lparr>nv_page_status_map := Some (replicate (unat num_entries)
                              \<lparr>pm_page_location = 0, pm_used_space = 0, pm_reclaimable_space = 0,
                               pm_corrupted_space = 0, pm_first_writable_offset = 0\<rparr>)\<rparr> else s
                    else s)
           in if nv_entries s = None \<or> nv_page_status_map s = None
              then (ERRCODE_MALLOC, kv_nvregion_free_resource s)
              else (ERRCODE_SUCC, s\<lparr>nv_num_entries := num_entries\<rparr>))"

text \<open>The loop body for the entry \<open>i\<close>; the result of the read is not looked at.\<close>

definition build_map_entry :: "nat \<Rightarrow> 'a kv_region_state_scheme \<Rightarrow> 'a kv_region_state_scheme option" where
  "build_map_entry i s =
     (let nv_page = nv_data_addr (g_kv_nvregion_area s) + of_nat i * KV_PAGE_SIZE;
          es = the (nv_entries s);
          (ret, bs, s) = kv_key_helper_copy_flash (page_header_bytes (es ! i)) nv_page 16 s;
          es = es[i := bytes_page_header bs];
          h = es ! i
      in if kv_nvregion_is_valid_map_entry h = ERRCODE_SUCC \<and> ph_store_id h \<noteq> KV_STORE_ID_BACKUP then
           let s = (if ph_ver h = 0 then s\<lparr>g_nv_header_magic := KV_KEY_NO_MAGIC\<rparr> else s);
               s = s\<lparr>nv_entries := Some (kv_nvregion_filter_duplicate_map_entries i es)\<rparr>
           in do {
             (m, s) \<leftarrow> kv_page_read_status_to_map nv_page s;
             Some (s\<lparr>nv_page_status_map := Some ((the (nv_page_status_map s))[i := m])\<rparr>)
           }
         else Some (s\<lparr>nv_entries := Some (es[i := zero_page_header])\<rparr>))"

function build_map_loop :: "nat \<Rightarrow> nat \<Rightarrow> 'a kv_region_state_scheme \<Rightarrow> 'a kv_region_state_scheme option" where
  "build_map_loop i n s =
     (if i < n then do { s \<leftarrow> build_map_entry i s; build_map_loop (Suc i) n s } else Some s)"
  by pat_completeness auto

termination by (relation "measure (\<lambda>(i, n, s). n - i)") auto

declare build_map_loop.simps [simp del]

definition kv_nvregion_build_map :: "'a kv_region_state_scheme \<Rightarrow> (u32 \<times> 'a kv_region_state_scheme) option" where
  "kv_nvregion_build_map s =
     do { s \<leftarrow> build_map_loop 0 (unat (nv_num_entries s)) s; Some (ERRCODE_SUCC, s) }"

definition kv_nvregion_init :: "u32 \<Rightarrow> u32 \<Rightarrow> u32 \<Rightarrow> u32 \<Rightarrow> 'a kv_key_state_scheme \<Rightarrow> 'a kv_key_state_scheme" where
  "kv_nvregion_init data_addr data_size backup_addr backup_size s =
     s\<lparr>g_kv_nvregion_area := \<lparr>nv_data_addr = data_addr, nv_data_size = data_size,
        nv_backup_addr = backup_addr, nv_backup_size = backup_size\<rparr>\<rparr>"

definition kv_nvregion_scan :: "'a kv_region_state_scheme \<Rightarrow> (u32 \<times> 'a kv_region_state_scheme) option" where
  "kv_nvregion_scan s =
     (let (res, s) = kv_nvregion_init_map s
      in if res \<noteq> ERRCODE_SUCC then Some (res, s) else kv_nvregion_build_map s)"

text \<open>\<open>find_page_from\<close> is the loop of \<open>kv_nvregion_find_page\<close> from the entry \<open>i\<close> on.\<close>

fun find_page_from :: "u16 \<Rightarrow> u8 \<Rightarrow> nat \<Rightarrow> kv_page_header_t list \<Rightarrow> nat option" where
  "find_page_from store_id page_index i [] = None"
| "find_page_from store_id page_index i (h # hs) =
     (if ph_store_id h = store_id \<and> ph_page_index h = page_index then Some i
      else find_page_from store_id page_index (Suc i) hs)"

text \<open>The result is the code, the location and the header.\<close>

definition kv_nvregion_find_page :: "u16 \<Rightarrow> u8 \<Rightarrow> 'a kv_region_state_scheme \<Rightarrow> u32 \<times> u32 \<times> kv_page_header_t" where
  "kv_nvregion_find_page store_id page_index s =
     (case nv_entries s of None \<Rightarrow> (ERRCODE_NV_NOT_INITIALISED, 0, zero_page_header)
      | Some es \<Rightarrow>
          if store_id = 0 then (ERRCODE_INVALID_PARAM, 0, zero_page_header)
          else case find_page_from store_id page_index 0 (take (unat (nv_num_entries s)) es) of
              None \<Rightarrow> (ERRCODE_NV_PAGE_NOT_FOUND, 0, zero_page_header)
            | Some i \<Rightarrow> (ERRCODE_SUCC, nv_data_addr (g_kv_nvregion_area s) + KV_PAGE_SIZE * of_nat i, es ! i))"

definition entry_unused :: "kv_page_header_t \<Rightarrow> bool" where
  "entry_unused h \<longleftrightarrow> ph_store_id h = 0 \<and> ph_page_index h = 0 \<and> ph_inverted_details_word h = 0
     \<and> ph_sequence_number h = 0 \<and> ph_inverted_sequence_number h = 0"

fun find_unused_from :: "nat \<Rightarrow> kv_page_header_t list \<Rightarrow> nat option" where
  "find_unused_from i [] = None"
| "find_unused_from i (h # hs) = (if entry_unused h then Some i else find_unused_from (Suc i) hs)"

definition kv_nvregion_find_unused_page :: "'a kv_region_state_scheme \<Rightarrow> u32 \<times> u32" where
  "kv_nvregion_find_unused_page s =
     (case nv_entries s of None \<Rightarrow> (ERRCODE_NV_NOT_INITIALISED, 0)
      | Some es \<Rightarrow>
          case find_unused_from 0 (take (unat (nv_num_entries s)) es) of
            None \<Rightarrow> (ERRCODE_NV_PAGE_NOT_FOUND, 0)
          | Some i \<Rightarrow> (ERRCODE_SUCC, nv_data_addr (g_kv_nvregion_area s) + KV_PAGE_SIZE * of_nat i))"

definition kv_nvregion_erase_page :: "u32 \<Rightarrow> 'a kv_key_state_scheme \<Rightarrow> u32 \<times> 'a kv_key_state_scheme" where
  "kv_nvregion_erase_page page_location s =
     (let area = g_kv_nvregion_area s
      in if page_location < nv_data_addr area \<or> nv_data_addr area + nv_data_size area \<le> page_location
         then (ERRCODE_INVALID_PARAM, s) else kv_key_erase_flash page_location KV_PAGE_SIZE s)"

definition kv_nvregion_write_page :: "u32 \<Rightarrow> u16 \<Rightarrow> u8 \<Rightarrow> 'a kv_key_state_scheme \<Rightarrow> u32 \<times> 'a kv_key_state_scheme" where
  "kv_nvregion_write_page page_location store_id page_index s =
     (let h = zero_page_header\<lparr>ph_store_id := store_id, ph_page_index := page_index,
                ph_ver := (if g_nv_header_magic s = KV_KEY_MAGIC then 1 else 0)\<rparr>;
          h = h\<lparr>ph_inverted_details_word := NOT (details_word h)\<rparr>;
          h = h\<lparr>ph_sequence_number := 0, ph_inverted_sequence_number := NOT 0\<rparr>
      in kv_key_write_flash page_location (page_header_bytes h) s)"

definition kv_nvregion_create_page :: "u16 \<Rightarrow> u8 \<Rightarrow> 'a kv_region_state_scheme \<Rightarrow> (u32 \<times> 'a kv_region_state_scheme) option" where
  "kv_nvregion_create_page store_id page_index s =
     (if nv_entries s = None then Some (ERRCODE_NV_NOT_INITIALISED, s)
      else if store_id = 0 then Some (ERRCODE_INVALID_PARAM, s)
      else
        let (res, page_location) = kv_nvregion_find_unused_page s
        in if res \<noteq> ERRCODE_SUCC then Some (res, s)
           else
             let (res, s) = kv_nvregion_erase_page page_location s
             in if res \<noteq> ERRCODE_SUCC then Some (res, s)
                else
                  let (res, s) = kv_nvregion_write_page page_location store_id page_index s
                  in if res \<noteq> ERRCODE_SUCC then Some (res, s) else kv_nvregion_scan s)"

end
