(* ===== verification/NvStore.thy ===== *)
theory NvStore
  imports NvPage
begin

text \<open>
  The store, nv_store.c: three pages of the region and, behind them, the pages of the backup. A key is
  looked up page after page; the first valid key with the number is the key.
\<close>

section \<open>nv_store.c\<close>

abbreviation (input) KV_STORE_ID_ACPU :: u16 where "KV_STORE_ID_ACPU \<equiv> 0x254D"
abbreviation (input) KV_STORE_PAGES_ACPU :: u8 where "KV_STORE_PAGES_ACPU \<equiv> 3"
abbreviation (input) KV_STORE_APPLICATION :: u32 where "KV_STORE_APPLICATION \<equiv> 0"
abbreviation (input) KV_STORE_MAX_NUM :: u32 where "KV_STORE_MAX_NUM \<equiv> 1"
abbreviation (input) KV_BACKUP_PAGE_NUM :: nat where "KV_BACKUP_PAGE_NUM \<equiv> 4"
abbreviation (input) ERRCODE_NV_GET_BUFFER_TOO_SMALL :: u32 where "ERRCODE_NV_GET_BUFFER_TOO_SMALL \<equiv> 0x80003082"
abbreviation (input) ERRCODE_NV_NO_ENOUGH_SPACE :: u32 where "ERRCODE_NV_NO_ENOUGH_SPACE \<equiv> 0x80003087"
abbreviation (input) ERRCODE_NV_DEFRAGMENTATION_NEEDED :: u32 where "ERRCODE_NV_DEFRAGMENTATION_NEEDED \<equiv> 0x80003108"

text \<open>\<open>kd_value\<close> is the buffer of the caller, \<open>kvalue_max_length\<close> its size.\<close>

record kv_store_key_data_t =
  kvalue_max_length :: u16
  kvalue_actual_length :: u16
  kd_value :: "u8 list"

record nv_store_status_t =
  st_total_space :: u32
  st_used_space :: u32
  st_reclaimable_space :: u32
  st_corrupted_space :: u32
  st_max_key_space :: u32

definition g_kv_store_ids :: "u16 list" where
  "g_kv_store_ids = [KV_STORE_ID_ACPU]"

definition g_kv_store_num_pages :: "u8 list" where
  "g_kv_store_num_pages = [KV_STORE_PAGES_ACPU]"

definition kv_store_get_id :: "u32 \<Rightarrow> u16" where
  "kv_store_get_id store = (if store < KV_STORE_MAX_NUM then g_kv_store_ids ! unat store else 0)"

definition kv_store_get_page_count :: "u32 \<Rightarrow> u8" where
  "kv_store_get_page_count store = (if store < KV_STORE_MAX_NUM then g_kv_store_num_pages ! unat store else 0)"

definition kv_store_get_page_handle :: "u32 \<Rightarrow> u32 \<Rightarrow> 'a kv_region_state_scheme \<Rightarrow> u32 \<times> kv_page_handle_t" where
  "kv_store_get_page_handle store page_index s =
     (let (res, page_location, h) = kv_nvregion_find_page (kv_store_get_id store) (ucast page_index) s
      in if res \<noteq> ERRCODE_SUCC then (res, \<lparr>pg_header = zero_page_header, pg_location = 0\<rparr>)
         else (ERRCODE_SUCC, \<lparr>pg_header = h, pg_location = page_location\<rparr>))"

definition valid_key_filter :: "u16 \<Rightarrow> kv_key_filter_t" where
  "valid_key_filter key_id = \<lparr>kf_location = 0, kf_pattern = key_id, kf_mask = 0xFFFF,
     kf_state = KV_KEY_FILTER_STATE_VALID, kf_type = KV_KEY_FILTER_TYPE_ANY\<rparr>"

text \<open>The loop of \<open>kv_store_find_valid_key\<close> over the pages from \<open>page_index\<close> on, \<open>n\<close> of them.\<close>

fun find_valid_loop :: "nat \<Rightarrow> u32 \<Rightarrow> u32 \<Rightarrow> u16 \<Rightarrow> kv_key_handle_t \<Rightarrow> 'a kv_region_state_scheme
    \<Rightarrow> (u32 \<times> kv_key_handle_t \<times> 'a kv_region_state_scheme) option" where
  "find_valid_loop 0 page_index store key_id key s = Some (ERRCODE_NV_KEY_NOT_FOUND, key, s)"
| "find_valid_loop (Suc n) page_index store key_id key s =
     (let (res, page) = kv_store_get_page_handle store page_index s
      in if res = ERRCODE_SUCC then do {
           (res, key, s) \<leftarrow> kv_page_find_first_key (pg_location page) (Some (valid_key_filter key_id)) key s;
           if res = ERRCODE_SUCC then Some (ERRCODE_SUCC, key, s)
           else find_valid_loop n (page_index + 1) store key_id key s
         }
         else find_valid_loop n (page_index + 1) store key_id key s)"

definition kv_store_find_valid_key :: "u32 \<Rightarrow> u16 \<Rightarrow> kv_key_handle_t \<Rightarrow> 'a kv_region_state_scheme
    \<Rightarrow> (u32 \<times> kv_key_handle_t \<times> 'a kv_region_state_scheme) option" where
  "kv_store_find_valid_key store key_id key s =
     find_valid_loop (unat (kv_store_get_page_count store)) 0 store key_id key s"

definition kv_store_find_backup_key :: "u16 \<Rightarrow> kv_key_handle_t \<Rightarrow> u32 \<Rightarrow> 'a kv_region_state_scheme
    \<Rightarrow> (u32 \<times> kv_key_handle_t \<times> 'a kv_region_state_scheme) option" where
  "kv_store_find_backup_key key_id key page_location s =
     do {
       (res, key, s) \<leftarrow> kv_page_find_first_key page_location (Some (valid_key_filter key_id)) key s;
       Some (if res = ERRCODE_SUCC then ERRCODE_SUCC else ERRCODE_NV_KEY_NOT_FOUND, key, s)
     }"

text \<open>The results are the code, the length and the attributes.\<close>

definition kv_store_get_key_attr :: "u32 \<Rightarrow> u16 \<Rightarrow> 'a kv_region_state_scheme
    \<Rightarrow> (u32 \<times> (u16 \<times> u32) option \<times> 'a kv_region_state_scheme) option" where
  "kv_store_get_key_attr store key_id s =
     do {
       (res, key, s) \<leftarrow> kv_store_find_valid_key store key_id (nv_stack_key s) s;
       Some (res, if res \<noteq> ERRCODE_SUCC then None
                  else Some (kh_length (kk_header key), kv_key_attributes key), s)
     }"

fun backup_attr_loop :: "nat \<Rightarrow> u32 \<Rightarrow> u16 \<Rightarrow> kv_key_handle_t \<Rightarrow> 'a kv_region_state_scheme
    \<Rightarrow> (u32 \<times> kv_key_handle_t \<times> 'a kv_region_state_scheme) option" where
  "backup_attr_loop 0 page_location key_id key s = Some (ERRCODE_NV_KEY_NOT_FOUND, key, s)"
| "backup_attr_loop (Suc n) page_location key_id key s =
     do {
       (res, key, s) \<leftarrow> kv_store_find_backup_key key_id key page_location s;
       if res = ERRCODE_SUCC \<or> n = 0 then Some (res, key, s)
       else backup_attr_loop n (page_location + KV_PAGE_SIZE) key_id key s
     }"

definition kv_store_get_backup_key_attr :: "u16 \<Rightarrow> kv_key_handle_t \<Rightarrow> 'a kv_region_state_scheme
    \<Rightarrow> (u32 \<times> (u16 \<times> u32) option \<times> kv_key_handle_t \<times> 'a kv_region_state_scheme) option" where
  "kv_store_get_backup_key_attr key_id backup_key s =
     do {
       (res, key, s) \<leftarrow> backup_attr_loop KV_BACKUP_PAGE_NUM (nv_backup_addr (g_kv_nvregion_area s)) key_id backup_key s;
       Some (res, if res \<noteq> ERRCODE_SUCC then None
                  else Some (kh_length (kk_header key), kv_key_attributes key), key, s)
     }"

text \<open>
  What \<open>kv_store_get_key\<close> and \<open>kv_store_get_backup_key\<close> do with the key they found. The result is the
  code, the caller's structure and, once the key is found, its attributes.
\<close>

definition read_found_key :: "kv_key_handle_t \<Rightarrow> kv_store_key_data_t \<Rightarrow> 'a kv_region_state_scheme
    \<Rightarrow> u32 \<times> kv_store_key_data_t \<times> u32 option \<times> 'a kv_region_state_scheme" where
  "read_found_key key key_data s =
     (let attributes = Some (kv_key_attributes key);
          key_data = key_data\<lparr>kvalue_actual_length := kh_length (kk_header key)\<rparr>
      in if kvalue_max_length key_data < kvalue_actual_length key_data
         then (ERRCODE_NV_GET_BUFFER_TOO_SMALL, key_data, attributes, s)
         else
           let (res, bs, s) = kv_key_read_data key (kd_value key_data) s
           in (res, key_data\<lparr>kd_value := bs\<rparr>, attributes, s))"

definition kv_store_get_key :: "u32 \<Rightarrow> u16 \<Rightarrow> kv_store_key_data_t \<Rightarrow> 'a kv_region_state_scheme
    \<Rightarrow> (u32 \<times> kv_store_key_data_t \<times> u32 option \<times> 'a kv_region_state_scheme) option" where
  "kv_store_get_key store key_id key_data s =
     do {
       (res, key, s) \<leftarrow> kv_store_find_valid_key store key_id (nv_stack_key s) s;
       Some (if res \<noteq> ERRCODE_SUCC then (res, key_data, None, s) else read_found_key key key_data s)
     }"

definition kv_store_get_backup_key :: "u16 \<Rightarrow> kv_store_key_data_t \<Rightarrow> u32 \<Rightarrow> 'a kv_region_state_scheme
    \<Rightarrow> (u32 \<times> kv_store_key_data_t \<times> u32 option \<times> 'a kv_region_state_scheme) option" where
  "kv_store_get_backup_key key_id key_data page_location s =
     do {
       (res, key, s) \<leftarrow> kv_store_find_backup_key key_id (nv_stack_key s) page_location s;
       Some (if res \<noteq> ERRCODE_SUCC then (res, key_data, None, s) else read_found_key key key_data s)
     }"

fun backup_read_loop :: "nat \<Rightarrow> u32 \<Rightarrow> u16 \<Rightarrow> kv_store_key_data_t \<Rightarrow> 'a kv_region_state_scheme
    \<Rightarrow> (u32 \<times> kv_store_key_data_t \<times> u32 option \<times> 'a kv_region_state_scheme) option" where
  "backup_read_loop 0 page_location key_id key_data s = Some (ERRCODE_NV_KEY_NOT_FOUND, key_data, None, s)"
| "backup_read_loop (Suc n) page_location key_id key_data s =
     do {
       (res, key_data, attributes, s) \<leftarrow> kv_store_get_backup_key key_id key_data page_location s;
       if res = ERRCODE_SUCC then Some (res, key_data, attributes, s)
       else backup_read_loop n (page_location + KV_PAGE_SIZE) key_id key_data s
     }"

definition kv_store_read_backup_key :: "u16 \<Rightarrow> kv_store_key_data_t \<Rightarrow> 'a kv_region_state_scheme
    \<Rightarrow> (u32 \<times> kv_store_key_data_t \<times> u32 option \<times> 'a kv_region_state_scheme) option" where
  "kv_store_read_backup_key key_id key_data s =
     backup_read_loop KV_BACKUP_PAGE_NUM (nv_backup_addr (g_kv_nvregion_area s)) key_id key_data s"

fun store_status_loop :: "nat \<Rightarrow> u32 \<Rightarrow> u32 \<Rightarrow> nv_store_status_t \<Rightarrow> 'a kv_region_state_scheme
    \<Rightarrow> (nv_store_status_t \<times> 'a kv_region_state_scheme) option" where
  "store_status_loop 0 page_index store st s = Some (st, s)"
| "store_status_loop (Suc n) page_index store st s =
     (let (res, page) = kv_store_get_page_handle store page_index s
      in if res = ERRCODE_SUCC then do {
           (ps, s) \<leftarrow> kv_page_get_status (pg_location page) s;
           store_status_loop n (page_index + 1) store
             \<lparr>st_total_space = st_total_space st + ps_total_space ps,
              st_used_space = st_used_space st + ps_used_space ps,
              st_reclaimable_space = st_reclaimable_space st + ps_reclaimable_space ps,
              st_corrupted_space = st_corrupted_space st + ps_corrupted_space ps,
              st_max_key_space = (if st_max_key_space st < ps_max_key_space ps
                                  then ps_max_key_space ps else st_max_key_space st)\<rparr> s
         }
         else store_status_loop n (page_index + 1) store st s)"

definition kv_store_get_status :: "u32 \<Rightarrow> nv_store_status_t option \<Rightarrow> 'a kv_region_state_scheme
    \<Rightarrow> (u32 \<times> nv_store_status_t option \<times> 'a kv_region_state_scheme) option" where
  "kv_store_get_status store store_status s =
     (if KV_STORE_MAX_NUM \<le> store \<or> store_status = None then Some (ERRCODE_NV_INVALID_PARAMS, store_status, s)
      else do {
        (st, s) \<leftarrow> store_status_loop (unat (kv_store_get_page_count store)) 0 store
          \<lparr>st_total_space = 0, st_used_space = 0, st_reclaimable_space = 0, st_corrupted_space = 0,
           st_max_key_space = 0\<rparr> s;
        Some (ERRCODE_SUCC, Some st, s)
      })"

text \<open>
  \<open>best\<close> is the page to be compacted so far: its handle, its status and how often it was used.
\<close>

fun write_page_loop :: "nat \<Rightarrow> u32 \<Rightarrow> u32 \<Rightarrow> u32 \<Rightarrow> kv_page_handle_t \<Rightarrow> kv_page_status_t
    \<Rightarrow> (kv_page_handle_t \<times> kv_page_status_t \<times> u32) option \<Rightarrow> 'a kv_region_state_scheme
    \<Rightarrow> u32 \<times> kv_page_handle_t \<times> kv_page_status_t" where
  "write_page_loop 0 page_index store required_space page page_status best s =
     (case best of Some (p, ps, t) \<Rightarrow> (ERRCODE_NV_DEFRAGMENTATION_NEEDED, p, ps)
      | None \<Rightarrow> (ERRCODE_NV_NO_ENOUGH_SPACE, page, page_status))"
| "write_page_loop (Suc n) page_index store required_space page page_status best s =
     (let (res, page) = kv_store_get_page_handle store page_index s
      in if res \<noteq> ERRCODE_SUCC then (res, page, page_status)
         else
           let page_status = kv_page_get_status_from_map (pg_location page) page_status s
           in if ps_used_space page_status + required_space \<le> ps_total_space page_status
              then (ERRCODE_SUCC, page, page_status)
              else
                let used_times = kv_nvregion_get_use_times (pg_location page) s;
                    best = (if required_space \<le> ps_max_key_space page_status
                               \<and> (case best of None \<Rightarrow> True | Some (p, ps, t) \<Rightarrow> used_times < t)
                            then Some (page, page_status, used_times) else best)
                in write_page_loop n (page_index + 1) store required_space page page_status best s)"

definition kv_store_find_write_page :: "u32 \<Rightarrow> u32 \<Rightarrow> kv_page_handle_t \<Rightarrow> kv_page_status_t
    \<Rightarrow> 'a kv_region_state_scheme \<Rightarrow> u32 \<times> kv_page_handle_t \<times> kv_page_status_t" where
  "kv_store_find_write_page store required_space page page_status s =
     write_page_loop (unat (kv_store_get_page_count store)) 0 store required_space page page_status None s"

end
