(* ===== verification/NvUpdate.thy ===== *)
theory NvUpdate
  imports NvStore
begin

text \<open>
  Writing to the store, nv_update.c: nested state machines with transition and action tables, a write
  buffer that is filled from a list of source buffers, and the loop that runs them. The list of active
  machines has the current one at its head. A machine whose write fails is suspended; on this chip
  (one core) a suspension ends all machines.
\<close>

section \<open>Data\<close>

abbreviation (input) KV_WRITE_KEY_BUFFER_SIZE :: u32 where "KV_WRITE_KEY_BUFFER_SIZE \<equiv> 128"
abbreviation (input) KV_WRITE_CHUNK_SIZE :: u32 where "KV_WRITE_CHUNK_SIZE \<equiv> 32"
abbreviation (input) ERRCODE_NV_TRYING_TO_MODIFY_A_PERMANENT_KEY :: u32 where "ERRCODE_NV_TRYING_TO_MODIFY_A_PERMANENT_KEY \<equiv> 0x80003085"
abbreviation (input) ERRCODE_NV_KEY_HASH_BUFFER_NOT_ALLOCATED :: u32 where "ERRCODE_NV_KEY_HASH_BUFFER_NOT_ALLOCATED \<equiv> 0x80003098"
abbreviation (input) ERRCODE_NV_KEY_DATA_BUFFER_NOT_ALLOCATED :: u32 where "ERRCODE_NV_KEY_DATA_BUFFER_NOT_ALLOCATED \<equiv> 0x80003099"
abbreviation (input) ERRCODE_NV_HASH_UNAVAILABLE :: u32 where "ERRCODE_NV_HASH_UNAVAILABLE \<equiv> 0x80003109"
abbreviation (input) ERRCODE_NV_BUFFER_PRIMED_PREMATURELY :: u32 where "ERRCODE_NV_BUFFER_PRIMED_PREMATURELY \<equiv> 0x80003111"
abbreviation (input) ERRCODE_NV_KEY_HASH_BUFFER_TOO_SMALL :: u32 where "ERRCODE_NV_KEY_HASH_BUFFER_TOO_SMALL \<equiv> 0x80003112"
abbreviation (input) ERRCODE_NV_WRITE_BUFFER_NOT_ALLOCATED :: u32 where "ERRCODE_NV_WRITE_BUFFER_NOT_ALLOCATED \<equiv> 0x80003113"
abbreviation (input) ERRCODE_NV_WRITE_BUFFER_TOO_SMALL :: u32 where "ERRCODE_NV_WRITE_BUFFER_TOO_SMALL \<equiv> 0x80003114"
abbreviation (input) ERRCODE_NV_WRITE_VETOED :: u32 where "ERRCODE_NV_WRITE_VETOED \<equiv> 0x80003115"
abbreviation (input) ERRCODE_NV_KEY_HEADER_BUFFER_NOT_ALLOCATED :: u32 where "ERRCODE_NV_KEY_HEADER_BUFFER_NOT_ALLOCATED \<equiv> 0x80003116"
abbreviation (input) ERRCODE_NV_STATE_INVALID :: u32 where "ERRCODE_NV_STATE_INVALID \<equiv> 0x80003117"
abbreviation (input) ERRCODE_FLASH_TASK_PE_VETO :: u32 where "ERRCODE_FLASH_TASK_PE_VETO \<equiv> 0x80003132"
abbreviation (input) FLASH_TASK_BEING_PROCESSED :: u32 where "FLASH_TASK_BEING_PROCESSED \<equiv> 0x80002043"
abbreviation (input) FLASH_TASK_COMPLETED :: u32 where "FLASH_TASK_COMPLETED \<equiv> 0x80003130"

datatype kv_update_state_t = STATE_INVALID | STATE_SELECT_FIRST_PAGE | STATE_SELECT_NEXT_PAGE
  | STATE_FIND_FIRST_KEY | STATE_FIND_NEXT_KEY | STATE_FIND_EXISTING_KEY | STATE_PREP_COPY_KEY
  | STATE_PREP_DELETE_KEY | STATE_PREP_MODIFY_KEY | STATE_UPDATE_MAP_FOR_OLD
  | STATE_FIND_DEFRAG | STATE_ERASE_DEFRAG | STATE_PREP_DEFRAG | STATE_COPY_ALL_KEYS
  | STATE_PREP_PAGE_HEADER | STATE_WRITE_PAGE_HEADER | STATE_UPDATE_NVREGION_MAP
  | STATE_FIND_WRITE_POS | STATE_DEFRAG_PAGE | STATE_PREP_STORE | STATE_PREP_KEY_DATA
  | STATE_CLAIM_CRYPTO | STATE_ERASE_OLD_KEYS | STATE_PRIME_WRITE | STATE_PERFORM_WRITE
  | STATE_UPDATE_MAP_FOR_NEW | STATE_SUSPENDED | STATE_EXIT

datatype kv_update_event_t = EVENT_NONE | EVENT_SUSPEND | EVENT_WRITE_DATA_EXHAUSTED
  | EVENT_WRITE_BUFFER_PRIMED | EVENT_WRITE_BUFFER_STORED | EVENT_PAGE_SELECTED | EVENT_PAGE_NOT_SELECTED
  | EVENT_KEY_FOUND | EVENT_KEY_NOT_FOUND | EVENT_COPY_KEY_READY | EVENT_KEYS_ERASED
  | EVENT_KEY_UPDATE_REQUIRED | EVENT_KEY_UPDATE_NOT_NEEDED | EVENT_DEFRAG_FOUND | EVENT_DEFRAG_ERASED
  | EVENT_DEFRAG_PREPARED | EVENT_ALL_KEYS_COPIED | EVENT_PAGE_HEADER_READY | EVENT_NVREGION_MAP_UPDATED
  | EVENT_DEFRAG_REQUIRED | EVENT_DEFRAG_COMPLETE | EVENT_WRITE_POS_FOUND | EVENT_STORE_READY
  | EVENT_KEY_DATA_READY | EVENT_CRYPTO_CLAIMED | EVENT_WRITE_COMPLETE | EVENT_PAGE_MAP_UPDATED | EVENT_ERROR

text \<open>The machine descriptions are constants; a machine is named by its constant.\<close>

datatype kv_state_machine_t = g_erase_keys_machine | g_prep_defrag_page_machine | g_copy_all_keys_machine
  | g_defrag_page_machine | g_prepare_store_machine | g_write_key_machine

text \<open>
  Where the data of a source buffer are: the header of the current key, a buffer in RAM with its bytes,
  or an address in the flash.
\<close>

datatype source_data = CurrentHeader | RamBytes "u8 list" | FlashAt u32

record kv_managed_source_buffer_t =
  sb_data :: source_data
  sb_data_length :: u16
  sb_data_consumed :: u16
  sb_release_data :: bool
  sb_receive_hash :: bool
  sb_crc_data :: bool
  sb_encrypt_data :: bool

record kv_managed_write_buffer_t =
  wb_data :: "u8 list"
  wb_write_location :: u32
  wb_resume_location :: u32
  wb_crypto_handle :: u32
  wb_size :: u16
  wb_data_length :: u16
  wb_crc_ret :: u32
  wb_data_consumed :: u16
  wb_crc_claimed :: bool

text \<open>\<open>sm_current_source\<close> is a position in the list of source buffers; \<open>None\<close> is the null pointer.\<close>

record kv_active_state_machine_t =
  sm_machine :: kv_state_machine_t
  sm_write_buffer :: "kv_managed_write_buffer_t option"
  sm_source_buffer :: "kv_managed_source_buffer_t list"
  sm_current_source :: "nat option"
  sm_state :: kv_update_state_t
  sm_event :: kv_update_event_t
  sm_error_code :: u32

record kv_update_state = kv_region_state +
  g_machines :: "kv_active_state_machine_t list"
  g_search_filter :: kv_key_filter_t
  g_new_key_details :: kv_key_details_t
  g_current_key :: kv_key_handle_t
  g_current_page :: kv_page_handle_t
  g_current_store :: u32
  g_current_store_write_location :: u32
  g_defrag_page_location :: u32

definition g_current_state_machine :: "'a kv_update_state_scheme \<Rightarrow> kv_active_state_machine_t" where
  "g_current_state_machine s = hd (g_machines s)"

definition set_machine :: "(kv_active_state_machine_t \<Rightarrow> kv_active_state_machine_t)
    \<Rightarrow> 'a kv_update_state_scheme \<Rightarrow> 'a kv_update_state_scheme" where
  "set_machine f s = s\<lparr>g_machines := f (hd (g_machines s)) # tl (g_machines s)\<rparr>"

definition set_error :: "u32 \<Rightarrow> 'a kv_update_state_scheme \<Rightarrow> 'a kv_update_state_scheme" where
  "set_error res s = set_machine (\<lambda>m. m\<lparr>sm_error_code := res\<rparr>) s"

definition set_write_buffer :: "kv_managed_write_buffer_t option \<Rightarrow> 'a kv_update_state_scheme \<Rightarrow> 'a kv_update_state_scheme" where
  "set_write_buffer wb s = set_machine (\<lambda>m. m\<lparr>sm_write_buffer := wb\<rparr>) s"

section \<open>Starting and ending machines\<close>

definition machine_initial_state :: "kv_state_machine_t \<Rightarrow> kv_update_state_t" where
  "machine_initial_state m = (case m of
      g_erase_keys_machine \<Rightarrow> STATE_SELECT_FIRST_PAGE
    | g_prep_defrag_page_machine \<Rightarrow> STATE_FIND_DEFRAG
    | g_copy_all_keys_machine \<Rightarrow> STATE_FIND_FIRST_KEY
    | g_defrag_page_machine \<Rightarrow> STATE_PREP_DEFRAG
    | g_prepare_store_machine \<Rightarrow> STATE_FIND_WRITE_POS
    | g_write_key_machine \<Rightarrow> STATE_PREP_STORE)"

definition machine_exit_event :: "kv_state_machine_t \<Rightarrow> kv_update_event_t" where
  "machine_exit_event m = (case m of
      g_erase_keys_machine \<Rightarrow> EVENT_KEYS_ERASED
    | g_prep_defrag_page_machine \<Rightarrow> EVENT_DEFRAG_PREPARED
    | g_copy_all_keys_machine \<Rightarrow> EVENT_ALL_KEYS_COPIED
    | g_defrag_page_machine \<Rightarrow> EVENT_DEFRAG_COMPLETE
    | g_prepare_store_machine \<Rightarrow> EVENT_STORE_READY
    | g_write_key_machine \<Rightarrow> EVENT_WRITE_COMPLETE)"

definition machine_write_buffer_size :: "kv_state_machine_t \<Rightarrow> u32" where
  "machine_write_buffer_size m = (case m of
      g_erase_keys_machine \<Rightarrow> 4
    | g_prep_defrag_page_machine \<Rightarrow> 0
    | g_copy_all_keys_machine \<Rightarrow> KV_WRITE_KEY_BUFFER_SIZE
    | g_defrag_page_machine \<Rightarrow> 16
    | g_prepare_store_machine \<Rightarrow> 0
    | g_write_key_machine \<Rightarrow> KV_WRITE_KEY_BUFFER_SIZE)"

definition kv_create_write_buffer :: "u32 \<Rightarrow> u32 \<Rightarrow> 'a kv_update_state_scheme \<Rightarrow> u32 \<times> 'a kv_update_state_scheme" where
  "kv_create_write_buffer write_location sz s =
     (if sz = 0 then (ERRCODE_INVALID_PARAM, s)
      else if sm_write_buffer (g_current_state_machine s) \<noteq> None then (ERRCODE_FAIL, s)
      else
        let (ok, s) = kv_malloc s
        in if \<not> ok then (ERRCODE_MALLOC, s)
           else
             let (ok, s) = kv_malloc s
             in if \<not> ok then (ERRCODE_MALLOC, s)
                else (ERRCODE_SUCC, set_write_buffer (Some \<lparr>wb_data = replicate (unat sz) 0,
                        wb_write_location = write_location, wb_resume_location = write_location,
                        wb_crypto_handle = 0, wb_size = ucast sz, wb_data_length = 0, wb_crc_ret = 0,
                        wb_data_consumed = ucast sz, wb_crc_claimed = False\<rparr>) s))"

definition begin_state_machine :: "kv_state_machine_t \<Rightarrow> 'a kv_update_state_scheme \<Rightarrow> u32 \<times> 'a kv_update_state_scheme" where
  "begin_state_machine machine s =
     (let (ok, s) = kv_malloc s
      in if \<not> ok then (ERRCODE_MALLOC, s)
         else
           let s = s\<lparr>g_machines := \<lparr>sm_machine = machine, sm_write_buffer = None, sm_source_buffer = [],
                       sm_current_source = None, sm_state = machine_initial_state machine,
                       sm_event = EVENT_NONE, sm_error_code = ERRCODE_SUCC\<rparr> # g_machines s\<rparr>
           in if 0 < machine_write_buffer_size machine
              then kv_create_write_buffer 0 (machine_write_buffer_size machine) s else (ERRCODE_SUCC, s))"

text \<open>The buffers of the machine go with it.\<close>

definition end_state_machine :: "'a kv_update_state_scheme \<Rightarrow> 'a kv_update_state_scheme" where
  "end_state_machine s =
     (case g_machines s of [] \<Rightarrow> s
      | m # ms \<Rightarrow>
          s\<lparr>g_machines := (case ms of [] \<Rightarrow> []
             | p # ps \<Rightarrow> p\<lparr>sm_event := (if machine_exit_event (sm_machine m) \<noteq> EVENT_NONE
                                        then machine_exit_event (sm_machine m) else sm_event m)\<rparr> # ps)\<rparr>)"

text \<open>The loop ends every machine on the list.\<close>

definition clean_state_machine :: "'a kv_update_state_scheme \<Rightarrow> 'a kv_update_state_scheme" where
  "clean_state_machine s = (end_state_machine ^^ length (g_machines s)) s"

definition kv_release_crypto :: "'a kv_update_state_scheme \<Rightarrow> 'a kv_update_state_scheme" where
  "kv_release_crypto s =
     (if g_machines s = [] then s
      else case sm_write_buffer (g_current_state_machine s) of None \<Rightarrow> s
        | Some wb \<Rightarrow> set_write_buffer (Some (if wb_crc_claimed wb then wb\<lparr>wb_crc_ret := 0, wb_crc_claimed := False\<rparr> else wb)) s)"

text \<open>A new source buffer at the end of the list; the position is \<open>None\<close> if there is no memory.\<close>

definition kv_update_source_buffer :: "source_data \<Rightarrow> u32 \<Rightarrow> 'a kv_update_state_scheme \<Rightarrow> nat option \<times> 'a kv_update_state_scheme" where
  "kv_update_source_buffer d data_length s =
     (let (ok, s) = kv_malloc s
      in if \<not> ok then (None, s)
         else (Some (length (sm_source_buffer (g_current_state_machine s))),
               set_machine (\<lambda>m. m\<lparr>sm_source_buffer := sm_source_buffer m @
                 [\<lparr>sb_data = d, sb_data_length = ucast data_length, sb_data_consumed = 0, sb_release_data = False,
                   sb_receive_hash = False, sb_crc_data = False, sb_encrypt_data = False\<rparr>]\<rparr>) s))"

definition set_source :: "nat \<Rightarrow> (kv_managed_source_buffer_t \<Rightarrow> kv_managed_source_buffer_t)
    \<Rightarrow> 'a kv_update_state_scheme \<Rightarrow> 'a kv_update_state_scheme" where
  "set_source i f s = set_machine (\<lambda>m. m\<lparr>sm_source_buffer := (sm_source_buffer m)[i := f (sm_source_buffer m ! i)]\<rparr>) s"

section \<open>The write buffer\<close>

text \<open>The loop that writes the buffer in chunks of 32 bytes; the result is the code of the last write.\<close>

function store_chunks :: "kv_managed_write_buffer_t \<Rightarrow> 'a nv_world_scheme
    \<Rightarrow> u32 \<times> kv_managed_write_buffer_t \<times> 'a nv_world_scheme" where
  "store_chunks wb s =
     (if wb_data_consumed wb < wb_data_length wb then
        let write_length = min KV_WRITE_CHUNK_SIZE (ucast (wb_data_length wb - wb_data_consumed wb));
            (ret, s1) = kv_key_write_flash (wb_write_location wb)
                          (take (unat write_length) (drop (unat (wb_data_consumed wb)) (wb_data wb))) s
        in if ret \<noteq> ERRCODE_SUCC then (ret, wb, s1)
           else store_chunks (wb\<lparr>wb_data_consumed := wb_data_consumed wb + ucast write_length,
                                 wb_write_location := wb_write_location wb + write_length\<rparr>) s1
      else (ERRCODE_SUCC, wb, s))"
  by pat_completeness auto

lemma store_chunk_step:
  fixes a b :: u16
  assumes "a < b"
  shows "unat b - unat (a + ucast (min (32 :: u32) (ucast (b - a)))) < unat b - unat a"
    and "unat (a + ucast (min (32 :: u32) (ucast (b - a)))) = min (unat a + 32) (unat b)"
    and "unat (min (32 :: u32) (ucast (b - a))) = min 32 (unat b - unat a)"
proof -
  have ba: "unat (b - a) = unat b - unat a" using assms by (simp add: unat_sub)
  show m: "unat (min (32 :: u32) (ucast (b - a))) = min 32 (unat b - unat a)"
    by (simp add: min_def word_le_nat_alt unat_ucast_u16_u32 ba)
  have u: "unat (ucast (min (32 :: u32) (ucast (b - a))) :: u16) = min 32 (unat b - unat a)"
    using m by (simp add: unat_ucast_u32_u16)
  have s: "unat (a + ucast (min (32 :: u32) (ucast (b - a)))) = unat a + min 32 (unat b - unat a)"
    using assms unat_u16_less [of b] by (subst unat_add_lem [THEN iffD1]) (auto simp: u word_less_nat_alt)
  show "unat b - unat (a + ucast (min (32 :: u32) (ucast (b - a)))) < unat b - unat a"
    using assms by (simp add: s word_less_nat_alt)
  show "unat (a + ucast (min (32 :: u32) (ucast (b - a)))) = min (unat a + 32) (unat b)"
    using assms by (simp add: s word_less_nat_alt)
qed

termination store_chunks
  by (relation "measure (\<lambda>(wb, s). unat (wb_data_length wb) - unat (wb_data_consumed wb))")
    (auto simp: store_chunk_step(1))

declare store_chunks.simps [simp del]

definition kv_update_action_store_write_buffer :: "'a kv_update_state_scheme \<Rightarrow> kv_update_event_t \<times> 'a kv_update_state_scheme" where
  "kv_update_action_store_write_buffer s =
     (let wb = the (sm_write_buffer (g_current_state_machine s));
          wb = (if wb_write_location wb < wb_resume_location wb then
                  let already = wb_resume_location wb - wb_write_location wb;
                      already = (if ucast (wb_data_length wb) < already then ucast (wb_data_length wb) else already)
                  in wb\<lparr>wb_data_consumed := wb_data_consumed wb + ucast already,
                        wb_write_location := wb_write_location wb + already\<rparr>
                else wb);
          (ret, wb, s) = store_chunks wb s
      in if ret \<noteq> ERRCODE_SUCC
         then (EVENT_SUSPEND, set_write_buffer (Some (wb\<lparr>wb_resume_location := wb_write_location wb\<rparr>)) s)
         else (EVENT_WRITE_BUFFER_STORED, set_write_buffer (Some wb) s))"

definition kv_update_hash_encrypt_chunk :: "kv_managed_write_buffer_t \<Rightarrow> kv_managed_source_buffer_t
    \<Rightarrow> u32 \<Rightarrow> u8 list \<Rightarrow> u32 \<times> kv_managed_write_buffer_t" where
  "kv_update_hash_encrypt_chunk write_buffer source_buffer chunk_dest chunk =
     (if sb_crc_data source_buffer then
        if \<not> wb_crc_claimed write_buffer then (ERRCODE_NV_HASH_UNAVAILABLE, write_buffer)
        else (ERRCODE_SUCC, write_buffer\<lparr>wb_crc_ret := uapi_crc32 (wb_crc_ret write_buffer) chunk_dest (Some chunk)\<rparr>)
      else (ERRCODE_SUCC, write_buffer))"

text \<open>The bytes a source buffer stands for, when they are in RAM.\<close>

definition ram_data :: "source_data \<Rightarrow> 'a kv_update_state_scheme \<Rightarrow> u8 list" where
  "ram_data d s = (case d of CurrentHeader \<Rightarrow> header_bytes (kk_header (g_current_key s))
     | RamBytes bs \<Rightarrow> bs | FlashAt a \<Rightarrow> [])"

definition prime_next_chunk :: "'a kv_update_state_scheme \<Rightarrow> u32 \<times> 'a kv_update_state_scheme" where
  "prime_next_chunk s =
     (let m = g_current_state_machine s; i = the (sm_current_source m); sb = sm_source_buffer m ! i;
          wb = the (sm_write_buffer m);
          remaining_dest_space = ucast (wb_size wb) - ucast (wb_data_length wb) :: u32;
          remaining_src_data = ucast (sb_data_length sb) - ucast (sb_data_consumed sb) :: u32;
          chunk_len = ucast (min remaining_dest_space remaining_src_data) :: u16;
          attributes = (if sb_encrypt_data sb then 2 else 0) :: u32
      in if remaining_dest_space < ucast (kv_key_padded_data_length attributes chunk_len)
         then (ERRCODE_NV_BUFFER_PRIMED_PREMATURELY, s)
         else
           let (res, bs, s) = (case sb_data sb of
                   FlashAt a \<Rightarrow> kv_key_helper_copy_flash (drop (unat (wb_data_length wb)) (wb_data wb))
                                   (a + ucast (sb_data_consumed sb)) chunk_len s
                 | d \<Rightarrow> (ERRCODE_SUCC, buf_put (drop (unat (wb_data_length wb)) (wb_data wb)) 0
                            (take (unat chunk_len) (drop (unat (sb_data_consumed sb)) (ram_data d s))), s))
           in if res \<noteq> ERRCODE_SUCC then (res, s)
              else
                let wb = wb\<lparr>wb_data := take (unat (wb_data_length wb)) (wb_data wb) @ bs\<rparr>;
                    chunk_len = kv_key_padded_data_length attributes chunk_len;
                    (ret, wb) = kv_update_hash_encrypt_chunk wb sb (ucast (wb_data_length wb))
                                  (take (unat chunk_len) (drop (unat (wb_data_length wb)) (wb_data wb)));
                    s = set_write_buffer (Some wb) s
                in if ret \<noteq> ERRCODE_SUCC then (ret, s)
                   else (ERRCODE_SUCC,
                         set_write_buffer (Some (wb\<lparr>wb_data_length := wb_data_length wb + chunk_len\<rparr>))
                           (set_source i (\<lambda>sb. sb\<lparr>sb_data_consumed := sb_data_consumed sb + chunk_len\<rparr>) s)))"

definition select_next_source_buffer :: "'a kv_update_state_scheme \<Rightarrow> u32 \<times> 'a kv_update_state_scheme" where
  "select_next_source_buffer s =
     (let m = g_current_state_machine s; i = Suc (the (sm_current_source m));
          wb = the (sm_write_buffer m);
          next = (if i < length (sm_source_buffer m) then Some i else None);
          s = set_machine (\<lambda>m. m\<lparr>sm_current_source := next\<rparr>) s
      in if next \<noteq> None \<and> sb_receive_hash (sm_source_buffer m ! i) then
           if wb_crc_claimed wb then
             if sb_data_length (sm_source_buffer m ! i) < KV_CRYPTO_CRC_SIZE
             then (ERRCODE_NV_KEY_HASH_BUFFER_TOO_SMALL, s)
             else
               let crc = kv_crc32_swap (wb_crc_ret wb)
               in (ERRCODE_SUCC,
                   set_write_buffer (Some (wb\<lparr>wb_crc_ret := crc, wb_crc_claimed := False\<rparr>))
                     (set_source i (\<lambda>sb. sb\<lparr>sb_data := RamBytes (buf_put (ram_data (sb_data sb) s) 0 (bytes32 crc)),
                                            sb_data_length := KV_CRYPTO_CRC_SIZE\<rparr>) s))
           else (ERRCODE_NV_HASH_UNAVAILABLE, s)
         else (ERRCODE_SUCC, s))"

text \<open>The loop that gathers data; the result is the code, where a full buffer is a success.\<close>

partial_function (option) prime_loop :: "'a kv_update_state_scheme \<Rightarrow> (u32 \<times> 'a kv_update_state_scheme) option" where
  "prime_loop s =
     (let m = g_current_state_machine s; wb = the (sm_write_buffer m)
      in case sm_current_source m of None \<Rightarrow> Some (ERRCODE_SUCC, s)
         | Some i \<Rightarrow>
             if wb_data_length wb < wb_size wb then
               let sb = sm_source_buffer m ! i
               in if sb_data_consumed sb < sb_data_length sb then
                    let (res, s) = prime_next_chunk s
                    in if res = ERRCODE_NV_BUFFER_PRIMED_PREMATURELY then Some (ERRCODE_SUCC, s)
                       else if res \<noteq> ERRCODE_SUCC then Some (res, s) else prime_loop s
                  else
                    let (res, s) = select_next_source_buffer s
                    in if res \<noteq> ERRCODE_SUCC then Some (res, s) else prime_loop s
             else Some (ERRCODE_SUCC, s))"

definition kv_update_action_prime_write_buffer :: "'a kv_update_state_scheme
    \<Rightarrow> (kv_update_event_t \<times> 'a kv_update_state_scheme) option" where
  "kv_update_action_prime_write_buffer s =
     (let wb = the (sm_write_buffer (g_current_state_machine s));
          s = set_write_buffer (Some (wb\<lparr>wb_data := replicate (length (wb_data wb)) 0, wb_data_length := 0,
                                         wb_data_consumed := 0\<rparr>)) s
      in do {
        (res, s) \<leftarrow> prime_loop s;
        Some (if res \<noteq> ERRCODE_SUCC then (EVENT_ERROR, set_error res s)
              else if wb_data_length (the (sm_write_buffer (g_current_state_machine s))) = 0
              then (EVENT_WRITE_DATA_EXHAUSTED, kv_release_crypto s)
              else (EVENT_WRITE_BUFFER_PRIMED, s))
      })"

section \<open>The actions\<close>

definition kv_update_action_select_first_page :: "'a kv_update_state_scheme \<Rightarrow> kv_update_event_t \<times> 'a kv_update_state_scheme" where
  "kv_update_action_select_first_page s =
     (let (res, page) = kv_store_get_page_handle (g_current_store s) 0 s; s = s\<lparr>g_current_page := page\<rparr>
      in (if res = ERRCODE_SUCC then EVENT_PAGE_SELECTED else EVENT_PAGE_NOT_SELECTED, s))"

definition kv_update_action_select_next_page :: "'a kv_update_state_scheme \<Rightarrow> kv_update_event_t \<times> 'a kv_update_state_scheme" where
  "kv_update_action_select_next_page s =
     (let (res, index) = kv_page_get_index (g_current_page s); page_index = the index + 1
      in if res \<noteq> ERRCODE_SUCC then (EVENT_PAGE_NOT_SELECTED, s)
         else if page_index < ucast (kv_store_get_page_count (g_current_store s)) then
           let (res, page) = kv_store_get_page_handle (g_current_store s) page_index s; s = s\<lparr>g_current_page := page\<rparr>
           in (if res = ERRCODE_SUCC then EVENT_PAGE_SELECTED else EVENT_PAGE_NOT_SELECTED, s)
         else (EVENT_PAGE_NOT_SELECTED, s))"

text \<open>The loop that passes over the key at the location of the filter.\<close>

partial_function (option) find_other_key :: "u32 \<Rightarrow> 'a kv_update_state_scheme
    \<Rightarrow> (kv_update_event_t \<times> 'a kv_update_state_scheme) option" where
  "find_other_key res s =
     (if res = ERRCODE_SUCC then
        if kk_location (g_current_key s) \<noteq> kf_location (g_search_filter s) then Some (EVENT_KEY_FOUND, s)
        else do {
          (res, key, s) \<leftarrow> kv_page_find_next_key (Some (g_search_filter s)) (g_current_key s) s;
          find_other_key res (s\<lparr>g_current_key := key\<rparr>)
        }
      else Some (EVENT_KEY_NOT_FOUND, s))"

definition kv_update_action_find_first_key :: "'a kv_update_state_scheme
    \<Rightarrow> (kv_update_event_t \<times> 'a kv_update_state_scheme) option" where
  "kv_update_action_find_first_key s =
     do {
       (res, key, s) \<leftarrow> kv_page_find_first_key (pg_location (g_current_page s)) (Some (g_search_filter s)) (g_current_key s) s;
       find_other_key res (s\<lparr>g_current_key := key\<rparr>)
     }"

definition kv_update_action_find_next_key :: "'a kv_update_state_scheme
    \<Rightarrow> (kv_update_event_t \<times> 'a kv_update_state_scheme) option" where
  "kv_update_action_find_next_key s =
     do {
       (res, key, s) \<leftarrow> kv_page_find_next_key (Some (g_search_filter s)) (g_current_key s) s;
       find_other_key res (s\<lparr>g_current_key := key\<rparr>)
     }"

definition kv_update_action_prepare_delete_key :: "'a kv_update_state_scheme \<Rightarrow> kv_update_event_t \<times> 'a kv_update_state_scheme" where
  "kv_update_action_prepare_delete_key s =
     (if kv_key_attributes (g_current_key s) AND KV_ATTRIBUTE_PERMANENT \<noteq> 0 \<and> \<not> kd_focre_write (g_new_key_details s)
      then (EVENT_ERROR, set_error ERRCODE_NV_TRYING_TO_MODIFY_A_PERMANENT_KEY s)
      else case sm_write_buffer (g_current_state_machine s) of
          None \<Rightarrow> (EVENT_ERROR, set_error ERRCODE_NV_WRITE_BUFFER_NOT_ALLOCATED s)
        | Some wb \<Rightarrow>
            if wb_size wb < 4 then (EVENT_ERROR, set_error ERRCODE_NV_WRITE_BUFFER_TOO_SMALL s)
            else
              let wb = wb\<lparr>wb_data := buf_put (wb_data wb) 0 [0, 0, 0, 0], wb_data_consumed := 0\<rparr>;
                  wb = (if g_nv_header_magic s = KV_KEY_MAGIC
                        then wb\<lparr>wb_data_length := 1, wb_write_location := kk_location (g_current_key s) + 1\<rparr>
                        else wb\<lparr>wb_data_length := 2, wb_write_location := kk_location (g_current_key s)\<rparr>)
              in (EVENT_WRITE_BUFFER_PRIMED, set_write_buffer (Some wb) s))"

definition kv_update_action_prepare_copy_key :: "'a kv_update_state_scheme \<Rightarrow> kv_update_event_t \<times> 'a kv_update_state_scheme" where
  "kv_update_action_prepare_copy_key s =
     (case sm_write_buffer (g_current_state_machine s) of
        None \<Rightarrow> (EVENT_ERROR, set_error ERRCODE_NV_WRITE_BUFFER_NOT_ALLOCATED s)
      | Some wb \<Rightarrow>
          let wb = (if wb_write_location wb = 0 then wb\<lparr>wb_write_location := g_defrag_page_location s + 16\<rparr> else wb);
              s = set_write_buffer (Some wb) s;
              (i, s) = kv_update_source_buffer (FlashAt (kk_location (g_current_key s)))
                         (ucast (kv_key_flash_size (g_current_key s))) s;
              s = set_machine (\<lambda>m. m\<lparr>sm_current_source := i\<rparr>) s
          in if i = None then (EVENT_ERROR, set_error ERRCODE_MALLOC s) else (EVENT_COPY_KEY_READY, s))"

definition kv_update_action_find_defrag_page :: "'a kv_update_state_scheme \<Rightarrow> kv_update_event_t \<times> 'a kv_update_state_scheme" where
  "kv_update_action_find_defrag_page s =
     (let (res, loc) = kv_nvregion_find_unused_page s
      in if res = ERRCODE_SUCC then (EVENT_DEFRAG_FOUND, s\<lparr>g_defrag_page_location := loc\<rparr>)
         else (EVENT_ERROR, set_error res (s\<lparr>g_defrag_page_location := 0\<rparr>)))"

definition kv_update_action_erase_defrag_page :: "'a kv_update_state_scheme \<Rightarrow> kv_update_event_t \<times> 'a kv_update_state_scheme" where
  "kv_update_action_erase_defrag_page s =
     (let (res, s) = kv_nvregion_erase_page (g_defrag_page_location s) s
      in if res = ERRCODE_SUCC then (EVENT_DEFRAG_ERASED, s)
         else if res = ERRCODE_NV_WRITE_VETOED then (EVENT_SUSPEND, s)
         else (EVENT_ERROR, set_error res s))"

text \<open>An action that starts another machine.\<close>

definition start_machine :: "kv_state_machine_t \<Rightarrow> 'a kv_update_state_scheme \<Rightarrow> kv_update_event_t \<times> 'a kv_update_state_scheme" where
  "start_machine m s =
     (let (res, s) = begin_state_machine m s
      in if res = ERRCODE_SUCC then (EVENT_NONE, s) else (EVENT_ERROR, set_error res s))"

definition kv_update_action_prepare_defrag_page :: "'a kv_update_state_scheme \<Rightarrow> kv_update_event_t \<times> 'a kv_update_state_scheme" where
  "kv_update_action_prepare_defrag_page s = start_machine g_prep_defrag_page_machine s"

definition kv_update_action_copy_all_keys :: "'a kv_update_state_scheme \<Rightarrow> kv_update_event_t \<times> 'a kv_update_state_scheme" where
  "kv_update_action_copy_all_keys s =
     start_machine g_copy_all_keys_machine (s\<lparr>g_search_filter := \<lparr>kf_location = 0, kf_pattern = 0, kf_mask = 0,
        kf_state = KV_KEY_FILTER_STATE_VALID, kf_type = KV_KEY_FILTER_TYPE_ANY\<rparr>\<rparr>)"

definition kv_update_action_prepare_page_header :: "'a kv_update_state_scheme \<Rightarrow> kv_update_event_t \<times> 'a kv_update_state_scheme" where
  "kv_update_action_prepare_page_header s =
     (case sm_write_buffer (g_current_state_machine s) of
        None \<Rightarrow> (EVENT_ERROR, set_error ERRCODE_NV_WRITE_BUFFER_NOT_ALLOCATED s)
      | Some wb \<Rightarrow>
          let h = pg_header (g_current_page s);
              h = h\<lparr>ph_sequence_number := ph_sequence_number h + 1\<rparr>;
              h = h\<lparr>ph_inverted_sequence_number := NOT (ph_sequence_number h)\<rparr>
          in (EVENT_WRITE_BUFFER_PRIMED, set_write_buffer (Some (wb\<lparr>wb_write_location := g_defrag_page_location s,
                wb_data := buf_put (wb_data wb) 0 (page_header_bytes h), wb_data_length := 16, wb_data_consumed := 0\<rparr>)) s))"

definition kv_update_action_update_nvregion_map :: "'a kv_update_state_scheme
    \<Rightarrow> (kv_update_event_t \<times> 'a kv_update_state_scheme) option" where
  "kv_update_action_update_nvregion_map s =
     do {
       (res, s) \<leftarrow> kv_nvregion_scan s;
       Some (if res \<noteq> ERRCODE_SUCC then (EVENT_ERROR, set_error res s) else (EVENT_NVREGION_MAP_UPDATED, s))
     }"

definition kv_update_action_find_write_position :: "'a kv_update_state_scheme \<Rightarrow> kv_update_event_t \<times> 'a kv_update_state_scheme" where
  "kv_update_action_find_write_position s =
     (let new_key = kv_key_build_from_new (nv_stack_key s) (g_new_key_details s) 0 s;
          required_space = kv_key_flash_size new_key;
          (res, page, page_status) = kv_store_find_write_page (g_current_store s) (ucast required_space) (g_current_page s)
             \<lparr>ps_total_space = 0, ps_used_space = 0, ps_reclaimable_space = 0, ps_corrupted_space = 0,
              ps_max_key_space = 0, ps_first_writable_location = 0\<rparr> s;
          s = s\<lparr>g_current_page := page\<rparr>
      in if res = ERRCODE_SUCC
         then (EVENT_WRITE_POS_FOUND, s\<lparr>g_current_store_write_location := ps_first_writable_location page_status\<rparr>)
         else if res = ERRCODE_NV_DEFRAGMENTATION_NEEDED then (EVENT_DEFRAG_REQUIRED, s)
         else (EVENT_ERROR, set_error res s))"

definition kv_update_action_defrag_current_page :: "'a kv_update_state_scheme \<Rightarrow> kv_update_event_t \<times> 'a kv_update_state_scheme" where
  "kv_update_action_defrag_current_page s = start_machine g_defrag_page_machine s"

definition kv_update_action_prepare_store :: "'a kv_update_state_scheme \<Rightarrow> kv_update_event_t \<times> 'a kv_update_state_scheme" where
  "kv_update_action_prepare_store s = start_machine g_prepare_store_machine s"

definition kv_update_helper_prepare_write_buffer :: "'a kv_update_state_scheme \<Rightarrow> kv_update_event_t \<times> 'a kv_update_state_scheme" where
  "kv_update_helper_prepare_write_buffer s =
     (case sm_write_buffer (g_current_state_machine s) of
        None \<Rightarrow> (EVENT_ERROR, set_error ERRCODE_NV_WRITE_BUFFER_NOT_ALLOCATED s)
      | Some wb \<Rightarrow> (EVENT_KEY_DATA_READY,
          set_write_buffer (Some (wb\<lparr>wb_write_location := g_current_store_write_location s\<rparr>)) s))"

definition kv_update_helper_setup_key_header_source_buffer :: "'a kv_update_state_scheme
    \<Rightarrow> kv_update_event_t \<times> 'a kv_update_state_scheme" where
  "kv_update_helper_setup_key_header_source_buffer s =
     (let (i, s) = kv_update_source_buffer CurrentHeader 16 s
      in case i of None \<Rightarrow> (EVENT_ERROR, set_error ERRCODE_NV_KEY_HEADER_BUFFER_NOT_ALLOCATED s)
         | Some i \<Rightarrow> (EVENT_KEY_DATA_READY, set_source i (\<lambda>sb. sb\<lparr>sb_crc_data := True, sb_encrypt_data := False\<rparr>) s))"

definition kv_update_helper_setup_key_data_source_buffer :: "bool \<Rightarrow> 'a kv_update_state_scheme
    \<Rightarrow> kv_update_event_t \<times> 'a kv_update_state_scheme" where
  "kv_update_helper_setup_key_data_source_buffer release_key_data s =
     (let (i, s) = kv_update_source_buffer (RamBytes (kd_kvalue (g_new_key_details s)))
                     (kd_kvalue_length (g_new_key_details s)) s
      in case i of None \<Rightarrow> (EVENT_ERROR, set_error ERRCODE_NV_KEY_DATA_BUFFER_NOT_ALLOCATED s)
         | Some i \<Rightarrow> (EVENT_KEY_DATA_READY,
             set_source i (\<lambda>sb. sb\<lparr>sb_release_data := release_key_data, sb_crc_data := True,
               sb_encrypt_data := kd_attributes (g_new_key_details s) AND 2 \<noteq> 0\<rparr>) s))"

definition kv_update_helper_setup_key_hash_source_buffer :: "'a kv_update_state_scheme
    \<Rightarrow> kv_update_event_t \<times> 'a kv_update_state_scheme" where
  "kv_update_helper_setup_key_hash_source_buffer s =
     (let (ok, s) = kv_malloc s
      in if \<not> ok then (EVENT_ERROR, set_error ERRCODE_MALLOC s)
         else
           let (i, s) = kv_update_source_buffer (RamBytes (replicate (unat KV_CRYPTO_CRC_SIZE) 0)) (ucast KV_CRYPTO_CRC_SIZE) s
           in case i of None \<Rightarrow> (EVENT_ERROR, set_error ERRCODE_NV_KEY_HASH_BUFFER_NOT_ALLOCATED s)
              | Some i \<Rightarrow> (EVENT_KEY_DATA_READY,
                  set_source i (\<lambda>sb. sb\<lparr>sb_release_data := True, sb_receive_hash := True, sb_encrypt_data := False\<rparr>) s))"

definition kv_update_helper_prepare_source_buffers :: "bool \<Rightarrow> 'a kv_update_state_scheme
    \<Rightarrow> kv_update_event_t \<times> 'a kv_update_state_scheme" where
  "kv_update_helper_prepare_source_buffers release_key_data s =
     (let (event, s) = kv_update_helper_prepare_write_buffer s;
          (event, s) = (if event = EVENT_KEY_DATA_READY then kv_update_helper_setup_key_header_source_buffer s else (event, s));
          (event, s) = (if event = EVENT_KEY_DATA_READY
                        then kv_update_helper_setup_key_data_source_buffer release_key_data s else (event, s));
          s = (if event \<noteq> EVENT_KEY_DATA_READY \<and> release_key_data
               then s\<lparr>g_new_key_details := (g_new_key_details s)\<lparr>kd_kvalue := []\<rparr>\<rparr> else s)
      in if event = EVENT_KEY_DATA_READY then kv_update_helper_setup_key_hash_source_buffer s else (event, s))"

definition kv_update_helper_check_for_key_updates :: "'a kv_update_state_scheme
    \<Rightarrow> kv_update_event_t \<times> 'a kv_update_state_scheme" where
  "kv_update_helper_check_for_key_updates s =
     (let attributes = kv_key_attributes (g_current_key s); new = g_new_key_details s
      in if attributes AND KV_ATTRIBUTE_PERMANENT \<noteq> 0 \<and> \<not> kd_focre_write new
         then (EVENT_ERROR, set_error ERRCODE_NV_TRYING_TO_MODIFY_A_PERMANENT_KEY s)
         else if attributes AND KV_ATTRIBUTE_NON_UPGRADE \<noteq> kd_attributes new AND KV_ATTRIBUTE_NON_UPGRADE
         then (EVENT_KEY_UPDATE_REQUIRED, s)
         else if attributes AND kd_attributes new \<noteq> kd_attributes new then (EVENT_KEY_UPDATE_REQUIRED, s)
         else if ucast (kh_length (kk_header (g_current_key s))) \<noteq> kd_kvalue_length new
         then (EVENT_KEY_UPDATE_REQUIRED, s)
         else
           let (res, s) = kv_helper_compare_key_data (g_current_key s) (kd_kvalue new) (ucast (kd_kvalue_length new)) s
           in (if res \<noteq> ERRCODE_SUCC then EVENT_KEY_UPDATE_REQUIRED else EVENT_KEY_UPDATE_NOT_NEEDED, s))"

definition kv_update_action_prepare_write_key :: "'a kv_update_state_scheme
    \<Rightarrow> (kv_update_event_t \<times> 'a kv_update_state_scheme) option" where
  "kv_update_action_prepare_write_key s =
     do {
       (res, key, s) \<leftarrow> kv_store_find_valid_key (g_current_store s) (kd_key_id (g_new_key_details s)) (g_current_key s) s;
       let s = s\<lparr>g_current_key := key\<rparr>;
       let (event, s) = (if res = ERRCODE_SUCC then kv_update_helper_check_for_key_updates s
                         else (EVENT_KEY_UPDATE_REQUIRED, s));
       if event \<noteq> EVENT_KEY_UPDATE_REQUIRED then Some (event, s)
       else
         let s = (if res = ERRCODE_SUCC \<and> kh_type (kk_header (g_current_key s)) \<noteq> KV_KEY_TYPE_NORMAL
                  then s\<lparr>g_new_key_details := (g_new_key_details s)\<lparr>kd_attributes :=
                           kd_attributes (g_new_key_details s) OR KV_ATTRIBUTE_PERMANENT\<rparr>\<rparr> else s);
             s = s\<lparr>g_current_key := kv_key_build_from_new (g_current_key s) (g_new_key_details s)
                                      (g_current_store_write_location s) s\<rparr>
         in Some (kv_update_helper_prepare_source_buffers False s)
     }"

definition kv_update_action_claim_crypto :: "'a kv_update_state_scheme \<Rightarrow> kv_update_event_t \<times> 'a kv_update_state_scheme" where
  "kv_update_action_claim_crypto s =
     (let wb = the (sm_write_buffer (g_current_state_machine s));
          wb = wb\<lparr>wb_write_location := kk_location (g_current_key s), wb_crypto_handle := INVAILD_CRYPTO_HANDLE\<rparr>;
          wb = (if \<not> wb_crc_claimed wb then wb\<lparr>wb_crc_ret := 0, wb_crc_claimed := True\<rparr> else wb);
          s = set_machine (\<lambda>m. m\<lparr>sm_source_buffer := map (\<lambda>sb. sb\<lparr>sb_data_consumed := 0\<rparr>) (sm_source_buffer m),
                                 sm_current_source := (if sm_source_buffer m = [] then None else Some 0)\<rparr>) s
      in (EVENT_CRYPTO_CLAIMED, set_write_buffer (Some wb) s))"

definition kv_update_action_erase_old_keys :: "'a kv_update_state_scheme \<Rightarrow> kv_update_event_t \<times> 'a kv_update_state_scheme" where
  "kv_update_action_erase_old_keys s =
     start_machine g_erase_keys_machine (s\<lparr>g_search_filter :=
       \<lparr>kf_location = kk_location (g_current_key s), kf_pattern = kh_key_id (kk_header (g_current_key s)),
        kf_mask = 0xFFFF, kf_state = KV_KEY_FILTER_STATE_VALID, kf_type = KV_KEY_FILTER_TYPE_ANY\<rparr>\<rparr>)"

definition update_page_map :: "(nv_page_status_map_t \<Rightarrow> nv_page_status_map_t) \<Rightarrow> 'a kv_update_state_scheme
    \<Rightarrow> kv_update_event_t \<times> 'a kv_update_state_scheme" where
  "update_page_map f s =
     (let page_number = kv_nvregion_get_page_number (pg_location (g_current_page s)) s
      in if nv_num_entries s \<le> page_number then (EVENT_ERROR, set_error ERRCODE_NV_INVALID_PAGE s)
         else
           let ms = the (nv_page_status_map s); i = unat page_number
           in (EVENT_PAGE_MAP_UPDATED, s\<lparr>nv_page_status_map := Some (ms[i := f (ms ! i)])\<rparr>))"

definition kv_update_action_update_nvmap_for_erase_key :: "'a kv_update_state_scheme
    \<Rightarrow> kv_update_event_t \<times> 'a kv_update_state_scheme" where
  "kv_update_action_update_nvmap_for_erase_key s =
     (let key = g_current_key s;
          key_size = 16 + KV_CRYPTO_CRC_SIZE + kv_key_padded_data_length (kv_key_attributes key) (kh_length (kk_header key))
      in update_page_map (\<lambda>m. m\<lparr>pm_reclaimable_space := pm_reclaimable_space m + key_size\<rparr>) s)"

definition kv_update_action_update_nvmap_for_new_key :: "'a kv_update_state_scheme
    \<Rightarrow> kv_update_event_t \<times> 'a kv_update_state_scheme" where
  "kv_update_action_update_nvmap_for_new_key s =
     (let new = g_new_key_details s;
          key_size = 16 + KV_CRYPTO_CRC_SIZE + kv_key_padded_data_length (kd_attributes new) (ucast (kd_kvalue_length new))
      in update_page_map (\<lambda>m. m\<lparr>pm_used_space := pm_used_space m + key_size,
                                pm_first_writable_offset := pm_first_writable_offset m + key_size\<rparr>) s)"

section \<open>The tables\<close>

type_synonym transition = "kv_update_state_t \<times> kv_update_event_t \<times> kv_update_state_t"

text \<open>An action that always returns is a function; \<open>act\<close> makes it one that may not.\<close>

type_synonym 'a action = "'a kv_update_state_scheme \<Rightarrow> (kv_update_event_t \<times> 'a kv_update_state_scheme) option"

abbreviation (input) act :: "('s \<Rightarrow> 'e) \<Rightarrow> 's \<Rightarrow> 'e option" where "act f \<equiv> (\<lambda>s. Some (f s))"

definition g_erase_keys_transitions :: "transition list" where
  "g_erase_keys_transitions =
    [(STATE_SELECT_FIRST_PAGE, EVENT_PAGE_SELECTED, STATE_FIND_FIRST_KEY),
     (STATE_SELECT_FIRST_PAGE, EVENT_PAGE_NOT_SELECTED, STATE_EXIT),
     (STATE_SELECT_NEXT_PAGE, EVENT_PAGE_SELECTED, STATE_FIND_FIRST_KEY),
     (STATE_SELECT_NEXT_PAGE, EVENT_PAGE_NOT_SELECTED, STATE_EXIT),
     (STATE_FIND_FIRST_KEY, EVENT_KEY_FOUND, STATE_PREP_DELETE_KEY),
     (STATE_FIND_FIRST_KEY, EVENT_KEY_NOT_FOUND, STATE_SELECT_NEXT_PAGE),
     (STATE_FIND_NEXT_KEY, EVENT_KEY_FOUND, STATE_PREP_DELETE_KEY),
     (STATE_FIND_NEXT_KEY, EVENT_KEY_NOT_FOUND, STATE_SELECT_NEXT_PAGE),
     (STATE_PREP_DELETE_KEY, EVENT_WRITE_BUFFER_PRIMED, STATE_PERFORM_WRITE),
     (STATE_PERFORM_WRITE, EVENT_WRITE_BUFFER_STORED, STATE_UPDATE_MAP_FOR_OLD),
     (STATE_UPDATE_MAP_FOR_OLD, EVENT_PAGE_MAP_UPDATED, STATE_FIND_NEXT_KEY),
     (STATE_PERFORM_WRITE, EVENT_SUSPEND, STATE_SUSPENDED),
     (STATE_EXIT, EVENT_NONE, STATE_EXIT)]"

definition g_erase_keys_actions :: "(kv_update_state_t \<times> 'a action option) list" where
  "g_erase_keys_actions =
    [(STATE_SELECT_FIRST_PAGE, Some (act kv_update_action_select_first_page)),
     (STATE_SELECT_NEXT_PAGE, Some (act kv_update_action_select_next_page)),
     (STATE_FIND_FIRST_KEY, Some kv_update_action_find_first_key),
     (STATE_FIND_NEXT_KEY, Some kv_update_action_find_next_key),
     (STATE_PREP_DELETE_KEY, Some (act kv_update_action_prepare_delete_key)),
     (STATE_PERFORM_WRITE, Some (act kv_update_action_store_write_buffer)),
     (STATE_UPDATE_MAP_FOR_OLD, Some (act kv_update_action_update_nvmap_for_erase_key)),
     (STATE_EXIT, None)]"

definition g_prep_defrag_page_transitions :: "transition list" where
  "g_prep_defrag_page_transitions =
    [(STATE_FIND_DEFRAG, EVENT_DEFRAG_FOUND, STATE_ERASE_DEFRAG),
     (STATE_ERASE_DEFRAG, EVENT_DEFRAG_ERASED, STATE_EXIT),
     (STATE_ERASE_DEFRAG, EVENT_SUSPEND, STATE_SUSPENDED),
     (STATE_EXIT, EVENT_NONE, STATE_EXIT)]"

definition g_prep_defrag_page_actions :: "(kv_update_state_t \<times> 'a action option) list" where
  "g_prep_defrag_page_actions =
    [(STATE_FIND_DEFRAG, Some (act kv_update_action_find_defrag_page)),
     (STATE_ERASE_DEFRAG, Some (act kv_update_action_erase_defrag_page)),
     (STATE_EXIT, None)]"

definition g_copy_all_keys_transitions :: "transition list" where
  "g_copy_all_keys_transitions =
    [(STATE_FIND_FIRST_KEY, EVENT_KEY_FOUND, STATE_PREP_COPY_KEY),
     (STATE_FIND_FIRST_KEY, EVENT_KEY_NOT_FOUND, STATE_EXIT),
     (STATE_FIND_NEXT_KEY, EVENT_KEY_FOUND, STATE_PREP_COPY_KEY),
     (STATE_FIND_NEXT_KEY, EVENT_KEY_NOT_FOUND, STATE_EXIT),
     (STATE_PREP_COPY_KEY, EVENT_COPY_KEY_READY, STATE_PRIME_WRITE),
     (STATE_PRIME_WRITE, EVENT_WRITE_BUFFER_PRIMED, STATE_PERFORM_WRITE),
     (STATE_PRIME_WRITE, EVENT_WRITE_DATA_EXHAUSTED, STATE_FIND_NEXT_KEY),
     (STATE_PERFORM_WRITE, EVENT_WRITE_BUFFER_STORED, STATE_PRIME_WRITE),
     (STATE_PERFORM_WRITE, EVENT_SUSPEND, STATE_SUSPENDED),
     (STATE_EXIT, EVENT_NONE, STATE_EXIT)]"

definition g_copy_all_keys_actions :: "(kv_update_state_t \<times> 'a action option) list" where
  "g_copy_all_keys_actions =
    [(STATE_FIND_FIRST_KEY, Some kv_update_action_find_first_key),
     (STATE_FIND_NEXT_KEY, Some kv_update_action_find_next_key),
     (STATE_PREP_COPY_KEY, Some (act kv_update_action_prepare_copy_key)),
     (STATE_PRIME_WRITE, Some kv_update_action_prime_write_buffer),
     (STATE_PERFORM_WRITE, Some (act kv_update_action_store_write_buffer)),
     (STATE_EXIT, None)]"

definition g_defrag_page_transitions :: "transition list" where
  "g_defrag_page_transitions =
    [(STATE_PREP_DEFRAG, EVENT_DEFRAG_PREPARED, STATE_COPY_ALL_KEYS),
     (STATE_COPY_ALL_KEYS, EVENT_ALL_KEYS_COPIED, STATE_PREP_PAGE_HEADER),
     (STATE_PREP_PAGE_HEADER, EVENT_WRITE_BUFFER_PRIMED, STATE_WRITE_PAGE_HEADER),
     (STATE_WRITE_PAGE_HEADER, EVENT_WRITE_BUFFER_STORED, STATE_UPDATE_NVREGION_MAP),
     (STATE_WRITE_PAGE_HEADER, EVENT_SUSPEND, STATE_SUSPENDED),
     (STATE_UPDATE_NVREGION_MAP, EVENT_NVREGION_MAP_UPDATED, STATE_EXIT),
     (STATE_EXIT, EVENT_NONE, STATE_EXIT)]"

definition g_defrag_page_actions :: "(kv_update_state_t \<times> 'a action option) list" where
  "g_defrag_page_actions =
    [(STATE_PREP_DEFRAG, Some (act kv_update_action_prepare_defrag_page)),
     (STATE_COPY_ALL_KEYS, Some (act kv_update_action_copy_all_keys)),
     (STATE_PREP_PAGE_HEADER, Some (act kv_update_action_prepare_page_header)),
     (STATE_WRITE_PAGE_HEADER, Some (act kv_update_action_store_write_buffer)),
     (STATE_UPDATE_NVREGION_MAP, Some kv_update_action_update_nvregion_map),
     (STATE_EXIT, None)]"

definition g_prepare_store_transitions :: "transition list" where
  "g_prepare_store_transitions =
    [(STATE_FIND_WRITE_POS, EVENT_DEFRAG_REQUIRED, STATE_DEFRAG_PAGE),
     (STATE_FIND_WRITE_POS, EVENT_WRITE_POS_FOUND, STATE_EXIT),
     (STATE_DEFRAG_PAGE, EVENT_DEFRAG_COMPLETE, STATE_FIND_WRITE_POS),
     (STATE_EXIT, EVENT_NONE, STATE_EXIT)]"

definition g_prepare_store_actions :: "(kv_update_state_t \<times> 'a action option) list" where
  "g_prepare_store_actions =
    [(STATE_FIND_WRITE_POS, Some (act kv_update_action_find_write_position)),
     (STATE_DEFRAG_PAGE, Some (act kv_update_action_defrag_current_page)),
     (STATE_EXIT, None)]"

definition g_write_key_transitions :: "transition list" where
  "g_write_key_transitions =
    [(STATE_PREP_STORE, EVENT_STORE_READY, STATE_PREP_KEY_DATA),
     (STATE_PREP_KEY_DATA, EVENT_KEY_UPDATE_NOT_NEEDED, STATE_EXIT),
     (STATE_PREP_KEY_DATA, EVENT_KEY_DATA_READY, STATE_CLAIM_CRYPTO),
     (STATE_CLAIM_CRYPTO, EVENT_CRYPTO_CLAIMED, STATE_PRIME_WRITE),
     (STATE_PRIME_WRITE, EVENT_WRITE_BUFFER_PRIMED, STATE_PERFORM_WRITE),
     (STATE_PRIME_WRITE, EVENT_WRITE_DATA_EXHAUSTED, STATE_UPDATE_MAP_FOR_NEW),
     (STATE_UPDATE_MAP_FOR_NEW, EVENT_PAGE_MAP_UPDATED, STATE_ERASE_OLD_KEYS),
     (STATE_PERFORM_WRITE, EVENT_WRITE_BUFFER_STORED, STATE_PRIME_WRITE),
     (STATE_PERFORM_WRITE, EVENT_SUSPEND, STATE_SUSPENDED),
     (STATE_ERASE_OLD_KEYS, EVENT_KEYS_ERASED, STATE_EXIT),
     (STATE_EXIT, EVENT_NONE, STATE_EXIT)]"

definition g_write_key_actions :: "(kv_update_state_t \<times> 'a action option) list" where
  "g_write_key_actions =
    [(STATE_PREP_STORE, Some (act kv_update_action_prepare_store)),
     (STATE_PREP_KEY_DATA, Some kv_update_action_prepare_write_key),
     (STATE_CLAIM_CRYPTO, Some (act kv_update_action_claim_crypto)),
     (STATE_PRIME_WRITE, Some kv_update_action_prime_write_buffer),
     (STATE_PERFORM_WRITE, Some (act kv_update_action_store_write_buffer)),
     (STATE_UPDATE_MAP_FOR_NEW, Some (act kv_update_action_update_nvmap_for_new_key)),
     (STATE_ERASE_OLD_KEYS, Some (act kv_update_action_erase_old_keys)),
     (STATE_EXIT, None)]"

definition machine_transitions :: "kv_state_machine_t \<Rightarrow> transition list" where
  "machine_transitions m = (case m of
      g_erase_keys_machine \<Rightarrow> g_erase_keys_transitions
    | g_prep_defrag_page_machine \<Rightarrow> g_prep_defrag_page_transitions
    | g_copy_all_keys_machine \<Rightarrow> g_copy_all_keys_transitions
    | g_defrag_page_machine \<Rightarrow> g_defrag_page_transitions
    | g_prepare_store_machine \<Rightarrow> g_prepare_store_transitions
    | g_write_key_machine \<Rightarrow> g_write_key_transitions)"

definition machine_actions :: "kv_state_machine_t \<Rightarrow> (kv_update_state_t \<times> 'a action option) list" where
  "machine_actions m = (case m of
      g_erase_keys_machine \<Rightarrow> g_erase_keys_actions
    | g_prep_defrag_page_machine \<Rightarrow> g_prep_defrag_page_actions
    | g_copy_all_keys_machine \<Rightarrow> g_copy_all_keys_actions
    | g_defrag_page_machine \<Rightarrow> g_defrag_page_actions
    | g_prepare_store_machine \<Rightarrow> g_prepare_store_actions
    | g_write_key_machine \<Rightarrow> g_write_key_actions)"

section \<open>Running the machines\<close>

text \<open>The searches of the two tables; \<open>STATE_EXIT\<close> ends a table.\<close>

fun find_action :: "kv_update_state_t \<Rightarrow> (kv_update_state_t \<times> 'b option) list \<Rightarrow> 'b option" where
  "find_action st [] = None"
| "find_action st ((st', a) # rows) = (if st' = STATE_EXIT \<or> st' = st then a else find_action st rows)"

fun find_transition :: "kv_update_state_t \<Rightarrow> kv_update_event_t \<Rightarrow> transition list \<Rightarrow> kv_update_state_t" where
  "find_transition st ev [] = STATE_INVALID"
| "find_transition st ev ((st', ev', next) # rows) =
     (if st' = STATE_EXIT then STATE_INVALID
      else if st = st' \<and> ev = ev' then next else find_transition st ev rows)"

text \<open>The event goes to the machine that is current after the action.\<close>

definition invoke_current_state_action :: "'a kv_update_state_scheme \<Rightarrow> 'a kv_update_state_scheme option" where
  "invoke_current_state_action s =
     (if g_machines s = [] then Some s
      else
        let m = g_current_state_machine s
        in case find_action (sm_state m) (machine_actions (sm_machine m)) of
             None \<Rightarrow> Some s
           | Some action \<Rightarrow> do {
               (event, s) \<leftarrow> action s;
               Some (set_machine (\<lambda>m. m\<lparr>sm_event := event\<rparr>) s)
             })"

definition update_current_state :: "'a kv_update_state_scheme \<Rightarrow> 'a kv_update_state_scheme" where
  "update_current_state s =
     (if g_machines s \<noteq> [] \<and> sm_event (g_current_state_machine s) \<noteq> EVENT_NONE then
        set_machine (\<lambda>m. m\<lparr>sm_state := find_transition (sm_state m) (sm_event m) (machine_transitions (sm_machine m))\<rparr>) s
      else s)"

text \<open>The inner loop: machines that have reached \<open>STATE_EXIT\<close> are ended.\<close>

partial_function (option) exit_machines :: "'a kv_update_state_scheme \<Rightarrow> 'a kv_update_state_scheme option" where
  "exit_machines s =
     (if g_machines s \<noteq> [] \<and> sm_state (g_current_state_machine s) = STATE_EXIT then do {
        s \<leftarrow> invoke_current_state_action s;
        exit_machines (update_current_state (end_state_machine s))
      }
      else Some s)"

partial_function (option) process_state_machine :: "'a kv_update_state_scheme \<Rightarrow> (u32 \<times> 'a kv_update_state_scheme) option" where
  "process_state_machine s =
     (if g_machines s = [] then Some (ERRCODE_SUCC, s)
      else do {
        s \<leftarrow> invoke_current_state_action s;
        if sm_event (g_current_state_machine s) = EVENT_ERROR
        then Some (sm_error_code (g_current_state_machine s), clean_state_machine s)
        else do {
          s \<leftarrow> exit_machines (update_current_state s);
          if g_machines s \<noteq> [] \<and> sm_state (g_current_state_machine s) = STATE_SUSPENDED
          then Some (ERRCODE_NV_WRITE_VETOED, kv_release_crypto (clean_state_machine s))
          else if g_machines s \<noteq> [] \<and> sm_state (g_current_state_machine s) = STATE_INVALID
          then Some (ERRCODE_NV_STATE_INVALID, kv_release_crypto (clean_state_machine s))
          else process_state_machine s
        }
      })"

section \<open>Initialisation\<close>

text \<open>
  The partition table is outside of this part: an entry is the code of \<open>uapi_partition_get_info\<close>, the address in the
  flash and the size. The pages of the only store are looked for and created one after the other.
\<close>

abbreviation (input) KV_STORE_START_ADDR :: u32 where "KV_STORE_START_ADDR \<equiv> 0x22C000"
abbreviation (input) KV_STORE_DATA_SIZE :: u32 where "KV_STORE_DATA_SIZE \<equiv> 0x4000"
abbreviation (input) KV_BACKUP_START_ADDR :: u32 where "KV_BACKUP_START_ADDR \<equiv> 0x230000"
abbreviation (input) KV_BACKUP_DATA_SIZE :: u32 where "KV_BACKUP_DATA_SIZE \<equiv> 0x4000"

definition nv_read_partition_addr :: "u32 \<times> u32 \<times> u32 \<Rightarrow> u32 \<times> u32 \<times> u32" where
  "nv_read_partition_addr info =
     (case info of (ret, addr, sz) \<Rightarrow>
        if ret \<noteq> ERRCODE_SUCC then (ret, 0, 0) else (ERRCODE_SUCC, addr + FLASH_PHYSICAL_ADDR_START, sz))"

fun init_pages_loop :: "nat \<Rightarrow> u8 \<Rightarrow> u16 \<Rightarrow> 'a kv_region_state_scheme \<Rightarrow> (u32 \<times> 'a kv_region_state_scheme) option" where
  "init_pages_loop 0 page_index store_id s = Some (ERRCODE_SUCC, s)"
| "init_pages_loop (Suc n) page_index store_id s =
     (let (res, loc, h) = kv_nvregion_find_page store_id page_index s
      in do {
        (res, s) \<leftarrow> (if res \<noteq> ERRCODE_SUCC then kv_nvregion_create_page store_id page_index s else Some (res, s));
        if res \<noteq> ERRCODE_SUCC then Some (ERRCODE_FAIL, s) else init_pages_loop n (page_index + 1) store_id s
      })"

definition kv_update_init :: "u32 \<times> u32 \<times> u32 \<Rightarrow> u32 \<times> u32 \<times> u32 \<Rightarrow> 'a kv_region_state_scheme
    \<Rightarrow> (u32 \<times> 'a kv_region_state_scheme) option" where
  "kv_update_init nv_data nv_data_backup s =
     (let (res, kv_start_addr, kv_size) = nv_read_partition_addr nv_data
      in if res \<noteq> ERRCODE_SUCC then Some (res, s)
         else
           let (res, kv_backup_start_addr, kv_backup_size) = nv_read_partition_addr nv_data_backup
           in if res \<noteq> ERRCODE_SUCC then Some (res, s)
              else do {
                let s = (if kv_start_addr \<noteq> 0 \<and> kv_size \<noteq> 0
                  then kv_nvregion_init kv_start_addr KV_STORE_DATA_SIZE kv_backup_start_addr kv_backup_size s
                  else kv_nvregion_init KV_STORE_START_ADDR KV_STORE_DATA_SIZE KV_BACKUP_START_ADDR KV_BACKUP_DATA_SIZE s);
                (res, s) \<leftarrow> kv_nvregion_scan s;
                if res \<noteq> ERRCODE_SUCC then Some (res, s)
                else init_pages_loop (unat (kv_store_get_page_count KV_STORE_APPLICATION)) 0
                       (kv_store_get_id KV_STORE_APPLICATION) s
              })"

section \<open>The calls\<close>

definition active_state_machine :: "'a kv_update_state_scheme \<Rightarrow> bool" where
  "active_state_machine s \<longleftrightarrow> g_machines s \<noteq> []"

definition determine_flash_task_state_code :: "u32 \<Rightarrow> u32" where
  "determine_flash_task_state_code res =
     (if res = ERRCODE_NV_WRITE_VETOED \<or> res = ERRCODE_FLASH_TASK_PE_VETO then FLASH_TASK_BEING_PROCESSED
      else if res = ERRCODE_SUCC then FLASH_TASK_COMPLETED else res)"

text \<open>What the three calls share: run the machines and turn the state code of the task into a result.\<close>

definition run_task :: "'a kv_update_state_scheme \<Rightarrow> (u32 \<times> 'a kv_update_state_scheme) option" where
  "run_task s =
     do {
       (res, s) \<leftarrow> process_state_machine s;
       let state_code = determine_flash_task_state_code res;
       Some (if state_code = FLASH_TASK_COMPLETED then ERRCODE_SUCC else state_code, s)
     }"

definition kv_update_erase_key :: "u32 \<Rightarrow> u16 \<Rightarrow> 'a kv_update_state_scheme \<Rightarrow> (u32 \<times> 'a kv_update_state_scheme) option" where
  "kv_update_erase_key core key s =
     run_task (if active_state_machine s then s
       else snd (begin_state_machine g_erase_keys_machine (s\<lparr>g_current_store := core,
              g_search_filter := \<lparr>kf_location = 0, kf_pattern = key, kf_mask = 0xFFFF,
                kf_state = KV_KEY_FILTER_STATE_VALID, kf_type = KV_KEY_FILTER_TYPE_ANY\<rparr>\<rparr>)))"

definition kv_update_write_key :: "u32 \<Rightarrow> u16 \<Rightarrow> u8 list \<Rightarrow> u32 \<Rightarrow> bool \<Rightarrow> 'a kv_update_state_scheme
    \<Rightarrow> (u32 \<times> 'a kv_update_state_scheme) option" where
  "kv_update_write_key core key kvalue attribute force_write s =
     run_task (if active_state_machine s then s
       else snd (begin_state_machine g_write_key_machine (s\<lparr>g_current_store := core,
              g_new_key_details := \<lparr>kd_key_id = key, kd_focre_write = force_write, kd_kvalue = kvalue,
                kd_kvalue_length = of_nat (length kvalue), kd_attributes = attribute\<rparr>\<rparr>)))"

text \<open>The value of the key that is in the store, unless the key is permanent: then nothing is read.\<close>

definition kv_update_helper_get_current_key :: "'a kv_update_state_scheme
    \<Rightarrow> (u32 \<times> u8 list option \<times> u32 \<times> 'a kv_update_state_scheme) option" where
  "kv_update_helper_get_current_key s =
     do {
       (res, key, s) \<leftarrow> kv_store_find_valid_key (g_current_store s) (kd_key_id (g_new_key_details s)) (nv_stack_key s) s;
       Some (if res \<noteq> ERRCODE_SUCC then (res, None, kd_kvalue_length (g_new_key_details s), s)
             else if kv_key_attributes key AND KV_ATTRIBUTE_PERMANENT \<noteq> 0
             then (ERRCODE_SUCC, None, kd_kvalue_length (g_new_key_details s), s)
             else
               let len = kh_length (kk_header key); (ok, s) = kv_malloc s
               in if \<not> ok then (ERRCODE_MALLOC, None, ucast len, s)
                  else
                    let (res, bs, s) = kv_key_read_data key (replicate (unat len) 0) s
                    in (res, Some bs, ucast len, s))
     }"

definition kv_update_modify_attribute :: "u32 \<Rightarrow> u16 \<Rightarrow> u32 \<Rightarrow> 'a kv_update_state_scheme
    \<Rightarrow> (u32 \<times> 'a kv_update_state_scheme) option" where
  "kv_update_modify_attribute core key attribute s =
     (if active_state_machine s then run_task s
      else do {
        let s = s\<lparr>g_current_store := core,
              g_new_key_details := \<lparr>kd_key_id = key, kd_focre_write = False, kd_kvalue = [],
                kd_kvalue_length = 0, kd_attributes = attribute\<rparr>\<rparr>;
        (res, old_kvalue, kvalue_length, s) \<leftarrow> kv_update_helper_get_current_key s;
        let s = s\<lparr>g_new_key_details := (g_new_key_details s)\<lparr>kd_kvalue_length := kvalue_length\<rparr>\<rparr>;
        if res \<noteq> ERRCODE_SUCC then Some (res, s)
        else run_task (snd (begin_state_machine g_write_key_machine
               (s\<lparr>g_new_key_details := (g_new_key_details s)\<lparr>kd_kvalue := (case old_kvalue of None \<Rightarrow> [] | Some bs \<Rightarrow> bs)\<rparr>\<rparr>)))
      })"

end
