(* ===== verification/NvRead.thy ===== *)
theory NvRead
  imports NvUpdate
begin

text \<open>
  What the reading functions of the storage compute when no read and no allocation fails: reading the
  data of a key gives the bytes behind its header, and checking a key is a function of the flash, namely
  the comparison of the stored CRC with that of the header and the padded data (\<open>key_intact\<close>).
\<close>

section \<open>The flash image of a key\<close>

definition nv_image :: "'a nv_world_scheme \<Rightarrow> u32 \<Rightarrow> nat \<Rightarrow> u8 list" where
  "nv_image s loc n = flash_bytes (nv_flash s) (loc - FLASH_PHYSICAL_ADDR_START) n"

lemma length_nv_image [simp]: "length (nv_image s loc n) = n"
  by (simp add: nv_image_def)

lemma nv_image_0 [simp]: "nv_image s loc 0 = []"
  by (simp add: nv_image_def)

lemma nv_image_append: "nv_image s loc (m + n) = nv_image s loc m @ nv_image s (loc + of_nat m) n"
  by (simp add: nv_image_def flash_bytes_append diff_add_eq)

lemma nv_image_take: "m \<le> n \<Longrightarrow> take m (nv_image s loc n) = nv_image s loc m"
  using nv_image_append [of s loc m "n - m"] by simp

lemma nv_image_drop: "m \<le> n \<Longrightarrow> drop m (nv_image s loc n) = nv_image s (loc + of_nat m) (n - m)"
  using nv_image_append [of s loc m "n - m"] by simp

lemma nth_nv_image: "i < n \<Longrightarrow> nv_image s loc n ! i = nv_flash s (loc - FLASH_PHYSICAL_ADDR_START + of_nat i)"
  by (simp add: nv_image_def nth_flash_bytes)

definition pad4 :: "nat \<Rightarrow> nat" where
  "pad4 n = 4 * ((n + 3) div 4)"

lemma pad4_bounds: "n \<le> pad4 n" "pad4 n < n + 4"
  by (simp_all add: pad4_def)

lemma unat_and_not3: "unat ((x :: u32) AND - 4) = 4 * (unat x div 4)"
proof -
  have m: "(- 4 :: u32) = NOT (mask 2)" by (simp add: mask_eq_exp_minus_1)
  have "x AND NOT (mask 2) = push_bit 2 (drop_bit 2 x)"
    by (rule bit_word_eqI) (auto simp: bit_simps simp del: add_2_eq_Suc add_2_eq_Suc')
  then have "unat (x AND - 4) = 4 * (unat x div 4) mod 4294967296" unfolding m
    by (simp add: push_bit_eq_mult drop_bit_eq_div unat_word_ariths mult.commute mod_mult_right_eq)
  then show ?thesis using unat_u32_less [of x] by simp
qed

lemma unat_padded_length: "unat (kv_padded_length n 4) = pad4 (unat n)"
proof -
  have "unat (ucast n + 3 :: u32) = unat n + 3"
    using unat_u16_less [of n] by (subst unat_add_lem [THEN iffD1]) (auto simp: unat_ucast_u16_u32)
  then show ?thesis by (simp add: kv_padded_length_def unat_and_not3 pad4_def)
qed

lemma unat_key_padded_length: "unat n \<le> 4060 \<Longrightarrow> unat (kv_key_padded_data_length a n) = pad4 (unat n)"
  using pad4_bounds [of "unat n"] by (simp add: kv_key_padded_data_length_def unat_ucast_u32_u16 unat_padded_length)

lemma unat_flash_size:
  assumes "unat (kh_length (kk_header key)) \<le> 4060"
  shows "unat (kv_key_flash_size key) = 20 + pad4 (unat (kh_length (kk_header key)))"
proof -
  have p: "unat (kv_key_padded_data_length a (kh_length (kk_header key))) = pad4 (unat (kh_length (kk_header key)))" for a
    by (rule unat_key_padded_length [OF assms])
  show ?thesis using pad4_bounds [of "unat (kh_length (kk_header key))"] assms
    by (simp add: kv_key_flash_size_def unat_word_ariths p)
qed

section \<open>Reading\<close>

lemma copy_image_quiet [nv_quiet_simps]:
  assumes "nv_quiet s" "len \<noteq> 0" "unat len \<le> length buf"
  shows "kv_key_helper_copy_flash buf src len s = (ERRCODE_SUCC, nv_image s src (unat len) @ drop (unat len) buf, s)"
  using copy_flash_quiet [OF assms] by (simp add: nv_image_def)

lemma read_from_flash_quiet [nv_quiet_simps]:
  assumes "nv_quiet s" "0 < unat len" "unat len < 65536" "unat len \<le> length buf"
  shows "kv_key_read_data_from_flash buf src len INVAILD_CRYPTO_HANDLE s
    = (ERRCODE_SUCC, nv_image s src (unat len) @ drop (unat len) buf, s)"
proof -
  have u: "unat (ucast len :: u16) = unat len" using assms by (simp add: unat_ucast_u32_u16)
  have "(ucast len :: u16) \<noteq> 0" using assms u by (metis less_irrefl unat_0)
  then show ?thesis using assms u copy_image_quiet [OF assms(1), of "ucast len" buf src]
    by (simp add: kv_key_read_data_from_flash_def)
qed

lemma chunk_facts:
  fixes a b :: u32
  assumes "a < b"
  shows "unat (min 128 (b - a)) = min 128 (unat b - unat a)" "0 < unat (min 128 (b - a))"
    "unat (a + min 128 (b - a)) = unat a + min 128 (unat b - unat a)" "unat a < unat b"
    "of_nat (min 128 (unat b - unat a)) = min 128 (b - a)"
proof -
  have ab: "unat a < unat b" using assms by (simp add: word_less_nat_alt)
  have ba: "unat (b - a) = unat b - unat a" using assms by (simp add: unat_sub)
  show m: "unat (min 128 (b - a)) = min 128 (unat b - unat a)"
    by (simp add: min_def word_le_nat_alt ba)
  show "0 < unat (min 128 (b - a))" using m ab by simp
  show "unat (a + min 128 (b - a)) = unat a + min 128 (unat b - unat a)"
    using chunk_step(2) [OF assms, of 128] ab by simp
  show "unat a < unat b" by (rule ab)
  show "of_nat (min 128 (unat b - unat a)) = min 128 (b - a)" by (subst m [symmetric]) simp
qed

lemma read_data_loop_quiet:
  assumes q: "nv_quiet s"
  shows "unat n \<le> length dest \<Longrightarrow> unat ofs \<le> unat n \<Longrightarrow> read_data_loop loc ofs n dest s
    = (ERRCODE_SUCC, take (unat ofs) dest @ nv_image s (loc + ofs) (unat n - unat ofs) @ drop (unat n) dest, s)"
proof (induction "unat n - unat ofs" arbitrary: ofs dest rule: less_induct)
  case less
  show ?case
  proof (cases "ofs < n")
    case True
    note c = chunk_facts [OF True]
    let ?m = "min 128 (unat n - unat ofs)"
    let ?d = "take (unat ofs) dest @ nv_image s (loc + ofs) ?m @ drop ?m (drop (unat ofs) dest)"
    have rd: "kv_key_read_data_from_flash (drop (unat ofs) dest) (loc + ofs) (min 128 (n - ofs)) INVAILD_CRYPTO_HANDLE s
        = (ERRCODE_SUCC, nv_image s (loc + ofs) ?m @ drop ?m (drop (unat ofs) dest), s)"
      using less.prems c by (subst read_from_flash_quiet [OF q]) (auto simp: min_def)
    have ih: "read_data_loop loc (ofs + min 128 (n - ofs)) n ?d s
        = (ERRCODE_SUCC, take (unat ofs + ?m) ?d
            @ nv_image s (loc + (ofs + min 128 (n - ofs))) (unat n - (unat ofs + ?m)) @ drop (unat n) ?d, s)"
      using less.prems c by (subst less.hyps) (auto simp: min_def)
    have t: "take (unat ofs + ?m) ?d = take (unat ofs) dest @ nv_image s (loc + ofs) ?m"
      using less.prems c by simp
    have d: "drop (unat n) ?d = drop (unat n) dest"
      using less.prems c by (simp add: min_def)
    have img: "nv_image s (loc + ofs) (unat n - unat ofs)
        = nv_image s (loc + ofs) ?m @ nv_image s (loc + (ofs + min 128 (n - ofs))) (unat n - (unat ofs + ?m))"
      using c nv_image_append [of s "loc + ofs" ?m "unat n - (unat ofs + ?m)"] by (simp add: add.assoc c(5))
    have "read_data_loop loc ofs n dest s = read_data_loop loc (ofs + min 128 (n - ofs)) n ?d s"
      using True by (subst read_data_loop.simps) (simp add: rd)
    then show ?thesis by (simp only: ih t d img append_assoc)
  next
    case False
    then have "unat ofs = unat n" using less.prems by (simp add: word_less_nat_alt)
    then show ?thesis using False by (subst read_data_loop.simps) simp
  qed
qed

lemma read_data_quiet [nv_quiet_simps]:
  assumes "nv_quiet s" "unat (kh_length (kk_header key)) \<le> length dest"
  shows "kv_key_read_data key dest s
    = (ERRCODE_SUCC, nv_image s (kk_location key + 16) (unat (kh_length (kk_header key)))
         @ drop (unat (kh_length (kk_header key))) dest, s)"
  using read_data_loop_quiet [OF assms(1), of "ucast (kh_length (kk_header key))" dest 0] assms(2)
  by (simp add: kv_key_read_data_def unat_ucast_u16_u32)

lemma compare_loop_quiet:
  assumes q: "nv_quiet s" and n: "n = unat (kh_length (kk_header key))"
  shows "unat ofs \<le> n \<Longrightarrow> length chunk = 128 \<Longrightarrow> length bs = n \<Longrightarrow> compare_loop key bs ofs chunk s
    = (if nv_image s (kk_location key + 16 + ofs) (n - unat ofs) = drop (unat ofs) bs
       then ERRCODE_SUCC else ERRCODE_NV_DATA_MISMATCH, s)"
proof (induction "n - unat ofs" arbitrary: ofs chunk rule: less_induct)
  case less
  let ?len = "ucast (kh_length (kk_header key)) :: u32" and ?loc = "kk_location key + 16 + ofs"
  have un: "unat ?len = n" by (simp add: n unat_ucast_u16_u32)
  show ?case
  proof (cases "ofs < ?len")
    case True
    note c = chunk_facts [OF True, unfolded un]
    let ?m = "min 128 (n - unat ofs)"
    have om: "of_nat ?m = min 128 (?len - ofs)" by (rule c(5))
    have rd: "kv_key_read_data_from_flash chunk ?loc (min 128 (?len - ofs)) INVAILD_CRYPTO_HANDLE s
        = (ERRCODE_SUCC, nv_image s ?loc ?m @ drop ?m chunk, s)"
      using less.prems c by (subst read_from_flash_quiet [OF q]) (auto simp: min_def)
    have ih: "compare_loop key bs (ofs + min 128 (?len - ofs)) (nv_image s ?loc ?m @ drop ?m chunk) s
        = (if nv_image s (?loc + of_nat ?m) (n - (unat ofs + ?m)) = drop (unat ofs + ?m) bs
           then ERRCODE_SUCC else ERRCODE_NV_DATA_MISMATCH, s)"
      using less.prems c by (subst less.hyps) (auto simp: min_def om [symmetric] add.assoc)
    have img: "nv_image s ?loc (n - unat ofs)
        = nv_image s ?loc ?m @ nv_image s (?loc + of_nat ?m) (n - (unat ofs + ?m))"
      using c nv_image_append [of s ?loc ?m "n - (unat ofs + ?m)"] by simp
    have bs: "drop (unat ofs) bs = take ?m (drop (unat ofs) bs) @ drop (unat ofs + ?m) bs"
      by (metis append_take_drop_id drop_drop add.commute)
    have eq: "nv_image s ?loc (n - unat ofs) = drop (unat ofs) bs \<longleftrightarrow>
        nv_image s ?loc ?m = take ?m (drop (unat ofs) bs)
        \<and> nv_image s (?loc + of_nat ?m) (n - (unat ofs + ?m)) = drop (unat ofs + ?m) bs"
      unfolding img by (subst bs) (use less.prems c in \<open>simp add: append_eq_append_conv\<close>)
    show ?thesis using True c ih eq less.prems(3)
      by (cases "nv_image s ?loc ?m = take ?m (drop (unat ofs) bs)"; subst compare_loop.simps)
        (simp_all add: rd Let_def)
  next
    case False
    then have "unat ofs = n" using less.prems un by (simp add: word_less_nat_alt)
    then show ?thesis using False less.prems by (subst compare_loop.simps) simp
  qed
qed

lemma compare_key_data_quiet [nv_quiet_simps]:
  assumes "nv_quiet s" "length bs = unat len"
  shows "kv_helper_compare_key_data key bs len s
    = (if kh_length (kk_header key) \<noteq> len then ERRCODE_NV_LENGTH_MISMATCH
       else if nv_image s (kk_location key + 16) (unat len) = bs then ERRCODE_SUCC else ERRCODE_NV_DATA_MISMATCH, s)"
  using compare_loop_quiet [OF assms(1), of "unat len" key 0 "replicate 128 0" bs] assms
  by (simp add: kv_helper_compare_key_data_def kv_helper_compare_key_data_chunks_def nv_quiet_simps)

section \<open>Checking\<close>

lemma validate_data_loop_quiet:
  assumes q: "nv_quiet s"
  shows "unat n < 65536 \<Longrightarrow> unat ofs \<le> unat n \<Longrightarrow> length chunk = 128 \<Longrightarrow> \<exists>chunk'. length chunk' = 128 \<and>
    validate_data_loop loc ofs n chunk crc s
    = (ERRCODE_SUCC, n, chunk', uapi_crc32 crc 0 (Some (nv_image s (loc + ofs) (unat n - unat ofs))), s)"
proof (induction "unat n - unat ofs" arbitrary: ofs chunk crc rule: less_induct)
  case less
  show ?case
  proof (cases "ofs < n")
    case True
    note c = chunk_facts [OF True]
    let ?m = "min 128 (unat n - unat ofs)"
    have om: "of_nat ?m = min 128 (n - ofs)" by (rule c(5))
    let ?ch = "nv_image s (loc + ofs) ?m @ drop ?m chunk"
    have rd: "kv_key_read_data_from_flash chunk (loc + ofs) (min 128 (n - ofs)) INVAILD_CRYPTO_HANDLE s
        = (ERRCODE_SUCC, ?ch, s)"
      using less.prems c by (subst read_from_flash_quiet [OF q]) (auto simp: min_def)
    have "\<exists>chunk'. length chunk' = 128 \<and> validate_data_loop loc (ofs + min 128 (n - ofs)) n ?ch
          (uapi_crc32 crc 0 (Some (nv_image s (loc + ofs) ?m))) s
        = (ERRCODE_SUCC, n, chunk', uapi_crc32 (uapi_crc32 crc 0 (Some (nv_image s (loc + ofs) ?m))) 0
             (Some (nv_image s (loc + (ofs + min 128 (n - ofs))) (unat n - (unat ofs + ?m)))), s)"
      using less.prems c less.hyps [of "ofs + min 128 (n - ofs)" ?ch] by (simp add: min_def split: if_splits)
    moreover have "uapi_crc32 (uapi_crc32 crc 0 (Some (nv_image s (loc + ofs) ?m))) 0
             (Some (nv_image s (loc + (ofs + min 128 (n - ofs))) (unat n - (unat ofs + ?m))))
        = uapi_crc32 crc 0 (Some (nv_image s (loc + ofs) (unat n - unat ofs)))"
      using c nv_image_append [of s "loc + ofs" ?m "unat n - (unat ofs + ?m)"]
      by (subst crc32_chunks [where z = 0]) (simp add: om add.assoc)
    ultimately show ?thesis using True c(1)
      by (subst validate_data_loop.simps) (simp add: rd kv_key_hash_crc_tag_update_def)
  next
    case False
    then have "ofs = n" using less.prems by (simp add: word_less_nat_alt word_unat_eq_iff)
    then show ?thesis using less.prems by (subst validate_data_loop.simps) (simp add: crc32_none)
  qed
qed

text \<open>The bytes a check covers, and the check as a function of the flash.\<close>

definition checked_header :: "bool \<Rightarrow> 'a kv_key_state_scheme \<Rightarrow> u32 \<Rightarrow> u8 list" where
  "checked_header ignor_invalid s loc = kv_key_fix_header_for_validate (nv_image s loc 16) ignor_invalid s"

definition crc_be :: "u8 list \<Rightarrow> u8 list" where
  "crc_be bs = bytes32 (kv_crc32_swap (uapi_crc32 0 0 (Some bs)))"

definition key_intact :: "bool \<Rightarrow> 'a kv_key_state_scheme \<Rightarrow> kv_key_handle_t \<Rightarrow> bool" where
  "key_intact ignor_invalid s key \<longleftrightarrow>
     (let n = pad4 (unat (kh_length (kk_header key))); loc = kk_location key
      in kh_length (kk_header key) \<le> NV_NORMAL_KVALUE_MAX_LEN \<and> kh_enc_key (kk_header key) \<noteq> AES_KDFKEY_SDRK_TYPE
         \<and> nv_image s (loc + 16 + of_nat n) 4 = crc_be (checked_header ignor_invalid s loc @ nv_image s (loc + 16) n))"

lemma fix_header_append:
  "2 \<le> length bs \<Longrightarrow> kv_key_fix_header_for_validate (bs @ r) g s = kv_key_fix_header_for_validate bs g s @ r"
  by (auto simp: kv_key_fix_header_for_validate_def Let_def nth_append list_update_append)

lemma length_fix_header [simp]: "length (kv_key_fix_header_for_validate bs g s) = length bs"
  by (simp add: kv_key_fix_header_for_validate_def Let_def)

lemma length_bytes32 [simp]: "length (bytes32 w) = 4"
  by (simp add: bytes32_def)

lemma validate_chunks_quiet:
  assumes q: "nv_quiet s" and len: "unat (kh_length (kk_header key)) \<le> 4060"
  defines "n \<equiv> pad4 (unat (kh_length (kk_header key)))"
  shows "\<exists>r. kv_key_validate_hash_chunks key (replicate 128 0) (replicate 32 0) ignor_invalid s
      = (ERRCODE_SUCC, nv_image s (kk_location key + 16 + of_nat n) 4 @ r,
         kv_key_hash_crc_tag_finish key (replicate 32 0) (uapi_crc32 0 0
           (Some (checked_header ignor_invalid s (kk_location key) @ nv_image s (kk_location key + 16) n))), s)"
proof -
  let ?loc = "kk_location key"
  let ?N = "ucast (kv_key_padded_data_length (kv_key_attributes key) (kh_length (kk_header key))) :: u32"
  let ?h = "checked_header ignor_invalid s ?loc"
  have N: "unat ?N = n" using unat_key_padded_length [OF len] by (simp add: unat_ucast_u16_u32 n_def)
  have n: "n < 4064" using pad4_bounds [of "unat (kh_length (kk_header key))"] len by (simp add: n_def)
  have Nn: "?N = of_nat n" by (metis N of_nat_unat ucast_id)
  have rd1: "kv_key_read_data_from_flash (replicate 128 0) ?loc 16 INVAILD_CRYPTO_HANDLE s
      = (ERRCODE_SUCC, nv_image s ?loc 16 @ replicate 112 0, s)"
    by (subst read_from_flash_quiet [OF q]) auto
  have fix1: "kv_key_fix_header_for_validate (nv_image s ?loc 16 @ replicate 112 0) ignor_invalid s = ?h @ replicate 112 0"
    by (subst fix_header_append) (simp_all add: checked_header_def)
  have lh: "length ?h = 16" by (simp add: checked_header_def)
  obtain chunk where chunk: "length chunk = 128"
    "validate_data_loop (?loc + 16) 0 ?N (?h @ replicate 112 0) (uapi_crc32 0 0 (Some ?h)) s
      = (ERRCODE_SUCC, ?N, chunk, uapi_crc32 0 0 (Some (?h @ nv_image s (?loc + 16) n)), s)"
    using validate_data_loop_quiet [OF q, of ?N 0 "?h @ replicate 112 0" "?loc + 16" "uapi_crc32 0 0 (Some ?h)"] lh N n
    by (auto simp: crc32_chunks [where z = 0])
  have rd2: "kv_key_read_data_from_flash chunk (?loc + 16 + ?N) 4 INVAILD_CRYPTO_HANDLE s
      = (ERRCODE_SUCC, nv_image s (?loc + 16 + ?N) 4 @ drop 4 chunk, s)"
    using chunk by (subst read_from_flash_quiet [OF q]) auto
  have tk: "take 16 (?h @ replicate 112 0) = ?h" using lh by simp
  have u4: "(ucast (4 :: u16) :: u32) = 4" by simp
  show ?thesis
    unfolding kv_key_validate_hash_chunks_def Let_def kv_key_hash_crc_tag_update_def kv_key_hash_crc_tag_start_def
      rd1 prod.case fix1 tk Nn chunk(2) [unfolded Nn] u4 rd2 [unfolded Nn] if_False simp_thms by auto
qed

lemma length_crc_tag_finish [simp]: "4 \<le> length c \<Longrightarrow> length (kv_key_hash_crc_tag_finish key c crc) = length c"
  by (simp add: kv_key_hash_crc_tag_finish_def buf_put_def)

lemma validate_integrity_quiet:
  assumes "nv_quiet s"
  shows "kv_key_validate_integrity key ignor_invalid s
    = (if NV_NORMAL_KVALUE_MAX_LEN < kh_length (kk_header key) then ERRCODE_NV_INVALID_KEY_HEADER
       else if key_intact ignor_invalid s key then ERRCODE_SUCC else ERRCODE_NV_HASH_MISMATCH, s)"
proof (cases "NV_NORMAL_KVALUE_MAX_LEN < kh_length (kk_header key)")
  case False
  then have le: "kh_length (kk_header key) \<le> 4060" by simp
  then have "unat (kh_length (kk_header key)) \<le> 4060" by (simp add: word_le_nat_alt)
  from validate_chunks_quiet [OF assms this, of ignor_invalid] obtain r where
    "kv_key_validate_hash_chunks key (replicate 128 0) (replicate 32 0) ignor_invalid s
      = (ERRCODE_SUCC, nv_image s (kk_location key + 16 + of_nat (pad4 (unat (kh_length (kk_header key))))) 4 @ r,
         kv_key_hash_crc_tag_finish key (replicate 32 0) (uapi_crc32 0 0
           (Some (checked_header ignor_invalid s (kk_location key)
              @ nv_image s (kk_location key + 16) (pad4 (unat (kh_length (kk_header key))))))), s)" by auto
  with False le assms show ?thesis
    by (auto simp: kv_key_validate_integrity_def nv_quiet_simps kv_key_hash_crc_tag_verify_def
        kv_key_hash_crc_tag_finish_def key_intact_def crc_be_def buf_put_0 Let_def)
qed (simp add: kv_key_validate_integrity_def)

lemma validation_is_integrity: "kv_key_validation key ign s = kv_key_validate_integrity key ign s"
  by (simp add: kv_key_validation_def kv_key_validate_integrity_def)

lemma is_valid_quiet:
  "nv_quiet s \<Longrightarrow> kv_key_is_valid key s = (\<not> kv_key_is_erased key s \<and> key_intact False s key, s)"
  by (auto simp: kv_key_is_valid_def validation_is_integrity validate_integrity_quiet key_intact_def Let_def)

lemma filter_match_quiet:
  assumes "nv_quiet s"
  shows "kv_key_does_filter_match key (Some (valid_key_filter key_id)) s
    = (if kh_key_id (kk_header key) \<noteq> key_id then ERRCODE_NV_SEARCH_PATTERN_MISMATCH
       else if \<not> kv_key_is_erased key s \<and> key_intact False s key then ERRCODE_SUCC
       else ERRCODE_NV_SEARCH_KEY_STATE_MISMATCH, s)"
proof -
  have m: "(0xFFFF :: u16) = - 1" by simp
  have "(w AND 0xFFFF :: u16) = w" for w unfolding m by simp
  then show ?thesis using is_valid_quiet [OF assms, of key]
    by (simp add: kv_key_does_filter_match_def valid_key_filter_def kv_key_does_pattern_match_def)
qed

section \<open>Damage\<close>

lemma bit_u8_above: "8 \<le> n \<Longrightarrow> \<not> bit (w :: u8) n"
  by (auto dest: bit_imp_le_length)

lemmas bytes_bits = bit_or_iff bit_and_iff bit_push_bit_iff bit_drop_bit_eq bit_ucast_iff

lemma word_le_bytes:
  "word_le (ucast w) (ucast (drop_bit 8 w)) (ucast (drop_bit 16 w)) (ucast (drop_bit 24 w)) = (w :: u32)"
proof (rule bit_word_eqI)
  fix n assume "n < LENGTH(32)"
  then show "bit (word_le (ucast w) (ucast (drop_bit 8 w)) (ucast (drop_bit 16 w)) (ucast (drop_bit 24 w))) n = bit w n"
    by (cases "n < 8"; cases "n < 16"; cases "n < 24"; auto simp: word_le_def bytes_bits)
qed

lemma bytes32_inj: "bytes32 a = bytes32 b \<longleftrightarrow> a = b"
proof
  assume "bytes32 a = bytes32 b"
  then have "ucast a = (ucast b :: u8)" "ucast (drop_bit 8 a) = (ucast (drop_bit 8 b) :: u8)"
    "ucast (drop_bit 16 a) = (ucast (drop_bit 16 b) :: u8)" "ucast (drop_bit 24 a) = (ucast (drop_bit 24 b) :: u8)"
    by (simp_all only: bytes32_def list.inject simp_thms)
  then show "a = b" by (metis word_le_bytes)
qed simp

lemma half_le_bytes: "half_le (ucast w) (ucast (drop_bit 8 w)) = (w :: u16)"
proof (rule bit_word_eqI)
  fix n assume "n < LENGTH(16)"
  then show "bit (half_le (ucast w) (ucast (drop_bit 8 w))) n = bit w n"
    by (cases "n < 8"; auto simp: half_le_def bytes_bits)
qed

lemma bytes_half_le: "bytes16 (half_le a b) = [a, b]"
  by (auto simp: bytes16_def half_le_def bytes_bits bit_u8_above intro!: bit_word_eqI)

lemma bytes_word_le: "bytes32 (word_le a b c d) = [a, b, c, d]"
  by (auto simp: bytes32_def word_le_def bytes_bits bit_u8_above intro!: bit_word_eqI)

lemma length_header_bytes [simp]: "length (header_bytes h) = 16"
  by (simp add: header_bytes_def bytes16_def bytes32_def)

lemma bytes_header_header_bytes [simp]: "bytes_header (header_bytes h) = h"
  by (simp add: bytes_header_def header_bytes_def bytes16_def bytes32_def half_le_bytes word_le_bytes)

lemma header_bytes_bytes_header:
  assumes "length bs = 16"
  shows "header_bytes (bytes_header bs) = bs"
proof -
  obtain b0 b1 b2 b3 b4 b5 b6 b7 b8 b9 b10 b11 b12 b13 b14 b15 where
    "bs = [b0, b1, b2, b3, b4, b5, b6, b7, b8, b9, b10, b11, b12, b13, b14, b15]"
    using assms by (auto simp: numeral_eq_Suc length_Suc_conv)
  then show ?thesis by (simp add: header_bytes_def bytes_header_def bytes_half_le bytes_word_le)
qed

lemma bytes_crc32_swap: "bytes32 (kv_crc32_swap w) = rev (bytes32 w)"
proof -
  have m: "(0xFF00 :: u32) = push_bit 8 (mask 8)" "(0xFF0000 :: u32) = push_bit 16 (mask 8)"
    by (simp_all add: mask_eq_exp_minus_1)
  show ?thesis
    by (auto simp: kv_crc32_swap_def m bytes32_def bytes_bits bit_mask_iff intro!: bit_word_eqI dest: bit_imp_le_length)
qed

lemma crc_be_inj: "crc_be a = crc_be b \<longleftrightarrow> uapi_crc32 0 0 (Some a) = uapi_crc32 0 0 (Some b)"
  by (metis crc_be_def bytes32_inj bytes_crc32_swap rev_rev_ident)

lemma record_image:
  "nv_image s loc (20 + n) = nv_image s loc 16 @ nv_image s (loc + 16) n @ nv_image s (loc + 16 + of_nat n) 4"
proof -
  have "20 + n = 16 + (n + 4)" by simp
  then show ?thesis using nv_image_append [of s loc 16 "n + 4"] nv_image_append [of s "loc + 16" n 4] by simp
qed

lemma key_intact_record:
  defines "n \<equiv> \<lambda>key. pad4 (unat (kh_length (kk_header key)))"
  shows "key_intact False s key \<longleftrightarrow>
    kh_length (kk_header key) \<le> NV_NORMAL_KVALUE_MAX_LEN \<and> kh_enc_key (kk_header key) \<noteq> AES_KDFKEY_SDRK_TYPE
    \<and> drop (16 + n key) (nv_image s (kk_location key) (20 + n key))
      = crc_be (take (16 + n key) (nv_image s (kk_location key) (20 + n key)))"
  by (simp add: key_intact_def n_def record_image checked_header_def kv_key_fix_header_for_validate_def Let_def)

lemma damage_detected:
  fixes key key' :: kv_key_handle_t
  defines "n \<equiv> pad4 (unat (kh_length (kk_header key)))"
  assumes ok: "key_intact False s key"
    and same: "kk_location key' = kk_location key" "kh_length (kk_header key') = kh_length (kk_header key)"
    and old: "nv_image s (kk_location key) (20 + n) = p @ a @ q"
    and new: "nv_image t (kk_location key) (20 + n) = p @ a' @ q"
    and dmg: "length a = length a'" "length a \<le> 4" "a \<noteq> a'"
    and part: "length p + length a \<le> 16 + n \<or> 16 + n \<le> length p"
  shows "\<not> key_intact False t key'"
proof
  let ?m = "16 + n"
  assume "key_intact False t key'"
  then have t: "drop ?m (p @ a' @ q) = crc_be (take ?m (p @ a' @ q))"
    by (simp only: key_intact_record same n_def [symmetric] new)
  have s: "drop ?m (p @ a @ q) = crc_be (take ?m (p @ a @ q))"
    using ok by (simp only: key_intact_record n_def [symmetric] old)
  show False using part
  proof
    assume le: "length p + length a \<le> ?m"
    let ?q = "take (?m - (length p + length a)) q"
    have "take ?m (p @ x @ q) = p @ x @ ?q" "drop ?m (p @ x @ q) = drop (?m - (length p + length a)) q"
      if "length x = length a" for x using le that by simp_all
    from this [of a] this [of a'] s t dmg have "crc_be (p @ a @ ?q) = crc_be (p @ a' @ ?q)" by simp
    then show False using crc32_window [OF dmg] by (simp add: crc_be_inj)
  next
    assume "?m \<le> length p"
    then have "drop ?m p @ a @ q = crc_be (take ?m p)" "drop ?m p @ a' @ q = crc_be (take ?m p)"
      using s t by simp_all
    then have "drop ?m p @ a @ q = drop ?m p @ a' @ q" by (rule trans [OF _ sym])
    then show False using dmg by simp
  qed
qed

section \<open>A store to try the theorems on\<close>

text \<open>One page of the store, at 0x22C000, with the key 5, whose value is 1, 2, 3.\<close>

definition demo_bytes :: "u8 list" where
  "demo_bytes = [0x4D, 0x25, 1, 0, 0xB2, 0xDA, 0xFE, 0xFF, 0, 0, 0, 0, 0xFF, 0xFF, 0xFF, 0xFF,
     0xA9, 0xFF, 3, 0, 0xFF, 0xFF, 5, 0, 0, 0, 0, 0, 0, 0, 0, 0, 1, 2, 3, 0, 200, 54, 10, 108]"

definition demo_store :: kv_update_state where
  "demo_store = \<lparr>nv_flash = (\<lambda>x. if unat (x - 0x2C000) < 40 then demo_bytes ! unat (x - 0x2C000) else 0xFF),
     sfc_rd = (\<lambda>_. 0), sfc_wr = (\<lambda>_. (0, 0)), sfc_er = (\<lambda>_. (0, \<lambda>_. 0)), nv_heap = (\<lambda>_. True),
     g_nv_header_magic = KV_KEY_MAGIC,
     g_kv_nvregion_area = \<lparr>nv_data_addr = 0x22C000, nv_data_size = 0x4000, nv_backup_addr = 0x230000, nv_backup_size = 0x4000\<rparr>,
     nv_stack_key = \<lparr>kk_header = bytes_header (replicate 16 0), kk_location = 0\<rparr>,
     nv_entries = Some (bytes_page_header demo_bytes # replicate 3 zero_page_header),
     nv_page_status_map = Some (\<lparr>pm_page_location = 0x22C000, pm_used_space = 24, pm_reclaimable_space = 0,
        pm_corrupted_space = 0, pm_first_writable_offset = 40\<rparr>
        # replicate 3 \<lparr>pm_page_location = 0, pm_used_space = 0, pm_reclaimable_space = 0,
             pm_corrupted_space = 0, pm_first_writable_offset = 0\<rparr>),
     nv_num_entries = 4, g_machines = [], g_search_filter = valid_key_filter 0,
     g_new_key_details = \<lparr>kd_key_id = 0, kd_focre_write = False, kd_kvalue = [], kd_kvalue_length = 0, kd_attributes = 0\<rparr>,
     g_current_key = \<lparr>kk_header = bytes_header (replicate 16 0), kk_location = 0\<rparr>,
     g_current_page = \<lparr>pg_header = zero_page_header, pg_location = 0\<rparr>,
     g_current_store = 0, g_current_store_write_location = 0, g_defrag_page_location = 0\<rparr>"

lemma demo_quiet: "nv_quiet demo_store" "g_nv_header_magic demo_store = KV_KEY_MAGIC"
  by (simp_all add: nv_quiet_def demo_store_def)

text \<open>C37: A key that passes its check is refused after any damage to at most four neighbouring bytes of its
  header and data, or of its checksum, as long as the header still gives its length: the check then reports a
  mismatch, whatever the damaged bytes are.
\<close>

theorem damaged_key_refused:
  fixes key key' :: kv_key_handle_t
  defines "n \<equiv> pad4 (unat (kh_length (kk_header key)))"
  assumes q: "nv_quiet s" "nv_quiet t" and ok: "kv_key_validate_integrity key False s = (ERRCODE_SUCC, s)"
    and same: "kk_location key' = kk_location key" "kh_length (kk_header key') = kh_length (kk_header key)"
    and img: "nv_image s (kk_location key) (20 + n) = p @ a @ q"
      "nv_image t (kk_location key) (20 + n) = p @ a' @ q"
    and dmg: "length a = length a'" "length a \<le> 4" "a \<noteq> a'"
    and part: "length p + length a \<le> 16 + n \<or> 16 + n \<le> length p"
  shows "kv_key_validate_integrity key' False t = (ERRCODE_NV_HASH_MISMATCH, t)"
proof -
  have i: "key_intact False s key" using ok validate_integrity_quiet [OF q(1), of key False] by (auto split: if_splits)
  then have "kh_length (kk_header key') \<le> NV_NORMAL_KVALUE_MAX_LEN" by (simp add: key_intact_def Let_def same)
  moreover have "\<not> key_intact False t key'"
    using damage_detected [OF i same img [unfolded n_def] dmg] part by (simp add: n_def)
  ultimately show ?thesis by (simp add: validate_integrity_quiet [OF q(2)] not_less)
qed

lemma damaged_key_refused_witness:
  "kv_key_validate_integrity \<lparr>kk_header = bytes_header (nv_image demo_store 0x22C010 16), kk_location = 0x22C010\<rparr> False
     (demo_store\<lparr>nv_flash := (nv_flash demo_store)(0x2C020 := 7)\<rparr>)
   = (ERRCODE_NV_HASH_MISMATCH, demo_store\<lparr>nv_flash := (nv_flash demo_store)(0x2C020 := 7)\<rparr>)"
proof -
  let ?k = "\<lparr>kk_header = bytes_header (nv_image demo_store 0x22C010 16), kk_location = 0x22C010\<rparr>"
  let ?t = "demo_store\<lparr>nv_flash := (nv_flash demo_store)(0x2C020 := 7)\<rparr>"
  let ?p = "[0xA9, 0xFF, 3, 0, 0xFF, 0xFF, 5, 0, 0, 0, 0, 0, 0, 0, 0, 0] :: u8 list"
  have n: "pad4 (unat (kh_length (kk_header ?k))) = 4" "key_intact False demo_store ?k" by code_simp+
  have i: "nv_image demo_store 0x22C010 24 = ?p @ [1] @ [2, 3, 0, 200, 54, 10, 108]"
    "nv_image ?t 0x22C010 24 = ?p @ [7] @ [2, 3, 0, 200, 54, 10, 108]" by code_simp+
  have v: "kv_key_validate_integrity ?k False demo_store = (ERRCODE_SUCC, demo_store)"
    using n(2) validate_integrity_quiet [OF demo_quiet(1), of ?k False] by (auto simp: key_intact_def Let_def)
  show ?thesis
    by (rule damaged_key_refused [OF demo_quiet(1) _ v, of _ _ ?p "[1]" "[2, 3, 0, 200, 54, 10, 108]" "[7]"])
      (use n i demo_quiet in simp_all)
qed

end
