(* ===== verification/NvLookup.thy ===== *)
theory NvLookup
  imports NvRead
begin

text \<open>
  Looking a key up. A page whose keys follow each other, with the erased rest or the page end behind the
  last one, is a chain (\<open>key_chain\<close>); on chains the searches end, and what they find is the first key of the list
  that has the number, is not marked invalid and passes the check of its CRC.
\<close>

section \<open>Keys in the flash\<close>

definition key_at :: "'a nv_world_scheme \<Rightarrow> u32 \<Rightarrow> kv_key_handle_t" where
  "key_at s loc = \<lparr>kk_header = bytes_header (nv_image s loc 16), kk_location = loc\<rparr>"

lemma key_at_simps [simp]:
  "kk_location (key_at s loc) = loc" "kk_header (key_at s loc) = bytes_header (nv_image s loc 16)"
  by (simp_all add: key_at_def)

lemma full_ff_image:
  "kv_key_header_is_full_ff (bytes_header (nv_image s loc 16)) 16 \<longleftrightarrow> nv_image s loc 16 = replicate 16 0xFF"
  by (simp add: kv_key_header_is_full_ff_def header_bytes_bytes_header)

lemma get_handle_quiet:
  assumes "nv_quiet s" "g_nv_header_magic s = KV_KEY_MAGIC"
  shows "kv_key_get_handle_from_location loc key s
    = (if nv_image s loc 16 = replicate 16 0xFF then ERRCODE_NV_KEY_NOT_FOUND
       else if kh_magic (kk_header (key_at s loc)) \<noteq> KV_KEY_MAGIC then ERRCODE_NV_INVALID_KEY_HEADER
       else ERRCODE_SUCC, key_at s loc, s)"
proof -
  have "kv_key_helper_copy_flash (header_bytes h) loc 16 s = (ERRCODE_SUCC, nv_image s loc 16, s)" for h
    using copy_image_quiet [OF assms(1), of 16 "header_bytes h" loc] by simp
  then show ?thesis using assms(2) full_ff_image [of s loc]
    by (simp add: kv_key_get_handle_from_location_def key_at_def Let_def)
qed

definition next_location :: "kv_key_handle_t \<Rightarrow> u32" where
  "next_location key = kk_location key + ucast (kv_key_flash_size key)"

definition same_page :: "u32 \<Rightarrow> u32 \<Rightarrow> bool" where
  "same_page a b \<longleftrightarrow> kv_key_locations_in_same_page a b = ERRCODE_SUCC"

text \<open>
  The keys from a location on. The last one must pass the check (even if it is marked invalid): what is
  behind a damaged last key is searched for magic bytes.
\<close>

fun key_chain :: "'a kv_key_state_scheme \<Rightarrow> u32 \<Rightarrow> kv_key_handle_t list \<Rightarrow> bool" where
  "key_chain s loc [] \<longleftrightarrow> nv_image s loc 16 = replicate 16 0xFF"
| "key_chain s loc (k # ks) \<longleftrightarrow>
     k = key_at s loc \<and> kh_magic (kk_header k) = KV_KEY_MAGIC
     \<and> (if same_page loc (next_location k) then key_chain s (next_location k) ks else ks = [])
     \<and> (ks = [] \<longrightarrow> key_intact True s k)"

text \<open>A key with a number that is neither marked invalid nor empty and passes its check.\<close>

definition is_wanted :: "'a kv_key_state_scheme \<Rightarrow> u16 \<Rightarrow> kv_key_handle_t \<Rightarrow> bool" where
  "is_wanted s key_id key \<longleftrightarrow>
     kh_key_id (kk_header key) = key_id \<and> kh_magic (kk_header key) = KV_KEY_MAGIC
     \<and> kh_valid (kk_header key) = KV_KEY_VALID \<and> kh_length (kk_header key) \<noteq> 0 \<and> key_intact False s key"

lemma filter_match_wanted:
  assumes "nv_quiet s" "g_nv_header_magic s = KV_KEY_MAGIC"
  shows "\<exists>res. kv_key_does_filter_match key (Some (valid_key_filter key_id)) s = (res, s)
     \<and> (res = ERRCODE_SUCC \<longleftrightarrow> is_wanted s key_id key)"
  using assms by (auto simp: filter_match_quiet is_wanted_def kv_key_is_erased_def key_intact_def Let_def)

text \<open>From a key of the chain to the next.\<close>

lemma next_handle_chain:
  assumes q: "nv_quiet s" and m: "g_nv_header_magic s = KV_KEY_MAGIC" and c: "key_chain s loc (k # ks)"
  shows "kv_key_get_next_handle k st s = (if st = KV_KEY_VALIDATE_WRONG then kv_key_get_next_magic_position loc k s
    else Some (case ks of [] \<Rightarrow> (ERRCODE_NV_KEY_NOT_FOUND,
                 (if same_page loc (next_location k) then key_at s (next_location k)
                  else k\<lparr>kk_location := next_location k\<rparr>), s)
               | k' # _ \<Rightarrow> (ERRCODE_SUCC, k', s)))"
proof -
  have k: "k = key_at s loc" "kh_magic (bytes_header (nv_image s loc 16)) = KV_KEY_MAGIC" using c by auto
  have nf: "nv_image s loc 16 \<noteq> replicate 16 0xFF"
    using k(2) by (auto simp: bytes_header_def)
  have kl: "kk_location k = loc" "kh_magic (kk_header k) = KV_KEY_MAGIC"
    and kf: "\<not> kv_key_header_is_full_ff (kk_header k) 16"
    using k nf full_ff_image [of s loc] by (simp_all only: key_at_simps simp_thms)
  have cc: "if same_page loc (next_location k) then key_chain s (next_location k) ks else ks = []"
    using c unfolding key_chain.simps by blast
  note gh = get_handle_quiet [OF q m, of "next_location k" k]
  have gn: "kv_key_get_next_key_from_location loc (next_location k) k s
      = (if same_page loc (next_location k) then kv_key_get_handle_from_location (next_location k) k s
         else (ERRCODE_NV_KEY_NOT_FOUND, k, s))"
    by (simp add: kv_key_get_next_key_from_location_def same_page_def)
  have step: "kv_key_get_next_handle k st s = (if st = KV_KEY_VALIDATE_WRONG then kv_key_get_next_magic_position loc k s
    else let (res, key, s) = kv_key_get_next_key_from_location loc (next_location k) k s
        in if res \<noteq> ERRCODE_SUCC then
             let (ok, s) = (if st = KV_KEY_VALIDATE_CORRECT then (True, s)
                   else let (r, s) = kv_key_validate_integrity k True s in (r = ERRCODE_SUCC, s))
             in if ok then
                  Some (if res = ERRCODE_NV_INVALID_KEY_HEADER then ERRCODE_SUCC else res,
                        key\<lparr>kk_location := next_location k\<rparr>, s)
                else kv_key_get_next_magic_position loc key s
           else Some (res, key, s))"
    unfolding kv_key_get_next_handle_def kv_key_get_next_handle_with_corrupt_key_def next_location_def Let_def kl
    using m kf by simp
  show ?thesis
  proof (cases ks)
    case Nil
    have i: "key_intact True s k" using c unfolding Nil key_chain.simps by blast
    then have "kv_key_validate_integrity k True s = (ERRCODE_SUCC, s)"
      using validate_integrity_quiet [OF q, of k True] by (auto simp: key_intact_def Let_def)
    moreover have "same_page loc (next_location k) \<Longrightarrow> nv_image s (next_location k) 16 = replicate 16 0xFF"
      using cc Nil by simp
    moreover have "key_at s l\<lparr>kk_location := l\<rparr> = key_at s l" for l by (simp add: key_at_def)
    ultimately show ?thesis using Nil
      by (simp add: step gn gh)
  next
    case (Cons k' ks')
    then have "same_page loc (next_location k)" "key_chain s (next_location k) (k' # ks')"
      using cc by (auto split: if_splits)
    moreover from this have "kh_magic (bytes_header (nv_image s (next_location k) 16)) = KV_KEY_MAGIC"
      "k' = key_at s (next_location k)" by auto
    moreover from this(1) have "nv_image s (next_location k) 16 \<noteq> replicate 16 0xFF" by (auto simp: bytes_header_def)
    ultimately show ?thesis using Cons
      by (simp add: step gn gh)
  qed
qed

lemma find_key_loop_chain:
  assumes q: "nv_quiet s" and m: "g_nv_header_magic s = KV_KEY_MAGIC"
  shows "key_chain s loc (k # ks) \<Longrightarrow> \<exists>key'. find_key_loop (Some (valid_key_filter key_id)) ERRCODE_SUCC k s
    = Some (case find (is_wanted s key_id) (k # ks) of
        Some w \<Rightarrow> (ERRCODE_SUCC, w, s) | None \<Rightarrow> (ERRCODE_NV_KEY_NOT_FOUND, key', s))"
proof (induction ks arbitrary: loc k)
  case Nil
  obtain res where r: "kv_key_does_filter_match k (Some (valid_key_filter key_id)) s = (res, s)"
    "res = ERRCODE_SUCC \<longleftrightarrow> is_wanted s key_id k" using filter_match_wanted [OF q m] by blast
  note nh = next_handle_chain [OF q m Nil.prems, of KV_KEY_NOT_VALIDATE]
  show ?case using r nh
    by (cases "is_wanted s key_id k"; subst find_key_loop.simps; simp add: find_key_loop.simps)
next
  case (Cons k' ks)
  obtain res where r: "kv_key_does_filter_match k (Some (valid_key_filter key_id)) s = (res, s)"
    "res = ERRCODE_SUCC \<longleftrightarrow> is_wanted s key_id k" using filter_match_wanted [OF q m] by blast
  note nh = next_handle_chain [OF q m Cons.prems, of KV_KEY_NOT_VALIDATE]
  have "key_chain s (next_location k) (k' # ks)" using Cons.prems by (auto split: if_splits)
  from Cons.IH [OF this] show ?case using r nh
    by (cases "is_wanted s key_id k"; subst find_key_loop.simps; simp)
qed

lemma page_find_first_chain:
  assumes q: "nv_quiet s" and m: "g_nv_header_magic s = KV_KEY_MAGIC" and c: "key_chain s (page + 16) ks"
  shows "\<exists>key'. kv_page_find_first_key page (Some (valid_key_filter key_id)) key s
    = Some (case find (is_wanted s key_id) ks of
        Some w \<Rightarrow> (ERRCODE_SUCC, w, s) | None \<Rightarrow> (ERRCODE_NV_KEY_NOT_FOUND, key', s))"
proof (cases ks)
  case Nil
  then show ?thesis using c
    by (simp add: kv_page_find_first_key_def get_handle_quiet [OF q m] find_key_loop.simps)
next
  case (Cons k ks')
  then have k: "k = key_at s (page + 16)" "kh_magic (kk_header k) = KV_KEY_MAGIC"
    "nv_image s (page + 16) 16 \<noteq> replicate 16 0xFF" using c by (auto simp: bytes_header_def)
  from find_key_loop_chain [OF q m, of "page + 16" k ks' key_id] obtain key' where
    "find_key_loop (Some (valid_key_filter key_id)) ERRCODE_SUCC k s
    = Some (case find (is_wanted s key_id) (k # ks') of
        Some w \<Rightarrow> (ERRCODE_SUCC, w, s) | None \<Rightarrow> (ERRCODE_NV_KEY_NOT_FOUND, key', s))"
    using c Cons by blast
  with Cons k show ?thesis
    by (auto simp: kv_page_find_first_key_def get_handle_quiet [OF q m])
qed

section \<open>The store\<close>

text \<open>The three pages of the store and their keys; a page that is not in the region map has none.\<close>

definition page_chain :: "'a kv_region_state_scheme \<Rightarrow> u32 \<Rightarrow> u32 \<Rightarrow> kv_key_handle_t list \<Rightarrow> bool" where
  "page_chain s store i ks \<longleftrightarrow>
     (let (res, page) = kv_store_get_page_handle store i s
      in if res = ERRCODE_SUCC then key_chain s (pg_location page + 16) ks else ks = [])"

definition store_chains :: "'a kv_region_state_scheme \<Rightarrow> u32 \<Rightarrow> kv_key_handle_t list list \<Rightarrow> bool" where
  "store_chains s store kss \<longleftrightarrow> length kss = unat (kv_store_get_page_count store)
     \<and> (\<forall>i < length kss. page_chain s store (of_nat i) (kss ! i))"

definition first_valid :: "'a kv_key_state_scheme \<Rightarrow> u16 \<Rightarrow> kv_key_handle_t list list \<Rightarrow> kv_key_handle_t option" where
  "first_valid s key_id kss = find (is_wanted s key_id) (concat kss)"

lemma find_append: "find P (xs @ ys) = (case find P xs of None \<Rightarrow> find P ys | Some x \<Rightarrow> Some x)"
  by (induction xs) auto

lemma find_valid_loop_chains:
  assumes q: "nv_quiet s" and m: "g_nv_header_magic s = KV_KEY_MAGIC"
  shows "\<forall>j < length kss. page_chain s store (i + of_nat j) (kss ! j) \<Longrightarrow>
    \<exists>key'. find_valid_loop (length kss) i store key_id key s
    = Some (case first_valid s key_id kss of
        Some w \<Rightarrow> (ERRCODE_SUCC, w, s) | None \<Rightarrow> (ERRCODE_NV_KEY_NOT_FOUND, key', s))"
proof (induction kss arbitrary: i key)
  case Nil
  then show ?case by (simp add: first_valid_def)
next
  case (Cons ks kss)
  have tl: "\<forall>j < length kss. page_chain s store (i + 1 + of_nat j) (kss ! j)"
    using Cons.prems by (auto simp: add.assoc dest: spec [of _ "Suc _"])
  obtain res page where h: "kv_store_get_page_handle store i s = (res, page)" by fastforce
  have "page_chain s store i ks" using Cons.prems by (auto dest: spec [of _ 0])
  with h have c: "if res = ERRCODE_SUCC then key_chain s (pg_location page + 16) ks else ks = []"
    by (simp add: page_chain_def)
  show ?case
  proof (cases "res = ERRCODE_SUCC")
    case True
    then obtain key' where f: "kv_page_find_first_key (pg_location page) (Some (valid_key_filter key_id)) key s
      = Some (case find (is_wanted s key_id) ks of
          Some w \<Rightarrow> (ERRCODE_SUCC, w, s) | None \<Rightarrow> (ERRCODE_NV_KEY_NOT_FOUND, key', s))"
      using page_find_first_chain [OF q m, of "pg_location page" ks] c by auto
    show ?thesis using Cons.IH [OF tl, of key'] h True f
      by (cases "find (is_wanted s key_id) ks") (simp_all add: first_valid_def find_append)
  next
    case False
    then show ?thesis using Cons.IH [OF tl, of key] h c by (simp add: first_valid_def)
  qed
qed

lemma find_valid_key_chains:
  assumes "nv_quiet s" "g_nv_header_magic s = KV_KEY_MAGIC" "store_chains s store kss"
  shows "\<exists>key'. kv_store_find_valid_key store key_id key s
    = Some (case first_valid s key_id kss of
        Some w \<Rightarrow> (ERRCODE_SUCC, w, s) | None \<Rightarrow> (ERRCODE_NV_KEY_NOT_FOUND, key', s))"
  using find_valid_loop_chains [OF assms(1,2), of kss store 0 key_id key] assms(3)
  by (simp add: kv_store_find_valid_key_def store_chains_def)

text \<open>The value of a key, and what the caller gets.\<close>

definition key_value :: "'a nv_world_scheme \<Rightarrow> kv_key_handle_t \<Rightarrow> u8 list" where
  "key_value s key = nv_image s (kk_location key + 16) (unat (kh_length (kk_header key)))"

lemma get_key_chains:
  assumes q: "nv_quiet s" and m: "g_nv_header_magic s = KV_KEY_MAGIC" and c: "store_chains s store kss"
    and buf: "length (kd_value kd) = unat (kvalue_max_length kd)"
  shows "kv_store_get_key store key_id kd s = Some (case first_valid s key_id kss of
      None \<Rightarrow> (ERRCODE_NV_KEY_NOT_FOUND, kd, None, s)
    | Some w \<Rightarrow>
        let kd' = kd\<lparr>kvalue_actual_length := kh_length (kk_header w)\<rparr>
        in if kvalue_max_length kd < kh_length (kk_header w)
           then (ERRCODE_NV_GET_BUFFER_TOO_SMALL, kd', Some (kv_key_attributes w), s)
           else (ERRCODE_SUCC, kd'\<lparr>kd_value := key_value s w @ drop (length (key_value s w)) (kd_value kd)\<rparr>,
                 Some (kv_key_attributes w), s))"
proof -
  obtain key' where f: "kv_store_find_valid_key store key_id (nv_stack_key s) s
    = Some (case first_valid s key_id kss of
        Some w \<Rightarrow> (ERRCODE_SUCC, w, s) | None \<Rightarrow> (ERRCODE_NV_KEY_NOT_FOUND, key', s))"
    using find_valid_key_chains [OF q m c] by blast
  show ?thesis
  proof (cases "first_valid s key_id kss")
    case None
    then show ?thesis using f by (simp add: kv_store_get_key_def)
  next
    case (Some w)
    have "\<not> kvalue_max_length kd < kh_length (kk_header w) \<Longrightarrow>
        kv_key_read_data w (kd_value kd) s = (ERRCODE_SUCC, key_value s w @ drop (length (key_value s w)) (kd_value kd), s)"
      using buf by (subst read_data_quiet [OF q]) (simp_all add: key_value_def word_less_nat_alt)
    then show ?thesis using f Some
      by (simp add: kv_store_get_key_def read_found_key_def Let_def)
  qed
qed

lemma demo_chain: "key_chain demo_store 0x22C010 [key_at demo_store 0x22C010]"
  by code_simp

lemma demo_chains: "store_chains demo_store 0 [[key_at demo_store 0x22C010], [], []]"
  by code_simp

text \<open>C36: Looking a key up is exact: on pages whose keys follow each other, reading a key ends and gives the
  value and the attributes of the first key, page after page, that has the number, is not erased and passes its
  check, or says that there is none; a buffer that is too small is told the length. The state is as before.
\<close>

theorem get_key_exact:
  assumes "nv_quiet s" "g_nv_header_magic s = KV_KEY_MAGIC" "store_chains s store kss"
    and "length (kd_value kd) = unat (kvalue_max_length kd)"
  shows "kv_store_get_key store key_id kd s = Some (case first_valid s key_id kss of
      None \<Rightarrow> (ERRCODE_NV_KEY_NOT_FOUND, kd, None, s)
    | Some w \<Rightarrow>
        let kd' = kd\<lparr>kvalue_actual_length := kh_length (kk_header w)\<rparr>
        in if kvalue_max_length kd < kh_length (kk_header w)
           then (ERRCODE_NV_GET_BUFFER_TOO_SMALL, kd', Some (kv_key_attributes w), s)
           else (ERRCODE_SUCC, kd'\<lparr>kd_value := key_value s w @ drop (length (key_value s w)) (kd_value kd)\<rparr>,
                 Some (kv_key_attributes w), s))"
  by (rule get_key_chains [OF assms])

lemma get_key_exact_witness:
  "kv_store_get_key 0 5 \<lparr>kvalue_max_length = 4, kvalue_actual_length = 0, kd_value = [9, 9, 9, 9]\<rparr> demo_store
   = Some (ERRCODE_SUCC, \<lparr>kvalue_max_length = 4, kvalue_actual_length = 3, kd_value = [1, 2, 3, 9]\<rparr>, Some 0, demo_store)"
proof -
  have w: "first_valid demo_store 5 [[key_at demo_store 0x22C010], [], []] = Some (key_at demo_store 0x22C010)"
    by code_simp
  have v: "key_value demo_store (key_at demo_store 0x22C010) = [1, 2, 3]"
    "kh_length (kk_header (key_at demo_store 0x22C010)) = 3" "kv_key_attributes (key_at demo_store 0x22C010) = 0"
    by code_simp+
  show ?thesis
    using get_key_exact [OF demo_quiet demo_chains,
        of "\<lparr>kvalue_max_length = 4, kvalue_actual_length = 0, kd_value = [9, 9, 9, 9]\<rparr>" 5] w v
    by (simp add: Let_def)
qed

end
