(* ===== verification/NvFault.thy ===== *)
theory NvFault
  imports NvLookup
begin

text \<open>
  Two faults of the storage. A header that was cut off behind the low byte of its length makes the search
  stand still; and a write that gets no memory for its first machine is reported as a success.
\<close>

section \<open>A search that does not end\<close>

definition stuck_key :: "'a kv_key_state_scheme \<Rightarrow> kv_key_handle_t \<Rightarrow> bool" where
  "stuck_key s k \<longleftrightarrow> k = key_at s (kk_location k) \<and> kh_magic (kk_header k) = KV_KEY_MAGIC
     \<and> kh_length (kk_header k) \<in> {0xFFE9 .. 0xFFEC} \<and> same_page (kk_location k) (kk_location k)"

lemma stuck_length:
  assumes "l \<in> {0xFFE9 .. (0xFFEC :: u16)}"
  shows "16 + KV_CRYPTO_CRC_SIZE + kv_key_padded_data_length a l = 0" "\<not> l \<le> NV_NORMAL_KVALUE_MAX_LEN"
proof -
  have "unat l \<in> {65513 .. 65516}" using assms by (auto simp: word_le_nat_alt)
  then have c: "unat l = 65513 \<or> unat l = 65514 \<or> unat l = 65515 \<or> unat l = 65516" by auto
  have "l = 0xFFE9 \<or> l = 0xFFEA \<or> l = 0xFFEB \<or> l = 0xFFEC"
    using c by (simp add: word_unat_eq_iff)
  then show "16 + KV_CRYPTO_CRC_SIZE + kv_key_padded_data_length a l = 0" "\<not> l \<le> NV_NORMAL_KVALUE_MAX_LEN"
    by (auto simp: kv_key_padded_data_length_def kv_padded_length_def)
qed

lemma stuck_next:
  assumes q: "nv_quiet s" and m: "g_nv_header_magic s = KV_KEY_MAGIC" and k: "stuck_key s k"
  shows "kv_key_get_next_handle k KV_KEY_NOT_VALIDATE s = Some (ERRCODE_SUCC, k, s)"
proof -
  have kk: "k = key_at s (kk_location k)" "kh_magic (kk_header k) = KV_KEY_MAGIC"
    "same_page (kk_location k) (kk_location k)" using k by (simp_all add: stuck_key_def)
  have sz: "kv_key_flash_size k = 0"
    using k stuck_length(1) [of "kh_length (kk_header k)"] by (simp add: stuck_key_def kv_key_flash_size_def)
  have h: "kk_header k = bytes_header (nv_image s (kk_location k) 16)" using kk(1) by (metis key_at_simps(2))
  have nf: "nv_image s (kk_location k) 16 \<noteq> replicate 16 0xFF"
    using kk(2) h by (auto simp: bytes_header_def)
  have ff: "\<not> kv_key_header_is_full_ff (kk_header k) 16"
    using nf full_ff_image [of s "kk_location k"] h by simp
  have g: "kv_key_get_next_key_from_location (kk_location k) (kk_location k) k s = (ERRCODE_SUCC, k, s)"
    using kk nf h get_handle_quiet [OF q m, of "kk_location k" k]
    by (simp add: kv_key_get_next_key_from_location_def same_page_def)
  show ?thesis
    using m kk(2) ff sz g by (simp add: kv_key_get_next_handle_def kv_key_get_next_handle_with_corrupt_key_def)
qed

lemma stuck_unwanted: "stuck_key s k \<Longrightarrow> \<not> is_wanted s key_id k"
  using stuck_length(2) [of "kh_length (kk_header k)"]
  by (auto simp: stuck_key_def is_wanted_def key_intact_def Let_def)

lemma find_key_loop_stuck:
  assumes "find_key_loop flt res k s = Some y"
  shows "\<not> (nv_quiet s \<and> g_nv_header_magic s = KV_KEY_MAGIC \<and> stuck_key s k \<and> res = ERRCODE_SUCC
    \<and> flt = Some (valid_key_filter key_id))"
proof (rule find_key_loop.raw_induct [OF _ assms, where P = "\<lambda>flt res k s y. \<not> (nv_quiet s
    \<and> g_nv_header_magic s = KV_KEY_MAGIC \<and> stuck_key s k \<and> res = ERRCODE_SUCC \<and> flt = Some (valid_key_filter key_id))"])
  fix f :: "kv_key_filter_t option \<Rightarrow> u32 \<Rightarrow> kv_key_handle_t \<Rightarrow> 'b kv_key_state_scheme
    \<Rightarrow> (u32 \<times> kv_key_handle_t \<times> 'b kv_key_state_scheme) option"
    and flt res k s y
  assume ih: "\<And>flt res k s y. f flt res k s = Some y \<Longrightarrow> \<not> (nv_quiet s
      \<and> g_nv_header_magic s = KV_KEY_MAGIC \<and> stuck_key s k \<and> res = ERRCODE_SUCC \<and> flt = Some (valid_key_filter key_id))"
    and run: "(if res = ERRCODE_SUCC then
        let (res, s) = kv_key_does_filter_match k flt s
        in if res = ERRCODE_SUCC then Some (ERRCODE_SUCC, k, s)
           else do {
             (res, key, s) \<leftarrow> kv_key_get_next_handle k KV_KEY_NOT_VALIDATE s;
             f flt res key s
           }
      else Some (res, k, s)) = Some y"
  show "\<not> (nv_quiet s \<and> g_nv_header_magic s = KV_KEY_MAGIC \<and> stuck_key s k \<and> res = ERRCODE_SUCC
      \<and> flt = Some (valid_key_filter key_id))"
  proof
    assume a: "nv_quiet s \<and> g_nv_header_magic s = KV_KEY_MAGIC \<and> stuck_key s k \<and> res = ERRCODE_SUCC
      \<and> flt = Some (valid_key_filter key_id)"
    obtain r where "kv_key_does_filter_match k (Some (valid_key_filter key_id)) s = (r, s)" "r \<noteq> ERRCODE_SUCC"
      using filter_match_wanted [of s k key_id] stuck_unwanted [of s k key_id] a by blast
    then show False using run ih [of flt 0 k s y] a stuck_next [of s k] by simp
  qed
qed

lemma find_key_loop_none:
  "nv_quiet s \<Longrightarrow> g_nv_header_magic s = KV_KEY_MAGIC \<Longrightarrow> stuck_key s k \<Longrightarrow>
    find_key_loop (Some (valid_key_filter key_id)) ERRCODE_SUCC k s = None"
  using find_key_loop_stuck by (metis (lifting) not_Some_eq surj_pair)

text \<open>The bytes of an area after programming bytes at its beginning.\<close>

lemma prog_bytes:
  assumes "length bs \<le> n" "n < 4294967296"
  shows "flash_bytes (flash_prog a bs f) a n = map2 (AND) (take (length bs) (flash_bytes f a n)) bs @ drop (length bs) (flash_bytes f a n)"
  using assms
  by (intro nth_equalityI) (auto simp: nth_flash_bytes flash_prog_def nth_append unat_of_nat)

lemma prog_image:
  assumes "length bs \<le> n" "n < 4294967296"
  shows "nv_image (s\<lparr>nv_flash := flash_prog (loc - FLASH_PHYSICAL_ADDR_START) bs (nv_flash s)\<rparr>) loc n
    = map2 (AND) (take (length bs) (nv_image s loc n)) bs @ drop (length bs) (nv_image s loc n)"
  using prog_bytes [OF assms] by (simp add: nv_image_def)

lemma unat_and_not4095: "unat ((x :: u32) AND NOT (KV_PAGE_SIZE - 1)) = 4096 * (unat x div 4096)"
proof -
  have m: "NOT (KV_PAGE_SIZE - 1) = NOT (mask 12 :: u32)" by (simp add: mask_eq_exp_minus_1)
  have "x AND NOT (mask 12) = push_bit 12 (drop_bit 12 x)"
    by (rule bit_word_eqI) (auto simp: bit_simps)
  then have "unat (x AND NOT (KV_PAGE_SIZE - 1)) = 4096 * (unat x div 4096) mod 4294967296" unfolding m
    by (simp add: push_bit_eq_mult drop_bit_eq_div unat_word_ariths mult.commute mod_mult_right_eq)
  then show ?thesis using unat_u32_less [of x] by simp
qed

lemma same_page_div: "same_page a b \<longleftrightarrow> unat a div 4096 = unat (b + 16) div 4096"
proof -
  have "a AND NOT (KV_PAGE_SIZE - 1) = (b + 16) AND NOT (KV_PAGE_SIZE - 1)
      \<longleftrightarrow> 4096 * (unat a div 4096) = 4096 * (unat (b + 16) div 4096)"
    by (simp only: word_unat_eq_iff unat_and_not4095)
  then show ?thesis by (simp add: same_page_def kv_key_locations_in_same_page_def)
qed

lemma unat_page_offset:
  fixes page :: u32
  assumes "unat page mod 4096 = 0" "n < 4096"
  shows "unat (page + of_nat n) = unat page + n"
proof -
  obtain k where k: "unat page = 4096 * k" using assms(1) by auto
  have "k < 1048576" using unat_u32_less [of page] k by simp
  then have "unat page + n < 4294967296" using k assms(2) by simp
  then show ?thesis using assms(2) by (subst unat_add_lem [THEN iffD1]) (simp_all add: unat_of_nat)
qed

lemma prog_disjoint:
  assumes "unat loc + n \<le> unat wl \<or> unat wl + length bs \<le> unat loc"
    and "unat loc + n \<le> 4294967296" "unat wl + length bs \<le> 4294967296"
  shows "flash_bytes (flash_prog wl bs f) loc n = flash_bytes f loc n"
proof (rule nth_equalityI)
  fix i assume "i < length (flash_bytes (flash_prog wl bs f) loc n)"
  then have i: "i < n" by simp
  have u: "unat (loc + of_nat i) = unat loc + i"
    using assms(2) i by (subst unat_add_lem [THEN iffD1]) (auto simp: unat_of_nat)
  have "\<not> unat (loc + of_nat i - wl) < length bs"
  proof (cases "unat wl \<le> unat loc + i")
    case True
    then have "wl \<le> loc + of_nat i" by (simp add: word_le_nat_alt u)
    from unat_sub [OF this] show ?thesis using assms(1) i True by (simp add: u)
  next
    case False
    have "loc + of_nat i - wl = of_nat (unat loc + i + (4294967296 - unat wl))"
      using unat_u32_less [of wl] by (simp add: of_nat_diff)
    then have "unat (loc + of_nat i - wl) = (unat loc + i + (4294967296 - unat wl)) mod 4294967296"
      by (simp only: unat_of_nat) simp
    then show ?thesis using False assms(3) by simp
  qed
  then show "flash_bytes (flash_prog wl bs f) loc n ! i = flash_bytes f loc n ! i"
    using i by (simp add: nth_flash_bytes flash_prog_def)
qed simp

text \<open>The state after a write that programmed \<open>bs\<close>: the flash and the answers change.\<close>

definition wrote :: "u32 \<Rightarrow> u8 list \<Rightarrow> 'a nv_world_scheme \<Rightarrow> 'a nv_world_scheme" where
  "wrote loc bs s = s\<lparr>nv_flash := flash_prog (loc - FLASH_PHYSICAL_ADDR_START) bs (nv_flash s),
     sfc_wr := (\<lambda>i. sfc_wr s (Suc i))\<rparr>"

lemma wrote_simps [simp]:
  "nv_quiet (wrote loc bs s) = nv_quiet s"
  "nv_flash (wrote loc bs s) = flash_prog (loc - FLASH_PHYSICAL_ADDR_START) bs (nv_flash s)"
  "g_nv_header_magic (wrote loc bs (u :: 'b kv_key_state_scheme)) = g_nv_header_magic u"
  by (simp_all add: wrote_def nv_quiet_def)

lemma unat_flash_offset: "FLASH_PHYSICAL_ADDR_START \<le> loc \<Longrightarrow> unat (loc - FLASH_PHYSICAL_ADDR_START) = unat loc - 0x200000"
  using unat_sub [of FLASH_PHYSICAL_ADDR_START loc] by simp

lemma wrote_image_below:
  assumes "FLASH_PHYSICAL_ADDR_START \<le> loc" and "unat loc + k \<le> unat wl" and "unat wl + length bs \<le> 0xA00000"
  shows "nv_image (wrote wl bs s) loc k = nv_image s loc k"
proof -
  have "0x200000 \<le> unat loc" using assms(1) by (simp add: word_le_nat_alt)
  moreover from this have "FLASH_PHYSICAL_ADDR_START \<le> wl" using assms(2) by (simp add: word_le_nat_alt)
  ultimately show ?thesis unfolding nv_image_def wrote_simps
    by (intro prog_disjoint; unfold unat_flash_offset [OF assms(1)] unat_flash_offset [OF \<open>FLASH_PHYSICAL_ADDR_START \<le> wl\<close>];
        use assms(2,3) in linarith)
qed

section \<open>Keys in front of a location\<close>

text \<open>Keys of a page that follow each other up to a location; their lengths are in the range of the storage.\<close>

fun keys_before :: "'a kv_key_state_scheme \<Rightarrow> u32 \<Rightarrow> kv_key_handle_t list \<Rightarrow> u32 \<Rightarrow> bool" where
  "keys_before s l [] loc \<longleftrightarrow> l = loc"
| "keys_before s l (k # ks) loc \<longleftrightarrow>
     k = key_at s l \<and> kh_magic (kk_header k) = KV_KEY_MAGIC \<and> kh_length (kk_header k) \<le> NV_NORMAL_KVALUE_MAX_LEN
     \<and> same_page l (next_location k) \<and> keys_before s (next_location k) ks loc"

text \<open>The area of each key lies below that location.\<close>

lemma next_location_nat:
  assumes "kh_length (kk_header (key_at s l)) \<le> NV_NORMAL_KVALUE_MAX_LEN" and "unat l < 0xA00000"
  shows "unat (next_location (key_at s l)) = unat l + 20 + pad4 (unat (kh_length (kk_header (key_at s l))))"
proof -
  let ?n = "unat (kh_length (kk_header (key_at s l)))"
  have n: "?n \<le> 4060" using assms(1) by (simp add: word_le_nat_alt)
  have "unat (kv_key_flash_size (key_at s l)) = 20 + pad4 ?n" using unat_flash_size [of "key_at s l"] n by simp
  moreover have "20 + pad4 ?n < 8192" using pad4_bounds(2) [of ?n] n by linarith
  ultimately show ?thesis using assms(2)
    by (simp add: next_location_def unat_word_ariths unat_ucast_u16_u32)
qed

lemma keys_before_step:
  assumes "keys_before s l (k # ks) loc" and "unat l div 4096 = p" and "p < 2560"
  shows "unat (next_location k) = unat l + 20 + pad4 (unat (kh_length (kk_header k)))"
    and "unat (next_location k) div 4096 = p" and "unat (next_location k + 16) div 4096 = p"
proof -
  have l: "unat l < 0xA00000" using assms(2,3) by simp
  have k: "k = key_at s l" "kh_length (kk_header k) \<le> NV_NORMAL_KVALUE_MAX_LEN" "same_page l (next_location k)"
    using assms(1) by auto
  show n: "unat (next_location k) = unat l + 20 + pad4 (unat (kh_length (kk_header k)))"
    using next_location_nat [of s l] k l by simp
  have "unat (kh_length (kk_header k)) \<le> 4060" using k(2) by (simp add: word_le_nat_alt)
  then have "unat (next_location k + 16) = unat (next_location k) + 16"
    using pad4_bounds(2) [of "unat (kh_length (kk_header k))"] l n by (simp add: unat_word_ariths)
  moreover show "unat (next_location k + 16) div 4096 = p" using k(3) assms(2) by (simp add: same_page_div)
  ultimately show "unat (next_location k) div 4096 = p"
    using n assms(2) div_le_mono [of "unat l" "unat (next_location k)" 4096]
      div_le_mono [of "unat (next_location k)" "unat (next_location k + 16)" 4096] by linarith
qed

lemma keys_before_le:
  "keys_before s l ks loc \<Longrightarrow> unat l div 4096 = p \<Longrightarrow> p < 2560 \<Longrightarrow> unat (l + 16) div 4096 = p \<Longrightarrow>
     unat l \<le> unat loc \<and> unat loc div 4096 = p \<and> unat (loc + 16) div 4096 = p"
proof (induction ks arbitrary: l)
  case (Cons k ks)
  note st = keys_before_step [OF Cons.prems(1-3)]
  have "keys_before s (next_location k) ks loc" using Cons.prems(1) unfolding keys_before.simps by blast
  from Cons.IH [OF this st(2) Cons.prems(3) st(3)] show ?case using st(1) by simp
qed simp

lemma wanted_same_images:
  assumes "g_nv_header_magic t = g_nv_header_magic s" and "nv_image t l 16 = nv_image s l 16"
    and "nv_image t (l + 16) (pad4 (unat (kh_length (kk_header (key_at s l)))))
      = nv_image s (l + 16) (pad4 (unat (kh_length (kk_header (key_at s l)))))"
    and "nv_image t (l + 16 + of_nat (pad4 (unat (kh_length (kk_header (key_at s l)))))) 4
      = nv_image s (l + 16 + of_nat (pad4 (unat (kh_length (kk_header (key_at s l)))))) 4"
  shows "is_wanted t key_id (key_at s l) = is_wanted s key_id (key_at s l)"
  using assms
  by (simp add: is_wanted_def key_intact_def Let_def checked_header_def kv_key_fix_header_for_validate_def)

text \<open>A write at that location changes none of the keys.\<close>

lemma keys_before_wrote:
  assumes "unat loc + length bs \<le> 0xA00000" and "p < 2560"
  shows "keys_before s l ks loc \<Longrightarrow> unat l div 4096 = p \<Longrightarrow> unat (l + 16) div 4096 = p \<Longrightarrow> FLASH_PHYSICAL_ADDR_START \<le> l \<Longrightarrow>
    keys_before (wrote loc bs s) l ks loc \<and> (\<forall>k \<in> set ks. is_wanted (wrote loc bs s) key_id k = is_wanted s key_id k)"
proof (induction ks arbitrary: l)
  case (Cons k ks)
  let ?t = "wrote loc bs s" and ?n = "pad4 (unat (kh_length (kk_header k)))"
  note st = keys_before_step [OF Cons.prems(1,2) assms(2)]
  have k: "k = key_at s l" "keys_before s (next_location k) ks loc" using Cons.prems(1) by auto
  have le: "unat l + 20 + ?n \<le> unat loc" using keys_before_le [OF k(2) st(2) assms(2) st(3)] st(1) by simp
  have a1: "unat (l + 16) = unat l + 16" using le unat_u32_less [of loc] by (simp add: unat_word_ariths)
  have a2: "unat (l + 16 + of_nat ?n) = unat l + 16 + ?n"
    using le unat_u32_less [of loc] a1 by (simp add: unat_word_ariths unat_of_nat)
  have ge: "FLASH_PHYSICAL_ADDR_START \<le> l" "FLASH_PHYSICAL_ADDR_START \<le> l + 16" "FLASH_PHYSICAL_ADDR_START \<le> l + 16 + of_nat ?n"
    "FLASH_PHYSICAL_ADDR_START \<le> next_location k"
    using Cons.prems(4) a1 a2 st(1) by (simp_all add: word_le_nat_alt)
  have i1: "nv_image ?t l 16 = nv_image s l 16" using le by (intro wrote_image_below [OF ge(1) _ assms(1)]) simp
  have i2: "nv_image ?t (l + 16) ?n = nv_image s (l + 16) ?n"
    using le a1 by (intro wrote_image_below [OF ge(2) _ assms(1)]) simp
  have i3: "nv_image ?t (l + 16 + of_nat ?n) 4 = nv_image s (l + 16 + of_nat ?n) 4"
    using le a2 by (intro wrote_image_below [OF ge(3) _ assms(1)]) simp
  have "key_at ?t l = k" unfolding k(1) by (simp add: key_at_def i1)
  moreover have "is_wanted ?t key_id k = is_wanted s key_id k"
    unfolding k(1) by (rule wanted_same_images) (use i1 i2 i3 in \<open>simp_all only: k(1) wrote_simps\<close>)
  ultimately show ?case using Cons.IH [OF k(2) st(2,3) ge(4)] Cons.prems(1) by auto
qed simp

text \<open>From a key to the next, when there is one in the page.\<close>

lemma next_handle_magic:
  assumes q: "nv_quiet s" and m: "g_nv_header_magic s = KV_KEY_MAGIC"
    and k: "k = key_at s l" "kh_magic (kk_header k) = KV_KEY_MAGIC" and p: "same_page l (next_location k)"
    and n: "kh_magic (kk_header (key_at s (next_location k))) = KV_KEY_MAGIC"
  shows "kv_key_get_next_handle k KV_KEY_NOT_VALIDATE s = Some (ERRCODE_SUCC, key_at s (next_location k), s)"
proof -
  have nf: "nv_image s l 16 \<noteq> replicate 16 0xFF" "nv_image s (next_location k) 16 \<noteq> replicate 16 0xFF"
    using k n by (auto simp: bytes_header_def)
  have kf: "\<not> kv_key_header_is_full_ff (kk_header k) 16" and kl: "kk_location k = l"
    using nf(1) full_ff_image [of s l] k(1) by simp_all
  have "kv_key_get_next_key_from_location l (next_location k) k s = (ERRCODE_SUCC, key_at s (next_location k), s)"
    using p nf(2) n get_handle_quiet [OF q m, of "next_location k" k]
    by (simp add: kv_key_get_next_key_from_location_def same_page_def)
  then show ?thesis
    unfolding kv_key_get_next_handle_def kv_key_get_next_handle_with_corrupt_key_def next_location_def Let_def kl
    using m k(2) kf by simp
qed

text \<open>The search behind a header that makes it stand still, with keys in front of it.\<close>

lemma find_loop_stuck_behind:
  assumes q: "nv_quiet s" and m: "g_nv_header_magic s = KV_KEY_MAGIC" and st: "stuck_key s (key_at s loc)"
  shows "keys_before s l ks loc \<Longrightarrow> find_key_loop (Some (valid_key_filter key_id)) ERRCODE_SUCC (key_at s l) s
    = (case find (is_wanted s key_id) ks of Some w \<Rightarrow> Some (ERRCODE_SUCC, w, s) | None \<Rightarrow> None)"
proof (induction ks arbitrary: l)
  case Nil
  then show ?case using find_key_loop_none [OF q m st] by simp
next
  case (Cons k ks)
  have k: "k = key_at s l" "kh_magic (kk_header k) = KV_KEY_MAGIC" "same_page l (next_location k)"
    "keys_before s (next_location k) ks loc" using Cons.prems by auto
  have "kh_magic (kk_header (key_at s (next_location k))) = KV_KEY_MAGIC"
    using k(4) st by (cases ks) (auto simp: stuck_key_def)
  note nh = next_handle_magic [OF q m k(1-3) this]
  obtain res where r: "kv_key_does_filter_match k (Some (valid_key_filter key_id)) s = (res, s)"
    "res = ERRCODE_SUCC \<longleftrightarrow> is_wanted s key_id k" using filter_match_wanted [OF q m] by blast
  show ?case unfolding k(1) [symmetric] using r nh Cons.IH [OF k(4)]
    by (cases "is_wanted s key_id k"; subst find_key_loop.simps; simp)
qed

lemma find_first_behind:
  assumes q: "nv_quiet s" and m: "g_nv_header_magic s = KV_KEY_MAGIC" and st: "stuck_key s (key_at s loc)"
    and ks: "keys_before s (page + 16) ks loc"
  shows "kv_page_find_first_key page (Some (valid_key_filter key_id)) key s
    = (case find (is_wanted s key_id) ks of Some w \<Rightarrow> Some (ERRCODE_SUCC, w, s) | None \<Rightarrow> None)"
proof -
  have mg: "kh_magic (bytes_header (nv_image s (page + 16) 16)) = KV_KEY_MAGIC"
    using ks st by (cases ks) (auto simp: stuck_key_def)
  then have nf: "nv_image s (page + 16) 16 \<noteq> replicate 16 0xFF" by (auto simp: bytes_header_def)
  then show ?thesis
    using mg find_loop_stuck_behind [OF q m st ks, of key_id] by (simp add: kv_page_find_first_key_def get_handle_quiet [OF q m])
qed

lemma torn_header_stuck:
  assumes pg: "same_page loc loc"
    and img: "nv_image s loc 16 = KV_KEY_MAGIC # KV_KEY_VALID # l # replicate 13 0xFF" and l: "l \<in> {0xE9 .. 0xEC}"
  shows "stuck_key s (key_at s loc)"
proof -
  have "unat l \<in> {233 .. 236}" using l by (auto simp: word_le_nat_alt)
  then have "unat l = 233 \<or> unat l = 234 \<or> unat l = 235 \<or> unat l = 236" by auto
  then have "l = 0xE9 \<or> l = 0xEA \<or> l = 0xEB \<or> l = 0xEC" by (simp add: word_unat_eq_iff)
  then have "half_le l 0xFF \<in> {0xFFE9 .. 0xFFEC}" by (auto simp: half_le_def)
  moreover have "nv_image s loc 16 ! 0 = KV_KEY_MAGIC" "nv_image s loc 16 ! 2 = l"
    "nv_image s loc 16 ! 3 = 0xFF" by (simp_all add: img nth_Cons')
  ultimately show ?thesis using pg
    by (simp add: stuck_key_def bytes_header_def)
qed

text \<open>C38: A power loss during a write can make the storage hang. Let the write of a key whose length is
  between 233 and 236 stop behind the third byte of its header, behind any keys of the page. The search of the page still
  finds what it found among the keys in front; for every other key number it never returns: the
  length that is read back is 0xFFE9 to 0xFFEC, the size of the key wraps around to 0, and the walk goes from the key to
  itself.\<close>

theorem torn_header_hangs:
  assumes q: "nv_quiet s" and m: "g_nv_header_magic s = KV_KEY_MAGIC"
    and pg: "unat page mod 4096 = 0" "FLASH_PHYSICAL_ADDR_START \<le> page" "unat page + 4096 \<le> 0xA00000"
    and keys: "keys_before s (page + 16) ks loc"
    and erased: "nv_image s loc 16 = replicate 16 0xFF"
    and bs: "take 3 bs = [KV_KEY_MAGIC, KV_KEY_VALID, l]" "l \<in> {0xE9 .. 0xEC}" "unat loc + length bs \<le> unat page + 4096"
    and fails: "sfc_wr s 0 = (code, 3)" "code \<noteq> ERRCODE_SUCC"
  shows "fst (kv_key_write_flash loc bs s) = ERRCODE_NV_READ_FLASH_ERR
    \<and> kv_page_find_first_key page (Some (valid_key_filter key_id)) key (snd (kv_key_write_flash loc bs s))
      = (case find (is_wanted s key_id) ks of
           Some k \<Rightarrow> Some (ERRCODE_SUCC, k, snd (kv_key_write_flash loc bs s)) | None \<Rightarrow> None)"
proof -
  let ?t = "wrote loc (take 3 bs) s" and ?p = "unat page div 4096"
  have p: "?p < 2560" "unat (page + 16) = unat page + 16" "unat (page + 16 + 16) = unat page + 32"
    using pg(3) unat_page_offset [OF pg(1), of 16] unat_page_offset [OF pg(1), of 32] by (simp_all add: add.assoc)
  then have p16: "unat (page + 16) div 4096 = ?p" "unat (page + 16 + 16) div 4096 = ?p"
    using pg(1) by (simp_all add: div_add1_eq [of "unat page"])
  have loc: "unat (page + 16) \<le> unat loc" "unat loc div 4096 = ?p" "unat (loc + 16) div 4096 = ?p"
    using keys_before_le [OF keys p16(1) p(1) p16(2)] by auto
  have ge: "FLASH_PHYSICAL_ADDR_START \<le> page + 16" "FLASH_PHYSICAL_ADDR_START \<le> loc"
    using pg(2) p(2) loc(1) by (simp_all add: word_le_nat_alt)
  have room: "unat loc + length (take 3 bs) \<le> 0xA00000" "loc + of_nat (length bs) \<le> FLASH_PHYSICAL_ADDR_END"
    using bs(3) pg(3) by (simp_all add: word_le_nat_alt unat_word_ariths unat_of_nat)
  have w: "kv_key_write_flash loc bs s = (ERRCODE_NV_READ_FLASH_ERR, ?t)"
    using fails room(2) ge(2) kv_malloc_quiet [OF q]
    by (simp add: kv_key_write_flash_def kv_key_direct_write_flash_def kv_flash_write_def uapi_sfc_reg_write_def wrote_def)
  have "nv_image ?t loc 16 = nv_image (s\<lparr>nv_flash := flash_prog (loc - FLASH_PHYSICAL_ADDR_START)
      (take 3 bs) (nv_flash s)\<rparr>) loc 16" by (simp add: nv_image_def)
  also have "\<dots> = KV_KEY_MAGIC # KV_KEY_VALID # l # replicate 13 0xFF"
    unfolding bs(1) by (subst prog_image, simp, simp, simp add: erased u8_FF_and)
  finally have torn: "stuck_key ?t (key_at ?t loc)"
    using torn_header_stuck [of loc ?t l] loc(2,3) bs(2) by (simp add: same_page_div)
  note before = keys_before_wrote [OF room(1) p(1) keys p16 ge(1)]
  have "find (is_wanted ?t key_id) ks = find (is_wanted s key_id) ks"
    using before by (intro find_cong) auto
  then show ?thesis using find_first_behind [of ?t loc page ks key_id key] torn before q m unfolding w
    by (simp split: option.splits)
qed

text \<open>Behind the key 5 of the store, the write of a key 7 of 236 bytes stops: 5 is found, 6 is not looked up to an end.\<close>

lemma torn_header_hangs_witness:
  "let torn = snd (kv_key_write_flash 0x22C028 [0xA9, 0xFF, 0xEC, 0, 0xFF, 0xFF, 7, 0] (demo_store\<lparr>sfc_wr := (\<lambda>n. (1, 3))\<rparr>));
       key = \<lparr>kk_header = bytes_header [], kk_location = 0\<rparr>
   in kv_page_find_first_key 0x22C000 (Some (valid_key_filter 5)) key torn = Some (ERRCODE_SUCC, key_at demo_store 0x22C010, torn) \<and>
      kv_page_find_first_key 0x22C000 (Some (valid_key_filter 6)) key torn = None"
proof -
  let ?s = "demo_store\<lparr>sfc_wr := (\<lambda>n. (1, 3))\<rparr>"
  have h: "nv_quiet ?s" "g_nv_header_magic ?s = KV_KEY_MAGIC" using demo_quiet by simp_all
  have c: "keys_before ?s (0x22C000 + 16) [key_at demo_store 0x22C010] 0x22C028"
    "nv_image ?s 0x22C028 16 = replicate 16 0xFF" "find (is_wanted ?s 5) [key_at demo_store 0x22C010] = Some (key_at demo_store 0x22C010)"
    "find (is_wanted ?s 6) [key_at demo_store 0x22C010] = None"
    by code_simp+
  have b: "take 3 [0xA9, 0xFF, 0xEC, 0, 0xFF, 0xFF, 7, 0] = [KV_KEY_MAGIC, KV_KEY_VALID, 0xEC]" "(0xEC :: u8) \<in> {0xE9 .. 0xEC}"
    "unat (0x22C028 :: u32) + length [0xA9, 0xFF, 0xEC, 0, 0xFF, 0xFF, 7, 0 :: u8] \<le> unat (0x22C000 :: u32) + 4096"
    "unat (0x22C000 :: u32) mod 4096 = 0" "FLASH_PHYSICAL_ADDR_START \<le> 0x22C000" "unat (0x22C000 :: u32) + 4096 \<le> 0xA00000"
    "sfc_wr ?s 0 = (1, 3)" "(1 :: u32) \<noteq> ERRCODE_SUCC" by simp_all
  note hang = torn_header_hangs [OF h b(4,5,6) c(1,2) b(1,2,3,7,8)]
  show ?thesis unfolding Let_def using hang [of 5] hang [of 6] c(3,4) by simp
qed

section \<open>A write that writes nothing\<close>

text \<open>C39: Writing a key reports success although nothing is written when the first allocation fails: the result of
  \<open>begin_state_machine\<close> is not looked at, and with an empty list of machines the loop ends at once with success.
\<close>

theorem write_without_memory_succeeds:
  assumes "g_machines s = []" "\<not> nv_heap s 0"
  shows "\<exists>t. kv_update_write_key store key_id value attr force s = Some (ERRCODE_SUCC, t)
    \<and> nv_flash t = nv_flash s \<and> g_machines t = []"
  using assms
  by (auto simp: kv_update_write_key_def run_task_def active_state_machine_def begin_state_machine_def kv_malloc_def
      process_state_machine.simps determine_flash_task_state_code_def)

lemma write_without_memory_witness:
  "\<exists>t. kv_update_write_key 0 7 [1, 2] 0 False (demo_store\<lparr>nv_heap := (\<lambda>_. False)\<rparr>) = Some (ERRCODE_SUCC, t)
    \<and> nv_flash t = nv_flash demo_store \<and> g_machines t = []"
  using write_without_memory_succeeds [of "demo_store\<lparr>nv_heap := (\<lambda>_. False)\<rparr>" 0 7 "[1, 2]" 0 False]
  by (simp add: demo_store_def)

end
